(* ===== verification/Prelude.thy ===== *)
theory Prelude
  imports "HOL-Library.AList" "HOL-Library.List_Lexorder" "HOL-Library.Char_ord"
    "HOL-Library.State_Monad" "HOL-Library.Multiset"
begin

text \<open>
  What every component of the scheduler shares: the error values the Go code returns, Go maps as
  association lists, 64-bit integers as \<open>int\<close> with the wrap-around written out, and the few
  functions of the Go packages \<^verbatim>\<open>strings\<close> and \<^verbatim>\<open>strconv\<close> that the sources call.
  A Go \<^verbatim>\<open>string\<close> is a sequence of bytes, here a HOL \<open>string\<close> (a \<open>char list\<close>), whose
  order is the bytewise lexicographic one.
\<close>

section \<open>Errors\<close>

text \<open>
  One constructor for each package-level error variable (the code compares these by identity),
  \<open>Errorf\<close> for an error made on the spot and \<open>Wrapped\<close> for \<^verbatim>\<open>fmt.Errorf("...: %w", err)\<close>.
  \<open>Panic\<close> stands for a run-time panic, which ends the call in place of an error.
\<close>

datatype error =
    ErrTaskNameRequired | ErrTaskTypeRequired | ErrTaskIDRequired | ErrInvalidCronExpr
  | ErrTaskNotEnabled | ErrTaskNotOwned
  | ErrScheduleInstanceIDRequired | ErrTaskInstanceIDRequired
  | ErrWorkerIDRequired | ErrWorkerHostRequired
  | ErrNoAvailableWorker
  | ErrTaskNotFound | ErrTaskInstanceNotFound | ErrWorkerNotFound
  | Errorf string
  | Panic string
  | Wrapped string error

primrec error_text :: "error \<Rightarrow> string" where
  "error_text ErrTaskNameRequired = ''task name is required''"
| "error_text ErrTaskTypeRequired = ''task type is required''"
| "error_text ErrTaskIDRequired = ''task id is required''"
| "error_text ErrInvalidCronExpr = ''invalid cron expression''"
| "error_text ErrTaskNotEnabled = ''task is not enabled''"
| "error_text ErrTaskNotOwned = ''task does not belong to this tenant''"
| "error_text ErrScheduleInstanceIDRequired = ''schedule_instance_id is required''"
| "error_text ErrTaskInstanceIDRequired = ''task instance id is required''"
| "error_text ErrWorkerIDRequired = ''worker_id is required''"
| "error_text ErrWorkerHostRequired = ''hostname is required''"
| "error_text ErrNoAvailableWorker = ''no available worker''"
| "error_text ErrTaskNotFound = ''task not found''"
| "error_text ErrTaskInstanceNotFound = ''task instance not found''"
| "error_text ErrWorkerNotFound = ''worker not found''"
| "error_text (Errorf s) = s"
| "error_text (Panic s) = s"
| "error_text (Wrapped s e) = s @ '': '' @ error_text e"

section \<open>Collections of the development\<close>

named_theorems go_run \<open>what an effectful operation does to the world\<close>
named_theorems map_laws \<open>laws of Go maps as association lists\<close>
named_theorems wps \<open>weakest preconditions through conditionals and bindings\<close>

section \<open>Go maps\<close>

text \<open>
  A Go map is an association list with distinct keys. The order of the list is the order in which
  a \<^verbatim>\<open>range\<close> loop would visit the entries; Go leaves it unspecified, so no theorem assumes
  anything about it beyond distinctness of the keys.
\<close>

type_synonym ('k, 'v) gomap = "('k \<times> 'v) list"

definition wf_map :: "('k, 'v) gomap \<Rightarrow> bool" where
  "wf_map m = distinct (map fst m)"

abbreviation mget :: "('k, 'v) gomap \<Rightarrow> 'k \<Rightarrow> 'v option" where
  "mget m k \<equiv> map_of m k"

abbreviation mput :: "'k \<Rightarrow> 'v \<Rightarrow> ('k, 'v) gomap \<Rightarrow> ('k, 'v) gomap" where
  "mput k v m \<equiv> AList.update k v m"

abbreviation mdel :: "'k \<Rightarrow> ('k, 'v) gomap \<Rightarrow> ('k, 'v) gomap" where
  "mdel k m \<equiv> AList.delete k m"

text \<open>Reading a missing key gives the zero value of the element type.\<close>

definition the_default :: "'v \<Rightarrow> 'v option \<Rightarrow> 'v" where
  "the_default d x = (case x of None \<Rightarrow> d | Some v \<Rightarrow> v)"

lemma the_default_simps [simp]: "the_default d None = d" "the_default d (Some v) = v"
  by (simp_all add: the_default_def)

lemma wf_map_Nil [simp]: "wf_map []"
  by (simp add: wf_map_def)

lemma wf_map_mput [simp, intro]: "wf_map m \<Longrightarrow> wf_map (mput k v m)"
  by (simp add: wf_map_def distinct_update)

lemma wf_map_mdel [simp, intro]: "wf_map m \<Longrightarrow> wf_map (mdel k m)"
  by (simp add: wf_map_def distinct_delete)

lemma mget_mput [simp, map_laws]: "mget (mput k v m) k' = (if k' = k then Some v else mget m k')"
  by (simp add: update_conv')

lemma mget_mdel [simp, map_laws]: "mget (mdel k m) k' = (if k' = k then None else mget m k')"
  by (simp add: delete_conv')

lemma wf_map_mem_iff: "wf_map m \<Longrightarrow> (k, v) \<in> set m \<longleftrightarrow> mget m k = Some v"
  by (simp add: wf_map_def)

lemma mget_in_snd: "mget m k = Some v \<Longrightarrow> v \<in> snd ` set m"
  by (force dest: map_of_SomeD)

lemma distinct_snd_values:
  "wf_map m \<Longrightarrow> \<forall>(k, v) \<in> set m. key v = k \<Longrightarrow> distinct (map key (map snd m))"
proof -
  assume a: "wf_map m" "\<forall>(k, v) \<in> set m. key v = k"
  then have "map key (map snd m) = map fst m" by auto
  with a(1) show ?thesis by (simp only: wf_map_def)
qed

section \<open>64-bit integers\<close>

text \<open>Go's \<^verbatim>\<open>int\<close>, \<^verbatim>\<open>int64\<close> and \<^verbatim>\<open>time.Duration\<close> are 64 bits wide and wrap around.\<close>

definition wrap64 :: "int \<Rightarrow> int" where
  "wrap64 x = (x + 2 ^ 63) mod 2 ^ 64 - 2 ^ 63"

definition in_int64 :: "int \<Rightarrow> bool" where
  "in_int64 x \<longleftrightarrow> - (2 ^ 63) \<le> x \<and> x < 2 ^ 63"

lemma wrap64_id [simp]: "in_int64 x \<Longrightarrow> wrap64 x = x"
  by (simp add: wrap64_def in_int64_def)

lemma in_int64_wrap64 [simp]: "in_int64 (wrap64 x)"
  by (simp add: wrap64_def in_int64_def)

text \<open>Go's \<^verbatim>\<open>/\<close> and \<^verbatim>\<open>%\<close> truncate towards zero.\<close>

definition go_div :: "int \<Rightarrow> int \<Rightarrow> int" where
  "go_div a b = sgn a * sgn b * (\<bar>a\<bar> div \<bar>b\<bar>)"

definition go_mod :: "int \<Rightarrow> int \<Rightarrow> int" where
  "go_mod a b = sgn a * (\<bar>a\<bar> mod \<bar>b\<bar>)"

lemma go_div_nonneg [simp]: "0 \<le> a \<Longrightarrow> 0 < b \<Longrightarrow> go_div a b = a div b"
  by (cases "a = 0") (auto simp: go_div_def)

lemma go_mod_nonneg [simp]: "0 \<le> a \<Longrightarrow> 0 < b \<Longrightarrow> go_mod a b = a mod b"
  by (cases "a = 0") (auto simp: go_mod_def)

section \<open>Lists\<close>

text \<open>\<^verbatim>\<open>sort.Slice\<close> by a key; where keys are equal Go leaves the order open.\<close>

abbreviation sort_by :: "('a \<Rightarrow> 'k::linorder) \<Rightarrow> 'a list \<Rightarrow> 'a list" where
  "sort_by f xs \<equiv> sort_key f xs"

text \<open>\<^verbatim>\<open>if limit > 0 && len(xs) > limit { xs = xs[:limit] }\<close>\<close>

definition limit_list :: "int \<Rightarrow> 'a list \<Rightarrow> 'a list" where
  "limit_list n xs = (if 0 < n \<and> n < int (length xs) then take (nat n) xs else xs)"

lemma set_limit_list: "set (limit_list n xs) \<subseteq> set xs"
  by (auto simp: limit_list_def dest: in_set_takeD)

lemma length_limit_list: "0 < n \<Longrightarrow> int (length (limit_list n xs)) \<le> n"
  by (auto simp: limit_list_def)

lemma sorted_limit_list: "sorted (map f xs) \<Longrightarrow> sorted (map f (limit_list n xs))"
  by (auto simp: limit_list_def sorted_wrt_take simp flip: take_map)

lemma limit_list_id: "int (length xs) \<le> n \<Longrightarrow> limit_list n xs = xs"
  by (auto simp: limit_list_def)

lemma mset_rotate: "mset (rotate n xs) = mset xs"
proof (induction n)
  case (Suc n)
  have "mset (rotate1 ys) = mset ys" for ys :: "'a list" by (cases ys) simp_all
  with Suc show ?case by (simp add: rotate_def)
qed simp

section \<open>The packages strings and strconv\<close>

definition ascii_space :: "char \<Rightarrow> bool" where
  "ascii_space c \<longleftrightarrow> c \<in> {CHR 0x09, CHR 0x0A, CHR 0x0B, CHR 0x0C, CHR 0x0D, CHR '' ''}"

text \<open>The UTF-8 encodings of the white space beyond ASCII, as \<^verbatim>\<open>unicode.IsSpace\<close> has it.\<close>

definition unicode_spaces :: "string list" where
  "unicode_spaces =
     [[CHR 0xC2, CHR 0x85], [CHR 0xC2, CHR 0xA0], [CHR 0xE1, CHR 0x9A, CHR 0x80]]
     @ map (\<lambda>c. [CHR 0xE2, CHR 0x80, c])
         [CHR 0x80, CHR 0x81, CHR 0x82, CHR 0x83, CHR 0x84, CHR 0x85, CHR 0x86, CHR 0x87,
          CHR 0x88, CHR 0x89, CHR 0x8A, CHR 0xA8, CHR 0xA9, CHR 0xAF]
     @ [[CHR 0xE2, CHR 0x81, CHR 0x9F], [CHR 0xE3, CHR 0x80, CHR 0x80]]"

fun is_prefix :: "string \<Rightarrow> string \<Rightarrow> bool" where
  "is_prefix [] s = True"
| "is_prefix (c # p) [] = False"
| "is_prefix (c # p) (d # s) = (c = d \<and> is_prefix p s)"

text \<open>How many bytes of white space start a string (0: none); \<open>sps\<close> lists the multi-byte spaces.\<close>

fun ws_len :: "string list \<Rightarrow> string \<Rightarrow> nat" where
  "ws_len sps [] = 0"
| "ws_len sps (c # s) =
     (if ascii_space c then 1
      else case find (\<lambda>p. is_prefix p (c # s)) sps of None \<Rightarrow> 0 | Some p \<Rightarrow> length p)"

function trim_left :: "string list \<Rightarrow> string \<Rightarrow> string" where
  "trim_left sps s = (if s = [] \<or> ws_len sps s = 0 then s else trim_left sps (drop (ws_len sps s) s))"
  by pat_completeness auto
termination
  by (relation "measure (length \<circ> snd)") auto

declare trim_left.simps [simp del]

definition TrimSpace :: "string \<Rightarrow> string" where
  "TrimSpace s = rev (trim_left (map rev unicode_spaces) (rev (trim_left unicode_spaces s)))"

text \<open>
  \<^verbatim>\<open>strings.Fields\<close>: the maximal runs of bytes outside white space. \<open>acc\<close> is the current run,
  reversed.
\<close>

function fields_acc :: "string \<Rightarrow> string \<Rightarrow> string list" where
  "fields_acc acc [] = (if acc = [] then [] else [rev acc])"
| "fields_acc acc (c # s) =
     (let n = ws_len unicode_spaces (c # s) in
      if n = 0 then fields_acc (c # acc) s
      else (if acc = [] then [] else [rev acc]) @ fields_acc [] (drop n (c # s)))"
  by pat_completeness auto
termination
  by (relation "measure (length \<circ> snd)") (auto simp: Let_def)

definition Fields :: "string \<Rightarrow> string list" where
  "Fields s = fields_acc [] s"

text \<open>\<^verbatim>\<open>strings.Split\<close> with a separator of one byte.\<close>

fun Split :: "char \<Rightarrow> string \<Rightarrow> string list" where
  "Split c [] = [[]]"
| "Split c (x # xs) =
     (if x = c then [] # Split c xs
      else case Split c xs of [] \<Rightarrow> [[x]] | y # ys \<Rightarrow> (x # y) # ys)"

lemma Split_neq_Nil [simp]: "Split c s \<noteq> []"
  by (induction s) (auto split: list.splits)

lemma Split_no_sep: "c \<notin> set s \<Longrightarrow> Split c s = [s]"
  by (induction s) auto

lemma Split_append_sep: "c \<notin> set s \<Longrightarrow> Split c (s @ c # t) = s # Split c t"
  by (induction s) auto

text \<open>\<^verbatim>\<open>strings.Join\<close>; splitting undoes joining when no part holds the separator.\<close>

fun Join :: "char \<Rightarrow> string list \<Rightarrow> string" where
  "Join c [] = []"
| "Join c [x] = x"
| "Join c (x # y # ys) = x @ c # Join c (y # ys)"

lemma Split_Join: "xs \<noteq> [] \<Longrightarrow> \<forall>x \<in> set xs. c \<notin> set x \<Longrightarrow> Split c (Join c xs) = xs"
  by (induction c xs rule: Join.induct) (auto simp: Split_no_sep Split_append_sep)

text \<open>Text without white space at its ends is not trimmed.\<close>

definition plain :: "char \<Rightarrow> bool" where
  "plain c \<longleftrightarrow> (of_char c :: nat) < 128 \<and> \<not> ascii_space c"

lemma high_spaces:
  "\<forall>p \<in> set unicode_spaces. p \<noteq> [] \<and> 128 \<le> (of_char (hd p) :: nat)"
  "\<forall>p \<in> set (map rev unicode_spaces). p \<noteq> [] \<and> 128 \<le> (of_char (hd p) :: nat)"
  by (simp_all add: unicode_spaces_def)

lemma ws_len_plain_gen:
  assumes "plain c" and "\<forall>p \<in> set sps. p \<noteq> [] \<and> 128 \<le> (of_char (hd p) :: nat)"
  shows "ws_len sps (c # s) = 0"
proof -
  have "\<not> is_prefix p (c # s)" if "p \<in> set sps" for p
  proof -
    from that assms(2) have "p \<noteq> [] \<and> 128 \<le> (of_char (hd p) :: nat)" by blast
    with assms(1) show ?thesis by (cases p) (auto simp: plain_def)
  qed
  then have "find (\<lambda>p. is_prefix p (c # s)) sps = None" by (auto simp: find_None_iff)
  with assms(1) show ?thesis by (simp add: plain_def)
qed

lemmas ws_len_plain = ws_len_plain_gen [OF _ high_spaces(1)] ws_len_plain_gen [OF _ high_spaces(2)]

lemma trim_left_plain: "s = [] \<or> ws_len sps s = 0 \<Longrightarrow> trim_left sps s = s"
  by (subst trim_left.simps) simp

lemma TrimSpace_plain: "s \<noteq> [] \<Longrightarrow> plain (hd s) \<Longrightarrow> plain (last s) \<Longrightarrow> TrimSpace s = s"
proof -
  assume a: "s \<noteq> []" "plain (hd s)" "plain (last s)"
  then have "ws_len unicode_spaces s = 0" using ws_len_plain(1) [of "hd s" "tl s"] by simp
  moreover have "ws_len (map rev unicode_spaces) (rev s) = 0"
    using a ws_len_plain(2) [of "last s" "rev (butlast s)"]
    by (metis append_butlast_last_id rev.simps(1) rev.simps(2) rev_append append_Cons append_Nil)
  ultimately show ?thesis by (simp add: TrimSpace_def trim_left_plain)
qed

text \<open>\<^verbatim>\<open>strings.TrimRight(s, "/")\<close>\<close>

definition trim_slashes :: "string \<Rightarrow> string" where
  "trim_slashes s = rev (dropWhile (\<lambda>c. c = CHR ''/'') (rev s))"

definition ascii_lower :: "char \<Rightarrow> char" where
  "ascii_lower c = (let n = (of_char c :: nat) in if 65 \<le> n \<and> n \<le> 90 then char_of (n + 32) else c)"

text \<open>
  \<^verbatim>\<open>strings.EqualFold(s, t)\<close> for a pattern \<open>t\<close> of ASCII letters other than k and s, which have no
  case variants outside ASCII.
\<close>

definition EqualFold :: "string \<Rightarrow> string \<Rightarrow> bool" where
  "EqualFold s t \<longleftrightarrow> map ascii_lower s = map ascii_lower t"

text \<open>Decimal rendering (\<^verbatim>\<open>%d\<close>) and \<^verbatim>\<open>strconv.Atoi\<close>.\<close>

definition digit_char :: "nat \<Rightarrow> char" where
  "digit_char d = char_of (48 + d)"

definition is_digit :: "char \<Rightarrow> bool" where
  "is_digit c \<longleftrightarrow> 48 \<le> (of_char c :: nat) \<and> (of_char c :: nat) \<le> 57"

definition digit_val :: "char \<Rightarrow> nat" where
  "digit_val c = of_char c - 48"

fun dec_nat :: "nat \<Rightarrow> string" where
  "dec_nat n = (if n < 10 then [digit_char n] else dec_nat (n div 10) @ [digit_char (n mod 10)])"

declare dec_nat.simps [simp del]

definition itoa :: "int \<Rightarrow> string" where
  "itoa n = (if n < 0 then CHR ''-'' # dec_nat (nat (- n)) else dec_nat (nat n))"

definition digits_val :: "string \<Rightarrow> nat" where
  "digits_val s = foldl (\<lambda>v c. 10 * v + digit_val c) 0 s"

definition Atoi :: "string \<Rightarrow> int option" where
  "Atoi s =
     (let neg = (s \<noteq> [] \<and> hd s = CHR ''-'');
          ds = (if s \<noteq> [] \<and> (hd s = CHR ''-'' \<or> hd s = CHR ''+'') then tl s else s)
      in if ds = [] \<or> \<not> list_all is_digit ds then None
         else let v = (if neg then - int (digits_val ds) else int (digits_val ds))
              in if in_int64 v then Some v else None)"

lemma of_char_digit_char [simp]: "d < 10 \<Longrightarrow> of_char (digit_char d) = 48 + d"
  by (simp add: digit_char_def)

lemma is_digit_digit_char [simp]: "d < 10 \<Longrightarrow> is_digit (digit_char d)"
  by (simp add: is_digit_def)

lemma digit_val_digit_char [simp]: "d < 10 \<Longrightarrow> digit_val (digit_char d) = d"
  by (simp add: digit_val_def)

lemma digits_val_snoc [simp]: "digits_val (s @ [c]) = 10 * digits_val s + digit_val c"
  by (simp add: digits_val_def)

lemma digits_val_dec_nat: "digits_val (dec_nat n) = n"
proof (induction n rule: dec_nat.induct)
  case (1 n)
  show ?case
  proof (cases "n < 10")
    case True
    then show ?thesis by (simp add: dec_nat.simps [of n] digits_val_def)
  next
    case False
    with "1" show ?thesis by (simp add: dec_nat.simps [of n])
  qed
qed

lemma dec_nat_digits: "list_all is_digit (dec_nat n) \<and> dec_nat n \<noteq> []"
proof (induction n rule: dec_nat.induct)
  case (1 n)
  then show ?case by (cases "n < 10") (simp_all add: dec_nat.simps [of n])
qed

lemma not_sign_digit: "is_digit c \<Longrightarrow> c \<noteq> CHR ''-'' \<and> c \<noteq> CHR ''+''"
  by (auto simp: is_digit_def)

lemma hd_dec_nat: "hd (dec_nat n) \<noteq> CHR ''-'' \<and> hd (dec_nat n) \<noteq> CHR ''+''"
  using dec_nat_digits [of n] not_sign_digit by (cases "dec_nat n") auto

lemma plain_digit: "is_digit c \<Longrightarrow> plain c"
  by (auto simp: is_digit_def plain_def ascii_space_def)

lemma itoa_digits: "0 \<le> n \<Longrightarrow> list_all is_digit (itoa n) \<and> itoa n \<noteq> []"
  by (simp add: itoa_def dec_nat_digits)

text \<open>Reading back what \<^verbatim>\<open>%d\<close> printed gives the same integer.\<close>

lemma Atoi_itoa: "in_int64 n \<Longrightarrow> Atoi (itoa n) = Some n"
  using dec_nat_digits [of "nat n"] dec_nat_digits [of "nat (- n)"]
    hd_dec_nat [of "nat n"] hd_dec_nat [of "nat (- n)"]
  by (auto simp: Atoi_def itoa_def digits_val_dec_nat Let_def)

lemma itoa_inject: "in_int64 m \<Longrightarrow> in_int64 n \<Longrightarrow> itoa m = itoa n \<longleftrightarrow> m = n"
  by (metis Atoi_itoa option.inject)

section \<open>Effects\<close>

text \<open>
  An operation with effects is a state monad computation over the world of the process; a fallible
  one returns \<open>error + 'a\<close>. \<open>ret\<close>, \<open>raise\<close> and \<open>if_err\<close> spell Go's \<^verbatim>\<open>return v, nil\<close>,
  \<^verbatim>\<open>return nil, err\<close> and \<^verbatim>\<open>if err != nil { ... }\<close>.
\<close>

abbreviation ret :: "'a \<Rightarrow> ('w, 'e + 'a) state" where
  "ret x \<equiv> State_Monad.return (Inr x)"

abbreviation raise :: "'e \<Rightarrow> ('w, 'e + 'a) state" where
  "raise e \<equiv> State_Monad.return (Inl e)"

definition reads :: "('w \<Rightarrow> 'a) \<Rightarrow> ('w, 'a) state" where
  "reads f = State (\<lambda>w. (f w, w))"

definition modify :: "('w \<Rightarrow> 'w) \<Rightarrow> ('w, unit) state" where
  "modify f = State (\<lambda>w. ((), f w))"

lemma run_reads [simp, go_run]: "run_state (reads f) w = (f w, w)"
  by (simp add: reads_def)

lemma run_modify [simp, go_run]: "run_state (modify f) w = ((), f w)"
  by (simp add: modify_def)

end
