(* ===== verification/Model.thy ===== *)
theory Model
  imports Prelude Complex_Main
begin

text \<open>
  The domain records of \<^verbatim>\<open>internal/model\<close>, one HOL record per Go struct with the struct's fields in
  its order. A field carries its record's letter first (\<open>t_\<close> task, \<open>i_\<close> instance, \<open>w_\<close> worker,
  \<open>q_\<close> execute request, \<open>d_\<close> dependency), since a HOL field name is a global constant. A
  \<^verbatim>\<open>time.Time\<close> is its instant in nanoseconds since the Unix epoch; the zero \<^verbatim>\<open>Time\<close> is
  midnight of January 1 of year 1.
\<close>

type_synonym time = int
type_synonym duration = int

definition zero_time :: time where
  "zero_time = - 62135596800 * 10 ^ 9"

abbreviation IsZero :: "time \<Rightarrow> bool" where
  "IsZero t \<equiv> t = zero_time"

abbreviation second :: duration where
  "second \<equiv> 1000000000"

abbreviation millisecond :: duration where
  "millisecond \<equiv> 1000000"

abbreviation minute :: duration where
  "minute \<equiv> 60000000000"

record Task =
  t_ID :: int
  t_Name :: string
  t_Type :: string
  t_CronExpr :: string
  t_Payload :: string
  t_Image :: string
  t_Status :: string
  t_TimeoutSeconds :: int
  t_MaxRetry :: int
  t_RetryPolicy :: string
  t_RetryOnErrors :: string
  t_RetryIntervalSeconds :: int
  t_RetryWindowSeconds :: int
  t_RouteStrategy :: string
  t_Labels :: string
  t_NextTriggerTime :: time
  t_TenantID :: int
  t_Version :: int
  t_TotalShards :: int
  t_IdempotencyKey :: string
  t_TriggerType :: string
  t_EventName :: string
  t_CreatedAt :: time
  t_UpdatedAt :: time

record TaskInstance =
  i_ID :: int
  i_TaskID :: int
  i_ScheduleInstanceID :: string
  i_ShardNo :: int
  i_ShardTotal :: int
  i_TriggerTime :: time
  i_DispatchTime :: time
  i_StartedAt :: time
  i_FinishedAt :: time
  i_WorkerID :: string
  i_Status :: string
  i_RetryCount :: int
  i_ErrorCode :: string
  i_ErrorMessage :: string
  i_AnalysisJSON :: string
  i_NextRetryTime :: time
  i_TraceID :: string
  i_CreatedAt :: time
  i_UpdatedAt :: time

record WorkerNode =
  w_ID :: string
  w_Hostname :: string
  w_IP :: string
  w_CallbackURL :: string
  w_GRPCAddr :: string
  w_Protocol :: string
  w_Status :: string
  w_Labels :: string
  w_MaxConcurrency :: int
  w_CurrentLoad :: int
  w_LastHeartbeatAt :: time

record ExecuteTaskRequest =
  q_ScheduleInstanceID :: string
  q_TaskID :: int
  q_TaskType :: string
  q_Payload :: string
  q_Image :: string
  q_TimeoutSeconds :: int
  q_RetryCount :: int
  q_ShardNo :: int
  q_ShardTotal :: int
  q_IdempotencyKey :: string
  q_SchedulerURL :: string

record TaskDependency =
  d_ID :: int
  d_TaskID :: int
  d_DependsOnTaskID :: int

text \<open>A \<^verbatim>\<open>float64\<close> is the rational it stands for.\<close>

record AIAnalysisRecord =
  a_ID :: int
  a_InstanceID :: int
  a_AnalysisType :: string
  a_InputJSON :: string
  a_OutputJSON :: string
  a_Confidence :: rat
  a_CreatedAt :: time

record WorkerLoadSnapshot =
  l_ID :: int
  l_WorkerID :: string
  l_CurrentLoad :: int
  l_MaxConcurrency :: int
  l_Status :: string
  l_RecordedAt :: time

text \<open>The zero value of a struct, on which a composite literal with named fields is built.\<close>

definition zero_Task :: Task where
  "zero_Task = \<lparr>t_ID = 0, t_Name = [], t_Type = [], t_CronExpr = [], t_Payload = [], t_Image = [],
     t_Status = [], t_TimeoutSeconds = 0, t_MaxRetry = 0, t_RetryPolicy = [], t_RetryOnErrors = [],
     t_RetryIntervalSeconds = 0, t_RetryWindowSeconds = 0, t_RouteStrategy = [], t_Labels = [],
     t_NextTriggerTime = zero_time, t_TenantID = 0, t_Version = 0, t_TotalShards = 0,
     t_IdempotencyKey = [], t_TriggerType = [], t_EventName = [],
     t_CreatedAt = zero_time, t_UpdatedAt = zero_time\<rparr>"

definition zero_TaskInstance :: TaskInstance where
  "zero_TaskInstance = \<lparr>i_ID = 0, i_TaskID = 0, i_ScheduleInstanceID = [], i_ShardNo = 0,
     i_ShardTotal = 0, i_TriggerTime = zero_time, i_DispatchTime = zero_time,
     i_StartedAt = zero_time, i_FinishedAt = zero_time, i_WorkerID = [], i_Status = [],
     i_RetryCount = 0, i_ErrorCode = [], i_ErrorMessage = [], i_AnalysisJSON = [],
     i_NextRetryTime = zero_time, i_TraceID = [], i_CreatedAt = zero_time,
     i_UpdatedAt = zero_time\<rparr>"

definition zero_WorkerNode :: WorkerNode where
  "zero_WorkerNode = \<lparr>w_ID = [], w_Hostname = [], w_IP = [], w_CallbackURL = [], w_GRPCAddr = [],
     w_Protocol = [], w_Status = [], w_Labels = [], w_MaxConcurrency = 0, w_CurrentLoad = 0,
     w_LastHeartbeatAt = zero_time\<rparr>"

definition zero_ExecuteTaskRequest :: ExecuteTaskRequest where
  "zero_ExecuteTaskRequest = \<lparr>q_ScheduleInstanceID = [], q_TaskID = 0, q_TaskType = [],
     q_Payload = [], q_Image = [], q_TimeoutSeconds = 0, q_RetryCount = 0, q_ShardNo = 0,
     q_ShardTotal = 0, q_IdempotencyKey = [], q_SchedulerURL = []\<rparr>"

lemma zero_Task_sel [simp]:
  "t_Version zero_Task = 0" "t_TotalShards zero_Task = 0" "t_TenantID zero_Task = 0"
  "t_ID zero_Task = 0" "t_RetryIntervalSeconds zero_Task = 0" "t_RetryWindowSeconds zero_Task = 0"
  "t_CreatedAt zero_Task = zero_time" "t_UpdatedAt zero_Task = zero_time"
  "t_IdempotencyKey zero_Task = []" "t_TriggerType zero_Task = []" "t_EventName zero_Task = []"
  by (simp_all add: zero_Task_def)

lemma zero_TaskInstance_sel [simp]:
  "i_ID zero_TaskInstance = 0" "i_RetryCount zero_TaskInstance = 0"
  "i_WorkerID zero_TaskInstance = []" "i_NextRetryTime zero_TaskInstance = zero_time"
  "i_ErrorCode zero_TaskInstance = []" "i_ErrorMessage zero_TaskInstance = []"
  by (simp_all add: zero_TaskInstance_def)

end
