(* ===== verification/Dependency.thy ===== *)
theory Dependency
  imports Model
begin

text \<open>
  \<^verbatim>\<open>internal/model/dependency.go\<close>: the dependency graph of a set of edges, cycle detection by a
  three-colour depth-first search, and the test that all upstream tasks have succeeded. The
  specification of the search is the transitive closure of the edge relation.
\<close>

section \<open>The graph\<close>

type_synonym dep_graph = "(int, int list) gomap"

text \<open>Reading a missing key of a Go map gives the zero value, here the nil slice.\<close>

definition adj :: "dep_graph \<Rightarrow> int \<Rightarrow> int list" where
  "adj g n = (case mget g n of None \<Rightarrow> [] | Some xs \<Rightarrow> xs)"

primrec Graph_loop :: "dep_graph \<Rightarrow> TaskDependency list \<Rightarrow> dep_graph" where
  "Graph_loop g [] = g"
| "Graph_loop g (e # es) =
     Graph_loop (mput (d_TaskID e) (adj g (d_TaskID e) @ [d_DependsOnTaskID e]) g) es"

definition Graph :: "TaskDependency list \<Rightarrow> dep_graph" where
  "Graph edges = Graph_loop [] edges"

definition edges_of :: "dep_graph \<Rightarrow> (int \<times> int) set" where
  "edges_of g = {(a, b). b \<in> set (adj g a)}"

lemma edges_of_iff [simp]: "(a, b) \<in> edges_of g \<longleftrightarrow> b \<in> set (adj g a)"
  by (simp add: edges_of_def)

lemma adj_mput [simp]: "adj (mput k xs g) n = (if n = k then xs else adj g n)"
  by (simp add: adj_def)

lemma adj_Graph_loop:
  "adj (Graph_loop g es) n = adj g n @ map d_DependsOnTaskID (filter (\<lambda>e. d_TaskID e = n) es)"
  by (induction es arbitrary: g) auto

lemma adj_Graph: "adj (Graph es) n = map d_DependsOnTaskID (filter (\<lambda>e. d_TaskID e = n) es)"
  by (simp add: Graph_def adj_Graph_loop) (simp add: adj_def)

lemma wf_Graph_loop: "wf_map g \<Longrightarrow> wf_map (Graph_loop g es)"
  by (induction es arbitrary: g) auto

lemma wf_Graph: "wf_map (Graph es)"
  by (simp add: Graph_def wf_Graph_loop)

section \<open>Cycle detection\<close>

text \<open>
  The closure \<^verbatim>\<open>dfs\<close> marks its node in progress and then runs the loop over the node's
  dependencies; \<open>dfs_loop\<close> is that loop, with the node and the dependencies still to visit. The
  colours are those of the source: 0 unvisited, 1 in progress, 2 done. The recursive call of the
  source is the inner call on the dependency's own list.
\<close>

type_synonym colours = "(int, int) gomap"

definition vis :: "colours \<Rightarrow> int \<Rightarrow> int" where
  "vis v n = (case mget v n of None \<Rightarrow> 0 | Some c \<Rightarrow> c)"

lemma vis_Nil [simp]: "vis [] n = 0"
  by (simp add: vis_def)

lemma vis_mput [simp]: "vis (mput k c v) n = (if n = k then c else vis v n)"
  by (simp add: vis_def)

definition graph_nodes :: "dep_graph \<Rightarrow> int set" where
  "graph_nodes g = fst ` set g \<union> (\<Union>xs \<in> snd ` set g. set xs)"

definition unvisited :: "dep_graph \<Rightarrow> colours \<Rightarrow> int set" where
  "unvisited g v = {x \<in> graph_nodes g. vis v x = 0}"

lemma finite_unvisited [simp]: "finite (unvisited g v)"
  by (simp add: unvisited_def graph_nodes_def)

lemma adj_outside [simp]: "n \<notin> graph_nodes g \<Longrightarrow> adj g n = []"
  by (force simp: adj_def graph_nodes_def split: option.splits dest: map_of_SomeD)

function dfs_loop :: "dep_graph \<Rightarrow> colours \<Rightarrow> int \<Rightarrow> int list \<Rightarrow> bool \<times> colours" where
  "dfs_loop g v n [] = (False, (mput n 2 v))"
| "dfs_loop g v n (d # ds) =
     (if vis v d = 1 then (True, v)
      else if vis v d = 0 then
        (case dfs_loop g ((mput d 1 v)) d (adj g d) of
           (True, v') \<Rightarrow> (True, v')
         | (False, v') \<Rightarrow> dfs_loop g v' n ds)
      else dfs_loop g v n ds)"
  by pat_completeness auto

lemma dfs_loop_mono_dom:
  "dfs_loop_dom (g, v, n, ds) \<Longrightarrow> vis v x \<noteq> 0 \<Longrightarrow> vis (snd (dfs_loop g v n ds)) x \<noteq> 0"
proof (induction g v n ds arbitrary: x rule: dfs_loop.pinduct)
  case (1 g v n)
  then show ?case by (simp add: dfs_loop.psimps)
next
  case (2 g v n d ds)
  show ?case
  proof (cases "vis v d = 0")
    case True
    obtain b v' where r: "dfs_loop g ((mput d 1 v)) d (adj g d) = (b, v')" by fastforce
    have "vis (mput d 1 v) x \<noteq> 0" using "2.prems" by simp
    with "2.IH"(1) [OF _ True] True r have x: "vis v' x \<noteq> 0" by fastforce
    show ?thesis
      using True x r "2.IH"(2) "2.hyps" by (cases b) (auto simp: dfs_loop.psimps)
  next
    case False
    with "2" show ?thesis by (auto simp: dfs_loop.psimps)
  qed
qed

lemma unvisited_less:
  assumes "vis v d = 0" and "dfs_loop_dom (g, mput d 1 v, d, adj g d)"
    and "dfs_loop g ((mput d 1 v)) d (adj g d) = (b, v')"
  shows "unvisited g v' \<subseteq> unvisited g v - {d}"
proof
  fix x assume "x \<in> unvisited g v'"
  then have x: "x \<in> graph_nodes g" "vis v' x = 0" by (simp_all add: unvisited_def)
  with dfs_loop_mono_dom [OF assms(2), of x] assms(3) have "vis (mput d 1 v) x = 0" by fastforce
  with x(1) show "x \<in> unvisited g v - {d}" by (cases "x = d") (simp_all add: unvisited_def)
qed

termination dfs_loop
proof (relation "inv_image (finite_psubset <*lex*> less_than)
    (\<lambda>(g, v, n, ds). (unvisited g v, length ds))", goal_cases)
  case 1
  then show ?case by auto
next
  case (2 g v n d ds)
  show ?case
  proof (cases "d \<in> graph_nodes g")
    case True
    with 2 have "unvisited g ((mput d 1 v)) \<subset> unvisited g v"
      by (auto simp: unvisited_def)
    then show ?thesis by (simp add: finite_psubset_def)
  next
    case False
    with 2 have "unvisited g ((mput d 1 v)) = unvisited g v"
      by (auto simp: unvisited_def)
    with False show ?thesis by simp
  qed
next
  case (3 g v n d ds x y)
  have "unvisited g y \<subseteq> unvisited g v - {d}"
    by (rule unvisited_less [OF 3(2,5) 3(3) [symmetric]])
  then have "unvisited g y \<subset> unvisited g v \<or> unvisited g y = unvisited g v" by auto
  then show ?case by (auto simp: finite_psubset_def)
next
  case (4 g v n d ds)
  then show ?case by simp
qed

definition dfs :: "dep_graph \<Rightarrow> colours \<Rightarrow> int \<Rightarrow> bool \<times> colours" where
  "dfs g v node = dfs_loop g (mput node 1 v) node (adj g node)"

fun DetectCycle_loop :: "dep_graph \<Rightarrow> colours \<Rightarrow> int list \<Rightarrow> bool" where
  "DetectCycle_loop g v [] = False"
| "DetectCycle_loop g v (node # nodes) =
     (if vis v node = 0 then
        (case dfs g v node of (True, v') \<Rightarrow> True | (False, v') \<Rightarrow> DetectCycle_loop g v' nodes)
      else DetectCycle_loop g v nodes)"

definition DetectCycle :: "dep_graph \<Rightarrow> bool" where
  "DetectCycle g = DetectCycle_loop g [] (map fst g)"

section \<open>Correctness of the search\<close>

text \<open>What a finished search (no cycle seen) does to the colours.\<close>

definition finished :: "colours \<Rightarrow> int \<Rightarrow> colours \<Rightarrow> bool" where
  "finished v n v' \<longleftrightarrow> vis v' n = 2 \<and>
     (\<forall>x. x \<noteq> n \<longrightarrow> (vis v' x = 1 \<longleftrightarrow> vis v x = 1) \<and> (vis v x = 2 \<longrightarrow> vis v' x = 2))"

lemma finishedD:
  assumes "finished v n v'"
  shows "vis v' n = 2" "x \<noteq> n \<Longrightarrow> vis v' x = 1 \<longleftrightarrow> vis v x = 1"
    "x \<noteq> n \<Longrightarrow> vis v x = 2 \<Longrightarrow> vis v' x = 2"
  using assms by (simp_all add: finished_def)

lemma finished_current: "finished (mput d 1 v) d u \<Longrightarrow> vis v d = 0 \<Longrightarrow> vis v n = 1 \<Longrightarrow> vis u n = 1"
  by (cases "n = d") (simp_all add: finishedD(2))

lemma finished_no_grey: "finished (mput n 1 v) n u \<Longrightarrow> \<forall>x. vis v x \<noteq> 1 \<Longrightarrow> vis u x \<noteq> 1"
  by (cases "x = n") (simp_all add: finishedD)

lemma finished_trans:
  assumes "finished (mput d 1 v) d u" and "finished u n v'" and "vis v d = 0" and "vis v n = 1"
  shows "finished v n v'"
proof -
  have "(vis v' x = 1 \<longleftrightarrow> vis v x = 1) \<and> (vis v x = 2 \<longrightarrow> vis v' x = 2)" if "x \<noteq> n" for x
  proof (cases "x = d")
    case True
    with finishedD(1) [OF assms(1)] finishedD(2,3) [OF assms(2), of x] that assms(3)
    show ?thesis by simp
  next
    case False
    with finishedD(2,3) [OF assms(1), of x] finishedD(2,3) [OF assms(2), of x] that
    show ?thesis by simp
  qed
  with finishedD(1) [OF assms(2)] show ?thesis by (simp add: finished_def)
qed

lemma dfs_loop_finished:
  "dfs_loop g v n ds = (False, v') \<Longrightarrow> vis v n = 1 \<Longrightarrow> finished v n v'"
proof (induction g v n ds arbitrary: v' rule: dfs_loop.induct)
  case (1 g v n)
  then show ?case by (auto simp: finished_def)
next
  case (2 g v n d ds)
  show ?case
  proof (cases "vis v d = 0")
    case True
    with "2.prems" obtain u where u: "dfs_loop g (mput d 1 v) d (adj g d) = (False, u)"
      and r: "dfs_loop g u n ds = (False, v')"
      by (auto split: prod.splits bool.splits)
    from "2.IH"(1) [OF _ True u] True have f: "finished (mput d 1 v) d u" by simp
    from f True "2.prems"(2) have "vis u n = 1" by (rule finished_current)
    with "2.IH"(2) [OF _ True u [symmetric] refl r] True have "finished u n v'" by simp
    with f show ?thesis using True "2.prems"(2) by (rule finished_trans)
  next
    case False
    with "2" show ?thesis by (simp split: if_splits)
  qed
qed

text \<open>
  Soundness: when every node in progress reaches the current node, a reported cycle is one.
\<close>

lemma dfs_loop_sound:
  "fst (dfs_loop g v n ds) \<Longrightarrow> vis v n = 1 \<Longrightarrow> \<forall>x. vis v x = 1 \<longrightarrow> (x, n) \<in> (edges_of g)\<^sup>* \<Longrightarrow>
     set ds \<subseteq> set (adj g n) \<Longrightarrow> \<exists>c. (c, c) \<in> (edges_of g)\<^sup>+"
proof (induction g v n ds rule: dfs_loop.induct)
  case (1 g v n)
  then show ?case by simp
next
  case (2 g v n d ds)
  from "2.prems"(4) have nd: "(n, d) \<in> edges_of g" by simp
  consider "vis v d = 1" | "vis v d = 0" | "vis v d \<noteq> 0" "vis v d \<noteq> 1" by blast
  then show ?case
  proof cases
    case 1
    with "2.prems"(3) have "(d, n) \<in> (edges_of g)\<^sup>*" by blast
    from this nd have "(d, d) \<in> (edges_of g)\<^sup>+" by (rule rtrancl_into_trancl1)
    then show ?thesis ..
  next
    case 2
    have reach: "\<forall>x. vis (mput d 1 v) x = 1 \<longrightarrow> (x, d) \<in> (edges_of g)\<^sup>*"
      using "2.prems"(3) nd by (auto intro: rtrancl_into_rtrancl)
    obtain b u where u: "dfs_loop g ((mput d 1 v)) d (adj g d) = (b, u)" by fastforce
    show ?thesis
    proof (cases b)
      case True
      with "2.IH"(1) [OF _ 2 _ _ reach] 2 u show ?thesis by simp
    next
      case False
      with u dfs_loop_finished [of g "mput d 1 v"] have f: "finished (mput d 1 v) d u" by simp
      from f 2 "2.prems"(2) have "vis u n = 1" by (rule finished_current)
      moreover have "\<forall>x. vis u x = 1 \<longrightarrow> (x, n) \<in> (edges_of g)\<^sup>*"
        using finishedD(1,2) [OF f] "2.prems"(3)
        by (metis one_eq_numeral_iff semiring_norm(85) vis_mput)
      moreover from "2.prems"(1) 2 u False have "fst (dfs_loop g u n ds)" by simp
      moreover have "set ds \<subseteq> set (adj g n)" using "2.prems"(4) by simp
      ultimately show ?thesis
        using "2.IH"(2) [OF _ 2 u [symmetric]] 2 False by simp
    qed
  next
    case 3
    with "2" show ?thesis by auto
  qed
qed

text \<open>
  Completeness: the done nodes are closed under edges and lie on no cycle, and the search keeps
  both facts.
\<close>

definition done_ok :: "dep_graph \<Rightarrow> colours \<Rightarrow> bool" where
  "done_ok g v \<longleftrightarrow> (\<forall>x. (vis v x = 0 \<or> vis v x = 1 \<or> vis v x = 2) \<and>
     (vis v x = 2 \<longrightarrow> (\<forall>y \<in> set (adj g x). vis v y = 2) \<and> (x, x) \<notin> (edges_of g)\<^sup>+))"

lemma done_ok_colours: "done_ok g v \<Longrightarrow> vis v x \<noteq> 0 \<Longrightarrow> vis v x \<noteq> 1 \<Longrightarrow> vis v x = 2"
  by (auto simp: done_ok_def)

lemma done_ok_start: "done_ok g v \<Longrightarrow> vis v d = 0 \<Longrightarrow> done_ok g (mput d 1 v)"
  by (auto simp: done_ok_def)

lemma done_ok_reach:
  assumes "done_ok g v" and "(x, y) \<in> (edges_of g)\<^sup>*" and "vis v x = 2"
  shows "vis v y = 2"
  using assms(2,3)
proof (induction rule: rtrancl_induct)
  case base
  then show ?case .
next
  case (step y z)
  with assms(1) show ?case by (auto simp: done_ok_def)
qed

lemma done_ok_finish:
  assumes ok: "done_ok g v" and "vis v n = 1" and succ: "\<forall>y \<in> set (adj g n). vis v y = 2"
  shows "done_ok g ((mput n 2 v))"
proof -
  have "(n, n) \<notin> (edges_of g)\<^sup>+"
  proof
    assume "(n, n) \<in> (edges_of g)\<^sup>+"
    then obtain y where "(n, y) \<in> edges_of g" "(y, n) \<in> (edges_of g)\<^sup>*"
      by (metis tranclD)
    with succ done_ok_reach [OF ok] have "vis v n = 2" by simp
    with \<open>vis v n = 1\<close> show False by simp
  qed
  with ok succ show ?thesis by (auto simp: done_ok_def)
qed

lemma dfs_loop_complete:
  "dfs_loop g v n ds = (False, v') \<Longrightarrow> vis v n = 1 \<Longrightarrow> done_ok g v \<Longrightarrow>
     \<forall>y \<in> set (adj g n). y \<in> set ds \<or> vis v y = 2 \<Longrightarrow> done_ok g v'"
proof (induction g v n ds arbitrary: v' rule: dfs_loop.induct)
  case (1 g v n)
  then show ?case by (auto intro: done_ok_finish)
next
  case (2 g v n d ds)
  show ?case
  proof (cases "vis v d = 0")
    case True
    with "2.prems" obtain u where u: "dfs_loop g ((mput d 1 v)) d (adj g d) = (False, u)"
      and r: "dfs_loop g u n ds = (False, v')"
      by (auto split: prod.splits bool.splits)
    have "done_ok g ((mput d 1 v))"
      using "2.prems"(3) True by (auto simp: done_ok_def)
    with "2.IH"(1) [OF _ True u] True have ok: "done_ok g u" by simp
    from dfs_loop_finished [OF u] have f: "finished (mput d 1 v) d u" by simp
    from f True "2.prems"(2) have un: "vis u n = 1" by (rule finished_current)
    have rest: "\<forall>y \<in> set (adj g n). y \<in> set ds \<or> vis u y = 2"
    proof
      fix y assume "y \<in> set (adj g n)"
      with "2.prems"(4) have "y = d \<or> y \<in> set ds \<or> vis v y = 2" by auto
      with finishedD(1) [OF f] finishedD(3) [OF f, of y]
      show "y \<in> set ds \<or> vis u y = 2" by (cases "y = d") auto
    qed
    show ?thesis
      by (rule "2.IH"(2) [OF _ True u [symmetric] refl r un ok rest]) (simp add: True)
  next
    case False
    with "2.prems"(1) have c: "vis v d \<noteq> 1" and r: "dfs_loop g v n ds = (False, v')"
      by (auto split: if_splits)
    with False "2.prems"(3) have "vis v d = 2" by (intro done_ok_colours)
    with "2.prems"(4) have "\<forall>y \<in> set (adj g n). y \<in> set ds \<or> vis v y = 2" by auto
    with "2.IH"(3) [OF c False r "2.prems"(2,3)] show ?thesis .
  qed
qed

lemma DetectCycle_loop_sound:
  "DetectCycle_loop g v ns \<Longrightarrow> \<forall>x. vis v x \<noteq> 1 \<Longrightarrow> \<exists>c. (c, c) \<in> (edges_of g)\<^sup>+"
proof (induction g v ns rule: DetectCycle_loop.induct)
  case (2 g v n ns)
  show ?case
  proof (cases "vis v n = 0")
    case True
    obtain b u where u: "dfs g v n = (b, u)" by fastforce
    show ?thesis
    proof (cases b)
      case True
      have "\<forall>x. vis (mput n 1 v) x = 1 \<longrightarrow> (x, n) \<in> (edges_of g)\<^sup>*"
        using "2.prems"(2) by auto
      with u True show ?thesis
        by (intro dfs_loop_sound [of g "mput n 1 v" n "adj g n"]) (simp_all add: dfs_def)
    next
      case False
      with u dfs_loop_finished [of g "mput n 1 v" n "adj g n" u]
      have "finished (mput n 1 v) n u" by (simp add: dfs_def)
      from finished_no_grey [OF this "2.prems"(2)] have "\<forall>x. vis u x \<noteq> 1" by blast
      with "2" True u False show ?thesis by simp
    qed
  next
    case False
    with "2" show ?thesis by simp
  qed
qed simp

lemma DetectCycle_loop_complete:
  "\<not> DetectCycle_loop g v ns \<Longrightarrow> \<forall>x. vis v x \<noteq> 1 \<Longrightarrow> done_ok g v \<Longrightarrow> x \<in> set ns \<Longrightarrow>
     (x, x) \<notin> (edges_of g)\<^sup>+"
proof (induction g v ns arbitrary: x rule: DetectCycle_loop.induct)
  case (2 g v n ns)
  show ?case
  proof (cases "vis v n = 0")
    case True
    with "2.prems"(1) obtain u where u: "dfs g v n = (False, u)"
      and nl: "\<not> DetectCycle_loop g u ns" by (auto split: prod.splits bool.splits)
    then have r: "dfs_loop g (mput n 1 v) n (adj g n) = (False, u)" by (simp add: dfs_def)
    have "done_ok g (mput n 1 v)" using "2.prems"(3) True by (rule done_ok_start)
    then have ok: "done_ok g u" by (intro dfs_loop_complete [OF r]) auto
    from dfs_loop_finished [OF r] have f: "finished (mput n 1 v) n u" by simp
    then have un: "vis u n = 2" by (rule finishedD)
    from f "2.prems"(2) have "\<forall>x. vis u x \<noteq> 1" by (intro allI) (rule finished_no_grey)
    then have "x \<in> set ns \<Longrightarrow> (x, x) \<notin> (edges_of g)\<^sup>+"
      by (rule "2.IH"(1) [OF True u [symmetric] refl nl _ ok])
    moreover from ok un have "(n, n) \<notin> (edges_of g)\<^sup>+" by (simp add: done_ok_def)
    ultimately show ?thesis using "2.prems"(4) by auto
  next
    case False
    with "2.prems"(2,3) have "vis v n = 2" by (auto intro: done_ok_colours)
    with "2.prems"(3) have "(n, n) \<notin> (edges_of g)\<^sup>+" by (simp add: done_ok_def)
    moreover have "x \<in> set ns \<Longrightarrow> (x, x) \<notin> (edges_of g)\<^sup>+"
      using "2.IH"(2) [OF False] "2.prems"(1,2,3) False by simp
    ultimately show ?thesis using "2.prems"(4) by auto
  qed
qed simp

lemma cycle_through_key: "(c, c) \<in> (edges_of g)\<^sup>+ \<Longrightarrow> c \<in> set (map fst g)"
proof -
  assume "(c, c) \<in> (edges_of g)\<^sup>+"
  then obtain d where "d \<in> set (adj g c)" by (auto dest: tranclD)
  then show ?thesis by (metis adj_def empty_iff list.set(1) list.set_map map_of_eq_None_iff option.case(1))
qed

section \<open>Properties\<close>

text \<open>
  C7. Cycle detection is exact: for every adjacency map, \<^verbatim>\<open>DetectCycle\<close> returns true if and only
  if the dependency relation has a cycle, whatever the order in which Go ranges over the map.
\<close>

theorem DetectCycle_iff_cyclic: "DetectCycle g \<longleftrightarrow> \<not> acyclic (edges_of g)"
proof
  assume "DetectCycle g"
  then show "\<not> acyclic (edges_of g)"
    using DetectCycle_loop_sound [of g "[]" "map fst g"] by (auto simp: DetectCycle_def acyclic_def)
next
  assume "\<not> acyclic (edges_of g)"
  then obtain c where "(c, c) \<in> (edges_of g)\<^sup>+" by (auto simp: acyclic_def)
  with DetectCycle_loop_complete [of g "[]" "map fst g" c] cycle_through_key [of c g]
  show "DetectCycle g" by (auto simp: DetectCycle_def done_ok_def)
qed

section \<open>Upstream satisfaction\<close>

fun AllDependenciesSatisfied_loop :: "(int, bool) gomap \<Rightarrow> int list \<Rightarrow> bool" where
  "AllDependenciesSatisfied_loop ok [] = True"
| "AllDependenciesSatisfied_loop ok (d # ds) =
     (if mget ok d \<noteq> Some True then False else AllDependenciesSatisfied_loop ok ds)"

definition AllDependenciesSatisfied ::
  "dep_graph \<Rightarrow> int \<Rightarrow> (int, bool) gomap \<Rightarrow> bool" where
  "AllDependenciesSatisfied g taskID successfulInstances =
     (let deps = adj g taskID in
      if length deps = 0 then True else AllDependenciesSatisfied_loop successfulInstances deps)"

lemma AllDependenciesSatisfied_loop_iff:
  "AllDependenciesSatisfied_loop ok ds \<longleftrightarrow> (\<forall>d \<in> set ds. mget ok d = Some True)"
  by (induction ds) auto

text \<open>
  On the graph of a list of edges, a task is satisfied exactly when every task it depends on by
  one of the edges is recorded as successful; a task with no edge is satisfied.
\<close>

theorem AllDependenciesSatisfied_Graph:
  "AllDependenciesSatisfied (Graph es) t ok \<longleftrightarrow>
     (\<forall>e. e \<in> set es \<and> d_TaskID e = t \<longrightarrow> mget ok (d_DependsOnTaskID e) = Some True)"
  by (auto simp: AllDependenciesSatisfied_def AllDependenciesSatisfied_loop_iff adj_Graph Let_def
      filter_empty_conv)

theorem AllDependenciesSatisfied_Graph_witness:
  "\<not> AllDependenciesSatisfied (Graph [\<lparr>d_ID = 1, d_TaskID = 3, d_DependsOnTaskID = 1\<rparr>,
      \<lparr>d_ID = 2, d_TaskID = 3, d_DependsOnTaskID = 2\<rparr>]) 3 [(1, True)]"
proof -
  let ?e = "\<lparr>d_ID = 2, d_TaskID = 3, d_DependsOnTaskID = 2\<rparr>"
  let ?es = "[\<lparr>d_ID = 1, d_TaskID = 3, d_DependsOnTaskID = 1\<rparr>, ?e]"
  have "?e \<in> set ?es \<and> d_TaskID ?e = 3" by simp
  then show ?thesis
    using AllDependenciesSatisfied_Graph [of ?es 3 "[(1, True)]"] by fastforce
qed

end
