(* ===== verification/GoTime.thy ===== *)
theory GoTime
  imports Model
begin

text \<open>
  The part of Go's package \<^verbatim>\<open>time\<close> the sources use. A location is the offset from UTC, in
  seconds, as a function of the Unix second (Go's zone lookup), so that daylight saving needs no
  special treatment. The calendar is the proleptic Gregorian one.
\<close>

type_synonym location = "int \<Rightarrow> int"

definition local_sec :: "location \<Rightarrow> time \<Rightarrow> int" where
  "local_sec loc t = (let u = t div second in u + loc u)"

definition Minute :: "location \<Rightarrow> time \<Rightarrow> int" where
  "Minute loc t = local_sec loc t div 60 mod 60"

definition Hour :: "location \<Rightarrow> time \<Rightarrow> int" where
  "Hour loc t = local_sec loc t div 3600 mod 24"

definition Second :: "location \<Rightarrow> time \<Rightarrow> int" where
  "Second loc t = local_sec loc t mod 60"

definition local_days :: "location \<Rightarrow> time \<Rightarrow> int" where
  "local_days loc t = local_sec loc t div 86400"

text \<open>January 1, 1970 was a Thursday (4); Sunday is 0.\<close>

definition Weekday :: "location \<Rightarrow> time \<Rightarrow> int" where
  "Weekday loc t = (local_days loc t + 4) mod 7"

text \<open>
  Year, month and day of a day number counted from the epoch. The year starts in March, so that
  the leap day is its last day, and 400 years have 146097 days.
\<close>

definition civil :: "int \<Rightarrow> int \<times> int \<times> int" where
  "civil days =
     (let z = days + 719468; era = z div 146097; doe = z mod 146097;
          yoe = (doe - doe div 1460 + doe div 36524 - doe div 146096) div 365;
          doy = doe - (365 * yoe + yoe div 4 - yoe div 100);
          mp = (5 * doy + 2) div 153;
          d = doy - (153 * mp + 2) div 5 + 1;
          m = (if mp < 10 then mp + 3 else mp - 9)
      in (yoe + era * 400 + (if m \<le> 2 then 1 else 0), m, d))"

definition Year :: "location \<Rightarrow> time \<Rightarrow> int" where
  "Year loc t = fst (civil (local_days loc t))"

definition Month :: "location \<Rightarrow> time \<Rightarrow> int" where
  "Month loc t = fst (snd (civil (local_days loc t)))"

definition Day :: "location \<Rightarrow> time \<Rightarrow> int" where
  "Day loc t = snd (snd (civil (local_days loc t)))"

text \<open>\<^verbatim>\<open>t.Truncate(d)\<close> rounds down to a multiple of \<open>d\<close> since the zero time.\<close>

definition Truncate :: "time \<Rightarrow> duration \<Rightarrow> time" where
  "Truncate t d = t - (t - zero_time) mod d"

lemma Truncate_le: "0 < d \<Longrightarrow> Truncate t d \<le> t \<and> t < Truncate t d + d"
  using pos_mod_sign [of d "t - zero_time"] pos_mod_bound [of d "t - zero_time"]
  by (simp add: Truncate_def)

text \<open>A minute boundary of the zero time is one of the Unix epoch.\<close>

lemma Truncate_minute: "Truncate t minute = t - t mod minute"
proof -
  have "zero_time = (- 1035593280) * minute" by (simp add: zero_time_def)
  then have "(t - zero_time) mod minute = t mod minute"
    by (metis mod_diff_cong mod_mult_self2_is_0 diff_zero mod_0 mod_mod_trivial)
  then show ?thesis by (simp add: Truncate_def)
qed

section \<open>Durations\<close>

text \<open>\<^verbatim>\<open>t.Sub(u)\<close> saturates at the ends of the 64-bit range.\<close>

definition Sub :: "time \<Rightarrow> time \<Rightarrow> duration" where
  "Sub t u = max (- (2 ^ 63)) (min (2 ^ 63 - 1) (t - u))"

section \<open>RFC 3339 with nanoseconds\<close>

text \<open>Zero-padded decimals, the fraction without its trailing zeros, and the zone suffix.\<close>

definition pad :: "nat \<Rightarrow> int \<Rightarrow> string" where
  "pad w n = (let s = dec_nat (nat n) in replicate (w - length s) (CHR ''0'') @ s)"

definition frac_nanos :: "int \<Rightarrow> string" where
  "frac_nanos ns = (if ns = 0 then []
     else CHR ''.'' # rev (dropWhile (\<lambda>c. c = CHR ''0'') (rev (pad 9 ns))))"

definition zone_suffix :: "int \<Rightarrow> string" where
  "zone_suffix off = (if off = 0 then ''Z''
     else (if off < 0 then ''-'' else ''+'') @
       pad 2 (\<bar>off\<bar> div 3600) @ '':'' @ pad 2 (\<bar>off\<bar> div 60 mod 60))"

definition FormatRFC3339Nano :: "location \<Rightarrow> time \<Rightarrow> string" where
  "FormatRFC3339Nano loc t =
     (if Year loc t < 0 then ''-'' else []) @ pad 4 \<bar>Year loc t\<bar> @ ''-'' @ pad 2 (Month loc t)
     @ ''-'' @ pad 2 (Day loc t) @ ''T'' @ pad 2 (Hour loc t) @ '':'' @ pad 2 (Minute loc t)
     @ '':'' @ pad 2 (Second loc t) @ frac_nanos (t mod second) @ zone_suffix (loc (t div second))"

text \<open>
  \<^verbatim>\<open>Duration.String\<close>: the unit is chosen by the magnitude and trailing zeros of the fraction are
  dropped.
\<close>

definition frac_unit :: "int \<Rightarrow> nat \<Rightarrow> string" where
  "frac_unit v prec =
     (let f = v mod 10 ^ prec in
      itoa (v div 10 ^ prec) @
      (if f = 0 then [] else CHR ''.'' # rev (dropWhile (\<lambda>c. c = CHR ''0'') (rev (pad prec f)))))"

definition duration_string :: "duration \<Rightarrow> string" where
  "duration_string d =
     (let u = \<bar>d\<bar>; secs = u div second; mins = secs div 60; hours = mins div 60 in
      if u = 0 then ''0s'' else
      (if d < 0 then ''-'' else []) @
      (if u < 1000 then itoa u @ ''ns''
       else if u < 1000000 then frac_unit u 3 @ [CHR 0xC2, CHR 0xB5, CHR ''s'']
       else if u < second then frac_unit u 6 @ ''ms''
       else (if hours > 0 then itoa hours @ ''h'' else []) @
            (if mins > 0 then itoa (mins mod 60) @ ''m'' else []) @
            frac_unit (secs mod 60 * second + u mod second) 9 @ ''s''))"

text \<open>The day number of a civil date, the inverse of \<open>civil\<close>.\<close>

definition days_from_civil :: "int \<Rightarrow> int \<Rightarrow> int \<Rightarrow> int" where
  "days_from_civil y m d =
     (let y' = (if m \<le> 2 then y - 1 else y); era = y' div 400; yoe = y' mod 400;
          doy = (153 * (if m > 2 then m - 3 else m + 9) + 2) div 5 + d - 1;
          doe = yoe * 365 + yoe div 4 - yoe div 100 + doy
      in era * 146097 + doe - 719468)"

definition days_in :: "int \<Rightarrow> int \<Rightarrow> int" where
  "days_in y m =
     (if m = 2 then (if y mod 4 = 0 \<and> (y mod 100 \<noteq> 0 \<or> y mod 400 = 0) then 29 else 28)
      else if m \<in> {4, 6, 9, 11} then 30 else 31)"

text \<open>Reading a fixed number of digits, and a literal byte.\<close>

definition take_num :: "nat \<Rightarrow> string \<Rightarrow> (int \<times> string) option" where
  "take_num w s =
     (if w \<le> length s \<and> list_all is_digit (take w s)
      then Some (int (digits_val (take w s)), drop w s) else None)"

fun expect :: "char \<Rightarrow> string \<Rightarrow> string option" where
  "expect c [] = None"
| "expect c (d # s) = (if c = d then Some s else None)"

definition take_frac :: "string \<Rightarrow> (int \<times> string) option" where
  "take_frac s = (case s of
       [] \<Rightarrow> Some (0, [])
     | c # r \<Rightarrow> if c \<noteq> CHR ''.'' then Some (0, s) else
         (let ds = takeWhile is_digit r in
          if ds = [] then None
          else Some (int (digits_val (take 9 (ds @ ''00000000''))), dropWhile is_digit r)))"

definition take_zone :: "string \<Rightarrow> int option" where
  "take_zone s = (if s = ''Z'' then Some 0
     else case s of [] \<Rightarrow> None
     | c # r \<Rightarrow> if c \<noteq> CHR ''+'' \<and> c \<noteq> CHR ''-'' then None else
        do { (h, r1) \<leftarrow> take_num 2 r; r2 \<leftarrow> expect (CHR '':'') r1; (m, r3) \<leftarrow> take_num 2 r2;
             if r3 = [] \<and> h \<le> 24 \<and> m < 60
             then Some ((if c = CHR ''-'' then - 1 else 1) * (h * 3600 + m * 60)) else None })"

definition ParseRFC3339Nano :: "string \<Rightarrow> time option" where
  "ParseRFC3339Nano s =
     do { (y, s) \<leftarrow> take_num 4 s; s \<leftarrow> expect (CHR ''-'') s; (mo, s) \<leftarrow> take_num 2 s;
          s \<leftarrow> expect (CHR ''-'') s; (d, s) \<leftarrow> take_num 2 s; s \<leftarrow> expect (CHR ''T'') s;
          (h, s) \<leftarrow> take_num 2 s; s \<leftarrow> expect (CHR '':'') s; (mi, s) \<leftarrow> take_num 2 s;
          s \<leftarrow> expect (CHR '':'') s; (sec, s) \<leftarrow> take_num 2 s; (ns, s) \<leftarrow> take_frac s;
          off \<leftarrow> take_zone s;
          if 1 \<le> mo \<and> mo \<le> 12 \<and> 1 \<le> d \<and> d \<le> days_in y mo \<and> h < 24 \<and> mi < 60 \<and> sec < 60
          then Some ((days_from_civil y mo d * 86400 + h * 3600 + mi * 60 + sec - off) * second + ns)
          else None }"

end
