(* ===== verification/Cronexpr.thy ===== *)
theory Cronexpr
  imports GoTime
begin

text \<open>
  \<^verbatim>\<open>internal/pkg/cronexpr\<close>: parsing of five-field cron expressions and the search for the next
  matching minute. The parser returns the error values of the source; the search is the source's
  loop, bounded by the same number of minutes.
\<close>

section \<open>Schedules\<close>

definition searchLimitMinutes :: nat where
  "searchLimitMinutes = 5 * 366 * 24 * 60"

text \<open>A \<^verbatim>\<open>map[int]struct{}\<close> used as a set.\<close>

record cron_field =
  f_values :: "(int, unit) gomap"
  f_any :: bool

record schedule =
  s_minute :: cron_field
  s_hour :: cron_field
  s_day :: cron_field
  s_month :: cron_field
  s_week :: cron_field

definition contains :: "cron_field \<Rightarrow> int \<Rightarrow> bool" where
  "contains f value = (if f_any f then True else mget (f_values f) value \<noteq> None)"

definition matches :: "location \<Rightarrow> schedule \<Rightarrow> time \<Rightarrow> bool" where
  "matches loc s t =
     (if \<not> contains (s_minute s) (Minute loc t) \<or> \<not> contains (s_hour s) (Hour loc t)
         \<or> \<not> contains (s_month s) (Month loc t) then False
      else
        let dayMatch = contains (s_day s) (Day loc t);
            weekMatch = contains (s_week s) (Weekday loc t)
        in if f_any (s_day s) \<and> f_any (s_week s) then True
           else if f_any (s_day s) then weekMatch
           else if f_any (s_week s) then dayMatch
           else dayMatch \<or> weekMatch)"

section \<open>Parsing\<close>

text \<open>\<^verbatim>\<open>%q\<close> of a text that needs no escape; error texts play no role in any theorem.\<close>

definition quoted :: "string \<Rightarrow> string" where
  "quoted s = CHR 0x22 # s @ [CHR 0x22]"

definition normalizeValue :: "int \<Rightarrow> bool \<Rightarrow> int" where
  "normalizeValue value allowSevenSunday = (if allowSevenSunday \<and> value = 7 then 0 else value)"

definition parseValue :: "string \<Rightarrow> nat \<Rightarrow> nat \<Rightarrow> bool \<Rightarrow> error + int" where
  "parseValue txt mn mx allowSevenSunday =
     (case Atoi txt of
        None \<Rightarrow> Inl (Errorf (''invalid integer '' @ quoted txt))
      | Some value \<Rightarrow>
          let normalized = normalizeValue value allowSevenSunday in
          if normalized < int mn \<or> normalized > int mx
          then Inl (Errorf (''value '' @ itoa value @ '' out of range ['' @ itoa (int mn) @ '',''
                 @ itoa (int mx) @ '']''))
          else Inr value)"

definition parseRange :: "string \<Rightarrow> nat \<Rightarrow> nat \<Rightarrow> bool \<Rightarrow> error + int \<times> int" where
  "parseRange base mn mx allowSevenSunday =
     (if base = ''*'' then Inr (int mn, int mx)
      else if CHR ''-'' \<in> set base then
        (let parts = Split (CHR ''-'') base in
         if length parts \<noteq> 2 then Inl (Errorf (''invalid range '' @ quoted base))
         else case parseValue (parts ! 0) mn mx allowSevenSunday of
                Inl err \<Rightarrow> Inl err
              | Inr start \<Rightarrow>
                 (case parseValue (parts ! 1) mn mx allowSevenSunday of
                    Inl err \<Rightarrow> Inl err
                  | Inr end' \<Rightarrow>
                     if start > end'
                     then Inl (Errorf (''range start greater than end in '' @ quoted base))
                     else Inr (start, end')))
      else case parseValue base mn mx allowSevenSunday of
             Inl err \<Rightarrow> Inl err
           | Inr value \<Rightarrow> Inr (value, value))"

text \<open>
  The loop \<^verbatim>\<open>for value := start; value <= end; value += step\<close> of \<^verbatim>\<open>addSegment\<close>, with the addition
  at 64 bits. That the step is positive and that step and value are 64-bit integers holds at every
  call. The bounds are those of a field, so a value that wrapped around to a negative one is out of
  range and ends the loop with an error.
\<close>

function addSegment_loop ::
  "(int, unit) gomap \<Rightarrow> int \<Rightarrow> int \<Rightarrow> int \<Rightarrow> nat \<Rightarrow> nat \<Rightarrow> bool \<Rightarrow> error + (int, unit) gomap" where
  "addSegment_loop values value end' step mn mx allowSevenSunday =
     (if value \<le> end' \<and> 0 < step \<and> in_int64 step \<and> in_int64 value then
        let normalized = normalizeValue value allowSevenSunday in
        if normalized < int mn \<or> normalized > int mx
        then Inl (Errorf (''value '' @ itoa value @ '' out of range''))
        else addSegment_loop (mput normalized () values) (wrap64 (value + step)) end' step
               mn mx allowSevenSunday
      else Inr values)"
  by pat_completeness auto

lemma wrap64_step:
  assumes "0 \<le> value" "in_int64 value" "0 < step" "in_int64 step"
  shows "wrap64 (value + step) < 0 \<or> wrap64 (value + step) = value + step"
proof (cases "in_int64 (value + step)")
  case False
  with assms have "2 ^ 63 \<le> value + step" "value + step < 2 ^ 64"
    by (simp_all add: in_int64_def)
  then have "(value + step + 2 ^ 63) mod 2 ^ 64 = value + step + 2 ^ 63 - 2 ^ 64"
    by (intro int_mod_pos_eq [where q = 1]) auto
  with \<open>value + step < 2 ^ 64\<close> show ?thesis by (simp add: wrap64_def)
qed simp

termination addSegment_loop
proof (relation "measure (\<lambda>(vs, value, end', step, mn, mx, b).
    if value < 0 then 0 else nat (end' - value + 2))", goal_cases)
  case 1
  then show ?case by simp
next
  case (2 vs va e st mn mx b x)
  then have v: "0 \<le> va" "va \<le> e" "0 < st" "in_int64 st" "in_int64 va"
    by (auto simp: normalizeValue_def split: if_splits)
  from wrap64_step [OF v(1,5,3,4)] v show ?case by auto
qed

declare addSegment_loop.simps [simp del]

definition addSegment ::
  "(int, unit) gomap \<Rightarrow> string \<Rightarrow> nat \<Rightarrow> nat \<Rightarrow> bool \<Rightarrow> error + (int, unit) gomap" where
  "addSegment values segment mn mx allowSevenSunday =
     (let stepped =
        (if CHR ''/'' \<in> set segment then
           (let parts = Split (CHR ''/'') segment in
            if length parts \<noteq> 2 then Inl (Errorf (''invalid step segment '' @ quoted segment))
            else case Atoi (parts ! 1) of
                   None \<Rightarrow> Inl (Errorf (''invalid step value in '' @ quoted segment))
                 | Some parsedStep \<Rightarrow>
                     if parsedStep \<le> 0 then Inl (Errorf (''invalid step value in '' @ quoted segment))
                     else Inr (parts ! 0, parsedStep))
         else Inr (segment, 1))
      in case stepped of
           Inl err \<Rightarrow> Inl err
         | Inr (base, step) \<Rightarrow>
             (case parseRange base mn mx allowSevenSunday of
                Inl err \<Rightarrow> Inl err
              | Inr (start, end') \<Rightarrow>
                  addSegment_loop values start end' step mn mx allowSevenSunday))"

fun parseField_loop ::
  "(int, unit) gomap \<Rightarrow> string list \<Rightarrow> nat \<Rightarrow> nat \<Rightarrow> bool \<Rightarrow> error + (int, unit) gomap" where
  "parseField_loop values [] mn mx allowSevenSunday = Inr values"
| "parseField_loop values (p # ps) mn mx allowSevenSunday =
     (let part = TrimSpace p in
      if part = [] then Inl (Errorf ''empty list segment'')
      else case addSegment values part mn mx allowSevenSunday of
             Inl err \<Rightarrow> Inl err
           | Inr values' \<Rightarrow> parseField_loop values' ps mn mx allowSevenSunday)"

definition parseField :: "string \<Rightarrow> nat \<Rightarrow> nat \<Rightarrow> bool \<Rightarrow> error + cron_field" where
  "parseField tok mn mx allowSevenSunday =
     (let token = TrimSpace tok in
      if token = [] then Inl (Errorf ''empty field'')
      else if token = ''*'' then Inr \<lparr>f_values = [], f_any = True\<rparr>
      else case parseField_loop [] (Split (CHR '','') token) mn mx allowSevenSunday of
             Inl err \<Rightarrow> Inl err
           | Inr values \<Rightarrow> Inr \<lparr>f_values = values, f_any = False\<rparr>)"

definition parse :: "string \<Rightarrow> error + schedule" where
  "parse expr =
     (let parts = Fields (TrimSpace expr) in
      if length parts \<noteq> 5 then Inl (Errorf ''cron expression must contain 5 fields'')
      else case parseField (parts ! 0) 0 59 False of
        Inl err \<Rightarrow> Inl (Wrapped ''parse minute field'' err)
      | Inr mi \<Rightarrow> (case parseField (parts ! 1) 0 23 False of
        Inl err \<Rightarrow> Inl (Wrapped ''parse hour field'' err)
      | Inr ho \<Rightarrow> (case parseField (parts ! 2) 1 31 False of
        Inl err \<Rightarrow> Inl (Wrapped ''parse day-of-month field'' err)
      | Inr da \<Rightarrow> (case parseField (parts ! 3) 1 12 False of
        Inl err \<Rightarrow> Inl (Wrapped ''parse month field'' err)
      | Inr mo \<Rightarrow> (case parseField (parts ! 4) 0 6 True of
        Inl err \<Rightarrow> Inl (Wrapped ''parse day-of-week field'' err)
      | Inr we \<Rightarrow> Inr \<lparr>s_minute = mi, s_hour = ho, s_day = da, s_month = mo,
                         s_week = we\<rparr>)))))"

definition Validate :: "string \<Rightarrow> error option" where
  "Validate expr = (case parse expr of Inl err \<Rightarrow> Some err | Inr _ \<Rightarrow> None)"

section \<open>The search for the next minute\<close>

text \<open>\<open>n\<close> iterations of the loop are left.\<close>

fun NextAfter_loop :: "nat \<Rightarrow> location \<Rightarrow> schedule \<Rightarrow> time \<Rightarrow> time option" where
  "NextAfter_loop n loc s candidate =
     (if n = 0 then None
      else if matches loc s candidate then Some candidate
      else NextAfter_loop (n - 1) loc s (candidate + minute))"

declare NextAfter_loop.simps [simp del]

definition NextAfter :: "location \<Rightarrow> time \<Rightarrow> string \<Rightarrow> error + time" where
  "NextAfter loc now expr =
     (case parse expr of
        Inl err \<Rightarrow> Inl err
      | Inr s \<Rightarrow>
          (case NextAfter_loop searchLimitMinutes loc s (Truncate now minute + minute) of
             None \<Rightarrow> Inl (Errorf (''no matching time found for cron expression '' @ quoted expr))
           | Some t \<Rightarrow> Inr t))"

section \<open>Facts about the search\<close>

lemma NextAfter_loop_Some:
  "NextAfter_loop n loc s c = Some t \<longleftrightarrow>
     (\<exists>k < n. t = c + int k * minute \<and> matches loc s t \<and>
        (\<forall>j < k. \<not> matches loc s (c + int j * minute)))"
proof (induction n arbitrary: c)
  case 0
  then show ?case by (simp add: NextAfter_loop.simps)
next
  case (Suc n)
  show ?case
  proof (cases "matches loc s c")
    case True
    then have "NextAfter_loop (Suc n) loc s c = Some c" by (simp add: NextAfter_loop.simps)
    moreover have "(\<exists>k < Suc n. t = c + int k * minute \<and> matches loc s t \<and>
        (\<forall>j < k. \<not> matches loc s (c + int j * minute))) \<longleftrightarrow> c = t"
      using True by (force simp: gr0_conv_Suc)
    ultimately show ?thesis by simp
  next
    case False
    then have "NextAfter_loop (Suc n) loc s c = NextAfter_loop n loc s (c + minute)"
      by (simp add: NextAfter_loop.simps [of "Suc n"])
    moreover have "(\<exists>k < Suc n. t = c + int k * minute \<and> matches loc s t \<and>
        (\<forall>j < k. \<not> matches loc s (c + int j * minute))) \<longleftrightarrow>
      (\<exists>k < n. t = c + minute + int k * minute \<and> matches loc s t \<and>
        (\<forall>j < k. \<not> matches loc s (c + minute + int j * minute)))"
      using False by (auto simp: Ex_less_Suc2 All_less_Suc2 algebra_simps)
    ultimately show ?thesis by (simp add: Suc.IH)
  qed
qed

text \<open>The candidates are exactly the minute boundaries after now, up to the limit.\<close>

lemma candidate_iff:
  "(\<exists>k < n. t = Truncate now minute + minute + int k * minute) \<longleftrightarrow>
     now < t \<and> t mod minute = 0 \<and> t \<le> Truncate now minute + int n * minute"
proof
  assume "\<exists>k < n. t = Truncate now minute + minute + int k * minute"
  then obtain k where k: "k < n" "t = Truncate now minute + minute + int k * minute" by blast
  have "now < Truncate now minute + minute" using Truncate_le [of minute now] by simp
  with k have "now < t" by simp
  moreover have "t mod minute = 0" using k(2) by (simp add: Truncate_minute mod_diff_eq mod_add_eq)
  moreover have "t \<le> Truncate now minute + int n * minute" using k by simp
  ultimately show "now < t \<and> t mod minute = 0 \<and> t \<le> Truncate now minute + int n * minute"
    by blast
next
  assume a: "now < t \<and> t mod minute = 0 \<and> t \<le> Truncate now minute + int n * minute"
  let ?q = "t div minute - now div minute"
  have t: "t = t div minute * minute" using a by (metis add.right_neutral div_mult_mod_eq)
  have tr: "Truncate now minute = now div minute * minute"
    by (simp add: Truncate_minute minus_mod_eq_div_mult)
  from a t tr have "0 < ?q" "?q \<le> int n"
    by (smt (verit) Truncate_le mult_right_cancel zero_less_numeral mult_le_cancel_right)+
  then have "t = Truncate now minute + minute + int (nat (?q - 1)) * minute" "nat (?q - 1) < n"
    using t tr by (auto simp: algebra_simps)
  then show "\<exists>k < n. t = Truncate now minute + minute + int k * minute" by blast
qed

lemma boundary_le:
  assumes "u mod minute = 0" and "u < Truncate now minute + minute + int k * minute"
  shows "u \<le> Truncate now minute + int k * minute"
proof -
  obtain q where q: "u = q * minute" using assms(1) by (metis mod_0_imp_dvd dvdE mult.commute)
  have "Truncate now minute = now div minute * minute"
    by (simp add: Truncate_minute minus_mod_eq_div_mult)
  then have tr: "Truncate now minute + int k * minute = (now div minute + int k) * minute"
    by (simp add: algebra_simps)
  with q assms(2) have "q * minute < (now div minute + int k + 1) * minute"
    by (simp add: algebra_simps)
  then have "q < now div minute + int k + 1" by (subst (asm) mult_less_cancel_right_pos) simp_all
  then have "q * minute \<le> (now div minute + int k) * minute" by (intro mult_right_mono) simp_all
  with q tr show ?thesis by simp
qed

section \<open>Facts about the parser\<close>

lemma addSegment_loop_range:
  "addSegment_loop vs va e st mn mx b = Inr vs' \<Longrightarrow>
     \<forall>v \<in> fst ` set vs. int mn \<le> v \<and> v \<le> int mx \<Longrightarrow>
     \<forall>v \<in> fst ` set vs'. int mn \<le> v \<and> v \<le> int mx"
proof (induction vs va e st mn mx b rule: addSegment_loop.induct)
  case (1 vs va e st mn mx b)
  from "1.prems" "1.IH" show ?case
    by (subst (asm) addSegment_loop.simps)
      (auto simp: Let_def dom_update split: if_splits simp del: update_Some_unfold)
qed

text \<open>The values a segment stands for.\<close>

definition seg_values :: "int \<Rightarrow> int \<Rightarrow> int \<Rightarrow> int set" where
  "seg_values a e n = {v. a \<le> v \<and> v \<le> e \<and> n dvd (v - a)}"

lemma seg_values_empty: "e < a \<Longrightarrow> seg_values a e n = {}"
  by (auto simp: seg_values_def)

lemma seg_values_step: "a \<le> e \<Longrightarrow> 0 < n \<Longrightarrow> seg_values a e n = insert a (seg_values (a + n) e n)"
proof (rule set_eqI)
  fix v assume a: "a \<le> e" "0 < n"
  have d: "n dvd (v - a) \<longleftrightarrow> n dvd (v - (a + n))"
    using dvd_add_right_iff [of n n "v - (a + n)"] by (simp add: algebra_simps)
  have u: "n dvd (v - a) \<Longrightarrow> a < v \<Longrightarrow> a + n \<le> v"
    using zdvd_imp_le [of n "v - a"] by simp
  show "v \<in> seg_values a e n \<longleftrightarrow> v \<in> insert a (seg_values (a + n) e n)"
  proof (cases "a < v")
    case True
    with a d u show ?thesis by (auto simp: seg_values_def)
  next
    case False
    with a show ?thesis by (auto simp: seg_values_def)
  qed
qed

lemma addSegment_loop_values:
  assumes "0 < st" "in_int64 st" "0 \<le> va" "in_int64 (e + st)" "va \<le> e + st"
    and "\<forall>v. va \<le> v \<and> v \<le> e \<longrightarrow> int mn \<le> normalizeValue v b \<and> normalizeValue v b \<le> int mx"
  shows "\<exists>vs'. addSegment_loop vs va e st mn mx b = Inr vs' \<and>
    fst ` set vs' = fst ` set vs \<union> (\<lambda>v. normalizeValue v b) ` seg_values va e st"
  using assms
proof (induction vs va e st mn mx b rule: addSegment_loop.induct)
  case (1 vs va e st mn mx b)
  show ?case
  proof (cases "va \<le> e")
    case True
    have i: "in_int64 va" "in_int64 (va + st)"
      using "1.prems" True by (auto simp: in_int64_def)
    let ?x = "normalizeValue va b"
    have r: "addSegment_loop vs va e st mn mx b =
        addSegment_loop (mput ?x () vs) (va + st) e st mn mx b"
      using "1.prems" True i by (subst addSegment_loop.simps) (auto simp: Let_def)
    have rng: "\<not> (?x < int mn \<or> int mx < ?x)" using "1.prems"(6) True by auto
    have "\<exists>vs'. addSegment_loop (mput ?x () vs) (va + st) e st mn mx b = Inr vs' \<and>
        fst ` set vs' = fst ` set (mput ?x () vs) \<union>
          (\<lambda>v. normalizeValue v b) ` seg_values (va + st) e st"
      using "1.IH" [OF _ refl rng] "1.prems" True i by simp
    then show ?thesis
      using r "1.prems"(1) True by (simp add: seg_values_step dom_update)
  next
    case False
    then show ?thesis by (subst addSegment_loop.simps) (simp add: seg_values_empty)
  qed
qed

text \<open>Segments written out: \<open>a-e/n\<close>.\<close>

definition seg_text :: "int \<times> int \<times> int \<Rightarrow> string" where
  "seg_text = (\<lambda>(a, e, n). itoa a @ ''-'' @ itoa e @ ''/'' @ itoa n)"

definition valid_seg :: "nat \<Rightarrow> nat \<Rightarrow> bool \<Rightarrow> int \<times> int \<times> int \<Rightarrow> bool" where
  "valid_seg mn mx b = (\<lambda>(a, e, n). 0 \<le> a \<and> a \<le> e \<and> 0 < n \<and> in_int64 n \<and> in_int64 (e + n) \<and>
     (\<forall>v \<in> {a..e}. int mn \<le> normalizeValue v b \<and> normalizeValue v b \<le> int mx))"

lemma digits_no_punct:
  assumes "list_all is_digit s"
  shows "CHR ''-'' \<notin> set s" "CHR ''/'' \<notin> set s" "CHR '','' \<notin> set s"
  using assms by (auto simp: list_all_iff is_digit_def)

lemma parseValue_itoa:
  "in_int64 v \<Longrightarrow> int mn \<le> normalizeValue v b \<Longrightarrow> normalizeValue v b \<le> int mx \<Longrightarrow>
     parseValue (itoa v) mn mx b = Inr v"
  by (simp add: parseValue_def Atoi_itoa Let_def)

lemma addSegment_seg_text:
  assumes "valid_seg mn mx b (a, e, n)"
  shows "addSegment vs (seg_text (a, e, n)) mn mx b = addSegment_loop vs a e n mn mx b"
proof -
  from assms have v: "0 \<le> a" "a \<le> e" "0 < n" "in_int64 n" "in_int64 (e + n)"
    and r: "\<And>v. a \<le> v \<Longrightarrow> v \<le> e \<Longrightarrow> int mn \<le> normalizeValue v b \<and> normalizeValue v b \<le> int mx"
    by (auto simp: valid_seg_def)
  have i: "in_int64 a" "in_int64 e" using v by (auto simp: in_int64_def)
  note d = digits_no_punct [OF itoa_digits [THEN conjunct1]]
  have "CHR ''/'' \<notin> set (itoa a @ CHR ''-'' # itoa e)" using v d by simp
  from Split_append_sep [OF this, of "itoa n"]
  have s1: "Split (CHR ''/'') (seg_text (a, e, n)) = [itoa a @ CHR ''-'' # itoa e, itoa n]"
    using v d by (simp add: seg_text_def Split_no_sep)
  have s2: "Split (CHR ''-'') (itoa a @ CHR ''-'' # itoa e) = [itoa a, itoa e]"
    using v d by (simp add: Split_append_sep Split_no_sep)
  have ne: "itoa a @ CHR ''-'' # itoa e \<noteq> ''*''"
    using itoa_digits [of a] v(1) by (cases "itoa a") auto
  have "parseRange (itoa a @ CHR ''-'' # itoa e) mn mx b = Inr (a, e)"
    using v i r ne s2 by (simp add: parseRange_def parseValue_itoa Let_def)
  moreover have "CHR ''/'' \<in> set (seg_text (a, e, n))" by (simp add: seg_text_def)
  ultimately show ?thesis
    using v s1 by (simp add: addSegment_def Atoi_itoa Let_def)
qed

lemma seg_text_plain:
  assumes "valid_seg mn mx b sg"
  shows "TrimSpace (seg_text sg) = seg_text sg" "seg_text sg \<noteq> []" "CHR '','' \<notin> set (seg_text sg)"
proof -
  obtain a e n where sg: "sg = (a, e, n)" by (cases sg)
  with assms have v: "0 \<le> a" "0 \<le> e" "0 \<le> n" by (auto simp: valid_seg_def)
  note d = itoa_digits [OF v(1)] itoa_digits [OF v(2)] itoa_digits [OF v(3)]
  show ne: "seg_text sg \<noteq> []" by (simp add: sg seg_text_def)
  have "plain (hd (seg_text sg))"
    using d(1) plain_digit by (cases "itoa a") (auto simp: sg seg_text_def)
  moreover have "plain (last (seg_text sg))"
    using d(3) plain_digit by (cases "itoa n" rule: rev_cases) (auto simp: sg seg_text_def)
  ultimately show "TrimSpace (seg_text sg) = seg_text sg" using ne by (intro TrimSpace_plain)
  show "CHR '','' \<notin> set (seg_text sg)"
    using d digits_no_punct by (simp add: sg seg_text_def)
qed

lemma join_segs:
  assumes "segs \<noteq> []" and "\<forall>sg \<in> set segs. valid_seg mn mx b sg"
  shows "TrimSpace (Join (CHR '','') (map seg_text segs)) = Join (CHR '','') (map seg_text segs)"
    and "Join (CHR '','') (map seg_text segs) \<noteq> []" "Join (CHR '','') (map seg_text segs) \<noteq> ''*''"
proof -
  let ?t = "Join (CHR '','') (map seg_text segs)"
  have ends: "is_digit (hd (seg_text sg)) \<and> is_digit (last (seg_text sg)) \<and> seg_text sg \<noteq> []"
    if "sg \<in> set segs" for sg
  proof -
    obtain a e n where sg: "sg = (a, e, n)" by (cases sg)
    with that assms(2) have v: "0 \<le> a" "0 \<le> n" by (auto simp: valid_seg_def)
    from itoa_digits [OF v(1)] itoa_digits [OF v(2)] show ?thesis
      by (cases "itoa a"; cases "itoa n" rule: rev_cases) (auto simp: sg seg_text_def)
  qed
  have j: "xs \<noteq> [] \<Longrightarrow> [] \<notin> set xs \<Longrightarrow>
      Join c xs \<noteq> [] \<and> hd (Join c xs) = hd (hd xs) \<and> last (Join c xs) = last (last xs)" for c xs
    by (induction c xs rule: Join.induct) (auto simp: last_append)
  have m: "?t \<noteq> [] \<and> hd ?t = hd (hd (map seg_text segs)) \<and> last ?t = last (last (map seg_text segs))"
  proof (rule j)
    show "[] \<notin> set (map seg_text segs)" using ends by (metis imageE list.set_map)
  qed (use assms(1) in simp)
  then have h: "is_digit (hd ?t)" "is_digit (last ?t)"
    using ends assms(1) by (simp_all add: hd_map last_map)
  with m show "TrimSpace ?t = ?t" by (intro TrimSpace_plain plain_digit) auto
  from m show "?t \<noteq> []" by simp
  from h(1) show "?t \<noteq> ''*''" by (auto simp: is_digit_def)
qed

lemma parseField_loop_segs:
  "\<forall>sg \<in> set segs. valid_seg mn mx b sg \<Longrightarrow>
   \<exists>vs'. parseField_loop vs (map seg_text segs) mn mx b = Inr vs' \<and>
     fst ` set vs' = fst ` set vs \<union>
       (\<Union>(a, e, n) \<in> set segs. (\<lambda>v. normalizeValue v b) ` seg_values a e n)"
proof (induction segs arbitrary: vs)
  case (Cons sg segs)
  obtain a e n where sg: "sg = (a, e, n)" by (cases sg)
  from Cons.prems have v: "valid_seg mn mx b sg" by simp
  then obtain vs1 where 1: "addSegment_loop vs a e n mn mx b = Inr vs1"
      "fst ` set vs1 = fst ` set vs \<union> (\<lambda>v. normalizeValue v b) ` seg_values a e n"
    using addSegment_loop_values [of n a e mn b mx vs] by (auto simp: valid_seg_def sg)
  with seg_text_plain [OF v] addSegment_seg_text [of mn mx b a e n vs] v Cons.IH [of vs1] Cons.prems
  show ?case by (auto simp: sg Let_def)
qed simp

lemma contains_iff: "contains f v \<longleftrightarrow> f_any f \<or> v \<in> fst ` set (f_values f)"
  by (simp add: contains_def map_of_eq_None_iff)

text \<open>What a field must satisfy: its values are in range, and it can match something.\<close>

definition wf_field :: "int \<Rightarrow> int \<Rightarrow> cron_field \<Rightarrow> bool" where
  "wf_field mn mx f \<longleftrightarrow>
     (f_any f \<or> f_values f \<noteq> []) \<and> (\<forall>v \<in> fst ` set (f_values f). mn \<le> v \<and> v \<le> mx)"

lemma mput_neq_Nil [simp]: "mput k v m \<noteq> []"
  using dom_update [of k v m] by fastforce

lemma addSegment_loop_keeps:
  "addSegment_loop vs va e st mn mx b = Inr vs' \<Longrightarrow> vs \<noteq> [] \<Longrightarrow> vs' \<noteq> []"
proof (induction vs va e st mn mx b rule: addSegment_loop.induct)
  case (1 vs va e st mn mx b)
  from "1.prems" "1.IH" show ?case
    by (subst (asm) addSegment_loop.simps) (auto simp: Let_def split: if_splits)
qed

lemma addSegment_loop_first:
  assumes "addSegment_loop vs va e st mn mx b = Inr vs'"
    and "va \<le> e" "0 < st" "in_int64 st" "in_int64 va"
  shows "vs' \<noteq> []"
  using assms addSegment_loop_keeps [of "mput (normalizeValue va b) () vs"]
  by (subst (asm) addSegment_loop.simps) (auto simp: Let_def split: if_splits)

lemma Atoi_in_int64: "Atoi s = Some n \<Longrightarrow> in_int64 n"
  by (auto simp: Atoi_def Let_def split: if_splits)

lemma parseValue_in_int64: "parseValue s mn mx b = Inr v \<Longrightarrow> in_int64 v"
  by (auto simp: parseValue_def Let_def dest: Atoi_in_int64 split: option.splits if_splits)

lemma parseRange_ok:
  assumes "parseRange s mn mx b = Inr (st, en)" and "mn \<le> mx" "int mx < 2 ^ 63"
  shows "st \<le> en \<and> in_int64 st"
proof -
  have "in_int64 (int mn)" using assms(2,3) by (simp add: in_int64_def)
  with assms show ?thesis
    by (auto simp: parseRange_def Let_def dest: parseValue_in_int64 split: if_splits sum.splits)
qed

lemma addSegment_ok:
  assumes "addSegment vs seg mn mx b = Inr vs'" and "mn \<le> mx" "int mx < 2 ^ 63"
    and "\<forall>v \<in> fst ` set vs. int mn \<le> v \<and> v \<le> int mx"
  shows "vs' \<noteq> [] \<and> (\<forall>v \<in> fst ` set vs'. int mn \<le> v \<and> v \<le> int mx)"
proof -
  from assms(1) obtain base st a e where l: "addSegment_loop vs a e st mn mx b = Inr vs'"
      and st: "0 < st" "in_int64 st" and r: "parseRange base mn mx b = Inr (a, e)"
    by (auto simp: addSegment_def Let_def in_int64_def [of 1]
        dest: Atoi_in_int64 split: if_splits option.splits sum.splits)
  from parseRange_ok [OF r assms(2,3)] addSegment_loop_first [OF l] st
    addSegment_loop_range [OF l assms(4)]
  show ?thesis by blast
qed

lemma parseField_loop_ok:
  "parseField_loop vs ps mn mx b = Inr vs' \<Longrightarrow> mn \<le> mx \<Longrightarrow> int mx < 2 ^ 63 \<Longrightarrow>
     \<forall>v \<in> fst ` set vs. int mn \<le> v \<and> v \<le> int mx \<Longrightarrow>
     (vs \<noteq> [] \<or> ps \<noteq> [] \<longrightarrow> vs' \<noteq> []) \<and> (\<forall>v \<in> fst ` set vs'. int mn \<le> v \<and> v \<le> int mx)"
proof (induction ps arbitrary: vs)
  case (Cons p ps)
  from Cons.prems(1) obtain vs1 where a: "addSegment vs (TrimSpace p) mn mx b = Inr vs1"
      "parseField_loop vs1 ps mn mx b = Inr vs'"
    by (auto simp: Let_def split: if_splits sum.splits)
  from addSegment_ok [OF a(1) Cons.prems(2-4)] Cons.IH [OF a(2) Cons.prems(2,3)]
  show ?case by blast
qed simp

lemma parseField_wf:
  assumes "parseField tok mn mx b = Inr f" and "mn \<le> mx" "int mx < 2 ^ 63"
  shows "wf_field (int mn) (int mx) f"
  using assms parseField_loop_ok [of "[]" "Split (CHR '','') (TrimSpace tok)" mn mx b]
  by (auto simp: parseField_def wf_field_def Let_def split: if_splits sum.splits)

section \<open>Properties\<close>

text \<open>
  C8. \<^verbatim>\<open>NextAfter\<close> is exact: it returns \<open>t\<close> if and only if the expression parses, \<open>t\<close> is a minute
  boundary strictly after now and within the search limit that the schedule matches, and no
  earlier minute boundary after now matches.
\<close>

theorem NextAfter_spec:
  "NextAfter loc now expr = Inr t \<longleftrightarrow>
     (\<exists>s. parse expr = Inr s \<and> matches loc s t \<and> now < t \<and> t mod minute = 0
        \<and> t \<le> Truncate now minute + int searchLimitMinutes * minute
        \<and> (\<forall>u. now < u \<and> u < t \<and> u mod minute = 0 \<longrightarrow> \<not> matches loc s u))"
proof -
  let ?c = "Truncate now minute + minute"
  have c: "(\<exists>k < n. t = ?c + int k * minute \<and> matches loc s t \<and>
        (\<forall>j < k. \<not> matches loc s (?c + int j * minute))) \<longleftrightarrow>
      matches loc s t \<and> now < t \<and> t mod minute = 0 \<and> t \<le> Truncate now minute + int n * minute
        \<and> (\<forall>u. now < u \<and> u < t \<and> u mod minute = 0 \<longrightarrow> \<not> matches loc s u)" for n s
  proof -
    have "(\<forall>j < k. \<not> matches loc s (?c + int j * minute)) \<longleftrightarrow>
        (\<forall>u. now < u \<and> u < t \<and> u mod minute = 0 \<longrightarrow> \<not> matches loc s u)"
      if t: "t = ?c + int k * minute" for k
    proof (intro iffI allI impI)
      fix u assume h: "\<forall>j < k. \<not> matches loc s (?c + int j * minute)"
        and u: "now < u \<and> u < t \<and> u mod minute = 0"
      then have "u \<le> Truncate now minute + int k * minute" using t by (intro boundary_le) simp_all
      with u candidate_iff [of k u now] obtain j where "j < k" "u = ?c + int j * minute" by auto
      with h show "\<not> matches loc s u" by simp
    next
      fix j assume h: "\<forall>u. now < u \<and> u < t \<and> u mod minute = 0 \<longrightarrow> \<not> matches loc s u"
        and j: "j < k"
      let ?u = "?c + int j * minute"
      have "now < ?u" "?u mod minute = 0" using j candidate_iff [of k ?u now] by blast+
      moreover have "?u < t" using t j by simp
      ultimately have "now < ?u \<and> ?u < t \<and> ?u mod minute = 0" by (intro conjI)
      then show "\<not> matches loc s ?u" by (rule h [THEN spec, THEN mp])
    qed
    then have "(\<exists>k < n. t = ?c + int k * minute \<and> matches loc s t \<and>
        (\<forall>j < k. \<not> matches loc s (?c + int j * minute))) \<longleftrightarrow>
      (\<exists>k < n. t = ?c + int k * minute) \<and> matches loc s t \<and>
        (\<forall>u. now < u \<and> u < t \<and> u mod minute = 0 \<longrightarrow> \<not> matches loc s u)"
      by (smt (verit))
    then show ?thesis unfolding candidate_iff conj_assoc by (simp only: conj_left_commute)
  qed
  have "NextAfter loc now expr = Inr t \<longleftrightarrow>
      (\<exists>s. parse expr = Inr s \<and> NextAfter_loop searchLimitMinutes loc s ?c = Some t)"
    by (auto simp: NextAfter_def split: sum.splits option.splits)
  then show ?thesis unfolding NextAfter_loop_Some c .
qed

text \<open>From just after 00:03 on January 1, 2024, \<^verbatim>\<open>*/5 * * * *\<close> next matches at 00:05.\<close>

theorem NextAfter_spec_witness:
  "NextAfter (\<lambda>_. 0) 1704067380000000001 ''*/5 * * * *'' = Inr 1704067500000000000 \<and>
   1704067500000000000 mod minute = 0"
proof -
  let ?any = "\<lparr>f_values = [], f_any = True\<rparr>"
  let ?s = "\<lparr>s_minute = \<lparr>f_values = map (\<lambda>v. (v, ())) [0, 5, 10, 15, 20, 25, 30, 35, 40, 45, 50, 55],
    f_any = False\<rparr>, s_hour = ?any, s_day = ?any, s_month = ?any, s_week = ?any\<rparr>"
  have p: "parse ''*/5 * * * *'' = Inr ?s" by code_simp
  have m: "\<not> matches (\<lambda>_. 0) ?s 1704067440000000000" "matches (\<lambda>_. 0) ?s 1704067500000000000"
    by code_simp+
  have t: "Truncate 1704067380000000001 minute = 1704067380000000000" by (simp add: Truncate_minute)
  have "NextAfter (\<lambda>_. 0) 1704067380000000001 ''*/5 * * * *'' = Inr 1704067500000000000"
    using m by (simp add: NextAfter_def p t searchLimitMinutes_def NextAfter_loop.simps)
  moreover from this have "1704067500000000000 mod minute = 0"
    unfolding NextAfter_spec by blast
  ultimately show ?thesis ..
qed

text \<open>
  C37. What the parser accepts is well formed: every field of a parsed schedule is either the wild
  card or a non-empty set of values inside the range of the field (minutes 0 to 59, hours 0 to 23,
  days 1 to 31, months 1 to 12, week days 0 to 6, the Sunday written 7 stored as 0).
\<close>

theorem parse_wf:
  assumes "parse expr = Inr s"
  shows "wf_field 0 59 (s_minute s) \<and> wf_field 0 23 (s_hour s) \<and> wf_field 1 31 (s_day s)
    \<and> wf_field 1 12 (s_month s) \<and> wf_field 0 6 (s_week s)"
proof -
  have wf: "parseField tok 0 59 b = Inr f \<Longrightarrow> wf_field 0 59 f"
      "parseField tok 0 23 b = Inr f \<Longrightarrow> wf_field 0 23 f"
      "parseField tok (Suc 0) 31 b = Inr f \<Longrightarrow> wf_field 1 31 f"
      "parseField tok (Suc 0) 12 b = Inr f \<Longrightarrow> wf_field 1 12 f"
      "parseField tok 0 6 b = Inr f \<Longrightarrow> wf_field 0 6 f" for tok b f
    using parseField_wf [of tok _ _ b f] by fastforce+
  show ?thesis using assms by (auto simp: parse_def Let_def wf split: if_splits sum.splits)
qed

theorem parse_wf_witness:
  "\<exists>s. parse ''0,30 9-17 * * 1-5/2'' = Inr s \<and> wf_field 0 6 (s_week s) \<and> \<not> f_any (s_week s)"
proof -
  have e: "parse ''0,30 9-17 * * 1-5/2'' =
    Inr \<lparr>s_minute = \<lparr>f_values = [(0, ()), (30, ())], f_any = False\<rparr>,
         s_hour = \<lparr>f_values = map (\<lambda>v. (v, ())) [9, 10, 11, 12, 13, 14, 15, 16, 17], f_any = False\<rparr>,
         s_day = \<lparr>f_values = [], f_any = True\<rparr>, s_month = \<lparr>f_values = [], f_any = True\<rparr>,
         s_week = \<lparr>f_values = [(1, ()), (3, ()), (5, ())], f_any = False\<rparr>\<rparr>"
    by code_simp
  from parse_wf [OF e] e show ?thesis by simp
qed

text \<open>
  Round trip of a field: the text of a list of segments \<open>a-e/n\<close> parses, and the field that
  results contains exactly the values of the segments (every \<open>n\<close>th value from \<open>a\<close> to \<open>e\<close>, with
  7 read as Sunday in the day-of-week field).
\<close>

theorem parseField_segments:
  assumes "segs \<noteq> []" and "\<forall>sg \<in> set segs. valid_seg mn mx b sg"
  shows "\<exists>f. parseField (Join (CHR '','') (map seg_text segs)) mn mx b = Inr f \<and>
    (\<forall>x. contains f x \<longleftrightarrow>
       (\<exists>(a, e, n) \<in> set segs. \<exists>v. a \<le> v \<and> v \<le> e \<and> n dvd (v - a) \<and> x = normalizeValue v b))"
proof -
  let ?t = "Join (CHR '','') (map seg_text segs)"
  have t: "TrimSpace ?t = ?t" "?t \<noteq> []" "?t \<noteq> ''*''" using assms by (simp_all add: join_segs)
  have "Split (CHR '','') ?t = map seg_text segs"
    using assms seg_text_plain(3) by (intro Split_Join) auto
  with parseField_loop_segs [OF assms(2), of "[]"] t obtain vs where
    "parseField ?t mn mx b = Inr \<lparr>f_values = vs, f_any = False\<rparr>"
    and vs: "fst ` set vs = (\<Union>(a, e, n) \<in> set segs. (\<lambda>v. normalizeValue v b) ` seg_values a e n)"
    by (auto simp: parseField_def Let_def)
  moreover have "contains \<lparr>f_values = vs, f_any = False\<rparr> x \<longleftrightarrow>
      (\<exists>(a, e, n) \<in> set segs. \<exists>v. a \<le> v \<and> v \<le> e \<and> n dvd (v - a) \<and> x = normalizeValue v b)" for x
    unfolding contains_iff cron_field.simps vs seg_values_def by blast
  ultimately show ?thesis by blast
qed

theorem parseField_segments_witness:
  "\<exists>f. parseField ''1-3/2,7-7/1'' 0 6 True = Inr f \<and> contains f 0 \<and> \<not> contains f 2"
proof -
  have t: "Join (CHR '','') (map seg_text [(1, 3, 2), (7, 7, 1)]) = ''1-3/2,7-7/1''" by code_simp
  have "\<forall>sg \<in> set [(1, 3, 2), (7, 7, 1)]. valid_seg 0 6 True sg"
    by (auto simp: valid_seg_def in_int64_def normalizeValue_def)
  from parseField_segments [OF _ this] t obtain f where
    f: "parseField ''1-3/2,7-7/1'' 0 6 True = Inr f"
       "\<forall>x. contains f x \<longleftrightarrow> (\<exists>(a, e, n) \<in> set [(1, 3, 2), (7, 7, 1)].
          \<exists>v. a \<le> v \<and> v \<le> e \<and> n dvd (v - a) \<and> x = normalizeValue v True)"
    by auto
  have "contains f 0" unfolding f(2) [rule_format] by (auto simp: normalizeValue_def intro!: exI [of _ 7])
  moreover have "\<not> contains f 2"
    unfolding f(2) [rule_format] by (auto simp: normalizeValue_def)
  ultimately show ?thesis using f(1) by blast
qed

end
