(* ===== verification/Engine.thy ===== *)
theory Engine
  imports GoTime
begin

text \<open>
  \<^verbatim>\<open>internal/scheduler/engine\<close>: the min-heap of trigger times, the timing wheel, and the engine
  that drives both. Out-of-range indexing panics in Go and is \<open>None\<close> here. \<^verbatim>\<open>PopUntil\<close> filters the
  slice in place, so its model reads and writes one array.
\<close>

section \<open>The heap\<close>

record heapItem =
  h_TaskID :: int
  h_TriggerTime :: time

type_synonym taskHeap = "heapItem list"

definition Less :: "taskHeap \<Rightarrow> nat \<Rightarrow> nat \<Rightarrow> bool" where
  "Less h i j \<longleftrightarrow> h_TriggerTime (h ! i) < h_TriggerTime (h ! j)"

definition Swap :: "taskHeap \<Rightarrow> nat \<Rightarrow> nat \<Rightarrow> taskHeap" where
  "Swap h i j = h[i := h ! j, j := h ! i]"

definition Push :: "taskHeap \<Rightarrow> heapItem \<Rightarrow> taskHeap" where
  "Push h x = h @ [x]"

definition Pop :: "taskHeap \<Rightarrow> (heapItem \<times> taskHeap) option" where
  "Pop h = (if h = [] then None else Some (last h, butlast h))"

definition Peek :: "taskHeap \<Rightarrow> heapItem option" where
  "Peek h = (if length h = 0 then None else Some (h ! 0))"

text \<open>
  The loop of \<^verbatim>\<open>PopUntil\<close>: \<open>r\<close> is the read position in the array, \<open>w\<close> the length of
  \<^verbatim>\<open>remaining\<close>, which shares the array and so is the write position.
\<close>

function PopUntil_loop ::
  "time \<Rightarrow> taskHeap \<Rightarrow> nat \<Rightarrow> nat \<Rightarrow> heapItem list \<Rightarrow> taskHeap \<times> nat \<times> heapItem list" where
  "PopUntil_loop cutoff arr r w result =
     (if r < length arr then
        let item = arr ! r in
        if h_TriggerTime item > cutoff
        then PopUntil_loop cutoff (arr[w := item]) (r + 1) (w + 1) result
        else PopUntil_loop cutoff arr (r + 1) w (result @ [item])
      else (arr, w, result))"
  by pat_completeness auto
termination
  by (relation "measure (\<lambda>(c, arr, r, w, res). length arr - r)") auto

declare PopUntil_loop.simps [simp del]

definition PopUntil :: "taskHeap \<Rightarrow> time \<Rightarrow> heapItem list \<times> taskHeap" where
  "PopUntil h cutoff =
     (let (arr, w, result) = PopUntil_loop cutoff h 0 0 [] in (result, take w arr))"

text \<open>\<^verbatim>\<open>heap.Push\<close> of \<^verbatim>\<open>container/heap\<close>: append and sift up.\<close>

definition parent :: "nat \<Rightarrow> nat" where
  "parent j = (j - 1) div 2"

lemma parent_less: "0 < j \<Longrightarrow> parent j < j" "parent j \<noteq> j \<Longrightarrow> parent j < j" "parent j \<le> j"
  by (auto simp: parent_def)

function heap_up :: "taskHeap \<Rightarrow> nat \<Rightarrow> taskHeap" where
  "heap_up h j =
     (let i = parent j in
      if i = j \<or> \<not> Less h j i then h else heap_up (Swap h i j) i)"
  by pat_completeness auto
termination
  by (relation "measure snd") (auto simp: parent_less)

declare heap_up.simps [simp del]

definition heap_Push :: "taskHeap \<Rightarrow> heapItem \<Rightarrow> taskHeap" where
  "heap_Push h x = (let h = Push h x in heap_up h (length h - 1))"

section \<open>The timing wheel\<close>

text \<open>A slot is the set of its task ids.\<close>

type_synonym slot = "(int, unit) gomap"

record TimingWheel =
  tw_slots :: "slot list"
  tw_tickDuration :: duration
  tw_wheelSize :: int
  tw_currentPos :: int

definition defaultTickDuration :: duration where
  "defaultTickDuration = 100 * millisecond"

definition defaultWheelSize :: int where
  "defaultWheelSize = 600"

definition NewTimingWheel :: "duration \<Rightarrow> int \<Rightarrow> TimingWheel" where
  "NewTimingWheel tickDuration wheelSize =
     (let tickDuration = (if tickDuration \<le> 0 then defaultTickDuration else tickDuration);
          wheelSize = (if wheelSize \<le> 0 then defaultWheelSize else wheelSize)
      in \<lparr>tw_slots = replicate (nat wheelSize) [], tw_tickDuration = tickDuration,
          tw_wheelSize = wheelSize, tw_currentPos = 0\<rparr>)"

text \<open>The slot of a trigger time; \<^verbatim>\<open>UnixNano\<close> is 64 bits wide and Go's division truncates.\<close>

definition slot_pos :: "TimingWheel \<Rightarrow> time \<Rightarrow> int" where
  "slot_pos tw triggerTime =
     go_mod (go_div (wrap64 triggerTime) (tw_tickDuration tw)) (tw_wheelSize tw)"

definition Add :: "TimingWheel \<Rightarrow> int \<Rightarrow> time \<Rightarrow> TimingWheel option" where
  "Add tw taskID triggerTime =
     (let pos = slot_pos tw triggerTime in
      if pos < 0 \<or> int (length (tw_slots tw)) \<le> pos then None
      else Some (tw\<lparr>tw_slots := (tw_slots tw)[nat pos := mput taskID () (tw_slots tw ! nat pos)]\<rparr>))"

definition Remove :: "TimingWheel \<Rightarrow> int \<Rightarrow> TimingWheel" where
  "Remove tw taskID = tw\<lparr>tw_slots := map (mdel taskID) (tw_slots tw)\<rparr>"

definition Tick :: "TimingWheel \<Rightarrow> int list \<times> TimingWheel" where
  "Tick tw =
     (let currentPos = go_mod (tw_currentPos tw + 1) (tw_wheelSize tw);
          taskIDs = map fst (tw_slots tw ! nat currentPos)
      in (taskIDs, tw\<lparr>tw_currentPos := currentPos, tw_slots := (tw_slots tw)[nat currentPos := []]\<rparr>))"

definition TickDuration :: "TimingWheel \<Rightarrow> duration" where
  "TickDuration tw = tw_tickDuration tw"

definition SlotSpan :: "TimingWheel \<Rightarrow> duration" where
  "SlotSpan tw = wrap64 (tw_tickDuration tw * tw_wheelSize tw)"

definition wf_wheel :: "TimingWheel \<Rightarrow> bool" where
  "wf_wheel tw \<longleftrightarrow> 0 < tw_tickDuration tw \<and> 0 < tw_wheelSize tw
     \<and> int (length (tw_slots tw)) = tw_wheelSize tw
     \<and> 0 \<le> tw_currentPos tw \<and> tw_currentPos tw < tw_wheelSize tw \<and> list_all wf_map (tw_slots tw)"

section \<open>The engine\<close>

record Engine =
  e_wheel :: TimingWheel
  e_heap :: taskHeap

definition NewEngine :: Engine where
  "NewEngine = \<lparr>e_wheel = NewTimingWheel (100 * millisecond) 600, e_heap = []\<rparr>"

definition AddToWheel :: "Engine \<Rightarrow> int \<Rightarrow> time \<Rightarrow> Engine option" where
  "AddToWheel e taskID triggerTime =
     map_option (\<lambda>tw. e\<lparr>e_wheel := tw\<rparr>) (Add (e_wheel e) taskID triggerTime)"

definition RemoveFromWheel :: "Engine \<Rightarrow> int \<Rightarrow> Engine" where
  "RemoveFromWheel e taskID = e\<lparr>e_wheel := Remove (e_wheel e) taskID\<rparr>"

definition AddToHeap :: "Engine \<Rightarrow> int \<Rightarrow> time \<Rightarrow> Engine" where
  "AddToHeap e taskID triggerTime =
     e\<lparr>e_heap := heap_Push (e_heap e) \<lparr>h_TaskID = taskID, h_TriggerTime = triggerTime\<rparr>\<rparr>"

text \<open>
  The ticks call \<^verbatim>\<open>OnTrigger\<close>, when it is set, on each task id in turn; \<open>s\<close> is the state the
  callback works on.
\<close>

definition call_triggers :: "(int \<Rightarrow> 's \<Rightarrow> 's) option \<Rightarrow> int list \<Rightarrow> 's \<Rightarrow> 's" where
  "call_triggers onTrigger ids s =
     fold (\<lambda>id s. case onTrigger of None \<Rightarrow> s | Some f \<Rightarrow> f id s) ids s"

definition processWheelTick :: "(int \<Rightarrow> 's \<Rightarrow> 's) option \<Rightarrow> Engine \<times> 's \<Rightarrow> Engine \<times> 's" where
  "processWheelTick onTrigger = (\<lambda>(e, s).
     let (taskIDs, tw) = Tick (e_wheel e)
     in (e\<lparr>e_wheel := tw\<rparr>, call_triggers onTrigger taskIDs s))"

definition processHeapTick :: "time \<Rightarrow> (int \<Rightarrow> 's \<Rightarrow> 's) option \<Rightarrow> Engine \<times> 's \<Rightarrow> Engine \<times> 's" where
  "processHeapTick now onTrigger = (\<lambda>(e, s).
     let (items, h) = PopUntil (e_heap e) now
     in (e\<lparr>e_heap := h\<rparr>, call_triggers onTrigger (map h_TaskID items) s))"

section \<open>Facts about the heap\<close>

text \<open>What the loop keeps: the array from \<open>r\<close> on is untouched, its first \<open>w\<close> cells are what was kept.\<close>

lemma PopUntil_loop_eq:
  assumes "w \<le> r" "r \<le> length arr"
  shows "\<exists>arr'. PopUntil_loop c arr r w res =
      (arr', w + length (filter (\<lambda>x. h_TriggerTime x > c) (drop r arr)),
       res @ filter (\<lambda>x. \<not> h_TriggerTime x > c) (drop r arr))
    \<and> length arr' = length arr
    \<and> take (w + length (filter (\<lambda>x. h_TriggerTime x > c) (drop r arr))) arr' =
        take w arr @ filter (\<lambda>x. h_TriggerTime x > c) (drop r arr)"
  using assms
proof (induction "length arr - r" arbitrary: arr r w res)
  case 0
  then show ?case by (simp add: PopUntil_loop.simps)
next
  case (Suc n)
  then have r: "r < length arr" by simp
  then have d: "drop r arr = arr ! r # drop (Suc r) arr" by (simp add: Cons_nth_drop_Suc)
  show ?case
  proof (cases "h_TriggerTime (arr ! r) > c")
    case True
    let ?arr = "arr[w := arr ! r]"
    have "PopUntil_loop c arr r w res = PopUntil_loop c ?arr (Suc r) (Suc w) res"
      using r True by (subst PopUntil_loop.simps) simp
    moreover have "drop (Suc r) ?arr = drop (Suc r) arr" using Suc.prems by simp
    moreover have "take (Suc w) ?arr = take w arr @ [arr ! r]"
      using Suc.prems r by (simp add: take_Suc_conv_app_nth)
    moreover note Suc.hyps(1) [of ?arr "Suc r" "Suc w" res]
    ultimately show ?thesis using Suc.hyps(2) Suc.prems r d True by simp
  next
    case False
    have "PopUntil_loop c arr r w res = PopUntil_loop c arr (Suc r) w (res @ [arr ! r])"
      using r False by (subst PopUntil_loop.simps) simp
    moreover note Suc.hyps(1) [of arr "Suc r" w "res @ [arr ! r]"]
    ultimately show ?thesis using Suc.hyps(2) Suc.prems r d False by simp
  qed
qed

lemma PopUntil_filter:
  "PopUntil h c = (filter (\<lambda>x. h_TriggerTime x \<le> c) h, filter (\<lambda>x. c < h_TriggerTime x) h)"
  using PopUntil_loop_eq [of 0 0 h c "[]"] by (auto simp: PopUntil_def not_less)

text \<open>The heap order, and the order broken at one position only.\<close>

definition is_heap :: "taskHeap \<Rightarrow> bool" where
  "is_heap h \<longleftrightarrow> (\<forall>i \<in> {1..<length h}. h_TriggerTime (h ! parent i) \<le> h_TriggerTime (h ! i))"

definition heap_but :: "nat \<Rightarrow> taskHeap \<Rightarrow> bool" where
  "heap_but j h \<longleftrightarrow>
     (\<forall>i. 0 < i \<and> i < length h \<and> i \<noteq> j \<longrightarrow> h_TriggerTime (h ! parent i) \<le> h_TriggerTime (h ! i))
   \<and> (\<forall>i. 0 < i \<and> i < length h \<and> parent i = j \<and> 0 < j \<longrightarrow>
          h_TriggerTime (h ! parent j) \<le> h_TriggerTime (h ! i))"

lemma is_heap_iff:
  "is_heap h \<longleftrightarrow> (\<forall>i. 0 < i \<and> i < length h \<longrightarrow> h_TriggerTime (h ! parent i) \<le> h_TriggerTime (h ! i))"
  by (auto simp: is_heap_def)

lemma mset_Swap: "i < length h \<Longrightarrow> j < length h \<Longrightarrow> mset (Swap h i j) = mset h"
  by (simp add: Swap_def mset_swap)

lemma heap_but_Swap:
  assumes "heap_but j h" "j < length h" "0 < j" "Less h j (parent j)"
  shows "heap_but (parent j) (Swap h (parent j) j)"
proof -
  let ?p = "parent j"
  let ?k = "\<lambda>i. h_TriggerTime (h ! i)"
  have p: "?p < j" by (rule parent_less(1) [OF assms(3)])
  have k: "h_TriggerTime (Swap h ?p j ! i) = (if i = ?p then ?k j else if i = j then ?k ?p else ?k i)"
    if "i < length h" for i
    using that assms(2) p by (simp add: Swap_def nth_list_update)
  have l: "?k j < ?k ?p" using assms(4) by (simp add: Less_def)
  have h1: "?k (parent i) \<le> ?k i" if "0 < i" "i < length h" "i \<noteq> j" for i
    using assms(1) that by (simp add: heap_but_def)
  have h2: "?k ?p \<le> ?k i" if "0 < i" "i < length h" "parent i = j" for i
    using assms(1,3) that by (simp add: heap_but_def)
  have "h_TriggerTime (Swap h ?p j ! parent i) \<le> h_TriggerTime (Swap h ?p j ! i)"
    if i: "0 < i" "i < length h" "i \<noteq> ?p" for i
  proof -
    have "parent i < length h" using i parent_less(3) [of i] by linarith
    with i l p h1 [of i] h2 [of i] assms(2) show ?thesis by (cases "i = j") (auto simp: k)
  qed
  moreover have "h_TriggerTime (Swap h ?p j ! parent ?p) \<le> h_TriggerTime (Swap h ?p j ! i)"
    if i: "0 < i" "i < length h" "parent i = ?p" "0 < ?p" for i
  proof -
    have q: "parent ?p < ?p" "parent ?p < length h" using parent_less(1) [OF i(4)] p assms(2) by auto
    have "?k (parent ?p) \<le> ?k ?p" using h1 [of ?p] i(4) p assms(2) by simp
    moreover have "?k ?p \<le> ?k i" if "i \<noteq> j" using h1 [of i] i that by simp
    moreover have "i \<noteq> ?p" using i(3) parent_less(1) [OF i(1)] by auto
    ultimately show ?thesis using q i p assms(2) by (cases "i = j") (auto simp: k)
  qed
  ultimately show ?thesis by (simp add: heap_but_def Swap_def)
qed

lemma heap_up_ok:
  "j < length h \<Longrightarrow> heap_but j h \<Longrightarrow> is_heap (heap_up h j) \<and> mset (heap_up h j) = mset h"
proof (induction h j rule: heap_up.induct)
  case (1 h j)
  let ?p = "parent j"
  show ?case
  proof (cases "?p = j \<or> \<not> Less h j ?p")
    case True
    then have "heap_up h j = h" by (subst heap_up.simps) simp
    moreover have "is_heap h"
      using "1.prems" True parent_less(1) [of j] by (fastforce simp: is_heap_iff heap_but_def Less_def not_less)
    ultimately show ?thesis by simp
  next
    case False
    then have j: "0 < j" by (cases j) (auto simp: parent_def)
    have "heap_up h j = heap_up (Swap h ?p j) ?p" using False by (subst heap_up.simps) (simp add: Let_def)
    moreover have "?p < length h" using "1.prems"(1) parent_less(3) [of j] by linarith
    ultimately show ?thesis
      using "1.IH" [OF refl False] heap_but_Swap [OF "1.prems"(2,1) j] mset_Swap [of ?p h j] False "1.prems"(1)
      by (simp add: Swap_def)
  qed
qed

lemma heap_but_snoc:
  assumes "is_heap h"
  shows "heap_but (length h) (h @ [x])"
proof -
  have "parent i < length h" "parent i \<noteq> length h" if "i \<le> length h" "0 < i" for i
    using that parent_less(1) [of i] by linarith+
  then show ?thesis
    using assms by (auto simp: is_heap_iff heap_but_def nth_append less_Suc_eq)
qed

section \<open>Facts about the wheel\<close>

lemma wf_wheel_New: "wf_wheel (NewTimingWheel d n)"
  by (simp add: wf_wheel_def NewTimingWheel_def defaultTickDuration_def defaultWheelSize_def Let_def
      list_all_iff)

lemma slot_pos_range:
  assumes "wf_wheel tw" "0 \<le> t" "in_int64 t"
  shows "slot_pos tw t = t div tw_tickDuration tw mod tw_wheelSize tw"
    and "0 \<le> slot_pos tw t" "slot_pos tw t < int (length (tw_slots tw))"
  using assms by (simp_all add: slot_pos_def wf_wheel_def pos_imp_zdiv_nonneg_iff)

lemma wf_wheel_Add:
  assumes "wf_wheel tw" "Add tw k t = Some tw'"
  shows "wf_wheel tw'"
proof -
  from assms(2) have tw': "tw' = tw\<lparr>tw_slots := (tw_slots tw)[nat (slot_pos tw t) :=
      mput k () (tw_slots tw ! nat (slot_pos tw t))]\<rparr>" "nat (slot_pos tw t) < length (tw_slots tw)"
    by (auto simp: Add_def Let_def nat_less_iff split: if_splits)
  with assms(1) have "wf_map (tw_slots tw ! nat (slot_pos tw t))"
    by (simp add: wf_wheel_def list_all_length)
  with assms(1) tw' show ?thesis
    by (auto simp: wf_wheel_def list_all_iff dest!: set_update_subset_insert [THEN subsetD])
qed

lemma wf_wheel_Remove: "wf_wheel tw \<Longrightarrow> wf_wheel (Remove tw k)"
  by (auto simp: wf_wheel_def Remove_def list_all_iff)

lemma Tick_pos: "wf_wheel tw \<Longrightarrow> go_mod (tw_currentPos tw + 1) (tw_wheelSize tw) =
    (tw_currentPos tw + 1) mod tw_wheelSize tw"
  by (simp add: wf_wheel_def)

lemma wf_wheel_Tick: "wf_wheel tw \<Longrightarrow> wf_wheel (snd (Tick tw))"
  by (auto simp: wf_wheel_def Tick_def Let_def list_all_iff
      dest!: set_update_subset_insert [THEN subsetD])

fun ticks :: "nat \<Rightarrow> TimingWheel \<Rightarrow> TimingWheel" where
  "ticks 0 tw = tw"
| "ticks (Suc n) tw = snd (Tick (ticks n tw))"

text \<open>What the \<open>n\<close>th tick from now returns.\<close>

definition fired :: "nat \<Rightarrow> TimingWheel \<Rightarrow> int list" where
  "fired n tw = fst (Tick (ticks (n - 1) tw))"

lemma ticks_state:
  assumes "wf_wheel tw"
  shows "wf_wheel (ticks n tw) \<and> tw_wheelSize (ticks n tw) = tw_wheelSize tw
    \<and> tw_currentPos (ticks n tw) = (tw_currentPos tw + int n) mod tw_wheelSize tw
    \<and> (\<forall>p < length (tw_slots tw). tw_slots (ticks n tw) ! p =
        (if \<exists>j \<in> {1..n}. int p = (tw_currentPos tw + int j) mod tw_wheelSize tw then []
         else tw_slots tw ! p))"
proof (induction n)
  case 0
  then show ?case using assms by (simp add: wf_wheel_def)
next
  case (Suc n)
  let ?t = "ticks n tw" and ?q = "(tw_currentPos tw + int (Suc n)) mod tw_wheelSize tw"
  have w: "wf_wheel ?t" "tw_wheelSize ?t = tw_wheelSize tw" "length (tw_slots ?t) = length (tw_slots tw)"
    using Suc assms by (auto simp: wf_wheel_def)
  have q: "(tw_currentPos ?t + 1) mod tw_wheelSize tw = ?q"
    using Suc mod_add_left_eq [of "tw_currentPos tw + int n" "tw_wheelSize tw" 1]
    by (simp add: add.commute add.left_commute)
  have r: "0 \<le> ?q" using assms by (simp add: wf_wheel_def)
  have t: "Tick ?t = (map fst (tw_slots ?t ! nat ?q),
      ?t\<lparr>tw_currentPos := ?q, tw_slots := (tw_slots ?t)[nat ?q := []]\<rparr>)"
    using Tick_pos [OF w(1)] by (simp add: Tick_def w(2) q Let_def)
  have "tw_slots (ticks (Suc n) tw) ! p =
      (if \<exists>j \<in> {1..Suc n}. int p = (tw_currentPos tw + int j) mod tw_wheelSize tw then []
       else tw_slots tw ! p)" if "p < length (tw_slots tw)" for p
  proof -
    have "(\<exists>j \<in> {1..Suc n}. int p = (tw_currentPos tw + int j) mod tw_wheelSize tw) \<longleftrightarrow>
        (\<exists>j \<in> {1..n}. int p = (tw_currentPos tw + int j) mod tw_wheelSize tw) \<or> p = nat ?q"
    proof -
      have i: "{1..Suc n} = insert (Suc n) {1..n}" by auto
      have "int p = ?q \<longleftrightarrow> p = nat ?q" using r by auto
      then show ?thesis unfolding i by blast
    qed
    then show ?thesis using Suc that w(3) by (cases "p = nat ?q") (auto simp: t nth_list_update)
  qed
  then show ?case using wf_wheel_Tick [OF w(1)] by (simp add: t w(2))
qed

text \<open>During the first turn no position is visited twice, so each tick returns its slot as it was.\<close>

lemma fired_first_turn:
  assumes "wf_wheel tw" "1 \<le> n" "int n \<le> tw_wheelSize tw"
  shows "fired n tw = map fst (tw_slots tw ! nat ((tw_currentPos tw + int n) mod tw_wheelSize tw))"
proof -
  define m where "m = n - 1"
  have n: "int n = int m + 1" "n - 1 = m" using assms(2) by (auto simp: m_def)
  let ?t = "ticks m tw" and ?s = "tw_wheelSize tw" and ?c = "tw_currentPos tw"
  let ?q = "(?c + int n) mod ?s"
  have st: "wf_wheel ?t" "tw_wheelSize ?t = ?s" "tw_currentPos ?t = (?c + int m) mod ?s"
    using ticks_state [OF assms(1), of m] by blast+
  have q: "(tw_currentPos ?t + 1) mod ?s = ?q"
    using st(3) mod_add_left_eq [of "?c + int m" ?s 1] by (simp add: n(1) add.assoc)
  have "0 \<le> ?q" "?q < ?s" using assms(1) by (simp_all add: wf_wheel_def)
  then have p: "nat ?q < length (tw_slots tw)" "int (nat ?q) = ?q"
    using assms(1) by (auto simp: wf_wheel_def nat_less_iff)
  have "?q \<noteq> (?c + int j) mod ?s" if "j \<in> {1..m}" for j
  proof
    assume "?q = (?c + int j) mod ?s"
    then have "?s dvd (?c + int n) - (?c + int j)" by (simp add: mod_eq_dvd_iff)
    then have "?s \<le> int n - int j" using that n by (intro zdvd_imp_le) auto
    with that assms(3) n show False by simp
  qed
  then have "tw_slots ?t ! nat ?q = tw_slots tw ! nat ?q"
    using ticks_state [OF assms(1), of m] p by (metis (no_types, lifting))
  then show ?thesis using Tick_pos [OF st(1)] by (simp only: fired_def Tick_def st(2) q n Let_def fst_conv)
qed

section \<open>Properties\<close>

text \<open>
  \<^verbatim>\<open>heap.Push\<close> on the task heap keeps the heap order and adds exactly the new item, so that
  \<^verbatim>\<open>Peek\<close> then returns an item of the least trigger time.
\<close>

theorem heap_Push_ok:
  assumes "is_heap h"
  shows "is_heap (heap_Push h x) \<and> mset (heap_Push h x) = add_mset x (mset h)"
  using heap_up_ok [of "length h" "h @ [x]"] heap_but_snoc [OF assms]
  by (simp add: heap_Push_def Push_def)

theorem heap_Push_ok_witness:
  "is_heap (heap_Push [\<lparr>h_TaskID = 1, h_TriggerTime = 5\<rparr>, \<lparr>h_TaskID = 2, h_TriggerTime = 9\<rparr>]
     \<lparr>h_TaskID = 3, h_TriggerTime = 2\<rparr>)"
proof -
  have "is_heap [\<lparr>h_TaskID = 1, h_TriggerTime = 5\<rparr>, \<lparr>h_TaskID = 2, h_TriggerTime = 9\<rparr>]"
    by (simp add: is_heap_def parent_def)
  from heap_Push_ok [OF this] show ?thesis by blast
qed

text \<open>
  \<^verbatim>\<open>PopUntil\<close>, which overwrites the slice it reads, is the plain partition: it returns exactly
  the items due at the cutoff, leaves exactly the later ones, both in their old order, and no item
  is lost or duplicated.
\<close>

theorem PopUntil_partition:
  "PopUntil h cutoff =
     (filter (\<lambda>x. h_TriggerTime x \<le> cutoff) h, filter (\<lambda>x. cutoff < h_TriggerTime x) h) \<and>
   mset (fst (PopUntil h cutoff)) + mset (snd (PopUntil h cutoff)) = mset h"
proof -
  have "mset (filter (\<lambda>x. h_TriggerTime x \<le> cutoff) h) + mset (filter (\<lambda>x. cutoff < h_TriggerTime x) h)
      = mset h"
    by (induction h) auto
  then show ?thesis by (simp add: PopUntil_filter)
qed

text \<open>
  \<^verbatim>\<open>PopUntil\<close> does not keep the heap order: there is a heap after which the remaining slice is
  no heap, and \<^verbatim>\<open>Peek\<close> on it does not return the earliest trigger time.
\<close>

theorem PopUntil_breaks_heap:
  "\<exists>h cutoff x. is_heap h \<and> \<not> is_heap (snd (PopUntil h cutoff)) \<and>
     Peek (snd (PopUntil h cutoff)) = Some x \<and>
     (\<exists>y \<in> set (snd (PopUntil h cutoff)). h_TriggerTime y < h_TriggerTime x)"
proof -
  let ?i = "\<lambda>t. \<lparr>h_TaskID = t, h_TriggerTime = t\<rparr>"
  let ?h = "[?i 1, ?i 5, ?i 2]"
  have p: "PopUntil ?h 1 = ([?i 1], [?i 5, ?i 2])" by (simp add: PopUntil_filter)
  have "is_heap ?h" by (auto simp: is_heap_def parent_def less_Suc_eq numeral_eq_Suc)
  moreover have "\<not> is_heap [?i 5, ?i 2]" by (auto simp: is_heap_def parent_def)
  ultimately show ?thesis
    by (intro exI [of _ ?h] exI [of _ 1] exI [of _ "?i 5"]) (simp add: p Peek_def)
qed

text \<open>
  A turn of the wheel returns every task exactly at the tick of its slot: after \<^verbatim>\<open>Add\<close> of a task
  that is nowhere in the wheel, the \<open>n\<close>th of the next ticks, up to a whole turn, returns it if and
  only if the position reached is the task's slot. The position counts ticks since the wheel was
  made, not the clock.
\<close>

theorem Add_fires_once:
  assumes "wf_wheel tw" "0 \<le> t" "in_int64 t" "\<forall>sl \<in> set (tw_slots tw). k \<notin> fst ` set sl"
    and "1 \<le> n" "int n \<le> tw_wheelSize tw"
  shows "\<exists>tw'. Add tw k t = Some tw' \<and>
    (k \<in> set (fired n tw') \<longleftrightarrow>
       (tw_currentPos tw + int n) mod tw_wheelSize tw = t div tw_tickDuration tw mod tw_wheelSize tw)"
proof -
  let ?p = "slot_pos tw t" and ?q = "(tw_currentPos tw + int n) mod tw_wheelSize tw"
  note p = slot_pos_range [OF assms(1-3)]
  let ?tw = "tw\<lparr>tw_slots := (tw_slots tw)[nat ?p := mput k () (tw_slots tw ! nat ?p)]\<rparr>"
  have a: "Add tw k t = Some ?tw" using p by (simp add: Add_def Let_def not_less)
  have q: "0 \<le> ?q" "?q < int (length (tw_slots tw))" using assms(1) by (simp_all add: wf_wheel_def)
  have f: "fired n ?tw = map fst (tw_slots ?tw ! nat ?q)"
    using fired_first_turn [OF wf_wheel_Add [OF assms(1) a] assms(5)] assms(6) by simp
  have "k \<in> set (fired n ?tw) \<longleftrightarrow> ?q = ?p"
  proof (cases "?q = ?p")
    case True
    then show ?thesis unfolding f using p(2,3) by (auto simp: dom_update)
  next
    case False
    then have "nat ?p \<noteq> nat ?q" using p(2) q(1) by (simp add: nat_eq_iff)
    moreover have "k \<notin> fst ` set (tw_slots tw ! nat ?q)" using assms(4) q by auto
    ultimately show ?thesis unfolding f using False by simp
  qed
  with a p(1) show ?thesis by auto
qed

text \<open>
  On a fresh wheel of 600 slots of 100 ms, a task whose trigger time is a multiple of 60 seconds,
  here long past, waits for the last tick of the turn.
\<close>

theorem Add_fires_once_witness:
  "\<exists>tw. Add (NewTimingWheel 0 0) 42 60000000000 = Some tw \<and> 42 \<in> set (fired 600 tw)"
  using Add_fires_once [OF wf_wheel_New, of 60000000000 0 0 42 600]
  by (auto simp: NewTimingWheel_def Let_def defaultTickDuration_def defaultWheelSize_def in_int64_def)

text \<open>
  A heap tick triggers exactly the due items, each once, and never one before its time: the
  callback is called on the task ids of the items with trigger time up to now, in their order in
  the heap, and the later items stay.
\<close>

theorem processHeapTick_due:
  "processHeapTick now (Some f) (e, s) =
     (e\<lparr>e_heap := filter (\<lambda>x. now < h_TriggerTime x) (e_heap e)\<rparr>,
      fold f (map h_TaskID (filter (\<lambda>x. h_TriggerTime x \<le> now) (e_heap e))) s)"
  by (simp add: processHeapTick_def PopUntil_filter call_triggers_def)

end
