(* ===== verification/Labels.thy ===== *)
theory Labels
  imports Model
begin

text \<open>
  \<^verbatim>\<open>internal/model/labels.go\<close>: worker and task labels, stored as the JSON text of a
  \<^verbatim>\<open>map[string]string\<close>. The part of \<^verbatim>\<open>encoding/json\<close> that such maps exercise is written out:
  string quoting with its HTML-safe escapes and the treatment of UTF-8, and the reader of objects
  whose members are strings or null. Every other JSON value makes \<^verbatim>\<open>Unmarshal\<close> fail, by its syntax
  or by its type, and \<^verbatim>\<open>DecodeLabels\<close> answers nil either way. A nil map reads like the empty one,
  so both are \<open>[]\<close>.
\<close>

section \<open>UTF-8\<close>

definition byte :: "char \<Rightarrow> nat" where
  "byte c = of_char c"

definition between :: "nat \<Rightarrow> nat \<Rightarrow> char \<Rightarrow> bool" where
  "between lo hi c \<longleftrightarrow> lo \<le> byte c \<and> byte c \<le> hi"

abbreviation tail_byte :: "char \<Rightarrow> bool" where
  "tail_byte \<equiv> between 0x80 0xBF"

definition seq2 :: "char \<Rightarrow> char \<Rightarrow> bool" where
  "seq2 a b \<longleftrightarrow> between 0xC2 0xDF a \<and> tail_byte b"

definition seq3 :: "char \<Rightarrow> char \<Rightarrow> char \<Rightarrow> bool" where
  "seq3 a b c \<longleftrightarrow> between 0xE0 0xEF a
     \<and> between (if byte a = 0xE0 then 0xA0 else 0x80) (if byte a = 0xED then 0x9F else 0xBF) b
     \<and> tail_byte c"

definition seq4 :: "char \<Rightarrow> char \<Rightarrow> char \<Rightarrow> char \<Rightarrow> bool" where
  "seq4 a b c d \<longleftrightarrow> between 0xF0 0xF4 a
     \<and> between (if byte a = 0xF0 then 0x90 else 0x80) (if byte a = 0xF4 then 0x8F else 0xBF) b
     \<and> tail_byte c \<and> tail_byte d"

text \<open>The length of the UTF-8 sequence that starts a string; 0 if there is none.\<close>

definition utf8_len :: "string \<Rightarrow> nat" where
  "utf8_len s = (case s of
       [] \<Rightarrow> 0
     | a # s1 \<Rightarrow> if byte a < 0x80 then 1 else (case s1 of
       [] \<Rightarrow> 0
     | b # s2 \<Rightarrow> if seq2 a b then 2 else (case s2 of
       [] \<Rightarrow> 0
     | c # s3 \<Rightarrow> if seq3 a b c then 3 else (case s3 of
       [] \<Rightarrow> 0
     | d # _ \<Rightarrow> if seq4 a b c d then 4 else 0))))"

lemma utf8_len_le: "utf8_len s \<le> length s"
  by (auto simp: utf8_len_def split: list.splits)

lemma utf8_len_pos_cases:
  assumes "0 < utf8_len s"
  obtains a r where "s = a # r" "byte a < 0x80" "utf8_len s = 1"
  | a b r where "s = a # b # r" "\<not> byte a < 0x80" "seq2 a b" "utf8_len s = 2"
  | a b c r where "s = a # b # c # r" "\<not> byte a < 0x80" "\<not> seq2 a b" "seq3 a b c" "utf8_len s = 3"
  | a b c d r where "s = a # b # c # d # r" "\<not> byte a < 0x80" "\<not> seq2 a b" "\<not> seq3 a b c"
      "seq4 a b c d" "utf8_len s = 4"
  using assms by (auto simp: utf8_len_def split: list.splits if_splits)

lemma utf8_len_append: "0 < utf8_len s \<Longrightarrow> utf8_len (s @ t) = utf8_len s"
  by (erule utf8_len_pos_cases) (simp_all add: utf8_len_def)

lemma utf8_len_take: "0 < utf8_len s \<Longrightarrow> utf8_len (take (utf8_len s) s) = utf8_len s"
  by (erule utf8_len_pos_cases) (simp_all add: utf8_len_def)

function valid_utf8 :: "string \<Rightarrow> bool" where
  "valid_utf8 s =
     (if s = [] then True else if utf8_len s = 0 then False else valid_utf8 (drop (utf8_len s) s))"
  by pat_completeness auto
termination
  by (relation "measure length") auto

declare valid_utf8.simps [simp del]

text \<open>The UTF-8 sequence of a code point; surrogates have none and become U+FFFD.\<close>

definition encode_rune :: "nat \<Rightarrow> string" where
  "encode_rune r =
     (let r = (if 0xD800 \<le> r \<and> r \<le> 0xDFFF \<or> 0x10FFFF < r then 0xFFFD else r) in
      if r < 0x80 then [char_of r]
      else if r < 0x800 then [char_of (0xC0 + r div 64), char_of (0x80 + r mod 64)]
      else if r < 0x10000
        then [char_of (0xE0 + r div 4096), char_of (0x80 + r div 64 mod 64), char_of (0x80 + r mod 64)]
      else [char_of (0xF0 + r div 262144), char_of (0x80 + r div 4096 mod 64),
            char_of (0x80 + r div 64 mod 64), char_of (0x80 + r mod 64)])"

section \<open>Quoting\<close>

definition hex_digit :: "nat \<Rightarrow> char" where
  "hex_digit n = (if n < 10 then char_of (48 + n) else char_of (87 + n))"

definition html_safe :: "char \<Rightarrow> bool" where
  "html_safe c \<longleftrightarrow> 0x20 \<le> byte c \<and> byte c < 0x80 \<and> byte c \<notin> {0x22, 0x5C, 0x3C, 0x3E, 0x26}"

definition escape :: "char \<Rightarrow> string" where
  "escape c =
     (if html_safe c then [c]
      else if byte c = 0x22 then [CHR 0x5C, CHR 0x22]
      else if byte c = 0x5C then [CHR 0x5C, CHR 0x5C]
      else if byte c = 0x08 then [CHR 0x5C, CHR ''b'']
      else if byte c = 0x0C then [CHR 0x5C, CHR ''f'']
      else if byte c = 0x0A then [CHR 0x5C, CHR ''n'']
      else if byte c = 0x0D then [CHR 0x5C, CHR ''r'']
      else if byte c = 0x09 then [CHR 0x5C, CHR ''t'']
      else [CHR 0x5C, CHR ''u'', CHR ''0'', CHR ''0'', hex_digit (byte c div 16), hex_digit (byte c mod 16)])"

text \<open>The sequences of U+2028 and U+2029 are escaped too.\<close>

definition escape_multi :: "string \<Rightarrow> string" where
  "escape_multi s =
     (if s = [CHR 0xE2, CHR 0x80, CHR 0xA8] then CHR 0x5C # ''u2028''
      else if s = [CHR 0xE2, CHR 0x80, CHR 0xA9] then CHR 0x5C # ''u2029''
      else s)"

function quote_body :: "string \<Rightarrow> string" where
  "quote_body [] = []"
| "quote_body (c # s) =
     (if byte c < 0x80 then escape c @ quote_body s
      else let n = utf8_len (c # s) in
        if n = 0 then (CHR 0x5C # ''ufffd'') @ quote_body s
        else escape_multi (take n (c # s)) @ quote_body (drop n (c # s)))"
  by pat_completeness auto
termination
  by (relation "measure length") auto

definition json_quote :: "string \<Rightarrow> string" where
  "json_quote s = CHR 0x22 # quote_body s @ [CHR 0x22]"

section \<open>Reading\<close>

definition hex_val :: "char \<Rightarrow> nat option" where
  "hex_val c =
     (if is_digit c then Some (digit_val c)
      else if between 97 102 c then Some (byte c - 87)
      else if between 65 70 c then Some (byte c - 55)
      else None)"

fun hex4 :: "string \<Rightarrow> (nat \<times> string) option" where
  "hex4 (a # b # c # d # s) =
     (case (hex_val a, hex_val b, hex_val c, hex_val d) of
        (Some w, Some x, Some y, Some z) \<Rightarrow> Some (w * 4096 + x * 256 + y * 16 + z, s)
      | _ \<Rightarrow> None)"
| "hex4 _ = None"

text \<open>A \<open>u\<close> escape: a surrogate pair stands for one code point, a lone surrogate for U+FFFD.\<close>

definition u_escape :: "string \<Rightarrow> (string \<times> string) option" where
  "u_escape s =
     (case hex4 s of
        None \<Rightarrow> None
      | Some (r, s1) \<Rightarrow>
         if 0xD800 \<le> r \<and> r < 0xDC00 then
           (case s1 of
              a # b # s2 \<Rightarrow>
                if a = CHR 0x5C \<and> b = CHR ''u'' then
                  (case hex4 s2 of
                     Some (r2, s3) \<Rightarrow>
                       if 0xDC00 \<le> r2 \<and> r2 < 0xE000
                       then Some (encode_rune ((r - 0xD800) * 1024 + (r2 - 0xDC00) + 0x10000), s3)
                       else Some (encode_rune r, s1)
                   | None \<Rightarrow> Some (encode_rune r, s1))
                else Some (encode_rune r, s1)
            | _ \<Rightarrow> Some (encode_rune r, s1))
         else Some (encode_rune r, s1))"

lemma hex4_length: "hex4 s = Some (r, s') \<Longrightarrow> length s' < length s"
  by (induction s rule: hex4.induct) (auto split: option.splits)

lemma u_escape_length: "u_escape s = Some (e, s') \<Longrightarrow> length s' < length s"
  by (auto simp: u_escape_def dest!: hex4_length split: option.splits list.splits if_splits)

definition simple_escape :: "char \<Rightarrow> char option" where
  "simple_escape c =
     (if byte c \<in> {0x22, 0x5C, 0x2F} then Some c
      else if c = CHR ''b'' then Some (CHR 0x08)
      else if c = CHR ''f'' then Some (CHR 0x0C)
      else if c = CHR ''n'' then Some (CHR 0x0A)
      else if c = CHR ''r'' then Some (CHR 0x0D)
      else if c = CHR ''t'' then Some (CHR 0x09)
      else None)"

text \<open>What follows an opening quote: the text of the literal and what remains after it.\<close>

function string_lit :: "string \<Rightarrow> (string \<times> string) option" where
  "string_lit [] = None"
| "string_lit (c # s) =
     (if byte c = 0x22 then Some ([], s)
      else if byte c = 0x5C then
        (case s of
           [] \<Rightarrow> None
         | e # s1 \<Rightarrow>
            if e = CHR ''u'' then
              (case u_escape s1 of
                 None \<Rightarrow> None
               | Some (t, s2) \<Rightarrow> map_option (apfst ((@) t)) (string_lit s2))
            else case simple_escape e of
                   None \<Rightarrow> None
                 | Some x \<Rightarrow> map_option (apfst ((#) x)) (string_lit s1))
      else if byte c < 0x20 then None
      else if byte c < 0x80 then map_option (apfst ((#) c)) (string_lit s)
      else let n = utf8_len (c # s) in
        if n = 0 then map_option (apfst ((@) (encode_rune 0xFFFD))) (string_lit s)
        else map_option (apfst ((@) (take n (c # s)))) (string_lit (drop n (c # s))))"
  by pat_completeness auto
termination
  by (relation "measure length") (auto dest: u_escape_length)

lemma map_apfst_Some [simp]:
  "map_option (apfst f) x = Some (t, s) \<longleftrightarrow> (\<exists>t'. x = Some (t', s) \<and> t = f t')"
  by (cases x) (auto simp: apfst_def map_prod_def)

lemma string_lit_length: "string_lit s = Some (t, s') \<Longrightarrow> length s' < length s"
proof (induction s arbitrary: t rule: measure_induct_rule [of length])
  case (less s)
  show ?case
  proof (cases s)
    case (Cons c r)
    have ih: "length s' \<le> length s1" if "string_lit s1 = Some (t1, s')" "length s1 \<le> length r" for s1 t1
      using less.IH [OF _ that(1)] that(2) Cons by simp
    have "length s' \<le> length r"
      using less.prems unfolding Cons
      by (auto simp: Let_def split: if_splits list.splits option.splits dest!: ih u_escape_length)
    with Cons show ?thesis by simp
  qed (use less.prems in simp)
qed

definition json_space :: "char \<Rightarrow> bool" where
  "json_space c \<longleftrightarrow> c \<in> {CHR '' '', CHR 0x09, CHR 0x0A, CHR 0x0D}"

abbreviation skip_ws :: "string \<Rightarrow> string" where
  "skip_ws \<equiv> dropWhile json_space"

text \<open>A member's value: a string, or null, which leaves the zero value.\<close>

definition label_value :: "string \<Rightarrow> (string \<times> string) option" where
  "label_value s =
     (if take 4 s = ''null'' then Some ([], drop 4 s)
      else case s of [] \<Rightarrow> None | c # r \<Rightarrow> if byte c = 0x22 then string_lit r else None)"

text \<open>One member of an object, from its key's opening quote: key, value, rest.\<close>

definition label_member :: "string \<Rightarrow> (string \<times> string \<times> string) option" where
  "label_member s = (case s of
       [] \<Rightarrow> None
     | c # r \<Rightarrow>
        if byte c \<noteq> 0x22 then None else (case string_lit r of
       None \<Rightarrow> None
     | Some (k, s1) \<Rightarrow> (case skip_ws s1 of
       [] \<Rightarrow> None
     | d # s2 \<Rightarrow>
        if d \<noteq> CHR '':'' then None else (case label_value (skip_ws s2) of
       None \<Rightarrow> None
     | Some (v, s3) \<Rightarrow> Some (k, v, skip_ws s3)))))"

lemma skip_ws_length: "length (skip_ws s) \<le> length s"
  by (rule length_dropWhile_le)

lemma label_value_length: "label_value s = Some (v, s') \<Longrightarrow> length s' < length s"
proof (cases "take 4 s = ''null''")
  case True
  then have "length (take 4 s) = 4" by simp
  then have "4 \<le> length s" by simp
  moreover assume "label_value s = Some (v, s')"
  ultimately show ?thesis using True by (auto simp: label_value_def)
qed (auto simp: label_value_def dest: string_lit_length split: list.splits if_splits)

lemma label_member_length: "label_member s = Some (k, v, s') \<Longrightarrow> length s' < length s"
proof -
  assume a: "label_member s = Some (k, v, s')"
  then obtain c r s1 d s2 s3 where s: "s = c # r" "string_lit r = Some (k, s1)"
      "skip_ws s1 = d # s2" "label_value (skip_ws s2) = Some (v, s3)" "s' = skip_ws s3"
    by (auto simp: label_member_def split: list.splits option.splits if_splits)
  have "length s' \<le> length s3" "length s3 < length (skip_ws s2)" "length (skip_ws s2) \<le> length s2"
      "length (d # s2) \<le> length s1" "length s1 < length r"
    using s skip_ws_length [of s3] skip_ws_length [of s2] skip_ws_length [of s1]
      label_value_length [OF s(4)] string_lit_length [OF s(2)] by auto
  with s(1) show ?thesis by simp
qed

text \<open>The members up to the closing brace, each stored in the map as it is read.\<close>

function label_members :: "(string, string) gomap \<Rightarrow> string \<Rightarrow> (string, string) gomap option" where
  "label_members m s =
     (case label_member s of
        None \<Rightarrow> None
      | Some (k, v, r) \<Rightarrow>
         (case r of
            [] \<Rightarrow> None
          | c # r1 \<Rightarrow>
             if c = CHR '','' then label_members (mput k v m) (skip_ws r1)
             else if c = CHR ''}'' \<and> skip_ws r1 = [] then Some (mput k v m)
             else None))"
  by pat_completeness auto
termination
proof (relation "measure (length \<circ> snd)", goal_cases)
  case (2 m s a k b v r c r1)
  then have "length (c # r1) < length s" using label_member_length by metis
  with skip_ws_length [of r1] show ?case by simp
qed simp

declare label_members.simps [simp del]

definition json_unmarshal_labels :: "string \<Rightarrow> (string, string) gomap option" where
  "json_unmarshal_labels s =
     (case skip_ws s of
        [] \<Rightarrow> None
      | c # r \<Rightarrow>
         if c = CHR ''{'' then
           (case skip_ws r of
              [] \<Rightarrow> None
            | d # r1 \<Rightarrow> if d = CHR ''}'' then (if skip_ws r1 = [] then Some [] else None)
                        else label_members [] (d # r1))
         else if take 4 (c # r) = ''null'' \<and> skip_ws (drop 4 (c # r)) = [] then Some []
         else None)"

definition label_text :: "string \<times> string \<Rightarrow> string" where
  "label_text = (\<lambda>(k, v). json_quote k @ CHR '':'' # json_quote v)"

definition json_marshal_labels :: "(string, string) gomap \<Rightarrow> string" where
  "json_marshal_labels m =
     CHR ''{'' # Join (CHR '','') (map label_text (sort_by fst m)) @ ''}''"

section \<open>The operations\<close>

definition EncodeLabels :: "(string, string) gomap \<Rightarrow> string" where
  "EncodeLabels labels = (if length labels = 0 then ''{}'' else json_marshal_labels labels)"

definition DecodeLabels :: "string \<Rightarrow> (string, string) gomap" where
  "DecodeLabels raw =
     (if raw = [] \<or> raw = ''{}'' then []
      else case json_unmarshal_labels raw of None \<Rightarrow> [] | Some labels \<Rightarrow> labels)"

fun MatchLabels :: "(string, string) gomap \<Rightarrow> (string, string) gomap \<Rightarrow> bool" where
  "MatchLabels workerLabels [] = True"
| "MatchLabels workerLabels ((k, v) # selectorLabels) =
     (case mget workerLabels k of
        None \<Rightarrow> False
      | Some wv \<Rightarrow> if wv \<noteq> v then False else MatchLabels workerLabels selectorLabels)"

section \<open>Reading back what was quoted\<close>

lemma hex_val_hex_digit: "n < 16 \<Longrightarrow> hex_val (hex_digit n) = Some n"
  by (auto simp: hex_val_def hex_digit_def is_digit_def digit_val_def between_def byte_def)

lemma hex_val_0: "hex_val (CHR ''0'') = Some 0"
  by (simp add: hex_val_def is_digit_def digit_val_def)

lemma encode_rune_byte: "byte c < 0x80 \<Longrightarrow> encode_rune (byte c) = [c]"
  by (simp add: encode_rune_def Let_def byte_def)

lemma string_lit_control:
  assumes "byte c < 0x80"
  shows "string_lit (CHR 0x5C # CHR ''u'' # CHR ''0'' # CHR ''0'' # hex_digit (byte c div 16) #
      hex_digit (byte c mod 16) # s) = map_option (apfst ((#) c)) (string_lit s)"
proof -
  have "byte c div 16 < 16" using assms by simp
  then have h: "hex4 (CHR ''0'' # CHR ''0'' # hex_digit (byte c div 16) # hex_digit (byte c mod 16) # s)
      = Some (byte c, s)"
    by (simp add: hex_val_0 hex_val_hex_digit)
  have "u_escape (CHR ''0'' # CHR ''0'' # hex_digit (byte c div 16) # hex_digit (byte c mod 16) # s)
      = Some ([c], s)"
    using assms unfolding u_escape_def h by (simp add: encode_rune_byte)
  moreover have "(@) [c] = (#) c" by (rule ext) simp
  ultimately show ?thesis by (simp add: byte_def)
qed

lemma string_lit_simple:
  "simple_escape e = Some x \<Longrightarrow> e \<noteq> CHR ''u'' \<Longrightarrow>
     string_lit (CHR 0x5C # e # s) = map_option (apfst ((#) x)) (string_lit s)"
  by (simp add: byte_def)

lemma char_codes:
  "char_of (0x22 :: nat) = CHR 0x22" "char_of (0x5C :: nat) = CHR 0x5C" "char_of (0x08 :: nat) = CHR 0x08"
  "char_of (0x0C :: nat) = CHR 0x0C" "char_of (0x0A :: nat) = CHR 0x0A" "char_of (0x0D :: nat) = CHR 0x0D"
  "char_of (0x09 :: nat) = CHR 0x09" "char_of (0xE2 :: nat) = CHR 0xE2" "char_of (0x80 :: nat) = CHR 0x80"
  "char_of (0xA8 :: nat) = CHR 0xA8" "char_of (0xA9 :: nat) = CHR 0xA9"
  by code_simp+

lemma byte_eqD: "byte c = n \<Longrightarrow> c = char_of n"
  by (auto simp: byte_def)

lemma string_lit_escape:
  assumes "byte c < 0x80"
  shows "string_lit (escape c @ s) = map_option (apfst ((#) c)) (string_lit s)"
proof -
  consider "html_safe c" | "\<not> html_safe c" "byte c \<in> {0x22, 0x5C, 0x08, 0x0C, 0x0A, 0x0D, 0x09}"
    | "\<not> html_safe c" "byte c \<notin> {0x22, 0x5C, 0x08, 0x0C, 0x0A, 0x0D, 0x09}" by blast
  then show ?thesis
  proof cases
    case 1
    then show ?thesis by (auto simp: escape_def html_safe_def)
  next
    case 2
    then have "c \<in> {CHR 0x22, CHR 0x5C, CHR 0x08, CHR 0x0C, CHR 0x0A, CHR 0x0D, CHR 0x09}"
      by (auto dest!: byte_eqD simp: char_codes)
    with 2 obtain e where e: "escape c = [CHR 0x5C, e]" "simple_escape e = Some c" "e \<noteq> CHR ''u''"
      by (auto simp: escape_def simple_escape_def byte_def)
    then show ?thesis by (simp add: string_lit_simple del: string_lit.simps)
  next
    case 3
    then have "escape c = [CHR 0x5C, CHR ''u'', CHR ''0'', CHR ''0'', hex_digit (byte c div 16),
        hex_digit (byte c mod 16)]"
      by (simp add: escape_def)
    with string_lit_control [OF assms] show ?thesis by (simp del: string_lit.simps)
  qed
qed

lemma string_lit_sep:
  "string_lit (CHR 0x5C # ''u2028'' @ r) =
     map_option (apfst ((@) [CHR 0xE2, CHR 0x80, CHR 0xA8])) (string_lit r)"
  "string_lit (CHR 0x5C # ''u2029'' @ r) =
     map_option (apfst ((@) [CHR 0xE2, CHR 0x80, CHR 0xA9])) (string_lit r)"
  by (simp_all add: byte_def u_escape_def hex_val_def is_digit_def digit_val_def encode_rune_def
      between_def Let_def char_codes)

lemma string_lit_multi:
  assumes "\<not> byte c < 0x80" and "0 < utf8_len (c # s)"
  shows "string_lit (escape_multi (take (utf8_len (c # s)) (c # s)) @ r) =
    map_option (apfst ((@) (take (utf8_len (c # s)) (c # s)))) (string_lit r)"
proof -
  let ?n = "utf8_len (c # s)"
  let ?t = "take ?n (c # s)"
  obtain t where t: "?t = c # t" using assms(2) by (cases ?n) simp_all
  have n: "utf8_len (?t @ r) = ?n"
    using utf8_len_append [of ?t r] utf8_len_take [OF assms(2)] assms(2) by simp
  have l: "length ?t = ?n" using utf8_len_le [of "c # s"] by simp
  have "string_lit (?t @ r) = map_option (apfst ((@) ?t)) (string_lit r)"
  proof -
    have "utf8_len (c # t @ r) = Suc (length t)" using n l unfolding t by simp
    then show ?thesis unfolding t using assms(1) by (simp add: Let_def)
  qed
  then show ?thesis
    unfolding escape_multi_def using string_lit_sep [of r] by (simp del: string_lit.simps)
qed

lemma valid_utf8_Cons:
  "valid_utf8 (c # s) \<longleftrightarrow> 0 < utf8_len (c # s) \<and> valid_utf8 (drop (utf8_len (c # s)) (c # s))"
  by (subst valid_utf8.simps) simp

lemma string_lit_quote_body:
  "valid_utf8 s \<Longrightarrow> string_lit (quote_body s @ CHR 0x22 # r) = Some (s, r)"
proof (induction s rule: quote_body.induct)
  case 1
  then show ?case by (simp add: byte_def)
next
  case (2 c s)
  let ?n = "utf8_len (c # s)"
  have v: "0 < ?n" "valid_utf8 (drop ?n (c # s))" using "2.prems" valid_utf8_Cons by blast+
  show ?case
  proof (cases "byte c < 0x80")
    case True
    then have "?n = 1" by (simp add: utf8_len_def)
    with True v "2.IH"(1) show ?thesis by (simp add: string_lit_escape del: string_lit.simps)
  next
    case False
    then have "quote_body (c # s) = escape_multi (take ?n (c # s)) @ quote_body (drop ?n (c # s))"
      using v(1) by (simp add: Let_def)
    with False v "2.IH"(3) show ?thesis
      by (simp add: string_lit_multi del: string_lit.simps quote_body.simps take_Cons' drop_Cons')
  qed
qed

lemma not_space [simp]: "\<not> json_space (CHR 0x22)" "\<not> json_space (CHR '':'')" "\<not> json_space (CHR '','')"
  "\<not> json_space (CHR ''}'')"
  by (simp_all add: json_space_def)

text \<open>The valid labels are those whose keys and values are UTF-8.\<close>

definition utf8_labels :: "(string, string) gomap \<Rightarrow> bool" where
  "utf8_labels m \<longleftrightarrow> list_all (\<lambda>(k, v). valid_utf8 k \<and> valid_utf8 v) m"

lemma label_member_text:
  assumes "valid_utf8 k" "valid_utf8 v" "\<not> json_space c"
  shows "label_member (label_text (k, v) @ c # r) = Some (k, v, c # r)"
proof -
  have "label_value (CHR 0x22 # quote_body v @ CHR 0x22 # c # r) = Some (v, c # r)"
    using assms(2) by (simp add: label_value_def byte_def string_lit_quote_body del: string_lit.simps)
  then show ?thesis
    using assms(1,3)
    by (simp add: label_member_def label_text_def json_quote_def byte_def string_lit_quote_body
        del: string_lit.simps)
qed

lemma mput_fresh: "k \<notin> fst ` set m \<Longrightarrow> mput k v m = m @ [(k, v)]"
  by (induction m) auto

lemma label_members_text:
  "kvs \<noteq> [] \<Longrightarrow> utf8_labels kvs \<Longrightarrow> distinct (map fst (m @ kvs)) \<Longrightarrow>
     label_members m (Join (CHR '','') (map label_text kvs) @ ''}'') = Some (m @ kvs)"
proof (induction kvs arbitrary: m)
  case (Cons kv kvs)
  obtain k v where kv: "kv = (k, v)" by (cases kv)
  have v: "valid_utf8 k" "valid_utf8 v" and f: "k \<notin> fst ` set m"
    using Cons.prems kv by (auto simp: utf8_labels_def)
  show ?case
  proof (cases kvs)
    case Nil
    have "label_member (label_text (k, v) @ CHR ''}'' # []) = Some (k, v, ''}'')"
      using v by (intro label_member_text) simp_all
    with f show ?thesis by (subst label_members.simps) (simp add: Nil kv mput_fresh)
  next
    case (Cons kv' kvs')
    let ?r = "Join (CHR '','') (map label_text kvs) @ ''}''"
    have "label_member (label_text (k, v) @ CHR '','' # ?r) = Some (k, v, CHR '','' # ?r)"
      using v by (intro label_member_text) simp_all
    moreover have "skip_ws ?r = ?r"
      by (cases kv'; cases kvs') (simp_all add: Cons label_text_def json_quote_def)
    moreover have "label_members (m @ [(k, v)]) ?r = Some ((m @ [(k, v)]) @ kvs)"
      using Cons.prems Cons kv by (intro Cons.IH) (auto simp: utf8_labels_def)
    ultimately show ?thesis
      using f by (subst label_members.simps) (simp add: Cons kv mput_fresh)
  qed
qed simp

lemma utf8_labels_sort: "utf8_labels (sort_by fst m) = utf8_labels m"
  by (simp add: utf8_labels_def list_all_iff)

section \<open>Properties\<close>

text \<open>
  Round trip of labels: decoding what \<^verbatim>\<open>EncodeLabels\<close> wrote gives back the same map, its
  entries in the order of their keys, whenever keys and values are valid UTF-8 (Go replaces other
  bytes by U+FFFD).
\<close>

theorem DecodeLabels_EncodeLabels:
  assumes "wf_map m" and "utf8_labels m"
  shows "DecodeLabels (EncodeLabels m) = sort_by fst m \<and>
    mget (DecodeLabels (EncodeLabels m)) = mget m"
proof -
  have d: "DecodeLabels (EncodeLabels m) = sort_by fst m"
  proof (cases m)
    case (Cons kv m')
    let ?kvs = "sort_by fst m"
    have ne: "?kvs \<noteq> []" using Cons by (metis length_sort length_greater_0_conv list.discI)
    then obtain k v kvs where k: "?kvs = (k, v) # kvs" by (cases ?kvs) auto
    let ?t = "Join (CHR '','') (map label_text ?kvs)"
    have h: "\<exists>r. ?t @ ''}'' = CHR 0x22 # r"
      by (cases kvs) (auto simp: k label_text_def json_quote_def)
    have "label_members [] (?t @ ''}'') = Some ([] @ ?kvs)"
      using assms ne by (intro label_members_text) (simp_all add: utf8_labels_sort wf_map_def distinct_map)
    with h have "json_unmarshal_labels (CHR ''{'' # ?t @ ''}'') = Some ?kvs"
      by (auto simp: json_unmarshal_labels_def json_space_def)
    moreover from h have "CHR ''{'' # ?t @ ''}'' \<noteq> ''{}''" by auto
    ultimately show ?thesis
      using Cons by (simp add: DecodeLabels_def EncodeLabels_def json_marshal_labels_def)
  qed (simp add: DecodeLabels_def EncodeLabels_def)
  have "wf_map (sort_by fst m)" using assms(1) by (simp add: wf_map_def distinct_map)
  with assms(1) have "mget (sort_by fst m) = mget m"
    by (intro ext) (metis map_of_eq_Some_iff option.exhaust set_sort wf_map_def)
  with d show ?thesis by simp
qed

theorem DecodeLabels_EncodeLabels_witness:
  "mget (DecodeLabels (EncodeLabels [(''zone'', ''a<b''), (''gpu'', [CHR 0xC3, CHR 0xA9])])) ''zone'' = Some ''a<b''"
  using DecodeLabels_EncodeLabels [of "[(''zone'', ''a<b''), (''gpu'', [CHR 0xC3, CHR 0xA9])]"]
  by (simp add: wf_map_def utf8_labels_def valid_utf8.simps utf8_len_def byte_def seq2_def between_def)

text \<open>
  Label selection is containment: a worker's labels match a selector exactly when every label
  of the selector is one of the worker's, with the same value.
\<close>

theorem MatchLabels_iff:
  assumes "wf_map selectorLabels"
  shows "MatchLabels workerLabels selectorLabels \<longleftrightarrow> mget selectorLabels \<subseteq>\<^sub>m mget workerLabels"
proof -
  have "MatchLabels workerLabels s \<longleftrightarrow> (\<forall>(k, v) \<in> set s. mget workerLabels k = Some v)" for s
    by (induction workerLabels s rule: MatchLabels.induct) (auto split: option.splits)
  then show ?thesis
    using assms by (fastforce simp: map_le_def dom_def wf_map_mem_iff dest: map_of_SomeD)
qed

theorem MatchLabels_iff_witness:
  "MatchLabels [(''zone'', ''a''), (''gpu'', ''1'')] [(''gpu'', ''1'')]"
  by (subst MatchLabels_iff) (simp_all add: map_le_def wf_map_def)

end
