(* ===== verification/Metrics.thy ===== *)
theory Metrics
  imports Labels "HOL-Library.Product_Lexorder"
begin

text \<open>
  \<^verbatim>\<open>internal/pkg/metrics\<close>: the process-local counter registry. A counter is keyed by its sanitized
  name and its labels rendered in key order. The locks and atomics of the source make each
  operation one step, which is how they are modelled. \<open>is_print\<close> is Go's Unicode table
  \<^verbatim>\<open>strconv.IsPrint\<close> beyond ASCII, an argument.
\<close>

section \<open>Quoting with \<^verbatim>\<open>%q\<close>\<close>

fun rune_of :: "string \<Rightarrow> nat" where
  "rune_of [a] = byte a"
| "rune_of [a, b] = (byte a - 0xC0) * 64 + (byte b - 0x80)"
| "rune_of [a, b, c] = (byte a - 0xE0) * 4096 + (byte b - 0x80) * 64 + (byte c - 0x80)"
| "rune_of [a, b, c, d] =
     (byte a - 0xF0) * 262144 + (byte b - 0x80) * 4096 + (byte c - 0x80) * 64 + (byte d - 0x80)"
| "rune_of _ = 0xFFFD"

fun hex_digits :: "nat \<Rightarrow> nat \<Rightarrow> string" where
  "hex_digits 0 n = []"
| "hex_digits (Suc w) n = hex_digits w (n div 16) @ [hex_digit (n mod 16)]"

definition escaped_rune :: "(nat \<Rightarrow> bool) \<Rightarrow> string \<Rightarrow> string" where
  "escaped_rune is_print s =
     (let r = rune_of s in
      if r = 0x22 \<or> r = 0x5C then CHR 0x5C # s
      else if (if r < 0x80 then 0x20 \<le> r \<and> r < 0x7F else is_print r) then s
      else if r = 7 then CHR 0x5C # ''a'' else if r = 8 then CHR 0x5C # ''b''
      else if r = 12 then CHR 0x5C # ''f'' else if r = 10 then CHR 0x5C # ''n''
      else if r = 13 then CHR 0x5C # ''r'' else if r = 9 then CHR 0x5C # ''t''
      else if r = 11 then CHR 0x5C # ''v''
      else if r < 0x20 \<or> r = 0x7F then CHR 0x5C # CHR ''x'' # hex_digits 2 r
      else if r < 0x10000 then CHR 0x5C # CHR ''u'' # hex_digits 4 r
      else CHR 0x5C # CHR ''U'' # hex_digits 8 r)"

function go_quote_body :: "(nat \<Rightarrow> bool) \<Rightarrow> string \<Rightarrow> string" where
  "go_quote_body is_print [] = []"
| "go_quote_body is_print (c # s) =
     (let n = utf8_len (c # s) in
      if n = 0 then (CHR 0x5C # CHR ''x'' # hex_digits 2 (byte c)) @ go_quote_body is_print s
      else escaped_rune is_print (take n (c # s)) @ go_quote_body is_print (drop n (c # s)))"
  by pat_completeness auto
termination
  by (relation "measure (length \<circ> snd)") auto

definition go_quote :: "(nat \<Rightarrow> bool) \<Rightarrow> string \<Rightarrow> string" where
  "go_quote is_print s = CHR 0x22 # go_quote_body is_print s @ [CHR 0x22]"

section \<open>The registry\<close>

type_synonym metricKey = "string \<times> string"
type_synonym Registry = "(metricKey, int) gomap"

definition NewRegistry :: Registry where
  "NewRegistry = []"

definition sanitizeName :: "string \<Rightarrow> string" where
  "sanitizeName name =
     (let name = TrimSpace name in
      if name = [] then ''unnamed_metric''
      else map (\<lambda>c. if c = CHR ''-'' then CHR ''_'' else c) name)"

definition encodeLabels :: "(nat \<Rightarrow> bool) \<Rightarrow> (string, string) gomap \<Rightarrow> string" where
  "encodeLabels is_print labels =
     (if length labels = 0 then []
      else Join (CHR '','')
        (map (\<lambda>key. key @ CHR ''='' # go_quote is_print (the_default [] (mget labels key)))
          (sort (map fst labels))))"

definition AddCounter ::
  "(nat \<Rightarrow> bool) \<Rightarrow> string \<Rightarrow> (string, string) gomap \<Rightarrow> int \<Rightarrow> Registry \<Rightarrow> Registry" where
  "AddCounter is_print name labels delta r =
     (let key = (sanitizeName name, encodeLabels is_print labels) in
      case mget r key of
        Some counter \<Rightarrow> mput key (wrap64 (counter + delta)) r
      | None \<Rightarrow> mput key (wrap64 (0 + delta)) r)"

definition IncCounter ::
  "(nat \<Rightarrow> bool) \<Rightarrow> string \<Rightarrow> (string, string) gomap \<Rightarrow> Registry \<Rightarrow> Registry" where
  "IncCounter is_print name labels r = AddCounter is_print name labels 1 r"

definition render_line :: "metricKey \<Rightarrow> int \<Rightarrow> string" where
  "render_line key n =
     fst key @ (if snd key \<noteq> [] then ''{'' @ snd key @ ''}'' else []) @ '' '' @ itoa n @ [CHR 0x0A]"

definition Render :: "Registry \<Rightarrow> string" where
  "Render r = concat (map (\<lambda>key. render_line key (the_default 0 (mget r key))) (sort (map fst r)))"

text \<open>The value a counter shows: 0 while it is missing.\<close>

definition counter :: "Registry \<Rightarrow> metricKey \<Rightarrow> int" where
  "counter r key = the_default 0 (mget r key)"

section \<open>Properties\<close>

text \<open>
  Counting is exact and blind to map order: adding to a counter changes that counter by the
  delta (modulo \<open>2 ^ 64\<close>) and no other, and the labels pick the same counter in whatever order the
  map of labels is visited.
\<close>

theorem AddCounter_counts:
  assumes "wf_map labels" "mset labels' = mset labels"
  shows "counter (AddCounter is_print name labels' delta r) key =
    (if key = (sanitizeName name, encodeLabels is_print labels)
     then wrap64 (counter r key + delta) else counter r key)"
proof -
  have k: "mset (map fst labels') = mset (map fst labels)" using assms(2) by simp
  then have w: "wf_map labels'" using assms(1) mset_eq_imp_distinct_iff [OF k] by (simp add: wf_map_def)
  have "set labels' = set labels" using assms(2) by (rule mset_eq_setD)
  then have "mget labels' = mget labels"
    using assms(1) w by (simp add: wf_map_def map_of_inject_set)
  moreover have "sort (map fst labels') = sort (map fst labels)"
    by (rule properties_for_sort) (simp_all only: mset_sort k sorted_sort)
  moreover have "length labels' = length labels" using assms(2) by (rule mset_eq_length)
  ultimately have "encodeLabels is_print labels' = encodeLabels is_print labels"
    by (simp add: encodeLabels_def)
  then show ?thesis
    by (auto simp: AddCounter_def counter_def the_default_def Let_def split: option.splits)
qed

theorem AddCounter_counts_witness:
  "counter (IncCounter (\<lambda>_. True) ''http-requests'' [(''a'', ''1''), (''b'', ''2'')] NewRegistry)
     (''http_requests'', encodeLabels (\<lambda>_. True) [(''b'', ''2''), (''a'', ''1'')]) = 1"
proof -
  have "TrimSpace ''http-requests'' = ''http-requests''"
    by (rule TrimSpace_plain) (simp_all add: plain_def ascii_space_def)
  then have s: "sanitizeName ''http-requests'' = ''http_requests''" by (simp add: sanitizeName_def)
  show ?thesis
    unfolding IncCounter_def
    by (subst AddCounter_counts [of "[(''b'', ''2''), (''a'', ''1'')]"])
      (simp_all add: wf_map_def s counter_def NewRegistry_def the_default_def in_int64_def)
qed

end
