(* ===== verification/GoFloat.thy ===== *)
theory GoFloat
  imports Prelude "HOL-Library.Log_Nat"
begin

text \<open>
  Go's \<^verbatim>\<open>float64\<close>: a finite double is the rational it stands for, and every arithmetic operation
  rounds its exact result by \<open>fl64\<close>, IEEE 754 rounding to the nearest double with ties to even,
  subnormals included. Overflow to infinity is not represented; no operand of the modelled code
  comes near \<open>2 ^ 1024\<close>.
\<close>

section \<open>Rounding\<close>

text \<open>The exponent \<open>k\<close> of a positive rational: \<open>2 powi k \<le> x < 2 powi (k + 1)\<close>.\<close>

definition ilog2 :: "rat \<Rightarrow> int" where
  "ilog2 x = (let (a, b) = quotient_of x; k = bitlen a - bitlen b
              in if 2 powi k \<le> x then k else k - 1)"

definition round_even :: "rat \<Rightarrow> int" where
  "round_even q =
     (let f = \<lfloor>q\<rfloor>; d = q - of_int f in
      if d < 1 / 2 then f else if 1 / 2 < d then f + 1 else if even f then f else f + 1)"

text \<open>The spacing of the doubles around \<open>x\<close> is \<open>2 powi (grid x)\<close>.\<close>

definition grid :: "rat \<Rightarrow> int" where
  "grid x = max (ilog2 \<bar>x\<bar> - 52) (- 1074)"

definition fl64 :: "rat \<Rightarrow> rat" where
  "fl64 x = (if x = 0 then 0 else of_int (round_even (x / 2 powi grid x)) * 2 powi grid x)"

section \<open>Laws\<close>

lemma bitlen_powi: "0 < a \<Longrightarrow> 2 powi (bitlen a - 1) \<le> (of_int a :: rat) \<and> (of_int a :: rat) < 2 powi bitlen a"
proof -
  assume a: "0 < a"
  then have n: "2 ^ nat (bitlen a - 1) \<le> a \<and> a < 2 ^ nat (bitlen a)" by (rule bitlen_bounds)
  then have "(of_int (2 ^ nat (bitlen a - 1)) :: rat) \<le> of_int a \<and> (of_int a :: rat) < of_int (2 ^ nat (bitlen a))"
    by (simp only: of_int_le_iff of_int_less_iff)
  moreover have "0 < bitlen a" using a n by (cases "0 < bitlen a") auto
  ultimately show ?thesis by (simp add: power_int_def)
qed

lemma ilog2_bounds:
  assumes "0 < x"
  shows "2 powi ilog2 x \<le> x \<and> x < 2 powi (ilog2 x + 1)"
proof -
  obtain a b where q: "quotient_of x = (a, b)" by (cases "quotient_of x")
  then have x: "x = of_int a / of_int b" and b: "0 < b"
    using quotient_of_div quotient_of_denom_pos by blast+
  then have a: "0 < a" using assms by (simp add: zero_less_divide_iff)
  let ?k = "bitlen a - bitlen b"
  note A = bitlen_powi [OF a] and B = bitlen_powi [OF b]
  have b0: "(0 :: rat) < of_int b" using b by simp
  have "(2 :: rat) powi (?k - 1) * of_int b < 2 powi (?k - 1) * 2 powi bitlen b" using B by simp
  also have "\<dots> = 2 powi (bitlen a - 1)" by (simp flip: power_int_add)
  finally have lo: "2 powi (?k - 1) < x" using A b0 by (simp add: x pos_less_divide_eq)
  have "of_int a < (2 :: rat) powi (?k + 1) * 2 powi (bitlen b - 1)"
    using A by (simp flip: power_int_add)
  also have "\<dots> \<le> 2 powi (?k + 1) * of_int b" using B by simp
  finally have "x < 2 powi (?k + 1)" using b0 by (simp add: x pos_divide_less_eq)
  with lo show ?thesis by (auto simp: ilog2_def q Let_def)
qed

lemma ilog2_mono: "0 < x \<Longrightarrow> x \<le> y \<Longrightarrow> ilog2 x \<le> ilog2 y"
proof (rule ccontr)
  assume a: "0 < x" "x \<le> y" "\<not> ilog2 x \<le> ilog2 y"
  then have "(2 :: rat) powi (ilog2 y + 1) \<le> 2 powi ilog2 x" by (intro power_int_increasing) auto
  moreover have "y < 2 powi (ilog2 y + 1)" "2 powi ilog2 x \<le> x"
    using a(1,2) ilog2_bounds [of x] ilog2_bounds [of y] by auto
  ultimately show False using a(2) by simp
qed

lemma round_even_cases: "round_even q = \<lfloor>q\<rfloor> \<or> round_even q = \<lfloor>q\<rfloor> + 1"
  by (simp add: round_even_def Let_def)

lemma round_even_near: "q - 1 / 2 \<le> of_int (round_even q) \<and> of_int (round_even q) \<le> q + 1 / 2"
  unfolding round_even_def Let_def by (auto simp: not_less) linarith+

lemma round_even_of_int [simp]: "round_even (of_int i) = i"
  by (simp add: round_even_def)

lemma round_even_mono: "p \<le> q \<Longrightarrow> round_even p \<le> round_even q"
proof (cases "\<lfloor>p\<rfloor> = \<lfloor>q\<rfloor>")
  case True
  assume "p \<le> q"
  then show ?thesis using True by (auto simp: round_even_def Let_def)
next
  case False
  assume "p \<le> q"
  then have "\<lfloor>p\<rfloor> < \<lfloor>q\<rfloor>" using False floor_mono [of p q] by simp
  then show ?thesis using round_even_cases [of p] round_even_cases [of q] by auto
qed

lemma fl64_0 [simp]: "fl64 0 = 0"
  by (simp add: fl64_def)

lemma fl64_nonneg: "0 \<le> x \<Longrightarrow> 0 \<le> fl64 x"
proof -
  assume "0 \<le> x"
  then have "0 \<le> x / 2 powi grid x" by simp
  then have "0 \<le> round_even (x / 2 powi grid x)"
    using round_even_mono [of 0 "x / 2 powi grid x"] round_even_of_int [of 0] by simp
  then show ?thesis by (simp add: fl64_def)
qed

text \<open>Rounding is monotone, also where the spacing changes.\<close>

lemma fl64_le_grid:
  assumes "0 < x"
  shows "fl64 x \<le> 2 powi (grid x + 53)"
proof -
  have "x < 2 powi (ilog2 x + 1)" using ilog2_bounds [OF assms] by simp
  also have "\<dots> \<le> 2 powi (grid x + 53)"
    using assms by (intro power_int_increasing) (auto simp: grid_def)
  also have "\<dots> = 2 ^ 53 * 2 powi grid x" by (simp add: power_int_add)
  finally have "x / 2 powi grid x \<le> of_int (2 ^ 53)" by (simp add: pos_divide_le_eq)
  then have "round_even (x / 2 powi grid x) \<le> 2 ^ 53"
    using round_even_mono [of _ "of_int (2 ^ 53)"] round_even_of_int [of "2 ^ 53"] by metis
  then have "(of_int (round_even (x / 2 powi grid x)) :: rat) \<le> of_int (2 ^ 53)"
    by (simp only: of_int_le_iff)
  then have "fl64 x \<le> 2 ^ 53 * 2 powi grid x" using assms by (simp add: fl64_def)
  then show ?thesis by (simp add: power_int_add)
qed

lemma fl64_ge_grid:
  assumes "0 < x" and "- 1074 < grid x"
  shows "2 powi (grid x + 52) \<le> fl64 x"
proof -
  have "grid x + 52 = ilog2 x" using assms by (simp add: grid_def split: if_splits)
  then have "2 powi (grid x + 52) \<le> x" using ilog2_bounds [OF assms(1)] by simp
  then have "2 ^ 52 * 2 powi grid x \<le> x" by (simp add: power_int_add)
  then have "of_int (2 ^ 52) \<le> x / 2 powi grid x" by (simp add: pos_le_divide_eq)
  then have "2 ^ 52 \<le> round_even (x / 2 powi grid x)"
    using round_even_mono [of "of_int (2 ^ 52)"] round_even_of_int [of "2 ^ 52"] by metis
  then have "of_int (2 ^ 52) \<le> (of_int (round_even (x / 2 powi grid x)) :: rat)"
    by (simp only: of_int_le_iff)
  then have "2 ^ 52 * 2 powi grid x \<le> fl64 x" using assms(1) by (simp add: fl64_def)
  then show ?thesis by (simp add: power_int_add)
qed

lemma fl64_mono:
  assumes "0 \<le> x" "x \<le> y"
  shows "fl64 x \<le> fl64 y"
proof (cases "x = 0")
  case True
  with assms show ?thesis by (simp add: fl64_nonneg)
next
  case False
  with assms have p: "0 < x" "0 < y" by auto
  have g: "grid x \<le> grid y" using ilog2_mono [of x y] p assms by (auto simp: grid_def)
  show ?thesis
  proof (cases "grid x = grid y")
    case True
    have "x / 2 powi grid x \<le> y / 2 powi grid x" using assms by (simp add: divide_right_mono)
    then have "round_even (x / 2 powi grid x) \<le> round_even (y / 2 powi grid x)"
      by (rule round_even_mono)
    with p True show ?thesis by (simp add: fl64_def)
  next
    case False
    have "- 1074 \<le> grid x" by (simp add: grid_def)
    with False g have l: "grid x + 53 \<le> grid y + 52" "- 1074 < grid y" by linarith+
    have "fl64 x \<le> 2 powi (grid x + 53)" by (rule fl64_le_grid [OF p(1)])
    also have "\<dots> \<le> 2 powi (grid y + 52)" using l(1) by (intro power_int_increasing) auto
    also have "\<dots> \<le> fl64 y" by (rule fl64_ge_grid [OF p(2) l(2)])
    finally show ?thesis .
  qed
qed

text \<open>A multiple of a spacing by at most 53 bits is a double; so rounding is idempotent.\<close>

lemma powi_less_cancel: "(2 :: rat) powi m < 2 powi n \<Longrightarrow> m < n"
  using power_int_increasing [of n m "2 :: rat"] by (cases "m < n") auto

lemma fl64_grid_aux:
  assumes "0 < k" "k < 2 ^ 53" "- 1074 \<le> e"
  shows "fl64 (of_int k * 2 powi e) = of_int k * 2 powi e"
proof -
  let ?y = "of_int k * (2 :: rat) powi e"
  let ?g = "grid ?y"
  have y: "0 < ?y" using assms by simp
  have "(of_int k :: rat) < of_int (2 ^ 53)" using assms(2) by (simp only: of_int_less_iff)
  then have "?y < of_int (2 ^ 53) * 2 powi e" by (intro mult_strict_right_mono) simp_all
  also have "\<dots> = 2 powi (53 + e)" by (simp add: power_int_add)
  finally have "2 powi ilog2 ?y < (2 :: rat) powi (53 + e)"
    using ilog2_bounds [OF y] by (meson le_less_trans)
  then have "ilog2 ?y < 53 + e" by (rule powi_less_cancel)
  then have g: "?g \<le> e" using y assms(3) by (simp add: grid_def)
  then have "(2 :: rat) powi e = 2 ^ nat (e - ?g) * 2 powi ?g"
    using power_int_add [of "2 :: rat" "e - ?g" ?g] by (simp add: power_int_def)
  then have "?y / 2 powi ?g = of_int (k * 2 ^ nat (e - ?g))" by (simp add: field_simps)
  then have "of_int (round_even (?y / 2 powi ?g)) = ?y / 2 powi ?g" by (metis round_even_of_int)
  then show ?thesis using y by (simp add: fl64_def)
qed

lemma fl64_grid:
  assumes "0 \<le> k" "k \<le> 2 ^ 53" "- 1074 \<le> e"
  shows "fl64 (of_int k * 2 powi e) = of_int k * 2 powi e"
proof (cases "k = 2 ^ 53")
  case True
  have "of_int k * (2 :: rat) powi e = of_int (2 ^ 52) * 2 powi (e + 1)"
    by (simp add: True power_int_add)
  then show ?thesis using fl64_grid_aux [of "2 ^ 52" "e + 1"] assms(3) by simp
next
  case False
  then show ?thesis using assms fl64_grid_aux [of k e] by (cases "k = 0") auto
qed

lemma fl64_of_int: "0 \<le> i \<Longrightarrow> i \<le> 2 ^ 53 \<Longrightarrow> fl64 (of_int i) = of_int i"
  using fl64_grid [of i 0] by simp

lemma fl64_idem: "0 \<le> x \<Longrightarrow> fl64 (fl64 x) = fl64 x"
proof (cases "x = 0")
  case False
  assume "0 \<le> x"
  with False have x: "0 < x" by simp
  let ?k = "round_even (x / 2 powi grid x)"
  have f: "fl64 x = of_int ?k * 2 powi grid x" using x by (simp add: fl64_def)
  have "0 \<le> of_int ?k * (2 :: rat) powi grid x" using fl64_nonneg [of x] x f by simp
  moreover have "(0 :: rat) < 2 powi grid x" by simp
  ultimately have "0 \<le> ?k" by (simp add: zero_le_mult_iff not_le)
  have "of_int ?k * (2 :: rat) powi grid x \<le> of_int (2 ^ 53) * 2 powi grid x"
    using fl64_le_grid [OF x] unfolding f by (simp add: power_int_add)
  then have "(of_int ?k :: rat) \<le> of_int (2 ^ 53)" by simp
  then have "?k \<le> 2 ^ 53" by (simp only: of_int_le_iff)
  moreover have "- 1074 \<le> grid x" by (simp add: grid_def)
  ultimately show ?thesis unfolding f using \<open>0 \<le> ?k\<close> by (intro fl64_grid)
qed simp

text \<open>Evaluation, given the exponent.\<close>

lemma ilog2_eqI:
  assumes "2 powi k \<le> x" "x < 2 powi (k + 1)"
  shows "ilog2 x = k"
proof -
  have x: "0 < x" using assms(1) by (smt (verit) zero_less_power_int zero_less_numeral less_le_trans)
  have "(2 :: rat) powi k < 2 powi (ilog2 x + 1)" "(2 :: rat) powi ilog2 x < 2 powi (k + 1)"
    using ilog2_bounds [OF x] assms by (meson le_less_trans)+
  then have "k < ilog2 x + 1" "ilog2 x < k + 1" by (auto dest: powi_less_cancel)
  then show ?thesis by simp
qed

lemma fl64_unit:
  assumes "1 / 2 \<le> x" "x < 1"
  shows "fl64 x = of_int (round_even (x * 2 ^ 53)) / 2 ^ 53"
proof -
  have "ilog2 x = - 1" using assms by (intro ilog2_eqI) (simp_all add: power_int_def)
  then have "grid x = - 53" using assms by (simp add: grid_def)
  moreover have "(2 :: rat) powi (- 53) = 1 / 2 ^ 53" by (simp add: power_int_def field_simps)
  moreover have "x \<noteq> 0" "x / (1 / 2 ^ 53) = x * 2 ^ 53" using assms by auto
  ultimately have "fl64 x = of_int (round_even (x * 2 ^ 53)) * (1 / 2 ^ 53)"
    unfolding fl64_def by (simp only: if_False)
  then show ?thesis by simp
qed

section \<open>Operations\<close>

abbreviation fadd :: "rat \<Rightarrow> rat \<Rightarrow> rat" where
  "fadd x y \<equiv> fl64 (x + y)"

abbreviation fsub :: "rat \<Rightarrow> rat \<Rightarrow> rat" where
  "fsub x y \<equiv> fl64 (x - y)"

abbreviation fmul :: "rat \<Rightarrow> rat \<Rightarrow> rat" where
  "fmul x y \<equiv> fl64 (x * y)"

abbreviation fdiv :: "rat \<Rightarrow> rat \<Rightarrow> rat" where
  "fdiv x y \<equiv> fl64 (x / y)"

abbreviation float64 :: "int \<Rightarrow> rat" where
  "float64 i \<equiv> fl64 (of_int i)"

text \<open>
  \<^verbatim>\<open>int64(x)\<close> truncates towards zero; out of range the amd64 instruction gives the least integer.
\<close>

definition to_int64 :: "rat \<Rightarrow> int" where
  "to_int64 x = (let i = (if x < 0 then \<lceil>x\<rceil> else \<lfloor>x\<rfloor>) in if in_int64 i then i else - (2 ^ 63))"

end
