(* ===== verification/Ratelimit.thy ===== *)
theory Ratelimit
  imports GoTime GoFloat
begin

text \<open>
  \<^verbatim>\<open>internal/scheduler/ratelimit\<close>: the token bucket of the dispatch client, the concurrency
  limiter and the backpressure controller of the trigger loop. An operation that reads the clock
  takes the reading as its argument \<open>now\<close>. \<^verbatim>\<open>float64\<close> values are rationals rounded by \<open>fl64\<close>.
\<close>

section \<open>Token bucket\<close>

record TokenBucket =
  tb_rate :: rat
  tb_capacity :: rat
  tb_tokens :: rat
  tb_lastRefill :: time

definition NewTokenBucket :: "time \<Rightarrow> int \<Rightarrow> int \<Rightarrow> TokenBucket" where
  "NewTokenBucket now ratePerSec capacity =
     (let ratePerSec = (if ratePerSec \<le> 0 then 1000 else ratePerSec);
          capacity = (if capacity \<le> 0 then wrap64 (ratePerSec * 2) else capacity)
      in \<lparr>tb_rate = float64 ratePerSec, tb_capacity = float64 capacity,
          tb_tokens = float64 capacity, tb_lastRefill = now\<rparr>)"

text \<open>\<^verbatim>\<open>Duration.Seconds\<close> adds the whole seconds and the fraction as doubles.\<close>

definition Seconds :: "duration \<Rightarrow> rat" where
  "Seconds d = fadd (float64 (go_div d second)) (fdiv (float64 (go_mod d second)) 1000000000)"

definition refill :: "time \<Rightarrow> TokenBucket \<Rightarrow> TokenBucket" where
  "refill now tb =
     (let elapsed = Seconds (Sub now (tb_lastRefill tb));
          tokens = fadd (tb_tokens tb) (fmul elapsed (tb_rate tb));
          tokens = (if tokens > tb_capacity tb then tb_capacity tb else tokens)
      in tb\<lparr>tb_tokens := tokens, tb_lastRefill := now\<rparr>)"

definition AllowN :: "time \<Rightarrow> int \<Rightarrow> TokenBucket \<Rightarrow> bool \<times> TokenBucket" where
  "AllowN now n tb =
     (let tb = refill now tb in
      if tb_tokens tb \<ge> float64 n
      then (True, tb\<lparr>tb_tokens := fsub (tb_tokens tb) (float64 n)\<rparr>)
      else (False, tb))"

definition Allow :: "time \<Rightarrow> TokenBucket \<Rightarrow> bool \<times> TokenBucket" where
  "Allow now tb = AllowN now 1 tb"

definition WaitTime :: "time \<Rightarrow> int \<Rightarrow> TokenBucket \<Rightarrow> duration \<times> TokenBucket" where
  "WaitTime now n tb =
     (let tb = refill now tb in
      if tb_tokens tb \<ge> float64 n then (0, tb)
      else let needed = fsub (float64 n) (tb_tokens tb)
           in (to_int64 (fmul (fdiv needed (tb_rate tb)) (float64 second)), tb))"

definition is_double :: "rat \<Rightarrow> bool" where
  "is_double x \<longleftrightarrow> fl64 x = x"

definition wf_bucket :: "TokenBucket \<Rightarrow> bool" where
  "wf_bucket tb \<longleftrightarrow> 0 \<le> tb_rate tb \<and> 0 \<le> tb_tokens tb \<and> tb_tokens tb \<le> tb_capacity tb
     \<and> is_double (tb_tokens tb) \<and> is_double (tb_capacity tb)"

section \<open>Concurrency limiter\<close>

record ConcurrencyLimiter =
  cl_limit :: int
  cl_current :: int

definition NewConcurrencyLimiter :: "int \<Rightarrow> ConcurrencyLimiter" where
  "NewConcurrencyLimiter limit = \<lparr>cl_limit = (if limit \<le> 0 then 100 else limit), cl_current = 0\<rparr>"

text \<open>One pass of the loop of \<^verbatim>\<open>Acquire\<close> under the lock: \<open>None\<close> when the goroutine has to wait.\<close>

definition cl_Acquire :: "ConcurrencyLimiter \<Rightarrow> ConcurrencyLimiter option" where
  "cl_Acquire cl =
     (if cl_current cl \<ge> cl_limit cl then None else Some (cl\<lparr>cl_current := cl_current cl + 1\<rparr>))"

definition cl_Release :: "ConcurrencyLimiter \<Rightarrow> ConcurrencyLimiter" where
  "cl_Release cl = (if cl_current cl > 0 then cl\<lparr>cl_current := cl_current cl - 1\<rparr> else cl)"

definition cl_Current :: "ConcurrencyLimiter \<Rightarrow> int" where
  "cl_Current cl = cl_current cl"

definition cl_Limit :: "ConcurrencyLimiter \<Rightarrow> int" where
  "cl_Limit cl = cl_limit cl"

text \<open>
  The limiter with the goroutines that use it. A goroutine that found no slot waits on the
  condition variable; \<^verbatim>\<open>Signal\<close> makes one waiting goroutine runnable again (woken), which then
  takes the lock and tests the loop condition anew, possibly after others. Only a goroutine that
  holds a slot calls \<^verbatim>\<open>Release\<close>.
\<close>

record limiter_sys =
  ls_cl :: ConcurrencyLimiter
  ls_holding :: "nat set"
  ls_waiting :: "nat set"
  ls_woken :: "nat set"

inductive limiter_step :: "limiter_sys \<Rightarrow> limiter_sys \<Rightarrow> bool" where
  acquired: "limiter_step s (s\<lparr>ls_cl := cl, ls_holding := insert g (ls_holding s),
      ls_woken := ls_woken s - {g}\<rparr>)"
    if "cl_Acquire (ls_cl s) = Some cl" "g \<notin> ls_holding s" "g \<notin> ls_waiting s"
| must_wait: "limiter_step s (s\<lparr>ls_waiting := insert g (ls_waiting s), ls_woken := ls_woken s - {g}\<rparr>)"
    if "cl_Acquire (ls_cl s) = None" "g \<notin> ls_holding s" "g \<notin> ls_waiting s"
| released_none: "limiter_step s (s\<lparr>ls_cl := cl_Release (ls_cl s), ls_holding := ls_holding s - {g}\<rparr>)"
    if "g \<in> ls_holding s" "ls_waiting s = {}"
| released_signal: "limiter_step s (s\<lparr>ls_cl := cl_Release (ls_cl s), ls_holding := ls_holding s - {g},
      ls_waiting := ls_waiting s - {h}, ls_woken := insert h (ls_woken s)\<rparr>)"
    if "g \<in> ls_holding s" "h \<in> ls_waiting s"

inductive limiter_reach :: "int \<Rightarrow> limiter_sys \<Rightarrow> bool" for n where
  start: "limiter_reach n \<lparr>ls_cl = NewConcurrencyLimiter n, ls_holding = {}, ls_waiting = {}, ls_woken = {}\<rparr>"
| step: "limiter_reach n s \<Longrightarrow> limiter_step s s' \<Longrightarrow> limiter_reach n s'"

inductive_cases limiter_stepE: "limiter_step s s'"

section \<open>Backpressure\<close>

datatype PressureState = PressureGreen | PressureYellow | PressureRed

fun PressureState_String :: "PressureState \<Rightarrow> string" where
  "PressureState_String PressureGreen = ''green''"
| "PressureState_String PressureYellow = ''yellow''"
| "PressureState_String PressureRed = ''red''"

record BackpressureConfig =
  bc_MaxPending :: int
  bc_YellowRatio :: rat
  bc_RedRatio :: rat
  bc_MaxWorkerLoad :: rat

record BackpressureController =
  bp_maxPending :: int
  bp_yellowRatio :: rat
  bp_redRatio :: rat
  bp_maxWorkerLoad :: rat
  bp_state :: PressureState
  bp_pendingCount :: int
  bp_workerLoads :: "(string, int) gomap"
  bp_lastUpdate :: time

definition DefaultBackpressureConfig :: BackpressureConfig where
  "DefaultBackpressureConfig = \<lparr>bc_MaxPending = 1000, bc_YellowRatio = fl64 (7 / 10),
     bc_RedRatio = fl64 (9 / 10), bc_MaxWorkerLoad = fl64 (85 / 100)\<rparr>"

definition NewBackpressureController :: "time \<Rightarrow> BackpressureConfig \<Rightarrow> BackpressureController" where
  "NewBackpressureController now cfg =
     \<lparr>bp_maxPending = (if bc_MaxPending cfg \<le> 0 then 1000 else bc_MaxPending cfg),
      bp_yellowRatio = (if bc_YellowRatio cfg \<le> 0 then fl64 (7 / 10) else bc_YellowRatio cfg),
      bp_redRatio = (if bc_RedRatio cfg \<le> 0 then fl64 (9 / 10) else bc_RedRatio cfg),
      bp_maxWorkerLoad = (if bc_MaxWorkerLoad cfg \<le> 0 then fl64 (85 / 100) else bc_MaxWorkerLoad cfg),
      bp_state = PressureGreen, bp_pendingCount = 0, bp_workerLoads = [], bp_lastUpdate = now\<rparr>"

definition UpdatePending :: "time \<Rightarrow> int \<Rightarrow> BackpressureController \<Rightarrow> BackpressureController" where
  "UpdatePending now pending b =
     (let b = b\<lparr>bp_pendingCount := pending, bp_lastUpdate := now\<rparr>;
          ratio = fdiv (float64 pending) (float64 (bp_maxPending b))
      in if ratio \<ge> bp_redRatio b then b\<lparr>bp_state := PressureRed\<rparr>
         else if ratio \<ge> bp_yellowRatio b then b\<lparr>bp_state := PressureYellow\<rparr>
         else b\<lparr>bp_state := PressureGreen\<rparr>)"

definition UpdateWorkerLoad ::
  "time \<Rightarrow> (string, int) gomap \<Rightarrow> int \<Rightarrow> BackpressureController \<Rightarrow> BackpressureController" where
  "UpdateWorkerLoad now loads maxConcurrency b =
     (let b = b\<lparr>bp_workerLoads := loads, bp_lastUpdate := now\<rparr> in
      if maxConcurrency \<le> 0 then b
      else let totalLoad = fold (\<lambda>l acc. fadd acc (float64 l)) (map snd loads) 0 in
      if length loads = 0 then b
      else let avgLoad = fdiv totalLoad (float64 (int (length loads)));
               avgRatio = fdiv avgLoad (float64 maxConcurrency)
      in if avgRatio \<ge> bp_maxWorkerLoad b then b\<lparr>bp_state := PressureRed\<rparr>
         else if avgRatio \<ge> fmul (bp_maxWorkerLoad b) (fl64 (8 / 10)) then
           (if bp_state b = PressureGreen then b\<lparr>bp_state := PressureYellow\<rparr> else b)
         else b)"

definition State_bp :: "BackpressureController \<Rightarrow> PressureState" where
  "State_bp b = bp_state b"

definition AllowDispatch :: "BackpressureController \<Rightarrow> bool" where
  "AllowDispatch b \<longleftrightarrow> State_bp b \<noteq> PressureRed"

definition ShouldThrottle :: "BackpressureController \<Rightarrow> bool" where
  "ShouldThrottle b \<longleftrightarrow> State_bp b = PressureYellow \<or> State_bp b = PressureRed"

definition ThrottleDelay :: "BackpressureController \<Rightarrow> duration" where
  "ThrottleDelay b = (case bp_state b of
       PressureYellow \<Rightarrow> 500 * millisecond
     | PressureRed \<Rightarrow> 2 * second
     | PressureGreen \<Rightarrow> 0)"

section \<open>Facts about the token bucket\<close>

lemma Seconds_nonneg: "0 \<le> d \<Longrightarrow> 0 \<le> Seconds d"
  by (simp add: Seconds_def fl64_nonneg)

lemma Sub_nonneg: "u \<le> t \<Longrightarrow> 0 \<le> Sub t u"
  by (simp add: Sub_def)

lemma refill_wf:
  assumes "wf_bucket tb" "tb_lastRefill tb \<le> now"
  shows "wf_bucket (refill now tb)"
proof -
  have "0 \<le> Seconds (Sub now (tb_lastRefill tb))" using assms(2) by (intro Seconds_nonneg Sub_nonneg)
  then have "0 \<le> tb_tokens tb + fmul (Seconds (Sub now (tb_lastRefill tb))) (tb_rate tb)"
    using assms(1) by (intro add_nonneg_nonneg fl64_nonneg mult_nonneg_nonneg) (auto simp: wf_bucket_def)
  then show ?thesis
    using assms by (auto simp: refill_def wf_bucket_def is_double_def Let_def fl64_nonneg fl64_idem)
qed

lemma AllowN_wf:
  assumes "wf_bucket tb" "tb_lastRefill tb \<le> now" "0 \<le> n"
  shows "wf_bucket (snd (AllowN now n tb))"
proof -
  let ?tb = "refill now tb"
  have w: "wf_bucket ?tb" by (rule refill_wf [OF assms(1,2)])
  have "0 \<le> float64 n" using assms(3) by (intro fl64_nonneg) simp
  then have "fsub (tb_tokens ?tb) (float64 n) \<le> fl64 (tb_tokens ?tb)" if "float64 n \<le> tb_tokens ?tb"
    using that by (intro fl64_mono) simp_all
  with w show ?thesis
    by (auto simp: AllowN_def wf_bucket_def is_double_def Let_def fl64_nonneg fl64_idem)
qed

lemma refill_now: "tb_lastRefill tb = now \<Longrightarrow> is_double (tb_tokens tb) \<Longrightarrow>
    tb_tokens tb \<le> tb_capacity tb \<Longrightarrow> refill now tb = tb"
  by (simp add: refill_def Sub_def Seconds_def go_div_def go_mod_def is_double_def Let_def)

text \<open>The number of calls of \<^verbatim>\<open>Allow\<close>, one at each of the given times, that are allowed.\<close>

fun allowed :: "time list \<Rightarrow> TokenBucket \<Rightarrow> nat" where
  "allowed [] tb = 0"
| "allowed (t # ts) tb =
     (let (ok, tb') = Allow t tb in (if ok then 1 else 0) + allowed ts tb')"

lemma allowed_burst:
  assumes "tb_tokens tb = of_int c" "0 \<le> c" "c < 2 ^ 53" "tb_lastRefill tb = t"
    "tb_tokens tb \<le> tb_capacity tb"
  shows "allowed (replicate k t) tb = min k (nat c)"
  using assms
proof (induction k arbitrary: tb c)
  case (Suc k)
  have r: "refill t tb = tb"
    using Suc.prems by (intro refill_now) (simp_all add: is_double_def fl64_of_int)
  have one: "float64 1 = 1" using fl64_of_int [of 1] by simp
  show ?case
  proof (cases "c = 0")
    case True
    then have "Allow t tb = (False, tb)"
      using Suc.prems r one by (simp add: Allow_def AllowN_def Let_def)
    moreover have "allowed (replicate k t) tb = 0" using Suc.IH [OF Suc.prems] True by simp
    ultimately show ?thesis using True by simp
  next
    case False
    let ?tb = "tb\<lparr>tb_tokens := of_int (c - 1)\<rparr>"
    have "fsub (of_int c) 1 = of_int (c - 1)" using fl64_of_int [of "c - 1"] Suc.prems False by simp
    then have "Allow t tb = (True, ?tb)"
      using Suc.prems False r one by (simp add: Allow_def AllowN_def Let_def)
    moreover have "allowed (replicate k t) ?tb = min k (nat (c - 1))"
      using Suc.prems False by (intro Suc.IH) simp_all
    ultimately show ?thesis using False Suc.prems by simp
  qed
qed simp

section \<open>Facts about the limiter\<close>

definition limiter_inv :: "limiter_sys \<Rightarrow> bool" where
  "limiter_inv s \<longleftrightarrow> finite (ls_holding s) \<and> finite (ls_waiting s) \<and> finite (ls_woken s)
     \<and> 0 < cl_limit (ls_cl s) \<and> cl_current (ls_cl s) = int (card (ls_holding s))
     \<and> cl_current (ls_cl s) \<le> cl_limit (ls_cl s)
     \<and> ls_holding s \<inter> ls_waiting s = {} \<and> ls_holding s \<inter> ls_woken s = {} \<and> ls_waiting s \<inter> ls_woken s = {}
     \<and> (ls_waiting s \<noteq> {} \<longrightarrow> cl_limit (ls_cl s) \<le> cl_current (ls_cl s) + int (card (ls_woken s)))"

lemma card_remove_int: "finite A \<Longrightarrow> int (card (A - {g})) = int (card A) - (if g \<in> A then 1 else 0)"
proof (cases "g \<in> A")
  case True
  moreover assume "finite A"
  ultimately show ?thesis using card_Suc_Diff1 [of A g] by simp
qed simp

lemma limiter_step_inv: "limiter_step s s' \<Longrightarrow> limiter_inv s \<Longrightarrow> limiter_inv s'"
proof (induction rule: limiter_step.induct)
  case (acquired s cl g)
  then show ?case by (auto simp: limiter_inv_def cl_Acquire_def card_remove_int split: if_splits)
next
  case (must_wait s g)
  then show ?case by (auto simp: limiter_inv_def cl_Acquire_def split: if_splits)
next
  case (released_none g s)
  then have "0 < card (ls_holding s)" by (auto simp: limiter_inv_def card_gt_0_iff)
  with released_none show ?case by (auto simp: limiter_inv_def cl_Release_def card_remove_int)
next
  case (released_signal g s h)
  then have "0 < card (ls_holding s)" "h \<notin> ls_woken s" by (auto simp: limiter_inv_def card_gt_0_iff)
  with released_signal show ?case by (auto simp: limiter_inv_def cl_Release_def card_remove_int)
qed

lemma limiter_reach_inv: "limiter_reach n s \<Longrightarrow> limiter_inv s"
proof (induction rule: limiter_reach.induct)
  case start
  then show ?case by (simp add: limiter_inv_def NewConcurrencyLimiter_def)
next
  case (step s s')
  show ?case by (rule limiter_step_inv [OF step.hyps(2) step.IH])
qed

section \<open>Properties\<close>

text \<open>
  C33. The token bucket keeps its invariant under \<^verbatim>\<open>AllowN\<close>, with all the rounding of the doubles:
  the tokens stay between 0 and the capacity, a call is allowed exactly when that many tokens were
  there after the refill, and a refused call consumes nothing. The clock must not go back.
\<close>

theorem AllowN_invariant:
  assumes "wf_bucket tb" "tb_lastRefill tb \<le> now" "0 \<le> n"
  shows "wf_bucket (snd (AllowN now n tb))
    \<and> (fst (AllowN now n tb) \<longleftrightarrow> float64 n \<le> tb_tokens (refill now tb))
    \<and> tb_tokens (snd (AllowN now n tb)) =
        (if fst (AllowN now n tb) then fsub (tb_tokens (refill now tb)) (float64 n)
         else tb_tokens (refill now tb))"
  using AllowN_wf [OF assms] by (simp add: AllowN_def Let_def)

theorem AllowN_invariant_witness:
  "wf_bucket (snd (AllowN 500000000 1 (NewTokenBucket 0 1 1)))"
proof (intro AllowN_invariant [THEN conjunct1])
  show "wf_bucket (NewTokenBucket 0 1 1)"
    using fl64_of_int [of 1] by (simp add: NewTokenBucket_def wf_bucket_def is_double_def Let_def)
qed (simp_all add: NewTokenBucket_def Let_def)

text \<open>
  The burst is exactly the capacity: of \<open>k\<close> calls of \<^verbatim>\<open>Allow\<close> at the instant the bucket was
  made, with a capacity \<open>c\<close> below \<open>2 ^ 53\<close>, the first \<open>c\<close> are allowed and the rest refused.
\<close>

theorem NewTokenBucket_burst:
  assumes "0 < c" "c < 2 ^ 53"
  shows "allowed (replicate k t) (NewTokenBucket t r c) = min k (nat c)"
  using assms fl64_of_int [of c]
  by (intro allowed_burst) (simp_all add: NewTokenBucket_def Let_def)

theorem NewTokenBucket_burst_witness: "allowed [7, 7, 7, 7, 7] (NewTokenBucket 7 10 3) = 3"
  using NewTokenBucket_burst [of 3 5 7 10] by (simp add: numeral_eq_Suc)

text \<open>
  C32. The concurrency limiter is safe and loses no wake-up: in every reachable state the counter is
  the number of goroutines that hold a slot and never exceeds the limit, and while some goroutine
  waits, the slots that are free are no more than the goroutines already woken to take them.
\<close>

theorem limiter_safe:
  assumes "limiter_reach n s"
  shows "cl_Current (ls_cl s) = int (card (ls_holding s)) \<and> cl_Current (ls_cl s) \<le> cl_Limit (ls_cl s)
    \<and> (ls_waiting s \<noteq> {} \<longrightarrow> cl_Limit (ls_cl s) - cl_Current (ls_cl s) \<le> int (card (ls_woken s)))"
  using limiter_reach_inv [OF assms] by (auto simp: limiter_inv_def cl_Current_def cl_Limit_def)

theorem limiter_safe_witness:
  "\<exists>s. limiter_reach 1 s \<and> ls_waiting s = {2} \<and> cl_Current (ls_cl s) = 1"
proof -
  let ?s0 = "\<lparr>ls_cl = NewConcurrencyLimiter 1, ls_holding = {}, ls_waiting = {}, ls_woken = {}\<rparr>"
  let ?s1 = "\<lparr>ls_cl = \<lparr>cl_limit = 1, cl_current = 1\<rparr>, ls_holding = {1}, ls_waiting = {}, ls_woken = {}\<rparr>"
  let ?s2 = "\<lparr>ls_cl = \<lparr>cl_limit = 1, cl_current = 1\<rparr>, ls_holding = {1}, ls_waiting = {2}, ls_woken = {}\<rparr>"
  have "limiter_step ?s0 ?s1"
    using limiter_step.acquired [of ?s0 "\<lparr>cl_limit = 1, cl_current = 1\<rparr>" 1]
    by (simp add: cl_Acquire_def NewConcurrencyLimiter_def)
  moreover have "limiter_step ?s1 ?s2"
    using limiter_step.must_wait [of ?s1 2] by (simp add: cl_Acquire_def)
  ultimately have r: "limiter_reach 1 ?s2" by (blast intro: limiter_reach.intros)
  from limiter_safe [OF r] r show ?thesis by (intro exI [of _ ?s2]) simp
qed

text \<open>
  The default thresholds mean what they say, rounding included: with the default configuration
  a pending count from 900 on is red (dispatch is refused), one from 700 on yellow (scans are
  delayed), and any smaller one green.
\<close>

theorem UpdatePending_default:
  assumes "0 \<le> n"
  shows "State_bp (UpdatePending t n (NewBackpressureController t0 DefaultBackpressureConfig)) =
    (if 900 \<le> n then PressureRed else if 700 \<le> n then PressureYellow else PressureGreen)"
proof -
  have k: "fl64 1000 = 1000" using fl64_of_int [of 1000] by simp
  define q where "q = fdiv (float64 n) 1000"
  have le: "q \<le> fl64 (of_int m / 1000)" if "n \<le> m" "0 \<le> m" "m < 2 ^ 53" for m
    using assms that fl64_of_int [of m] fl64_of_int [of n]
    by (auto simp: q_def divide_right_mono intro!: fl64_mono)
  have ge: "fl64 (of_int m / 1000) \<le> q" if "m \<le> n" "0 \<le> m" "m < 2 ^ 53" for m
    unfolding q_def using that fl64_of_int [of m] fl64_mono [of "of_int m" "of_int n"]
    by (intro fl64_mono) (auto simp: divide_right_mono)
  have c: "fl64 (899 / 1000) < fl64 (9 / 10)" "fl64 (699 / 1000) < fl64 (7 / 10)"
    "fl64 (7 / 10) < fl64 (9 / 10)" "0 < fl64 (7 / 10)"
    using round_even_near [of "899 / 1000 * 2 ^ 53"] round_even_near [of "9 / 10 * 2 ^ 53"]
      round_even_near [of "699 / 1000 * 2 ^ 53"] round_even_near [of "7 / 10 * 2 ^ 53"]
    by (simp_all add: fl64_unit)
  note b = NewBackpressureController_def DefaultBackpressureConfig_def UpdatePending_def State_bp_def Let_def
  show ?thesis
    using le [of 899] le [of 699] ge [of 900] ge [of 700] c
    by (cases "n \<le> 699"; cases "n \<le> 899") (auto simp: b k simp flip: q_def)
qed

theorem UpdatePending_default_witness:
  "\<not> AllowDispatch (UpdatePending 5 900 (NewBackpressureController 0 DefaultBackpressureConfig))"
  using UpdatePending_default [of 900 5 0] by (simp add: AllowDispatch_def)

end
