(* ===== verification/World.thy ===== *)
theory World
  imports Cronexpr Metrics Ratelimit
begin

text \<open>
  The world of a scheduler process: what its operations read and change beside the stores. The
  stores are the extension of the record, so that the services work over any of them. The outside
  answers through fields: successive clock readings, the replies of the network, numbered by the
  calls made so far. Contexts, loggers and traces have no effect on the modelled results and are
  left out; a deadline that expires is one of the errors a network reply can be.
\<close>

section \<open>State\<close>

text \<open>The protobuf request of \<^verbatim>\<open>ExecutorService.ExecuteTask\<close>, with its 32-bit fields.\<close>

record PbExecuteTaskRequest =
  pb_ScheduleInstanceId :: string
  pb_TaskId :: int
  pb_TaskType :: string
  pb_Payload :: string
  pb_Image :: string
  pb_TimeoutSeconds :: int
  pb_RetryCount :: int
  pb_SchedulerUrl :: string

text \<open>What workers post after execution (\<^verbatim>\<open>internal/api/service/task_runtime_service.go\<close>).\<close>

record TaskStatusReportRequest =
  sr_ScheduleInstanceID :: string
  sr_WorkerID :: string
  sr_Status :: string
  sr_ErrorCode :: string
  sr_ErrorMessage :: string
  sr_StartedAt :: string
  sr_FinishedAt :: string

text \<open>What leaves the process, and the analyses it starts as goroutines.\<close>

datatype message =
    HttpPost string string
  | HttpForward string string string
  | GrpcDial string
  | GrpcExecute string PbExecuteTaskRequest
  | GrpcCancel string string
  | SpawnAnalysis TaskInstance TaskStatusReportRequest

text \<open>An entry of the audit log (\<^verbatim>\<open>internal/api/service/audit.go\<close>).\<close>

record AuditEntry =
  ae_Timestamp :: time
  ae_Action :: string
  ae_ResourceType :: string
  ae_ResourceID :: string
  ae_TenantID :: int
  ae_Operator :: string
  ae_Detail :: string
  ae_Result :: string

record world =
  clock :: "nat \<Rightarrow> time"
  readings :: nat
  zone :: location
  unicode_print :: "nat \<Rightarrow> bool"
  url_error :: "string \<Rightarrow> error option"
  http_reply :: "nat \<Rightarrow> error + int \<times> string"
  dial_reply :: "nat \<Rightarrow> error option"
  grpc_reply :: "nat \<Rightarrow> error + bool \<times> string"
  sent :: "message list"
  registry :: Registry
  rrCounter :: int
  limiter :: "TokenBucket option"
  pressure :: "BackpressureController option"
  slept :: "duration list"
  audited :: "AuditEntry list"

type_synonym ('a, 'b) go = "('a world_scheme, 'b) state"

text \<open>The world without its stores and its count of clock readings.\<close>

definition env :: "'a world_scheme \<Rightarrow> world" where
  "env w = world.truncate (w\<lparr>readings := 0\<rparr>)"

section \<open>Effects\<close>

text \<open>\<^verbatim>\<open>x, err := m; if err != nil { return err }\<close>, then the rest.\<close>

definition if_ok :: "('w, error + 'a) state \<Rightarrow> ('a \<Rightarrow> ('w, error + 'b) state) \<Rightarrow> ('w, error + 'b) state" where
  "if_ok m k = do { r \<leftarrow> m; case r of Inl err \<Rightarrow> raise err | Inr x \<Rightarrow> k x }"

definition time_now :: "('a, time) go" where
  "time_now = do { t \<leftarrow> reads (\<lambda>w. clock w (readings w));
     modify (\<lambda>w. w\<lparr>readings := Suc (readings w)\<rparr>); State_Monad.return t }"

definition inc_counter :: "string \<Rightarrow> (string, string) gomap \<Rightarrow> ('a, unit) go" where
  "inc_counter name labels =
     modify (\<lambda>w. w\<lparr>registry := IncCounter (unicode_print w) name labels (registry w)\<rparr>)"

definition send :: "message \<Rightarrow> ('a, unit) go" where
  "send m = modify (\<lambda>w. w\<lparr>sent := sent w @ [m]\<rparr>)"

definition sleep :: "duration \<Rightarrow> ('a, unit) go" where
  "sleep d = modify (\<lambda>w. w\<lparr>slept := slept w @ [d]\<rparr>)"

lemma run_bind [simp, go_run]:
  "run_state (State_Monad.bind m f) w = (case run_state m w of (x, w') \<Rightarrow> run_state (f x) w')"
  by (simp add: State_Monad.bind_def)

lemma run_return [simp, go_run]: "run_state (State_Monad.return x) w = (x, w)"
  by (simp add: State_Monad.return_def)

lemma run_if_ok [simp, go_run]:
  "run_state (if_ok m k) w =
     (case run_state m w of (Inl err, w') \<Rightarrow> (Inl err, w') | (Inr x, w') \<Rightarrow> run_state (k x) w')"
  by (auto simp: if_ok_def split: prod.splits sum.splits)

lemma run_time_now [simp, go_run]:
  "run_state time_now w = (clock w (readings w), w\<lparr>readings := Suc (readings w)\<rparr>)"
  by (simp add: time_now_def)

lemma run_inc_counter [simp, go_run]:
  "run_state (inc_counter n l) w = ((), w\<lparr>registry := IncCounter (unicode_print w) n l (registry w)\<rparr>)"
  by (simp add: inc_counter_def)

lemma run_send [simp, go_run]: "run_state (send m) w = ((), w\<lparr>sent := sent w @ [m]\<rparr>)"
  by (simp add: send_def)

lemma run_sleep [simp, go_run]: "run_state (sleep d) w = ((), w\<lparr>slept := slept w @ [d]\<rparr>)"
  by (simp add: sleep_def)

lemma env_readings [simp]: "env (w\<lparr>readings := n\<rparr>) = env w"
  by (simp add: env_def)

text \<open>Two worlds with the same environment agree on every field but the readings.\<close>

lemma env_eqD:
  assumes "env w = env w'"
  shows "clock w = clock w'" "zone w = zone w'" "unicode_print w = unicode_print w'"
    "url_error w = url_error w'" "http_reply w = http_reply w'" "dial_reply w = dial_reply w'"
    "grpc_reply w = grpc_reply w'" "sent w = sent w'" "registry w = registry w'"
    "rrCounter w = rrCounter w'" "limiter w = limiter w'" "pressure w = pressure w'"
    "slept w = slept w'" "audited w = audited w'"
  using assms by (simp_all add: env_def world.defs)

section \<open>Reasoning about operations\<close>

text \<open>
  \<open>wp m Q w\<close>: run from \<open>w\<close>, the operation returns a value and a state that satisfy \<open>Q\<close>. Operations
  are total functions, so this is total correctness.
\<close>

definition wp :: "('w, 'b) state \<Rightarrow> ('b \<Rightarrow> 'w \<Rightarrow> bool) \<Rightarrow> 'w \<Rightarrow> bool" where
  "wp m Q w \<longleftrightarrow> (case run_state m w of (x, w') \<Rightarrow> Q x w')"

lemma wpI: "Q (fst (run_state m w)) (snd (run_state m w)) \<Longrightarrow> wp m Q w"
  by (simp add: wp_def split_beta)

lemma wp_run: "run_state m w = (x, w') \<Longrightarrow> wp m Q w \<longleftrightarrow> Q x w'"
  by (simp add: wp_def)

lemma wp_mono: "wp m P w \<Longrightarrow> (\<And>x w'. P x w' \<Longrightarrow> Q x w') \<Longrightarrow> wp m Q w"
  by (auto simp: wp_def)

lemma wp_iff: "wp m Q w \<longleftrightarrow> (\<exists>x w'. run_state m w = (x, w') \<and> Q x w')"
  by (auto simp: wp_def)

lemma wp_bind [simp]: "wp (State_Monad.bind m f) Q = wp m (\<lambda>x. wp (f x) Q)"
  by (rule ext) (simp add: wp_def split_beta)

lemma wp_return [simp]: "wp (State_Monad.return x) Q = Q x"
  by (rule ext) (simp add: wp_def)

lemma wp_ret [simp]: "wp (ret x) Q = Q (Inr x)"
  by (rule ext) (simp add: wp_def)

lemma wp_raise [simp]: "wp (raise err) Q = Q (Inl err)"
  by (rule ext) (simp add: wp_def)

lemma wp_reads [simp]: "wp (reads f) Q w \<longleftrightarrow> Q (f w) w"
  by (simp add: wp_def)

lemma wp_modify [simp]: "wp (modify g) Q w \<longleftrightarrow> Q () (g w)"
  by (simp add: wp_def)

lemma wp_if_ok [simp]:
  "wp (if_ok m k) Q = wp m (\<lambda>r. case r of Inl err \<Rightarrow> Q (Inl err) | Inr x \<Rightarrow> wp (k x) Q)"
  by (rule ext) (auto simp: wp_def split: prod.splits sum.splits)

lemma wp_time_now [simp]:
  "wp time_now Q w \<longleftrightarrow> Q (clock w (readings w)) (w\<lparr>readings := Suc (readings w)\<rparr>)"
  by (simp add: wp_def)

lemma wp_effects [simp]:
  "wp (send m) R w \<longleftrightarrow> R () (w\<lparr>sent := sent w @ [m]\<rparr>)"
  "wp (sleep d) R w \<longleftrightarrow> R () (w\<lparr>slept := slept w @ [d]\<rparr>)"
  "wp (inc_counter n l) R w \<longleftrightarrow> R () (w\<lparr>registry := IncCounter (unicode_print w) n l (registry w)\<rparr>)"
  by (simp_all add: wp_def)

lemma wp_if [wps]: "wp (if b then m else m') Q = (if b then wp m Q else wp m' Q)"
  by simp

lemma wp_Let [wps]: "wp (let x = e in m x) Q = (let x = e in wp (m x) Q)"
  by simp

lemma wp_case_sum [simp]:
  "wp (case r of Inl err \<Rightarrow> m err | Inr x \<Rightarrow> m' x) Q =
     (case r of Inl err \<Rightarrow> wp (m err) Q | Inr x \<Rightarrow> wp (m' x) Q)"
  by (cases r) simp_all

lemma wp_case_option [simp]:
  "wp (case r of None \<Rightarrow> m | Some x \<Rightarrow> m' x) Q =
     (case r of None \<Rightarrow> wp m Q | Some x \<Rightarrow> wp (m' x) Q)"
  by (cases r) simp_all

end
