(* ===== verification/Repository.thy ===== *)
theory Repository
  imports World
begin

text \<open>
  \<^verbatim>\<open>internal/repo/repository.go\<close>: the repository interfaces. An interface is a record of
  operations, and a locale holds the contract the services rely on, stated over an abstract view of
  the stores. A method that also writes to the struct it is passed returns the struct as written.
\<close>

section \<open>The interfaces\<close>

record 'w TaskRepository =
  CreateTask :: "Task \<Rightarrow> ('w, error + Task) state"
  UpdateTask :: "Task \<Rightarrow> ('w, error + Task) state"
  DeleteTask :: "int \<Rightarrow> ('w, error + unit) state"
  GetTask :: "int \<Rightarrow> ('w, error + Task) state"
  ListTasks :: "('w, error + Task list) state"
  ListTasksByTenant :: "int \<Rightarrow> ('w, error + Task list) state"
  ListDueTasks :: "int \<Rightarrow> ('w, error + Task list) state"
  AddDependency :: "int \<Rightarrow> int \<Rightarrow> ('w, error + unit) state"
  RemoveDependency :: "int \<Rightarrow> int \<Rightarrow> ('w, error + unit) state"
  ListDownstreamTasks :: "int \<Rightarrow> ('w, error + int list) state"
  ListUpstreamDeps :: "int \<Rightarrow> ('w, error + int list) state"

record 'w TaskInstanceRepository =
  CreateInstance :: "TaskInstance \<Rightarrow> ('w, error + TaskInstance) state"
  GetInstance :: "int \<Rightarrow> ('w, error + TaskInstance) state"
  GetInstanceByScheduleID :: "string \<Rightarrow> ('w, error + TaskInstance) state"
  ListInstances :: "('w, error + TaskInstance list) state"
  ListInstancesByTaskID :: "int \<Rightarrow> ('w, error + TaskInstance list) state"
  ListInstancesByTimeRange :: "time \<Rightarrow> time \<Rightarrow> int \<Rightarrow> int \<Rightarrow> ('w, error + TaskInstance list) state"
  ListInstancesByStatus :: "string \<Rightarrow> int \<Rightarrow> ('w, error + TaskInstance list) state"
  ListDueRetryInstances :: "time \<Rightarrow> int \<Rightarrow> ('w, error + TaskInstance list) state"
  CountInstancesByStatus :: "string \<Rightarrow> ('w, error + int) state"
  UpdateInstanceStatus :: "int \<Rightarrow> string \<Rightarrow> ('w, error + unit) state"
  UpdateInstanceDispatch :: "int \<Rightarrow> string \<Rightarrow> string \<Rightarrow> ('w, error + unit) state"
  UpdateInstanceResult :: "string \<Rightarrow> string \<Rightarrow> string \<Rightarrow> string \<Rightarrow> ('w, error + unit) state"
  UpdateInstanceAnalysis :: "string \<Rightarrow> string \<Rightarrow> ('w, error + unit) state"
  UpdateInstanceTimestamps :: "string \<Rightarrow> time \<Rightarrow> time \<Rightarrow> ('w, error + unit) state"

record 'w WorkerRepository =
  UpsertWorker :: "WorkerNode \<Rightarrow> ('w, error + unit) state"
  GetWorker :: "string \<Rightarrow> ('w, error + WorkerNode) state"
  ListWorkers :: "('w, error + WorkerNode list) state"
  ListAvailableWorkers :: "('w, error + WorkerNode list) state"
  ListStaleWorkers :: "time \<Rightarrow> ('w, error + WorkerNode list) state"

section \<open>The view of the stores\<close>

text \<open>
  Tasks and instances by id, the instance a schedule id names, the dependency edges in the order
  they were added, workers by id.
\<close>

record view =
  v_tasks :: "int \<Rightarrow> Task option"
  v_deps :: "TaskDependency list"
  v_insts :: "int \<Rightarrow> TaskInstance option"
  v_sched :: "string \<Rightarrow> int option"
  v_workers :: "string \<Rightarrow> WorkerNode option"

text \<open>The instance of a schedule id.\<close>

definition v_inst :: "view \<Rightarrow> string \<Rightarrow> TaskInstance option" where
  "v_inst v s = Option.bind (v_sched v s) (v_insts v)"

text \<open>\<open>xs\<close> lists the values that satisfy \<open>P\<close>, each once.\<close>

definition enumerates :: "'v list \<Rightarrow> ('k \<Rightarrow> 'v option) \<Rightarrow> ('v \<Rightarrow> bool) \<Rightarrow> bool" where
  "enumerates xs m P \<longleftrightarrow> distinct xs \<and> set xs = {x \<in> ran m. P x}"

definition upstream :: "view \<Rightarrow> int \<Rightarrow> int list" where
  "upstream v k = map d_DependsOnTaskID (filter (\<lambda>d. d_TaskID d = k) (v_deps v))"

definition downstream :: "view \<Rightarrow> int \<Rightarrow> int list" where
  "downstream v k = map d_TaskID (filter (\<lambda>d. d_DependsOnTaskID d = k) (v_deps v))"

definition dep_edge :: "int \<Rightarrow> int \<Rightarrow> TaskDependency" where
  "dep_edge k k' = \<lparr>d_ID = 0, d_TaskID = k, d_DependsOnTaskID = k'\<rparr>"

text \<open>An operation moves the stores to the view \<open>v\<close> and leaves the rest of the world alone.\<close>

definition moves :: "('a world_scheme \<Rightarrow> view) \<Rightarrow> ('a world_scheme \<Rightarrow> bool) \<Rightarrow>
    'a world_scheme \<Rightarrow> 'a world_scheme \<Rightarrow> view \<Rightarrow> bool" where
  "moves vw ok w w' v \<longleftrightarrow> ok w' \<and> vw w' = v \<and> env w' = env w"

text \<open>The heartbeat a worker is stored with: its own, or the clock's when it has none.\<close>

definition beat :: "'a world_scheme \<Rightarrow> WorkerNode \<Rightarrow> time \<Rightarrow> bool" where
  "beat w x hb \<longleftrightarrow> (if IsZero (w_LastHeartbeatAt x) then \<exists>n. hb = clock w n else hb = w_LastHeartbeatAt x)"

lemma beat_simps [simp]:
  "beat w (x\<lparr>w_CurrentLoad := l\<rparr>) hb = beat w x hb" "beat w (x\<lparr>w_Status := s\<rparr>) hb = beat w x hb"
  "beat (w\<lparr>rrCounter := c\<rparr>) x hb = beat w x hb" "beat (w\<lparr>readings := n\<rparr>) x hb = beat w x hb"
  by (simp_all add: beat_def)

section \<open>The contracts\<close>

locale store_view =
  fixes vw :: "'a world_scheme \<Rightarrow> view" and ok :: "'a world_scheme \<Rightarrow> bool"
  assumes vw_more: "world.more w = world.more w' \<Longrightarrow> vw w = vw w'"
    and ok_more: "world.more w = world.more w' \<Longrightarrow> ok w = ok w'"
    and task_id: "ok w \<Longrightarrow> v_tasks (vw w) k = Some t \<Longrightarrow> t_ID t = k"
    and inst_id: "ok w \<Longrightarrow> v_insts (vw w) n = Some i \<Longrightarrow> i_ID i = n"
    and worker_id: "ok w \<Longrightarrow> v_workers (vw w) s = Some x \<Longrightarrow> w_ID x = s"
    and sched_ok: "ok w \<Longrightarrow> v_sched (vw w) sid = Some n \<Longrightarrow>
        \<exists>i. v_insts (vw w) n = Some i \<and> i_ScheduleInstanceID i = sid"

locale worker_repository = store_view vw ok
  for vw :: "'a world_scheme \<Rightarrow> view" and ok +
  fixes W :: "'a world_scheme WorkerRepository"
  assumes upsert: "ok w \<Longrightarrow> \<exists>w' hb.
      run_state (UpsertWorker W x) w = (Inr (), w') \<and>
      beat w x hb \<and>
      moves vw ok w w' ((vw w)\<lparr>v_workers := (v_workers (vw w))(w_ID x \<mapsto> x\<lparr>w_LastHeartbeatAt := hb\<rparr>)\<rparr>)"
    and get_worker: "ok w \<Longrightarrow> run_state (GetWorker W s) w =
      (case v_workers (vw w) s of None \<Rightarrow> Inl ErrWorkerNotFound | Some x \<Rightarrow> Inr x, w)"
    and list_workers: "ok w \<Longrightarrow> \<exists>xs. run_state (ListWorkers W) w = (Inr xs, w) \<and>
      enumerates xs (v_workers (vw w)) (\<lambda>_. True) \<and> sorted (map w_ID xs)"
    and list_available: "ok w \<Longrightarrow> \<exists>xs. run_state (ListAvailableWorkers W) w = (Inr xs, w) \<and>
      enumerates xs (v_workers (vw w)) (\<lambda>x. w_Status x = ''online'' \<and> w_CurrentLoad x < w_MaxConcurrency x) \<and>
      sorted (map w_ID xs)"
    and list_stale: "ok w \<Longrightarrow> \<exists>xs. run_state (ListStaleWorkers W cutoff) w = (Inr xs, w) \<and>
      enumerates xs (v_workers (vw w)) (\<lambda>x. w_Status x = ''online'' \<and> w_LastHeartbeatAt x < cutoff) \<and>
      sorted (map w_ID xs)"

locale task_repository = store_view vw ok
  for vw :: "'a world_scheme \<Rightarrow> view" and ok +
  fixes T :: "'a world_scheme TaskRepository"
  assumes create_task: "ok w \<Longrightarrow> \<exists>w' k now t'.
      run_state (CreateTask T t) w = (Inr t', w') \<and> 0 < k \<and> v_tasks (vw w) k = None \<and>
      t' = t\<lparr>t_ID := k, t_CreatedAt := now, t_UpdatedAt := now, t_Version := 1\<rparr> \<and>
      moves vw ok w w' ((vw w)\<lparr>v_tasks := (v_tasks (vw w))(k \<mapsto> t')\<rparr>)"
    and update_task: "ok w \<Longrightarrow> v_tasks (vw w) (t_ID t) = Some cur \<Longrightarrow> \<exists>w' now t'.
      run_state (UpdateTask T t) w = (Inr t', w') \<and>
      t' = t\<lparr>t_CreatedAt := t_CreatedAt cur, t_UpdatedAt := now, t_Version := t_Version cur + 1\<rparr> \<and>
      moves vw ok w w' ((vw w)\<lparr>v_tasks := (v_tasks (vw w))(t_ID t \<mapsto> t')\<rparr>)"
    and update_missing: "ok w \<Longrightarrow> v_tasks (vw w) (t_ID t) = None \<Longrightarrow>
      run_state (UpdateTask T t) w = (Inl ErrTaskNotFound, w)"
    and delete_task: "ok w \<Longrightarrow> v_tasks (vw w) k = Some t \<Longrightarrow> \<exists>w'.
      run_state (DeleteTask T k) w = (Inr (), w') \<and>
      moves vw ok w w' ((vw w)\<lparr>v_tasks := (v_tasks (vw w))(k := None)\<rparr>)"
    and delete_missing: "ok w \<Longrightarrow> v_tasks (vw w) k = None \<Longrightarrow>
      run_state (DeleteTask T k) w = (Inl ErrTaskNotFound, w)"
    and get_task: "ok w \<Longrightarrow> run_state (GetTask T k) w =
      (case v_tasks (vw w) k of None \<Rightarrow> Inl ErrTaskNotFound | Some t \<Rightarrow> Inr t, w)"
    and list_tasks: "ok w \<Longrightarrow> \<exists>ts. run_state (ListTasks T) w = (Inr ts, w) \<and>
      enumerates ts (v_tasks (vw w)) (\<lambda>_. True) \<and> sorted (map t_ID ts)"
    and list_tasks_by_tenant: "ok w \<Longrightarrow> \<exists>ts. run_state (ListTasksByTenant T tid) w = (Inr ts, w) \<and>
      enumerates ts (v_tasks (vw w)) (\<lambda>t. t_TenantID t = tid) \<and> sorted (map t_ID ts)"
    and list_due: "ok w \<Longrightarrow> \<exists>w' now ts all. run_state (ListDueTasks T n) w = (Inr ts, w') \<and>
      moves vw ok w w' (vw w) \<and> now = clock w (readings w) \<and> ts = limit_list n all \<and>
      enumerates all (v_tasks (vw w)) (\<lambda>t. t_Status t = ''enabled'' \<and> \<not> IsZero (t_NextTriggerTime t) \<and>
        t_NextTriggerTime t \<le> now) \<and> sorted (map t_NextTriggerTime all)"
    and add_dependency: "ok w \<Longrightarrow> v_tasks (vw w) k \<noteq> None \<Longrightarrow> v_tasks (vw w) k' \<noteq> None \<Longrightarrow> \<exists>w'.
      run_state (AddDependency T k k') w = (Inr (), w') \<and>
      moves vw ok w w' ((vw w)\<lparr>v_deps := v_deps (vw w) @ [dep_edge k k']\<rparr>)"
    and add_dependency_missing: "ok w \<Longrightarrow> v_tasks (vw w) k = None \<or> v_tasks (vw w) k' = None \<Longrightarrow>
      run_state (AddDependency T k k') w = (Inl ErrTaskNotFound, w)"
    and remove_dependency: "ok w \<Longrightarrow> \<exists>w'.
      run_state (RemoveDependency T k k') w = (Inr (), w') \<and>
      moves vw ok w w' ((vw w)\<lparr>v_deps :=
        filter (\<lambda>d. \<not> (d_TaskID d = k \<and> d_DependsOnTaskID d = k')) (v_deps (vw w))\<rparr>)"
    and list_downstream: "ok w \<Longrightarrow>
      run_state (ListDownstreamTasks T k) w = (Inr (downstream (vw w) k), w)"
    and list_upstream: "ok w \<Longrightarrow>
      run_state (ListUpstreamDeps T k) w = (Inr (upstream (vw w) k), w)"

locale instance_repository = store_view vw ok
  for vw :: "'a world_scheme \<Rightarrow> view" and ok +
  fixes I :: "'a world_scheme TaskInstanceRepository"
  assumes create_instance: "ok w \<Longrightarrow> \<exists>w' n now i'.
      run_state (CreateInstance I i) w = (Inr i', w') \<and> 0 < n \<and> v_insts (vw w) n = None \<and>
      i' = i\<lparr>i_ID := n, i_CreatedAt := now, i_UpdatedAt := now\<rparr> \<and>
      moves vw ok w w' ((vw w)\<lparr>v_insts := (v_insts (vw w))(n \<mapsto> i'),
        v_sched := (v_sched (vw w))(i_ScheduleInstanceID i \<mapsto> n)\<rparr>)"
    and get_instance: "ok w \<Longrightarrow> run_state (GetInstance I n) w =
      (case v_insts (vw w) n of None \<Rightarrow> Inl ErrTaskInstanceNotFound | Some i \<Rightarrow> Inr i, w)"
    and get_by_schedule: "ok w \<Longrightarrow> run_state (GetInstanceByScheduleID I sid) w =
      (case v_inst (vw w) sid of None \<Rightarrow> Inl ErrTaskInstanceNotFound | Some i \<Rightarrow> Inr i, w)"
    and list_instances: "ok w \<Longrightarrow> \<exists>xs. run_state (ListInstances I) w = (Inr xs, w) \<and>
      enumerates xs (v_insts (vw w)) (\<lambda>_. True) \<and> sorted (map i_ID xs)"
    and list_by_task: "ok w \<Longrightarrow> \<exists>xs. run_state (ListInstancesByTaskID I k) w = (Inr xs, w) \<and>
      enumerates xs (v_insts (vw w)) (\<lambda>i. i_TaskID i = k) \<and> sorted (map i_CreatedAt xs)"
    and list_by_status: "ok w \<Longrightarrow> \<exists>xs all. run_state (ListInstancesByStatus I s n) w = (Inr xs, w) \<and>
      xs = limit_list n all \<and> enumerates all (v_insts (vw w)) (\<lambda>i. i_Status i = s) \<and>
      sorted (map i_CreatedAt all)"
    and list_by_time: "ok w \<Longrightarrow> \<exists>xs all. run_state (ListInstancesByTimeRange I since till n m) w = (Inr xs, w) \<and>
      xs = limit_list n (if 0 < m \<and> m < int (length all) then drop (nat m) all else all) \<and>
      enumerates all (v_insts (vw w)) (\<lambda>i. since \<le> i_CreatedAt i \<and> i_CreatedAt i \<le> till) \<and>
      sorted (map (\<lambda>i. - i_CreatedAt i) all)"
    and list_due_retry: "ok w \<Longrightarrow> \<exists>xs all. run_state (ListDueRetryInstances I cutoff n) w = (Inr xs, w) \<and>
      xs = limit_list n all \<and> enumerates all (v_insts (vw w)) (\<lambda>i. i_Status i = ''retry_waiting'' \<and>
        (IsZero (i_NextRetryTime i) \<or> i_NextRetryTime i \<le> cutoff)) \<and> sorted (map i_CreatedAt all)"
    and count_by_status: "ok w \<Longrightarrow> \<exists>all. run_state (CountInstancesByStatus I s) w = (Inr (int (length all)), w) \<and>
      enumerates all (v_insts (vw w)) (\<lambda>i. i_Status i = s)"
    and update_status: "ok w \<Longrightarrow> v_insts (vw w) n = Some i \<Longrightarrow> \<exists>w' now.
      run_state (UpdateInstanceStatus I n s) w = (Inr (), w') \<and>
      moves vw ok w w' ((vw w)\<lparr>v_insts := (v_insts (vw w))(n \<mapsto> i\<lparr>i_Status := s, i_UpdatedAt := now\<rparr>)\<rparr>)"
    and update_status_missing: "ok w \<Longrightarrow> v_insts (vw w) n = None \<Longrightarrow>
      run_state (UpdateInstanceStatus I n s) w = (Inl ErrTaskInstanceNotFound, w)"
    and update_dispatch: "ok w \<Longrightarrow> v_insts (vw w) n = Some i \<Longrightarrow> \<exists>w' now.
      run_state (UpdateInstanceDispatch I n wid ts) w = (Inr (), w') \<and>
      moves vw ok w w' ((vw w)\<lparr>v_insts := (v_insts (vw w))(n \<mapsto>
        i\<lparr>i_WorkerID := wid, i_Status := ''dispatched'', i_UpdatedAt := now,
          i_DispatchTime := (case ParseRFC3339Nano ts of None \<Rightarrow> i_DispatchTime i | Some t \<Rightarrow> t)\<rparr>)\<rparr>)"
    and update_dispatch_missing: "ok w \<Longrightarrow> v_insts (vw w) n = None \<Longrightarrow>
      run_state (UpdateInstanceDispatch I n wid ts) w = (Inl ErrTaskInstanceNotFound, w)"
    and update_result: "ok w \<Longrightarrow> v_sched (vw w) sid = Some n \<Longrightarrow> v_insts (vw w) n = Some i \<Longrightarrow> \<exists>w' now.
      run_state (UpdateInstanceResult I sid s code msg) w = (Inr (), w') \<and>
      moves vw ok w w' ((vw w)\<lparr>v_insts := (v_insts (vw w))(n \<mapsto>
        i\<lparr>i_Status := s, i_ErrorCode := code, i_ErrorMessage := msg, i_UpdatedAt := now\<rparr>)\<rparr>)"
    and update_result_missing: "ok w \<Longrightarrow> v_inst (vw w) sid = None \<Longrightarrow>
      run_state (UpdateInstanceResult I sid s code msg) w = (Inl ErrTaskInstanceNotFound, w)"
    and update_analysis_missing: "ok w \<Longrightarrow> v_inst (vw w) sid = None \<Longrightarrow>
      run_state (UpdateInstanceAnalysis I sid js) w = (Inl ErrTaskInstanceNotFound, w)"
    and update_analysis: "ok w \<Longrightarrow> v_sched (vw w) sid = Some n \<Longrightarrow> v_insts (vw w) n = Some i \<Longrightarrow> \<exists>w' now.
      run_state (UpdateInstanceAnalysis I sid js) w = (Inr (), w') \<and>
      moves vw ok w w' ((vw w)\<lparr>v_insts := (v_insts (vw w))(n \<mapsto>
        i\<lparr>i_AnalysisJSON := js, i_UpdatedAt := now\<rparr>)\<rparr>)"
    and update_timestamps: "ok w \<Longrightarrow> v_sched (vw w) sid = Some n \<Longrightarrow> v_insts (vw w) n = Some i \<Longrightarrow> \<exists>w' now.
      run_state (UpdateInstanceTimestamps I sid st fi) w = (Inr (), w') \<and>
      moves vw ok w w' ((vw w)\<lparr>v_insts := (v_insts (vw w))(n \<mapsto>
        i\<lparr>i_StartedAt := (if IsZero st then i_StartedAt i else st),
          i_FinishedAt := (if IsZero fi then i_FinishedAt i else fi), i_UpdatedAt := now\<rparr>)\<rparr>)"

locale repositories =
  worker_repository vw ok W + task_repository vw ok T + instance_repository vw ok I
  for vw :: "'a world_scheme \<Rightarrow> view" and ok W T I

text \<open>A clock reading, a message or a metric leaves the stores alone.\<close>

context store_view
begin

lemma keeps_more [simp]:
  "vw (w\<lparr>readings := n\<rparr>) = vw w" "ok (w\<lparr>readings := n\<rparr>) = ok w"
  "vw (w\<lparr>sent := m\<rparr>) = vw w" "ok (w\<lparr>sent := m\<rparr>) = ok w"
  "vw (w\<lparr>registry := r\<rparr>) = vw w" "ok (w\<lparr>registry := r\<rparr>) = ok w"
  "vw (w\<lparr>rrCounter := c\<rparr>) = vw w" "ok (w\<lparr>rrCounter := c\<rparr>) = ok w"
  "vw (w\<lparr>limiter := l\<rparr>) = vw w" "ok (w\<lparr>limiter := l\<rparr>) = ok w"
  "vw (w\<lparr>pressure := p\<rparr>) = vw w" "ok (w\<lparr>pressure := p\<rparr>) = ok w"
  "vw (w\<lparr>slept := d\<rparr>) = vw w" "ok (w\<lparr>slept := d\<rparr>) = ok w"
  "vw (w\<lparr>audited := a\<rparr>) = vw w" "ok (w\<lparr>audited := a\<rparr>) = ok w"
  by (rule vw_more ok_more; simp)+

end

section \<open>The contracts as rules\<close>

text \<open>The same contracts for proofs about the calls of the interfaces, from the call backwards.\<close>

context worker_repository
begin

lemma wp_upsert:
  assumes "ok w"
    and "\<And>w' hb. beat w x hb \<Longrightarrow> ok w' \<Longrightarrow> env w' = env w \<Longrightarrow>
      vw w' = (vw w)\<lparr>v_workers := (v_workers (vw w))(w_ID x \<mapsto> x\<lparr>w_LastHeartbeatAt := hb\<rparr>)\<rparr> \<Longrightarrow> Q (Inr ()) w'"
  shows "wp (UpsertWorker W x) Q w"
  using upsert [OF assms(1), of x] assms(2) unfolding wp_iff moves_def by blast

lemma wp_get_worker:
  "ok w \<Longrightarrow> wp (GetWorker W s) Q w \<longleftrightarrow>
     Q (case v_workers (vw w) s of None \<Rightarrow> Inl ErrWorkerNotFound | Some x \<Rightarrow> Inr x) w"
  by (simp add: wp_run [OF get_worker])

end

context task_repository
begin

lemma wp_get_task:
  "ok w \<Longrightarrow> wp (GetTask T k) Q w \<longleftrightarrow>
     Q (case v_tasks (vw w) k of None \<Rightarrow> Inl ErrTaskNotFound | Some t \<Rightarrow> Inr t) w"
  by (simp add: wp_run [OF get_task])

lemma wp_create_task:
  assumes "ok w"
    and "\<And>w' k now. 0 < k \<Longrightarrow> v_tasks (vw w) k = None \<Longrightarrow> ok w' \<Longrightarrow> env w' = env w \<Longrightarrow>
      vw w' = (vw w)\<lparr>v_tasks := (v_tasks (vw w))(k \<mapsto>
        t\<lparr>t_ID := k, t_CreatedAt := now, t_UpdatedAt := now, t_Version := 1\<rparr>)\<rparr> \<Longrightarrow>
      Q (Inr (t\<lparr>t_ID := k, t_CreatedAt := now, t_UpdatedAt := now, t_Version := 1\<rparr>)) w'"
  shows "wp (CreateTask T t) Q w"
  using create_task [OF assms(1), of t] assms(2) unfolding wp_iff moves_def by blast

lemma wp_update_task:
  assumes "ok w"
    and "v_tasks (vw w) (t_ID t) = None \<Longrightarrow> Q (Inl ErrTaskNotFound) w"
    and "\<And>w' cur now. v_tasks (vw w) (t_ID t) = Some cur \<Longrightarrow> ok w' \<Longrightarrow> env w' = env w \<Longrightarrow>
      vw w' = (vw w)\<lparr>v_tasks := (v_tasks (vw w))(t_ID t \<mapsto>
        t\<lparr>t_CreatedAt := t_CreatedAt cur, t_UpdatedAt := now, t_Version := t_Version cur + 1\<rparr>)\<rparr> \<Longrightarrow>
      Q (Inr (t\<lparr>t_CreatedAt := t_CreatedAt cur, t_UpdatedAt := now, t_Version := t_Version cur + 1\<rparr>)) w'"
  shows "wp (UpdateTask T t) Q w"
proof (cases "v_tasks (vw w) (t_ID t)")
  case None
  then show ?thesis using assms(2) by (simp add: wp_run [OF update_missing [OF assms(1)]])
next
  case (Some cur)
  then show ?thesis
    using update_task [OF assms(1) Some] assms(3) [OF Some] unfolding wp_iff moves_def by blast
qed

lemma wp_delete_task:
  assumes "ok w"
    and "v_tasks (vw w) k = None \<Longrightarrow> Q (Inl ErrTaskNotFound) w"
    and "\<And>w' t. v_tasks (vw w) k = Some t \<Longrightarrow> ok w' \<Longrightarrow> env w' = env w \<Longrightarrow>
      vw w' = (vw w)\<lparr>v_tasks := (v_tasks (vw w))(k := None)\<rparr> \<Longrightarrow> Q (Inr ()) w'"
  shows "wp (DeleteTask T k) Q w"
proof (cases "v_tasks (vw w) k")
  case None
  then show ?thesis using assms(2) by (simp add: wp_run [OF delete_missing [OF assms(1)]])
next
  case (Some t)
  then show ?thesis
    using delete_task [OF assms(1) Some] assms(3) [OF Some] unfolding wp_iff moves_def by blast
qed

lemma wp_downstream: "ok w \<Longrightarrow> wp (ListDownstreamTasks T k) Q w \<longleftrightarrow> Q (Inr (downstream (vw w) k)) w"
  by (simp add: wp_run [OF list_downstream])

lemma wp_upstream: "ok w \<Longrightarrow> wp (ListUpstreamDeps T k) Q w \<longleftrightarrow> Q (Inr (upstream (vw w) k)) w"
  by (simp add: wp_run [OF list_upstream])

lemma wp_add_dependency:
  assumes "ok w"
    and "v_tasks (vw w) k = None \<or> v_tasks (vw w) k' = None \<Longrightarrow> Q (Inl ErrTaskNotFound) w"
    and "\<And>w'. v_tasks (vw w) k \<noteq> None \<Longrightarrow> v_tasks (vw w) k' \<noteq> None \<Longrightarrow> ok w' \<Longrightarrow> env w' = env w \<Longrightarrow>
      vw w' = (vw w)\<lparr>v_deps := v_deps (vw w) @ [dep_edge k k']\<rparr> \<Longrightarrow> Q (Inr ()) w'"
  shows "wp (AddDependency T k k') Q w"
proof (cases "v_tasks (vw w) k = None \<or> v_tasks (vw w) k' = None")
  case True
  then show ?thesis using assms(2) by (simp add: wp_run [OF add_dependency_missing [OF assms(1)]])
next
  case False
  then show ?thesis
    using add_dependency [OF assms(1), of k k'] assms(3) unfolding wp_iff moves_def by blast
qed

lemma wp_remove_dependency:
  assumes "ok w"
    and "\<And>w'. ok w' \<Longrightarrow> env w' = env w \<Longrightarrow> vw w' = (vw w)\<lparr>v_deps :=
        filter (\<lambda>d. \<not> (d_TaskID d = k \<and> d_DependsOnTaskID d = k')) (v_deps (vw w))\<rparr> \<Longrightarrow> Q (Inr ()) w'"
  shows "wp (RemoveDependency T k k') Q w"
  using remove_dependency [OF assms(1), of k k'] assms(2) unfolding wp_iff moves_def by blast

end

context instance_repository
begin

lemma wp_get_by_schedule:
  "ok w \<Longrightarrow> wp (GetInstanceByScheduleID I sid) Q w \<longleftrightarrow>
     Q (case v_inst (vw w) sid of None \<Rightarrow> Inl ErrTaskInstanceNotFound | Some i \<Rightarrow> Inr i) w"
  by (simp add: wp_run [OF get_by_schedule])

lemma wp_create_instance:
  assumes "ok w"
    and "\<And>w' n now. 0 < n \<Longrightarrow> v_insts (vw w) n = None \<Longrightarrow> ok w' \<Longrightarrow> env w' = env w \<Longrightarrow>
      vw w' = (vw w)\<lparr>v_insts := (v_insts (vw w))(n \<mapsto> i\<lparr>i_ID := n, i_CreatedAt := now, i_UpdatedAt := now\<rparr>),
        v_sched := (v_sched (vw w))(i_ScheduleInstanceID i \<mapsto> n)\<rparr> \<Longrightarrow>
      Q (Inr (i\<lparr>i_ID := n, i_CreatedAt := now, i_UpdatedAt := now\<rparr>)) w'"
  shows "wp (CreateInstance I i) Q w"
  using create_instance [OF assms(1), of i] assms(2) unfolding wp_iff moves_def by blast

lemma wp_update_status:
  assumes "ok w" "v_insts (vw w) n = Some i"
    and "\<And>w' now. ok w' \<Longrightarrow> env w' = env w \<Longrightarrow> vw w' = (vw w)\<lparr>v_insts := (v_insts (vw w))(n \<mapsto>
      i\<lparr>i_Status := s, i_UpdatedAt := now\<rparr>)\<rparr> \<Longrightarrow> Q (Inr ()) w'"
  shows "wp (UpdateInstanceStatus I n s) Q w"
  using update_status [OF assms(1,2)] assms(3) unfolding wp_iff moves_def by blast

lemma wp_update_dispatch:
  assumes "ok w" "v_insts (vw w) n = Some i"
    and "\<And>w' now t. ok w' \<Longrightarrow> env w' = env w \<Longrightarrow> vw w' = (vw w)\<lparr>v_insts := (v_insts (vw w))(n \<mapsto>
      i\<lparr>i_WorkerID := wid, i_Status := ''dispatched'', i_UpdatedAt := now, i_DispatchTime := t\<rparr>)\<rparr> \<Longrightarrow> Q (Inr ()) w'"
  shows "wp (UpdateInstanceDispatch I n wid ts) Q w"
  using update_dispatch [OF assms(1,2)] assms(3) unfolding wp_iff moves_def by blast

lemma v_instE:
  assumes "ok w" "v_inst (vw w) sid = Some i"
  obtains n where "v_sched (vw w) sid = Some n" "v_insts (vw w) n = Some i" "i_ID i = n" "i_ScheduleInstanceID i = sid"
  using assms sched_ok [OF assms(1), of sid] inst_id [OF assms(1)]
  by (force simp: v_inst_def split: Option.bind_splits)

lemma v_inst_id: "ok w \<Longrightarrow> v_inst (vw w) sid = Some i \<Longrightarrow> v_insts (vw w) (i_ID i) = Some i \<and> i_ScheduleInstanceID i = sid"
  by (metis v_instE)

lemma wp_update_result:
  assumes "ok w" "v_inst (vw w) sid = Some i"
    and "\<And>w' now. ok w' \<Longrightarrow> env w' = env w \<Longrightarrow> vw w' = (vw w)\<lparr>v_insts := (v_insts (vw w))(i_ID i \<mapsto>
      i\<lparr>i_Status := s, i_ErrorCode := code, i_ErrorMessage := msg, i_UpdatedAt := now\<rparr>)\<rparr> \<Longrightarrow> Q (Inr ()) w'"
  shows "wp (UpdateInstanceResult I sid s code msg) Q w"
proof -
  from v_instE [OF assms(1,2)] obtain n where
    n: "v_sched (vw w) sid = Some n" "v_insts (vw w) n = Some i" "i_ID i = n" .
  then show ?thesis
    using update_result [OF assms(1) n(1,2), of s code msg] assms(3) unfolding wp_iff moves_def by blast
qed

lemma wp_update_timestamps:
  assumes "ok w" "v_inst (vw w) sid = Some i"
    and "\<And>w' now. ok w' \<Longrightarrow> env w' = env w \<Longrightarrow> vw w' = (vw w)\<lparr>v_insts := (v_insts (vw w))(i_ID i \<mapsto>
      i\<lparr>i_StartedAt := (if IsZero st then i_StartedAt i else st),
        i_FinishedAt := (if IsZero fi then i_FinishedAt i else fi), i_UpdatedAt := now\<rparr>)\<rparr> \<Longrightarrow> Q (Inr ()) w'"
  shows "wp (UpdateInstanceTimestamps I sid st fi) Q w"
proof -
  from v_instE [OF assms(1,2)] obtain n where
    n: "v_sched (vw w) sid = Some n" "v_insts (vw w) n = Some i" "i_ID i = n" .
  then show ?thesis
    using update_timestamps [OF assms(1) n(1,2), of st fi] assms(3) unfolding wp_iff moves_def by blast
qed

end

end
