(* ===== verification/Teststore.thy ===== *)
theory Teststore
  imports Repository
begin

text \<open>
  \<^verbatim>\<open>internal/repo/teststore\<close>: the in-memory repositories. They keep their structs in Go maps and
  hand out copies, so their values are plain values here; the mutex makes each method one step.
  Each of them is shown to satisfy the contract of its interface. The id counters are unbounded:
  they would wrap only after \<open>2 ^ 63\<close> creations.
\<close>

section \<open>State\<close>

record TaskStore =
  ts_nextID :: int
  ts_tasks :: "(int, Task) gomap"
  ts_dependencies :: "TaskDependency list"

record InstanceStore =
  is_nextID :: int
  is_instances :: "(int, TaskInstance) gomap"
  is_bySchedule :: "(string, int) gomap"

record AIAnalysisStore =
  as_nextID :: int
  as_records :: "(int, AIAnalysisRecord) gomap"

record stores = world +
  task_store :: TaskStore
  instance_store :: InstanceStore
  worker_store :: "(string, WorkerNode) gomap"
  ai_store :: AIAnalysisStore

definition NewTaskRepository :: TaskStore where
  "NewTaskRepository = \<lparr>ts_nextID = 1, ts_tasks = [], ts_dependencies = []\<rparr>"

definition NewTaskInstanceRepository :: InstanceStore where
  "NewTaskInstanceRepository = \<lparr>is_nextID = 1, is_instances = [], is_bySchedule = []\<rparr>"

definition NewWorkerRepository :: "(string, WorkerNode) gomap" where
  "NewWorkerRepository = []"

definition NewAIAnalysisRepository :: AIAnalysisStore where
  "NewAIAnalysisRepository = \<lparr>as_nextID = 1, as_records = []\<rparr>"

section \<open>Tasks\<close>

abbreviation tasks_of :: "stores \<Rightarrow> (int, Task) gomap" where
  "tasks_of w \<equiv> ts_tasks (task_store w)"

definition put_task :: "Task \<Rightarrow> (stores, unit) state" where
  "put_task t = modify (\<lambda>w. w\<lparr>task_store := (task_store w)\<lparr>ts_tasks := mput (t_ID t) t (tasks_of w)\<rparr>\<rparr>)"

definition ts_CreateTask :: "Task \<Rightarrow> (stores, error + Task) state" where
  "ts_CreateTask task = do {
     now \<leftarrow> time_now;
     next \<leftarrow> reads (\<lambda>w. ts_nextID (task_store w));
     let copyTask = task\<lparr>t_ID := next, t_CreatedAt := now, t_UpdatedAt := now, t_Version := 1\<rparr>;
     put_task copyTask;
     modify (\<lambda>w. w\<lparr>task_store := (task_store w)\<lparr>ts_nextID := next + 1\<rparr>\<rparr>);
     ret copyTask }"

definition ts_UpdateTask :: "Task \<Rightarrow> (stores, error + Task) state" where
  "ts_UpdateTask task = do {
     found \<leftarrow> reads (\<lambda>w. mget (tasks_of w) (t_ID task));
     case found of
       None \<Rightarrow> raise ErrTaskNotFound
     | Some current \<Rightarrow> do {
         now \<leftarrow> time_now;
         let copyTask = task\<lparr>t_CreatedAt := t_CreatedAt current, t_UpdatedAt := now,
           t_Version := t_Version current + 1\<rparr>;
         put_task copyTask;
         ret copyTask } }"

definition ts_DeleteTask :: "int \<Rightarrow> (stores, error + unit) state" where
  "ts_DeleteTask k = do {
     found \<leftarrow> reads (\<lambda>w. mget (tasks_of w) k);
     case found of
       None \<Rightarrow> raise ErrTaskNotFound
     | Some _ \<Rightarrow> do {
         modify (\<lambda>w. w\<lparr>task_store := (task_store w)\<lparr>ts_tasks := mdel k (tasks_of w)\<rparr>\<rparr>);
         ret () } }"

definition ts_GetTask :: "int \<Rightarrow> (stores, error + Task) state" where
  "ts_GetTask k = reads (\<lambda>w. case mget (tasks_of w) k of None \<Rightarrow> Inl ErrTaskNotFound | Some t \<Rightarrow> Inr t)"

definition ts_ListTasks :: "(stores, error + Task list) state" where
  "ts_ListTasks = reads (\<lambda>w. Inr (sort_by t_ID (map snd (tasks_of w))))"

definition ts_ListTasksByTenant :: "int \<Rightarrow> (stores, error + Task list) state" where
  "ts_ListTasksByTenant tenantID =
     reads (\<lambda>w. Inr (sort_by t_ID (filter (\<lambda>t. t_TenantID t = tenantID) (map snd (tasks_of w)))))"

definition ts_ListDueTasks :: "int \<Rightarrow> (stores, error + Task list) state" where
  "ts_ListDueTasks limit = do {
     now \<leftarrow> time_now;
     all \<leftarrow> reads (\<lambda>w. filter (\<lambda>t. t_Status t = ''enabled'' \<and>
       \<not> (IsZero (t_NextTriggerTime t) \<or> t_NextTriggerTime t > now)) (map snd (tasks_of w)));
     ret (limit_list limit (sort_by t_NextTriggerTime all)) }"

definition ts_AddDependency :: "int \<Rightarrow> int \<Rightarrow> (stores, error + unit) state" where
  "ts_AddDependency taskID dependsOnTaskID = do {
     m \<leftarrow> reads tasks_of;
     if mget m taskID = None then raise ErrTaskNotFound
     else if mget m dependsOnTaskID = None then raise ErrTaskNotFound
     else do {
       modify (\<lambda>w. w\<lparr>task_store := (task_store w)\<lparr>ts_dependencies :=
         ts_dependencies (task_store w) @
         [\<lparr>d_ID = 0, d_TaskID = taskID, d_DependsOnTaskID = dependsOnTaskID\<rparr>]\<rparr>\<rparr>);
       ret () } }"

definition ts_RemoveDependency :: "int \<Rightarrow> int \<Rightarrow> (stores, error + unit) state" where
  "ts_RemoveDependency taskID dependsOnTaskID = do {
     modify (\<lambda>w. w\<lparr>task_store := (task_store w)\<lparr>ts_dependencies :=
       filter (\<lambda>d. \<not> (d_TaskID d = taskID \<and> d_DependsOnTaskID d = dependsOnTaskID))
         (ts_dependencies (task_store w))\<rparr>\<rparr>);
     ret () }"

definition ts_ListDownstreamTasks :: "int \<Rightarrow> (stores, error + int list) state" where
  "ts_ListDownstreamTasks taskID = reads (\<lambda>w.
     Inr (map d_TaskID (filter (\<lambda>d. d_DependsOnTaskID d = taskID) (ts_dependencies (task_store w)))))"

definition ts_ListUpstreamDeps :: "int \<Rightarrow> (stores, error + int list) state" where
  "ts_ListUpstreamDeps taskID = reads (\<lambda>w.
     Inr (map d_DependsOnTaskID (filter (\<lambda>d. d_TaskID d = taskID) (ts_dependencies (task_store w)))))"

definition test_tasks :: "stores TaskRepository" where
  "test_tasks = \<lparr>CreateTask = ts_CreateTask, UpdateTask = ts_UpdateTask, DeleteTask = ts_DeleteTask,
     GetTask = ts_GetTask, ListTasks = ts_ListTasks, ListTasksByTenant = ts_ListTasksByTenant,
     ListDueTasks = ts_ListDueTasks, AddDependency = ts_AddDependency,
     RemoveDependency = ts_RemoveDependency, ListDownstreamTasks = ts_ListDownstreamTasks,
     ListUpstreamDeps = ts_ListUpstreamDeps\<rparr>"

section \<open>Task instances\<close>

abbreviation insts_of :: "stores \<Rightarrow> (int, TaskInstance) gomap" where
  "insts_of w \<equiv> is_instances (instance_store w)"

definition put_inst :: "TaskInstance \<Rightarrow> (stores, unit) state" where
  "put_inst i = modify (\<lambda>w. w\<lparr>instance_store :=
     (instance_store w)\<lparr>is_instances := mput (i_ID i) i (insts_of w)\<rparr>\<rparr>)"

definition is_CreateInstance :: "TaskInstance \<Rightarrow> (stores, error + TaskInstance) state" where
  "is_CreateInstance inst = do {
     now \<leftarrow> time_now;
     next \<leftarrow> reads (\<lambda>w. is_nextID (instance_store w));
     let copyInstance = inst\<lparr>i_ID := next, i_CreatedAt := now, i_UpdatedAt := now\<rparr>;
     put_inst copyInstance;
     modify (\<lambda>w. w\<lparr>instance_store := (instance_store w)\<lparr>
       is_bySchedule := mput (i_ScheduleInstanceID copyInstance) next (is_bySchedule (instance_store w)),
       is_nextID := next + 1\<rparr>\<rparr>);
     ret copyInstance }"

definition is_GetInstanceByScheduleID :: "string \<Rightarrow> (stores, error + TaskInstance) state" where
  "is_GetInstanceByScheduleID scheduleID = reads (\<lambda>w.
     case mget (is_bySchedule (instance_store w)) scheduleID of
       None \<Rightarrow> Inl ErrTaskInstanceNotFound
     | Some n \<Rightarrow> (case mget (insts_of w) n of
         None \<Rightarrow> Inl ErrTaskInstanceNotFound
       | Some inst \<Rightarrow> Inr inst))"

definition is_GetInstance :: "int \<Rightarrow> (stores, error + TaskInstance) state" where
  "is_GetInstance n = reads (\<lambda>w.
     case mget (insts_of w) n of None \<Rightarrow> Inl ErrTaskInstanceNotFound | Some inst \<Rightarrow> Inr inst)"

definition is_ListInstances :: "(stores, error + TaskInstance list) state" where
  "is_ListInstances = reads (\<lambda>w. Inr (sort_by i_ID (map snd (insts_of w))))"

definition is_ListInstancesByTaskID :: "int \<Rightarrow> (stores, error + TaskInstance list) state" where
  "is_ListInstancesByTaskID taskID = reads (\<lambda>w.
     Inr (sort_by i_CreatedAt (filter (\<lambda>i. i_TaskID i = taskID) (map snd (insts_of w)))))"

definition is_ListInstancesByTimeRange ::
  "time \<Rightarrow> time \<Rightarrow> int \<Rightarrow> int \<Rightarrow> (stores, error + TaskInstance list) state" where
  "is_ListInstancesByTimeRange from to limit offset = reads (\<lambda>w.
     let found = sort_by (\<lambda>i. - i_CreatedAt i)
           (filter (\<lambda>i. \<not> (i_CreatedAt i < from \<or> i_CreatedAt i > to)) (map snd (insts_of w)));
         found = (if offset > 0 \<and> offset < int (length found) then drop (nat offset) found else found)
     in Inr (limit_list limit found))"

definition is_ListInstancesByStatus :: "string \<Rightarrow> int \<Rightarrow> (stores, error + TaskInstance list) state" where
  "is_ListInstancesByStatus status limit = reads (\<lambda>w.
     Inr (limit_list limit
       (sort_by i_CreatedAt (filter (\<lambda>i. i_Status i = status) (map snd (insts_of w))))))"

definition is_CountInstancesByStatus :: "string \<Rightarrow> (stores, error + int) state" where
  "is_CountInstancesByStatus status = reads (\<lambda>w.
     Inr (int (length (filter (\<lambda>i. i_Status i = status) (map snd (insts_of w))))))"

definition is_UpdateInstanceStatus :: "int \<Rightarrow> string \<Rightarrow> (stores, error + unit) state" where
  "is_UpdateInstanceStatus n status = do {
     found \<leftarrow> reads (\<lambda>w. mget (insts_of w) n);
     case found of
       None \<Rightarrow> raise ErrTaskInstanceNotFound
     | Some inst \<Rightarrow> do {
         now \<leftarrow> time_now;
         put_inst (inst\<lparr>i_Status := status, i_UpdatedAt := now\<rparr>);
         ret () } }"

definition is_UpdateInstanceDispatch :: "int \<Rightarrow> string \<Rightarrow> string \<Rightarrow> (stores, error + unit) state" where
  "is_UpdateInstanceDispatch n workerID dispatchTime = do {
     found \<leftarrow> reads (\<lambda>w. mget (insts_of w) n);
     case found of
       None \<Rightarrow> raise ErrTaskInstanceNotFound
     | Some inst \<Rightarrow> do {
         now \<leftarrow> time_now;
         let inst = inst\<lparr>i_WorkerID := workerID, i_Status := ''dispatched'', i_UpdatedAt := now\<rparr>;
         let inst = (if dispatchTime \<noteq> [] then
             (case ParseRFC3339Nano dispatchTime of None \<Rightarrow> inst | Some parsed \<Rightarrow> inst\<lparr>i_DispatchTime := parsed\<rparr>)
           else inst);
         put_inst inst;
         ret () } }"

definition is_ListDueRetryInstances :: "time \<Rightarrow> int \<Rightarrow> (stores, error + TaskInstance list) state" where
  "is_ListDueRetryInstances cutoff limit = reads (\<lambda>w.
     Inr (limit_list limit (sort_by i_CreatedAt (filter (\<lambda>i. i_Status i = ''retry_waiting'' \<and>
       \<not> (\<not> IsZero (i_NextRetryTime i) \<and> i_NextRetryTime i > cutoff)) (map snd (insts_of w))))))"

text \<open>The methods that find the instance by its schedule id share their first lines.\<close>

definition with_scheduled :: "string \<Rightarrow> (TaskInstance \<Rightarrow> time \<Rightarrow> TaskInstance) \<Rightarrow> (stores, error + unit) state" where
  "with_scheduled scheduleID f = do {
     found \<leftarrow> reads (\<lambda>w. Option.bind (mget (is_bySchedule (instance_store w)) scheduleID) (mget (insts_of w)));
     case found of
       None \<Rightarrow> raise ErrTaskInstanceNotFound
     | Some inst \<Rightarrow> do { now \<leftarrow> time_now; put_inst (f inst now); ret () } }"

definition is_UpdateInstanceResult ::
  "string \<Rightarrow> string \<Rightarrow> string \<Rightarrow> string \<Rightarrow> (stores, error + unit) state" where
  "is_UpdateInstanceResult scheduleID status errorCode errorMessage =
     with_scheduled scheduleID (\<lambda>inst now. inst\<lparr>i_Status := status, i_ErrorCode := errorCode,
       i_ErrorMessage := errorMessage, i_UpdatedAt := now\<rparr>)"

definition is_UpdateInstanceAnalysis :: "string \<Rightarrow> string \<Rightarrow> (stores, error + unit) state" where
  "is_UpdateInstanceAnalysis scheduleID analysisJSON =
     with_scheduled scheduleID (\<lambda>inst now. inst\<lparr>i_AnalysisJSON := analysisJSON, i_UpdatedAt := now\<rparr>)"

definition is_UpdateInstanceTimestamps :: "string \<Rightarrow> time \<Rightarrow> time \<Rightarrow> (stores, error + unit) state" where
  "is_UpdateInstanceTimestamps scheduleID startedAt finishedAt =
     with_scheduled scheduleID (\<lambda>inst now.
       let inst = (if \<not> IsZero startedAt then inst\<lparr>i_StartedAt := startedAt\<rparr> else inst);
           inst = (if \<not> IsZero finishedAt then inst\<lparr>i_FinishedAt := finishedAt\<rparr> else inst)
       in inst\<lparr>i_UpdatedAt := now\<rparr>)"

definition test_instances :: "stores TaskInstanceRepository" where
  "test_instances = \<lparr>CreateInstance = is_CreateInstance, GetInstance = is_GetInstance,
     GetInstanceByScheduleID = is_GetInstanceByScheduleID, ListInstances = is_ListInstances,
     ListInstancesByTaskID = is_ListInstancesByTaskID,
     ListInstancesByTimeRange = is_ListInstancesByTimeRange,
     ListInstancesByStatus = is_ListInstancesByStatus, ListDueRetryInstances = is_ListDueRetryInstances,
     CountInstancesByStatus = is_CountInstancesByStatus, UpdateInstanceStatus = is_UpdateInstanceStatus,
     UpdateInstanceDispatch = is_UpdateInstanceDispatch, UpdateInstanceResult = is_UpdateInstanceResult,
     UpdateInstanceAnalysis = is_UpdateInstanceAnalysis,
     UpdateInstanceTimestamps = is_UpdateInstanceTimestamps\<rparr>"

section \<open>Workers\<close>

definition ws_UpsertWorker :: "WorkerNode \<Rightarrow> (stores, error + unit) state" where
  "ws_UpsertWorker worker = do {
     copyWorker \<leftarrow> (if IsZero (w_LastHeartbeatAt worker)
       then do { now \<leftarrow> time_now; State_Monad.return (worker\<lparr>w_LastHeartbeatAt := now\<rparr>) }
       else State_Monad.return worker);
     modify (\<lambda>w. w\<lparr>worker_store := mput (w_ID copyWorker) copyWorker (worker_store w)\<rparr>);
     ret () }"

definition ws_GetWorker :: "string \<Rightarrow> (stores, error + WorkerNode) state" where
  "ws_GetWorker s = reads (\<lambda>w. case mget (worker_store w) s of None \<Rightarrow> Inl ErrWorkerNotFound | Some x \<Rightarrow> Inr x)"

definition ws_ListWorkers :: "(stores, error + WorkerNode list) state" where
  "ws_ListWorkers = reads (\<lambda>w. Inr (sort_by w_ID (map snd (worker_store w))))"

definition ws_ListStaleWorkers :: "time \<Rightarrow> (stores, error + WorkerNode list) state" where
  "ws_ListStaleWorkers cutoff = reads (\<lambda>w. Inr (sort_by w_ID
     (filter (\<lambda>x. w_Status x = ''online'' \<and> w_LastHeartbeatAt x < cutoff) (map snd (worker_store w)))))"

definition ws_ListAvailableWorkers :: "(stores, error + WorkerNode list) state" where
  "ws_ListAvailableWorkers =
     if_ok ws_ListWorkers (\<lambda>workers.
       ret (filter (\<lambda>x. w_Status x = ''online'' \<and> \<not> w_CurrentLoad x \<ge> w_MaxConcurrency x) workers))"

definition test_workers :: "stores WorkerRepository" where
  "test_workers = \<lparr>UpsertWorker = ws_UpsertWorker, GetWorker = ws_GetWorker, ListWorkers = ws_ListWorkers,
     ListAvailableWorkers = ws_ListAvailableWorkers, ListStaleWorkers = ws_ListStaleWorkers\<rparr>"

section \<open>Analysis records\<close>

definition as_CreateRecord :: "AIAnalysisRecord \<Rightarrow> (stores, error + AIAnalysisRecord) state" where
  "as_CreateRecord rec = do {
     next \<leftarrow> reads (\<lambda>w. as_nextID (ai_store w));
     now \<leftarrow> time_now;
     let rec = rec\<lparr>a_ID := next, a_CreatedAt := now\<rparr>;
     modify (\<lambda>w. w\<lparr>ai_store := \<lparr>as_nextID = next + 1,
       as_records = mput next rec (as_records (ai_store w))\<rparr>\<rparr>);
     ret rec }"

definition as_DeleteOldRecords :: "time \<Rightarrow> (stores, error + int) state" where
  "as_DeleteOldRecords before = do {
     old \<leftarrow> reads (\<lambda>w. filter (\<lambda>(k, rec). a_CreatedAt rec < before) (as_records (ai_store w)));
     modify (\<lambda>w. w\<lparr>ai_store := (ai_store w)\<lparr>as_records :=
       fold (\<lambda>(k, rec). mdel k) old (as_records (ai_store w))\<rparr>\<rparr>);
     ret (int (length old)) }"

section \<open>The contracts hold\<close>

definition test_view :: "stores \<Rightarrow> view" where
  "test_view w = \<lparr>v_tasks = mget (tasks_of w), v_deps = ts_dependencies (task_store w),
     v_insts = mget (insts_of w), v_sched = mget (is_bySchedule (instance_store w)),
     v_workers = mget (worker_store w)\<rparr>"

definition keyed :: "('v \<Rightarrow> 'k) \<Rightarrow> ('k, 'v) gomap \<Rightarrow> bool" where
  "keyed f m \<longleftrightarrow> wf_map m \<and> (\<forall>k v. mget m k = Some v \<longrightarrow> f v = k)"

definition stores_ok :: "stores \<Rightarrow> bool" where
  "stores_ok w \<longleftrightarrow>
     keyed t_ID (tasks_of w) \<and> 0 < ts_nextID (task_store w)
   \<and> (\<forall>k t. mget (tasks_of w) k = Some t \<longrightarrow> k < ts_nextID (task_store w))
   \<and> keyed i_ID (insts_of w) \<and> 0 < is_nextID (instance_store w)
   \<and> (\<forall>n i. mget (insts_of w) n = Some i \<longrightarrow> n < is_nextID (instance_store w))
   \<and> (\<forall>sid n. mget (is_bySchedule (instance_store w)) sid = Some n \<longrightarrow>
        (\<exists>i. mget (insts_of w) n = Some i \<and> i_ScheduleInstanceID i = sid))
   \<and> keyed w_ID (worker_store w)"

lemma keyed_mput [simp]: "keyed f m \<Longrightarrow> keyed f (mput (f v) v m)"
  by (auto simp: keyed_def)

lemma keyed_mput_key: "keyed f m \<Longrightarrow> f v = k \<Longrightarrow> keyed f (mput k v m)"
  by auto

lemma keyed_mdel [simp]: "keyed f m \<Longrightarrow> keyed f (mdel k m)"
  by (auto simp: keyed_def)

lemma keyed_distinct: "keyed f m \<Longrightarrow> distinct (map snd m)"
proof -
  assume k: "keyed f m"
  then have "\<forall>(k, v) \<in> set m. f v = k" by (auto simp: keyed_def wf_map_def)
  then have "distinct (map f (map snd m))" using k by (intro distinct_snd_values) (simp_all add: keyed_def)
  then show ?thesis by (simp only: distinct_map)
qed

lemma ran_mget: "wf_map m \<Longrightarrow> ran (mget m) = set (map snd m)"
  by (simp add: wf_map_def ran_distinct)

lemma lists_filter:
  assumes "keyed f m"
  shows "enumerates (sort_by g (filter P (map snd m))) (mget m) P"
    and "enumerates (filter P (sort_by g (map snd m))) (mget m) P"
    and "enumerates (filter P (map snd m)) (mget m) P"
    and "enumerates (sort_by g (map snd m)) (mget m) (\<lambda>_. True)"
  using assms keyed_distinct [OF assms] ran_mget [of m]
  by (auto simp: enumerates_def keyed_def distinct_filter)

lemma env_stores [simp]:
  "env (w\<lparr>task_store := x\<rparr>) = env w" "env (w\<lparr>instance_store := y\<rparr>) = env w"
  "env (w\<lparr>worker_store := z\<rparr>) = env w" "env (w\<lparr>ai_store := a\<rparr>) = env w"
  by (simp_all add: env_def world.defs)

lemma run_put_task [simp]:
  "run_state (put_task t) w = ((), w\<lparr>task_store := (task_store w)\<lparr>ts_tasks := mput (t_ID t) t (tasks_of w)\<rparr>\<rparr>)"
  by (simp add: put_task_def)

lemma run_put_inst [simp]:
  "run_state (put_inst i) w = ((), w\<lparr>instance_store := (instance_store w)\<lparr>is_instances := mput (i_ID i) i (insts_of w)\<rparr>\<rparr>)"
  by (simp add: put_inst_def)

lemma map_of_update_fun: "mget (mput k v m) = (mget m)(k \<mapsto> v)"
  by (rule ext) simp

lemma map_of_delete_fun: "mget (mdel k m) = (mget m)(k := None)"
  by (rule ext) simp

lemmas store_defs = test_view_def moves_def map_of_update_fun map_of_delete_fun fun_upd_def

interpretation ts: store_view test_view stores_ok
proof
  fix w w' :: stores
  assume m: "world.more w = world.more w'"
  have more: "world.more v = \<lparr>task_store = task_store v, instance_store = instance_store v,
      worker_store = worker_store v, ai_store = ai_store v\<rparr>" for v :: stores
    by (cases v) simp
  have "task_store w = task_store w'" "instance_store w = instance_store w'"
      "worker_store w = worker_store w'"
    using m more [of w] more [of w'] by simp_all
  then show "test_view w = test_view w'" "stores_ok w = stores_ok w'"
    by (simp_all add: test_view_def stores_ok_def)
qed (auto simp: test_view_def stores_ok_def keyed_def)

lemma run_ws_UpsertWorker:
  "run_state (ws_UpsertWorker x) w =
     (Inr (), (if IsZero (w_LastHeartbeatAt x)
       then w\<lparr>readings := Suc (readings w), worker_store :=
         mput (w_ID x) (x\<lparr>w_LastHeartbeatAt := clock w (readings w)\<rparr>) (worker_store w)\<rparr>
       else w\<lparr>worker_store := mput (w_ID x) x (worker_store w)\<rparr>))"
  by (simp add: ws_UpsertWorker_def)

interpretation ts: worker_repository test_view stores_ok test_workers
proof
  fix w :: stores and x s cutoff
  assume ok: "stores_ok w"
  then have k: "keyed w_ID (worker_store w)" by (simp add: stores_ok_def)
  show "\<exists>w' hb. run_state (UpsertWorker test_workers x) w = (Inr (), w') \<and>
      beat w x hb \<and>
      moves test_view stores_ok w w' ((test_view w)\<lparr>v_workers :=
        (v_workers (test_view w))(w_ID x \<mapsto> x\<lparr>w_LastHeartbeatAt := hb\<rparr>)\<rparr>)"
    using ok keyed_mput [OF k, of x] keyed_mput [OF k, of "x\<lparr>w_LastHeartbeatAt := clock w (readings w)\<rparr>"]
    by (cases "IsZero (w_LastHeartbeatAt x)")
      (auto simp: test_workers_def run_ws_UpsertWorker store_defs stores_ok_def beat_def)
  show "run_state (GetWorker test_workers s) w =
      (case v_workers (test_view w) s of None \<Rightarrow> Inl ErrWorkerNotFound | Some x \<Rightarrow> Inr x, w)"
    by (simp add: test_workers_def ws_GetWorker_def test_view_def)
  show "\<exists>xs. run_state (ListWorkers test_workers) w = (Inr xs, w) \<and>
      enumerates xs (v_workers (test_view w)) (\<lambda>_. True) \<and> sorted (map w_ID xs)"
    using lists_filter(4) [OF k, of w_ID] by (simp add: test_workers_def ws_ListWorkers_def test_view_def)
  show "\<exists>xs. run_state (ListAvailableWorkers test_workers) w = (Inr xs, w) \<and>
      enumerates xs (v_workers (test_view w)) (\<lambda>x. w_Status x = ''online'' \<and> w_CurrentLoad x < w_MaxConcurrency x) \<and>
      sorted (map w_ID xs)"
    using lists_filter(2) [OF k, of _ w_ID]
    by (simp add: test_workers_def ws_ListAvailableWorkers_def ws_ListWorkers_def test_view_def
        not_le sorted_filter)
  show "\<exists>xs. run_state (ListStaleWorkers test_workers cutoff) w = (Inr xs, w) \<and>
      enumerates xs (v_workers (test_view w)) (\<lambda>x. w_Status x = ''online'' \<and> w_LastHeartbeatAt x < cutoff) \<and>
      sorted (map w_ID xs)"
    using lists_filter(1) [OF k] by (simp add: test_workers_def ws_ListStaleWorkers_def test_view_def)
qed

lemma stores_ok_task:
  assumes "stores_ok w" "t_ID t = k" "0 < k" "k < n" "ts_nextID (task_store w) \<le> n"
  shows "stores_ok (w\<lparr>task_store := (task_store w)\<lparr>ts_tasks := mput k t (tasks_of w), ts_nextID := n\<rparr>\<rparr>)"
  using assms keyed_mput_key [of t_ID "tasks_of w" t k] by (force simp: stores_ok_def)

lemma run_ts_CreateTask:
  assumes "stores_ok w"
  shows "\<exists>w' k now t'. run_state (ts_CreateTask t) w = (Inr t', w') \<and> 0 < k \<and> v_tasks (test_view w) k = None \<and>
      t' = t\<lparr>t_ID := k, t_CreatedAt := now, t_UpdatedAt := now, t_Version := 1\<rparr> \<and>
      moves test_view stores_ok w w' ((test_view w)\<lparr>v_tasks := (v_tasks (test_view w))(k \<mapsto> t')\<rparr>)"
proof -
  let ?k = "ts_nextID (task_store w)" and ?now = "clock w (readings w)"
  let ?t = "t\<lparr>t_ID := ?k, t_CreatedAt := ?now, t_UpdatedAt := ?now, t_Version := 1\<rparr>"
  let ?w = "w\<lparr>readings := Suc (readings w)\<rparr>"
  have "0 < ?k" "mget (tasks_of w) ?k = None"
    using assms by (auto simp: stores_ok_def)
  moreover have "stores_ok (?w\<lparr>task_store := (task_store ?w)\<lparr>ts_tasks := mput ?k ?t (tasks_of ?w), ts_nextID := ?k + 1\<rparr>\<rparr>)"
    using assms \<open>0 < ?k\<close> by (intro stores_ok_task) simp_all
  ultimately show ?thesis
    by - (rule exI [of _ "?w\<lparr>task_store := (task_store ?w)\<lparr>ts_tasks := mput ?k ?t (tasks_of ?w), ts_nextID := ?k + 1\<rparr>\<rparr>"], rule exI [of _ ?k], rule exI [of _ ?now], rule exI [of _ ?t],
      simp add: ts_CreateTask_def store_defs Let_def)
qed

lemma run_ts_UpdateTask:
  assumes "stores_ok w" "v_tasks (test_view w) (t_ID t) = Some cur"
  shows "\<exists>w' now t'. run_state (ts_UpdateTask t) w = (Inr t', w') \<and>
      t' = t\<lparr>t_CreatedAt := t_CreatedAt cur, t_UpdatedAt := now, t_Version := t_Version cur + 1\<rparr> \<and>
      moves test_view stores_ok w w' ((test_view w)\<lparr>v_tasks := (v_tasks (test_view w))(t_ID t \<mapsto> t')\<rparr>)"
proof -
  let ?now = "clock w (readings w)"
  let ?t = "t\<lparr>t_CreatedAt := t_CreatedAt cur, t_UpdatedAt := ?now, t_Version := t_Version cur + 1\<rparr>"
  let ?w = "w\<lparr>readings := Suc (readings w)\<rparr>"
  have k: "mget (tasks_of w) (t_ID t) = Some cur" using assms(2) by (simp add: test_view_def)
  have "stores_ok (?w\<lparr>task_store := (task_store ?w)\<lparr>ts_tasks := mput (t_ID t) ?t (tasks_of ?w)\<rparr>\<rparr>)"
    using assms(1) k keyed_mput_key [of t_ID "tasks_of w" ?t "t_ID t"] by (auto simp: stores_ok_def)
  then show ?thesis
    by - (rule exI [of _ "?w\<lparr>task_store := (task_store ?w)\<lparr>ts_tasks := mput (t_ID t) ?t (tasks_of ?w)\<rparr>\<rparr>"], rule exI [of _ ?now], rule exI [of _ ?t],
      simp add: ts_UpdateTask_def store_defs k Let_def)
qed

interpretation ts: task_repository test_view stores_ok test_tasks
proof
  fix w :: stores and k k' n tid :: int and t cur
  assume ok: "stores_ok w"
  then have kd: "keyed t_ID (tasks_of w)" by (simp add: stores_ok_def)
  note run_ts_CreateTask [OF ok, of t]
  then show "\<exists>w' k now t'. run_state (CreateTask test_tasks t) w = (Inr t', w') \<and> 0 < k \<and>
      v_tasks (test_view w) k = None \<and>
      t' = t\<lparr>t_ID := k, t_CreatedAt := now, t_UpdatedAt := now, t_Version := 1\<rparr> \<and>
      moves test_view stores_ok w w' ((test_view w)\<lparr>v_tasks := (v_tasks (test_view w))(k \<mapsto> t')\<rparr>)"
    by (simp add: test_tasks_def)
  show "\<exists>w' now t'. run_state (UpdateTask test_tasks t) w = (Inr t', w') \<and>
      t' = t\<lparr>t_CreatedAt := t_CreatedAt cur, t_UpdatedAt := now, t_Version := t_Version cur + 1\<rparr> \<and>
      moves test_view stores_ok w w' ((test_view w)\<lparr>v_tasks := (v_tasks (test_view w))(t_ID t \<mapsto> t')\<rparr>)"
    if "v_tasks (test_view w) (t_ID t) = Some cur"
    using run_ts_UpdateTask [OF ok that] by (simp add: test_tasks_def)
  show "run_state (UpdateTask test_tasks t) w = (Inl ErrTaskNotFound, w)"
    if "v_tasks (test_view w) (t_ID t) = None"
    using that by (simp add: test_tasks_def ts_UpdateTask_def test_view_def)
  show "\<exists>w'. run_state (DeleteTask test_tasks k) w = (Inr (), w') \<and>
      moves test_view stores_ok w w' ((test_view w)\<lparr>v_tasks := (v_tasks (test_view w))(k := None)\<rparr>)"
    if "v_tasks (test_view w) k = Some t"
    using that ok keyed_mdel [OF kd, of k]
    by (auto simp: test_tasks_def ts_DeleteTask_def store_defs stores_ok_def)
  show "run_state (DeleteTask test_tasks k) w = (Inl ErrTaskNotFound, w)"
    if "v_tasks (test_view w) k = None"
    using that by (simp add: test_tasks_def ts_DeleteTask_def test_view_def)
  show "run_state (GetTask test_tasks k) w =
      (case v_tasks (test_view w) k of None \<Rightarrow> Inl ErrTaskNotFound | Some t \<Rightarrow> Inr t, w)"
    by (simp add: test_tasks_def ts_GetTask_def test_view_def)
  show "\<exists>ts. run_state (ListTasks test_tasks) w = (Inr ts, w) \<and>
      enumerates ts (v_tasks (test_view w)) (\<lambda>_. True) \<and> sorted (map t_ID ts)"
    using lists_filter(4) [OF kd, of t_ID] by (simp add: test_tasks_def ts_ListTasks_def test_view_def)
  show "\<exists>ts. run_state (ListTasksByTenant test_tasks tid) w = (Inr ts, w) \<and>
      enumerates ts (v_tasks (test_view w)) (\<lambda>t. t_TenantID t = tid) \<and> sorted (map t_ID ts)"
    using lists_filter(1) [OF kd] by (simp add: test_tasks_def ts_ListTasksByTenant_def test_view_def)
  show "\<exists>w' now ts all. run_state (ListDueTasks test_tasks n) w = (Inr ts, w') \<and>
      moves test_view stores_ok w w' (test_view w) \<and> now = clock w (readings w) \<and> ts = limit_list n all \<and>
      enumerates all (v_tasks (test_view w)) (\<lambda>t. t_Status t = ''enabled'' \<and> \<not> IsZero (t_NextTriggerTime t) \<and>
        t_NextTriggerTime t \<le> now) \<and> sorted (map t_NextTriggerTime all)"
    using lists_filter(1) [OF kd, of t_NextTriggerTime "\<lambda>t. t_Status t = ''enabled'' \<and>
        \<not> IsZero (t_NextTriggerTime t) \<and> t_NextTriggerTime t \<le> clock w (readings w)"] ok
    by (auto simp: test_tasks_def ts_ListDueTasks_def moves_def not_less test_view_def)
  show "\<exists>w'. run_state (AddDependency test_tasks k k') w = (Inr (), w') \<and>
      moves test_view stores_ok w w' ((test_view w)\<lparr>v_deps := v_deps (test_view w) @ [dep_edge k k']\<rparr>)"
    if "v_tasks (test_view w) k \<noteq> None" "v_tasks (test_view w) k' \<noteq> None"
    using that ok by (auto simp: test_tasks_def ts_AddDependency_def store_defs stores_ok_def dep_edge_def)
  show "run_state (AddDependency test_tasks k k') w = (Inl ErrTaskNotFound, w)"
    if "v_tasks (test_view w) k = None \<or> v_tasks (test_view w) k' = None"
    using that by (auto simp: test_tasks_def ts_AddDependency_def test_view_def)
  show "\<exists>w'. run_state (RemoveDependency test_tasks k k') w = (Inr (), w') \<and>
      moves test_view stores_ok w w' ((test_view w)\<lparr>v_deps :=
        filter (\<lambda>d. \<not> (d_TaskID d = k \<and> d_DependsOnTaskID d = k')) (v_deps (test_view w))\<rparr>)"
    using ok by (auto simp: test_tasks_def ts_RemoveDependency_def store_defs stores_ok_def)
  show "run_state (ListDownstreamTasks test_tasks k) w = (Inr (downstream (test_view w) k), w)"
    by (simp add: test_tasks_def ts_ListDownstreamTasks_def downstream_def test_view_def)
  show "run_state (ListUpstreamDeps test_tasks k) w = (Inr (upstream (test_view w) k), w)"
    by (simp add: test_tasks_def ts_ListUpstreamDeps_def upstream_def test_view_def)
qed

lemma stores_ok_inst:
  assumes "stores_ok w" "mget (insts_of w) n = Some i" "i_ID i' = n"
    "i_ScheduleInstanceID i' = i_ScheduleInstanceID i"
  shows "stores_ok (w\<lparr>readings := r, instance_store := (instance_store w)\<lparr>is_instances := mput n i' (insts_of w)\<rparr>\<rparr>)"
proof -
  have "\<exists>j. mget (mput n i' (insts_of w)) m = Some j \<and> i_ScheduleInstanceID j = sid"
    if h: "mget (is_bySchedule (instance_store w)) sid = Some m" for sid m
  proof -
    obtain j where "mget (insts_of w) m = Some j" "i_ScheduleInstanceID j = sid"
      using assms(1) h unfolding stores_ok_def by blast
    with assms(2,4) show ?thesis by (cases "m = n") auto
  qed
  then show ?thesis
    using assms keyed_mput_key [of i_ID "insts_of w" i' n] by (simp add: stores_ok_def)
qed

lemma run_is_CreateInstance:
  assumes "stores_ok w"
  shows "\<exists>w' n now i'. run_state (is_CreateInstance i) w = (Inr i', w') \<and> 0 < n \<and> v_insts (test_view w) n = None \<and>
      i' = i\<lparr>i_ID := n, i_CreatedAt := now, i_UpdatedAt := now\<rparr> \<and>
      moves test_view stores_ok w w' ((test_view w)\<lparr>v_insts := (v_insts (test_view w))(n \<mapsto> i'),
        v_sched := (v_sched (test_view w))(i_ScheduleInstanceID i \<mapsto> n)\<rparr>)"
proof -
  let ?n = "is_nextID (instance_store w)" and ?now = "clock w (readings w)"
  let ?i = "i\<lparr>i_ID := ?n, i_CreatedAt := ?now, i_UpdatedAt := ?now\<rparr>"
  let ?w = "w\<lparr>readings := Suc (readings w), instance_store := (instance_store w)\<lparr>is_instances :=
      mput ?n ?i (insts_of w), is_bySchedule := mput (i_ScheduleInstanceID i) ?n
        (is_bySchedule (instance_store w)), is_nextID := ?n + 1\<rparr>\<rparr>"
  have n: "0 < ?n" "mget (insts_of w) ?n = None" using assms by (auto simp: stores_ok_def)
  have m: "m < ?n" if "mget (insts_of w) m = Some j" for m j using assms that by (simp add: stores_ok_def)
  have s: "\<exists>j. mget (insts_of w) m = Some j \<and> i_ScheduleInstanceID j = sid"
    if "mget (is_bySchedule (instance_store w)) sid = Some m" for sid m
    using assms that by (simp add: stores_ok_def)
  have "m \<noteq> ?n" if "mget (is_bySchedule (instance_store w)) sid = Some m" for sid m
    using s [OF that] n(2) by auto
  with s have "stores_ok ?w"
    using assms n keyed_mput_key [of i_ID "insts_of w" ?i ?n] m
    by (fastforce simp: stores_ok_def)
  with n show ?thesis
    by - (rule exI [of _ ?w], rule exI [of _ ?n], rule exI [of _ ?now], rule exI [of _ ?i],
      simp add: is_CreateInstance_def store_defs Let_def)
qed

lemma run_with_scheduled:
  assumes "stores_ok w" "v_sched (test_view w) sid = Some n" "v_insts (test_view w) n = Some i"
    and "\<And>now. i_ID (f i now) = i_ID i \<and> i_ScheduleInstanceID (f i now) = i_ScheduleInstanceID i"
  shows "\<exists>w' now. run_state (with_scheduled sid f) w = (Inr (), w') \<and>
    moves test_view stores_ok w w' ((test_view w)\<lparr>v_insts := (v_insts (test_view w))(n \<mapsto> f i now)\<rparr>)"
proof -
  let ?now = "clock w (readings w)"
  have n: "mget (insts_of w) n = Some i" "mget (is_bySchedule (instance_store w)) sid = Some n"
    using assms(2,3) by (simp_all add: test_view_def)
  then have "i_ID i = n" using assms(1) by (simp add: stores_ok_def keyed_def)
  with stores_ok_inst [OF assms(1) n(1), of "f i ?now"] assms(4) n show ?thesis
    by - (rule exI [of _ "w\<lparr>readings := Suc (readings w), instance_store :=
        (instance_store w)\<lparr>is_instances := mput n (f i ?now) (insts_of w)\<rparr>\<rparr>"], rule exI [of _ ?now],
      simp add: with_scheduled_def store_defs)
qed

lemma run_is_update:
  assumes "stores_ok w" "v_insts (test_view w) n = Some i"
  shows "\<exists>w' now. run_state (is_UpdateInstanceStatus n s) w = (Inr (), w') \<and>
      moves test_view stores_ok w w' ((test_view w)\<lparr>v_insts :=
        (v_insts (test_view w))(n \<mapsto> i\<lparr>i_Status := s, i_UpdatedAt := now\<rparr>)\<rparr>)"
    and "\<exists>w' now. run_state (is_UpdateInstanceDispatch n wid ts) w = (Inr (), w') \<and>
      moves test_view stores_ok w w' ((test_view w)\<lparr>v_insts := (v_insts (test_view w))(n \<mapsto>
        i\<lparr>i_WorkerID := wid, i_Status := ''dispatched'', i_UpdatedAt := now,
          i_DispatchTime := (case ParseRFC3339Nano ts of None \<Rightarrow> i_DispatchTime i | Some t \<Rightarrow> t)\<rparr>)\<rparr>)"
proof -
  let ?now = "clock w (readings w)"
  let ?i1 = "i\<lparr>i_Status := s, i_UpdatedAt := ?now\<rparr>"
  let ?i2 = "i\<lparr>i_WorkerID := wid, i_Status := ''dispatched'', i_UpdatedAt := ?now,
          i_DispatchTime := (case ParseRFC3339Nano ts of None \<Rightarrow> i_DispatchTime i | Some t \<Rightarrow> t)\<rparr>"
  have n: "mget (insts_of w) n = Some i" using assms(2) by (simp add: test_view_def)
  then have k: "i_ID i = n" using assms(1) by (simp add: stores_ok_def keyed_def)
  show "\<exists>w' now. run_state (is_UpdateInstanceStatus n s) w = (Inr (), w') \<and>
      moves test_view stores_ok w w' ((test_view w)\<lparr>v_insts :=
        (v_insts (test_view w))(n \<mapsto> i\<lparr>i_Status := s, i_UpdatedAt := now\<rparr>)\<rparr>)"
    using stores_ok_inst [OF assms(1) n, of ?i1] n k
    by - (rule exI [of _ "w\<lparr>readings := Suc (readings w), instance_store :=
        (instance_store w)\<lparr>is_instances := mput n ?i1 (insts_of w)\<rparr>\<rparr>"], rule exI [of _ ?now],
      simp add: is_UpdateInstanceStatus_def store_defs)
  have e: "(if ts \<noteq> [] then
             (case ParseRFC3339Nano ts of None \<Rightarrow> j | Some parsed \<Rightarrow> j\<lparr>i_DispatchTime := parsed\<rparr>)
           else j) = j\<lparr>i_DispatchTime := (case ParseRFC3339Nano ts of None \<Rightarrow> i_DispatchTime j | Some t \<Rightarrow> t)\<rparr>"
    for j by (cases "ts = []") (simp_all add: ParseRFC3339Nano_def take_num_def split: option.splits)
  show "\<exists>w' now. run_state (is_UpdateInstanceDispatch n wid ts) w = (Inr (), w') \<and>
      moves test_view stores_ok w w' ((test_view w)\<lparr>v_insts := (v_insts (test_view w))(n \<mapsto>
        i\<lparr>i_WorkerID := wid, i_Status := ''dispatched'', i_UpdatedAt := now,
          i_DispatchTime := (case ParseRFC3339Nano ts of None \<Rightarrow> i_DispatchTime i | Some t \<Rightarrow> t)\<rparr>)\<rparr>)"
    unfolding is_UpdateInstanceDispatch_def e Let_def
    using stores_ok_inst [OF assms(1) n, of ?i2] n k
    by - (rule exI [of _ "w\<lparr>readings := Suc (readings w), instance_store :=
        (instance_store w)\<lparr>is_instances := mput n ?i2 (insts_of w)\<rparr>\<rparr>"], rule exI [of _ ?now],
      cases "ParseRFC3339Nano ts"; simp add: store_defs)
qed

interpretation ts: instance_repository test_view stores_ok test_instances
proof
  fix w :: stores and k n m :: int and i j s sid wid t code msg js cutoff st fi since till
  assume ok: "stores_ok w"
  then have kd: "keyed i_ID (insts_of w)" by (simp add: stores_ok_def)
  note r = test_instances_def test_view_def
  show "\<exists>w' n now i'. run_state (CreateInstance test_instances i) w = (Inr i', w') \<and> 0 < n \<and>
      v_insts (test_view w) n = None \<and> i' = i\<lparr>i_ID := n, i_CreatedAt := now, i_UpdatedAt := now\<rparr> \<and>
      moves test_view stores_ok w w' ((test_view w)\<lparr>v_insts := (v_insts (test_view w))(n \<mapsto> i'),
        v_sched := (v_sched (test_view w))(i_ScheduleInstanceID i \<mapsto> n)\<rparr>)"
    using run_is_CreateInstance [OF ok, of i] by (simp add: test_instances_def)
  show "run_state (GetInstance test_instances n) w =
      (case v_insts (test_view w) n of None \<Rightarrow> Inl ErrTaskInstanceNotFound | Some i \<Rightarrow> Inr i, w)"
    by (simp add: r is_GetInstance_def)
  show "run_state (GetInstanceByScheduleID test_instances sid) w =
      (case v_inst (test_view w) sid of None \<Rightarrow> Inl ErrTaskInstanceNotFound | Some i \<Rightarrow> Inr i, w)"
    by (auto simp: r is_GetInstanceByScheduleID_def v_inst_def split: option.splits)
  show "\<exists>xs. run_state (ListInstances test_instances) w = (Inr xs, w) \<and>
      enumerates xs (v_insts (test_view w)) (\<lambda>_. True) \<and> sorted (map i_ID xs)"
    using lists_filter(4) [OF kd, of i_ID] by (simp add: r is_ListInstances_def)
  show "\<exists>xs. run_state (ListInstancesByTaskID test_instances k) w = (Inr xs, w) \<and>
      enumerates xs (v_insts (test_view w)) (\<lambda>i. i_TaskID i = k) \<and> sorted (map i_CreatedAt xs)"
    using lists_filter(1) [OF kd] by (simp add: r is_ListInstancesByTaskID_def)
  show "\<exists>xs all. run_state (ListInstancesByStatus test_instances s n) w = (Inr xs, w) \<and>
      xs = limit_list n all \<and> enumerates all (v_insts (test_view w)) (\<lambda>i. i_Status i = s) \<and>
      sorted (map i_CreatedAt all)"
    using lists_filter(1) [OF kd, of i_CreatedAt "\<lambda>i. i_Status i = s"] sorted_sort_key
    by (fastforce simp: r is_ListInstancesByStatus_def)
  show "\<exists>xs all. run_state (ListInstancesByTimeRange test_instances since till n m) w = (Inr xs, w) \<and>
      xs = limit_list n (if 0 < m \<and> m < int (length all) then drop (nat m) all else all) \<and>
      enumerates all (v_insts (test_view w)) (\<lambda>i. since \<le> i_CreatedAt i \<and> i_CreatedAt i \<le> till) \<and>
      sorted (map (\<lambda>i. - i_CreatedAt i) all)"
  proof -
    let ?P = "\<lambda>i. since \<le> i_CreatedAt i \<and> i_CreatedAt i \<le> till"
    let ?all = "sort_by (\<lambda>i. - i_CreatedAt i) (filter ?P (map snd (insts_of w)))"
    have "run_state (ListInstancesByTimeRange test_instances since till n m) w =
        (Inr (limit_list n (if 0 < m \<and> m < int (length ?all) then drop (nat m) ?all else ?all)), w)"
      by (simp add: test_instances_def is_ListInstancesByTimeRange_def Let_def not_less)
    moreover have "enumerates ?all (v_insts (test_view w)) ?P"
      using lists_filter(1) [OF kd, of "\<lambda>i. - i_CreatedAt i" ?P] by (simp add: test_view_def)
    ultimately show ?thesis using sorted_sort_key by blast
  qed
  show "\<exists>xs all. run_state (ListDueRetryInstances test_instances cutoff n) w = (Inr xs, w) \<and>
      xs = limit_list n all \<and> enumerates all (v_insts (test_view w)) (\<lambda>i. i_Status i = ''retry_waiting'' \<and>
        (IsZero (i_NextRetryTime i) \<or> i_NextRetryTime i \<le> cutoff)) \<and> sorted (map i_CreatedAt all)"
    using lists_filter(1) [OF kd, of i_CreatedAt "\<lambda>i. i_Status i = ''retry_waiting'' \<and>
        (IsZero (i_NextRetryTime i) \<or> i_NextRetryTime i \<le> cutoff)"]
      sorted_sort_key [of i_CreatedAt "filter (\<lambda>i. i_Status i = ''retry_waiting'' \<and>
        (IsZero (i_NextRetryTime i) \<or> i_NextRetryTime i \<le> cutoff)) (map snd (insts_of w))"]
    by (auto simp: r is_ListDueRetryInstances_def not_less)
  show "\<exists>all. run_state (CountInstancesByStatus test_instances s) w = (Inr (int (length all)), w) \<and>
      enumerates all (v_insts (test_view w)) (\<lambda>i. i_Status i = s)"
    using lists_filter(3) [OF kd, of "\<lambda>i. i_Status i = s"]
    by - (rule exI [of _ "filter (\<lambda>i. i_Status i = s) (map snd (insts_of w))"],
      simp add: r is_CountInstancesByStatus_def)
  show "\<exists>w' now. run_state (UpdateInstanceStatus test_instances n s) w = (Inr (), w') \<and>
      moves test_view stores_ok w w' ((test_view w)\<lparr>v_insts :=
        (v_insts (test_view w))(n \<mapsto> i\<lparr>i_Status := s, i_UpdatedAt := now\<rparr>)\<rparr>)"
    if "v_insts (test_view w) n = Some i"
    using run_is_update(1) [OF ok that] by (simp add: test_instances_def)
  show "run_state (UpdateInstanceStatus test_instances n s) w = (Inl ErrTaskInstanceNotFound, w)"
    if "v_insts (test_view w) n = None"
    using that by (simp add: r is_UpdateInstanceStatus_def)
  show "\<exists>w' now. run_state (UpdateInstanceDispatch test_instances n wid t) w = (Inr (), w') \<and>
      moves test_view stores_ok w w' ((test_view w)\<lparr>v_insts := (v_insts (test_view w))(n \<mapsto>
        i\<lparr>i_WorkerID := wid, i_Status := ''dispatched'', i_UpdatedAt := now,
          i_DispatchTime := (case ParseRFC3339Nano t of None \<Rightarrow> i_DispatchTime i | Some t \<Rightarrow> t)\<rparr>)\<rparr>)"
    if "v_insts (test_view w) n = Some i"
    using run_is_update(2) [OF ok that] by (simp add: test_instances_def)
  show "run_state (UpdateInstanceDispatch test_instances n wid t) w = (Inl ErrTaskInstanceNotFound, w)"
    if "v_insts (test_view w) n = None"
    using that by (simp add: r is_UpdateInstanceDispatch_def)
  show "run_state (UpdateInstanceResult test_instances sid s code msg) w = (Inl ErrTaskInstanceNotFound, w)"
    if "v_inst (test_view w) sid = None"
    using that by (simp add: r is_UpdateInstanceResult_def with_scheduled_def v_inst_def)
  show "run_state (UpdateInstanceAnalysis test_instances sid js) w = (Inl ErrTaskInstanceNotFound, w)"
    if "v_inst (test_view w) sid = None"
    using that by (simp add: r is_UpdateInstanceAnalysis_def with_scheduled_def v_inst_def)
  assume n: "v_sched (test_view w) sid = Some n" "v_insts (test_view w) n = Some i"
  show "\<exists>w' now. run_state (UpdateInstanceResult test_instances sid s code msg) w = (Inr (), w') \<and>
      moves test_view stores_ok w w' ((test_view w)\<lparr>v_insts := (v_insts (test_view w))(n \<mapsto>
        i\<lparr>i_Status := s, i_ErrorCode := code, i_ErrorMessage := msg, i_UpdatedAt := now\<rparr>)\<rparr>)"
    using run_with_scheduled [OF ok n, of "\<lambda>inst now. inst\<lparr>i_Status := s, i_ErrorCode := code,
       i_ErrorMessage := msg, i_UpdatedAt := now\<rparr>"]
    by (simp add: test_instances_def is_UpdateInstanceResult_def)
  show "\<exists>w' now. run_state (UpdateInstanceAnalysis test_instances sid js) w = (Inr (), w') \<and>
      moves test_view stores_ok w w' ((test_view w)\<lparr>v_insts := (v_insts (test_view w))(n \<mapsto>
        i\<lparr>i_AnalysisJSON := js, i_UpdatedAt := now\<rparr>)\<rparr>)"
    using run_with_scheduled [OF ok n, of "\<lambda>inst now. inst\<lparr>i_AnalysisJSON := js, i_UpdatedAt := now\<rparr>"]
    by (simp add: test_instances_def is_UpdateInstanceAnalysis_def)
  show "\<exists>w' now. run_state (UpdateInstanceTimestamps test_instances sid st fi) w = (Inr (), w') \<and>
      moves test_view stores_ok w w' ((test_view w)\<lparr>v_insts := (v_insts (test_view w))(n \<mapsto>
        i\<lparr>i_StartedAt := (if IsZero st then i_StartedAt i else st),
          i_FinishedAt := (if IsZero fi then i_FinishedAt i else fi), i_UpdatedAt := now\<rparr>)\<rparr>)"
  proof -
    have e: "(let inst = (if \<not> IsZero st then j\<lparr>i_StartedAt := st\<rparr> else j);
           inst = (if \<not> IsZero fi then inst\<lparr>i_FinishedAt := fi\<rparr> else inst)
       in inst\<lparr>i_UpdatedAt := now\<rparr>) = j\<lparr>i_StartedAt := (if IsZero st then i_StartedAt j else st),
          i_FinishedAt := (if IsZero fi then i_FinishedAt j else fi), i_UpdatedAt := now\<rparr>" for j :: TaskInstance and now
      by simp
    show ?thesis
      using run_with_scheduled [OF ok n, of "\<lambda>j now. j\<lparr>i_StartedAt := (if IsZero st then i_StartedAt j else st),
          i_FinishedAt := (if IsZero fi then i_FinishedAt j else fi), i_UpdatedAt := now\<rparr>"]
      unfolding test_instances_def TaskInstanceRepository.simps is_UpdateInstanceTimestamps_def e by simp
  qed
qed

interpretation ts: repositories test_view stores_ok test_workers test_tasks test_instances ..

section \<open>A sample state\<close>

text \<open>
  A process with one task, one instance of it dispatched to the worker \<^verbatim>\<open>w1\<close>, and two workers; every
  network call succeeds and the clock advances by a second at each reading.
\<close>

definition sample_task :: Task where
  "sample_task = zero_Task\<lparr>t_ID := 1, t_Name := ''etl'', t_Type := ''shell'', t_Status := ''enabled'',
     t_MaxRetry := 3, t_RetryPolicy := ''fixed_interval'', t_RetryIntervalSeconds := 30, t_TenantID := 7\<rparr>"

definition sample_instance :: TaskInstance where
  "sample_instance = zero_TaskInstance\<lparr>i_ID := 1, i_TaskID := 1, i_ScheduleInstanceID := ''task-1-1'',
     i_WorkerID := ''w1'', i_Status := ''dispatched''\<rparr>"

definition sample_worker :: "string \<Rightarrow> int \<Rightarrow> WorkerNode" where
  "sample_worker s load = \<lparr>w_ID = s, w_Hostname = ''host'', w_IP = ''10.0.0.1'',
     w_CallbackURL = ''http://host'', w_GRPCAddr = ''host:9'', w_Protocol = ''http'',
     w_Status = ''online'', w_Labels = [], w_MaxConcurrency = 2, w_CurrentLoad = load,
     w_LastHeartbeatAt = 100 * second\<rparr>"

definition sample :: stores where
  "sample = \<lparr>clock = (\<lambda>n. (100 + int n) * second), readings = 0, zone = (\<lambda>_. 0),
     unicode_print = (\<lambda>_. True), url_error = (\<lambda>_. None), http_reply = (\<lambda>_. Inr (200, ''200 OK'')),
     dial_reply = (\<lambda>_. None), grpc_reply = (\<lambda>_. Inr (True, [])), sent = [], registry = NewRegistry,
     rrCounter = 0, limiter = None, pressure = None, slept = [], audited = [],
     task_store = \<lparr>ts_nextID = 2, ts_tasks = [(1, sample_task)], ts_dependencies = []\<rparr>,
     instance_store = \<lparr>is_nextID = 2, is_instances = [(1, sample_instance)],
       is_bySchedule = [(''task-1-1'', 1)]\<rparr>,
     worker_store = [(''w1'', sample_worker ''w1'' 1), (''w2'', sample_worker ''w2'' 0)],
     ai_store = NewAIAnalysisRepository\<rparr>"

lemma sample_ok [simp]: "stores_ok sample"
  by (auto simp: stores_ok_def sample_def keyed_def wf_map_def sample_task_def sample_instance_def
      sample_worker_def split: if_splits)

lemma sample_view [simp]:
  "v_tasks (test_view sample) = [1 \<mapsto> sample_task]" "v_deps (test_view sample) = []"
  "v_insts (test_view sample) = [1 \<mapsto> sample_instance]" "v_sched (test_view sample) = [''task-1-1'' \<mapsto> 1]"
  "v_workers (test_view sample) = [''w1'' \<mapsto> sample_worker ''w1'' 1, ''w2'' \<mapsto> sample_worker ''w2'' 0]"
  by (auto simp: test_view_def sample_def fun_eq_iff)

lemma sample_env [simp]:
  "rrCounter sample = 0" "limiter sample = None" "sent sample = []" "readings sample = 0"
  "clock sample n = (100 + int n) * second" "url_error sample u = None"
  "http_reply sample n = Inr (200, ''200 OK'')" "slept sample = []" "pressure sample = None" "audited sample = []"
  by (simp_all add: sample_def)

end
