(* ===== verification/Route.thy ===== *)
theory Route
  imports Teststore
begin

text \<open>
  \<^verbatim>\<open>internal/scheduler/route\<close>: the choice of a worker for a task instance, and the reservation of
  its capacity in the worker repository. The round-robin counter is part of the world; it is 64 bits
  wide, and an index that its overflow made negative panics.
\<close>

section \<open>Operations\<close>

record SelectOptions =
  so_Labels :: "(string, string) gomap"
  so_Strategy :: string

definition filterByLabels :: "WorkerNode list \<Rightarrow> (string, string) gomap \<Rightarrow> WorkerNode list" where
  "filterByLabels workers selector =
     (if length selector = 0 then workers
      else filter (\<lambda>x. MatchLabels (DecodeLabels (w_Labels x)) selector) workers)"

text \<open>The loop over \<^verbatim>\<open>workers[1:]\<close> with the best so far.\<close>

fun pickLeastLoaded_loop :: "WorkerNode \<Rightarrow> WorkerNode list \<Rightarrow> WorkerNode" where
  "pickLeastLoaded_loop best [] = best"
| "pickLeastLoaded_loop best (x # xs) =
     pickLeastLoaded_loop (if w_CurrentLoad x < w_CurrentLoad best then x else best) xs"

definition pickLeastLoaded :: "WorkerNode list \<Rightarrow> ('a, error + WorkerNode) go" where
  "pickLeastLoaded workers =
     (case workers of
        [] \<Rightarrow> raise (Panic ''index out of range'')
      | x # xs \<Rightarrow> ret (pickLeastLoaded_loop x xs))"

definition pickRoundRobin :: "WorkerNode list \<Rightarrow> ('a, error + WorkerNode) go" where
  "pickRoundRobin workers = do {
     modify (\<lambda>w. w\<lparr>rrCounter := wrap64 (rrCounter w + 1)\<rparr>);
     n \<leftarrow> reads rrCounter;
     let idx = go_mod (wrap64 (n - 1)) (int (length workers));
     if idx < 0 \<or> int (length workers) \<le> idx then raise (Panic ''index out of range'')
     else ret (workers ! nat idx) }"

definition Pick :: "'a world_scheme WorkerRepository \<Rightarrow> SelectOptions \<Rightarrow> ('a, error + WorkerNode) go" where
  "Pick W opts =
     if_ok (ListAvailableWorkers W) (\<lambda>all.
       let filtered = filterByLabels all (so_Labels opts) in
       if length filtered = 0 then raise ErrNoAvailableWorker
       else if_ok (if so_Strategy opts = ''round_robin'' then pickRoundRobin filtered
                   else pickLeastLoaded filtered) (\<lambda>best.
         let best = best\<lparr>w_CurrentLoad := w_CurrentLoad best + 1\<rparr> in
         if_ok (UpsertWorker W best) (\<lambda>_. ret best)))"

definition PickAndReserveWorker :: "'a world_scheme WorkerRepository \<Rightarrow> ('a, error + WorkerNode) go" where
  "PickAndReserveWorker W = Pick W \<lparr>so_Labels = [], so_Strategy = ''least_loaded''\<rparr>"

definition Release :: "'a world_scheme WorkerRepository \<Rightarrow> WorkerNode \<Rightarrow> ('a, error + unit) go" where
  "Release W worker =
     UpsertWorker W (if w_CurrentLoad worker > 0
       then worker\<lparr>w_CurrentLoad := w_CurrentLoad worker - 1\<rparr> else worker)"

section \<open>Facts\<close>

lemma filterByLabels_filter:
  "filterByLabels xs sel = filter (\<lambda>x. MatchLabels (DecodeLabels (w_Labels x)) sel) xs"
  by (cases sel) (simp_all add: filterByLabels_def)

lemma pickLeastLoaded_loop_min:
  "pickLeastLoaded_loop b xs \<in> insert b (set xs) \<and>
   (\<forall>x \<in> insert b (set xs). w_CurrentLoad (pickLeastLoaded_loop b xs) \<le> w_CurrentLoad x)"
  by (induction b xs rule: pickLeastLoaded_loop.induct) force+

text \<open>The counter is in the range where it never produces a negative index.\<close>

definition rr_ok :: "'a world_scheme \<Rightarrow> bool" where
  "rr_ok w \<longleftrightarrow> 0 \<le> rrCounter w \<and> rrCounter w < 2 ^ 63 - 1"

lemma run_pickRoundRobin:
  assumes "rr_ok w" "xs \<noteq> []"
  shows "run_state (pickRoundRobin xs) w =
    (Inr (xs ! nat (rrCounter w mod int (length xs))), w\<lparr>rrCounter := rrCounter w + 1\<rparr>)"
proof -
  have r: "in_int64 (rrCounter w + 1)" "in_int64 (rrCounter w)" "0 \<le> rrCounter w"
    using assms(1) by (auto simp: rr_ok_def in_int64_def)
  have "\<not> rrCounter w mod int (length xs) < 0" "\<not> int (length xs) \<le> rrCounter w mod int (length xs)"
    using assms(2) by (simp_all add: not_less not_le)
  then show ?thesis using r assms(2) by (simp add: pickRoundRobin_def Let_def del: not_less not_le)
qed

definition pick_best :: "string \<Rightarrow> WorkerNode list \<Rightarrow> ('a, error + WorkerNode) go" where
  "pick_best strategy xs =
     (if strategy = ''round_robin'' then pickRoundRobin xs else pickLeastLoaded xs)"

lemma run_pick_best:
  assumes "rr_ok w" "xs \<noteq> []"
  obtains x c where "run_state (pick_best s xs) w = (Inr x, w\<lparr>rrCounter := c\<rparr>)" "x \<in> set xs"
    "s \<noteq> ''round_robin'' \<Longrightarrow> \<forall>y \<in> set xs. w_CurrentLoad x \<le> w_CurrentLoad y"
    "s = ''round_robin'' \<Longrightarrow> x = xs ! nat (rrCounter w mod int (length xs)) \<and> c = rrCounter w + 1"
proof (cases "s = ''round_robin''")
  case True
  have "nat (rrCounter w mod int (length xs)) < length xs"
    using assms by (simp add: nat_less_iff)
  with True assms that show ?thesis by (simp add: pick_best_def run_pickRoundRobin)
next
  case False
  obtain y ys where y: "xs = y # ys" using assms(2) by (cases xs) auto
  have w: "w\<lparr>rrCounter := rrCounter w\<rparr> = w" by simp
  from False that [of "pickLeastLoaded_loop y ys" "rrCounter w"] pickLeastLoaded_loop_min [of y ys] y
  show ?thesis by (simp add: pick_best_def pickLeastLoaded_def)
qed

lemma pick_best_safe:
  assumes "xs \<noteq> []"
  shows "wp (pick_best s xs) (\<lambda>r w'. (\<exists>c. w' = w\<lparr>rrCounter := c\<rparr>) \<and> (\<forall>x. r = Inr x \<longrightarrow> x \<in> set xs)) w"
proof (cases "s = ''round_robin''")
  case True
  then show ?thesis by (auto simp: pick_best_def pickRoundRobin_def wps Let_def)
next
  case False
  obtain y ys where "xs = y # ys" using assms by (cases xs) auto
  moreover have "w = w\<lparr>rrCounter := rrCounter w\<rparr>" by simp
  ultimately show ?thesis
    using False pickLeastLoaded_loop_min [of y ys]
    by (auto simp: pick_best_def pickLeastLoaded_def wps intro: exI [of _ "rrCounter w"])
qed

text \<open>Which workers a selection may return.\<close>

definition eligible :: "view \<Rightarrow> (string, string) gomap \<Rightarrow> WorkerNode set" where
  "eligible v sel = {x \<in> ran (v_workers v). w_Status x = ''online'' \<and>
     w_CurrentLoad x < w_MaxConcurrency x \<and> MatchLabels (DecodeLabels (w_Labels x)) sel}"

definition reserved :: "WorkerNode \<Rightarrow> WorkerNode" where
  "reserved x = x\<lparr>w_CurrentLoad := w_CurrentLoad x + 1\<rparr>"

text \<open>The loads by worker, and the state in which no worker has more than it may run.\<close>

definition loads :: "view \<Rightarrow> string \<Rightarrow> int option" where
  "loads v s = map_option w_CurrentLoad (v_workers v s)"

definition within_capacity :: "view \<Rightarrow> bool" where
  "within_capacity v \<longleftrightarrow> (\<forall>s x. v_workers v s = Some x \<longrightarrow> w_CurrentLoad x \<le> w_MaxConcurrency x)"

lemma loads_upd: "loads (v\<lparr>v_workers := (v_workers v)(k \<mapsto> x)\<rparr>) = (loads v)(k \<mapsto> w_CurrentLoad x)"
  by (rule ext) (simp add: loads_def)

lemma loads_same [simp]:
  "loads (v\<lparr>v_tasks := a\<rparr>) = loads v" "loads (v\<lparr>v_deps := b\<rparr>) = loads v"
  "loads (v\<lparr>v_insts := c\<rparr>) = loads v" "loads (v\<lparr>v_sched := d\<rparr>) = loads v"
  by (rule ext; simp add: loads_def)+

lemma reserved_sel [simp]:
  "w_ID (reserved x) = w_ID x" "w_CurrentLoad (reserved x) = w_CurrentLoad x + 1"
  "w_MaxConcurrency (reserved x) = w_MaxConcurrency x"
  by (simp_all add: reserved_def)

lemma within_capacity_reserved:
  "within_capacity v \<Longrightarrow> x \<in> eligible v sel \<Longrightarrow>
     within_capacity (v\<lparr>v_workers := (v_workers v)(k \<mapsto> (reserved x)\<lparr>w_LastHeartbeatAt := hb\<rparr>)\<rparr>)"
  by (auto simp: within_capacity_def eligible_def)

lemma env_rrCounter: "env (w\<lparr>rrCounter := c\<rparr>) = (env w)\<lparr>rrCounter := c\<rparr>"
  by (simp add: env_def world.defs)

context worker_repository
begin

lemma Pick_none:
  assumes "ok w" "eligible (vw w) (so_Labels opts) = {}"
  shows "run_state (Pick W opts) w = (Inl ErrNoAvailableWorker, w)"
proof -
  from list_available [OF assms(1)] obtain xs where
    xs: "run_state (ListAvailableWorkers W) w = (Inr xs, w)"
      "enumerates xs (v_workers (vw w)) (\<lambda>x. w_Status x = ''online'' \<and> w_CurrentLoad x < w_MaxConcurrency x)"
    by blast
  then have "filterByLabels xs (so_Labels opts) = []"
    using assms(2) by (auto simp: filterByLabels_filter filter_empty_conv enumerates_def eligible_def)
  with xs(1) show ?thesis by (simp add: Pick_def)
qed

lemma Pick_some:
  assumes "ok w" "rr_ok w" "eligible (vw w) (so_Labels opts) \<noteq> {}"
  shows "\<exists>x w' hb c. x \<in> eligible (vw w) (so_Labels opts)
    \<and> run_state (Pick W opts) w = (Inr (reserved x), w')
    \<and> beat w x hb
    \<and> vw w' = (vw w)\<lparr>v_workers := (v_workers (vw w))(w_ID x \<mapsto> (reserved x)\<lparr>w_LastHeartbeatAt := hb\<rparr>)\<rparr>
    \<and> ok w' \<and> env w' = (env w)\<lparr>rrCounter := c\<rparr>
    \<and> (so_Strategy opts \<noteq> ''round_robin'' \<longrightarrow>
        (\<forall>y \<in> eligible (vw w) (so_Labels opts). w_CurrentLoad x \<le> w_CurrentLoad y))"
proof -
  from list_available [OF assms(1)] obtain xs where
    xs: "run_state (ListAvailableWorkers W) w = (Inr xs, w)"
      "enumerates xs (v_workers (vw w)) (\<lambda>x. w_Status x = ''online'' \<and> w_CurrentLoad x < w_MaxConcurrency x)"
    by blast
  let ?ys = "filterByLabels xs (so_Labels opts)"
  have ys: "set ?ys = eligible (vw w) (so_Labels opts)"
    using xs(2) by (auto simp: filterByLabels_filter enumerates_def eligible_def)
  with assms(3) have ne: "?ys \<noteq> []" by auto
  obtain x c where x: "run_state (pick_best (so_Strategy opts) ?ys) w = (Inr x, w\<lparr>rrCounter := c\<rparr>)"
      "x \<in> set ?ys"
      "so_Strategy opts \<noteq> ''round_robin'' \<Longrightarrow> \<forall>y \<in> set ?ys. w_CurrentLoad x \<le> w_CurrentLoad y"
    using run_pick_best [OF assms(2) ne] by metis
  let ?w = "w\<lparr>rrCounter := c\<rparr>"
  have "ok ?w" using assms(1) by simp
  from upsert [OF this, of "reserved x"] obtain w' hb where
    u: "run_state (UpsertWorker W (reserved x)) ?w = (Inr (), w')"
       "beat w x hb"
       "moves vw ok ?w w' ((vw w)\<lparr>v_workers := (v_workers (vw w))(w_ID x \<mapsto> (reserved x)\<lparr>w_LastHeartbeatAt := hb\<rparr>)\<rparr>)"
    by (auto simp: reserved_def)
  have "run_state (Pick W opts) w = (Inr (reserved x), w')"
    using xs(1) x(1) u(1) ne by (simp add: Pick_def pick_best_def reserved_def Let_def split: if_splits)
  with x ys u show ?thesis
    by (intro exI [of _ x] exI [of _ w'] exI [of _ hb] exI [of _ c])
      (auto simp: moves_def env_rrCounter)
qed

lemma Release_run:
  assumes "ok w"
  shows "\<exists>w' hb. run_state (Release W x) w = (Inr (), w') \<and>
    beat w x hb \<and>
    moves vw ok w w' ((vw w)\<lparr>v_workers := (v_workers (vw w))(w_ID x \<mapsto>
      x\<lparr>w_CurrentLoad := (if w_CurrentLoad x > 0 then w_CurrentLoad x - 1 else w_CurrentLoad x),
        w_LastHeartbeatAt := hb\<rparr>)\<rparr>)"
  using upsert [OF assms, of "x\<lparr>w_CurrentLoad := w_CurrentLoad x - 1\<rparr>"] upsert [OF assms, of x]
  by (cases "w_CurrentLoad x > 0") (simp_all add: Release_def)

text \<open>
  Without a bound on the counter a selection may also end in the panic of an index out of range;
  then the stores are as they were.
\<close>

lemma wp_Pick:
  assumes "ok w"
    and none: "\<And>err w' c. ok w' \<Longrightarrow> vw w' = vw w \<Longrightarrow> env w' = (env w)\<lparr>rrCounter := c\<rparr> \<Longrightarrow>
      (rr_ok w \<Longrightarrow> err = ErrNoAvailableWorker \<and> w' = w) \<Longrightarrow> Q (Inl err) w'"
    and some: "\<And>x w' hb c. x \<in> eligible (vw w) (so_Labels opts) \<Longrightarrow> beat w x hb \<Longrightarrow> ok w' \<Longrightarrow>
      env w' = (env w)\<lparr>rrCounter := c\<rparr> \<Longrightarrow>
      vw w' = (vw w)\<lparr>v_workers := (v_workers (vw w))(w_ID x \<mapsto> (reserved x)\<lparr>w_LastHeartbeatAt := hb\<rparr>)\<rparr> \<Longrightarrow>
      Q (Inr (reserved x)) w'"
  shows "wp (Pick W opts) Q w"
proof (cases "eligible (vw w) (so_Labels opts) = {}")
  case True
  have "env w = (env w)\<lparr>rrCounter := rrCounter w\<rparr>" by (simp add: env_def world.defs)
  then have "Q (Inl ErrNoAvailableWorker) w" using none [OF assms(1)] by blast
  then show ?thesis by (simp add: wp_run [OF Pick_none [OF assms(1) True]])
next
  case ne: False
  show ?thesis
  proof (cases "rr_ok w")
    case True
    from Pick_some [OF assms(1) True ne] show ?thesis using some unfolding wp_iff by blast
  next
    case False
    from list_available [OF assms(1)] obtain xs where
      xs: "run_state (ListAvailableWorkers W) w = (Inr xs, w)"
        "enumerates xs (v_workers (vw w)) (\<lambda>x. w_Status x = ''online'' \<and> w_CurrentLoad x < w_MaxConcurrency x)"
      by blast
    let ?ys = "filterByLabels xs (so_Labels opts)"
    have ys: "set ?ys = eligible (vw w) (so_Labels opts)"
      using xs(2) by (auto simp: filterByLabels_filter enumerates_def eligible_def)
    with ne have nil: "?ys \<noteq> []" by auto
    have "wp (pick_best (so_Strategy opts) ?ys) (\<lambda>r w'. (\<exists>c. w' = w\<lparr>rrCounter := c\<rparr>) \<and>
        (\<forall>x. r = Inr x \<longrightarrow> x \<in> set ?ys)) w"
      by (rule pick_best_safe [OF nil])
    then have "wp (pick_best (so_Strategy opts) ?ys) (\<lambda>r. case r of Inl err \<Rightarrow> Q (Inl err)
        | Inr x \<Rightarrow> wp (if_ok (UpsertWorker W (reserved x)) (\<lambda>_. ret (reserved x))) Q) w"
    proof (rule wp_mono)
      fix r :: "error + WorkerNode" and w'
      assume "(\<exists>c. w' = w\<lparr>rrCounter := c\<rparr>) \<and> (\<forall>x. r = Inr x \<longrightarrow> x \<in> set ?ys)"
      then obtain c where c: "w' = w\<lparr>rrCounter := c\<rparr>" "\<And>x. r = Inr x \<Longrightarrow> x \<in> set ?ys" by blast
      show "(case r of Inl err \<Rightarrow> Q (Inl err)
        | Inr x \<Rightarrow> wp (if_ok (UpsertWorker W (reserved x)) (\<lambda>_. ret (reserved x))) Q) w'"
      proof (cases r)
        case (Inl err)
        have "Q (Inl err) w'"
          using assms(1) False by (intro none [of _ c]) (simp_all add: c env_rrCounter)
        then show ?thesis using Inl by simp
      next
        case (Inr x)
        with c(2) have "wp (if_ok (UpsertWorker W (reserved x)) (\<lambda>_. ret (reserved x))) Q w'"
          unfolding wp_if_ok
          using assms(1) by (intro wp_upsert)
            (auto simp: c(1) wps ys env_rrCounter reserved_def intro!: some [unfolded reserved_def])
        then show ?thesis using Inr by simp
      qed
    qed
    then show ?thesis
      using xs(1) nil
      by (simp add: Pick_def wp_if_ok wp_run [OF xs(1)] pick_best_def [symmetric] reserved_def [symmetric] Let_def)
  qed
qed

lemma wp_Release:
  assumes "ok w"
    and "\<And>w' hb. beat w x hb \<Longrightarrow> ok w' \<Longrightarrow> env w' = env w \<Longrightarrow>
      vw w' = (vw w)\<lparr>v_workers := (v_workers (vw w))(w_ID x \<mapsto>
        x\<lparr>w_CurrentLoad := (if w_CurrentLoad x > 0 then w_CurrentLoad x - 1 else w_CurrentLoad x),
          w_LastHeartbeatAt := hb\<rparr>)\<rparr> \<Longrightarrow> Q (Inr ()) w'"
  shows "wp (Release W x) Q w"
  using Release_run [OF assms(1), of x] assms(2) unfolding wp_iff moves_def by blast

end

text \<open>Successive round-robin picks from the same list.\<close>

fun rr_picks :: "nat \<Rightarrow> WorkerNode list \<Rightarrow> ('a, (error + WorkerNode) list) go" where
  "rr_picks 0 xs = State_Monad.return []"
| "rr_picks (Suc n) xs = do { x \<leftarrow> pickRoundRobin xs; ys \<leftarrow> rr_picks n xs; State_Monad.return (x # ys) }"

lemma run_rr_picks:
  assumes "xs \<noteq> []" "0 \<le> rrCounter w" "rrCounter w + int n < 2 ^ 63"
  shows "fst (run_state (rr_picks n xs) w) =
    map (\<lambda>k. Inr (xs ! nat ((rrCounter w + int k) mod int (length xs)))) [0..<n]"
  using assms(2,3)
proof (induction n arbitrary: w)
  case (Suc n)
  let ?w = "w\<lparr>rrCounter := rrCounter w + 1\<rparr>"
  have "rr_ok w" using Suc.prems by (simp add: rr_ok_def)
  note p = run_pickRoundRobin [OF this assms(1)]
  have "[0..<Suc n] = 0 # map Suc [0..<n]" by (simp only: upt_conv_Cons map_Suc_upt)
  then show ?case
    using Suc.IH [of ?w] Suc.prems
    by (cases "run_state (rr_picks n xs) ?w") (simp add: p add.assoc del: upt_Suc)
qed simp

lemma rotation_perm:
  assumes "xs \<noteq> []" "0 \<le> c"
  shows "mset (map (\<lambda>k. xs ! nat ((c + int k) mod int (length xs))) [0..<length xs]) = mset xs"
proof -
  let ?n = "length xs" and ?r = "nat c mod length xs"
  have "nat ((c + int k) mod int ?n) = (?r + k) mod ?n" for k
  proof -
    have "(c + int k) mod int ?n = int ((nat c + k) mod ?n)" using assms(2) by (simp add: of_nat_mod)
    then show ?thesis by (simp add: mod_add_left_eq)
  qed
  then have "map (\<lambda>k. xs ! nat ((c + int k) mod int ?n)) [0..<?n] = rotate ?r xs"
    by (intro nth_equalityI) (simp_all add: nth_rotate add.commute)
  then show ?thesis by (simp add: mset_rotate)
qed

section \<open>Properties\<close>

text \<open>
  C12. When some online worker below its limit matches the labels of a task, \<^verbatim>\<open>Pick\<close> succeeds: it returns
  such a worker with one unit of capacity reserved, changes the load of that worker alone, never
  takes a worker over its limit, and outside round robin chooses a least loaded one.
\<close>

theorem Pick_reserves:
  assumes "stores_ok w" "rr_ok w" "eligible (test_view w) (so_Labels opts) \<noteq> {}"
  shows "\<exists>x w'. run_state (Pick test_workers opts) w = (Inr (reserved x), w') \<and> stores_ok w' \<and>
    x \<in> eligible (test_view w) (so_Labels opts) \<and>
    loads (test_view w') = (loads (test_view w))(w_ID x \<mapsto> w_CurrentLoad x + 1) \<and>
    (within_capacity (test_view w) \<longrightarrow> within_capacity (test_view w')) \<and>
    (so_Strategy opts \<noteq> ''round_robin'' \<longrightarrow>
       (\<forall>y \<in> eligible (test_view w) (so_Labels opts). w_CurrentLoad x \<le> w_CurrentLoad y))"
proof -
  from ts.Pick_some [OF assms] obtain x w' hb where
    x: "x \<in> eligible (test_view w) (so_Labels opts)"
      "run_state (Pick test_workers opts) w = (Inr (reserved x), w')" "stores_ok w'"
      "test_view w' = (test_view w)\<lparr>v_workers :=
         (v_workers (test_view w))(w_ID x \<mapsto> (reserved x)\<lparr>w_LastHeartbeatAt := hb\<rparr>)\<rparr>"
      "so_Strategy opts \<noteq> ''round_robin'' \<longrightarrow>
         (\<forall>y \<in> eligible (test_view w) (so_Labels opts). w_CurrentLoad x \<le> w_CurrentLoad y)"
    by blast
  show ?thesis
    using x within_capacity_reserved [OF _ x(1)]
    by (intro exI [of _ x] exI [of _ w']) (simp add: loads_upd)
qed

lemma sample_eligible [simp]: "eligible (test_view sample) [] \<noteq> {}"
proof -
  have "sample_worker ''w1'' 1 \<in> eligible (test_view sample) []"
    by (auto simp: eligible_def ran_def sample_worker_def intro!: exI [of _ "''w1''"])
  then show ?thesis by blast
qed

lemma sample_rr_ok [simp]: "rr_ok sample"
  by (simp add: rr_ok_def)

theorem Pick_reserves_witness:
  "\<exists>x w'. run_state (Pick test_workers \<lparr>so_Labels = [], so_Strategy = []\<rparr>) sample = (Inr (reserved x), w') \<and>
    (\<forall>y \<in> eligible (test_view sample) []. w_CurrentLoad x \<le> w_CurrentLoad y)"
  using Pick_reserves [of sample "\<lparr>so_Labels = [], so_Strategy = []\<rparr>"] by fastforce

text \<open>
  \<^verbatim>\<open>Pick\<close> fails only for lack of a worker: with no eligible worker it returns
  \<^verbatim>\<open>ErrNoAvailableWorker\<close> and leaves the world as it was, and with one it returns no error.
\<close>

theorem Pick_error:
  assumes "stores_ok w" "rr_ok w"
  shows "(\<exists>err. fst (run_state (Pick test_workers opts) w) = Inl err) \<longleftrightarrow>
      run_state (Pick test_workers opts) w = (Inl ErrNoAvailableWorker, w) \<and>
      eligible (test_view w) (so_Labels opts) = {}"
proof (cases "eligible (test_view w) (so_Labels opts) = {}")
  case True
  then show ?thesis by (simp add: ts.Pick_none [OF assms(1)])
next
  case False
  from ts.Pick_some [OF assms False] show ?thesis using False by auto
qed

theorem Pick_error_witness:
  "run_state (Pick test_workers \<lparr>so_Labels = [(''gpu'', ''a100'')], so_Strategy = []\<rparr>) sample
     = (Inl ErrNoAvailableWorker, sample)"
proof -
  let ?o = "\<lparr>so_Labels = [(''gpu'', ''a100'')], so_Strategy = []\<rparr>"
  have "fst (run_state (Pick test_workers ?o) sample) = Inl ErrNoAvailableWorker"
    by code_simp
  then show ?thesis using Pick_error [of sample ?o] by auto
qed

text \<open>
  \<^verbatim>\<open>Release\<close> undoes the reservation of \<^verbatim>\<open>Pick\<close>: after both, every worker has the load it had before,
  whatever else happened to the world outside the worker store in between.
\<close>

theorem Pick_Release:
  assumes "stores_ok w" "rr_ok w" "\<forall>s l. loads (test_view w) s = Some l \<longrightarrow> 0 \<le> l"
    "run_state (Pick test_workers opts) w = (Inr x, w1)" "stores_ok w2" "test_view w2 = test_view w1"
  shows "\<exists>w3. run_state (Release test_workers x) w2 = (Inr (), w3) \<and> stores_ok w3 \<and>
    loads (test_view w3) = loads (test_view w)"
proof -
  from assms(4) have "eligible (test_view w) (so_Labels opts) \<noteq> {}"
    using ts.Pick_none [OF assms(1), of opts] by auto
  from ts.Pick_some [OF assms(1,2) this] assms(4) obtain y hb where
    y: "y \<in> eligible (test_view w) (so_Labels opts)" "x = reserved y"
      "test_view w1 = (test_view w)\<lparr>v_workers :=
         (v_workers (test_view w))(w_ID y \<mapsto> (reserved y)\<lparr>w_LastHeartbeatAt := hb\<rparr>)\<rparr>"
    by auto
  from y(1) obtain s where "v_workers (test_view w) s = Some y" by (auto simp: eligible_def ran_def)
  then have l: "loads (test_view w) (w_ID y) = Some (w_CurrentLoad y)"
    using ts.worker_id [OF assms(1)] by (auto simp: loads_def)
  with assms(3) have "0 \<le> w_CurrentLoad y" by blast
  with ts.Release_run [OF assms(5), of x] l show ?thesis
    by (fastforce simp: moves_def assms(6) y(2,3) loads_upd fun_upd_idem)
qed

theorem Pick_Release_witness:
  "\<exists>x w1 w3. run_state (Pick test_workers \<lparr>so_Labels = [], so_Strategy = []\<rparr>) sample = (Inr x, w1) \<and>
    run_state (Release test_workers x) w1 = (Inr (), w3) \<and> loads (test_view w3) = loads (test_view sample)"
proof -
  let ?o = "\<lparr>so_Labels = [], so_Strategy = []\<rparr>"
  have "eligible (test_view sample) (so_Labels ?o) \<noteq> {}" by simp
  from ts.Pick_some [OF sample_ok sample_rr_ok this] obtain x w1 where
    p: "run_state (Pick test_workers ?o) sample = (Inr x, w1)" "stores_ok w1" by blast
  have "\<forall>s l. loads (test_view sample) s = Some l \<longrightarrow> 0 \<le> l"
    by (auto simp: loads_def sample_worker_def)
  from Pick_Release [OF sample_ok sample_rr_ok this p(1) p(2) refl] p(1) show ?thesis by blast
qed

text \<open>
  Round robin is fair: as many successive selections from a list of workers as it is long choose
  each of them exactly once, wherever the counter stands.
\<close>

theorem round_robin_fair:
  assumes "xs \<noteq> []" "0 \<le> rrCounter w" "rrCounter w + int (length xs) < 2 ^ 63"
  shows "mset (fst (run_state (rr_picks (length xs) xs) w)) = mset (map Inr xs)"
proof -
  have "mset (fst (run_state (rr_picks (length xs) xs) w)) =
      image_mset Inr (mset (map (\<lambda>k. xs ! nat ((rrCounter w + int k) mod int (length xs))) [0..<length xs]))"
    by (simp add: run_rr_picks [OF assms] image_mset.compositionality comp_def)
  then show ?thesis by (simp only: rotation_perm [OF assms(1,2)] mset_map [of Inr xs])
qed

theorem round_robin_fair_witness:
  "mset (fst (run_state (rr_picks 2 [sample_worker ''a'' 0, sample_worker ''b'' 5]) sample)) =
   {#Inr (sample_worker ''a'' 0), Inr (sample_worker ''b'' 5)#}"
  using round_robin_fair [of "[sample_worker ''a'' 0, sample_worker ''b'' 5]" sample] by (simp add: numeral_2_eq_2)

end
