(* ===== verification/WorkerService.thy ===== *)
theory WorkerService
  imports Route
begin

text \<open>
  \<^verbatim>\<open>internal/api/service/worker_service.go\<close> and \<^verbatim>\<open>internal/scheduler/health\<close>: registration and
  heartbeats of workers, and the eviction of those that fell silent. The service relies on the
  contract of the worker repository only.
\<close>

section \<open>Operations\<close>

record WorkerRegistrationRequest =
  wr_WorkerID :: string
  wr_Hostname :: string
  wr_IP :: string
  wr_CallbackURL :: string
  wr_GRPCAddr :: string
  wr_Protocol :: string
  wr_MaxConcurrency :: int
  wr_Labels :: "(string, string) gomap"

record WorkerHeartbeatRequest =
  hr_WorkerID :: string
  hr_CurrentLoad :: int
  hr_RunningTasks :: int
  hr_ReportUnixMilli :: int

definition defaultProtocol :: "string \<Rightarrow> string" where
  "defaultProtocol p = (if EqualFold (TrimSpace p) ''grpc'' then ''grpc'' else ''http'')"

definition heartbeatTime :: "int \<Rightarrow> ('a, time) go" where
  "heartbeatTime unixMilli =
     (if unixMilli \<le> 0 then time_now else State_Monad.return (unixMilli * millisecond))"

definition RegisterWorker ::
  "'a world_scheme WorkerRepository \<Rightarrow> WorkerRegistrationRequest \<Rightarrow> ('a, error + WorkerNode) go" where
  "RegisterWorker W req =
     (if TrimSpace (wr_WorkerID req) = [] then raise ErrWorkerIDRequired
      else if TrimSpace (wr_Hostname req) = [] then raise ErrWorkerHostRequired
      else do {
        let maxc = (if wr_MaxConcurrency req \<le> 0 then 100 else wr_MaxConcurrency req);
        now \<leftarrow> time_now;
        let worker = \<lparr>w_ID = wr_WorkerID req, w_Hostname = wr_Hostname req, w_IP = wr_IP req,
          w_CallbackURL = wr_CallbackURL req, w_GRPCAddr = wr_GRPCAddr req,
          w_Protocol = defaultProtocol (wr_Protocol req), w_Status = ''online'',
          w_Labels = EncodeLabels (wr_Labels req), w_MaxConcurrency = maxc, w_CurrentLoad = 0,
          w_LastHeartbeatAt = now\<rparr>;
        if_ok (UpsertWorker W worker) (\<lambda>_. GetWorker W (wr_WorkerID req)) })"

definition Heartbeat ::
  "'a world_scheme WorkerRepository \<Rightarrow> WorkerHeartbeatRequest \<Rightarrow> ('a, error + WorkerNode) go" where
  "Heartbeat W req =
     (if TrimSpace (hr_WorkerID req) = [] then raise ErrWorkerIDRequired
      else if_ok (GetWorker W (hr_WorkerID req)) (\<lambda>worker. do {
        let worker = worker\<lparr>w_Status := ''online'', w_CurrentLoad := hr_CurrentLoad req\<rparr>;
        let worker = (if hr_RunningTasks req > w_CurrentLoad worker
          then worker\<lparr>w_CurrentLoad := hr_RunningTasks req\<rparr> else worker);
        hb \<leftarrow> heartbeatTime (hr_ReportUnixMilli req);
        let worker = worker\<lparr>w_LastHeartbeatAt := hb\<rparr>;
        if_ok (UpsertWorker W worker) (\<lambda>_. GetWorker W (hr_WorkerID req)) }))"

definition WorkerService_GetWorker ::
  "'a world_scheme WorkerRepository \<Rightarrow> string \<Rightarrow> ('a, error + WorkerNode) go" where
  "WorkerService_GetWorker W workerID = GetWorker W workerID"

definition WorkerService_ListWorkers ::
  "'a world_scheme WorkerRepository \<Rightarrow> ('a, error + WorkerNode list) go" where
  "WorkerService_ListWorkers W = ListWorkers W"

text \<open>The loop returns the number evicted so far with the error that ended it, if any.\<close>

fun evict_loop ::
  "'a world_scheme WorkerRepository \<Rightarrow> WorkerNode list \<Rightarrow> int \<Rightarrow> ('a, int \<times> error option) go" where
  "evict_loop W [] n = State_Monad.return (n, None)"
| "evict_loop W (x # xs) n = do {
     r \<leftarrow> UpsertWorker W (x\<lparr>w_Status := ''offline'', w_CurrentLoad := 0\<rparr>);
     case r of
       Inl err \<Rightarrow> State_Monad.return (n, Some err)
     | Inr _ \<Rightarrow> evict_loop W xs (n + 1) }"

definition EvictStaleWorkers ::
  "'a world_scheme WorkerRepository \<Rightarrow> duration \<Rightarrow> ('a, int \<times> error option) go" where
  "EvictStaleWorkers W timeout = do {
     now \<leftarrow> time_now;
     let cutoff = now - timeout;
     stale \<leftarrow> ListStaleWorkers W cutoff;
     case stale of
       Inl err \<Rightarrow> State_Monad.return (0, Some err)
     | Inr xs \<Rightarrow> evict_loop W xs 0 }"

text \<open>One tick of \<^verbatim>\<open>Checker.Start\<close>; count and error are only logged.\<close>

definition Checker_tick :: "'a world_scheme WorkerRepository \<Rightarrow> duration \<Rightarrow> ('a, unit) go" where
  "Checker_tick W timeout = do { _ \<leftarrow> EvictStaleWorkers W timeout; State_Monad.return () }"

section \<open>Facts\<close>

text \<open>A worker is stale at a cutoff; what eviction does to it, up to its stored heartbeat.\<close>

definition stale_at :: "time \<Rightarrow> WorkerNode \<Rightarrow> bool" where
  "stale_at cutoff x \<longleftrightarrow> w_Status x = ''online'' \<and> w_LastHeartbeatAt x < cutoff"

definition evicted :: "WorkerNode \<Rightarrow> WorkerNode \<Rightarrow> bool" where
  "evicted x y \<longleftrightarrow> (\<exists>hb. y = x\<lparr>w_Status := ''offline'', w_CurrentLoad := 0, w_LastHeartbeatAt := hb\<rparr>)"

text \<open>The workers of a set are evicted, the others as they were.\<close>

definition evict_map ::
  "string set \<Rightarrow> (string \<Rightarrow> WorkerNode option) \<Rightarrow> (string \<Rightarrow> WorkerNode option) \<Rightarrow> bool" where
  "evict_map S m0 m \<longleftrightarrow>
     (\<forall>s. if s \<in> S then \<exists>x y. m0 s = Some x \<and> m s = Some y \<and> evicted x y else m s = m0 s)"

lemma evict_map_empty: "evict_map {} m m"
  by (simp add: evict_map_def)

lemma evict_map_insert:
  assumes "evict_map S (m0(k \<mapsto> y)) m" "m0 k = Some x" "evicted x y" "k \<notin> S"
  shows "evict_map (insert k S) m0 m"
  unfolding evict_map_def
proof
  fix s
  from assms(1) have "if s \<in> S then \<exists>x y'. (m0(k \<mapsto> y)) s = Some x \<and> m s = Some y' \<and> evicted x y'
      else m s = (m0(k \<mapsto> y)) s"
    unfolding evict_map_def by blast
  with assms(2-4) show "if s \<in> insert k S then \<exists>x y. m0 s = Some x \<and> m s = Some y \<and> evicted x y else m s = m0 s"
    by (cases "s = k") auto
qed

definition evicts_stale ::
  "time \<Rightarrow> (string \<Rightarrow> WorkerNode option) \<Rightarrow> (string \<Rightarrow> WorkerNode option) \<Rightarrow> bool" where
  "evicts_stale cutoff m0 m \<longleftrightarrow>
     (\<forall>s. case m0 s of None \<Rightarrow> m s = None
          | Some x \<Rightarrow> if stale_at cutoff x then \<exists>y. m s = Some y \<and> evicted x y else m s = Some x)"

context worker_repository
begin

lemma evict_loop_run:
  assumes "ok w" "\<forall>x \<in> set xs. v_workers (vw w) (w_ID x) = Some x" "distinct (map w_ID xs)"
  shows "\<exists>w' m. run_state (evict_loop W xs n) w = ((n + int (length xs), None), w') \<and> ok w' \<and> env w' = env w \<and>
    vw w' = (vw w)\<lparr>v_workers := m\<rparr> \<and> evict_map (w_ID ` set xs) (v_workers (vw w)) m"
  using assms
proof (induction xs arbitrary: w n)
  case Nil
  then show ?case by (intro exI [of _ w] exI [of _ "v_workers (vw w)"]) (simp add: evict_map_empty)
next
  case (Cons x xs)
  let ?x = "x\<lparr>w_Status := ''offline'', w_CurrentLoad := 0\<rparr>"
  from upsert [OF Cons.prems(1), of ?x] obtain w1 hb where
    1: "run_state (UpsertWorker W ?x) w = (Inr (), w1)" "ok w1" "env w1 = env w"
       "vw w1 = (vw w)\<lparr>v_workers := (v_workers (vw w))(w_ID x \<mapsto> ?x\<lparr>w_LastHeartbeatAt := hb\<rparr>)\<rparr>"
    by (auto simp: moves_def)
  have d: "distinct (map w_ID xs)" "w_ID x \<notin> w_ID ` set xs" "v_workers (vw w) (w_ID x) = Some x"
    using Cons.prems(2,3) by simp_all
  have e: "evicted x (?x\<lparr>w_LastHeartbeatAt := hb\<rparr>)" unfolding evicted_def by blast
  have y: "\<forall>y \<in> set xs. v_workers (vw w1) (w_ID y) = Some y"
  proof
    fix y assume y: "y \<in> set xs"
    with d(2) have "w_ID y \<noteq> w_ID x" by (metis image_eqI)
    with Cons.prems(2) y show "v_workers (vw w1) (w_ID y) = Some y" by (simp add: 1(4))
  qed
  from Cons.IH [OF 1(2) y d(1), of "n + 1"] obtain w2 m where
    2: "run_state (evict_loop W xs (n + 1)) w1 = ((n + 1 + int (length xs), None), w2)" "ok w2" "env w2 = env w1"
       "vw w2 = (vw w1)\<lparr>v_workers := m\<rparr>" "evict_map (w_ID ` set xs) (v_workers (vw w1)) m"
    by blast
  have "evict_map (w_ID ` set (x # xs)) (v_workers (vw w)) m"
    using evict_map_insert [where k = "w_ID x" and ?m0.0 = "v_workers (vw w)" and x = x
        and S = "w_ID ` set xs" and m = m] 2(5) d e by (simp add: 1(4))
  with 1 2 show ?case by (intro exI [of _ w2] exI [of _ m]) (simp add: algebra_simps)
qed

lemma EvictStaleWorkers_run:
  assumes "ok w" "cutoff = clock w (readings w) - timeout"
  shows "\<exists>w' xs. run_state (EvictStaleWorkers W timeout) w = ((int (length xs), None), w') \<and>
    ok w' \<and> env w' = env w \<and> enumerates xs (v_workers (vw w)) (stale_at cutoff) \<and>
    (\<exists>m. vw w' = (vw w)\<lparr>v_workers := m\<rparr> \<and> evicts_stale cutoff (v_workers (vw w)) m)"
proof -
  let ?w = "w\<lparr>readings := Suc (readings w)\<rparr>"
  have ok: "ok ?w" using assms(1) by simp
  have st: "(\<lambda>x. w_Status x = ''online'' \<and> w_LastHeartbeatAt x < cutoff) = stale_at cutoff"
    by (rule ext) (simp add: stale_at_def)
  from list_stale [OF ok, of cutoff, unfolded st] obtain xs where
    xs: "run_state (ListStaleWorkers W cutoff) ?w = (Inr xs, ?w)"
      "enumerates xs (v_workers (vw w)) (stale_at cutoff)"
    by auto
  have x: "v_workers (vw w) (w_ID x) = Some x \<and> stale_at cutoff x" if "x \<in> set xs" for x
    using that xs(2) worker_id [OF assms(1)] by (auto simp: enumerates_def ran_def)
  have d: "distinct (map w_ID xs)"
    using xs(2) x by (auto simp: enumerates_def distinct_map inj_on_def) (metis option.inject)
  from evict_loop_run [OF ok _ d, of 0] x obtain w' m where
    r: "run_state (evict_loop W xs 0) ?w = ((int (length xs), None), w')" "ok w'" "env w' = env w"
       "vw w' = (vw w)\<lparr>v_workers := m\<rparr>"
       "evict_map (w_ID ` set xs) (v_workers (vw w)) m"
    by auto
  have mem: "s \<in> w_ID ` set xs \<longleftrightarrow> stale_at cutoff x" if "v_workers (vw w) s = Some x" for s x
  proof
    assume "s \<in> w_ID ` set xs"
    then obtain y where "y \<in> set xs" "w_ID y = s" by blast
    with x [of y] that show "stale_at cutoff x" by simp
  next
    assume "stale_at cutoff x"
    with that xs(2) have "x \<in> set xs" by (auto simp: enumerates_def ran_def)
    with worker_id [OF assms(1) that] show "s \<in> w_ID ` set xs" by blast
  qed
  have "evicts_stale cutoff (v_workers (vw w)) m"
    unfolding evicts_stale_def
  proof
    fix s
    show "case v_workers (vw w) s of None \<Rightarrow> m s = None
      | Some x \<Rightarrow> if stale_at cutoff x then \<exists>y. m s = Some y \<and> evicted x y else m s = Some x"
    using r(5) [unfolded evict_map_def, rule_format, of s] mem [of s]
    by (auto split: option.splits if_splits)
  qed
  then show ?thesis
    using xs r by (intro exI [of _ w'] exI [of _ xs]) (auto simp: EvictStaleWorkers_def assms(2) [symmetric])
qed

lemma RegisterWorker_run:
  assumes "ok w" "TrimSpace (wr_WorkerID req) \<noteq> []" "TrimSpace (wr_Hostname req) \<noteq> []"
  shows "\<exists>x w'. run_state (RegisterWorker W req) w = (Inr x, w') \<and> ok w' \<and> env w' = env w \<and>
    vw w' = (vw w)\<lparr>v_workers := (v_workers (vw w))(wr_WorkerID req \<mapsto> x)\<rparr> \<and>
    w_ID x = wr_WorkerID req \<and> w_Status x = ''online'' \<and> w_CurrentLoad x = 0 \<and> 0 < w_MaxConcurrency x \<and>
    w_Protocol x \<in> {''grpc'', ''http''} \<and> w_Labels x = EncodeLabels (wr_Labels req)"
proof -
  let ?w = "w\<lparr>readings := Suc (readings w)\<rparr>" and ?now = "clock w (readings w)"
  let ?x = "\<lparr>w_ID = wr_WorkerID req, w_Hostname = wr_Hostname req, w_IP = wr_IP req,
          w_CallbackURL = wr_CallbackURL req, w_GRPCAddr = wr_GRPCAddr req,
          w_Protocol = defaultProtocol (wr_Protocol req), w_Status = ''online'',
          w_Labels = EncodeLabels (wr_Labels req),
          w_MaxConcurrency = (if wr_MaxConcurrency req \<le> 0 then 100 else wr_MaxConcurrency req),
          w_CurrentLoad = 0, w_LastHeartbeatAt = ?now\<rparr>"
  have "ok ?w" using assms(1) by simp
  from upsert [OF this, of ?x] obtain w' hb where
    u: "run_state (UpsertWorker W ?x) ?w = (Inr (), w')" "ok w'" "env w' = env w"
       "vw w' = (vw w)\<lparr>v_workers := (v_workers (vw w))(wr_WorkerID req \<mapsto> ?x\<lparr>w_LastHeartbeatAt := hb\<rparr>)\<rparr>"
    by (auto simp: moves_def)
  have "run_state (RegisterWorker W req) w = (Inr (?x\<lparr>w_LastHeartbeatAt := hb\<rparr>), w')"
    using assms u get_worker [OF u(2), of "wr_WorkerID req"] by (simp add: RegisterWorker_def Let_def)
  with u show ?thesis
    by (intro exI [of _ "?x\<lparr>w_LastHeartbeatAt := hb\<rparr>"] exI [of _ w']) (simp add: defaultProtocol_def)
qed

lemma Heartbeat_run:
  assumes "ok w" "TrimSpace (hr_WorkerID req) \<noteq> []" "v_workers (vw w) (hr_WorkerID req) = Some x"
  shows "\<exists>hb w'. run_state (Heartbeat W req) w =
      (Inr (x\<lparr>w_Status := ''online'', w_CurrentLoad := max (hr_CurrentLoad req) (hr_RunningTasks req),
        w_LastHeartbeatAt := hb\<rparr>), w') \<and> ok w' \<and> env w' = env w \<and>
    (0 < hr_ReportUnixMilli req \<longrightarrow> hb = hr_ReportUnixMilli req * millisecond) \<and>
    vw w' = (vw w)\<lparr>v_workers := (v_workers (vw w))(hr_WorkerID req \<mapsto>
      x\<lparr>w_Status := ''online'', w_CurrentLoad := max (hr_CurrentLoad req) (hr_RunningTasks req),
        w_LastHeartbeatAt := hb\<rparr>)\<rparr>"
proof -
  define l where "l = max (hr_CurrentLoad req) (hr_RunningTasks req)"
  have l: "l = (if hr_RunningTasks req > hr_CurrentLoad req then hr_RunningTasks req else hr_CurrentLoad req)"
    by (simp add: l_def)
  obtain t w1 where h: "run_state (heartbeatTime (hr_ReportUnixMilli req)) w = (t, w1)"
      "ok w1" "vw w1 = vw w" "env w1 = env w"
      "0 < hr_ReportUnixMilli req \<Longrightarrow> t = hr_ReportUnixMilli req * millisecond"
  proof (cases "hr_ReportUnixMilli req \<le> 0")
    case True
    with assms(1) that [of "clock w (readings w)" "w\<lparr>readings := Suc (readings w)\<rparr>"] show ?thesis
      by (simp add: heartbeatTime_def)
  next
    case False
    with assms(1) that [of "hr_ReportUnixMilli req * millisecond" w] show ?thesis
      by (simp add: heartbeatTime_def)
  qed
  let ?x = "x\<lparr>w_Status := ''online'', w_CurrentLoad := l, w_LastHeartbeatAt := t\<rparr>"
  have i: "w_ID x = hr_WorkerID req" using worker_id [OF assms(1,3)] .
  from upsert [OF h(2), of ?x] obtain w' hb where
    u: "run_state (UpsertWorker W ?x) w1 = (Inr (), w')" "beat w1 ?x hb" "ok w'" "env w' = env w"
       "vw w' = (vw w)\<lparr>v_workers := (v_workers (vw w))(hr_WorkerID req \<mapsto> ?x\<lparr>w_LastHeartbeatAt := hb\<rparr>)\<rparr>"
    by (auto simp: moves_def i h)
  have "0 < hr_ReportUnixMilli req \<Longrightarrow> hb = hr_ReportUnixMilli req * millisecond"
    using u(2) h(5) by (simp add: beat_def zero_time_def)
  moreover have "run_state (Heartbeat W req) w = (Inr (?x\<lparr>w_LastHeartbeatAt := hb\<rparr>), w')"
    using assms(2,3) h(1) u get_worker [OF assms(1), of "hr_WorkerID req"] get_worker [OF u(3), of "hr_WorkerID req"]
    by (cases "hr_RunningTasks req > hr_CurrentLoad req") (simp_all add: Heartbeat_def Let_def l)
  ultimately show ?thesis
    using u by (intro exI [of _ hb] exI [of _ w']) (simp add: l_def)
qed

end

section \<open>Properties\<close>

text \<open>
  Registration with a blank id or host name fails with the error that names it and changes nothing;
  any other registration stores the worker online, with no load and a positive limit, and a task
  without label selector can be routed to it at once.
\<close>

theorem RegisterWorker_registers:
  assumes "stores_ok w"
  shows "case run_state (RegisterWorker test_workers req) w of
      (Inl err, w') \<Rightarrow> w' = w \<and>
        (if TrimSpace (wr_WorkerID req) = [] then err = ErrWorkerIDRequired
         else TrimSpace (wr_Hostname req) = [] \<and> err = ErrWorkerHostRequired)
    | (Inr x, w') \<Rightarrow> TrimSpace (wr_WorkerID req) \<noteq> [] \<and> TrimSpace (wr_Hostname req) \<noteq> [] \<and> stores_ok w' \<and>
        test_view w' = (test_view w)\<lparr>v_workers := (v_workers (test_view w))(wr_WorkerID req \<mapsto> x)\<rparr> \<and>
        w_Labels x = EncodeLabels (wr_Labels req) \<and> x \<in> eligible (test_view w') []"
proof (cases "TrimSpace (wr_WorkerID req) = [] \<or> TrimSpace (wr_Hostname req) = []")
  case True
  then show ?thesis by (auto simp: RegisterWorker_def)
next
  case False
  with ts.RegisterWorker_run [OF assms, of req] obtain x w' where
    r: "run_state (RegisterWorker test_workers req) w = (Inr x, w')" "stores_ok w'"
      "test_view w' = (test_view w)\<lparr>v_workers := (v_workers (test_view w))(wr_WorkerID req \<mapsto> x)\<rparr>"
      "w_Status x = ''online''" "w_CurrentLoad x = 0" "0 < w_MaxConcurrency x"
      "w_Labels x = EncodeLabels (wr_Labels req)"
    by blast
  have "x \<in> eligible (test_view w') []" using r by (auto simp: eligible_def ran_def)
  with False r show ?thesis by simp
qed

theorem RegisterWorker_registers_witness:
  "\<exists>x w'. run_state (RegisterWorker test_workers \<lparr>wr_WorkerID = ''w3'', wr_Hostname = ''h'', wr_IP = [],
      wr_CallbackURL = [], wr_GRPCAddr = [], wr_Protocol = [], wr_MaxConcurrency = 0, wr_Labels = []\<rparr>) sample
        = (Inr x, w') \<and> x \<in> eligible (test_view w') []"
proof -
  let ?q = "\<lparr>wr_WorkerID = ''w3'', wr_Hostname = ''h'', wr_IP = [],
      wr_CallbackURL = [], wr_GRPCAddr = [], wr_Protocol = [], wr_MaxConcurrency = 0, wr_Labels = []\<rparr>"
  have "TrimSpace (wr_WorkerID ?q) \<noteq> []" "TrimSpace (wr_Hostname ?q) \<noteq> []" by code_simp+
  then show ?thesis
    using RegisterWorker_registers [OF sample_ok, of ?q] by (auto split: prod.splits sum.splits)
qed

text \<open>
  A heartbeat of a known worker brings it online with the larger of the two loads it reports; the
  stored heartbeat is the reported instant when it is given. A heartbeat of an unknown worker fails
  and changes nothing.
\<close>

theorem Heartbeat_updates:
  assumes "stores_ok w" "TrimSpace (hr_WorkerID req) \<noteq> []" "0 < hr_ReportUnixMilli req"
  shows "case v_workers (test_view w) (hr_WorkerID req) of
      None \<Rightarrow> run_state (Heartbeat test_workers req) w = (Inl ErrWorkerNotFound, w)
    | Some x \<Rightarrow> \<exists>x' w'. run_state (Heartbeat test_workers req) w = (Inr x', w') \<and> stores_ok w' \<and>
        x' = x\<lparr>w_Status := ''online'', w_CurrentLoad := max (hr_CurrentLoad req) (hr_RunningTasks req),
          w_LastHeartbeatAt := hr_ReportUnixMilli req * millisecond\<rparr> \<and>
        test_view w' = (test_view w)\<lparr>v_workers := (v_workers (test_view w))(hr_WorkerID req \<mapsto> x')\<rparr>"
proof (cases "v_workers (test_view w) (hr_WorkerID req)")
  case None
  then show ?thesis
    using assms ts.get_worker [OF assms(1), of "hr_WorkerID req"] by (simp add: Heartbeat_def)
next
  case (Some x)
  with ts.Heartbeat_run [OF assms(1,2) Some] assms(3) show ?thesis by auto
qed

theorem Heartbeat_updates_witness:
  "\<exists>x' w'. run_state (Heartbeat test_workers \<lparr>hr_WorkerID = ''w1'', hr_CurrentLoad = 1, hr_RunningTasks = 2,
      hr_ReportUnixMilli = 500\<rparr>) sample = (Inr x', w') \<and> w_CurrentLoad x' = 2 \<and> w_LastHeartbeatAt x' = 500 * millisecond"
proof -
  let ?q = "\<lparr>hr_WorkerID = ''w1'', hr_CurrentLoad = 1, hr_RunningTasks = 2, hr_ReportUnixMilli = 500\<rparr>"
  have "TrimSpace (hr_WorkerID ?q) \<noteq> []" by code_simp
  then show ?thesis using Heartbeat_updates [OF sample_ok, of ?q] by (auto simp: max_def)
qed

lemma evicted_not_eligible:
  assumes "evicts_stale cutoff (v_workers v) m" "x \<in> eligible (v\<lparr>v_workers := m\<rparr>) sel"
  shows "cutoff \<le> w_LastHeartbeatAt x"
proof -
  from assms(2) obtain s where s: "m s = Some x" "w_Status x = ''online''"
    by (auto simp: eligible_def ran_def)
  from assms(1) have "case v_workers v s of None \<Rightarrow> m s = None
      | Some x \<Rightarrow> if stale_at cutoff x then \<exists>y. m s = Some y \<and> evicted x y else m s = Some x"
    unfolding evicts_stale_def by blast
  with s show ?thesis by (auto simp: stale_at_def evicted_def split: option.splits if_splits)
qed

text \<open>
  Eviction takes exactly the silent workers offline: those online whose heartbeat is older than the
  timeout, counted once each; the others stay as they are, and no selection after it can return a
  worker that had been silent for longer than the timeout.
\<close>

theorem EvictStaleWorkers_exact:
  assumes "stores_ok w" "cutoff = clock w (readings w) - timeout"
  shows "\<exists>xs w'. run_state (EvictStaleWorkers test_workers timeout) w = ((int (length xs), None), w') \<and>
    distinct xs \<and> set xs = {x \<in> ran (v_workers (test_view w)). stale_at cutoff x} \<and> stores_ok w' \<and>
    evicts_stale cutoff (v_workers (test_view w)) (v_workers (test_view w')) \<and>
    (\<forall>sel. \<forall>x \<in> eligible (test_view w') sel. cutoff \<le> w_LastHeartbeatAt x)"
proof -
  from ts.EvictStaleWorkers_run [OF assms] obtain w' xs m where
    e: "run_state (EvictStaleWorkers test_workers timeout) w = ((int (length xs), None), w')" "stores_ok w'"
      "enumerates xs (v_workers (test_view w)) (stale_at cutoff)"
      "test_view w' = (test_view w)\<lparr>v_workers := m\<rparr>" "evicts_stale cutoff (v_workers (test_view w)) m"
    by blast
  then show ?thesis
    using evicted_not_eligible [OF e(5)]
    by (intro exI [of _ xs] exI [of _ w']) (simp add: enumerates_def)
qed

theorem EvictStaleWorkers_exact_witness:
  "\<exists>xs w'. run_state (EvictStaleWorkers test_workers (- second)) sample = ((int (length xs), None), w') \<and>
    sample_worker ''w2'' 0 \<in> set xs \<and> (\<forall>x \<in> eligible (test_view w') []. 101 * second \<le> w_LastHeartbeatAt x)"
proof -
  have "sample_worker ''w2'' 0 \<in> {x \<in> ran (v_workers (test_view sample)). stale_at (101 * second) x}"
    by (auto simp: ran_def stale_at_def sample_worker_def intro!: exI [of _ "''w2''"])
  moreover have "101 * second = clock sample (readings sample) - (- second)" by simp
  ultimately show ?thesis using EvictStaleWorkers_exact [OF sample_ok, of "101 * second" "- second"] by blast
qed

end
