(* ===== verification/Dispatch.thy ===== *)
theory Dispatch
  imports Teststore
begin

text \<open>
  \<^verbatim>\<open>internal/scheduler/dispatch\<close>: sending a task to its worker, over HTTP or gRPC, under the rate
  limit of the client. What is sent is appended to the log of messages; the replies come from the
  world, numbered by the length of the log when the call is made. URL parsing belongs to the Go
  library and is a function of the world (\<open>url_error\<close>).
\<close>

section \<open>Encoding\<close>

definition wrap32 :: "int \<Rightarrow> int" where
  "wrap32 x = (x + 2 ^ 31) mod 2 ^ 32 - 2 ^ 31"

definition json_field :: "string \<Rightarrow> string \<Rightarrow> string" where
  "json_field name text = json_quote name @ CHR '':'' # text"

text \<open>\<^verbatim>\<open>json.Marshal\<close> of the request: every field, in the order of the struct, under its tag.\<close>

definition marshal_request :: "ExecuteTaskRequest \<Rightarrow> string" where
  "marshal_request q =
     CHR ''{'' # Join (CHR '','')
       [json_field ''schedule_instance_id'' (json_quote (q_ScheduleInstanceID q)),
        json_field ''task_id'' (itoa (q_TaskID q)),
        json_field ''task_type'' (json_quote (q_TaskType q)),
        json_field ''payload'' (json_quote (q_Payload q)),
        json_field ''image'' (json_quote (q_Image q)),
        json_field ''timeout_seconds'' (itoa (q_TimeoutSeconds q)),
        json_field ''retry_count'' (itoa (q_RetryCount q)),
        json_field ''shard_no'' (itoa (q_ShardNo q)),
        json_field ''shard_total'' (itoa (q_ShardTotal q)),
        json_field ''idempotency_key'' (json_quote (q_IdempotencyKey q)),
        json_field ''scheduler_url'' (json_quote (q_SchedulerURL q))] @ ''}''"

section \<open>Network calls\<close>

definition http_do :: "string \<Rightarrow> string \<Rightarrow> ('a, error + int \<times> string) go" where
  "http_do url body = do {
     n \<leftarrow> reads (\<lambda>w. length (sent w));
     send (HttpPost url body);
     reads (\<lambda>w. http_reply w n) }"

definition grpc_dial :: "string \<Rightarrow> ('a, error + unit) go" where
  "grpc_dial target = do {
     n \<leftarrow> reads (\<lambda>w. length (sent w));
     send (GrpcDial target);
     r \<leftarrow> reads (\<lambda>w. dial_reply w n);
     State_Monad.return (case r of None \<Rightarrow> Inr () | Some err \<Rightarrow> Inl err) }"

definition grpc_call :: "message \<Rightarrow> ('a, error + bool \<times> string) go" where
  "grpc_call m = do {
     n \<leftarrow> reads (\<lambda>w. length (sent w));
     send m;
     reads (\<lambda>w. grpc_reply w n) }"

section \<open>The client\<close>

definition dispatchHTTP :: "string \<Rightarrow> ExecuteTaskRequest \<Rightarrow> ('a, error + unit) go" where
  "dispatchHTTP callbackURL req = do {
     let body = marshal_request req;
     let url = trim_slashes callbackURL @ ''/internal/tasks/execute'';
     bad \<leftarrow> reads (\<lambda>w. url_error w url);
     case bad of
       Some err \<Rightarrow> raise (Wrapped ''build dispatch request'' err)
     | None \<Rightarrow> do {
         resp \<leftarrow> http_do url body;
         case resp of
           Inl err \<Rightarrow> raise (Wrapped ''dispatch task'' err)
         | Inr (code, status) \<Rightarrow>
             if code \<ge> 300 then raise (Errorf (''worker returned status '' @ status)) else ret () } }"

definition pb_request :: "ExecuteTaskRequest \<Rightarrow> PbExecuteTaskRequest" where
  "pb_request req = \<lparr>pb_ScheduleInstanceId = q_ScheduleInstanceID req, pb_TaskId = q_TaskID req,
     pb_TaskType = q_TaskType req, pb_Payload = q_Payload req, pb_Image = q_Image req,
     pb_TimeoutSeconds = wrap32 (q_TimeoutSeconds req), pb_RetryCount = wrap32 (q_RetryCount req),
     pb_SchedulerUrl = q_SchedulerURL req\<rparr>"

definition dispatchGRPC :: "string \<Rightarrow> ExecuteTaskRequest \<Rightarrow> ('a, error + unit) go" where
  "dispatchGRPC target req = do {
     conn \<leftarrow> grpc_dial target;
     case conn of
       Inl err \<Rightarrow> raise (Wrapped (''dial grpc target '' @ target) err)
     | Inr _ \<Rightarrow> do {
         resp \<leftarrow> grpc_call (GrpcExecute target (pb_request req));
         case resp of
           Inl err \<Rightarrow> raise (Wrapped ''grpc execute task'' err)
         | Inr (accepted, msg) \<Rightarrow>
             if \<not> accepted then raise (Errorf (''grpc worker rejected dispatch: '' @ msg)) else ret () } }"

definition cancelGRPC :: "string \<Rightarrow> string \<Rightarrow> ('a, error + unit) go" where
  "cancelGRPC target scheduleInstanceID = do {
     conn \<leftarrow> grpc_dial target;
     case conn of
       Inl err \<Rightarrow> raise (Wrapped (''dial grpc target '' @ target) err)
     | Inr _ \<Rightarrow> do {
         resp \<leftarrow> grpc_call (GrpcCancel target scheduleInstanceID);
         case resp of
           Inl err \<Rightarrow> raise (Wrapped ''grpc cancel task'' err)
         | Inr (accepted, _) \<Rightarrow> if \<not> accepted then raise (Errorf ''cancel rejected'') else ret () } }"

definition CancelDispatch :: "WorkerNode \<Rightarrow> string \<Rightarrow> ('a, error + unit) go" where
  "CancelDispatch worker scheduleInstanceID =
     (if EqualFold (w_Protocol worker) ''grpc'' then cancelGRPC (w_GRPCAddr worker) scheduleInstanceID
      else do {
        let url = trim_slashes (w_CallbackURL worker) @ ''/internal/tasks/cancel'';
        let body = CHR ''{'' # CHR 0x22 # ''schedule_instance_id'' @ CHR 0x22 # CHR '':'' # CHR 0x22 #
              scheduleInstanceID @ CHR 0x22 # ''}'';
        bad \<leftarrow> reads (\<lambda>w. url_error w url);
        case bad of
          Some err \<Rightarrow> raise err
        | None \<Rightarrow> do {
            resp \<leftarrow> http_do url body;
            case resp of
              Inl err \<Rightarrow> raise (Wrapped ''cancel dispatch'' err)
            | Inr (code, status) \<Rightarrow>
                if code \<ge> 300 then raise (Errorf (''worker returned status '' @ status)) else ret () } })"

text \<open>The limiter's operations on the world.\<close>

definition limiter_allow :: "TokenBucket \<Rightarrow> ('a, bool) go" where
  "limiter_allow tb = do {
     now \<leftarrow> time_now;
     let (allow, tb') = Allow now tb;
     modify (\<lambda>w. w\<lparr>limiter := Some tb'\<rparr>);
     State_Monad.return allow }"

definition limiter_wait :: "int \<Rightarrow> ('a, duration) go" where
  "limiter_wait n = do {
     lim \<leftarrow> reads limiter;
     case lim of
       None \<Rightarrow> State_Monad.return 0
     | Some tb \<Rightarrow> do {
         now \<leftarrow> time_now;
         let (d, tb') = WaitTime now n tb;
         modify (\<lambda>w. w\<lparr>limiter := Some tb'\<rparr>);
         State_Monad.return d } }"

definition Dispatch :: "WorkerNode \<Rightarrow> ExecuteTaskRequest \<Rightarrow> ('a, error + unit) go" where
  "Dispatch worker req = do {
     lim \<leftarrow> reads limiter;
     allow \<leftarrow> (case lim of None \<Rightarrow> State_Monad.return True | Some tb \<Rightarrow> limiter_allow tb);
     if \<not> allow then do {
       d \<leftarrow> limiter_wait 1;
       raise (Errorf (''dispatch rate limit exceeded, wait '' @ duration_string d)) }
     else if EqualFold (w_Protocol worker) ''grpc'' then dispatchGRPC (w_GRPCAddr worker) req
     else dispatchHTTP (w_CallbackURL worker) req }"

section \<open>Facts\<close>

text \<open>A network operation changes the count of readings, the message log and the limiter only.\<close>

definition net_step :: "'a world_scheme \<Rightarrow> 'a world_scheme \<Rightarrow> bool" where
  "net_step w w' \<longleftrightarrow> (\<exists>n ms l. w' = w\<lparr>readings := n, sent := sent w @ ms, limiter := l\<rparr>)"

lemma net_stepI: "w' = w\<lparr>readings := n, sent := sent w @ ms, limiter := l\<rparr> \<Longrightarrow> net_step w w'"
  unfolding net_step_def by blast

lemma net_step_refl [simp]: "net_step w w"
  by (rule net_stepI [where n = "readings w" and ms = "[]" and l = "limiter w"]) simp

lemma net_step_sent [simp]: "net_step w (w\<lparr>sent := sent w @ ms\<rparr>)"
  by (rule net_stepI [where n = "readings w" and ms = ms and l = "limiter w"]) simp

lemma net_step_trans: "net_step w1 w2 \<Longrightarrow> net_step w2 w3 \<Longrightarrow> net_step w1 w3"
proof -
  assume "net_step w1 w2" "net_step w2 w3"
  then obtain n ms l n' ms' l' where
    "w2 = w1\<lparr>readings := n, sent := sent w1 @ ms, limiter := l\<rparr>"
    "w3 = w2\<lparr>readings := n', sent := sent w2 @ ms', limiter := l'\<rparr>"
    unfolding net_step_def by blast
  then show ?thesis by (intro net_stepI [where n = n' and ms = "ms @ ms'" and l = l']) simp
qed

lemma net_step_dispatchHTTP: "net_step w (snd (run_state (dispatchHTTP url req) w))"
  by (auto simp: dispatchHTTP_def http_do_def Let_def split: option.splits sum.splits prod.splits)

lemma net_step_sent2 [simp]: "net_step w (w\<lparr>sent := (sent w @ ms) @ ms'\<rparr>)"
  using net_step_sent [of w "ms @ ms'"] by simp

lemma net_step_dispatchGRPC: "net_step w (snd (run_state (dispatchGRPC target req) w))"
  by (auto simp: dispatchGRPC_def grpc_dial_def grpc_call_def
      split: option.splits sum.splits prod.splits simp del: append_assoc)

lemma net_step_CancelDispatch: "net_step w (snd (run_state (CancelDispatch x sid) w))"
  by (auto simp: CancelDispatch_def cancelGRPC_def grpc_dial_def grpc_call_def http_do_def Let_def
      split: option.splits sum.splits prod.splits simp del: append_assoc)

lemma net_step_limiter:
  "net_step w (snd (run_state (limiter_allow tb) w))" "net_step w (snd (run_state (limiter_wait n) w))"
proof -
  have "net_step w (w\<lparr>readings := k, limiter := l\<rparr>)" for k l
    by (rule net_stepI [where n = k and ms = "[]" and l = l]) simp
  then show "net_step w (snd (run_state (limiter_allow tb) w))"
      "net_step w (snd (run_state (limiter_wait n) w))"
    by (auto simp: limiter_allow_def limiter_wait_def Let_def split: option.splits prod.splits)
qed

lemma net_step_Dispatch: "net_step w (snd (run_state (Dispatch x req) w))"
proof -
  let ?allow = "case limiter w of None \<Rightarrow> State_Monad.return True | Some tb \<Rightarrow> limiter_allow tb"
  obtain ok w1 where 1: "run_state ?allow w = (ok, w1)" by fastforce
  then have "net_step w w1"
    using net_step_limiter(1) [of w] by (cases "limiter w") (auto, metis snd_conv)
  moreover have "net_step w1 (snd (run_state (Dispatch x req) w))"
    using net_step_limiter(2) [of w1] net_step_dispatchHTTP [of w1] net_step_dispatchGRPC [of w1] 1
    by (auto simp: Dispatch_def split: prod.splits) (metis snd_conv)+
  ultimately show ?thesis by (rule net_step_trans)
qed

context store_view
begin

lemma net_step_keeps: "net_step w w' \<Longrightarrow> vw w' = vw w \<and> ok w' = ok w \<and> rrCounter w' = rrCounter w"
  by (auto simp: net_step_def)

end

context store_view
begin

lemma wp_Dispatch:
  assumes "ok w"
    and "\<And>r w'. ok w' \<Longrightarrow> vw w' = vw w \<Longrightarrow> net_step w w' \<Longrightarrow> Q r w'"
  shows "wp (Dispatch x req) Q w"
  by (rule wpI, rule assms(2)) (use assms(1) net_step_keeps [OF net_step_Dispatch] net_step_Dispatch in blast)+

lemma wp_CancelDispatch:
  assumes "ok w"
    and "\<And>r w'. ok w' \<Longrightarrow> vw w' = vw w \<Longrightarrow> net_step w w' \<Longrightarrow> Q r w'"
  shows "wp (CancelDispatch x sid) Q w"
  by (rule wpI, rule assms(2)) (use assms(1) net_step_keeps [OF net_step_CancelDispatch] net_step_CancelDispatch in blast)+

end

text \<open>What a dispatch to a worker sends when nothing fails.\<close>

definition dispatch_messages :: "WorkerNode \<Rightarrow> ExecuteTaskRequest \<Rightarrow> message list" where
  "dispatch_messages x req =
     (if EqualFold (w_Protocol x) ''grpc''
      then [GrpcDial (w_GRPCAddr x), GrpcExecute (w_GRPCAddr x) (pb_request req)]
      else [HttpPost (trim_slashes (w_CallbackURL x) @ ''/internal/tasks/execute'') (marshal_request req)])"

definition limiter_step :: "('a, bool) go" where
  "limiter_step = do {
     lim \<leftarrow> reads limiter;
     (case lim of None \<Rightarrow> State_Monad.return True | Some tb \<Rightarrow> limiter_allow tb) }"

lemma limiter_step_keeps:
  "wp limiter_step (\<lambda>_ w'. sent w' = sent w) w" "wp (limiter_wait n) (\<lambda>_ w'. sent w' = sent w) w"
  by (auto simp: limiter_step_def limiter_allow_def limiter_wait_def wps Let_def split: option.split prod.split)

lemma Dispatch_step:
  "Dispatch x req = do {
     allow \<leftarrow> limiter_step;
     if \<not> allow then do {
       d \<leftarrow> limiter_wait 1;
       raise (Errorf (''dispatch rate limit exceeded, wait '' @ duration_string d)) }
     else if EqualFold (w_Protocol x) ''grpc'' then dispatchGRPC (w_GRPCAddr x) req
     else dispatchHTTP (w_CallbackURL x) req }"
  by (rule state.expand, rule ext) (simp add: Dispatch_def limiter_step_def split_beta)

definition sends_prefix :: "message list \<Rightarrow> message list \<Rightarrow> error + unit \<Rightarrow> message list \<Rightarrow> bool" where
  "sends_prefix old full r new \<longleftrightarrow> (\<exists>ms rest. new = old @ ms \<and> full = ms @ rest \<and> (r = Inr () \<longrightarrow> rest = []))"

lemma dispatchGRPC_sends:
  "wp (dispatchGRPC a req) (\<lambda>r w'. sends_prefix (sent w) [GrpcDial a, GrpcExecute a (pb_request req)] r (sent w')) w"
  by (auto simp: dispatchGRPC_def grpc_dial_def grpc_call_def wps sends_prefix_def
      split: option.split sum.split prod.split)

lemma dispatchHTTP_sends:
  "wp (dispatchHTTP u req) (\<lambda>r w'. sends_prefix (sent w)
     [HttpPost (trim_slashes u @ ''/internal/tasks/execute'') (marshal_request req)] r (sent w')) w"
  by (auto simp: dispatchHTTP_def http_do_def wps sends_prefix_def Let_def
      split: option.split sum.split prod.split)

lemma wp_limiter_step: "(\<And>b w'. sent w' = sent w \<Longrightarrow> Q b w') \<Longrightarrow> wp limiter_step Q w"
  by (rule wp_mono [OF limiter_step_keeps(1)])

lemma wp_limiter_wait: "(\<And>d w'. sent w' = sent w \<Longrightarrow> Q d w') \<Longrightarrow> wp (limiter_wait n) Q w"
  by (rule wp_mono [OF limiter_step_keeps(2)])

lemma sends_prefix_none: "sends_prefix old full (Inl err) old"
  by (simp add: sends_prefix_def)

section \<open>Properties\<close>

text \<open>
  A dispatch talks to nobody but its worker: what it sends is a prefix of dialling and one execute
  request over gRPC, or of one post over HTTP, with the request encoded; and it reports success only
  when all of it was sent.
\<close>

theorem Dispatch_sends:
  "\<exists>ms rest. sent (snd (run_state (Dispatch x req) w)) = sent w @ ms \<and> dispatch_messages x req = ms @ rest \<and>
     (fst (run_state (Dispatch x req) w) = Inr () \<longrightarrow> rest = [])"
proof -
  have "wp (Dispatch x req) (\<lambda>r w'. sends_prefix (sent w) (dispatch_messages x req) r (sent w')) w"
    unfolding Dispatch_step wp_bind
  proof (rule wp_limiter_step)
    fix b w1
    assume s: "sent w1 = sent w"
    show "wp (if \<not> b then do { d \<leftarrow> limiter_wait 1;
        raise (Errorf (''dispatch rate limit exceeded, wait '' @ duration_string d)) }
      else if EqualFold (w_Protocol x) ''grpc'' then dispatchGRPC (w_GRPCAddr x) req
      else dispatchHTTP (w_CallbackURL x) req)
      (\<lambda>r w'. sends_prefix (sent w) (dispatch_messages x req) r (sent w')) w1"
      using dispatchGRPC_sends [of "w_GRPCAddr x" req w1] dispatchHTTP_sends [of "w_CallbackURL x" req w1]
      by (auto simp: s wps dispatch_messages_def sends_prefix_none intro!: wp_limiter_wait)
  qed
  then show ?thesis by (simp add: wp_def sends_prefix_def split_beta)
qed

theorem Dispatch_sends_witness:
  "sent (snd (run_state (Dispatch (sample_worker ''w1'' 1) zero_ExecuteTaskRequest) sample)) =
     [HttpPost ''http://host/internal/tasks/execute'' (marshal_request zero_ExecuteTaskRequest)]"
proof -
  have r: "fst (run_state (Dispatch (sample_worker ''w1'' 1) zero_ExecuteTaskRequest) sample) = Inr ()"
    by code_simp
  have m: "dispatch_messages (sample_worker ''w1'' 1) zero_ExecuteTaskRequest =
      [HttpPost ''http://host/internal/tasks/execute'' (marshal_request zero_ExecuteTaskRequest)]"
    by code_simp
  show ?thesis
    using Dispatch_sends [of "sample_worker ''w1'' 1" zero_ExecuteTaskRequest sample] r m by auto
qed

text \<open>
  When the rate limiter has no token, a dispatch sends nothing and returns the error that names
  the wait.
\<close>

theorem Dispatch_rate_limited:
  assumes "limiter w = Some tb" "\<not> fst (Allow (clock w (readings w)) tb)"
  shows "\<exists>d w'. run_state (Dispatch x req) w =
      (Inl (Errorf (''dispatch rate limit exceeded, wait '' @ duration_string d)), w') \<and> sent w' = sent w"
proof -
  have "wp limiter_step (\<lambda>b w'. \<not> b \<and> sent w' = sent w) w"
    using assms by (auto simp: limiter_step_def limiter_allow_def wps Let_def split: prod.split)
  then have "wp (Dispatch x req) (\<lambda>r w'. (\<exists>d. r = Inl (Errorf (''dispatch rate limit exceeded, wait '' @
      duration_string d))) \<and> sent w' = sent w) w"
    unfolding Dispatch_step wp_bind by (rule wp_mono) (auto simp: wps intro!: wp_limiter_wait)
  then show ?thesis by (auto simp: wp_iff)
qed

theorem Dispatch_rate_limited_witness:
  "\<exists>d w'. run_state (Dispatch (sample_worker ''w1'' 1) zero_ExecuteTaskRequest)
       (sample\<lparr>limiter := Some \<lparr>tb_rate = 1, tb_capacity = 1, tb_tokens = 0, tb_lastRefill = 100 * second\<rparr>\<rparr>) =
      (Inl (Errorf (''dispatch rate limit exceeded, wait '' @ duration_string d)), w') \<and> sent w' = []"
proof -
  let ?tb = "\<lparr>tb_rate = 1, tb_capacity = 1, tb_tokens = 0, tb_lastRefill = 100 * second\<rparr>"
  have "\<not> fst (Allow (100 * second) ?tb)"
    using fl64_of_int [of 1]
    by (simp add: Allow_def AllowN_def refill_def Seconds_def Sub_def Let_def)
  then show ?thesis
    using Dispatch_rate_limited [of "sample\<lparr>limiter := Some ?tb\<rparr>" ?tb] by simp
qed

end
