(* ===== verification/Runtime.thy ===== *)
theory Runtime
  imports Route Dispatch
begin

text \<open>
  \<^verbatim>\<open>internal/api/service/task_runtime_service.go\<close> and \<^verbatim>\<open>internal/alert\<close>: what a status report of a
  worker does to instances, workers and tasks, retries included, and cancellation. The service's
  repositories are its arguments \<open>T\<close>, \<open>I\<close>, \<open>W\<close>; the analysis of a failure by the AI service runs in
  a goroutine of its own, recorded as started, and is the operation \<open>analyzeFailedInstance\<close>.
\<close>

section \<open>Alerts\<close>

record AlertPayload =
  al_TaskID :: int
  al_TaskName :: string
  al_InstanceID :: int
  al_ScheduleInstanceID :: string
  al_RetryCount :: int
  al_MaxRetry :: int
  al_ErrorCode :: string
  al_ErrorMessage :: string

text \<open>The body posted: the payload with its type and the time, in the order of the struct.\<close>

definition marshal_alert :: "location \<Rightarrow> time \<Rightarrow> AlertPayload \<Rightarrow> string" where
  "marshal_alert loc now p =
     CHR ''{'' # Join (CHR '','')
       [json_field ''type'' (json_quote ''task_failure''),
        json_field ''task_id'' (itoa (al_TaskID p)),
        json_field ''task_name'' (json_quote (al_TaskName p)),
        json_field ''instance_id'' (itoa (al_InstanceID p)),
        json_field ''schedule_instance_id'' (json_quote (al_ScheduleInstanceID p)),
        json_field ''retry_count'' (itoa (al_RetryCount p)),
        json_field ''max_retry'' (itoa (al_MaxRetry p)),
        json_field ''error_code'' (json_quote (al_ErrorCode p)),
        json_field ''error_message'' (json_quote (al_ErrorMessage p)),
        json_field ''timestamp'' (json_quote (FormatRFC3339Nano loc now))] @ ''}''"

definition Alerter_Send :: "string \<Rightarrow> AlertPayload \<Rightarrow> ('a, unit) go" where
  "Alerter_Send webhookURL p = do {
     now \<leftarrow> time_now;
     loc \<leftarrow> reads zone;
     if webhookURL = [] then State_Monad.return ()
     else do {
       bad \<leftarrow> reads (\<lambda>w. url_error w webhookURL);
       case bad of
         Some err \<Rightarrow> State_Monad.return ()
       | None \<Rightarrow> do { _ \<leftarrow> http_do webhookURL (marshal_alert loc now p); State_Monad.return () } } }"

section \<open>Decisions\<close>

definition isTerminalStatus :: "string \<Rightarrow> bool" where
  "isTerminalStatus status \<longleftrightarrow> status \<in> {''success'', ''failed'', ''timeout'', ''cancelled''}"

definition isRetryableStatus :: "string \<Rightarrow> bool" where
  "isRetryableStatus status \<longleftrightarrow> status \<in> {''failed'', ''timeout''}"

text \<open>
  \<^verbatim>\<open>time.Duration(1<<retryCount) * time.Second\<close> at 64 bits: the shift of a 1 wraps like the power of
  two (0 from 64 on), and so does the product. A retry count is positive where this is called.
\<close>

definition retryDelay :: "string \<Rightarrow> int \<Rightarrow> int \<Rightarrow> duration" where
  "retryDelay retryPolicy retryCount intervalSeconds =
     (if retryPolicy = ''exponential_backoff'' then
        let d = wrap64 (wrap64 (2 ^ nat retryCount) * second) in
        if d > 10 * minute then 10 * minute else d
      else if retryPolicy = ''fixed_interval'' then
        (if intervalSeconds > 0 then wrap64 (intervalSeconds * second) else 0)
      else 0)"

definition retryWindowExceeded :: "TaskInstance \<Rightarrow> int \<Rightarrow> ('a, bool) go" where
  "retryWindowExceeded inst windowSeconds =
     (if windowSeconds \<le> 0 then State_Monad.return False
      else do {
        let window = wrap64 (windowSeconds * second);
        now \<leftarrow> time_now;
        State_Monad.return (Sub now (i_TriggerTime inst) > window) })"

definition shouldRetryOnErrors :: "string \<Rightarrow> string \<Rightarrow> string \<Rightarrow> bool" where
  "shouldRetryOnErrors retryPolicy retryOnErrors errorCode =
     (if retryPolicy \<noteq> ''error_code'' \<or> retryOnErrors = [] then True
      else list_ex (\<lambda>code. TrimSpace code = errorCode) (Split (CHR '','') retryOnErrors))"

definition retryScheduleInstanceID :: "int \<Rightarrow> int \<Rightarrow> ('a, string) go" where
  "retryScheduleInstanceID taskID retryCount = do {
     now \<leftarrow> time_now;
     State_Monad.return (''task-'' @ itoa taskID @ ''-retry-'' @ itoa retryCount @ ''-'' @ itoa (wrap64 now)) }"

section \<open>The service\<close>

record TaskRuntimeService =
  rt_alerter :: "string option"
  rt_schedulerURL :: string
  rt_hasAI :: bool

text \<open>One downstream task: errors and disabled tasks are skipped.\<close>

definition advance_downstream :: "'a world_scheme TaskRepository \<Rightarrow> int \<Rightarrow> ('a, unit) go" where
  "advance_downstream T dtID = do {
     r \<leftarrow> GetTask T dtID;
     case r of
       Inl err \<Rightarrow> State_Monad.return ()
     | Inr dt \<Rightarrow>
         if t_Status dt \<noteq> ''enabled'' then State_Monad.return ()
         else do {
           now \<leftarrow> time_now;
           _ \<leftarrow> UpdateTask T (dt\<lparr>t_NextTriggerTime := now\<rparr>);
           State_Monad.return () } }"

fun fireDownstream_loop :: "'a world_scheme TaskRepository \<Rightarrow> int list \<Rightarrow> ('a, unit) go" where
  "fireDownstream_loop T [] = State_Monad.return ()"
| "fireDownstream_loop T (dtID # ids) = do { advance_downstream T dtID; fireDownstream_loop T ids }"

definition fireDownstream :: "'a world_scheme TaskRepository \<Rightarrow> TaskInstance \<Rightarrow> ('a, unit) go" where
  "fireDownstream T inst = do {
     r \<leftarrow> ListDownstreamTasks T (i_TaskID inst);
     case r of
       Inl err \<Rightarrow> State_Monad.return ()
     | Inr ids \<Rightarrow> fireDownstream_loop T ids }"

definition format_now :: "('a, string) go" where
  "format_now = do { now \<leftarrow> time_now; loc \<leftarrow> reads zone; State_Monad.return (FormatRFC3339Nano loc now) }"

text \<open>The part of \<^verbatim>\<open>retryIfNeeded\<close> after the retry instance was created for immediate dispatch.\<close>

definition dispatch_retry ::
  "'a world_scheme TaskInstanceRepository \<Rightarrow> 'a world_scheme WorkerRepository \<Rightarrow> TaskRuntimeService \<Rightarrow>
   Task \<Rightarrow> TaskInstance \<Rightarrow> TaskInstance \<Rightarrow> int \<Rightarrow> ('a, error + unit) go" where
  "dispatch_retry I W s task inst retryInstance retryCount = do {
     picked \<leftarrow> Pick W \<lparr>so_Labels = DecodeLabels (t_Labels task), so_Strategy = t_RouteStrategy task\<rparr>;
     case picked of
       Inl err \<Rightarrow>
         if err = ErrNoAvailableWorker then do {
           _ \<leftarrow> UpdateInstanceStatus I (i_ID retryInstance) ''retry_waiting'';
           ret () }
         else raise err
     | Inr worker \<Rightarrow> do {
         dispatchTime \<leftarrow> format_now;
         upd \<leftarrow> UpdateInstanceDispatch I (i_ID retryInstance) (w_ID worker) dispatchTime;
         case upd of
           Inl err \<Rightarrow> do { _ \<leftarrow> Release W worker; raise err }
         | Inr _ \<Rightarrow> do {
             sent \<leftarrow> Dispatch worker (zero_ExecuteTaskRequest\<lparr>
               q_ScheduleInstanceID := i_ScheduleInstanceID retryInstance, q_TaskID := t_ID task,
               q_TaskType := t_Type task, q_Payload := t_Payload task,
               q_TimeoutSeconds := t_TimeoutSeconds task, q_RetryCount := retryCount,
               q_ShardNo := i_ShardNo inst, q_ShardTotal := i_ShardTotal inst,
               q_IdempotencyKey := t_IdempotencyKey task, q_SchedulerURL := rt_schedulerURL s\<rparr>);
             case sent of
               Inl err \<Rightarrow> do {
                 _ \<leftarrow> UpdateInstanceStatus I (i_ID retryInstance) ''retry_waiting'';
                 _ \<leftarrow> Release W worker;
                 ret () }
             | Inr _ \<Rightarrow> ret () } } }"

definition retry_instance :: "Task \<Rightarrow> TaskInstance \<Rightarrow> string \<Rightarrow> time \<Rightarrow> TaskInstance" where
  "retry_instance task inst scheduleID triggerTime = zero_TaskInstance\<lparr>i_TaskID := t_ID task,
     i_ScheduleInstanceID := scheduleID, i_TriggerTime := triggerTime, i_Status := ''pending'',
     i_RetryCount := i_RetryCount inst + 1, i_ShardNo := i_ShardNo inst, i_ShardTotal := i_ShardTotal inst\<rparr>"

definition start_retry ::
  "'a world_scheme TaskInstanceRepository \<Rightarrow> 'a world_scheme WorkerRepository \<Rightarrow> TaskRuntimeService \<Rightarrow>
   Task \<Rightarrow> TaskInstance \<Rightarrow> ('a, error + unit) go" where
  "start_retry I W s task inst = do {
     let retryCount = i_RetryCount inst + 1;
     scheduleID \<leftarrow> retryScheduleInstanceID (t_ID task) retryCount;
     triggerTime \<leftarrow> time_now;
     let retryInstance = retry_instance task inst scheduleID triggerTime;
     let delay = retryDelay (t_RetryPolicy task) retryCount (t_RetryIntervalSeconds task);
     if delay > 0 then do {
       now \<leftarrow> time_now;
       if_ok (CreateInstance I (retryInstance\<lparr>i_Status := ''retry_waiting'', i_NextRetryTime := now + delay\<rparr>))
         (\<lambda>_. ret ()) }
     else if_ok (CreateInstance I retryInstance) (\<lambda>retryInstance.
       dispatch_retry I W s task inst retryInstance retryCount) }"

definition retryIfNeeded ::
  "'a world_scheme TaskRepository \<Rightarrow> 'a world_scheme TaskInstanceRepository \<Rightarrow>
   'a world_scheme WorkerRepository \<Rightarrow> TaskRuntimeService \<Rightarrow> TaskInstance \<Rightarrow>
   TaskStatusReportRequest \<Rightarrow> ('a, error + unit) go" where
  "retryIfNeeded T I W s inst req =
     (if \<not> isRetryableStatus (sr_Status req) then ret ()
      else if_ok (GetTask T (i_TaskID inst)) (\<lambda>task.
        if i_RetryCount inst \<ge> t_MaxRetry task then do {
          (case rt_alerter s of
             None \<Rightarrow> State_Monad.return ()
           | Some webhookURL \<Rightarrow> Alerter_Send webhookURL \<lparr>al_TaskID = t_ID task, al_TaskName = t_Name task,
               al_InstanceID = i_ID inst, al_ScheduleInstanceID = i_ScheduleInstanceID inst,
               al_RetryCount = i_RetryCount inst, al_MaxRetry = t_MaxRetry task,
               al_ErrorCode = sr_ErrorCode req, al_ErrorMessage = sr_ErrorMessage req\<rparr>);
          ret () }
        else if \<not> shouldRetryOnErrors (t_RetryPolicy task) (t_RetryOnErrors task) (sr_ErrorCode req)
        then ret ()
        else do {
          exceeded \<leftarrow> retryWindowExceeded inst (t_RetryWindowSeconds task);
          if exceeded then ret () else start_retry I W s task inst }))"

definition parse_time :: "string \<Rightarrow> time" where
  "parse_time s = (if s = [] then zero_time else case ParseRFC3339Nano s of None \<Rightarrow> zero_time | Some t \<Rightarrow> t)"

text \<open>The parts of \<^verbatim>\<open>ReportStatus\<close> after the final status was stored: from the worker's load on, and all of it.\<close>

definition settle_worker ::
  "'a world_scheme TaskRepository \<Rightarrow> 'a world_scheme TaskInstanceRepository \<Rightarrow>
   'a world_scheme WorkerRepository \<Rightarrow> TaskRuntimeService \<Rightarrow> TaskInstance \<Rightarrow>
   TaskStatusReportRequest \<Rightarrow> ('a, error + unit) go" where
  "settle_worker T I W s inst req =
     (if sr_WorkerID req = [] then retryIfNeeded T I W s inst req
      else do {
        r \<leftarrow> GetWorker W (sr_WorkerID req);
        case r of
          Inl err \<Rightarrow> retryIfNeeded T I W s inst req
        | Inr worker \<Rightarrow>
            if_ok (UpsertWorker W (if w_CurrentLoad worker > 0
                then worker\<lparr>w_CurrentLoad := w_CurrentLoad worker - 1\<rparr> else worker))
              (\<lambda>_. retryIfNeeded T I W s inst req) })"

definition finish_report ::
  "'a world_scheme TaskRepository \<Rightarrow> 'a world_scheme TaskInstanceRepository \<Rightarrow>
   'a world_scheme WorkerRepository \<Rightarrow> TaskRuntimeService \<Rightarrow> TaskInstance \<Rightarrow>
   TaskStatusReportRequest \<Rightarrow> ('a, error + unit) go" where
  "finish_report T I W s inst req = do {
     (if sr_Status req = ''failed'' \<and> rt_hasAI s then send (SpawnAnalysis inst req) else State_Monad.return ());
     (if sr_Status req = ''success'' then fireDownstream T inst else State_Monad.return ());
     settle_worker T I W s inst req }"

definition stamp :: "'a world_scheme TaskInstanceRepository \<Rightarrow> TaskStatusReportRequest \<Rightarrow> ('a, unit) go" where
  "stamp I req =
     (if sr_StartedAt req \<noteq> [] \<or> sr_FinishedAt req \<noteq> [] then do {
        _ \<leftarrow> UpdateInstanceTimestamps I (sr_ScheduleInstanceID req) (parse_time (sr_StartedAt req))
          (parse_time (sr_FinishedAt req));
        State_Monad.return () }
      else State_Monad.return ())"

definition ReportStatus ::
  "'a world_scheme TaskRepository \<Rightarrow> 'a world_scheme TaskInstanceRepository \<Rightarrow>
   'a world_scheme WorkerRepository \<Rightarrow> TaskRuntimeService \<Rightarrow> TaskStatusReportRequest \<Rightarrow>
   ('a, error + unit) go" where
  "ReportStatus T I W s req =
     (if sr_ScheduleInstanceID req = [] then raise ErrScheduleInstanceIDRequired
      else if_ok (GetInstanceByScheduleID I (sr_ScheduleInstanceID req)) (\<lambda>inst.
        if isTerminalStatus (i_Status inst) then ret ()
        else if_ok (UpdateInstanceResult I (sr_ScheduleInstanceID req) (sr_Status req) (sr_ErrorCode req)
            (sr_ErrorMessage req)) (\<lambda>_. do {
          stamp I req;
          inc_counter ''task_runtime_reports_total'' [(''status'', sr_Status req)];
          if sr_Status req = ''running'' then ret ()
          else finish_report T I W s inst req })))"

definition CancelInstance ::
  "'a world_scheme TaskInstanceRepository \<Rightarrow> 'a world_scheme WorkerRepository \<Rightarrow> string \<Rightarrow> ('a, error + unit) go" where
  "CancelInstance I W scheduleInstanceID =
     if_ok (GetInstanceByScheduleID I scheduleInstanceID) (\<lambda>inst.
       if isTerminalStatus (i_Status inst)
       then raise (Errorf (''instance already in terminal state: '' @ i_Status inst))
       else do {
         (if i_WorkerID inst \<noteq> [] then do {
            r \<leftarrow> GetWorker W (i_WorkerID inst);
            case r of
              Inl err \<Rightarrow> State_Monad.return ()
            | Inr worker \<Rightarrow> do { _ \<leftarrow> CancelDispatch worker scheduleInstanceID; State_Monad.return () } }
          else State_Monad.return ());
         UpdateInstanceResult I scheduleInstanceID ''cancelled'' ''cancelled'' ''cancelled by user'' })"

text \<open>
  The goroutine started for a failed instance. \<open>analyze\<close> stands for the AI service behind
  \<^verbatim>\<open>AIClient.AnalyzeLog\<close>: from message, error code, task type, retry count and instance id to the
  JSON of its result.
\<close>

definition analyzeFailedInstance ::
  "'a world_scheme TaskRepository \<Rightarrow> 'a world_scheme TaskInstanceRepository \<Rightarrow>
   (string \<Rightarrow> string \<Rightarrow> string \<Rightarrow> int \<Rightarrow> int \<Rightarrow> ('a, error + string) go) \<Rightarrow> TaskInstance \<Rightarrow>
   TaskStatusReportRequest \<Rightarrow> ('a, unit) go" where
  "analyzeFailedInstance T I analyze inst req = do {
     r \<leftarrow> GetTask T (i_TaskID inst);
     case r of
       Inl err \<Rightarrow> State_Monad.return ()
     | Inr task \<Rightarrow> do {
         let enrichedMsg = ''[Task: '' @ t_Name task @ '' | Timeout: '' @ itoa (t_TimeoutSeconds task) @
           ''s | MaxRetry: '' @ itoa (t_MaxRetry task) @ '' | RetryPolicy: '' @ t_RetryPolicy task @ '']'' @
           [CHR 0x0A] @ sr_ErrorMessage req;
         result \<leftarrow> analyze enrichedMsg (sr_ErrorCode req) (t_Type task) (i_RetryCount inst) (i_ID inst);
         case result of
           Inl err \<Rightarrow> State_Monad.return ()
         | Inr analysisJSON \<Rightarrow> do {
             _ \<leftarrow> UpdateInstanceAnalysis I (i_ScheduleInstanceID inst) analysisJSON;
             State_Monad.return () } } }"

section \<open>How instances evolve\<close>

text \<open>What never changes about an instance once it exists.\<close>

definition same_identity :: "TaskInstance \<Rightarrow> TaskInstance \<Rightarrow> bool" where
  "same_identity i i' \<longleftrightarrow> i_ID i' = i_ID i \<and> i_TaskID i' = i_TaskID i \<and>
     i_ScheduleInstanceID i' = i_ScheduleInstanceID i \<and> i_RetryCount i' = i_RetryCount i \<and>
     i_ShardNo i' = i_ShardNo i \<and> i_ShardTotal i' = i_ShardTotal i"

lemma same_identity_simps [simp]:
  "same_identity i i"
  "same_identity i (j\<lparr>i_Status := s\<rparr>) = same_identity i j"
  "same_identity i (j\<lparr>i_WorkerID := x\<rparr>) = same_identity i j"
  "same_identity i (j\<lparr>i_UpdatedAt := t\<rparr>) = same_identity i j"
  "same_identity i (j\<lparr>i_DispatchTime := t\<rparr>) = same_identity i j"
  "same_identity i (j\<lparr>i_StartedAt := t\<rparr>) = same_identity i j"
  "same_identity i (j\<lparr>i_FinishedAt := t\<rparr>) = same_identity i j"
  "same_identity i (j\<lparr>i_ErrorCode := s\<rparr>) = same_identity i j"
  "same_identity i (j\<lparr>i_ErrorMessage := s\<rparr>) = same_identity i j"
  by (simp_all add: same_identity_def)

lemma same_identity_trans: "same_identity i j \<Longrightarrow> same_identity j k \<Longrightarrow> same_identity i k"
  by (simp add: same_identity_def)

text \<open>Instances stay, keep their identity, and in a terminal status do not change at all.\<close>

definition evolves :: "view \<Rightarrow> view \<Rightarrow> bool" where
  "evolves v v' \<longleftrightarrow> (\<forall>n i. v_insts v n = Some i \<longrightarrow>
     (\<exists>i'. v_insts v' n = Some i' \<and> same_identity i i' \<and> (isTerminalStatus (i_Status i) \<longrightarrow> i' = i)))"

lemma evolves_same: "v_insts v' = v_insts v \<Longrightarrow> evolves v v'"
  by (simp add: evolves_def)

lemma evolves_trans: "evolves u v \<Longrightarrow> evolves v w \<Longrightarrow> evolves u w"
  unfolding evolves_def by (metis same_identity_trans)

lemma evolves_upd:
  "v_insts v n = Some i \<Longrightarrow> \<not> isTerminalStatus (i_Status i) \<Longrightarrow> same_identity i i' \<Longrightarrow>
     v_insts v' = (v_insts v)(n \<mapsto> i') \<Longrightarrow> evolves v v'"
  by (auto simp: evolves_def)

lemma evolves_new: "v_insts v n = None \<Longrightarrow> v_insts v' = (v_insts v)(n \<mapsto> i) \<Longrightarrow> evolves v v'"
  by (auto simp: evolves_def)

lemma active_status [simp]:
  "\<not> isTerminalStatus ''pending''" "\<not> isTerminalStatus ''dispatched''" "\<not> isTerminalStatus ''retry_waiting''"
  "\<not> isTerminalStatus ''running''"
  by (simp_all add: isTerminalStatus_def)

section \<open>Reservations\<close>

definition loads_nonneg :: "view \<Rightarrow> bool" where
  "loads_nonneg v \<longleftrightarrow> (\<forall>s l. loads v s = Some l \<longrightarrow> 0 \<le> l)"

text \<open>
  The load of the workers changed by the unit that belongs to an instance dispatched to one of them,
  or not at all.
\<close>

definition accounted :: "view \<Rightarrow> view \<Rightarrow> TaskInstance \<Rightarrow> bool" where
  "accounted v v' i \<longleftrightarrow>
     (if i_Status i = ''dispatched''
      then \<exists>l. loads v (i_WorkerID i) = Some l \<and> loads v' = (loads v)(i_WorkerID i \<mapsto> l + 1)
      else loads v' = loads v)"

text \<open>An attempt to dispatch the instance \<open>ri\<close>, stored under \<open>n\<close>: how it may leave the stores.\<close>

definition attempted :: "view \<Rightarrow> view \<Rightarrow> int \<Rightarrow> TaskInstance \<Rightarrow> TaskInstance \<Rightarrow> bool" where
  "attempted v v' n ri i' \<longleftrightarrow>
     v_insts v' = (v_insts v)(n \<mapsto> i') \<and> v_sched v' = v_sched v \<and> v_tasks v' = v_tasks v \<and> v_deps v' = v_deps v \<and>
     same_identity ri i' \<and> (loads_nonneg v \<longrightarrow> accounted v v' i')"

context worker_repository
begin

lemma eligible_load:
  "ok w \<Longrightarrow> x \<in> eligible (vw w) sel \<Longrightarrow>
     v_workers (vw w) (w_ID x) = Some x \<and> loads (vw w) (w_ID x) = Some (w_CurrentLoad x)"
  using worker_id by (force simp: eligible_def ran_def loads_def)

end

text \<open>The three ways an attempt ends: it found no worker, was sent, or was given back.\<close>

lemma loads_worker: "v_workers v' = (v_workers v)(k \<mapsto> y) \<Longrightarrow> loads v' = (loads v)(k \<mapsto> w_CurrentLoad y)"
  by (rule ext) (simp add: loads_def)

lemma attempted_none:
  assumes "v_insts v' = (v_insts v)(n \<mapsto> i')" "v_workers v' = v_workers v" "v_sched v' = v_sched v"
    "v_tasks v' = v_tasks v" "v_deps v' = v_deps v" "same_identity ri i'" "i_Status i' \<noteq> ''dispatched''"
  shows "attempted v v' n ri i'"
  using assms by (simp add: attempted_def accounted_def loads_def fun_eq_iff)

lemma attempted_sent:
  assumes "loads v (w_ID x) = Some (w_CurrentLoad x)"
    "v_insts v' = (v_insts v)(n \<mapsto> i')" "v_workers v' = (v_workers v)(w_ID x \<mapsto> (reserved x)\<lparr>w_LastHeartbeatAt := hb\<rparr>)"
    "v_sched v' = v_sched v" "v_tasks v' = v_tasks v" "v_deps v' = v_deps v" "same_identity ri i'"
    "i_Status i' = ''dispatched''" "i_WorkerID i' = w_ID x"
  shows "attempted v v' n ri i'"
  using assms loads_worker [OF assms(3)] by (simp add: attempted_def accounted_def)

lemma attempted_released:
  assumes "loads v (w_ID x) = Some (w_CurrentLoad x)"
    "v_insts v' = (v_insts v)(n \<mapsto> i')"
    "v_workers v' = (v_workers v)(w_ID x \<mapsto> (reserved x)\<lparr>w_CurrentLoad := l, w_LastHeartbeatAt := hb\<rparr>)"
    "0 \<le> w_CurrentLoad x \<Longrightarrow> l = w_CurrentLoad x"
    "v_sched v' = v_sched v" "v_tasks v' = v_tasks v" "v_deps v' = v_deps v" "same_identity ri i'"
    "i_Status i' \<noteq> ''dispatched''"
  shows "attempted v v' n ri i'"
proof -
  have "loads v' = loads v" if "loads_nonneg v"
    using assms(1,4) that loads_worker [OF assms(3)] by (auto simp: loads_nonneg_def fun_upd_idem)
  then show ?thesis using assms by (simp add: attempted_def accounted_def)
qed

text \<open>A retry of \<open>inst\<close> was created, and either waits or was dispatched.\<close>

definition retried :: "view \<Rightarrow> view \<Rightarrow> int \<Rightarrow> TaskInstance \<Rightarrow> TaskInstance \<Rightarrow> bool" where
  "retried v v' k inst i' \<longleftrightarrow>
     v_insts v (i_ID i') = None \<and> v_insts v' = (v_insts v)(i_ID i' \<mapsto> i') \<and>
     v_sched v' = (v_sched v)(i_ScheduleInstanceID i' \<mapsto> i_ID i') \<and> v_tasks v' = v_tasks v \<and> v_deps v' = v_deps v \<and>
     i_TaskID i' = k \<and> i_RetryCount i' = i_RetryCount inst + 1 \<and>
     i_ShardNo i' = i_ShardNo inst \<and> i_ShardTotal i' = i_ShardTotal inst \<and>
     i_Status i' \<in> {''pending'', ''retry_waiting'', ''dispatched''} \<and>
     (loads_nonneg v \<longrightarrow> accounted v v' i')"

lemma retried_of_attempted:
  assumes "attempted v1 v' n ri i'" "v1 = v\<lparr>v_insts := (v_insts v)(n \<mapsto> ri), v_sched := (v_sched v)(i_ScheduleInstanceID ri \<mapsto> n)\<rparr>"
    "v_insts v n = None" "i_ID ri = n" "i_TaskID ri = k" "i_RetryCount ri = i_RetryCount inst + 1"
    "i_ShardNo ri = i_ShardNo inst" "i_ShardTotal ri = i_ShardTotal inst"
    "i_Status i' \<in> {''pending'', ''retry_waiting'', ''dispatched''}"
  shows "retried v v' k inst i'"
proof -
  have "loads v1 = loads v" by (rule ext) (simp add: loads_def assms(2))
  with assms(1) have "loads_nonneg v \<longrightarrow> accounted v v' i'"
    by (auto simp: attempted_def accounted_def loads_nonneg_def split: if_splits)
  with assms show ?thesis by (simp add: retried_def attempted_def same_identity_def)
qed

lemma retried_waiting:
  assumes "v' = v\<lparr>v_insts := (v_insts v)(n \<mapsto> i'), v_sched := (v_sched v)(sid \<mapsto> n)\<rparr>"
    "v_insts v n = None" "i_ID i' = n" "i_TaskID i' = k" "i_RetryCount i' = i_RetryCount inst + 1"
    "i_ShardNo i' = i_ShardNo inst" "i_ShardTotal i' = i_ShardTotal inst"
    "i_Status i' = ''retry_waiting''" "sid = i_ScheduleInstanceID i'"
  shows "retried v v' k inst i'"
  using assms by (simp add: retried_def accounted_def)

lemma retry_instance_sel [simp]:
  "i_TaskID (retry_instance task inst sid t) = t_ID task" "i_ScheduleInstanceID (retry_instance task inst sid t) = sid"
  "i_Status (retry_instance task inst sid t) = ''pending''"
  "i_RetryCount (retry_instance task inst sid t) = i_RetryCount inst + 1"
  "i_ShardNo (retry_instance task inst sid t) = i_ShardNo inst"
  "i_ShardTotal (retry_instance task inst sid t) = i_ShardTotal inst"
  by (simp_all add: retry_instance_def)

lemma wp_retryScheduleInstanceID:
  "(\<And>sid. Q sid (w\<lparr>readings := Suc (readings w)\<rparr>)) \<Longrightarrow> wp (retryScheduleInstanceID k n) Q w"
  by (simp add: retryScheduleInstanceID_def)

lemma rr_ok_env: "env w' = env w \<Longrightarrow> rr_ok w' = rr_ok w"
  using env_eqD(10) [of w' w] by (simp add: rr_ok_def)

lemma rr_ok_readings [simp]: "rr_ok (w\<lparr>readings := n\<rparr>) = rr_ok w"
  by (simp add: rr_ok_def)

text \<open>When a report asks for a retry.\<close>

definition retry_due :: "view \<Rightarrow> time \<Rightarrow> TaskInstance \<Rightarrow> TaskStatusReportRequest \<Rightarrow> bool" where
  "retry_due v now inst req \<longleftrightarrow> isRetryableStatus (sr_Status req) \<and>
     (case v_tasks v (i_TaskID inst) of None \<Rightarrow> False | Some task \<Rightarrow>
       i_RetryCount inst < t_MaxRetry task \<and>
       shouldRetryOnErrors (t_RetryPolicy task) (t_RetryOnErrors task) (sr_ErrorCode req) \<and>
       (t_RetryWindowSeconds task \<le> 0 \<or>
        Sub now (i_TriggerTime inst) \<le> wrap64 (t_RetryWindowSeconds task * second)))"

text \<open>An alert is posted at most once, and changes no store.\<close>

lemma Alerter_Send_net: "net_step w (snd (run_state (Alerter_Send url p) w))"
proof -
  have r: "net_step w (w\<lparr>readings := n\<rparr>)" for n
    by (rule net_stepI [where n = n and ms = "[]" and l = "limiter w"]) simp
  have s: "net_step w (w\<lparr>readings := n, sent := sent w @ ms\<rparr>)" for n ms
    by (rule net_stepI [where n = n and ms = ms and l = "limiter w"]) simp
  from r s show ?thesis by (auto simp: Alerter_Send_def http_do_def split: option.split)
qed

context store_view
begin

lemma wp_Alerter_Send:
  assumes "ok w" "\<And>w'. ok w' \<Longrightarrow> vw w' = vw w \<Longrightarrow> net_step w w' \<Longrightarrow> Q () w'"
  shows "wp (Alerter_Send url p) Q w"
  by (rule wpI, simp, rule assms(2))
    (use assms(1) net_step_keeps [OF Alerter_Send_net] Alerter_Send_net in blast)+

end

text \<open>
  The enabled tasks of a set have been advanced, to some reading \<open>c n\<close> of the clock; everything else
  is as it was.
\<close>

definition advanced :: "(nat \<Rightarrow> time) \<Rightarrow> Task \<Rightarrow> Task \<Rightarrow> bool" where
  "advanced c t t' \<longleftrightarrow> (\<exists>n u ver. t' = t\<lparr>t_NextTriggerTime := c n, t_UpdatedAt := u, t_Version := ver\<rparr>)"

fun advances_task :: "(nat \<Rightarrow> time) \<Rightarrow> bool \<Rightarrow> Task option \<Rightarrow> Task option \<Rightarrow> bool" where
  "advances_task c b None y \<longleftrightarrow> y = None"
| "advances_task c b (Some t) y \<longleftrightarrow>
     (if b \<and> t_Status t = ''enabled'' then \<exists>t'. y = Some t' \<and> advanced c t t' else y = Some t)"

definition advances :: "(nat \<Rightarrow> time) \<Rightarrow> int set \<Rightarrow> view \<Rightarrow> view \<Rightarrow> bool" where
  "advances c S v v' \<longleftrightarrow> v_insts v' = v_insts v \<and> v_sched v' = v_sched v \<and> v_deps v' = v_deps v \<and>
     v_workers v' = v_workers v \<and> (\<forall>k. advances_task c (k \<in> S) (v_tasks v k) (v_tasks v' k))"

lemma advancedI [intro, simp]: "advanced c t (t\<lparr>t_NextTriggerTime := c n, t_UpdatedAt := u, t_Version := ver\<rparr>)"
  unfolding advanced_def by blast

lemma advanced_trans: "advanced c t u \<Longrightarrow> advanced c u v \<Longrightarrow> advanced c t v"
  unfolding advanced_def by (elim exE) (simp, blast)

lemma advanced_status: "advanced c t u \<Longrightarrow> t_Status u = t_Status t"
  by (auto simp: advanced_def)

lemma advances_task_refl [simp]: "advances_task c False x x"
  by (cases x) simp_all

lemma advances_task_trans: "advances_task c b x y \<Longrightarrow> advances_task c b' y z \<Longrightarrow> advances_task c (b \<or> b') x z"
  by (cases x) (auto simp: advanced_status split: if_splits, metis advanced_trans)

lemma advances_refl [simp]: "advances c {} v v"
  by (simp add: advances_def)

lemma advances_insert: "advances c {k} u v \<Longrightarrow> advances c S v w \<Longrightarrow> advances c (insert k S) u w"
  using advances_task_trans [of c "j \<in> {k}" "v_tasks u j" "v_tasks v j" "j \<in> S" "v_tasks w j" for j]
  by (auto simp: advances_def)

lemma advances_one:
  assumes "v' = v\<lparr>v_tasks := (v_tasks v)(k := y)\<rparr>" "advances_task c True (v_tasks v k) y"
  shows "advances c {k} v v'"
  using assms by (simp add: advances_def)

text \<open>The load of a worker went down by one, if the worker is known and had any.\<close>

definition unloaded :: "string \<Rightarrow> view \<Rightarrow> view \<Rightarrow> bool" where
  "unloaded s v v' \<longleftrightarrow> v_insts v' = v_insts v \<and> v_sched v' = v_sched v \<and> v_deps v' = v_deps v \<and>
     v_tasks v' = v_tasks v \<and>
     loads v' = (case loads v s of None \<Rightarrow> loads v | Some l \<Rightarrow> (loads v)(s \<mapsto> (if 0 < l then l - 1 else l)))"

text \<open>Before retries: downstream tasks fire on success, and the worker's load goes down by one.\<close>

definition wound_down :: "(nat \<Rightarrow> time) \<Rightarrow> TaskInstance \<Rightarrow> TaskStatusReportRequest \<Rightarrow> view \<Rightarrow> view \<Rightarrow> bool" where
  "wound_down c inst req v v' \<longleftrightarrow> (\<exists>u.
     (if sr_Status req = ''success'' then advances c (set (downstream v (i_TaskID inst))) v u else u = v) \<and>
     (if sr_WorkerID req = [] then v' = u else unloaded (sr_WorkerID req) u v'))"

text \<open>What a report leaves behind once the state \<open>v\<close> before the decision on a retry is given.\<close>

definition retry_outcome ::
  "time \<Rightarrow> bool \<Rightarrow> TaskInstance \<Rightarrow> TaskStatusReportRequest \<Rightarrow> view \<Rightarrow> view \<Rightarrow> error + unit \<Rightarrow> bool" where
  "retry_outcome now rr inst req v v' r \<longleftrightarrow>
     (if retry_due v now inst req
      then \<exists>i'. retried v v' (i_TaskID inst) inst i' \<and> (rr \<longrightarrow> i_Status i' \<noteq> ''pending'') else v' = v) \<and>
     (rr \<longrightarrow> r = Inr () \<or> r = Inl ErrTaskNotFound \<and> v_tasks v (i_TaskID inst) = None)"

text \<open>The result of a report was stored in the instance it is about.\<close>

definition result_stored :: "TaskInstance \<Rightarrow> TaskStatusReportRequest \<Rightarrow> view \<Rightarrow> view \<Rightarrow> bool" where
  "result_stored i req v v' \<longleftrightarrow> (\<exists>i'. v' = v\<lparr>v_insts := (v_insts v)(i_ID i \<mapsto> i')\<rparr> \<and> same_identity i i' \<and>
     i_Status i' = sr_Status req \<and> i_ErrorCode i' = sr_ErrorCode req \<and> i_ErrorMessage i' = sr_ErrorMessage req)"

context repositories
begin

lemma wp_format_now: "(\<And>s w'. w' = w\<lparr>readings := Suc (readings w)\<rparr> \<Longrightarrow> Q s w') \<Longrightarrow> wp format_now Q w"
  by (simp add: format_now_def wps)

lemma dispatch_retry_wp:
  assumes "ok w" "v_insts (vw w) n = Some ri" "i_Status ri = ''pending''"
  shows "wp (dispatch_retry I W s task inst ri rc) (\<lambda>r w'. ok w' \<and>
    (\<exists>i'. attempted (vw w) (vw w') n ri i' \<and> i_Status i' \<in> {''pending'', ''retry_waiting'', ''dispatched''} \<and>
      (rr_ok w \<longrightarrow> r = Inr () \<and> i_Status i' \<noteq> ''pending''))) w"
proof -
  have n: "i_ID ri = n" using inst_id [OF assms(1,2)] .
  show ?thesis
    unfolding dispatch_retry_def wp_bind
    apply (rule wp_Pick [OF assms(1)])
    subgoal for err w1 c
      apply (cases "err = ErrNoAvailableWorker")
      subgoal
        apply (simp add: n)
        apply (rule wp_update_status [where i = ri])
          apply simp
         apply (simp add: assms(2))
        subgoal for w2 now
          by (simp, rule exI [of _ "ri\<lparr>i_Status := ''retry_waiting'', i_UpdatedAt := now\<rparr>"])
            (simp add: attempted_none)
        done
      subgoal
        using assms by (auto intro!: exI [of _ ri] attempted_none simp: fun_upd_idem)
      done
    subgoal for x w1 hb c
      apply (simp del: insert_iff)
      apply (rule wp_format_now)
      apply (rule wp_update_dispatch [where i = ri])
        apply simp
       apply (simp add: n assms(2))
      apply (simp del: insert_iff)
      apply (rule wp_Dispatch)
       apply simp
      subgoal for dt w3 now t r w4
        apply (cases r)
        subgoal for err
          apply (simp del: insert_iff)
          apply (rule wp_update_status)
            apply simp
           apply (simp add: n)
          apply (rule wp_Release)
           apply simp
          subgoal for w5 now' w6 hb'
            apply (rule conjI, simp)
            apply (rule exI [of _ "ri\<lparr>i_WorkerID := w_ID x, i_DispatchTime := t, i_Status := ''retry_waiting'', i_UpdatedAt := now'\<rparr>"])
            using eligible_load [OF assms(1), of x] by (auto simp: n intro!: attempted_released [where x = x])
          done
        subgoal for u
          using eligible_load [OF assms(1), of x]
          by (auto simp: n intro!: exI attempted_sent [where x = x])
        done
      done
    done
qed

lemma start_retry_wp:
  assumes "ok w"
  shows "wp (start_retry I W s task inst) (\<lambda>r w'. ok w' \<and>
    (\<exists>i'. retried (vw w) (vw w') (t_ID task) inst i' \<and>
      (rr_ok w \<longrightarrow> r = Inr () \<and> i_Status i' \<noteq> ''pending'') \<and>
      (let delay = retryDelay (t_RetryPolicy task) (i_RetryCount inst + 1) (t_RetryIntervalSeconds task) in
       0 < delay \<longrightarrow> i_Status i' = ''retry_waiting'' \<and> (\<exists>k. i_NextRetryTime i' = clock w k + delay)))) w"
proof (cases "0 < retryDelay (t_RetryPolicy task) (i_RetryCount inst + 1) (t_RetryIntervalSeconds task)")
  case True
  show ?thesis
    apply (simp add: start_retry_def Let_def True)
    apply (rule wp_retryScheduleInstanceID)
    apply simp
    apply (rule wp_create_instance)
     apply (simp add: assms)
    by (simp, rule exI, rule conjI, rule retried_waiting, rule refl) auto
next
  case False
  show ?thesis
    apply (simp add: start_retry_def Let_def False)
    apply (rule wp_retryScheduleInstanceID)
    apply simp
    apply (rule wp_create_instance)
     apply (simp add: assms)
    subgoal for sid w1 n now
      apply (simp only: sum.case)
      apply (rule wp_mono [OF dispatch_retry_wp [where n = n]])
         apply assumption
        apply simp
       apply simp
      by (simp add: rr_ok_env [of w1 w], elim conjE exE, rule exI, rule conjI, erule retried_of_attempted) auto
    done
qed

lemma retryIfNeeded_wp:
  assumes "ok w"
  shows "wp (retryIfNeeded T I W s inst req) (\<lambda>r w'. ok w' \<and>
     (rr_ok w \<longrightarrow> r = Inr () \<or> r = Inl ErrTaskNotFound \<and> v_tasks (vw w) (i_TaskID inst) = None) \<and>
     (if retry_due (vw w) (clock w (readings w)) inst req
      then \<exists>i'. retried (vw w) (vw w') (i_TaskID inst) inst i' \<and> (rr_ok w \<longrightarrow> i_Status i' \<noteq> ''pending'')
      else vw w' = vw w)) w"
proof (cases "retry_due (vw w) (clock w (readings w)) inst req")
  case True
  then obtain task where t: "isRetryableStatus (sr_Status req)" "v_tasks (vw w) (i_TaskID inst) = Some task"
    "i_RetryCount inst < t_MaxRetry task"
    "shouldRetryOnErrors (t_RetryPolicy task) (t_RetryOnErrors task) (sr_ErrorCode req)"
    "t_RetryWindowSeconds task \<le> 0 \<or> Sub (clock w (readings w)) (i_TriggerTime inst) \<le> wrap64 (t_RetryWindowSeconds task * second)"
    by (auto simp: retry_due_def split: option.splits)
  have k: "t_ID task = i_TaskID inst" using task_id [OF assms t(2)] .
  have r: "wp (start_retry I W s task inst) (\<lambda>r w'. ok w' \<and> (rr_ok w \<longrightarrow> r = Inr ()) \<and>
      (\<exists>i'. retried (vw w) (vw w') (i_TaskID inst) inst i' \<and> (rr_ok w \<longrightarrow> i_Status i' \<noteq> ''pending''))) w1"
    if "ok w1" "vw w1 = vw w" "rr_ok w1 = rr_ok w" for w1
    by (rule wp_mono [OF start_retry_wp [OF that(1)]]) (auto simp: that k)
  show ?thesis
  proof (cases "t_RetryWindowSeconds task \<le> 0")
    case True
    then show ?thesis
      using t r [of w] assms \<open>retry_due _ _ _ _\<close>
      by (simp add: retryIfNeeded_def wp_get_task wps retryWindowExceeded_def)
  next
    case False
    then show ?thesis
      using t r [of "w\<lparr>readings := Suc (readings w)\<rparr>"] assms \<open>retry_due _ _ _ _\<close>
      by (simp add: retryIfNeeded_def wp_get_task wps retryWindowExceeded_def Let_def)
  qed
next
  case False
  then show ?thesis
  proof (cases "v_tasks (vw w) (i_TaskID inst)")
    case None
    then show ?thesis using assms False by (simp add: retryIfNeeded_def wps wp_get_task)
  next
    case (Some task)
    then show ?thesis
      using assms False
      by (auto simp: retryIfNeeded_def wps wp_get_task retry_due_def retryWindowExceeded_def Let_def
          split: option.split intro!: wp_Alerter_Send)
  qed
qed

lemma advance_downstream_wp:
  assumes "ok w"
  shows "wp (advance_downstream T k) (\<lambda>_ w'. ok w' \<and> env w' = env w \<and> advances (clock w) {k} (vw w) (vw w')) w"
proof (cases "v_tasks (vw w) k")
  case None
  then show ?thesis
    using assms by (simp add: advance_downstream_def wp_get_task advances_one [where y = None] fun_upd_idem)
next
  case (Some t)
  have k: "t_ID t = k" using task_id [OF assms Some] .
  show ?thesis
  proof (cases "t_Status t = ''enabled''")
    case False
    then show ?thesis
      using assms Some
      by (simp add: advance_downstream_def wp_get_task wps advances_one [where y = "Some t"] fun_upd_idem)
  next
    case True
    show ?thesis
      apply (simp add: advance_downstream_def wp_get_task assms Some wps True)
      apply (rule wp_update_task)
        apply (simp add: assms)
      by (auto simp: k Some True intro!: advances_one)
  qed
qed

lemma fireDownstream_loop_wp:
  "ok w \<Longrightarrow> wp (fireDownstream_loop T ids)
     (\<lambda>_ w'. ok w' \<and> env w' = env w \<and> advances (clock w) (set ids) (vw w) (vw w')) w"
proof (induction ids arbitrary: w)
  case Nil
  then show ?case by simp
next
  case (Cons k ids)
  show ?case
    unfolding fireDownstream_loop.simps wp_bind
  proof (rule wp_mono [OF advance_downstream_wp [OF Cons.prems]])
    fix u w1
    assume 1: "ok w1 \<and> env w1 = env w \<and> advances (clock w) {k} (vw w) (vw w1)"
    then have "clock w1 = clock w" using env_eqD(1) [of w1 w] by simp
    with 1 advances_insert show "wp (fireDownstream_loop T ids)
        (\<lambda>_ w'. ok w' \<and> env w' = env w \<and> advances (clock w) (set (k # ids)) (vw w) (vw w')) w1"
      by (intro wp_mono [OF Cons.IH [of w1]]) force+
  qed
qed

lemma fireDownstream_wp:
  "ok w \<Longrightarrow> wp (fireDownstream T inst) (\<lambda>_ w'. ok w' \<and> env w' = env w \<and>
     advances (clock w) (set (downstream (vw w) (i_TaskID inst))) (vw w) (vw w')) w"
  using fireDownstream_loop_wp by (simp add: fireDownstream_def wp_downstream)

lemma release_load_wp:
  assumes "ok w" "v_workers (vw w) s = Some x"
  shows "wp (UpsertWorker W (if w_CurrentLoad x > 0 then x\<lparr>w_CurrentLoad := w_CurrentLoad x - 1\<rparr> else x))
    (\<lambda>r w'. r = Inr () \<and> ok w' \<and> env w' = env w \<and> unloaded s (vw w) (vw w')) w"
proof -
  have "w_ID x = s" using worker_id [OF assms] .
  then show ?thesis
    using assms by (intro wp_upsert) (auto simp: unloaded_def loads_def fun_eq_iff)
qed

lemma settle_wp:
  assumes "ok w"
  shows "wp (settle_worker T I W s inst req) (\<lambda>r w'. ok w' \<and>
    (\<exists>v n. (if sr_WorkerID req = [] then v = vw w else unloaded (sr_WorkerID req) (vw w) v) \<and>
      retry_outcome (clock w n) (rr_ok w) inst req v (vw w') r)) w"
proof -
  have retry: "wp (retryIfNeeded T I W s inst req) (\<lambda>r w'. ok w' \<and>
      (\<exists>v n. (if sr_WorkerID req = [] then v = vw w else unloaded (sr_WorkerID req) (vw w) v) \<and>
        retry_outcome (clock w n) (rr_ok w) inst req v (vw w') r)) w1"
    if "ok w1" "clock w1 = clock w" "rr_ok w1 = rr_ok w"
      "if sr_WorkerID req = [] then vw w1 = vw w else unloaded (sr_WorkerID req) (vw w) (vw w1)" for w1
    by (rule wp_mono [OF retryIfNeeded_wp [OF that(1)]], intro conjI, simp,
        rule exI [of _ "vw w1"], rule exI [of _ "readings w1"])
      (use that in \<open>auto simp: retry_outcome_def\<close>)
  show ?thesis
  proof (cases "sr_WorkerID req = [] \<or> v_workers (vw w) (sr_WorkerID req) = None")
    case True
    then show ?thesis
      using retry [of w] assms
      by (auto simp: settle_worker_def wp_get_worker unloaded_def loads_def wps)
  next
    case False
    then obtain x where x: "sr_WorkerID req \<noteq> []" "v_workers (vw w) (sr_WorkerID req) = Some x" by auto
    show ?thesis
      apply (simp only: settle_worker_def x if_False wp_bind wp_if_ok)
      apply (simp only: wp_get_worker [OF assms] x option.case sum.case wp_case_sum wp_if_ok)
      apply (rule wp_mono [OF release_load_wp [OF assms x(2)]])
      using x(1) retry by (auto dest: rr_ok_env env_eqD(1))
  qed
qed

lemma finish_report_wp:
  assumes "ok w"
  shows "wp (finish_report T I W s inst req) (\<lambda>r w'. ok w' \<and>
    (\<exists>v n. wound_down (clock w) inst req (vw w) v \<and>
      retry_outcome (clock w n) (rr_ok w) inst req v (vw w') r)) w"
proof -
  let ?w = "if sr_Status req = ''failed'' \<and> rt_hasAI s then w\<lparr>sent := sent w @ [SpawnAnalysis inst req]\<rparr> else w"
  have w: "ok ?w" "vw ?w = vw w" "clock ?w = clock w" "rr_ok ?w = rr_ok w"
    using assms by (simp_all add: rr_ok_def)
  have fire: "wp (if sr_Status req = ''success'' then fireDownstream T inst else State_Monad.return ())
      (\<lambda>_ w1. ok w1 \<and> clock w1 = clock w \<and> rr_ok w1 = rr_ok w \<and>
        (if sr_Status req = ''success''
         then advances (clock w) (set (downstream (vw w) (i_TaskID inst))) (vw w) (vw w1) else vw w1 = vw w)) ?w"
    using w fireDownstream_wp [OF w(1), of inst]
    by (auto simp: wps elim!: wp_mono dest: rr_ok_env env_eqD(1))
  have "wp (finish_report T I W s inst req) Q w \<longleftrightarrow>
      wp (if sr_Status req = ''success'' then fireDownstream T inst else State_Monad.return ())
        (\<lambda>_. wp (settle_worker T I W s inst req) Q) ?w" for Q
    by (simp add: finish_report_def settle_worker_def wps)
  then show ?thesis
    using fire
    apply (simp only:)
    apply (rule wp_mono, assumption)
    apply (elim conjE)
    apply (rule wp_mono [OF settle_wp], assumption)
    apply (auto simp: wound_down_def split: if_splits)
    done
qed

lemma v_inst_upd:
  "ok w \<Longrightarrow> v_inst (vw w) sid = Some i \<Longrightarrow> v_inst ((vw w)\<lparr>v_insts := (v_insts (vw w))(i_ID i \<mapsto> j)\<rparr>) sid = Some j"
  by (erule (1) v_instE) (simp add: v_inst_def)

lemma stamp_wp:
  assumes "ok w" "v_inst (vw w) (sr_ScheduleInstanceID req) = Some i"
  shows "wp (stamp I req) (\<lambda>_ w'. ok w' \<and> env w' = env w \<and> (\<exists>i'.
    vw w' = (vw w)\<lparr>v_insts := (v_insts (vw w))(i_ID i \<mapsto> i')\<rparr> \<and> same_identity i i' \<and>
    i_Status i' = i_Status i \<and> i_ErrorCode i' = i_ErrorCode i \<and> i_ErrorMessage i' = i_ErrorMessage i)) w"
proof (cases "sr_StartedAt req \<noteq> [] \<or> sr_FinishedAt req \<noteq> []")
  case True
  show ?thesis
    unfolding stamp_def if_P [OF True] wp_bind
    apply (rule wp_update_timestamps [OF assms])
    apply (simp only: wp_return simp_thms)
    apply (rule exI)
    apply (rule conjI)
     apply (rule refl)
    by simp
next
  case False
  have "vw w = (vw w)\<lparr>v_insts := (v_insts (vw w))(i_ID i \<mapsto> i)\<rparr>"
    using v_inst_id [OF assms] by (simp add: fun_upd_idem)
  then show ?thesis using False assms(1) same_identity_simps(1) [of i] by (auto simp: stamp_def)
qed

lemma ReportStatus_wp:
  assumes "ok w" "sr_ScheduleInstanceID req \<noteq> []" "v_inst (vw w) (sr_ScheduleInstanceID req) = Some i"
    "\<not> isTerminalStatus (i_Status i)"
  shows "wp (ReportStatus T I W s req) (\<lambda>r w'. ok w' \<and> (\<exists>u. result_stored i req (vw w) u \<and>
    (if sr_Status req = ''running'' then vw w' = u \<and> r = Inr ()
     else \<exists>v n. wound_down (clock w) i req u v \<and> retry_outcome (clock w n) (rr_ok w) i req v (vw w') r))) w"
  unfolding ReportStatus_def if_not_P [OF assms(2)] wp_if_ok wp_get_by_schedule [OF assms(1)] assms(3)
    option.case sum.case if_not_P [OF assms(4)]
proof (rule wp_update_result [OF assms(1,3)], simp only: sum.case wp_bind)
  fix w1 now
  let ?i = "i\<lparr>i_Status := sr_Status req, i_ErrorCode := sr_ErrorCode req, i_ErrorMessage := sr_ErrorMessage req,
      i_UpdatedAt := now\<rparr>"
  assume 1: "ok w1" "env w1 = env w" "vw w1 = (vw w)\<lparr>v_insts := (v_insts (vw w))(i_ID i \<mapsto> ?i)\<rparr>"
  have i1: "v_inst (vw w1) (sr_ScheduleInstanceID req) = Some ?i"
    using v_inst_upd [OF assms(1,3)] 1(3) by simp
  show "wp (stamp I req) (\<lambda>_. wp (inc_counter ''task_runtime_reports_total'' [(''status'', sr_Status req)])
      (\<lambda>_. wp (if sr_Status req = ''running'' then ret () else finish_report T I W s i req)
        (\<lambda>r w'. ok w' \<and> (\<exists>u. result_stored i req (vw w) u \<and>
    (if sr_Status req = ''running'' then vw w' = u \<and> r = Inr ()
     else \<exists>v n. wound_down (clock w) i req u v \<and> retry_outcome (clock w n) (rr_ok w) i req v (vw w') r))))) w1"
  proof (rule wp_mono [OF stamp_wp [OF 1(1) i1]])
    fix a :: unit and w2
    assume "ok w2 \<and> env w2 = env w1 \<and> (\<exists>i'.
      vw w2 = (vw w1)\<lparr>v_insts := (v_insts (vw w1))(i_ID ?i \<mapsto> i')\<rparr> \<and> same_identity ?i i' \<and>
      i_Status i' = i_Status ?i \<and> i_ErrorCode i' = i_ErrorCode ?i \<and> i_ErrorMessage i' = i_ErrorMessage ?i)"
    then have 2: "ok w2" "env w2 = env w" "result_stored i req (vw w) (vw w2)"
      using 1 by (auto simp: result_stored_def same_identity_def)
    let ?w3 = "w2\<lparr>registry := IncCounter (unicode_print w2) ''task_runtime_reports_total'' [(''status'', sr_Status req)] (registry w2)\<rparr>"
    have 3: "ok ?w3" "vw ?w3 = vw w2" "clock ?w3 = clock w" "rr_ok ?w3 = rr_ok w"
      using 2(1) env_eqD(1,10) [OF 2(2)] by (simp_all add: rr_ok_def)
    show "wp (inc_counter ''task_runtime_reports_total'' [(''status'', sr_Status req)])
      (\<lambda>_. wp (if sr_Status req = ''running'' then ret () else finish_report T I W s i req)
        (\<lambda>r w'. ok w' \<and> (\<exists>u. result_stored i req (vw w) u \<and>
    (if sr_Status req = ''running'' then vw w' = u \<and> r = Inr ()
     else \<exists>v n. wound_down (clock w) i req u v \<and> retry_outcome (clock w n) (rr_ok w) i req v (vw w') r)))) w2"
    proof (cases "sr_Status req = ''running''")
      case True
      then show ?thesis using 2 by auto
    next
      case False
      have "wp (finish_report T I W s i req) (\<lambda>r w'. ok w' \<and> (\<exists>u. result_stored i req (vw w) u \<and>
          (\<exists>v n. wound_down (clock w) i req u v \<and> retry_outcome (clock w n) (rr_ok w) i req v (vw w') r))) ?w3"
        by (rule wp_mono [OF finish_report_wp [OF 3(1)]], unfold 3) (use 2(3) in blast)
      then show ?thesis by (simp only: False if_False wp_effects)
    qed
  qed
qed

lemma CancelInstance_wp:
  assumes "ok w" "v_inst (vw w) sid = Some i" "\<not> isTerminalStatus (i_Status i)"
  shows "wp (CancelInstance I W sid) (\<lambda>r w'. r = Inr () \<and> ok w' \<and> (\<exists>now. vw w' = (vw w)\<lparr>v_insts := (v_insts (vw w))(i_ID i \<mapsto>
     i\<lparr>i_Status := ''cancelled'', i_ErrorCode := ''cancelled'', i_ErrorMessage := ''cancelled by user'', i_UpdatedAt := now\<rparr>)\<rparr>)) w"
  (is "wp _ ?Q w")
proof -
  have upd: "wp (UpdateInstanceResult I sid ''cancelled'' ''cancelled'' ''cancelled by user'') ?Q w1"
    if "ok w1" "vw w1 = vw w" for w1
    by (rule wp_update_result [OF that(1), of sid i]) (use that assms in auto)
  show ?thesis
  proof (cases "i_WorkerID i \<noteq> [] \<and> v_workers (vw w) (i_WorkerID i) \<noteq> None")
    case True
    then obtain x where "v_workers (vw w) (i_WorkerID i) = Some x" by auto
    with True show ?thesis
      using assms upd
      by (auto simp: CancelInstance_def wp_get_by_schedule wp_get_worker wps intro!: wp_CancelDispatch)
  next
    case False
    then show ?thesis
      using assms upd by (auto simp: CancelInstance_def wp_get_by_schedule wp_get_worker wps)
  qed
qed

end

section \<open>Properties\<close>

text \<open>
  Reports are idempotent once an instance is done: a report about an instance in a terminal status
  succeeds and changes nothing at all, whatever it says.
\<close>

theorem ReportStatus_duplicate:
  assumes "stores_ok w" "sr_ScheduleInstanceID req \<noteq> []"
    "v_inst (test_view w) (sr_ScheduleInstanceID req) = Some i" "isTerminalStatus (i_Status i)"
  shows "run_state (ReportStatus test_tasks test_instances test_workers s req) w = (Inr (), w)"
  using assms ts.get_by_schedule [OF assms(1), of "sr_ScheduleInstanceID req"]
  by (simp add: ReportStatus_def)

definition sample_report :: "string \<Rightarrow> TaskStatusReportRequest" where
  "sample_report status = \<lparr>sr_ScheduleInstanceID = ''task-1-1'', sr_WorkerID = ''w1'', sr_Status = status,
     sr_ErrorCode = ''exit'', sr_ErrorMessage = ''exit status 1'', sr_StartedAt = [], sr_FinishedAt = []\<rparr>"

definition sample_runtime :: TaskRuntimeService where
  "sample_runtime = \<lparr>rt_alerter = None, rt_schedulerURL = ''http://scheduler'', rt_hasAI = False\<rparr>"

definition sample_done :: stores where
  "sample_done = sample\<lparr>instance_store := \<lparr>is_nextID = 2,
     is_instances = [(1, sample_instance\<lparr>i_Status := ''success''\<rparr>)], is_bySchedule = [(''task-1-1'', 1)]\<rparr>\<rparr>"

lemma sample_done_ok: "stores_ok sample_done"
  by (auto simp: stores_ok_def sample_done_def sample_def keyed_def wf_map_def sample_task_def sample_instance_def
      sample_worker_def split: if_splits)

theorem ReportStatus_duplicate_witness:
  "run_state (ReportStatus test_tasks test_instances test_workers sample_runtime (sample_report ''failed'')) sample_done
     = (Inr (), sample_done)"
proof (rule ReportStatus_duplicate)
  show "stores_ok sample_done" by (rule sample_done_ok)
  show "v_inst (test_view sample_done) (sr_ScheduleInstanceID (sample_report ''failed'')) =
      Some (sample_instance\<lparr>i_Status := ''success''\<rparr>)"
    by (simp add: v_inst_def test_view_def sample_done_def sample_report_def)
qed (simp_all add: sample_report_def isTerminalStatus_def)



text \<open>
  Cancelling an instance that is still active marks it cancelled and changes no other record of the
  stores, whether or not its worker can be told; an instance in a terminal status cannot be cancelled
  and stays as it is.
\<close>

theorem CancelInstance_cancels:
  assumes "stores_ok w" "v_inst (test_view w) sid = Some i"
  shows "case run_state (CancelInstance test_instances test_workers sid) w of (r, w') \<Rightarrow>
    if isTerminalStatus (i_Status i)
    then r = Inl (Errorf (''instance already in terminal state: '' @ i_Status i)) \<and> w' = w
    else r = Inr () \<and> stores_ok w' \<and> (\<exists>now. test_view w' = (test_view w)\<lparr>v_insts := (v_insts (test_view w))(i_ID i \<mapsto>
      i\<lparr>i_Status := ''cancelled'', i_ErrorCode := ''cancelled'', i_ErrorMessage := ''cancelled by user'',
        i_UpdatedAt := now\<rparr>)\<rparr>)"
proof (cases "isTerminalStatus (i_Status i)")
  case True
  then show ?thesis
    using assms ts.get_by_schedule [OF assms(1), of sid] by (simp add: CancelInstance_def)
next
  case False
  from ts.CancelInstance_wp [OF assms False] show ?thesis
    using False by (simp only: wp_def if_False)
qed

theorem CancelInstance_cancels_witness:
  "fst (run_state (CancelInstance test_instances test_workers ''task-1-1'') sample) = Inr ()"
proof -
  have "v_inst (test_view sample) ''task-1-1'' = Some sample_instance" by (simp add: v_inst_def)
  then show ?thesis
    using CancelInstance_cancels [of sample "''task-1-1''" sample_instance]
    by (auto simp: sample_instance_def split: prod.splits)
qed

lemma wrap64_shift: "wrap64 (y - 2 ^ 64 * z) = wrap64 y"
proof -
  have "(y - 2 ^ 64 * z + 2 ^ 63) mod 2 ^ 64 = (y + 2 ^ 63 + 2 ^ 64 * (- z)) mod 2 ^ 64"
    by (simp add: algebra_simps)
  then show ?thesis by (simp only: wrap64_def mod_mult_self2)
qed

lemma wrap64_mult: "wrap64 (wrap64 x * y) = wrap64 (x * y)"
proof -
  let ?d = "(x + 2 ^ 63) div 2 ^ 64"
  have "wrap64 x = x - 2 ^ 64 * ?d"
    unfolding wrap64_def by (simp only: minus_mult_div_eq_mod [symmetric])
  then have "wrap64 x * y = x * y - 2 ^ 64 * (?d * y)" by (simp only: left_diff_distrib mult.assoc)
  then show ?thesis by (simp only: wrap64_shift)
qed

text \<open>
  The delay before the retry number \<open>n\<close> doubles with every retry and is capped at ten minutes, as
  long as the product fits in 64 bits, which it does up to 33 retries; from 55 retries on it is zero,
  and the retry is dispatched at once.
\<close>

theorem retryDelay_backoff:
  "(0 \<le> n \<and> n \<le> 33 \<longrightarrow> retryDelay ''exponential_backoff'' n k = min (2 ^ nat n * second) (10 * minute)) \<and>
   (55 \<le> n \<longrightarrow> retryDelay ''exponential_backoff'' n k = 0)"
proof (intro conjI impI)
  assume n: "0 \<le> n \<and> n \<le> 33"
  have p: "(2::int) ^ nat n \<le> 2 ^ 33" using n by (intro power_increasing) auto
  have "in_int64 x \<and> in_int64 (x * second)" if "0 < x" "x \<le> 2 ^ 33" for x :: int
    using that by (simp add: in_int64_def)
  from this [of "2 ^ nat n"] p have "in_int64 (2 ^ nat n)" "in_int64 (2 ^ nat n * second)" by simp_all
  then have "wrap64 (2 ^ nat n) = 2 ^ nat n" "wrap64 (2 ^ nat n * second) = 2 ^ nat n * second"
    by simp_all
  then show "retryDelay ''exponential_backoff'' n k = min (2 ^ nat n * second) (10 * minute)"
    by (simp add: retryDelay_def Let_def min_def)
next
  assume n: "55 \<le> n"
  have "nat n = 55 + (nat n - 55)" using n by simp
  then have "(2::int) ^ nat n = 2 ^ 55 * 2 ^ (nat n - 55)" by (metis power_add)
  then have "(2::int) ^ nat n * second = 2 ^ 64 * (1953125 * 2 ^ (nat n - 55))" by simp
  moreover have "wrap64 (2 ^ 64 * y) = 0" for y by (simp add: wrap64_def)
  ultimately show "retryDelay ''exponential_backoff'' n k = 0"
    by (simp only: retryDelay_def Let_def wrap64_mult) simp
qed

theorem retryDelay_backoff_witness:
  "retryDelay ''exponential_backoff'' 3 0 = 8 * second \<and> retryDelay ''exponential_backoff'' 60 0 = 0"
  using retryDelay_backoff [of 3 0] retryDelay_backoff [of 60 0] by simp

text \<open>Between the two the product has wrapped around, to a negative delay at 34 retries.\<close>

lemma retryDelay_wraps: "retryDelay ''exponential_backoff'' 34 k < 0"
  by (simp add: retryDelay_def wrap64_def Let_def)

end
