(* ===== verification/RetryLoop.thy ===== *)
theory RetryLoop
  imports Runtime
begin

text \<open>
  \<^verbatim>\<open>internal/scheduler/retry\<close>: the loop that re-dispatches the instances waiting for a retry. A scan is
  one operation of the model; \<^verbatim>\<open>Start\<close> repeats it at every tick. What it shows is that a scan touches
  the due instances only, and that the load it puts on the workers is exactly the number of
  instances it dispatched.
\<close>

section \<open>Operations\<close>

record RetryLoop =
  rl_interval :: duration
  rl_schedulerURL :: string

definition NewRetryLoop :: "duration \<Rightarrow> string \<Rightarrow> RetryLoop" where
  "NewRetryLoop interval url =
     \<lparr>rl_interval = (if interval \<le> 0 then 3 * second else interval), rl_schedulerURL = url\<rparr>"

text \<open>One round of the loop over the due instances; the result tells whether the scan ends here.\<close>

definition redispatch ::
  "'a world_scheme TaskRepository \<Rightarrow> 'a world_scheme TaskInstanceRepository \<Rightarrow>
   'a world_scheme WorkerRepository \<Rightarrow> RetryLoop \<Rightarrow> TaskInstance \<Rightarrow> ('a, bool) go" where
  "redispatch T I W l inst = do {
     got \<leftarrow> GetTask T (i_TaskID inst);
     case got of
       Inl err \<Rightarrow> State_Monad.return False
     | Inr task \<Rightarrow> do {
         picked \<leftarrow> Pick W \<lparr>so_Labels = DecodeLabels (t_Labels task), so_Strategy = t_RouteStrategy task\<rparr>;
         case picked of
           Inl err \<Rightarrow> State_Monad.return (err = ErrNoAvailableWorker)
         | Inr worker \<Rightarrow> do {
             dispatchTime \<leftarrow> format_now;
             upd \<leftarrow> UpdateInstanceDispatch I (i_ID inst) (w_ID worker) dispatchTime;
             case upd of
               Inl err \<Rightarrow> do { _ \<leftarrow> Release W worker; State_Monad.return False }
             | Inr _ \<Rightarrow> do {
                 sent \<leftarrow> Dispatch worker (zero_ExecuteTaskRequest\<lparr>
                   q_ScheduleInstanceID := i_ScheduleInstanceID inst, q_TaskID := t_ID task,
                   q_TaskType := t_Type task, q_Payload := t_Payload task,
                   q_TimeoutSeconds := t_TimeoutSeconds task, q_RetryCount := i_RetryCount inst,
                   q_ShardNo := i_ShardNo inst, q_ShardTotal := i_ShardTotal inst,
                   q_IdempotencyKey := t_IdempotencyKey task, q_SchedulerURL := rl_schedulerURL l\<rparr>);
                 case sent of
                   Inl err \<Rightarrow> do {
                     _ \<leftarrow> UpdateInstanceStatus I (i_ID inst) ''retry_waiting'';
                     _ \<leftarrow> Release W worker;
                     State_Monad.return False }
                 | Inr _ \<Rightarrow> State_Monad.return False } } } }"

fun redispatch_loop ::
  "'a world_scheme TaskRepository \<Rightarrow> 'a world_scheme TaskInstanceRepository \<Rightarrow>
   'a world_scheme WorkerRepository \<Rightarrow> RetryLoop \<Rightarrow> TaskInstance list \<Rightarrow> ('a, unit) go" where
  "redispatch_loop T I W l [] = State_Monad.return ()"
| "redispatch_loop T I W l (inst # rest) = do {
     stop \<leftarrow> redispatch T I W l inst;
     if stop then State_Monad.return () else redispatch_loop T I W l rest }"

definition retry_scan ::
  "'a world_scheme TaskRepository \<Rightarrow> 'a world_scheme TaskInstanceRepository \<Rightarrow>
   'a world_scheme WorkerRepository \<Rightarrow> RetryLoop \<Rightarrow> ('a, unit) go" where
  "retry_scan T I W l = do {
     now \<leftarrow> time_now;
     due \<leftarrow> ListDueRetryInstances I now 100;
     case due of
       Inl err \<Rightarrow> State_Monad.return ()
     | Inr xs \<Rightarrow> redispatch_loop T I W l xs }"

section \<open>The balance of load and dispatched instances\<close>

definition total_load :: "view \<Rightarrow> int" where
  "total_load v = (\<Sum>s \<in> dom (loads v). the (loads v s))"

definition dispatched_ids :: "view \<Rightarrow> int set" where
  "dispatched_ids v = {n. \<exists>i. v_insts v n = Some i \<and> i_Status i = ''dispatched''}"

definition finite_view :: "view \<Rightarrow> bool" where
  "finite_view v \<longleftrightarrow> finite (dom (v_insts v)) \<and> finite (dom (loads v)) \<and> loads_nonneg v"

text \<open>Load was added for the instances that became dispatched, and for nothing else.\<close>

definition balanced :: "view \<Rightarrow> view \<Rightarrow> bool" where
  "balanced v v' \<longleftrightarrow> (finite_view v \<longrightarrow> finite_view v' \<and>
     total_load v' - total_load v = int (card (dispatched_ids v')) - int (card (dispatched_ids v)))"

lemma balanced_refl [simp]: "balanced v v"
  by (simp add: balanced_def)

lemma balanced_trans: "balanced u v \<Longrightarrow> balanced v w \<Longrightarrow> balanced u w"
  by (auto simp: balanced_def)

lemma finite_dispatched: "finite (dom (v_insts v)) \<Longrightarrow> finite (dispatched_ids v)"
  by (rule finite_subset [of _ "dom (v_insts v)"]) (auto simp: dispatched_ids_def)

lemma total_load_upd:
  assumes "finite (dom (loads v))" "loads v s = Some l" "loads v' = (loads v)(s \<mapsto> l')"
  shows "total_load v' = total_load v + l' - l"
proof -
  have s: "s \<in> dom (loads v)" and d: "dom (loads v') = dom (loads v)" using assms(2,3) by auto
  have "total_load v' = l' + (\<Sum>x \<in> dom (loads v) - {s}. the (loads v x))"
    unfolding total_load_def d using assms s by (subst sum.remove [OF assms(1) s]) (auto intro!: sum.cong)
  moreover have "total_load v = l + (\<Sum>x \<in> dom (loads v) - {s}. the (loads v x))"
    unfolding total_load_def using assms by (subst sum.remove [OF assms(1) s]) auto
  ultimately show ?thesis by simp
qed

lemma attempted_balanced:
  assumes "attempted v v' n ri i'" "\<forall>i. v_insts v n = Some i \<longrightarrow> i_Status i \<noteq> ''dispatched''"
  shows "balanced v v'"
  unfolding balanced_def
proof
  assume f: "finite_view v"
  then have a: "accounted v v' i'" "v_insts v' = (v_insts v)(n \<mapsto> i')"
    using assms(1) by (simp_all add: attempted_def finite_view_def)
  have n: "n \<notin> dispatched_ids v" using assms(2) by (auto simp: dispatched_ids_def)
  show "finite_view v' \<and> total_load v' - total_load v = int (card (dispatched_ids v')) - int (card (dispatched_ids v))"
  proof (cases "i_Status i' = ''dispatched''")
    case True
    with a(1) obtain l where l: "loads v (i_WorkerID i') = Some l" "loads v' = (loads v)(i_WorkerID i' \<mapsto> l + 1)"
      by (auto simp: accounted_def)
    have "dispatched_ids v' = insert n (dispatched_ids v)" using a(2) True by (auto simp: dispatched_ids_def)
    moreover have "total_load v' = total_load v + 1"
      using total_load_upd [OF _ l] f by (simp add: finite_view_def)
    moreover have "finite_view v'"
      using f l a(2) by (force simp: finite_view_def loads_nonneg_def)
    ultimately show ?thesis using n f finite_dispatched [of v] by (simp add: finite_view_def)
  next
    case False
    then have "loads v' = loads v" using a(1) by (simp add: accounted_def)
    moreover have "dispatched_ids v' = dispatched_ids v" using a(2) False n by (auto simp: dispatched_ids_def)
    ultimately show ?thesis using f a(2) by (simp add: finite_view_def total_load_def loads_nonneg_def)
  qed
qed

section \<open>A scan\<close>

text \<open>The instances of \<open>S\<close> wait or were dispatched; every other record is as it was.\<close>

definition rescanned :: "int set \<Rightarrow> view \<Rightarrow> view \<Rightarrow> bool" where
  "rescanned S v v' \<longleftrightarrow> v_tasks v' = v_tasks v \<and> v_deps v' = v_deps v \<and> v_sched v' = v_sched v \<and>
     (\<forall>n. n \<notin> S \<longrightarrow> v_insts v' n = v_insts v n) \<and>
     (\<forall>n \<in> S. \<exists>i i'. v_insts v n = Some i \<and> v_insts v' n = Some i' \<and> same_identity i i' \<and>
        i_Status i' \<in> {''retry_waiting'', ''dispatched''}) \<and> balanced v v'"

lemma rescanned_empty [simp]: "rescanned {} v v"
  by (simp add: rescanned_def)

lemma rescanned_one:
  assumes "attempted v v' n i i'" "v_insts v n = Some i" "i_Status i = ''retry_waiting''"
    "i_Status i' \<in> {''retry_waiting'', ''dispatched''}"
  shows "rescanned {n} v v'"
  using assms attempted_balanced [OF assms(1)] by (simp add: rescanned_def attempted_def)

lemma rescanned_insert:
  assumes "rescanned {n} u v" "rescanned S v w" "n \<notin> S"
  shows "rescanned (insert n S) u w"
  unfolding rescanned_def
proof (intro conjI ballI allI impI)
  fix k
  assume "k \<in> insert n S"
  then show "\<exists>i i'. v_insts u k = Some i \<and> v_insts w k = Some i' \<and> same_identity i i' \<and>
      i_Status i' \<in> {''retry_waiting'', ''dispatched''}"
  proof
    assume "k = n"
    with assms show ?thesis unfolding rescanned_def by (metis singletonI)
  next
    assume k: "k \<in> S"
    with assms(3) have "v_insts v k = v_insts u k" using assms(1) by (auto simp: rescanned_def)
    with k assms(2) show ?thesis unfolding rescanned_def by metis
  qed
next
  show "balanced u w" using assms balanced_trans unfolding rescanned_def by metis
qed (use assms in \<open>auto simp: rescanned_def\<close>)

lemma rescanned_more:
  assumes "rescanned S v v'" "\<forall>n \<in> S'. \<exists>i. v_insts v n = Some i \<and> i_Status i = ''retry_waiting''"
  shows "rescanned (S \<union> S') v v'"
  unfolding rescanned_def
proof (intro conjI ballI allI impI)
  fix k
  assume "k \<in> S \<union> S'"
  then show "\<exists>i i'. v_insts v k = Some i \<and> v_insts v' k = Some i' \<and> same_identity i i' \<and>
      i_Status i' \<in> {''retry_waiting'', ''dispatched''}"
  proof (cases "k \<in> S")
    case True
    with assms(1) show ?thesis unfolding rescanned_def by blast
  next
    case False
    with \<open>k \<in> S \<union> S'\<close> assms(2) obtain i where "v_insts v k = Some i" "i_Status i = ''retry_waiting''" by blast
    moreover have "v_insts v' k = v_insts v k" using assms(1) False by (simp add: rescanned_def)
    ultimately show ?thesis by simp
  qed
qed (use assms in \<open>auto simp: rescanned_def\<close>)

definition due_retry :: "time \<Rightarrow> TaskInstance \<Rightarrow> bool" where
  "due_retry now i \<longleftrightarrow> i_Status i = ''retry_waiting'' \<and> (IsZero (i_NextRetryTime i) \<or> i_NextRetryTime i \<le> now)"

context repositories
begin

lemma redispatch_wp:
  assumes "ok w" "v_insts (vw w) n = Some i" "i_Status i = ''retry_waiting''"
  shows "wp (redispatch T I W l i) (\<lambda>_ w'. ok w' \<and> rescanned {n} (vw w) (vw w')) w"
proof (cases "v_tasks (vw w) (i_TaskID i)")
  case None
  have "attempted (vw w) (vw w) n i i" using assms by (intro attempted_none) (simp_all add: fun_upd_idem)
  from rescanned_one [OF this assms(2,3)] assms(1,3) None show ?thesis by (simp add: redispatch_def wp_get_task)
next
  case (Some task)
  have n: "i_ID i = n" using inst_id [OF assms(1,2)] .
  show ?thesis
    unfolding redispatch_def wp_bind wp_get_task [OF assms(1)] Some option.case sum.case
    apply (rule wp_Pick [OF assms(1)])
    subgoal for err w1 c
    proof -
      assume 1: "ok w1" "vw w1 = vw w"
      have "attempted (vw w) (vw w1) n i i" using assms by (intro attempted_none) (simp_all add: 1 fun_upd_idem)
      from rescanned_one [OF this assms(2,3)] assms(3) 1 show ?thesis by simp
    qed
    subgoal for x w1 hb c
      apply (simp del: insert_iff)
      apply (rule wp_format_now)
      apply (rule wp_update_dispatch [where i = i])
        apply simp
       apply (simp add: n assms(2))
      apply (simp del: insert_iff)
      apply (rule wp_Dispatch)
       apply simp
      subgoal for s w3 now t r w4
        apply (cases r)
        subgoal for err
          apply (simp del: insert_iff)
          apply (rule wp_update_status)
            apply simp
           apply (simp add: n)
          apply (rule wp_Release)
           apply simp
          subgoal for w5 now' w6 hb'
            apply (rule conjI, assumption)
            apply (rule rescanned_one [where i = i and i' = "i\<lparr>i_WorkerID := w_ID x, i_DispatchTime := t,
                i_Status := ''retry_waiting'', i_UpdatedAt := now'\<rparr>"])
            using eligible_load [OF assms(1), of x] assms(2,3)
            by (auto simp: n intro!: attempted_released [where x = x])
          done
        subgoal for u
          apply (simp only: sum.case wp_return simp_thms)
          apply (rule rescanned_one [where i = i and i' = "i\<lparr>i_WorkerID := w_ID x, i_Status := ''dispatched'',
              i_UpdatedAt := now, i_DispatchTime := t\<rparr>"])
          using eligible_load [OF assms(1), of x] assms(2,3)
          by (auto simp: n intro!: attempted_sent [where x = x])
        done
      done
    done
qed

lemma redispatch_loop_wp:
  assumes "ok w" "\<forall>i \<in> set xs. v_insts (vw w) (i_ID i) = Some i \<and> i_Status i = ''retry_waiting''"
    "distinct (map i_ID xs)"
  shows "wp (redispatch_loop T I W l xs) (\<lambda>_ w'. ok w' \<and> rescanned (i_ID ` set xs) (vw w) (vw w')) w"
  using assms
proof (induction xs arbitrary: w)
  case Nil
  then show ?case by simp
next
  case (Cons i xs)
  have i: "v_insts (vw w) (i_ID i) = Some i" "i_Status i = ''retry_waiting''" "i_ID i \<notin> i_ID ` set xs"
    using Cons.prems by auto
  show ?case
    unfolding redispatch_loop.simps wp_bind
  proof (rule wp_mono [OF redispatch_wp [OF Cons.prems(1) i(1,2)]])
    fix stop w1
    assume 1: "ok w1 \<and> rescanned {i_ID i} (vw w) (vw w1)"
    have rest: "\<forall>j \<in> set xs. v_insts (vw w1) (i_ID j) = Some j \<and> i_Status j = ''retry_waiting''"
    proof
      fix j assume j: "j \<in> set xs"
      then have "i_ID j \<noteq> i_ID i" using i(3) by (metis image_eqI)
      with 1 j Cons.prems(2) show "v_insts (vw w1) (i_ID j) = Some j \<and> i_Status j = ''retry_waiting''"
        by (simp add: rescanned_def)
    qed
    have here: "rescanned (i_ID ` set (i # xs)) (vw w) (vw w1)"
      using rescanned_more [of "{i_ID i}" "vw w" "vw w1" "i_ID ` set xs"] 1 Cons.prems(2) by auto
    have "wp (redispatch_loop T I W l xs) (\<lambda>_ w'. ok w' \<and> rescanned (i_ID ` set (i # xs)) (vw w) (vw w')) w1"
      using 1 Cons.prems(3) rest i(3)
      by (intro wp_mono [OF Cons.IH]) (auto intro: rescanned_insert)
    with 1 here show "wp (if stop then State_Monad.return () else redispatch_loop T I W l xs)
        (\<lambda>_ w'. ok w' \<and> rescanned (i_ID ` set (i # xs)) (vw w) (vw w')) w1"
      by simp
  qed
qed

lemma retry_scan_wp:
  assumes "ok w"
  shows "wp (retry_scan T I W l) (\<lambda>_ w'. ok w' \<and> (\<exists>S. rescanned S (vw w) (vw w') \<and>
    (\<forall>n \<in> S. \<exists>i. v_insts (vw w) n = Some i \<and> due_retry (clock w (readings w)) i))) w"
proof -
  let ?w = "w\<lparr>readings := Suc (readings w)\<rparr>" and ?now = "clock w (readings w)"
  have ok: "ok ?w" using assms by simp
  from list_due_retry [OF ok, of ?now 100] obtain xs all where
    xs: "run_state (ListDueRetryInstances I ?now 100) ?w = (Inr xs, ?w)" "xs = limit_list 100 all"
      "enumerates all (v_insts (vw w)) (\<lambda>i. i_Status i = ''retry_waiting'' \<and>
        (IsZero (i_NextRetryTime i) \<or> i_NextRetryTime i \<le> ?now))"
    by auto
  have sub: "set xs \<subseteq> set all" "distinct xs"
    using xs(2,3) by (auto simp: limit_list_def enumerates_def dest: in_set_takeD)
  have mem: "v_insts (vw w) (i_ID i) = Some i \<and> due_retry ?now i" if "i \<in> set xs" for i
    using that sub(1) xs(3) inst_id [OF assms] by (auto simp: enumerates_def ran_def due_retry_def)
  have d: "distinct (map i_ID xs)"
    using sub(2) mem by (auto simp: distinct_map inj_on_def) (metis option.inject)
  have "wp (redispatch_loop T I W l xs) (\<lambda>_ w'. ok w' \<and> rescanned (i_ID ` set xs) (vw ?w) (vw w')) ?w"
    using mem by (intro redispatch_loop_wp [OF ok _ d]) (auto simp: due_retry_def)
  then show ?thesis
    using mem by (simp add: retry_scan_def wp_run [OF xs(1)]) (erule wp_mono, blast)
qed

end

section \<open>Property\<close>

text \<open>
  C23. A scan of the retry loop looks at due instances only: tasks, dependencies and every instance that
  was not waiting with its time come stay as they are; each instance it looked at still waits or
  was dispatched, with its identity unchanged; and the load the workers gained is exactly the
  number of instances that became dispatched, failed attempts included.
\<close>

theorem retry_scan_balanced:
  assumes "stores_ok w" "loads_nonneg (test_view w)"
  shows "case run_state (retry_scan test_tasks test_instances test_workers l) w of (_, w') \<Rightarrow>
    stores_ok w' \<and> (\<exists>S. rescanned S (test_view w) (test_view w') \<and>
      (\<forall>n \<in> S. \<exists>i. v_insts (test_view w) n = Some i \<and> due_retry (clock w (readings w)) i)) \<and>
    total_load (test_view w') - total_load (test_view w) =
      int (card (dispatched_ids (test_view w'))) - int (card (dispatched_ids (test_view w)))"
proof -
  have "dom (loads (test_view w)) = dom (v_workers (test_view w))"
    by (auto simp: loads_def dom_def)
  then have "finite_view (test_view w)"
    using assms(2) by (simp add: finite_view_def test_view_def finite_dom_map_of)
  then have "total_load v' - total_load (test_view w) =
      int (card (dispatched_ids v')) - int (card (dispatched_ids (test_view w)))"
    if "rescanned S (test_view w) v'" for S v'
    using that unfolding rescanned_def balanced_def by blast
  with ts.retry_scan_wp [OF assms(1), of l] show ?thesis unfolding wp_def by (simp add: split_beta) blast
qed

theorem retry_scan_balanced_witness:
  "case run_state (retry_scan test_tasks test_instances test_workers (NewRetryLoop 0 [])) sample of (_, w') \<Rightarrow>
    stores_ok w' \<and> total_load (test_view w') - total_load (test_view sample) =
      int (card (dispatched_ids (test_view w'))) - int (card (dispatched_ids (test_view sample)))"
proof -
  have "loads_nonneg (test_view sample)"
    by (auto simp: loads_nonneg_def loads_def sample_worker_def)
  from retry_scan_balanced [OF sample_ok this, of "NewRetryLoop 0 []"] show ?thesis by (simp add: split_beta)
qed

end
