(* ===== verification/Trigger.thy ===== *)
theory Trigger
  imports RetryLoop
begin

text \<open>
  \<^verbatim>\<open>internal/scheduler/trigger\<close>: the loop that turns due tasks into instances. A scan is one operation;
  \<^verbatim>\<open>Start\<close> repeats it at every tick. The Redis cache of due tasks is the argument \<open>cached\<close> (absent when
  the cache is nil or disabled), from a cutoff to the ids the cache returns. The backpressure
  controller, shared by pointer with other parts of the process, is the field \<open>pressure\<close> of the world.
\<close>

section \<open>Operations\<close>

record TriggerLoop =
  tl_interval :: duration
  tl_schedulerURL :: string
  tl_maxPending :: int

definition NewTriggerLoop :: "duration \<Rightarrow> string \<Rightarrow> int \<Rightarrow> TriggerLoop" where
  "NewTriggerLoop interval url maxPending =
     \<lparr>tl_interval = (if interval \<le> 0 then second else interval), tl_schedulerURL = url,
      tl_maxPending = (if maxPending \<le> 0 then 1000 else maxPending)\<rparr>"

definition scheduleInstanceID :: "int \<Rightarrow> ('a, string) go" where
  "scheduleInstanceID taskID = do {
     now \<leftarrow> time_now;
     State_Monad.return (''task-'' @ itoa taskID @ ''-'' @ itoa (wrap64 now)) }"

definition nextTriggerTime :: "location \<Rightarrow> Task \<Rightarrow> time \<Rightarrow> error + time" where
  "nextTriggerTime loc task now =
     (if t_CronExpr task = [] then Inr (now + 365 * 24 * 60 * minute) else NextAfter loc now (t_CronExpr task))"

text \<open>The loop over the upstream tasks: the \<^verbatim>\<open>success\<close> instances are listed with limit 1 for each.\<close>

fun upstream_satisfied :: "'a world_scheme TaskInstanceRepository \<Rightarrow> int list \<Rightarrow> ('a, bool) go" where
  "upstream_satisfied I [] = State_Monad.return True"
| "upstream_satisfied I (depID # deps) = do {
     r \<leftarrow> ListInstancesByStatus I ''success'' 1;
     case r of
       Inl err \<Rightarrow> State_Monad.return False
     | Inr instances \<Rightarrow>
         if length instances = 0 then State_Monad.return False
         else if list_ex (\<lambda>inst. i_TaskID inst = depID) instances then upstream_satisfied I deps
         else State_Monad.return False }"

definition shard_instance :: "Task \<Rightarrow> int \<Rightarrow> string \<Rightarrow> time \<Rightarrow> TaskInstance" where
  "shard_instance task shard sid now = zero_TaskInstance\<lparr>i_TaskID := t_ID task, i_ScheduleInstanceID := sid,
     i_ShardNo := shard, i_ShardTotal := t_TotalShards task, i_TriggerTime := now, i_Status := ''pending''\<rparr>"

text \<open>
  One shard, from the created instance on and all of it; the result tells whether the loop over the
  shards goes on.
\<close>

definition launch_shard ::
  "'a world_scheme TaskRepository \<Rightarrow> 'a world_scheme TaskInstanceRepository \<Rightarrow>
   'a world_scheme WorkerRepository \<Rightarrow> TriggerLoop \<Rightarrow> Task \<Rightarrow> int \<Rightarrow> TaskInstance \<Rightarrow> ('a, error + bool) go" where
  "launch_shard T I W l task shard inst = do {
     picked \<leftarrow> Pick W \<lparr>so_Labels = DecodeLabels (t_Labels task), so_Strategy = t_RouteStrategy task\<rparr>;
     case picked of
       Inl err \<Rightarrow>
         if err = ErrNoAvailableWorker then do {
           now \<leftarrow> time_now;
           _ \<leftarrow> UpdateTask T (task\<lparr>t_NextTriggerTime := now + 10 * second\<rparr>);
           ret False }
         else raise (Wrapped (''pick worker shard='' @ itoa shard) err)
     | Inr worker \<Rightarrow> do {
         dispatchTime \<leftarrow> format_now;
         _ \<leftarrow> UpdateInstanceDispatch I (i_ID inst) (w_ID worker) dispatchTime;
         sent \<leftarrow> Dispatch worker (zero_ExecuteTaskRequest\<lparr>
           q_ScheduleInstanceID := i_ScheduleInstanceID inst, q_TaskID := t_ID task,
           q_TaskType := t_Type task, q_Payload := t_Payload task, q_Image := t_Image task,
           q_TimeoutSeconds := t_TimeoutSeconds task, q_RetryCount := i_RetryCount inst,
           q_ShardNo := shard, q_ShardTotal := t_TotalShards task,
           q_IdempotencyKey := t_IdempotencyKey task, q_SchedulerURL := tl_schedulerURL l\<rparr>);
         case sent of
           Inl err \<Rightarrow> do {
             inc_counter ''scheduler_dispatch_total'' [(''result'', ''error'')];
             _ \<leftarrow> UpdateInstanceResult I (i_ScheduleInstanceID inst) ''failed'' ''dispatch_failed'' (error_text err);
             _ \<leftarrow> Release W worker;
             ret True }
         | Inr _ \<Rightarrow> do {
             inc_counter ''scheduler_dispatch_total'' [(''result'', ''success'')];
             ret True } } }"

definition dispatch_shard ::
  "'a world_scheme TaskRepository \<Rightarrow> 'a world_scheme TaskInstanceRepository \<Rightarrow>
   'a world_scheme WorkerRepository \<Rightarrow> TriggerLoop \<Rightarrow> Task \<Rightarrow> int \<Rightarrow> ('a, error + bool) go" where
  "dispatch_shard T I W l task shard = do {
     sid \<leftarrow> scheduleInstanceID (t_ID task);
     triggerTime \<leftarrow> time_now;
     created \<leftarrow> CreateInstance I (shard_instance task shard sid triggerTime);
     case created of
       Inl err \<Rightarrow> raise (Wrapped (''create task instance shard='' @ itoa shard) err)
     | Inr inst \<Rightarrow> launch_shard T I W l task shard inst }"

fun shard_loop ::
  "'a world_scheme TaskRepository \<Rightarrow> 'a world_scheme TaskInstanceRepository \<Rightarrow>
   'a world_scheme WorkerRepository \<Rightarrow> TriggerLoop \<Rightarrow> Task \<Rightarrow> int list \<Rightarrow> ('a, error + bool) go" where
  "shard_loop T I W l task [] = ret True"
| "shard_loop T I W l task (shard # rest) =
     if_ok (dispatch_shard T I W l task shard) (\<lambda>go_on.
       if go_on then shard_loop T I W l task rest else ret False)"

definition shard_numbers :: "Task \<Rightarrow> int list" where
  "shard_numbers task = [0..(if t_TotalShards task \<le> 0 then 1 else t_TotalShards task) - 1]"

definition advance_task :: "'a world_scheme TaskRepository \<Rightarrow> Task \<Rightarrow> ('a, error + unit) go" where
  "advance_task T task = do {
     now \<leftarrow> time_now;
     loc \<leftarrow> reads zone;
     case nextTriggerTime loc task now of
       Inl err \<Rightarrow> raise (Wrapped ''compute next trigger time'' err)
     | Inr next \<Rightarrow> do {
         upd \<leftarrow> UpdateTask T (task\<lparr>t_NextTriggerTime := next\<rparr>);
         case upd of
           Inl err \<Rightarrow> raise (Wrapped ''update next trigger time'' err)
         | Inr _ \<Rightarrow> ret () } }"

definition handleTask ::
  "'a world_scheme TaskRepository \<Rightarrow> 'a world_scheme TaskInstanceRepository \<Rightarrow>
   'a world_scheme WorkerRepository \<Rightarrow> TriggerLoop \<Rightarrow> Task \<Rightarrow> ('a, error + unit) go" where
  "handleTask T I W l task = do {
     listed \<leftarrow> ListUpstreamDeps T (t_ID task);
     case listed of
       Inl err \<Rightarrow> raise (Wrapped ''list upstream dependencies'' err)
     | Inr deps \<Rightarrow> do {
         satisfied \<leftarrow> (if length deps > 0 then upstream_satisfied I deps else State_Monad.return True);
         if \<not> satisfied then do {
           now \<leftarrow> time_now;
           _ \<leftarrow> UpdateTask T (task\<lparr>t_NextTriggerTime := now + 5 * second\<rparr>);
           ret () }
         else if_ok (shard_loop T I W l task (shard_numbers task)) (\<lambda>finished.
           if finished then advance_task T task else ret ()) } }"

fun cached_tasks :: "'a world_scheme TaskRepository \<Rightarrow> int list \<Rightarrow> ('a, Task list) go" where
  "cached_tasks T [] = State_Monad.return []"
| "cached_tasks T (k # ks) = do {
     got \<leftarrow> GetTask T k;
     case got of
       Inl err \<Rightarrow> cached_tasks T ks
     | Inr t \<Rightarrow>
         if t_Status t \<noteq> ''enabled'' then cached_tasks T ks
         else do {
           now \<leftarrow> time_now;
           rest \<leftarrow> cached_tasks T ks;
           State_Monad.return (if t_NextTriggerTime t > now then rest else t # rest) } }"

definition cache_lookup ::
  "'a world_scheme TaskRepository \<Rightarrow> (time \<Rightarrow> ('a, error + int list) go) option \<Rightarrow> ('a, Task list) go" where
  "cache_lookup T cached =
     (case cached of
        None \<Rightarrow> State_Monad.return []
      | Some get \<Rightarrow> do {
          now \<leftarrow> time_now;
          r \<leftarrow> get now;
          case r of
            Inl err \<Rightarrow> State_Monad.return []
          | Inr ids \<Rightarrow> do { ts \<leftarrow> cached_tasks T ids; State_Monad.return (take 100 ts) } })"

definition bp_allows :: "('a, bool) go" where
  "bp_allows = reads (\<lambda>w. case pressure w of None \<Rightarrow> True | Some b \<Rightarrow> AllowDispatch b)"

fun handle_loop ::
  "'a world_scheme TaskRepository \<Rightarrow> 'a world_scheme TaskInstanceRepository \<Rightarrow>
   'a world_scheme WorkerRepository \<Rightarrow> TriggerLoop \<Rightarrow> Task list \<Rightarrow> ('a, unit) go" where
  "handle_loop T I W l [] = State_Monad.return ()"
| "handle_loop T I W l (task # rest) = do {
     allowed \<leftarrow> bp_allows;
     if \<not> allowed then State_Monad.return ()
     else do { _ \<leftarrow> handleTask T I W l task; handle_loop T I W l rest } }"

text \<open>The backpressure part of the scan: update, refuse, or sleep. The result tells whether to go on.\<close>

definition bp_gate :: "int \<Rightarrow> ('a, bool) go" where
  "bp_gate pending = do {
     bp \<leftarrow> reads pressure;
     case bp of
       None \<Rightarrow> State_Monad.return True
     | Some b \<Rightarrow> do {
         now \<leftarrow> time_now;
         let b = UpdatePending now pending b;
         modify (\<lambda>w. w\<lparr>pressure := Some b\<rparr>);
         if \<not> AllowDispatch b then State_Monad.return False
         else do {
           (if ThrottleDelay b > 0 then sleep (ThrottleDelay b) else State_Monad.return ());
           State_Monad.return True } } }"

definition trigger_scan ::
  "'a world_scheme TaskRepository \<Rightarrow> 'a world_scheme TaskInstanceRepository \<Rightarrow>
   'a world_scheme WorkerRepository \<Rightarrow> TriggerLoop \<Rightarrow> (time \<Rightarrow> ('a, error + int list) go) option \<Rightarrow>
   ('a, unit) go" where
  "trigger_scan T I W l cached = do {
     counted \<leftarrow> CountInstancesByStatus I ''pending'';
     case counted of
       Inl err \<Rightarrow> State_Monad.return ()
     | Inr pending \<Rightarrow> do {
         go_on \<leftarrow> bp_gate pending;
         if \<not> go_on then State_Monad.return ()
         else do {
           hits \<leftarrow> cache_lookup T cached;
           if length hits > 0 then handle_loop T I W l hits
           else do {
             listed \<leftarrow> ListDueTasks T 100;
             case listed of
               Inl err \<Rightarrow> State_Monad.return ()
             | Inr tasks \<Rightarrow> handle_loop T I W l tasks } } } }"

section \<open>Facts\<close>

lemma balanced_new:
  assumes "v_insts v n = None" "v_insts v' = (v_insts v)(n \<mapsto> i)" "v_workers v' = v_workers v"
    "i_Status i \<noteq> ''dispatched''"
  shows "balanced v v'"
proof -
  have "loads v' = loads v" by (rule ext) (simp add: loads_def assms(3))
  moreover have "dispatched_ids v' = dispatched_ids v" using assms(1,2,4) by (auto simp: dispatched_ids_def)
  ultimately show ?thesis
    using assms(2) by (simp add: balanced_def finite_view_def total_load_def loads_nonneg_def)
qed

lemma balanced_tasks:
  assumes "v_insts v' = v_insts v" "v_workers v' = v_workers v"
  shows "balanced v v'"
proof -
  have "loads v' = loads v" by (rule ext) (simp add: loads_def assms(2))
  then show ?thesis
    using assms(1) by (simp add: balanced_def finite_view_def total_load_def loads_nonneg_def dispatched_ids_def)
qed

text \<open>Nothing but the task \<open>k\<close>, and of it only times and version, may have changed.\<close>

definition retimed :: "Task \<Rightarrow> view \<Rightarrow> view \<Rightarrow> bool" where
  "retimed task v v' \<longleftrightarrow> (\<exists>t. v' = v\<lparr>v_tasks := t\<rparr> \<and>
     (t = v_tasks v \<or> (\<exists>nt ct ut ver. t = (v_tasks v)(t_ID task \<mapsto>
        task\<lparr>t_NextTriggerTime := nt, t_CreatedAt := ct, t_UpdatedAt := ut, t_Version := ver\<rparr>))))"

lemma retimed_refl [simp]: "retimed task v v"
  unfolding retimed_def by (rule exI [of _ "v_tasks v"]) simp

lemma retimed_sel:
  "retimed task v v' \<Longrightarrow> v_insts v' = v_insts v \<and> v_workers v' = v_workers v \<and> v_sched v' = v_sched v \<and> v_deps v' = v_deps v"
  by (auto simp: retimed_def)

lemma shard_instance_sel [simp]:
  "i_TaskID (shard_instance t k s now) = t_ID t" "i_ScheduleInstanceID (shard_instance t k s now) = s"
  "i_ShardNo (shard_instance t k s now) = k" "i_ShardTotal (shard_instance t k s now) = t_TotalShards t"
  "i_Status (shard_instance t k s now) = ''pending''" "i_RetryCount (shard_instance t k s now) = 0"
  by (simp_all add: shard_instance_def zero_TaskInstance_def)

text \<open>One new instance, of a shard of a task, and how far it got.\<close>

definition spawned :: "Task \<Rightarrow> int \<Rightarrow> view \<Rightarrow> view \<Rightarrow> TaskInstance \<Rightarrow> bool" where
  "spawned task shard v v' i \<longleftrightarrow> v_insts v (i_ID i) = None \<and> v_insts v' = (v_insts v)(i_ID i \<mapsto> i) \<and>
     v_deps v' = v_deps v \<and> i_TaskID i = t_ID task \<and> i_ShardNo i = shard \<and> i_ShardTotal i = t_TotalShards task \<and>
     i_RetryCount i = 0 \<and> i_Status i \<in> {''pending'', ''dispatched'', ''failed''} \<and> balanced v v'"

lemma spawned_of_attempted:
  assumes "attempted v1 v' n ri i'"
    "v1 = v\<lparr>v_insts := (v_insts v)(n \<mapsto> ri), v_sched := (v_sched v)(sid \<mapsto> n)\<rparr>"
    "v_insts v n = None" "i_ID ri = n" "i_TaskID ri = t_ID task" "i_ShardNo ri = shard"
    "i_ShardTotal ri = t_TotalShards task" "i_RetryCount ri = 0" "i_Status ri = ''pending''"
    "i_Status i' \<in> {''pending'', ''dispatched'', ''failed''}"
  shows "spawned task shard v v' i'"
proof -
  have "balanced v v1" using assms(2,3,9) by (intro balanced_new [of v n _ ri]) simp_all
  moreover have "balanced v1 v'" using assms(2,9) by (intro attempted_balanced [OF assms(1)]) simp
  ultimately show ?thesis
    using assms by (auto simp: spawned_def attempted_def same_identity_def intro: balanced_trans)
qed

lemma spawned_waiting:
  assumes "v_insts v n = None" "v1 = v\<lparr>v_insts := (v_insts v)(n \<mapsto> ri), v_sched := (v_sched v)(sid \<mapsto> n)\<rparr>"
    "retimed task v1 v'" "i_ID ri = n" "i_TaskID ri = t_ID task" "i_ShardNo ri = shard"
    "i_ShardTotal ri = t_TotalShards task" "i_RetryCount ri = 0" "i_Status ri = ''pending''"
  shows "spawned task shard v v' ri"
proof -
  have "balanced v v1" using assms(1,2,9) by (intro balanced_new [of v n _ ri]) simp_all
  moreover have "balanced v1 v'" using retimed_sel [OF assms(3)] by (intro balanced_tasks) simp_all
  ultimately show ?thesis
    using assms retimed_sel [OF assms(3)] by (auto simp: spawned_def intro: balanced_trans)
qed

text \<open>The new instances of a run over shards.\<close>

definition add_insts :: "TaskInstance list \<Rightarrow> (int \<Rightarrow> TaskInstance option) \<Rightarrow> int \<Rightarrow> TaskInstance option" where
  "add_insts xs m = fold (\<lambda>i m. m(i_ID i \<mapsto> i)) xs m"

definition spawned_all :: "Task \<Rightarrow> int list \<Rightarrow> view \<Rightarrow> view \<Rightarrow> TaskInstance list \<Rightarrow> bool" where
  "spawned_all task shards v v' xs \<longleftrightarrow> v_insts v' = add_insts xs (v_insts v) \<and> v_deps v' = v_deps v \<and>
     map i_ShardNo xs = shards \<and> distinct (map i_ID xs) \<and> balanced v v' \<and>
     (\<forall>i \<in> set xs. v_insts v (i_ID i) = None \<and> i_TaskID i = t_ID task \<and>
       i_ShardTotal i = t_TotalShards task \<and> i_RetryCount i = 0 \<and> i_Status i \<in> {''pending'', ''dispatched'', ''failed''})"

lemma spawned_all_Nil [simp]: "spawned_all task [] v v []"
  by (simp add: spawned_all_def add_insts_def)

lemma spawned_all_Cons:
  assumes "spawned task k v v1 i" "spawned_all task ks v1 v' xs"
  shows "spawned_all task (k # ks) v v' (i # xs)"
proof -
  have "v_insts v1 = (v_insts v)(i_ID i \<mapsto> i)" using assms(1) by (simp add: spawned_def)
  then have "i_ID j \<noteq> i_ID i \<and> v_insts v (i_ID j) = None" if "j \<in> set xs" for j
    using assms(2) that by (auto simp: spawned_all_def split: if_splits)
  then show ?thesis
    using assms by (force simp: spawned_all_def spawned_def add_insts_def intro: balanced_trans)
qed

lemma spawned_all_one: "spawned task k v v' i \<Longrightarrow> spawned_all task [k] v v' [i]"
  by (auto simp: spawned_all_def spawned_def add_insts_def)

definition other_tasks :: "Task \<Rightarrow> view \<Rightarrow> view \<Rightarrow> bool" where
  "other_tasks task v v' \<longleftrightarrow> (\<forall>j. j \<noteq> t_ID task \<longrightarrow> v_tasks v' j = v_tasks v j)"

text \<open>All shards were handled, or the last one handled is still pending.\<close>

definition shards_done ::
  "Task \<Rightarrow> int list \<Rightarrow> view \<Rightarrow> view \<Rightarrow> TaskInstance list \<Rightarrow> error + bool \<Rightarrow> bool" where
  "shards_done task ks v v' xs r \<longleftrightarrow> spawned_all task (take (length xs) ks) v v' xs \<and> length xs \<le> length ks \<and>
     (if r = Inr True then length xs = length ks \<and> v_tasks v' = v_tasks v \<and> (\<forall>i \<in> set xs. i_Status i \<noteq> ''pending'')
      else xs \<noteq> [] \<and> i_Status (last xs) = ''pending'' \<and> (\<forall>i \<in> set (butlast xs). i_Status i \<noteq> ''pending''))"

lemma shards_done_stop:
  assumes "spawned task k v v' i" "i_Status i = ''pending''" "r \<noteq> Inr True"
  shows "shards_done task (k # ks) v v' [i] r"
  using assms spawned_all_one [OF assms(1)] by (simp add: shards_done_def)

lemma shards_done_Cons:
  assumes "spawned task k v v1 i" "i_Status i \<noteq> ''pending''" "v_tasks v1 = v_tasks v" "shards_done task ks v1 v' xs r"
  shows "shards_done task (k # ks) v v' (i # xs) r"
proof -
  have "spawned_all task (take (length xs) ks) v1 v' xs" using assms(4) by (simp add: shards_done_def)
  from spawned_all_Cons [OF assms(1) this] assms show ?thesis by (auto simp: shards_done_def)
qed

text \<open>Two different upstream tasks, or one that has no successful instance.\<close>

definition blocked :: "view \<Rightarrow> Task \<Rightarrow> bool" where
  "blocked v task \<longleftrightarrow> (\<exists>d \<in> set (upstream v (t_ID task)). (\<exists>d' \<in> set (upstream v (t_ID task)). d \<noteq> d') \<or>
     \<not> (\<exists>n i. v_insts v n = Some i \<and> i_TaskID i = d \<and> i_Status i = ''success''))"

text \<open>After the last shard the stored task gets its next time, computed from some instant.\<close>

definition rescheduled :: "Task \<Rightarrow> view \<Rightarrow> view \<Rightarrow> error + unit \<Rightarrow> bool" where
  "rescheduled task v v' r \<longleftrightarrow> retimed task v v' \<and> (v_tasks v (t_ID task) \<noteq> None \<longrightarrow>
     (\<exists>loc now. case nextTriggerTime loc task now of
        Inl err \<Rightarrow> r = Inl (Wrapped ''compute next trigger time'' err) \<and> v' = v
      | Inr next \<Rightarrow> r = Inr () \<and> (\<exists>t'. v_tasks v' (t_ID task) = Some t' \<and> t_NextTriggerTime t' = next)))"

text \<open>
  A due task was handled: put off because of its upstream tasks, or turned into instances shard by
  shard, up to the first shard without a worker, or all of them.
\<close>

definition handled :: "Task \<Rightarrow> view \<Rightarrow> view \<Rightarrow> error + unit \<Rightarrow> bool" where
  "handled task v v' r \<longleftrightarrow> upstream v (t_ID task) \<noteq> [] \<and> retimed task v v' \<and> r = Inr () \<or>
     \<not> blocked v task \<and> (\<exists>u xs s. shards_done task (shard_numbers task) v u xs s \<and>
       (if s = Inr True then rescheduled task u v' r else v' = u))"

lemma handled_all:
  assumes "\<not> blocked v task" "shards_done task (shard_numbers task) v u xs (Inr True)" "rescheduled task u v' r"
  shows "handled task v v' r"
  using assms unfolding handled_def by (metis (full_types))

lemma handled_part:
  assumes "\<not> blocked v task" "shards_done task (shard_numbers task) v v' xs s" "s \<noteq> Inr True"
  shows "handled task v v' r"
  using assms unfolding handled_def by (metis (full_types))

lemma other_tasks_retimed: "other_tasks task u v \<Longrightarrow> retimed task v v' \<Longrightarrow> other_tasks task u v'"
  by (auto simp: other_tasks_def retimed_def)

lemma shard_outcome:
  assumes "if r = Inr False then retimed task v1 v'
      else \<exists>i'. attempted v1 v' n ri i' \<and> i_Status i' \<in> {''pending'', ''dispatched'', ''failed''} \<and>
        (r = Inr True \<longleftrightarrow> i_Status i' \<noteq> ''pending'')"
    "v1 = v\<lparr>v_insts := (v_insts v)(n \<mapsto> ri), v_sched := (v_sched v)(sid \<mapsto> n)\<rparr>"
    "v_insts v n = None" "i_ID ri = n" "i_TaskID ri = t_ID task" "i_ShardNo ri = shard"
    "i_ShardTotal ri = t_TotalShards task" "i_RetryCount ri = 0" "i_Status ri = ''pending''"
  shows "\<exists>i. spawned task shard v v' i \<and> other_tasks task v v' \<and>
    (r = Inr True \<longleftrightarrow> i_Status i \<noteq> ''pending'') \<and> (r = Inr True \<longrightarrow> v_tasks v' = v_tasks v)"
proof (cases "r = Inr False")
  case True
  with assms(1) have "retimed task v1 v'" by simp
  moreover from this have "other_tasks task v v'" by (auto simp: retimed_def other_tasks_def assms(2))
  ultimately show ?thesis
    using spawned_waiting [OF assms(3,2) _ assms(4-9)] True assms(9) by auto
next
  case False
  with assms(1) obtain i' where i: "attempted v1 v' n ri i'" "i_Status i' \<in> {''pending'', ''dispatched'', ''failed''}"
    "r = Inr True \<longleftrightarrow> i_Status i' \<noteq> ''pending''" by auto
  from i(1) have "v_tasks v' = v_tasks v" by (simp add: attempted_def assms(2))
  with spawned_of_attempted [OF i(1) assms(2-9) i(2)] i(3) show ?thesis by (auto simp: other_tasks_def)
qed

context repositories
begin

lemma retime_wp:
  assumes "ok w"
  shows "wp (UpdateTask T (task\<lparr>t_NextTriggerTime := nt\<rparr>))
    (\<lambda>r w'. ok w' \<and> env w' = env w \<and> retimed task (vw w) (vw w') \<and>
      (v_tasks (vw w) (t_ID task) \<noteq> None \<longrightarrow> (\<exists>t'. r = Inr t' \<and> v_tasks (vw w') (t_ID task) = Some t' \<and>
         t_NextTriggerTime t' = nt))) w"
  by (rule wp_update_task [OF assms]) (auto simp: assms retimed_def intro!: exI)

lemma wp_scheduleInstanceID:
  "(\<And>sid. Q sid (w\<lparr>readings := Suc (readings w)\<rparr>)) \<Longrightarrow> wp (scheduleInstanceID k) Q w"
  by (simp add: scheduleInstanceID_def)

lemma v_inst_at: "v_sched v sid = Some n \<Longrightarrow> v_insts v n = Some i \<Longrightarrow> v_inst v sid = Some i"
  by (simp add: v_inst_def)

lemma launch_shard_wp:
  assumes "ok w" "v_insts (vw w) n = Some ri" "i_Status ri = ''pending''"
    "v_sched (vw w) (i_ScheduleInstanceID ri) = Some n"
  shows "wp (launch_shard T I W l task k ri) (\<lambda>r w'. ok w' \<and>
    (if r = Inr False then retimed task (vw w) (vw w')
     else \<exists>i'. attempted (vw w) (vw w') n ri i' \<and> i_Status i' \<in> {''pending'', ''dispatched'', ''failed''} \<and>
       (r = Inr True \<longleftrightarrow> i_Status i' \<noteq> ''pending''))) w"
proof -
  have n: "i_ID ri = n" using inst_id [OF assms(1,2)] .
  show ?thesis
    unfolding launch_shard_def wp_bind
    apply (rule wp_Pick [OF assms(1)])
    subgoal for err w1 c
      apply (cases "err = ErrNoAvailableWorker")
      subgoal
        apply (simp del: insert_iff)
        apply (rule wp_mono [OF retime_wp])
         apply simp
        by simp
      subgoal
        using assms by (auto intro!: exI [of _ ri] attempted_none simp: fun_upd_idem)
      done
    subgoal for x w1 hb c
      apply (simp del: insert_iff)
      apply (rule wp_format_now)
      apply (rule wp_update_dispatch [where i = ri])
        apply simp
       apply (simp add: n assms(2))
      apply (simp del: insert_iff)
      apply (rule wp_Dispatch)
       apply simp
      subgoal for s w3 now t r w4
        apply (cases r)
        subgoal for err
          apply (simp del: insert_iff)
          apply (rule wp_update_result [where i = "ri\<lparr>i_WorkerID := w_ID x, i_Status := ''dispatched'',
              i_UpdatedAt := now, i_DispatchTime := t\<rparr>"])
            apply simp
           apply (rule v_inst_at [where n = n]; simp add: n assms(4))
          apply (rule wp_Release)
           apply simp
          subgoal for w5 now' w6 hb'
            apply (rule conjI, assumption)
            apply (rule exI [of _ "ri\<lparr>i_WorkerID := w_ID x, i_DispatchTime := t, i_Status := ''failed'',
                i_ErrorCode := ''dispatch_failed'', i_ErrorMessage := error_text err, i_UpdatedAt := now'\<rparr>"])
            using eligible_load [OF assms(1), of x] by (auto simp: n intro!: attempted_released [where x = x])
          done
        subgoal for u
          using eligible_load [OF assms(1), of x]
          by (auto simp: n intro!: exI attempted_sent [where x = x])
        done
      done
    done
qed

lemma dispatch_shard_wp:
  assumes "ok w"
  shows "wp (dispatch_shard T I W l task k) (\<lambda>r w'. ok w' \<and> (\<exists>i. spawned task k (vw w) (vw w') i \<and>
    other_tasks task (vw w) (vw w') \<and>
    (r = Inr True \<longleftrightarrow> i_Status i \<noteq> ''pending'') \<and> (r = Inr True \<longrightarrow> v_tasks (vw w') = v_tasks (vw w)))) w"
  unfolding dispatch_shard_def wp_bind
  apply (rule wp_scheduleInstanceID)
  apply simp
  apply (rule wp_create_instance)
   apply (simp add: assms)
  subgoal for sid w1 n now
    apply (simp only: sum.case)
    apply (rule wp_mono [OF launch_shard_wp [where n = n]])
        apply simp
       apply simp
      apply simp
     apply simp
    subgoal for r w'
      by (rule conjI, simp, rule shard_outcome [where n = n]) auto
    done
  done

lemma shard_loop_wp:
  "ok w \<Longrightarrow> wp (shard_loop T I W l task ks)
     (\<lambda>r w'. ok w' \<and> other_tasks task (vw w) (vw w') \<and> (\<exists>xs. shards_done task ks (vw w) (vw w') xs r)) w"
proof (induction ks arbitrary: w)
  case Nil
  then show ?case by (auto simp: other_tasks_def shards_done_def intro!: exI [of _ "[]"])
next
  case (Cons k ks)
  let ?Q = "\<lambda>(r :: error + bool) w'. ok w' \<and> other_tasks task (vw w) (vw w') \<and>
    (\<exists>xs. shards_done task (k # ks) (vw w) (vw w') xs r)"
  show ?case
    unfolding shard_loop.simps wp_if_ok
  proof (rule wp_mono [OF dispatch_shard_wp [OF Cons.prems, of l task k]])
    fix r :: "error + bool" and w1
    assume "ok w1 \<and> (\<exists>i. spawned task k (vw w) (vw w1) i \<and> other_tasks task (vw w) (vw w1) \<and>
      (r = Inr True \<longleftrightarrow> i_Status i \<noteq> ''pending'') \<and> (r = Inr True \<longrightarrow> v_tasks (vw w1) = v_tasks (vw w)))"
    then obtain i where 1: "ok w1" "spawned task k (vw w) (vw w1) i" "other_tasks task (vw w) (vw w1)"
      "r = Inr True \<longleftrightarrow> i_Status i \<noteq> ''pending''" "r = Inr True \<Longrightarrow> v_tasks (vw w1) = v_tasks (vw w)" by blast
    have stop: "?Q r' w1" if "r' \<noteq> Inr True" "r \<noteq> Inr True" for r'
      using 1(1,3,4) shards_done_stop [OF 1(2)] that by blast
    have go_on: "wp (shard_loop T I W l task ks) ?Q w1" if t: "r = Inr True"
    proof (rule wp_mono [OF Cons.IH [OF 1(1)]])
      fix r' :: "error + bool" and w'
      assume 2: "ok w' \<and> other_tasks task (vw w1) (vw w') \<and> (\<exists>xs. shards_done task ks (vw w1) (vw w') xs r')"
      have "\<exists>xs. shards_done task (k # ks) (vw w) (vw w') xs r'"
        using 2 shards_done_Cons [OF 1(2)] 1(4,5) t by blast
      then show "?Q r' w'" using 2 1(3) by (simp add: other_tasks_def)
    qed
    show "(case r of Inl err \<Rightarrow> ?Q (Inl err) | Inr go_on \<Rightarrow>
        wp (if go_on then shard_loop T I W l task ks else ret False) ?Q) w1"
      using stop [of r] stop [of "Inr False"] go_on by (cases r) auto
  qed
qed

text \<open>The upstream check only reads, and with limit 1 it cannot see two different upstream tasks.\<close>

lemma upstream_satisfied_run:
  assumes "ok w"
  shows "\<exists>b. run_state (upstream_satisfied I ds) w = (b, w) \<and> (b \<longrightarrow> (\<forall>d \<in> set ds. \<forall>d' \<in> set ds. d = d') \<and>
    (\<forall>d \<in> set ds. \<exists>n i. v_insts (vw w) n = Some i \<and> i_TaskID i = d \<and> i_Status i = ''success''))"
proof -
  from list_by_status [OF assms, of "''success''" 1] obtain xs all where
    xs: "run_state (ListInstancesByStatus I ''success'' 1) w = (Inr xs, w)" "xs = limit_list 1 all"
      "enumerates all (v_insts (vw w)) (\<lambda>i. i_Status i = ''success'')"
    by blast
  have len: "length xs \<le> 1" using xs(2) by (simp add: limit_list_def)
  have mem: "\<exists>n. v_insts (vw w) n = Some i \<and> i_Status i = ''success''" if "i \<in> set xs" for i
    using that xs(2,3) set_limit_list [of 1 all] by (auto simp: enumerates_def ran_def)
  have "\<exists>b. run_state (upstream_satisfied I ds) w = (b, w) \<and>
      (b \<longrightarrow> (\<forall>d \<in> set ds. \<exists>i. xs = [i] \<and> i_TaskID i = d))"
  proof (induction ds)
    case (Cons d ds)
    then obtain b where b: "run_state (upstream_satisfied I ds) w = (b, w)"
      "b \<Longrightarrow> \<forall>d \<in> set ds. \<exists>i. xs = [i] \<and> i_TaskID i = d" by blast
    show ?case
    proof (cases "list_ex (\<lambda>i. i_TaskID i = d) xs")
      case True
      with len obtain i where "xs = [i]" "i_TaskID i = d"
        by (cases xs) (auto simp: le_Suc_eq)
      with b xs(1) show ?thesis by (intro exI [of _ b]) auto
    next
      case False
      with xs(1) show ?thesis by (cases xs) (auto intro!: exI [of _ False])
    qed
  qed (auto intro: exI [of _ True])
  then obtain b where b: "run_state (upstream_satisfied I ds) w = (b, w)"
    "b \<Longrightarrow> \<forall>d \<in> set ds. \<exists>i. xs = [i] \<and> i_TaskID i = d" by blast
  have "(\<forall>d \<in> set ds. \<forall>d' \<in> set ds. d = d') \<and>
      (\<forall>d \<in> set ds. \<exists>n i. v_insts (vw w) n = Some i \<and> i_TaskID i = d \<and> i_Status i = ''success'')" if "b"
  proof (cases "ds = []")
    case False
    then obtain d where "d \<in> set ds" by (cases ds) auto
    with b(2) [OF that] obtain i where i: "xs = [i]" by blast
    then have d: "d = i_TaskID i" if "d \<in> set ds" for d using b(2) [OF \<open>b\<close>] that by auto
    from i mem obtain n where "v_insts (vw w) n = Some i" "i_Status i = ''success''" by auto
    with d show ?thesis by blast
  qed simp
  with b(1) show ?thesis by blast
qed

lemma advance_task_wp:
  assumes "ok w"
  shows "wp (advance_task T task) (\<lambda>r w'. ok w' \<and> retimed task (vw w) (vw w') \<and>
    (v_tasks (vw w) (t_ID task) \<noteq> None \<longrightarrow>
      (case nextTriggerTime (zone w) task (clock w (readings w)) of
        Inl err \<Rightarrow> r = Inl (Wrapped ''compute next trigger time'' err) \<and> vw w' = vw w
      | Inr next \<Rightarrow> r = Inr () \<and> (\<exists>t'. v_tasks (vw w') (t_ID task) = Some t' \<and> t_NextTriggerTime t' = next)))) w"
proof (cases "nextTriggerTime (zone w) task (clock w (readings w))")
  case (Inl err)
  then show ?thesis using assms by (simp add: advance_task_def)
next
  case (Inr nt)
  have ok: "ok (w\<lparr>readings := Suc (readings w)\<rparr>)" using assms by simp
  show ?thesis
    using Inr
    by (simp add: advance_task_def) (rule wp_mono [OF retime_wp [OF ok]], auto split: sum.split)
qed

lemma handleTask_wp:
  assumes "ok w"
  shows "wp (handleTask T I W l task) (\<lambda>r w'. ok w' \<and> other_tasks task (vw w) (vw w') \<and>
    handled task (vw w) (vw w') r) w"
proof -
  let ?ds = "upstream (vw w) (t_ID task)"
  obtain b where b: "run_state (if length ?ds > 0 then upstream_satisfied I ?ds else State_Monad.return True) w = (b, w)"
      "b \<Longrightarrow> \<not> blocked (vw w) task"
  proof (cases "length ?ds > 0")
    case True
    from upstream_satisfied_run [OF assms, of ?ds] obtain b where
      b: "run_state (upstream_satisfied I ?ds) w = (b, w)"
        "b \<longrightarrow> (\<forall>d \<in> set ?ds. \<forall>d' \<in> set ?ds. d = d') \<and>
          (\<forall>d \<in> set ?ds. \<exists>n i. v_insts (vw w) n = Some i \<and> i_TaskID i = d \<and> i_Status i = ''success'')"
      by blast
    then have "\<not> blocked (vw w) task" if "b" using that unfolding blocked_def by blast
    with b(1) True that show thesis by simp
  next
    case False
    then show thesis by (intro that [of True]) (simp_all add: blocked_def)
  qed
  show ?thesis
  proof (cases b)
    case False
    have "wp (handleTask T I W l task) (\<lambda>r w'. ok w' \<and> r = Inr () \<and> retimed task (vw w) (vw w')) w"
      apply (simp only: handleTask_def wp_bind wp_upstream [OF assms] sum.case wp_run [OF b(1)] False not_False_eq_True
          if_True wp_time_now)
      apply (rule wp_mono [OF retime_wp])
      using assms by auto
    moreover have "?ds \<noteq> []" using b(1) False by (cases "?ds = []") auto
    ultimately show ?thesis
      by (elim wp_mono) (auto simp: handled_def retimed_def other_tasks_def)
  next
    case True
    then have nb: "\<not> blocked (vw w) task" using b(2) by simp
    show ?thesis
      apply (simp only: handleTask_def wp_bind wp_upstream [OF assms] sum.case wp_run [OF b(1)] True not_True_eq_False
          if_False wp_if_ok)
      apply (rule wp_mono [OF shard_loop_wp [OF assms]])
      subgoal for r w1
        apply (elim conjE exE)
        subgoal for xs
          apply (cases "r = Inr True")
          subgoal
            apply simp
            apply (rule wp_mono [OF advance_task_wp])
             apply assumption
            subgoal premises p for r' w'
            proof -
              have "rescheduled task (vw w1) (vw w') r'" using p(5) unfolding rescheduled_def by blast
              then have "handled task (vw w) (vw w') r'"
                using handled_all [OF nb] p(3,4) by blast
              with p(2,5) show ?thesis using other_tasks_retimed by blast
            qed
            done
          subgoal
            using handled_part [OF nb] by (cases r) auto
          done
        done
      done
  qed
qed

end

section \<open>A scan\<close>

text \<open>Instances of tasks of \<open>K\<close> appeared; no instance and no other task changed.\<close>

definition fired_by :: "int set \<Rightarrow> view \<Rightarrow> view \<Rightarrow> bool" where
  "fired_by K v v' \<longleftrightarrow> v_deps v' = v_deps v \<and> (\<forall>j. j \<notin> K \<longrightarrow> v_tasks v' j = v_tasks v j) \<and> balanced v v' \<and>
     (\<forall>n i. v_insts v n = Some i \<longrightarrow> v_insts v' n = Some i) \<and>
     (\<forall>n i. v_insts v n = None \<longrightarrow> v_insts v' n = Some i \<longrightarrow>
        i_TaskID i \<in> K \<and> i_Status i \<in> {''pending'', ''dispatched'', ''failed''})"

lemma fired_by_refl [simp]: "fired_by K v v"
  by (simp add: fired_by_def)

lemma fired_by_trans:
  assumes "fired_by K u v" "fired_by K v w"
  shows "fired_by K u w"
  unfolding fired_by_def
proof (intro conjI allI impI)
  fix n i
  assume n: "v_insts u n = None" "v_insts w n = Some i"
  have "i_TaskID i \<in> K \<and> i_Status i \<in> {''pending'', ''dispatched'', ''failed''}"
  proof (cases "v_insts v n")
    case (Some j)
    with assms(2) n(2) have "j = i" by (simp add: fired_by_def)
    with assms(1) n(1) Some show ?thesis by (simp add: fired_by_def)
  qed (use assms(2) n(2) in \<open>simp add: fired_by_def\<close>)
  then show "i_TaskID i \<in> K" "i_Status i \<in> {''pending'', ''dispatched'', ''failed''}" by simp_all
qed (use assms in \<open>auto simp: fired_by_def intro: balanced_trans\<close>)

lemma fired_by_mono: "fired_by K v v' \<Longrightarrow> K \<subseteq> L \<Longrightarrow> fired_by L v v'"
  unfolding fired_by_def by blast

lemma add_insts_at: "add_insts xs m n = (if n \<in> i_ID ` set xs then add_insts xs Map.empty n else m n)"
  by (induction xs rule: rev_induct) (auto simp: add_insts_def)

lemma add_insts_mem: "add_insts xs Map.empty n = Some i \<Longrightarrow> i \<in> set xs \<and> i_ID i = n"
  by (induction xs rule: rev_induct) (auto simp: add_insts_def split: if_splits)

lemma spawned_all_fired:
  assumes "spawned_all task ks v v' xs" "other_tasks task v v'"
  shows "fired_by {t_ID task} v v'"
proof -
  have new: "v_insts v (i_ID i) = None \<and> i_TaskID i = t_ID task \<and> i_Status i \<in> {''pending'', ''dispatched'', ''failed''}"
    if "i \<in> set xs" for i
    using assms(1) that by (simp add: spawned_all_def)
  have at: "v_insts v' n = (if n \<in> i_ID ` set xs then add_insts xs Map.empty n else v_insts v n)" for n
    using assms(1) add_insts_at [of xs "v_insts v" n] by (simp add: spawned_all_def)
  have "v_insts v' n = Some i" if "v_insts v n = Some i" for n i
    using that new by (auto simp: at)
  moreover have "i_TaskID i = t_ID task \<and> i_Status i \<in> {''pending'', ''dispatched'', ''failed''}"
    if "v_insts v n = None" "v_insts v' n = Some i" for n i
  proof -
    from that have "i \<in> set xs" by (auto simp: at split: if_splits dest: add_insts_mem)
    with new show ?thesis by blast
  qed
  ultimately show ?thesis
    using assms by (simp add: fired_by_def spawned_all_def other_tasks_def)
qed

lemma retimed_fired: "retimed task v v' \<Longrightarrow> fired_by {t_ID task} v v'"
  using balanced_tasks [of v' v] by (auto simp: retimed_def fired_by_def)

lemma handled_fired:
  assumes "handled task v v' r" "other_tasks task v v'"
  shows "fired_by {t_ID task} v v'"
  using assms(1) unfolding handled_def
proof (elim disjE conjE exE)
  assume "retimed task v v'"
  then show ?thesis by (rule retimed_fired)
next
  fix u xs s
  assume s: "shards_done task (shard_numbers task) v u xs s" and v': "if s = Inr True then rescheduled task u v' r else v' = u"
  have u: "retimed task u v'" using v' by (auto simp: rescheduled_def split: if_splits)
  have "other_tasks task v u" using assms(2) u by (force simp: other_tasks_def retimed_def)
  with s have "fired_by {t_ID task} v u" using spawned_all_fired by (auto simp: shards_done_def)
  with retimed_fired [OF u] show ?thesis using fired_by_trans by blast
qed

definition due_task :: "(nat \<Rightarrow> time) \<Rightarrow> Task \<Rightarrow> bool" where
  "due_task c t \<longleftrightarrow> t_Status t = ''enabled'' \<and> (\<exists>n. t_NextTriggerTime t \<le> c n)"

definition due_ids :: "(nat \<Rightarrow> time) \<Rightarrow> view \<Rightarrow> int set" where
  "due_ids c v = {k. \<exists>t. v_tasks v k = Some t \<and> due_task c t}"

definition pending_ids :: "view \<Rightarrow> int set" where
  "pending_ids v = {n. \<exists>i. v_insts v n = Some i \<and> i_Status i = ''pending''}"

text \<open>The documented behaviour of the cache the scan relies on: a lookup only reads.\<close>

definition reads_only :: "(time \<Rightarrow> ('a, error + int list) go) option \<Rightarrow> bool" where
  "reads_only cached \<longleftrightarrow> (\<forall>get t w. cached = Some get \<longrightarrow> snd (run_state (get t) w) = w)"

context repositories
begin

lemma handle_loop_wp:
  "ok w \<Longrightarrow> wp (handle_loop T I W l ts) (\<lambda>_ w'. ok w' \<and> fired_by (t_ID ` set ts) (vw w) (vw w')) w"
proof (induction ts arbitrary: w)
  case (Cons task ts)
  let ?K = "t_ID ` set (task # ts)"
  have go_on: "wp (handleTask T I W l task) (\<lambda>_. wp (handle_loop T I W l ts)
      (\<lambda>_ w'. ok w' \<and> fired_by ?K (vw w) (vw w'))) w"
  proof (rule wp_mono [OF handleTask_wp [OF Cons.prems]])
    fix r :: "error + unit" and w1
    assume 1: "ok w1 \<and> other_tasks task (vw w) (vw w1) \<and> handled task (vw w) (vw w1) r"
    then have 2: "fired_by ?K (vw w) (vw w1)" by (intro fired_by_mono [OF handled_fired]) auto
    have "fired_by ?K (vw w) (vw w')" if "fired_by (t_ID ` set ts) (vw w1) (vw w')" for w'
      using fired_by_trans [OF 2] fired_by_mono [OF that, of ?K] by auto
    with 1 show "wp (handle_loop T I W l ts) (\<lambda>_ w'. ok w' \<and> fired_by ?K (vw w) (vw w')) w1"
      by (intro wp_mono [OF Cons.IH]) auto
  qed
  with Cons.prems show ?case by (simp add: bp_allows_def)
qed simp

lemma cached_tasks_wp:
  "ok w \<Longrightarrow> wp (cached_tasks T ks)
     (\<lambda>ts w'. ok w' \<and> vw w' = vw w \<and> env w' = env w \<and> t_ID ` set ts \<subseteq> due_ids (clock w) (vw w)) w"
proof (induction ks arbitrary: w)
  case (Cons k ks)
  let ?w = "w\<lparr>readings := Suc (readings w)\<rparr>"
  show ?case
  proof (cases "v_tasks (vw w) k")
    case None
    with Cons show ?thesis by (simp add: wp_get_task)
  next
    case (Some t)
    have "t_ID t = k" using task_id [OF Cons.prems Some] .
    then have "t_ID t \<in> due_ids (clock w) (vw w)" if "t_Status t = ''enabled''" "\<not> t_NextTriggerTime t > clock w (readings w)"
      using that Some by (auto simp: due_ids_def due_task_def not_less)
    moreover have "ok ?w" using Cons.prems by simp
    ultimately show ?thesis
      using Cons Some by (simp add: wp_get_task wps) (intro impI, rule wp_mono [OF Cons.IH], auto)
  qed
qed simp

lemma cache_lookup_wp:
  assumes "ok w" "reads_only cached"
  shows "wp (cache_lookup T cached)
    (\<lambda>ts w'. ok w' \<and> vw w' = vw w \<and> env w' = env w \<and> t_ID ` set ts \<subseteq> due_ids (clock w) (vw w)) w"
proof (cases cached)
  case (Some get)
  let ?w = "w\<lparr>readings := Suc (readings w)\<rparr>"
  have ok: "ok ?w" using assms(1) by simp
  from assms(2) Some have "snd (run_state (get (clock w (readings w))) ?w) = ?w" by (simp add: reads_only_def)
  then obtain r where "run_state (get (clock w (readings w))) ?w = (r, ?w)" by (metis prod.collapse)
  from wp_run [OF this] Some ok show ?thesis
    by (cases r) (simp_all add: cache_lookup_def, rule wp_mono [OF cached_tasks_wp],
        auto dest: in_set_takeD)
qed (use assms in \<open>simp add: cache_lookup_def\<close>)

lemma bp_gate_wp:
  assumes "ok w"
  shows "wp (bp_gate p) (\<lambda>b w'. ok w' \<and> vw w' = vw w \<and> clock w' = clock w \<and> sent w' = sent w \<and>
    (\<not> b \<longleftrightarrow> (\<exists>bp. pressure w = Some bp \<and> \<not> AllowDispatch (UpdatePending (clock w (readings w)) p bp)))) w"
  using assms by (cases "pressure w") (simp_all add: bp_gate_def wps Let_def)

lemma trigger_scan_wp:
  assumes "ok w" "reads_only cached"
  shows "wp (trigger_scan T I W l cached) (\<lambda>_ w'. ok w' \<and> fired_by (due_ids (clock w) (vw w)) (vw w) (vw w')) w"
proof -
  let ?K = "due_ids (clock w) (vw w)"
  let ?Q = "\<lambda>_ w'. ok w' \<and> fired_by ?K (vw w) (vw w')"
  have loop: "wp (handle_loop T I W l ts) ?Q w1" if "ok w1" "vw w1 = vw w" "t_ID ` set ts \<subseteq> ?K" for ts w1
    using that by (intro wp_mono [OF handle_loop_wp]) (auto elim: fired_by_mono)
  have due: "wp (ListDueTasks T 100) (\<lambda>r. wp (case r of Inl err \<Rightarrow> State_Monad.return () | Inr ts \<Rightarrow>
      handle_loop T I W l ts) ?Q) w1" if 1: "ok w1" "vw w1 = vw w" "clock w1 = clock w" for w1
  proof -
    from list_due [OF 1(1), of 100] obtain w2 ts all where
      2: "run_state (ListDueTasks T 100) w1 = (Inr ts, w2)" "moves vw ok w1 w2 (vw w1)" "ts = limit_list 100 all"
      "enumerates all (v_tasks (vw w1)) (\<lambda>t. t_Status t = ''enabled'' \<and> \<not> IsZero (t_NextTriggerTime t) \<and>
        t_NextTriggerTime t \<le> clock w1 (readings w1))"
      by auto
    have "t_ID t \<in> ?K" if "t \<in> set ts" for t
    proof -
      have "t \<in> set all" using that 2(3) set_limit_list [of 100 all] by auto
      then obtain k where "v_tasks (vw w) k = Some t" "due_task (clock w) t"
        using 2(4) 1 by (auto simp: enumerates_def ran_def due_task_def)
      with task_id [OF assms(1)] show ?thesis by (auto simp: due_ids_def)
    qed
    then show ?thesis
      using loop [of w2 ts] 2(2) 1(2) by (simp add: wp_run [OF 2(1)] moves_def image_subset_iff)
  qed
  from count_by_status [OF assms(1), of "''pending''"] obtain p where
    p: "run_state (CountInstancesByStatus I ''pending'') w = (Inr p, w)" by blast
  show ?thesis
    unfolding trigger_scan_def wp_bind wp_run [OF p] sum.case
  proof (rule wp_mono [OF bp_gate_wp [OF assms(1)]])
    fix go_on w1
    assume 1: "ok w1 \<and> vw w1 = vw w \<and> clock w1 = clock w \<and> sent w1 = sent w \<and>
      (\<not> go_on \<longleftrightarrow> (\<exists>bp. pressure w = Some bp \<and> \<not> AllowDispatch (UpdatePending (clock w (readings w)) p bp)))"
    have "wp (cache_lookup T cached) (\<lambda>hits. wp (if length hits > 0 then handle_loop T I W l hits
        else do { listed \<leftarrow> ListDueTasks T 100; case listed of Inl err \<Rightarrow> State_Monad.return ()
                | Inr tasks \<Rightarrow> handle_loop T I W l tasks }) ?Q) w1"
    proof (rule wp_mono [OF cache_lookup_wp [OF _ assms(2)]])
      fix hits :: "Task list" and w2
      assume 2: "ok w2 \<and> vw w2 = vw w1 \<and> env w2 = env w1 \<and> t_ID ` set hits \<subseteq> due_ids (clock w1) (vw w1)"
      have c: "clock w2 = clock w" using 1 2 env_eqD(1) [of w2 w1] by simp
      have h: "wp (handle_loop T I W l hits) ?Q w2" by (rule loop) (use 1 2 in simp_all)
      have d: "wp (ListDueTasks T 100) (\<lambda>r. wp (case r of
          Inl err \<Rightarrow> State_Monad.return () | Inr ts \<Rightarrow> handle_loop T I W l ts) ?Q) w2"
        by (rule due) (use 1 2 c in simp_all)
      show "wp (if length hits > 0 then handle_loop T I W l hits
        else do { listed \<leftarrow> ListDueTasks T 100; case listed of Inl err \<Rightarrow> State_Monad.return ()
                | Inr tasks \<Rightarrow> handle_loop T I W l tasks }) ?Q w2"
        using h d by (simp only: wp_bind split: if_split) blast
    qed (use 1 in simp)
    with 1 show "wp (if \<not> go_on then State_Monad.return () else do { hits \<leftarrow> cache_lookup T cached;
        if length hits > 0 then handle_loop T I W l hits
        else do { listed \<leftarrow> ListDueTasks T 100; case listed of Inl err \<Rightarrow> State_Monad.return ()
                | Inr tasks \<Rightarrow> handle_loop T I W l tasks } }) ?Q w1"
      by simp
  qed
qed

lemma trigger_scan_red:
  assumes "ok w" "pressure w = Some b"
    "\<not> AllowDispatch (UpdatePending (clock w (readings w)) (int (card (pending_ids (vw w)))) b)"
  shows "wp (trigger_scan T I W l cached) (\<lambda>_ w'. ok w' \<and> vw w' = vw w \<and> sent w' = sent w) w"
proof -
  from count_by_status [OF assms(1), of "''pending''"] obtain all where
    all: "run_state (CountInstancesByStatus I ''pending'') w = (Inr (int (length all)), w)"
      "enumerates all (v_insts (vw w)) (\<lambda>i. i_Status i = ''pending'')" by blast
  have mem: "v_insts (vw w) (i_ID i) = Some i" if "i \<in> set all" for i
    using that all(2) inst_id [OF assms(1)] by (auto simp: enumerates_def ran_def)
  have "pending_ids (vw w) = i_ID ` set all"
    using all(2) inst_id [OF assms(1)] by (force simp: enumerates_def ran_def image_iff pending_ids_def)
  moreover have "inj_on i_ID (set all)" by (rule inj_onI) (metis mem option.inject)
  moreover have "distinct all" using all(2) by (simp add: enumerates_def)
  ultimately have "card (pending_ids (vw w)) = length all" by (simp add: card_image distinct_card)
  with assms show ?thesis
    unfolding trigger_scan_def wp_bind wp_run [OF all(1)] sum.case
    by (intro wp_mono [OF bp_gate_wp]) auto
qed

end

section \<open>Properties\<close>

text \<open>
  Handling a due task touches no other task and no existing instance. A task with no upstream
  task is turned into one fresh instance per shard, in shard order and with retry count zero, up to
  the first shard for which no worker is found, which stays pending; every earlier shard is
  dispatched or marked failed, load is reserved for exactly the dispatched ones, and after the last
  shard the task gets the next time of its expression, or the error of its expression is returned.
\<close>

theorem handleTask_effect:
  assumes "stores_ok w" "upstream (test_view w) (t_ID task) = []"
  shows "case run_state (handleTask test_tasks test_instances test_workers l task) w of (r, w') \<Rightarrow>
    stores_ok w' \<and> other_tasks task (test_view w) (test_view w') \<and>
    (\<exists>u xs s. shards_done task (shard_numbers task) (test_view w) u xs s \<and>
      (if s = Inr True then rescheduled task u (test_view w') r else test_view w' = u))"
  using ts.handleTask_wp [OF assms(1), of l task] assms(2) unfolding wp_def handled_def by (auto simp: split_beta)

theorem handleTask_effect_witness:
  "case run_state (handleTask test_tasks test_instances test_workers (NewTriggerLoop 0 [] 0) sample_task) sample of (r, w') \<Rightarrow>
    stores_ok w' \<and> (\<exists>u xs s. shards_done sample_task (shard_numbers sample_task) (test_view sample) u xs s \<and>
      (if s = Inr True then rescheduled sample_task u (test_view w') r else test_view w' = u))"
proof -
  have "upstream (test_view sample) (t_ID sample_task) = []" by (simp add: upstream_def)
  from handleTask_effect [OF sample_ok this, of "NewTriggerLoop 0 [] 0"] show ?thesis by (auto simp: split_beta)
qed


definition sample_diamond :: stores where
  "sample_diamond = sample\<lparr>task_store := (task_store sample)\<lparr>ts_dependencies := [dep_edge 1 2, dep_edge 1 3]\<rparr>\<rparr>"


text \<open>
  C22. A scan of the trigger loop, with or without a cache of due tasks, creates instances of enabled
  tasks whose time has come and of no others; it leaves existing instances, dependencies and all
  other tasks as they are; and the load it puts on the workers is the number of instances it
  dispatched.
\<close>

theorem trigger_scan_due_only:
  assumes "stores_ok w" "reads_only cached" "finite_view (test_view w)"
  shows "case run_state (trigger_scan test_tasks test_instances test_workers l cached) w of (_, w') \<Rightarrow>
    stores_ok w' \<and> fired_by (due_ids (clock w) (test_view w)) (test_view w) (test_view w') \<and>
    total_load (test_view w') - total_load (test_view w) =
      int (card (dispatched_ids (test_view w'))) - int (card (dispatched_ids (test_view w)))"
  using ts.trigger_scan_wp [OF assms(1,2), of l] assms(3)
  unfolding wp_def fired_by_def balanced_def by (auto simp: split_beta)

definition sample_cache :: "(time \<Rightarrow> (stores, error + int list) state) option" where
  "sample_cache = Some (\<lambda>_. reads (\<lambda>w. Inr [1]))"

theorem trigger_scan_due_only_witness:
  "case run_state (trigger_scan test_tasks test_instances test_workers (NewTriggerLoop 0 [] 0) sample_cache) sample of (_, w') \<Rightarrow>
    fired_by (due_ids (clock sample) (test_view sample)) (test_view sample) (test_view w')"
proof -
  have "loads_nonneg (test_view sample)" by (auto simp: loads_nonneg_def loads_def sample_worker_def)
  moreover have "finite (dom (loads (test_view sample)))"
    by (rule finite_subset [of _ "{''w1'', ''w2''}"]) (auto simp: loads_def split: if_splits)
  ultimately have "finite_view (test_view sample)" by (simp add: finite_view_def)
  moreover have "reads_only sample_cache" by (simp add: reads_only_def sample_cache_def)
  ultimately show ?thesis
    using trigger_scan_due_only [OF sample_ok, of sample_cache "NewTriggerLoop 0 [] 0"]
    by (simp add: split_beta)
qed

text \<open>
  When the number of pending instances makes the backpressure controller red, a scan is refused: no
  store changes and nothing is sent, whatever is due.
\<close>

theorem trigger_scan_refused:
  assumes "stores_ok w" "pressure w = Some b"
    "\<not> AllowDispatch (UpdatePending (clock w (readings w)) (int (card (pending_ids (test_view w)))) b)"
  shows "case run_state (trigger_scan test_tasks test_instances test_workers l cached) w of (_, w') \<Rightarrow>
    stores_ok w' \<and> test_view w' = test_view w \<and> sent w' = sent w"
  using ts.trigger_scan_red [OF assms, of l cached] unfolding wp_def by (simp add: split_beta)

definition sample_red :: stores where
  "sample_red = sample\<lparr>pressure := Some (NewBackpressureController 0 \<lparr>bc_MaxPending = 1, bc_YellowRatio = 0,
      bc_RedRatio = fl64 (1 / 2), bc_MaxWorkerLoad = 0\<rparr>),
     instance_store := (instance_store sample)\<lparr>is_instances := [(1, sample_instance\<lparr>i_Status := ''pending''\<rparr>)]\<rparr>\<rparr>"

theorem trigger_scan_refused_witness:
  "case run_state (trigger_scan test_tasks test_instances test_workers (NewTriggerLoop 0 [] 0) None) sample_red
   of (_, w') \<Rightarrow> test_view w' = test_view sample_red \<and> sent w' = []"
proof -
  have ok: "stores_ok sample_red"
    by (auto simp: sample_red_def stores_ok_def sample_def keyed_def wf_map_def sample_task_def sample_instance_def
        sample_worker_def split: if_splits)
  have ids: "pending_ids (test_view sample_red) = {1}"
    by (auto simp: pending_ids_def test_view_def sample_red_def split: if_splits)
  have "fl64 (1 / 2) \<le> fl64 1" "fl64 1 = 1" "0 < fl64 (1 / 2)"
    using fl64_of_int [of 1] fl64_mono [of "1 / 2" 1] round_even_near [of "1 / 2 * 2 ^ 53"] by (simp_all add: fl64_unit)
  then have "\<not> AllowDispatch (UpdatePending t 1 (the (pressure sample_red)))" for t
    by (simp add: sample_red_def UpdatePending_def NewBackpressureController_def AllowDispatch_def State_bp_def Let_def)
  then show ?thesis
    using trigger_scan_refused [OF ok, of _ "NewTriggerLoop 0 [] 0" None] ids
    by (simp add: split_beta sample_red_def)
qed

end
