(* ===== verification/TaskService.thy ===== *)
theory TaskService
  imports Trigger
begin

text \<open>
  \<^verbatim>\<open>internal/api/service/task_service.go\<close>, \<^verbatim>\<open>task_instance_service.go\<close> and \<^verbatim>\<open>audit.go\<close>, with the tenant
  of a request from \<^verbatim>\<open>internal/tenant\<close>: definitions of tasks, their dependencies, and the listing of
  instances. Of the request context the services read the tenant only, so a context is the tenant
  stored in it, if any. An audit entry is kept as the entry; its JSON goes to the log.
\<close>

section \<open>Tenants\<close>

type_synonym ctx = "int option"

definition WithTenant :: "ctx \<Rightarrow> int \<Rightarrow> ctx" where
  "WithTenant ctx tenantID = Some tenantID"

definition FromContext :: "ctx \<Rightarrow> int" where
  "FromContext ctx = the_default 0 ctx"

text \<open>The context \<^verbatim>\<open>Middleware\<close> hands on, from the value of the header \<^verbatim>\<open>X-Tenant-ID\<close>.\<close>

definition Middleware :: "string \<Rightarrow> ctx \<Rightarrow> ctx" where
  "Middleware tidStr ctx =
     (if tidStr \<noteq> [] then
        (case Atoi tidStr of
           None \<Rightarrow> ctx
         | Some tid \<Rightarrow> if tid > 0 then WithTenant ctx tid else ctx)
      else ctx)"

section \<open>The audit log\<close>

definition zero_AuditEntry :: AuditEntry where
  "zero_AuditEntry = \<lparr>ae_Timestamp = zero_time, ae_Action = [], ae_ResourceType = [], ae_ResourceID = [],
     ae_TenantID = 0, ae_Operator = [], ae_Detail = [], ae_Result = []\<rparr>"

text \<open>An instant has a JSON form when its year has at most four digits.\<close>

definition Record_audit :: "AuditEntry \<Rightarrow> ('a, unit) go" where
  "Record_audit entry = do {
     now \<leftarrow> time_now;
     let entry = entry\<lparr>ae_Timestamp := now\<rparr>;
     let entry = (if ae_Result entry = [] then entry\<lparr>ae_Result := ''success''\<rparr> else entry);
     loc \<leftarrow> reads zone;
     if Year loc now < 0 \<or> Year loc now > 9999 then State_Monad.return ()
     else modify (\<lambda>w. w\<lparr>audited := audited w @ [entry]\<rparr>) }"

section \<open>Task definitions\<close>

record TaskUpsertRequest =
  u_Name :: string
  u_Type :: string
  u_CronExpr :: string
  u_Payload :: string
  u_Image :: string
  u_Status :: string
  u_TimeoutSeconds :: int
  u_MaxRetry :: int
  u_RetryPolicy :: string
  u_RetryOnErrors :: string
  u_RouteStrategy :: string
  u_Labels :: "(string, string) gomap"
  u_NextTriggerTime :: time
  u_TenantID :: int
  u_DependsOn :: "int list"

record 'w TaskService =
  svc_repo :: "'w TaskRepository"
  svc_auditor :: bool

definition audit :: "'a world_scheme TaskService \<Rightarrow> string \<Rightarrow> int \<Rightarrow> string \<Rightarrow> ('a, unit) go" where
  "audit s action k detail =
     (if \<not> svc_auditor s then State_Monad.return ()
      else Record_audit (zero_AuditEntry\<lparr>ae_Action := action, ae_ResourceType := ''task'',
        ae_ResourceID := itoa k, ae_Detail := detail\<rparr>))"

definition auditErr :: "'a world_scheme TaskService \<Rightarrow> string \<Rightarrow> int \<Rightarrow> error \<Rightarrow> ('a, unit) go" where
  "auditErr s action k err =
     (if \<not> svc_auditor s then State_Monad.return ()
      else Record_audit (zero_AuditEntry\<lparr>ae_Action := action, ae_ResourceType := ''task'',
        ae_ResourceID := itoa k, ae_Detail := error_text err, ae_Result := ''error''\<rparr>))"

definition checkTenant :: "ctx \<Rightarrow> Task \<Rightarrow> error + unit" where
  "checkTenant ctx task =
     (let tid = FromContext ctx in
      if tid = 0 \<or> t_TenantID task = 0 then Inr ()
      else if t_TenantID task \<noteq> tid then Inl ErrTaskNotOwned
      else Inr ())"

text \<open>The checks and defaults of \<^verbatim>\<open>buildTask\<close> on the request.\<close>

definition upsert_defaults :: "TaskUpsertRequest \<Rightarrow> TaskUpsertRequest" where
  "upsert_defaults req =
     (let req = (if u_Status req = [] then req\<lparr>u_Status := ''enabled''\<rparr> else req);
          req = (if u_TimeoutSeconds req \<le> 0 then req\<lparr>u_TimeoutSeconds := 300\<rparr> else req);
          req = (if u_MaxRetry req < 0 then req\<lparr>u_MaxRetry := 0\<rparr> else req);
          req = (if u_RetryPolicy req = [] then req\<lparr>u_RetryPolicy := ''fixed_interval''\<rparr> else req);
          req = (if u_RouteStrategy req = [] then req\<lparr>u_RouteStrategy := ''round_robin''\<rparr> else req)
      in req)"

definition request_task :: "int \<Rightarrow> TaskUpsertRequest \<Rightarrow> Task" where
  "request_task k req = zero_Task\<lparr>t_ID := k, t_Name := u_Name req, t_Type := u_Type req,
     t_CronExpr := u_CronExpr req, t_Payload := u_Payload req, t_Image := u_Image req,
     t_Status := u_Status req, t_TimeoutSeconds := u_TimeoutSeconds req, t_MaxRetry := u_MaxRetry req,
     t_RetryPolicy := u_RetryPolicy req, t_RetryOnErrors := u_RetryOnErrors req,
     t_RouteStrategy := u_RouteStrategy req, t_Labels := EncodeLabels (u_Labels req),
     t_NextTriggerTime := u_NextTriggerTime req, t_TenantID := u_TenantID req\<rparr>"

definition buildTask :: "int \<Rightarrow> TaskUpsertRequest \<Rightarrow> ('a, error + Task) go" where
  "buildTask k req =
     (if TrimSpace (u_Name req) = [] then raise ErrTaskNameRequired
      else if TrimSpace (u_Type req) = [] then raise ErrTaskTypeRequired
      else let req = upsert_defaults req in
      if u_CronExpr req \<noteq> [] then
        (if Validate (u_CronExpr req) \<noteq> None then raise ErrInvalidCronExpr
         else if IsZero (u_NextTriggerTime req) then do {
           now \<leftarrow> time_now;
           loc \<leftarrow> reads zone;
           case NextAfter loc now (u_CronExpr req) of
             Inl _ \<Rightarrow> raise ErrInvalidCronExpr
           | Inr nextTrigger \<Rightarrow> ret (request_task k (req\<lparr>u_NextTriggerTime := nextTrigger\<rparr>)) }
         else ret (request_task k req))
      else ret (request_task k req))"

text \<open>The two loops of \<^verbatim>\<open>syncDependencies\<close>, over the keys of the two sets.\<close>

definition id_set :: "int list \<Rightarrow> (int, bool) gomap" where
  "id_set xs = fold (\<lambda>k m. mput k True m) xs []"

fun remove_unwanted ::
  "'a world_scheme TaskRepository \<Rightarrow> int \<Rightarrow> (int, bool) gomap \<Rightarrow> int list \<Rightarrow> ('a, error + unit) go" where
  "remove_unwanted T taskID wantedSet [] = ret ()"
| "remove_unwanted T taskID wantedSet (k # ks) =
     (if \<not> the_default False (mget wantedSet k)
      then if_ok (RemoveDependency T taskID k) (\<lambda>_. remove_unwanted T taskID wantedSet ks)
      else remove_unwanted T taskID wantedSet ks)"

fun add_missing ::
  "'a world_scheme TaskRepository \<Rightarrow> int \<Rightarrow> (int, bool) gomap \<Rightarrow> int list \<Rightarrow> ('a, error + unit) go" where
  "add_missing T taskID existingSet [] = ret ()"
| "add_missing T taskID existingSet (k # ks) =
     (if \<not> the_default False (mget existingSet k)
      then if_ok (AddDependency T taskID k) (\<lambda>_. add_missing T taskID existingSet ks)
      else add_missing T taskID existingSet ks)"

definition syncDependencies ::
  "'a world_scheme TaskService \<Rightarrow> int \<Rightarrow> int list \<Rightarrow> ('a, error + unit) go" where
  "syncDependencies s taskID dependsOn =
     if_ok (ListUpstreamDeps (svc_repo s) taskID) (\<lambda>existing.
       let existingSet = id_set existing; wantedSet = id_set dependsOn in
       if_ok (remove_unwanted (svc_repo s) taskID wantedSet (map fst existingSet)) (\<lambda>_.
         add_missing (svc_repo s) taskID existingSet (map fst wantedSet)))"

abbreviation mutated :: "string \<Rightarrow> ('a, unit) go" where
  "mutated action \<equiv> inc_counter ''tasks_mutations_total'' [(''action'', action)]"

definition TaskService_CreateTask ::
  "'a world_scheme TaskService \<Rightarrow> ctx \<Rightarrow> TaskUpsertRequest \<Rightarrow> ('a, error + Task) go" where
  "TaskService_CreateTask s ctx req =
     if_ok (buildTask 0 req) (\<lambda>task.
       let task = (if t_TenantID task = 0 then task\<lparr>t_TenantID := FromContext ctx\<rparr> else task) in
       if_ok (CreateTask (svc_repo s) task) (\<lambda>task.
         if_ok (syncDependencies s (t_ID task) (u_DependsOn req)) (\<lambda>_. do {
           mutated ''create'';
           audit s ''task.create'' (t_ID task) (t_Name task);
           ret task })))"

text \<open>The new trigger time of an update: the given one, or one for a new expression, or the old one.\<close>

definition update_trigger :: "Task \<Rightarrow> Task \<Rightarrow> ('a, error + Task) go" where
  "update_trigger current task =
     (if IsZero (t_NextTriggerTime task) then
        let task = task\<lparr>t_NextTriggerTime := t_NextTriggerTime current\<rparr> in
        if t_CronExpr task \<noteq> t_CronExpr current \<and> t_CronExpr task \<noteq> [] then do {
          now \<leftarrow> time_now;
          loc \<leftarrow> reads zone;
          case NextAfter loc now (t_CronExpr task) of
            Inl _ \<Rightarrow> raise ErrInvalidCronExpr
          | Inr nextTrigger \<Rightarrow> ret (task\<lparr>t_NextTriggerTime := nextTrigger\<rparr>) }
        else ret task
      else ret task)"

text \<open>\<^verbatim>\<open>id <= 0\<close>, \<^verbatim>\<open>GetTask\<close> and \<^verbatim>\<open>checkTenant\<close>, with which six methods begin.\<close>

definition owned_task ::
  "'a world_scheme TaskService \<Rightarrow> ctx \<Rightarrow> int \<Rightarrow> ('a, error + Task) go" where
  "owned_task s ctx k =
     (if k \<le> 0 then raise ErrTaskIDRequired
      else if_ok (GetTask (svc_repo s) k) (\<lambda>task.
        case checkTenant ctx task of Inl err \<Rightarrow> raise err | Inr _ \<Rightarrow> ret task))"

definition TaskService_UpdateTask ::
  "'a world_scheme TaskService \<Rightarrow> ctx \<Rightarrow> int \<Rightarrow> TaskUpsertRequest \<Rightarrow> ('a, error + Task) go" where
  "TaskService_UpdateTask s ctx k req =
     if_ok (owned_task s ctx k) (\<lambda>current.
       if_ok (buildTask k req) (\<lambda>task.
         let task = task\<lparr>t_CreatedAt := t_CreatedAt current, t_Version := t_Version current\<rparr> in
         if_ok (update_trigger current task) (\<lambda>task.
           if_ok (UpdateTask (svc_repo s) task) (\<lambda>task.
             if_ok (syncDependencies s (t_ID task) (u_DependsOn req)) (\<lambda>_. do {
               mutated ''update'';
               audit s ''task.update'' (t_ID task) (t_Name task);
               ret task })))))"

definition TaskService_DeleteTask ::
  "'a world_scheme TaskService \<Rightarrow> ctx \<Rightarrow> int \<Rightarrow> ('a, error + unit) go" where
  "TaskService_DeleteTask s ctx k =
     if_ok (owned_task s ctx k) (\<lambda>task.
       if_ok (DeleteTask (svc_repo s) k) (\<lambda>_. do {
         mutated ''delete'';
         audit s ''task.delete'' k [];
         ret () }))"

definition PauseTask :: "'a world_scheme TaskService \<Rightarrow> ctx \<Rightarrow> int \<Rightarrow> ('a, error + Task) go" where
  "PauseTask s ctx k =
     if_ok (owned_task s ctx k) (\<lambda>task.
       if_ok (UpdateTask (svc_repo s) (task\<lparr>t_Status := ''disabled''\<rparr>)) (\<lambda>task. do {
         mutated ''pause'';
         audit s ''task.pause'' k (t_Name task);
         ret task }))"

definition resume_trigger :: "Task \<Rightarrow> ('a, error + Task) go" where
  "resume_trigger task =
     (if t_CronExpr task \<noteq> [] then do {
        now \<leftarrow> time_now;
        loc \<leftarrow> reads zone;
        case NextAfter loc now (t_CronExpr task) of
          Inl _ \<Rightarrow> raise ErrInvalidCronExpr
        | Inr nextTrigger \<Rightarrow> ret (task\<lparr>t_NextTriggerTime := nextTrigger\<rparr>) }
      else ret task)"

definition ResumeTask :: "'a world_scheme TaskService \<Rightarrow> ctx \<Rightarrow> int \<Rightarrow> ('a, error + Task) go" where
  "ResumeTask s ctx k =
     if_ok (owned_task s ctx k) (\<lambda>task.
       if_ok (resume_trigger (task\<lparr>t_Status := ''enabled''\<rparr>)) (\<lambda>task.
         if_ok (UpdateTask (svc_repo s) task) (\<lambda>task. do {
           mutated ''resume'';
           audit s ''task.resume'' k (t_Name task);
           ret task })))"

definition TriggerTask :: "'a world_scheme TaskService \<Rightarrow> ctx \<Rightarrow> int \<Rightarrow> ('a, error + Task) go" where
  "TriggerTask s ctx k =
     if_ok (owned_task s ctx k) (\<lambda>task.
       if t_Status task \<noteq> ''enabled'' then raise ErrTaskNotEnabled
       else do {
         now \<leftarrow> time_now;
         if_ok (UpdateTask (svc_repo s) (task\<lparr>t_NextTriggerTime := now - second\<rparr>)) (\<lambda>task. do {
           mutated ''trigger'';
           audit s ''task.trigger'' k (t_Name task);
           ret task }) })"

definition TaskService_GetTask :: "'a world_scheme TaskService \<Rightarrow> ctx \<Rightarrow> int \<Rightarrow> ('a, error + Task) go" where
  "TaskService_GetTask s ctx k = owned_task s ctx k"

definition TaskService_ListTasks :: "'a world_scheme TaskService \<Rightarrow> ctx \<Rightarrow> ('a, error + Task list) go" where
  "TaskService_ListTasks s ctx =
     (let tid = FromContext ctx in
      if tid \<noteq> 0 then ListTasksByTenant (svc_repo s) tid else ListTasks (svc_repo s))"

record DAGNode =
  n_ID :: int
  n_Name :: string
  n_Type :: string
  n_Status :: string
  n_DependsOn :: "int list"

fun dag_nodes :: "'a world_scheme TaskRepository \<Rightarrow> Task list \<Rightarrow> ('a, DAGNode list) go" where
  "dag_nodes T [] = State_Monad.return []"
| "dag_nodes T (t # ts) = do {
     deps \<leftarrow> ListUpstreamDeps T (t_ID t);
     rest \<leftarrow> dag_nodes T ts;
     State_Monad.return (\<lparr>n_ID = t_ID t, n_Name = t_Name t, n_Type = t_Type t, n_Status = t_Status t,
       n_DependsOn = (case deps of Inl _ \<Rightarrow> [] | Inr ds \<Rightarrow> ds)\<rparr> # rest) }"

definition GetDAG :: "'a world_scheme TaskService \<Rightarrow> ctx \<Rightarrow> ('a, error + DAGNode list) go" where
  "GetDAG s ctx =
     if_ok (TaskService_ListTasks s ctx) (\<lambda>tasks. do {
       nodes \<leftarrow> dag_nodes (svc_repo s) tasks;
       ret nodes })"

section \<open>Instances\<close>

definition TaskInstanceService_GetInstance ::
  "'a world_scheme TaskInstanceRepository \<Rightarrow> int \<Rightarrow> ('a, error + TaskInstance) go" where
  "TaskInstanceService_GetInstance I n = (if n \<le> 0 then raise ErrTaskInstanceIDRequired else GetInstance I n)"

definition TaskInstanceService_ListInstances ::
  "'a world_scheme TaskInstanceRepository \<Rightarrow> ('a, error + TaskInstance list) go" where
  "TaskInstanceService_ListInstances I = ListInstances I"

record ListInstancesParams =
  p_Status :: string
  p_TaskID :: int
  p_Limit :: int
  p_Offset :: int

record InstanceListResult =
  ir_Instances :: "TaskInstance list"
  ir_Total :: int

definition paginateInstances :: "TaskInstance list \<Rightarrow> int \<Rightarrow> int \<Rightarrow> TaskInstance list" where
  "paginateInstances instances limit offset =
     (let instances = sort_by (\<lambda>i. - i_ID i) instances;
          instances = (if offset > 0 \<and> offset < int (length instances) then drop (nat offset) instances else instances);
          instances = (if limit > 0 \<and> limit < int (length instances) then take (nat limit) instances else instances)
      in instances)"

definition ListInstancesWithParams ::
  "'a world_scheme TaskInstanceRepository \<Rightarrow> ListInstancesParams \<Rightarrow> ('a, error + InstanceListResult) go" where
  "ListInstancesWithParams I params =
     (if p_TaskID params > 0 then
        if_ok (ListInstancesByTaskID I (p_TaskID params)) (\<lambda>instances.
          let instances = (if p_Status params \<noteq> []
                then filter (\<lambda>inst. i_Status inst = p_Status params) instances else instances)
          in ret \<lparr>ir_Instances = paginateInstances instances (p_Limit params) (p_Offset params),
                  ir_Total = int (length instances)\<rparr>)
      else if p_Status params \<noteq> [] then
        if_ok (ListInstancesByStatus I (p_Status params) (p_Limit params)) (\<lambda>instances.
          ret \<lparr>ir_Instances = instances, ir_Total = int (length instances)\<rparr>)
      else
        if_ok (ListInstances I) (\<lambda>all.
          ret \<lparr>ir_Instances = paginateInstances all (p_Limit params) (p_Offset params),
               ir_Total = int (length all)\<rparr>))"

section \<open>Facts\<close>

lemma svc_repo_sel: "svc_repo \<lparr>svc_repo = T, svc_auditor = a\<rparr> = T"
  by simp

lemma FromContext_simps [simp]: "FromContext None = 0" "FromContext (Some k) = k"
  by (simp_all add: FromContext_def)

lemma mget_id_set: "mget (id_set xs) k = (if k \<in> set xs then Some True else None)"
proof -
  have "mget (fold (\<lambda>k m. mput k True m) xs m) k = (if k \<in> set xs then Some True else mget m k)" for m :: "(int, bool) gomap"
    by (induction xs arbitrary: m) auto
  then show ?thesis by (simp add: id_set_def)
qed

lemma id_set_mem [simp]: "the_default False (mget (id_set xs) k) \<longleftrightarrow> k \<in> set xs"
  by (simp add: mget_id_set)

lemma wf_id_set: "wf_map (id_set xs)"
proof -
  have "wf_map m \<Longrightarrow> wf_map (fold (\<lambda>k m. mput k True m) xs m)" for m :: "(int, bool) gomap"
    by (induction xs arbitrary: m) auto
  then show ?thesis by (simp add: id_set_def)
qed

lemma keys_id_set [simp]: "set (map fst (id_set xs)) = set xs" "distinct (map fst (id_set xs))"
proof -
  have "fst ` set (id_set xs) = {k. mget (id_set xs) k \<noteq> None}"
    by (simp add: map_of_eq_None_iff)
  then show "set (map fst (id_set xs)) = set xs" by (simp add: mget_id_set del: not_None_eq)
  show "distinct (map fst (id_set xs))" using wf_id_set by (simp add: wf_map_def)
qed

lemma wp_audit: "(\<And>n a. Q () (w\<lparr>readings := n, audited := a\<rparr>)) \<Longrightarrow> wp (audit s act k d) Q w"
proof -
  assume Q: "\<And>n a. Q () (w\<lparr>readings := n, audited := a\<rparr>)"
  have "Q () w" using Q [of "audited w" "readings w"] by simp
  moreover have "Q () (w\<lparr>readings := n\<rparr>)" for n using Q [of "audited w" n] by simp
  ultimately show ?thesis using Q by (simp add: audit_def Record_audit_def wps Let_def)
qed

text \<open>Only edges out of the task \<open>k\<close> changed.\<close>

definition rewired :: "int \<Rightarrow> view \<Rightarrow> view \<Rightarrow> bool" where
  "rewired k v v' \<longleftrightarrow> (\<exists>ds. v' = v\<lparr>v_deps := ds\<rparr>) \<and> (\<forall>j. j \<noteq> k \<longrightarrow> upstream v' j = upstream v j)"

lemma rewired_refl [simp]: "rewired k v v"
  unfolding rewired_def by (intro conjI exI [of _ "v_deps v"]) simp_all

lemma rewired_trans: "rewired k u v \<Longrightarrow> rewired k v w \<Longrightarrow> rewired k u w"
  by (auto simp: rewired_def)

lemma rewired_sel: "rewired k v v' \<Longrightarrow> v_tasks v' = v_tasks v \<and> v_insts v' = v_insts v \<and> v_sched v' = v_sched v \<and> v_workers v' = v_workers v"
  by (auto simp: rewired_def)

lemma rewired_remove:
  "v' = v\<lparr>v_deps := filter (\<lambda>d. \<not> (d_TaskID d = k \<and> d_DependsOnTaskID d = j)) (v_deps v)\<rparr> \<Longrightarrow>
   rewired k v v' \<and> upstream v' k = filter (\<lambda>x. x \<noteq> j) (upstream v k)"
proof -
  assume v': "v' = v\<lparr>v_deps := filter (\<lambda>d. \<not> (d_TaskID d = k \<and> d_DependsOnTaskID d = j)) (v_deps v)\<rparr>"
  have "filter (\<lambda>d. d_TaskID d = i) (v_deps v') = filter (\<lambda>d. i \<noteq> k \<or> d_DependsOnTaskID d \<noteq> j) (filter (\<lambda>d. d_TaskID d = i) (v_deps v))" for i
    unfolding v' by (simp add: conj_commute cong: filter_cong) (rule filter_cong; auto)
  then have "upstream v' i = filter (\<lambda>x. i \<noteq> k \<or> x \<noteq> j) (upstream v i)" for i
    by (simp add: upstream_def filter_map o_def)
  then show ?thesis using v' by (auto simp: rewired_def)
qed

lemma rewired_add:
  "v' = v\<lparr>v_deps := v_deps v @ [dep_edge k j]\<rparr> \<Longrightarrow> rewired k v v' \<and> upstream v' k = upstream v k @ [j]"
  by (auto simp: rewired_def upstream_def dep_edge_def)

text \<open>The outcome of a reconciliation.\<close>

definition synced :: "int \<Rightarrow> int list \<Rightarrow> view \<Rightarrow> view \<Rightarrow> error + unit \<Rightarrow> bool" where
  "synced k ds v v' r \<longleftrightarrow> rewired k v v' \<and>
     (if \<forall>d \<in> set ds - set (upstream v k). v_tasks v d \<noteq> None
      then r = Inr () \<and> set (upstream v' k) = set ds \<and> (distinct (upstream v k) \<longrightarrow> distinct (upstream v' k))
      else r = Inl ErrTaskNotFound)"

context task_repository
begin

lemma remove_unwanted_wp:
  "ok w \<Longrightarrow> wp (remove_unwanted T k (id_set ds) ks) (\<lambda>r w'. r = Inr () \<and> ok w' \<and> env w' = env w \<and> rewired k (vw w) (vw w') \<and>
     upstream (vw w') k = filter (\<lambda>x. x \<in> set ds \<or> x \<notin> set ks) (upstream (vw w) k)) w"
proof (induction ks arbitrary: w)
  case (Cons j ks)
  show ?case
  proof (cases "j \<in> set ds")
    case True
    then have "filter (\<lambda>x. x \<in> set ds \<or> x \<notin> set (j # ks)) = filter (\<lambda>x. x \<in> set ds \<or> x \<notin> set ks)"
      by (intro ext filter_cong) auto
    with Cons True show ?thesis by simp
  next
    case False
    show ?thesis
      apply (simp add: False del: set_simps)
      apply (rule wp_remove_dependency [OF Cons.prems])
      subgoal for w1
        using rewired_remove [where v' = "vw w1" and v = "vw w" and k = k and j = j] False
        by (simp del: set_simps) (rule wp_mono [OF Cons.IH], auto intro: rewired_trans filter_cong)
      done
  qed
qed simp

lemma add_missing_wp:
  assumes "ok w" "v_tasks (vw w) k \<noteq> None"
  shows "wp (add_missing T k (id_set es) ks) (\<lambda>r w'. ok w' \<and> env w' = env w \<and> rewired k (vw w) (vw w') \<and>
     (if \<forall>d \<in> set ks - set es. v_tasks (vw w) d \<noteq> None
      then r = Inr () \<and> upstream (vw w') k = upstream (vw w) k @ filter (\<lambda>x. x \<notin> set es) ks
      else r = Inl ErrTaskNotFound)) w"
  using assms
proof (induction ks arbitrary: w)
  case (Cons j ks)
  show ?case
  proof (cases "j \<in> set es")
    case True
    then have "set (j # ks) - set es = set ks - set es" by auto
    with Cons.IH [OF Cons.prems] True show ?thesis
      by (simp only: add_missing.simps id_set_mem filter.simps not_True_eq_False if_False)
  next
    case False
    show ?thesis
      apply (simp add: False del: set_simps)
      apply (rule wp_add_dependency [OF Cons.prems(1)])
      subgoal using Cons.prems False by auto
      subgoal for w1
        using rewired_add [where v' = "vw w1" and v = "vw w" and k = k and j = j] False Cons.prems
        by (simp del: set_simps) (rule wp_mono [OF Cons.IH], auto simp: rewired_sel intro: rewired_trans split: if_splits)
      done
  qed
qed simp

lemma syncDependencies_wp:
  assumes "ok w" "v_tasks (vw w) k \<noteq> None"
  shows "wp (syncDependencies \<lparr>svc_repo = T, svc_auditor = a\<rparr> k ds)
    (\<lambda>r w'. ok w' \<and> env w' = env w \<and> synced k ds (vw w) (vw w') r) w"
  unfolding syncDependencies_def
  apply (simp add: wp_upstream [OF assms(1)] Let_def)
  apply (rule wp_mono [OF remove_unwanted_wp [OF assms(1)]])
  subgoal for r w1
    apply (elim conjE, simp)
    apply (rule wp_mono [OF add_missing_wp])
      apply assumption
    using assms(2) rewired_sel apply force
    subgoal for r' w'
      using keys_id_set [of "upstream (vw w) k"] keys_id_set [of ds]
      by (auto simp: synced_def rewired_sel intro: rewired_trans distinct_filter)
    done
  done

end

text \<open>A request is acceptable at an instant: names are given and the expression has a next time.\<close>

definition acceptable :: "location \<Rightarrow> time \<Rightarrow> TaskUpsertRequest \<Rightarrow> bool" where
  "acceptable loc now req \<longleftrightarrow> TrimSpace (u_Name req) \<noteq> [] \<and> TrimSpace (u_Type req) \<noteq> [] \<and>
     (u_CronExpr req = [] \<or> Validate (u_CronExpr req) = None \<and>
        (IsZero (u_NextTriggerTime req) \<longrightarrow> (\<exists>t. NextAfter loc now (u_CronExpr req) = Inr t)))"

text \<open>
  The task carries what the request asks for, with the defaults filled in, and zero values for all
  that a request has no field for.
\<close>

definition requested :: "TaskUpsertRequest \<Rightarrow> Task \<Rightarrow> bool" where
  "requested req t \<longleftrightarrow> t_Name t = u_Name req \<and> t_Type t = u_Type req \<and> t_CronExpr t = u_CronExpr req \<and>
     t_Payload t = u_Payload req \<and> t_Image t = u_Image req \<and> t_RetryOnErrors t = u_RetryOnErrors req \<and>
     t_Labels t = EncodeLabels (u_Labels req) \<and>
     t_Status t = (if u_Status req = [] then ''enabled'' else u_Status req) \<and>
     t_TimeoutSeconds t > 0 \<and> t_MaxRetry t = max 0 (u_MaxRetry req) \<and>
     t_RetryPolicy t \<noteq> [] \<and> t_RouteStrategy t \<noteq> [] \<and> t_TotalShards t = 0 \<and> t_IdempotencyKey t = [] \<and>
     t_TriggerType t = [] \<and> t_EventName t = [] \<and> t_RetryIntervalSeconds t = 0 \<and> t_RetryWindowSeconds t = 0"

definition requested_time :: "location \<Rightarrow> time \<Rightarrow> TaskUpsertRequest \<Rightarrow> Task \<Rightarrow> bool" where
  "requested_time loc now req t \<longleftrightarrow>
     t_NextTriggerTime t = (if u_CronExpr req \<noteq> [] \<and> IsZero (u_NextTriggerTime req)
       then (case NextAfter loc now (u_CronExpr req) of Inl _ \<Rightarrow> zero_time | Inr nt \<Rightarrow> nt) else u_NextTriggerTime req)"

lemma upsert_defaults_sel [simp]:
  "u_CronExpr (upsert_defaults req) = u_CronExpr req" "u_NextTriggerTime (upsert_defaults req) = u_NextTriggerTime req"
  by (simp_all add: upsert_defaults_def Let_def)

lemma request_task_sel [simp]:
  "t_ID (request_task k req) = k" "t_TenantID (request_task k req) = u_TenantID req"
  "t_CronExpr (request_task k req) = u_CronExpr req" "t_NextTriggerTime (request_task k req) = u_NextTriggerTime req"
  by (simp_all add: request_task_def zero_Task_def)

lemma requested_defaults:
  assumes "nt = (if u_CronExpr req \<noteq> [] \<and> IsZero (u_NextTriggerTime req)
       then (case NextAfter loc now (u_CronExpr req) of Inl _ \<Rightarrow> zero_time | Inr nt \<Rightarrow> nt) else u_NextTriggerTime req)"
  shows "requested req (request_task k (upsert_defaults req\<lparr>u_NextTriggerTime := nt\<rparr>))"
    "requested_time loc now req (request_task k (upsert_defaults req\<lparr>u_NextTriggerTime := nt\<rparr>))"
    "t_TenantID (request_task k (upsert_defaults req\<lparr>u_NextTriggerTime := nt\<rparr>)) = u_TenantID req"
  using assms by (simp_all add: requested_def requested_time_def request_task_def upsert_defaults_def Let_def zero_Task_def)

lemma buildTask_wp:
  "wp (buildTask k req) (\<lambda>r w'. (\<exists>n. w' = w\<lparr>readings := n\<rparr>) \<and>
     (case r of
        Inr t \<Rightarrow> acceptable (zone w) (clock w (readings w)) req \<and> requested req t \<and>
          requested_time (zone w) (clock w (readings w)) req t \<and> t_ID t = k \<and> t_TenantID t = u_TenantID req
      | Inl err \<Rightarrow> \<not> acceptable (zone w) (clock w (readings w)) req \<and>
          err \<in> {ErrTaskNameRequired, ErrTaskTypeRequired, ErrInvalidCronExpr})) w"
proof -
  have id: "\<exists>n. w = w\<lparr>readings := n\<rparr>" by (rule exI [of _ "readings w"]) simp
  have keep: "upsert_defaults req\<lparr>u_NextTriggerTime := u_NextTriggerTime req\<rparr> = upsert_defaults req"
    using upsert_defaults_sel(2) [of req] by (metis TaskUpsertRequest.surjective TaskUpsertRequest.update_convs(13))
  note plain = requested_defaults [of "u_NextTriggerTime req" req "zone w" "clock w (readings w)" k, unfolded keep]
  note next_time = requested_defaults [of _ req "zone w" "clock w (readings w)" k]
  show ?thesis
    using id plain next_time
    by (auto simp: buildTask_def Let_def wps acceptable_def split: sum.split)
qed

context task_repository
begin

lemma wp_owned_task:
  "ok w \<Longrightarrow> wp (owned_task \<lparr>svc_repo = T, svc_auditor = a\<rparr> ctx k) Q w \<longleftrightarrow>
     Q (if k \<le> 0 then Inl ErrTaskIDRequired
        else (case v_tasks (vw w) k of
           None \<Rightarrow> Inl ErrTaskNotFound
         | Some t \<Rightarrow> (case checkTenant ctx t of Inl err \<Rightarrow> Inl err | Inr _ \<Rightarrow> Inr t))) w"
  by (auto simp: owned_task_def wps wp_get_task split: option.splits sum.splits)

end

context task_repository
begin

lemma wp_owned:
  assumes "ok w" "0 < k" "v_tasks (vw w) k = Some t" "checkTenant ctx t = Inr ()"
  shows "wp (owned_task \<lparr>svc_repo = T, svc_auditor = a\<rparr> ctx k) Q w \<longleftrightarrow> Q (Inr t) w"
  using assms(2) by (simp add: wp_owned_task [OF assms(1)] assms(3,4) not_le)

lemma owned_task_foreign:
  assumes "ok w" "0 < k" "v_tasks (vw w) k = Some t" "checkTenant ctx t = Inl err"
  shows "run_state (owned_task \<lparr>svc_repo = T, svc_auditor = a\<rparr> ctx k) w = (Inl err, w)"
  using assms(2) by (simp add: owned_task_def get_task [OF assms(1)] assms(3,4) not_le)

end

text \<open>What a method that rewrites the task it owns does.\<close>

definition stored_as :: "view \<Rightarrow> view \<Rightarrow> Task \<Rightarrow> Task \<Rightarrow> bool" where
  "stored_as v v' t t' \<longleftrightarrow> v' = v\<lparr>v_tasks := (v_tasks v)(t_ID t \<mapsto> t')\<rparr> \<and>
     (\<exists>ct ut ver. t' = t\<lparr>t_CreatedAt := ct, t_UpdatedAt := ut, t_Version := ver\<rparr>)"

text \<open>The outcome of a creation, errors included: a task with an unknown dependency stays stored.\<close>

definition created ::
  "location \<Rightarrow> time \<Rightarrow> ctx \<Rightarrow> TaskUpsertRequest \<Rightarrow> view \<Rightarrow> view \<Rightarrow> error + Task \<Rightarrow> bool" where
  "created loc now ctx req v v' r \<longleftrightarrow>
     (if acceptable loc now req
      then \<exists>t s. v_tasks v (t_ID t) = None \<and> 0 < t_ID t \<and> requested req t \<and> requested_time loc now req t \<and>
        t_TenantID t = (if u_TenantID req = 0 then FromContext ctx else u_TenantID req) \<and>
        synced (t_ID t) (u_DependsOn req) (v\<lparr>v_tasks := (v_tasks v)(t_ID t \<mapsto> t)\<rparr>) v' s \<and>
        r = (case s of Inl err \<Rightarrow> Inl err | Inr _ \<Rightarrow> Inr t)
      else v' = v \<and> (\<exists>err \<in> {ErrTaskNameRequired, ErrTaskTypeRequired, ErrInvalidCronExpr}. r = Inl err))"

text \<open>The outcome of an update of the stored task \<open>cur\<close>.\<close>

definition updated :: "Task \<Rightarrow> TaskUpsertRequest \<Rightarrow> view \<Rightarrow> view \<Rightarrow> error + Task \<Rightarrow> bool" where
  "updated cur req v v' r \<longleftrightarrow>
     v' = v \<and> (\<exists>err \<in> {ErrTaskNameRequired, ErrTaskTypeRequired, ErrInvalidCronExpr}. r = Inl err) \<or>
     (\<exists>t s. t_ID t = t_ID cur \<and> requested req t \<and> t_TenantID t = u_TenantID req \<and>
        t_CreatedAt t = t_CreatedAt cur \<and> t_Version t = t_Version cur + 1 \<and>
        synced (t_ID t) (u_DependsOn req) (v\<lparr>v_tasks := (v_tasks v)(t_ID t \<mapsto> t)\<rparr>) v' s \<and>
        r = (case s of Inl err \<Rightarrow> Inl err | Inr _ \<Rightarrow> Inr t))"

lemma createdI:
  assumes "acceptable loc now req" "v_tasks v (t_ID t) = None" "0 < t_ID t" "requested req t" "requested_time loc now req t"
    "t_TenantID t = (if u_TenantID req = 0 then FromContext ctx else u_TenantID req)"
    "synced (t_ID t) (u_DependsOn req) (v\<lparr>v_tasks := (v_tasks v)(t_ID t \<mapsto> t)\<rparr>) v' s"
    "r = (case s of Inl err \<Rightarrow> Inl err | Inr _ \<Rightarrow> Inr t)"
  shows "created loc now ctx req v v' r"
  unfolding created_def using assms by (simp only: if_True) blast

lemma updatedI:
  assumes "t_ID t = t_ID cur" "requested req t" "t_TenantID t = u_TenantID req"
    "t_CreatedAt t = t_CreatedAt cur" "t_Version t = t_Version cur + 1"
    "synced (t_ID t) (u_DependsOn req) (v\<lparr>v_tasks := (v_tasks v)(t_ID t \<mapsto> t)\<rparr>) v' s"
    "r = (case s of Inl err \<Rightarrow> Inl err | Inr _ \<Rightarrow> Inr t)"
  shows "updated cur req v v' r"
  unfolding updated_def using assms by blast

lemma requested_upd [simp]:
  "requested req (t\<lparr>t_ID := k\<rparr>) = requested req t" "requested req (t\<lparr>t_CreatedAt := ct\<rparr>) = requested req t"
  "requested req (t\<lparr>t_UpdatedAt := ut\<rparr>) = requested req t" "requested req (t\<lparr>t_Version := ver\<rparr>) = requested req t"
  "requested req (t\<lparr>t_TenantID := tid\<rparr>) = requested req t" "requested req (t\<lparr>t_NextTriggerTime := nt\<rparr>) = requested req t"
  by (simp_all add: requested_def)

lemma requested_time_upd [simp]:
  "requested_time loc now req (t\<lparr>t_ID := k\<rparr>) = requested_time loc now req t"
  "requested_time loc now req (t\<lparr>t_CreatedAt := ct\<rparr>) = requested_time loc now req t"
  "requested_time loc now req (t\<lparr>t_UpdatedAt := ut\<rparr>) = requested_time loc now req t"
  "requested_time loc now req (t\<lparr>t_Version := ver\<rparr>) = requested_time loc now req t"
  "requested_time loc now req (t\<lparr>t_TenantID := tid\<rparr>) = requested_time loc now req t"
  by (simp_all add: requested_time_def)

lemma update_trigger_wp:
  "wp (update_trigger cur t) (\<lambda>r w'. (\<exists>n. w' = w\<lparr>readings := n\<rparr>) \<and>
     (case r of Inr t' \<Rightarrow> \<exists>nt. t' = t\<lparr>t_NextTriggerTime := nt\<rparr> | Inl err \<Rightarrow> err = ErrInvalidCronExpr)) w"
proof -
  have id: "\<exists>n. w = w\<lparr>readings := n\<rparr>" by (rule exI [of _ "readings w"]) simp
  have keep: "\<exists>nt. t = t\<lparr>t_NextTriggerTime := nt\<rparr>" by (rule exI [of _ "t_NextTriggerTime t"]) simp
  show ?thesis using id keep by (auto simp: update_trigger_def Let_def wps split: sum.split)
qed

context task_repository
begin

lemma store_wp:
  assumes "ok w" "v_tasks (vw w) (t_ID t) \<noteq> None"
  shows "wp (if_ok (UpdateTask T t) (\<lambda>t. do { mutated x; audit s y k (t_Name t); ret t }))
    (\<lambda>r w'. ok w' \<and> (\<exists>t'. r = Inr t' \<and> stored_as (vw w) (vw w') t t')) w"
  unfolding wp_if_ok
  apply (rule wp_update_task [OF assms(1)])
  subgoal using assms(2) by simp
  subgoal for w1 cur now
    by (simp, rule wp_audit) (auto simp: stored_as_def intro!: exI)
  done

lemma TaskService_CreateTask_wp:
  assumes "ok w"
  shows "wp (TaskService_CreateTask \<lparr>svc_repo = T, svc_auditor = a\<rparr> ctx req)
    (\<lambda>r w'. ok w' \<and> created (zone w) (clock w (readings w)) ctx req (vw w) (vw w') r) w"
  unfolding TaskService_CreateTask_def wp_if_ok
proof (rule wp_mono [OF buildTask_wp], elim conjE exE)
  fix r w1 n
  assume w1: "w1 = w\<lparr>readings := n\<rparr>" and r: "case r of
        Inr t \<Rightarrow> acceptable (zone w) (clock w (readings w)) req \<and> requested req t \<and>
          requested_time (zone w) (clock w (readings w)) req t \<and> t_ID t = 0 \<and> t_TenantID t = u_TenantID req
      | Inl err \<Rightarrow> \<not> acceptable (zone w) (clock w (readings w)) req \<and>
          err \<in> {ErrTaskNameRequired, ErrTaskTypeRequired, ErrInvalidCronExpr}"
  show "(case r of
      Inl err \<Rightarrow> \<lambda>w'. ok w' \<and> created (zone w) (clock w (readings w)) ctx req (vw w) (vw w') (Inl err)
    | Inr task \<Rightarrow> wp (let task = (if t_TenantID task = 0 then task\<lparr>t_TenantID := FromContext ctx\<rparr> else task) in
       if_ok (CreateTask (svc_repo \<lparr>svc_repo = T, svc_auditor = a\<rparr>) task) (\<lambda>task.
         if_ok (syncDependencies \<lparr>svc_repo = T, svc_auditor = a\<rparr> (t_ID task) (u_DependsOn req)) (\<lambda>_. do {
           mutated ''create'';
           audit \<lparr>svc_repo = T, svc_auditor = a\<rparr> ''task.create'' (t_ID task) (t_Name task);
           ret task })))
      (\<lambda>r w'. ok w' \<and> created (zone w) (clock w (readings w)) ctx req (vw w) (vw w') r)) w1"
  proof (cases r)
    case (Inl err)
    then show ?thesis using r w1 assms by (auto simp: created_def)
  next
    case (Inr t)
    define t1 where "t1 = (if t_TenantID t = 0 then t\<lparr>t_TenantID := FromContext ctx\<rparr> else t)"
    have t1: "requested req t1" "requested_time (zone w) (clock w (readings w)) req t1"
      "t_TenantID t1 = (if u_TenantID req = 0 then FromContext ctx else u_TenantID req)"
      "acceptable (zone w) (clock w (readings w)) req"
      using r Inr by (simp_all add: t1_def)
    have ok1: "ok w1" "vw w1 = vw w" using assms w1 by simp_all
    show ?thesis
      unfolding Inr sum.case t1_def [symmetric] Let_def wp_if_ok
      apply simp
      apply (rule wp_create_task [OF ok1(1)])
      subgoal for w2 k now
        apply simp
        apply (rule wp_mono [OF syncDependencies_wp])
          apply assumption
         apply simp
        subgoal for s w3
          apply (cases s)
          subgoal
            using t1 ok1(2)
            by (auto intro!: createdI [where t = "t1\<lparr>t_ID := k, t_CreatedAt := now, t_UpdatedAt := now, t_Version := 1\<rparr>"
                  and s = s])
          subgoal
            using t1 ok1(2)
            by (simp, intro wp_audit)
              (auto intro!: createdI [where t = "t1\<lparr>t_ID := k, t_CreatedAt := now, t_UpdatedAt := now, t_Version := 1\<rparr>"
                  and s = s])
          done
        done
      done
  qed
qed

lemma store_update_wp:
  assumes "ok w" "v_tasks (vw w) (t_ID cur) = Some cur" "requested req t" "t_ID t = t_ID cur"
    "t_TenantID t = u_TenantID req"
  shows "wp (if_ok (UpdateTask T t) (\<lambda>task.
      if_ok (syncDependencies \<lparr>svc_repo = T, svc_auditor = a\<rparr> (t_ID task) (u_DependsOn req)) (\<lambda>_. do {
        mutated ''update'';
        audit \<lparr>svc_repo = T, svc_auditor = a\<rparr> ''task.update'' (t_ID task) (t_Name task);
        ret task })))
    (\<lambda>r w'. ok w' \<and> updated cur req (vw w) (vw w') r) w"
  unfolding wp_if_ok
  apply (rule wp_update_task [OF assms(1)])
  subgoal using assms(2,4) by simp
  subgoal premises p for w2 c now
  proof -
    let ?t = "t\<lparr>t_CreatedAt := t_CreatedAt c, t_UpdatedAt := now, t_Version := t_Version c + 1\<rparr>"
    have c: "c = cur" using p(1) assms(2,4) by simp
    have upd: "updated cur req (vw w) v' (case s of Inl err \<Rightarrow> Inl err | Inr _ \<Rightarrow> Inr ?t)"
      if "synced (t_ID t) (u_DependsOn req) (vw w2) v' s" for s v'
      using that assms(3-5) c p(4) by (intro updatedI [where t = ?t and s = s]) simp_all
    show ?thesis
      apply simp
      apply (rule wp_mono [OF syncDependencies_wp [OF p(2)]])
       apply (simp add: p(4))
      subgoal for s w3
        using upd [of "vw w3" s]
        by (cases s) (simp, simp, intro wp_audit, simp)
      done
  qed
  done

lemma TaskService_UpdateTask_wp:
  assumes "ok w" "0 < k" "v_tasks (vw w) k = Some cur" "checkTenant ctx cur = Inr ()"
  shows "wp (TaskService_UpdateTask \<lparr>svc_repo = T, svc_auditor = a\<rparr> ctx k req)
    (\<lambda>r w'. ok w' \<and> updated cur req (vw w) (vw w') r) w"
proof -
  have k: "t_ID cur = k" using task_id [OF assms(1,3)] .
  show ?thesis
    unfolding TaskService_UpdateTask_def wp_if_ok
    apply (simp add: wp_owned [OF assms] Let_def)
    apply (rule wp_mono [OF buildTask_wp])
    subgoal premises p for r w1
    proof (cases r)
      case (Inl err)
      with p assms(1) show ?thesis by (auto simp: updated_def)
    next
      case (Inr t)
      with p have t: "requested req t" "t_ID t = k" "t_TenantID t = u_TenantID req" "ok w1" "vw w1 = vw w"
        using assms(1) by auto
      show ?thesis
        apply (simp add: Inr)
        apply (rule wp_mono [OF update_trigger_wp])
        subgoal premises q for r' w2
        proof (cases r')
          case (Inl err)
          with q t show ?thesis by (auto simp: updated_def)
        next
          case (Inr t')
          with q t have t': "requested req t'" "t_ID t' = t_ID cur" "t_TenantID t' = u_TenantID req" "ok w2" "vw w2 = vw w"
            using k by auto
          with store_update_wp [of w2 cur req t' a] assms(3) k Inr show ?thesis by simp
        qed
        done
    qed
    done
qed

lemma PauseTask_wp:
  assumes "ok w" "0 < k" "v_tasks (vw w) k = Some t" "checkTenant ctx t = Inr ()"
  shows "wp (PauseTask \<lparr>svc_repo = T, svc_auditor = a\<rparr> ctx k)
    (\<lambda>r w'. ok w' \<and> (\<exists>t'. r = Inr t' \<and> stored_as (vw w) (vw w') (t\<lparr>t_Status := ''disabled''\<rparr>) t')) w"
  unfolding PauseTask_def
  apply (simp only: wp_if_ok [of "owned_task _ _ _"] wp_owned [OF assms] sum.case svc_repo_sel)
  apply (rule store_wp [OF assms(1)])
  using assms(3) task_id [OF assms(1,3)] by simp

lemma TriggerTask_wp:
  assumes "ok w" "0 < k" "v_tasks (vw w) k = Some t" "checkTenant ctx t = Inr ()" "t_Status t = ''enabled''"
  shows "wp (TriggerTask \<lparr>svc_repo = T, svc_auditor = a\<rparr> ctx k)
    (\<lambda>r w'. ok w' \<and> (\<exists>t'. r = Inr t' \<and>
      stored_as (vw w) (vw w') (t\<lparr>t_NextTriggerTime := clock w (readings w) - second\<rparr>) t')) w"
  unfolding TriggerTask_def
  apply (simp only: wp_if_ok [of "owned_task _ _ _"] wp_owned [OF assms(1-4)] sum.case assms(5) not_True_eq_False
      if_False refl wp_bind wp_time_now svc_repo_sel)
  apply (rule wp_mono [OF store_wp])
  using assms(1,3) task_id [OF assms(1,3)] by simp_all

lemma resume_trigger_wp:
  "wp (resume_trigger t) (\<lambda>r w'. (\<exists>n. w' = w\<lparr>readings := n\<rparr>) \<and>
     (if t_CronExpr t = [] then r = Inr t
      else (case NextAfter (zone w) (clock w (readings w)) (t_CronExpr t) of
          Inl _ \<Rightarrow> r = Inl ErrInvalidCronExpr
        | Inr nt \<Rightarrow> r = Inr (t\<lparr>t_NextTriggerTime := nt\<rparr>)))) w"
proof -
  have id: "\<exists>n. w = w\<lparr>readings := n\<rparr>" by (rule exI [of _ "readings w"]) simp
  show ?thesis using id by (auto simp: resume_trigger_def wps split: sum.split)
qed

lemma ResumeTask_wp:
  assumes "ok w" "0 < k" "v_tasks (vw w) k = Some t" "checkTenant ctx t = Inr ()"
  shows "wp (ResumeTask \<lparr>svc_repo = T, svc_auditor = a\<rparr> ctx k)
    (\<lambda>r w'. ok w' \<and> (case (if t_CronExpr t = [] then Inr (t_NextTriggerTime t)
          else NextAfter (zone w) (clock w (readings w)) (t_CronExpr t)) of
        Inl _ \<Rightarrow> r = Inl ErrInvalidCronExpr \<and> vw w' = vw w
      | Inr nt \<Rightarrow> \<exists>t'. r = Inr t' \<and>
          stored_as (vw w) (vw w') (t\<lparr>t_Status := ''enabled'', t_NextTriggerTime := nt\<rparr>) t')) w"
  unfolding ResumeTask_def
  apply (simp only: wp_if_ok [of "owned_task _ _ _"] wp_owned [OF assms] sum.case wp_if_ok [of "resume_trigger _"])
  apply (rule wp_mono [OF resume_trigger_wp])
  subgoal premises p for r w1
  proof -
    have w1: "ok w1" "vw w1 = vw w" using p assms(1) by auto
    show ?thesis
    proof (cases "if t_CronExpr t = [] then Inr (t_NextTriggerTime t)
        else NextAfter (zone w) (clock w (readings w)) (t_CronExpr t)")
      case (Inl err)
      with p w1 show ?thesis by (auto split: if_splits)
    next
      case (Inr nt)
      have "t\<lparr>t_Status := ''enabled'', t_NextTriggerTime := t_NextTriggerTime t\<rparr> = t\<lparr>t_Status := ''enabled''\<rparr>" by simp
      with p Inr have r: "r = Inr (t\<lparr>t_Status := ''enabled'', t_NextTriggerTime := nt\<rparr>)"
        by (auto split: if_splits)
      show ?thesis
        unfolding r Inr sum.case svc_repo_sel
        by (rule wp_mono [OF store_wp [OF w1(1)]]) (use w1 assms(3) task_id [OF assms(1,3)] in simp_all)
    qed
  qed
  done

lemma TaskService_DeleteTask_wp:
  assumes "ok w" "0 < k" "v_tasks (vw w) k = Some t" "checkTenant ctx t = Inr ()"
  shows "wp (TaskService_DeleteTask \<lparr>svc_repo = T, svc_auditor = a\<rparr> ctx k)
    (\<lambda>r w'. ok w' \<and> r = Inr () \<and> vw w' = (vw w)\<lparr>v_tasks := (v_tasks (vw w))(k := None)\<rparr>) w"
  unfolding TaskService_DeleteTask_def
  apply (simp add: wp_owned [OF assms])
  apply (rule wp_delete_task [OF assms(1)])
  using assms(3) apply simp
  apply (simp, rule wp_audit, simp)
  done

end

section \<open>Pages of instances\<close>

text \<open>The page with the number \<open>j\<close> of pages of \<open>n\<close> instances.\<close>

abbreviation page :: "int \<Rightarrow> nat \<Rightarrow> TaskInstance list \<Rightarrow> TaskInstance list" where
  "page n j xs \<equiv> paginateInstances xs n (int j * n)"

lemma page_chunk:
  assumes "0 < n" "j * nat n < length xs"
  shows "page n j xs = take (nat n) (drop (j * nat n) (sort_by (\<lambda>i. - i_ID i) xs))"
proof -
  have "nat (int j * n) = j * nat n" using assms(1) by (simp add: nat_mult_distrib)
  moreover have "int j * n < int (length xs)"
    using assms by (metis int_nat_eq of_nat_less_iff of_nat_mult order_less_imp_le)
  moreover have "take (nat n) ys = ys" if "\<not> n < int (length ys)" for ys :: "TaskInstance list"
    using that assms(1) by simp
  ultimately show ?thesis
    using assms(1) by (auto simp: paginateInstances_def Let_def zero_less_mult_iff)
qed

lemma take_pages:
  assumes "0 < n" "\<forall>j < m. j * nat n < length xs"
  shows "concat (map (\<lambda>j. page n j xs) [0..<m]) = take (m * nat n) (sort_by (\<lambda>i. - i_ID i) xs)"
  using assms(2)
proof (induction m)
  case (Suc m)
  then have "m * nat n < length xs" by simp
  moreover have "take (Suc m * nat n) ys = take (m * nat n) ys @ take (nat n) (drop (m * nat n) ys)"
    for ys :: "TaskInstance list"
    using take_add [of "m * nat n" "nat n" ys] by (simp add: add.commute)
  ultimately show ?case using Suc by (simp add: page_chunk [OF assms(1)])
qed simp

section \<open>Properties\<close>

abbreviation test_service :: "bool \<Rightarrow> stores TaskService" where
  "test_service a \<equiv> \<lparr>svc_repo = test_tasks, svc_auditor = a\<rparr>"


definition sample_foreign :: stores where
  "sample_foreign = sample\<lparr>task_store := (task_store sample)\<lparr>ts_tasks := [(1, sample_task\<lparr>t_TenantID := 5\<rparr>)]\<rparr>\<rparr>"



definition sample_request :: TaskUpsertRequest where
  "sample_request = \<lparr>u_Name = ''report'', u_Type = ''shell'', u_CronExpr = [], u_Payload = ''ls'', u_Image = [],
     u_Status = [], u_TimeoutSeconds = 0, u_MaxRetry = 2, u_RetryPolicy = [], u_RetryOnErrors = [],
     u_RouteStrategy = [], u_Labels = [], u_NextTriggerTime = zero_time, u_TenantID = 0, u_DependsOn = [1, 1]\<rparr>"

lemma sample_request_acceptable: "acceptable loc now sample_request"
  by (simp add: acceptable_def sample_request_def) code_simp


text \<open>
  An update of a task the caller owns either fails on the request and changes nothing, or replaces
  the stored task by the request, keeping the creation time and counting the version up, and makes
  its upstream tasks exactly the requested ones; no other task, no instance and no worker changes.
  The replacement is complete: the tenant becomes the one of the request, and the settings a request
  has no field for (shards, idempotency key, event trigger, retry interval and window) are reset.
\<close>

theorem UpdateTask_updates:
  assumes "stores_ok w" "0 < k" "v_tasks (test_view w) k = Some cur" "checkTenant ctx cur = Inr ()"
  shows "case run_state (TaskService_UpdateTask (test_service a) ctx k req) w of (r, w') \<Rightarrow>
    stores_ok w' \<and> updated cur req (test_view w) (test_view w') r"
  using ts.TaskService_UpdateTask_wp [OF assms, of a req] unfolding wp_def by (simp add: split_beta)

theorem UpdateTask_updates_witness:
  "case run_state (TaskService_UpdateTask (test_service True) (Some 7) 1 (sample_request\<lparr>u_DependsOn := []\<rparr>)) sample of
    (r, w') \<Rightarrow> stores_ok w' \<and>
      updated sample_task (sample_request\<lparr>u_DependsOn := []\<rparr>) (test_view sample) (test_view w') r"
proof -
  have "checkTenant (Some 7) sample_task = Inr ()" by (simp add: checkTenant_def sample_task_def)
  with UpdateTask_updates [OF sample_ok, where k = 1 and cur = sample_task and ctx = "Some 7" and a = True] show ?thesis by simp
qed

text \<open>
  A paused task does not fire: after a pause no scan of the trigger loop, cached due tasks or not,
  creates an instance of it, and everything but its status is stored as before.
\<close>

theorem PauseTask_silences:
  assumes "stores_ok w" "0 < k" "v_tasks (test_view w) k = Some t" "checkTenant ctx t = Inr ()" "reads_only cached"
  shows "case run_state (PauseTask (test_service a) ctx k) w of (r, w1) \<Rightarrow>
    (\<exists>t'. r = Inr t' \<and> stored_as (test_view w) (test_view w1) (t\<lparr>t_Status := ''disabled''\<rparr>) t') \<and>
    (case run_state (trigger_scan test_tasks test_instances test_workers l cached) w1 of (_, w2) \<Rightarrow>
      \<forall>n i. v_insts (test_view w1) n = None \<longrightarrow> v_insts (test_view w2) n = Some i \<longrightarrow> i_TaskID i \<noteq> k)"
proof -
  obtain r w1 where run: "run_state (PauseTask (test_service a) ctx k) w = (r, w1)" by force
  with ts.PauseTask_wp [OF assms(1-4), of a] obtain t' where
    1: "stores_ok w1" "r = Inr t'" "stored_as (test_view w) (test_view w1) (t\<lparr>t_Status := ''disabled''\<rparr>) t'"
    by (auto simp: wp_def)
  have "k \<notin> due_ids c (test_view w1)" for c
    using 1(3) ts.task_id [OF assms(1,3)] by (auto simp: due_ids_def due_task_def stored_as_def)
  moreover have "fired_by (due_ids (clock w1) (test_view w1)) (test_view w1)
      (test_view (snd (run_state (trigger_scan test_tasks test_instances test_workers l cached) w1)))"
    using ts.trigger_scan_wp [OF 1(1) assms(5), of l] by (simp add: wp_def split_beta)
  ultimately show ?thesis
    using 1(2,3) unfolding fired_by_def by (simp add: run split_beta) metis
qed

theorem PauseTask_silences_witness:
  "case run_state (PauseTask (test_service True) None 1) sample of (r, w1) \<Rightarrow>
    (case run_state (trigger_scan test_tasks test_instances test_workers (NewTriggerLoop 0 [] 0) sample_cache) w1 of (_, w2) \<Rightarrow>
      \<forall>n i. v_insts (test_view w1) n = None \<longrightarrow> v_insts (test_view w2) n = Some i \<longrightarrow> i_TaskID i \<noteq> 1)"
proof -
  have "reads_only sample_cache" by (simp add: reads_only_def sample_cache_def)
  moreover have "checkTenant None sample_task = Inr ()" by (simp add: checkTenant_def)
  ultimately show ?thesis
    using PauseTask_silences [OF sample_ok, where k = 1 and t = sample_task and ctx = None and cached = sample_cache and a = True
      and l = "NewTriggerLoop 0 [] 0"]
    by (auto simp: split_beta)
qed

text \<open>
  Pages tile the list: with a positive page size the successive pages, as many as it takes, hold
  together every instance exactly once, newest first; but an offset past the end does not give an
  empty page, it gives the first one again.
\<close>

theorem pages_tile:
  assumes "0 < n"
  shows "concat (map (\<lambda>j. page n j xs) [0..<(length xs + nat n - 1) div nat n]) = sort_by (\<lambda>i. - i_ID i) xs \<and>
    (int (length xs) \<le> off \<longrightarrow> paginateInstances xs n off = paginateInstances xs n 0)"
proof -
  let ?m = "(length xs + nat n - 1) div nat n"
  have "j * nat n < length xs" if "j < ?m" for j
  proof -
    have "Suc j * nat n \<le> length xs + nat n - 1"
      using that assms by (metis Suc_leI div_times_less_eq_dividend le_trans mult_le_mono1)
    then show ?thesis using assms by simp
  qed
  then have "concat (map (\<lambda>j. page n j xs) [0..<?m]) = take (?m * nat n) (sort_by (\<lambda>i. - i_ID i) xs)"
    by (intro take_pages [OF assms]) simp
  moreover have "length xs \<le> ?m * nat n"
  proof -
    have "length xs + nat n - 1 < nat n + ?m * nat n" "0 < nat n"
      using assms dividend_less_times_div [of "nat n" "length xs + nat n - 1"] by (simp_all add: algebra_simps)
    then show ?thesis by linarith
  qed
  ultimately show ?thesis by (auto simp: paginateInstances_def Let_def)
qed

theorem pages_tile_witness:
  "concat (map (\<lambda>j. page 2 j [sample_instance]) [0..<(length [sample_instance] + nat 2 - 1) div nat 2]) =
     sort_by (\<lambda>i. - i_ID i) [sample_instance]"
  using pages_tile [of 2 "[sample_instance]" 0] by simp

end
