(* ===== verification/Scheduler.thy ===== *)
theory Scheduler
  imports TaskService Engine WorkerService
begin

text \<open>
  The scheduler process: the callback of the scheduling engine that \<^verbatim>\<open>cmd/scheduler/main.go\<close> installs, the
  warm-up of the engine, the event handler (\<^verbatim>\<open>internal/api/handler/event_handler.go\<close>) and the gRPC
  server (\<^verbatim>\<open>internal/scheduler/grpcserver\<close>). A value of an event payload stands for its text under
  \<^verbatim>\<open>%v\<close>, and a request body that does not decode is the absent value.
\<close>

section \<open>The callback of the engine\<close>

definition newScheduleInstanceID :: "int \<Rightarrow> ('a, string) go" where
  "newScheduleInstanceID taskID = do {
     now \<leftarrow> time_now;
     State_Monad.return (''task-'' @ itoa taskID @ ''-'' @ itoa (wrap64 now)) }"

definition engine_instance :: "Task \<Rightarrow> string \<Rightarrow> time \<Rightarrow> TaskInstance" where
  "engine_instance task sid now = zero_TaskInstance\<lparr>i_TaskID := t_ID task, i_ScheduleInstanceID := sid,
     i_TriggerTime := now, i_Status := ''pending''\<rparr>"

text \<open>After a successful dispatch: the next time of the expression goes to the task and to the wheel.\<close>

definition engine_advance ::
  "'a world_scheme TaskRepository \<Rightarrow> Task \<Rightarrow> Engine \<Rightarrow> ('a, error + Engine) go" where
  "engine_advance T task e = do {
     now \<leftarrow> time_now;
     loc \<leftarrow> reads zone;
     case NextAfter loc now (t_CronExpr task) of
       Inl err \<Rightarrow> ret e
     | Inr nextTrigger \<Rightarrow>
         if IsZero nextTrigger then ret e
         else do {
           _ \<leftarrow> UpdateTask T (task\<lparr>t_NextTriggerTime := nextTrigger\<rparr>);
           case AddToWheel e (t_ID task) nextTrigger of
             None \<Rightarrow> raise (Panic ''index out of range'')
           | Some e' \<Rightarrow> ret e' } }"

text \<open>From the created instance on.\<close>

definition engine_launch ::
  "'a world_scheme TaskRepository \<Rightarrow> 'a world_scheme TaskInstanceRepository \<Rightarrow>
   'a world_scheme WorkerRepository \<Rightarrow> string \<Rightarrow> Task \<Rightarrow> TaskInstance \<Rightarrow> Engine \<Rightarrow> ('a, error + Engine) go" where
  "engine_launch T I W url task inst e = do {
     picked \<leftarrow> Pick W \<lparr>so_Labels = DecodeLabels (t_Labels task), so_Strategy = t_RouteStrategy task\<rparr>;
     case picked of
       Inl err \<Rightarrow>
         if err = ErrNoAvailableWorker then do {
           now \<leftarrow> time_now;
           _ \<leftarrow> UpdateTask T (task\<lparr>t_NextTriggerTime := now + 10 * second\<rparr>);
           ret e }
         else ret e
     | Inr worker \<Rightarrow> do {
         dispatchTime \<leftarrow> format_now;
         _ \<leftarrow> UpdateInstanceDispatch I (i_ID inst) (w_ID worker) dispatchTime;
         sent \<leftarrow> Dispatch worker (zero_ExecuteTaskRequest\<lparr>
           q_ScheduleInstanceID := i_ScheduleInstanceID inst, q_TaskID := t_ID task,
           q_TaskType := t_Type task, q_Payload := t_Payload task, q_Image := t_Image task,
           q_TimeoutSeconds := t_TimeoutSeconds task, q_RetryCount := i_RetryCount inst,
           q_IdempotencyKey := t_IdempotencyKey task, q_SchedulerURL := url\<rparr>);
         case sent of
           Inl err \<Rightarrow> do {
             inc_counter ''scheduler_dispatch_total'' [(''result'', ''error'')];
             _ \<leftarrow> UpdateInstanceResult I (i_ScheduleInstanceID inst) ''failed'' ''dispatch_failed'' (error_text err);
             _ \<leftarrow> Release W worker;
             ret e }
         | Inr _ \<Rightarrow> do {
             inc_counter ''scheduler_dispatch_total'' [(''result'', ''success'')];
             engine_advance T task e } } }"

text \<open>From the check of the task on.\<close>

definition engine_fire ::
  "'a world_scheme TaskRepository \<Rightarrow> 'a world_scheme TaskInstanceRepository \<Rightarrow>
   'a world_scheme WorkerRepository \<Rightarrow> string \<Rightarrow> Task \<Rightarrow> Engine \<Rightarrow> ('a, error + Engine) go" where
  "engine_fire T I W url task e = do {
     sid \<leftarrow> newScheduleInstanceID (t_ID task);
     triggerTime \<leftarrow> time_now;
     created \<leftarrow> CreateInstance I (engine_instance task sid triggerTime);
     case created of
       Inl err \<Rightarrow> ret e
     | Inr inst \<Rightarrow> engine_launch T I W url task inst e }"

definition OnTrigger ::
  "'a world_scheme TaskRepository \<Rightarrow> 'a world_scheme TaskInstanceRepository \<Rightarrow>
   'a world_scheme WorkerRepository \<Rightarrow> string \<Rightarrow> int \<Rightarrow> Engine \<Rightarrow> ('a, error + Engine) go" where
  "OnTrigger T I W url taskID e = do {
     allowed \<leftarrow> bp_allows;
     if \<not> allowed then ret e
     else do {
       got \<leftarrow> GetTask T taskID;
       case got of
         Inl err \<Rightarrow> ret e
       | Inr task \<Rightarrow>
           if t_Status task \<noteq> ''enabled'' then ret e
           else engine_fire T I W url task e } }"

text \<open>The loops of the two ticks over the ids that came due, with this callback.\<close>

fun trigger_all ::
  "'a world_scheme TaskRepository \<Rightarrow> 'a world_scheme TaskInstanceRepository \<Rightarrow>
   'a world_scheme WorkerRepository \<Rightarrow> string \<Rightarrow> int list \<Rightarrow> Engine \<Rightarrow> ('a, error + Engine) go" where
  "trigger_all T I W url [] e = ret e"
| "trigger_all T I W url (k # ks) e = if_ok (OnTrigger T I W url k e) (trigger_all T I W url ks)"

definition wheel_tick ::
  "'a world_scheme TaskRepository \<Rightarrow> 'a world_scheme TaskInstanceRepository \<Rightarrow>
   'a world_scheme WorkerRepository \<Rightarrow> string \<Rightarrow> Engine \<Rightarrow> ('a, error + Engine) go" where
  "wheel_tick T I W url e =
     (let (taskIDs, tw) = Tick (e_wheel e) in trigger_all T I W url taskIDs (e\<lparr>e_wheel := tw\<rparr>))"

definition heap_tick ::
  "'a world_scheme TaskRepository \<Rightarrow> 'a world_scheme TaskInstanceRepository \<Rightarrow>
   'a world_scheme WorkerRepository \<Rightarrow> string \<Rightarrow> Engine \<Rightarrow> ('a, error + Engine) go" where
  "heap_tick T I W url e = do {
     now \<leftarrow> time_now;
     let (items, h) = PopUntil (e_heap e) now;
     trigger_all T I W url (map h_TaskID items) (e\<lparr>e_heap := h\<rparr>) }"

section \<open>The warm-up of the engine\<close>

fun warm_wheel :: "time \<Rightarrow> Task list \<Rightarrow> Engine \<Rightarrow> error + Engine" where
  "warm_wheel cutoff [] e = Inr e"
| "warm_wheel cutoff (t # ts) e =
     (if t_NextTriggerTime t < cutoff then
        (case AddToWheel e (t_ID t) (t_NextTriggerTime t) of
           None \<Rightarrow> Inl (Panic ''index out of range'')
         | Some e' \<Rightarrow> warm_wheel cutoff ts e')
      else warm_wheel cutoff ts e)"

fun warm_heap :: "time \<Rightarrow> TaskInstance list \<Rightarrow> Engine \<Rightarrow> Engine" where
  "warm_heap cutoff [] e = e"
| "warm_heap cutoff (i # is) e =
     (if \<not> IsZero (i_NextRetryTime i) \<and> i_NextRetryTime i < cutoff
      then warm_heap cutoff is (AddToHeap e (i_TaskID i) (i_NextRetryTime i))
      else warm_heap cutoff is e)"

definition Warm ::
  "'a world_scheme TaskRepository \<Rightarrow> 'a world_scheme TaskInstanceRepository \<Rightarrow> Engine \<Rightarrow> ('a, error + Engine) go" where
  "Warm T I e = do {
     now \<leftarrow> time_now;
     let cutoff = now + SlotSpan (e_wheel e);
     if_ok (ListDueTasks T 500) (\<lambda>tasks.
       case warm_wheel cutoff tasks e of
         Inl err \<Rightarrow> raise err
       | Inr e1 \<Rightarrow> do {
           retries \<leftarrow> ListDueRetryInstances I cutoff 500;
           case retries of
             Inl err \<Rightarrow> ret e1
           | Inr insts \<Rightarrow> ret (warm_heap cutoff insts e1) }) }"

section \<open>Events\<close>

record publishEventRequest =
  ev_EventName :: string
  ev_Payload :: "(string, string) gomap"

text \<open>\<^verbatim>\<open>strings.ReplaceAll\<close> for a non-empty \<open>old\<close>, the only case the handler has.\<close>

function ReplaceAll :: "string \<Rightarrow> string \<Rightarrow> string \<Rightarrow> string" where
  "ReplaceAll s old new =
     (if s = [] \<or> old = [] then s
      else if is_prefix old s then new @ ReplaceAll (drop (length old) s) old new
      else hd s # ReplaceAll (tl s) old new)"
  by pat_completeness auto
termination
  by (relation "measure (\<lambda>(s, _, _). length s)") auto

declare ReplaceAll.simps [simp del]

definition renderEventPayload :: "string \<Rightarrow> publishEventRequest \<Rightarrow> string" where
  "renderEventPayload template req =
     fold (\<lambda>(k, v) result. ReplaceAll result (''{{.event.payload.'' @ k @ ''}}'') v) (ev_Payload req)
       (ReplaceAll template ''{{.event.name}}'' (ev_EventName req))"

definition generateScheduleInstanceID :: "int \<Rightarrow> ('a, string) go" where
  "generateScheduleInstanceID taskID = do {
     now \<leftarrow> time_now;
     State_Monad.return (''task-'' @ itoa taskID @ ''-'' @ itoa (wrap64 now)) }"

text \<open>One shard of a matching task, and how much it adds to the count of dispatched ones.\<close>

definition event_launch ::
  "'a world_scheme TaskInstanceRepository \<Rightarrow> 'a world_scheme WorkerRepository \<Rightarrow>
   publishEventRequest \<Rightarrow> Task \<Rightarrow> int \<Rightarrow> TaskInstance \<Rightarrow> ('a, int) go" where
  "event_launch I W req task shard inst = do {
     picked \<leftarrow> Pick W \<lparr>so_Labels = DecodeLabels (t_Labels task), so_Strategy = t_RouteStrategy task\<rparr>;
     case picked of
       Inl err \<Rightarrow> State_Monad.return 0
     | Inr worker \<Rightarrow> do {
         dispatchTime \<leftarrow> format_now;
         _ \<leftarrow> UpdateInstanceDispatch I (i_ID inst) (w_ID worker) dispatchTime;
         sent \<leftarrow> Dispatch worker (zero_ExecuteTaskRequest\<lparr>
           q_ScheduleInstanceID := i_ScheduleInstanceID inst, q_TaskID := t_ID task,
           q_TaskType := t_Type task, q_Payload := renderEventPayload (t_Payload task) req,
           q_TimeoutSeconds := t_TimeoutSeconds task, q_ShardNo := shard,
           q_ShardTotal := t_TotalShards task, q_IdempotencyKey := t_IdempotencyKey task\<rparr>);
         case sent of
           Inl err \<Rightarrow> State_Monad.return 0
         | Inr _ \<Rightarrow> State_Monad.return 1 } }"

definition event_shard ::
  "'a world_scheme TaskInstanceRepository \<Rightarrow> 'a world_scheme WorkerRepository \<Rightarrow>
   publishEventRequest \<Rightarrow> Task \<Rightarrow> int \<Rightarrow> ('a, int) go" where
  "event_shard I W req task shard = do {
     sid \<leftarrow> generateScheduleInstanceID (t_ID task);
     triggerTime \<leftarrow> time_now;
     created \<leftarrow> CreateInstance I (shard_instance task shard sid triggerTime);
     case created of
       Inl err \<Rightarrow> State_Monad.return 0
     | Inr inst \<Rightarrow> event_launch I W req task shard inst }"

fun event_shards ::
  "'a world_scheme TaskInstanceRepository \<Rightarrow> 'a world_scheme WorkerRepository \<Rightarrow>
   publishEventRequest \<Rightarrow> Task \<Rightarrow> int list \<Rightarrow> int \<Rightarrow> ('a, int) go" where
  "event_shards I W req task [] triggered = State_Monad.return triggered"
| "event_shards I W req task (shard # rest) triggered = do {
     n \<leftarrow> event_shard I W req task shard;
     event_shards I W req task rest (triggered + n) }"

fun event_tasks ::
  "'a world_scheme TaskInstanceRepository \<Rightarrow> 'a world_scheme WorkerRepository \<Rightarrow>
   publishEventRequest \<Rightarrow> Task list \<Rightarrow> int \<Rightarrow> ('a, int) go" where
  "event_tasks I W req [] triggered = State_Monad.return triggered"
| "event_tasks I W req (task # rest) triggered =
     (if t_TriggerType task \<noteq> ''event'' \<or> t_EventName task \<noteq> ev_EventName req then event_tasks I W req rest triggered
      else if t_Status task \<noteq> ''enabled'' then event_tasks I W req rest triggered
      else do {
        n \<leftarrow> event_shards I W req task (shard_numbers task) triggered;
        event_tasks I W req rest n })"

datatype publish_response =
    MethodNotAllowed
  | BadRequest string
  | InternalServerError
  | Published string int

definition Publish ::
  "'a world_scheme TaskRepository \<Rightarrow> 'a world_scheme TaskInstanceRepository \<Rightarrow>
   'a world_scheme WorkerRepository \<Rightarrow> string \<Rightarrow> publishEventRequest option \<Rightarrow> ('a, publish_response) go" where
  "Publish T I W http_method body =
     (if http_method \<noteq> ''POST'' then State_Monad.return MethodNotAllowed
      else case body of
        None \<Rightarrow> State_Monad.return (BadRequest ''invalid request body'')
      | Some req \<Rightarrow>
          if ev_EventName req = [] then State_Monad.return (BadRequest ''event_name is required'')
          else do {
            listed \<leftarrow> ListTasks T;
            case listed of
              Inl err \<Rightarrow> State_Monad.return InternalServerError
            | Inr allTasks \<Rightarrow> do {
                triggered \<leftarrow> event_tasks I W req allTasks 0;
                State_Monad.return (Published (ev_EventName req) triggered) } })"

section \<open>The gRPC server\<close>

record PbRegisterWorkerRequest =
  rw_WorkerId :: string
  rw_Hostname :: string
  rw_Ip :: string
  rw_CallbackUrl :: string
  rw_GrpcAddr :: string
  rw_Protocol :: string
  rw_MaxConcurrency :: int
  rw_Labels :: "(string, string) gomap"

text \<open>The accepted flag with the message.\<close>

definition grpc_RegisterWorker ::
  "'a world_scheme WorkerRepository \<Rightarrow> PbRegisterWorkerRequest \<Rightarrow> ('a, bool \<times> string) go" where
  "grpc_RegisterWorker W req = do {
     r \<leftarrow> RegisterWorker W \<lparr>wr_WorkerID = rw_WorkerId req, wr_Hostname = rw_Hostname req, wr_IP = rw_Ip req,
       wr_CallbackURL = rw_CallbackUrl req, wr_GRPCAddr = rw_GrpcAddr req, wr_Protocol = rw_Protocol req,
       wr_MaxConcurrency = rw_MaxConcurrency req, wr_Labels = rw_Labels req\<rparr>;
     case r of
       Inl err \<Rightarrow> State_Monad.return (False, error_text err)
     | Inr _ \<Rightarrow> State_Monad.return (True, []) }"

record PbHeartbeatRequest =
  hb_WorkerId :: string
  hb_CurrentLoad :: int
  hb_RunningTasks :: int
  hb_ReportUnixMilli :: int

definition grpc_Heartbeat ::
  "'a world_scheme WorkerRepository \<Rightarrow> PbHeartbeatRequest \<Rightarrow> ('a, bool) go" where
  "grpc_Heartbeat W req = do {
     r \<leftarrow> Heartbeat W \<lparr>hr_WorkerID = hb_WorkerId req, hr_CurrentLoad = hb_CurrentLoad req,
       hr_RunningTasks = hb_RunningTasks req, hr_ReportUnixMilli = hb_ReportUnixMilli req\<rparr>;
     case r of
       Inl err \<Rightarrow> State_Monad.return False
     | Inr _ \<Rightarrow> State_Monad.return True }"

record PbReportTaskStatusRequest =
  rs_ScheduleInstanceId :: string
  rs_WorkerId :: string
  rs_Status :: string
  rs_ErrorCode :: string
  rs_ErrorMessage :: string
  rs_StartedAt :: string
  rs_FinishedAt :: string

definition status_of_pb :: "PbReportTaskStatusRequest \<Rightarrow> TaskStatusReportRequest" where
  "status_of_pb req = \<lparr>sr_ScheduleInstanceID = rs_ScheduleInstanceId req, sr_WorkerID = rs_WorkerId req,
     sr_Status = rs_Status req, sr_ErrorCode = rs_ErrorCode req, sr_ErrorMessage = rs_ErrorMessage req,
     sr_StartedAt = [], sr_FinishedAt = []\<rparr>"

definition grpc_ReportTaskStatus ::
  "'a world_scheme TaskRepository \<Rightarrow> 'a world_scheme TaskInstanceRepository \<Rightarrow>
   'a world_scheme WorkerRepository \<Rightarrow> TaskRuntimeService \<Rightarrow> PbReportTaskStatusRequest \<Rightarrow> ('a, bool) go" where
  "grpc_ReportTaskStatus T I W s req = do {
     r \<leftarrow> ReportStatus T I W s (status_of_pb req);
     case r of
       Inl err \<Rightarrow> State_Monad.return False
     | Inr _ \<Rightarrow> State_Monad.return True }"

text \<open>These two only log.\<close>

definition grpc_AckTask :: "string \<Rightarrow> string \<Rightarrow> ('a, bool) go" where
  "grpc_AckTask scheduleInstanceId workerId = State_Monad.return True"

definition grpc_ReportTaskLog :: "string \<Rightarrow> string \<Rightarrow> string \<Rightarrow> string \<Rightarrow> ('a, bool) go" where
  "grpc_ReportTaskLog scheduleInstanceId workerId level message = State_Monad.return True"

section \<open>Facts\<close>

lemma fired_of_attempted:
  assumes "attempted v1 v' n ri i'"
    "v1 = v\<lparr>v_insts := (v_insts v)(n \<mapsto> ri), v_sched := (v_sched v)(sid \<mapsto> n)\<rparr>"
    "v_insts v n = None" "i_Status ri = ''pending''" "i_TaskID ri = k"
    "i_Status i' \<in> {''pending'', ''dispatched'', ''failed''}"
  shows "fired_by {k} v v'"
proof -
  have "balanced v v1" using assms(2-4) by (intro balanced_new [of v n _ ri]) simp_all
  moreover have "balanced v1 v'" using assms(2,4) by (intro attempted_balanced [OF assms(1)]) simp
  ultimately show ?thesis
    using assms by (auto simp: fired_by_def attempted_def same_identity_def intro: balanced_trans)
qed

text \<open>Every shard of the task has a new instance.\<close>

definition covers :: "Task \<Rightarrow> view \<Rightarrow> view \<Rightarrow> bool" where
  "covers task v v' \<longleftrightarrow> (\<exists>xs. map i_ShardNo xs = shard_numbers task \<and> distinct (map i_ID xs) \<and>
     (\<forall>i \<in> set xs. v_insts v (i_ID i) = None \<and> v_insts v' (i_ID i) = Some i \<and> i_TaskID i = t_ID task \<and>
        i_Status i \<in> {''pending'', ''dispatched''}))"

lemma covers_later: "covers task v v' \<Longrightarrow> fired_by K v' v'' \<Longrightarrow> covers task v v''"
  unfolding covers_def fired_by_def by blast

lemma covers_earlier:
  assumes "covers task v' v''" "fired_by K v v'"
  shows "covers task v v''"
proof -
  have "v_insts v n = None" if "v_insts v' n = None" for n
    using that assms(2) by (cases "v_insts v n") (auto simp: fired_by_def)
  with assms(1) show ?thesis unfolding covers_def by blast
qed

definition matches_event :: "publishEventRequest \<Rightarrow> Task \<Rightarrow> bool" where
  "matches_event req t \<longleftrightarrow> t_TriggerType t = ''event'' \<and> t_EventName t = ev_EventName req \<and> t_Status t = ''enabled''"

context repositories
begin

text \<open>The middle of every attempt: the instance is marked dispatched, then the request goes out.\<close>

lemma wp_attempt:
  assumes "ok w" "v_insts (vw w) n = Some ri"
    and "\<And>r w' now t. ok w' \<Longrightarrow> vw w' = (vw w)\<lparr>v_insts := (v_insts (vw w))(n \<mapsto>
      ri\<lparr>i_WorkerID := wid, i_Status := ''dispatched'', i_UpdatedAt := now, i_DispatchTime := t\<rparr>)\<rparr> \<Longrightarrow> wp (k r) Q w'"
  shows "wp (do { dt \<leftarrow> format_now; _ \<leftarrow> UpdateInstanceDispatch I n wid dt; r \<leftarrow> Dispatch x req; k r }) Q w"
  unfolding wp_bind
  apply (rule wp_format_now)
  apply (rule wp_update_dispatch [where i = ri])
    apply (simp add: assms(1))
   apply (simp add: assms(2))
  apply (rule wp_Dispatch)
   apply assumption
  using assms(3) by simp

lemma event_launch_wp:
  assumes "ok w" "v_insts (vw w) n = Some ri" "i_Status ri = ''pending''" "i_ID ri = n"
  shows "wp (event_launch I W req task shard ri) (\<lambda>c w'. ok w' \<and> c \<in> {0, 1} \<and>
    (\<exists>i'. attempted (vw w) (vw w') n ri i' \<and> i_Status i' \<in> {''pending'', ''dispatched''})) w"
  unfolding event_launch_def wp_bind [of "Pick _ _"]
  apply (rule wp_Pick [OF assms(1)])
  subgoal for err w1 c
    using assms by (auto intro!: exI [of _ ri] attempted_none simp: fun_upd_idem)
  subgoal for x w1 hb c
    unfolding sum.case assms(4)
    apply (rule wp_attempt [where ri = ri])
      apply assumption
     apply (simp add: assms(2))
    subgoal for r w2 now t
      using eligible_load [OF assms(1), of x]
      by (cases r) (auto simp: assms intro!: exI attempted_sent [where x = x])
    done
  done

lemma wp_new_id:
  "(\<And>sid. Q sid (w\<lparr>readings := Suc (readings w)\<rparr>)) \<Longrightarrow> wp (generateScheduleInstanceID k) Q w"
  "(\<And>sid. Q sid (w\<lparr>readings := Suc (readings w)\<rparr>)) \<Longrightarrow> wp (newScheduleInstanceID k) Q w"
  by (simp_all add: generateScheduleInstanceID_def newScheduleInstanceID_def)

lemma event_shard_wp:
  assumes "ok w"
  shows "wp (event_shard I W req task k) (\<lambda>c w'. ok w' \<and> c \<in> {0, 1} \<and> v_tasks (vw w') = v_tasks (vw w) \<and>
    (\<exists>i. spawned task k (vw w) (vw w') i \<and> i_Status i \<in> {''pending'', ''dispatched''})) w"
  unfolding event_shard_def wp_bind
  apply (rule wp_new_id)
  apply simp
  apply (rule wp_create_instance)
   apply (simp add: assms)
  subgoal for sid w1 n now
    apply (simp only: sum.case)
    apply (rule wp_mono [OF event_launch_wp [where n = n]])
        apply simp
       apply simp
      apply simp
     apply simp
    subgoal premises p for c w'
    proof -
      from p(6) obtain i' where i': "attempted (vw w1) (vw w') n (shard_instance task k sid (clock w (Suc (readings w)))
          \<lparr>i_ID := n, i_CreatedAt := now, i_UpdatedAt := now\<rparr>) i'" "i_Status i' \<in> {''pending'', ''dispatched''}"
        by blast
      have "spawned task k (vw w) (vw w') i'"
        by (rule spawned_of_attempted [OF i'(1)]) (use p i'(2) in auto)
      moreover have "v_tasks (vw w') = v_tasks (vw w)" using i'(1) p(5) by (simp add: attempted_def)
      ultimately show ?thesis using p(6) i'(2) by blast
    qed
    done
  done

lemma event_shards_wp:
  "ok w \<Longrightarrow> wp (event_shards I W req task ks m) (\<lambda>c w'. ok w' \<and> m \<le> c \<and> c \<le> m + int (length ks) \<and>
     v_tasks (vw w') = v_tasks (vw w) \<and>
     (\<exists>xs. spawned_all task ks (vw w) (vw w') xs \<and> (\<forall>i \<in> set xs. i_Status i \<in> {''pending'', ''dispatched''}))) w"
proof (induction ks arbitrary: w m)
  case Nil
  then show ?case by (auto intro!: exI [of _ "[]"])
next
  case (Cons k ks)
  show ?case
    unfolding event_shards.simps wp_bind
  proof (rule wp_mono [OF event_shard_wp [OF Cons.prems]], elim conjE exE)
    fix c :: int and w1 i
    assume 1: "ok w1" "c \<in> {0, 1}" "v_tasks (vw w1) = v_tasks (vw w)" "spawned task k (vw w) (vw w1) i"
      "i_Status i \<in> {''pending'', ''dispatched''}"
    show "wp (event_shards I W req task ks (m + c)) (\<lambda>c w'. ok w' \<and> m \<le> c \<and> c \<le> m + int (length (k # ks)) \<and>
     v_tasks (vw w') = v_tasks (vw w) \<and>
     (\<exists>xs. spawned_all task (k # ks) (vw w) (vw w') xs \<and> (\<forall>i \<in> set xs. i_Status i \<in> {''pending'', ''dispatched''}))) w1"
    proof (rule wp_mono [OF Cons.IH [OF 1(1)]], elim conjE exE)
      fix c' :: int and w' xs
      assume 2: "ok w'" "m + c \<le> c'" "c' \<le> m + c + int (length ks)" "v_tasks (vw w') = v_tasks (vw w1)"
        "spawned_all task ks (vw w1) (vw w') xs" "\<forall>i \<in> set xs. i_Status i \<in> {''pending'', ''dispatched''}"
      have "spawned_all task (k # ks) (vw w) (vw w') (i # xs)" using spawned_all_Cons [OF 1(4) 2(5)] .
      moreover have "\<forall>j \<in> set (i # xs). i_Status j \<in> {''pending'', ''dispatched''}" using 1(5) 2(6) by simp
      ultimately have "\<exists>xs. spawned_all task (k # ks) (vw w) (vw w') xs \<and>
          (\<forall>i \<in> set xs. i_Status i \<in> {''pending'', ''dispatched''})" by blast
      moreover have "v_tasks (vw w') = v_tasks (vw w)" "m \<le> c'" "c' \<le> m + int (length (k # ks))"
        using 1(2,3) 2(2-4) by auto
      ultimately show "ok w' \<and> m \<le> c' \<and> c' \<le> m + int (length (k # ks)) \<and> v_tasks (vw w') = v_tasks (vw w) \<and>
        (\<exists>xs. spawned_all task (k # ks) (vw w) (vw w') xs \<and> (\<forall>i \<in> set xs. i_Status i \<in> {''pending'', ''dispatched''}))"
        using 2(1) by blast
    qed
  qed
qed

end

lemma spawned_all_covers:
  assumes "spawned_all task (shard_numbers task) v v' xs" "\<forall>i \<in> set xs. i_Status i \<in> {''pending'', ''dispatched''}"
  shows "covers task v v'"
proof -
  have "add_insts xs m (i_ID i) = Some i" if "distinct (map i_ID xs)" "i \<in> set xs" for i m
    using that by (induction xs rule: rev_induct) (auto simp: add_insts_def, metis image_eqI)
  then show ?thesis using assms unfolding covers_def spawned_all_def by (intro exI [of _ xs]) simp
qed

context repositories
begin

lemma event_tasks_wp:
  "ok w \<Longrightarrow> wp (event_tasks I W req ts m) (\<lambda>c w'. ok w' \<and> m \<le> c \<and> v_tasks (vw w') = v_tasks (vw w) \<and>
     fired_by (t_ID ` {t \<in> set ts. matches_event req t}) (vw w) (vw w') \<and>
     (\<forall>t \<in> set ts. matches_event req t \<longrightarrow> covers t (vw w) (vw w'))) w"
proof (induction ts arbitrary: w m)
  case (Cons t ts)
  show ?case
  proof (cases "matches_event req t")
    case False
    then have "{x \<in> set (t # ts). matches_event req x} = {x \<in> set ts. matches_event req x}" by auto
    with Cons False show ?thesis
      by (auto simp: matches_event_def elim!: wp_mono [OF Cons.IH])
  next
    case True
    let ?K = "t_ID ` {x \<in> set (t # ts). matches_event req x}"
    have "event_tasks I W req (t # ts) m =
        do { n \<leftarrow> event_shards I W req t (shard_numbers t) m; event_tasks I W req ts n }"
      using True by (simp add: matches_event_def)
    then show ?thesis
      unfolding wp_bind
    proof (simp only: wp_bind, elim ssubst, intro wp_mono [OF event_shards_wp [OF Cons.prems]], elim conjE exE)
      fix c w1 xs
      assume 1: "ok w1" "m \<le> c" "v_tasks (vw w1) = v_tasks (vw w)" "spawned_all t (shard_numbers t) (vw w) (vw w1) xs"
        "\<forall>i \<in> set xs. i_Status i \<in> {''pending'', ''dispatched''}"
      have f: "fired_by {t_ID t} (vw w) (vw w1)" using 1(3) by (intro spawned_all_fired [OF 1(4)]) (simp add: other_tasks_def)
      have cov: "covers t (vw w) (vw w1)" by (rule spawned_all_covers [OF 1(4,5)])
      show "wp (event_tasks I W req ts c) (\<lambda>c w'. ok w' \<and> m \<le> c \<and> v_tasks (vw w') = v_tasks (vw w) \<and>
         fired_by ?K (vw w) (vw w') \<and> (\<forall>t \<in> set (t # ts). matches_event req t \<longrightarrow> covers t (vw w) (vw w'))) w1"
      proof (rule wp_mono [OF Cons.IH [OF 1(1)]], elim conjE)
        fix c' w'
        assume 2: "ok w'" "c \<le> c'" "v_tasks (vw w') = v_tasks (vw w1)"
          "fired_by (t_ID ` {x \<in> set ts. matches_event req x}) (vw w1) (vw w')"
          "\<forall>t \<in> set ts. matches_event req t \<longrightarrow> covers t (vw w1) (vw w')"
        have "fired_by ?K (vw w) (vw w')"
          using True by (intro fired_by_trans [OF fired_by_mono [OF f] fired_by_mono [OF 2(4)]]) auto
        with 1 2 cov f show "ok w' \<and> m \<le> c' \<and> v_tasks (vw w') = v_tasks (vw w) \<and> fired_by ?K (vw w) (vw w') \<and>
            (\<forall>t \<in> set (t # ts). matches_event req t \<longrightarrow> covers t (vw w) (vw w'))"
          by (auto intro: covers_later covers_earlier)
      qed
    qed
  qed
qed simp

lemma Publish_wp:
  assumes "ok w" "ev_EventName req \<noteq> []"
  shows "wp (Publish T I W ''POST'' (Some req)) (\<lambda>r w'. ok w' \<and> (\<exists>c. r = Published (ev_EventName req) c \<and> 0 \<le> c) \<and>
     v_tasks (vw w') = v_tasks (vw w) \<and>
     fired_by {k. \<exists>t. v_tasks (vw w) k = Some t \<and> matches_event req t} (vw w) (vw w') \<and>
     (\<forall>k t. v_tasks (vw w) k = Some t \<longrightarrow> matches_event req t \<longrightarrow> covers t (vw w) (vw w'))) w"
proof -
  from list_tasks [OF assms(1)] obtain ts where
    ts: "run_state (ListTasks T) w = (Inr ts, w)" "enumerates ts (v_tasks (vw w)) (\<lambda>_. True)" by blast
  have mem: "t \<in> set ts \<longleftrightarrow> v_tasks (vw w) (t_ID t) = Some t" for t
    using ts(2) task_id [OF assms(1)] by (auto simp: enumerates_def ran_def)
  have "t_ID ` {t \<in> set ts. matches_event req t} = {k. \<exists>t. v_tasks (vw w) k = Some t \<and> matches_event req t}"
    using task_id [OF assms(1)] by (auto simp: mem image_iff)
  moreover have "(\<forall>t \<in> set ts. matches_event req t \<longrightarrow> P t) \<longleftrightarrow>
      (\<forall>k t. v_tasks (vw w) k = Some t \<longrightarrow> matches_event req t \<longrightarrow> P t)" for P
    using task_id [OF assms(1)] by (auto simp: mem)
  ultimately show ?thesis
    using event_tasks_wp [OF assms(1), of req ts 0] assms(2)
    by (auto simp: Publish_def wp_run [OF ts(1)] elim!: wp_mono)
qed

lemma engine_launch_wp:
  assumes "ok w" "v_insts (vw w) n = Some ri" "i_Status ri = ''pending''" "i_ID ri = n"
    "v_sched (vw w) (i_ScheduleInstanceID ri) = Some n"
  shows "wp (engine_launch T I W url task ri e) (\<lambda>r w'. ok w' \<and>
    (\<exists>u i'. attempted (vw w) u n ri i' \<and> i_Status i' \<in> {''pending'', ''dispatched'', ''failed''} \<and>
      retimed task u (vw w'))) w"
proof -
  have none: "attempted (vw w) (vw w) n ri ri" using assms by (intro attempted_none) (simp_all add: fun_upd_idem)
  show ?thesis
    unfolding engine_launch_def wp_bind [of "Pick _ _"]
    apply (rule wp_Pick [OF assms(1)])
    subgoal for err w1 c
      apply (cases "err = ErrNoAvailableWorker")
      subgoal
        apply (simp del: insert_iff)
        apply (rule wp_mono [OF retime_wp])
         apply simp
        using none assms(3) by (auto simp del: insert_iff)
      subgoal using none assms(3) by (auto intro!: exI)
      done
    subgoal for x w1 hb c
      unfolding sum.case assms(4)
      apply (rule wp_attempt [where ri = ri])
        apply assumption
       apply (simp add: assms(2))
      subgoal for r w2 now t
        apply (cases r)
        subgoal for err
          apply (simp del: insert_iff)
          apply (rule wp_update_result [where i = "ri\<lparr>i_WorkerID := w_ID x, i_Status := ''dispatched'',
              i_UpdatedAt := now, i_DispatchTime := t\<rparr>"])
            apply simp
           apply (rule v_inst_at [where n = n]; simp add: assms)
          apply (rule wp_Release)
           apply simp
          subgoal for w5 now' w6 hb'
            apply (rule conjI, assumption)
            apply (rule exI [of _ "vw w6"])
            apply (rule exI [of _ "ri\<lparr>i_WorkerID := w_ID x, i_DispatchTime := t, i_Status := ''failed'',
                i_ErrorCode := ''dispatch_failed'', i_ErrorMessage := error_text err, i_UpdatedAt := now'\<rparr>"])
            using eligible_load [OF assms(1), of x] by (auto simp: assms(4) intro!: attempted_released [where x = x])
          done
        subgoal premises p for u
        proof -
          let ?i = "ri\<lparr>i_WorkerID := w_ID x, i_Status := ''dispatched'', i_UpdatedAt := now, i_DispatchTime := t\<rparr>"
          have sent: "attempted (vw w) (vw w2) n ri ?i"
            using eligible_load [OF assms(1) p(1)] p(5,7) by (intro attempted_sent [where x = x]) (simp_all add: assms)
          have adv: "wp (engine_advance T task e) (\<lambda>r w'. ok w' \<and> retimed task (vw w3) (vw w')) w3" if "ok w3" for w3
            using that
            by (auto simp: engine_advance_def wps split: sum.split option.split intro!: wp_mono [OF retime_wp])
          show ?thesis
            unfolding p(8) sum.case
            apply simp
            apply (rule wp_mono [OF adv])
             apply (simp add: p(6))
            using sent by (intro conjI exI [of _ "vw w2"] exI [of _ ?i]) auto
        qed
        done
      done
    done
qed

lemma OnTrigger_wp:
  assumes "ok w"
  shows "wp (OnTrigger T I W url k e) (\<lambda>r w'. ok w' \<and>
    fired_by ({k} \<inter> {k. \<exists>t. v_tasks (vw w) k = Some t \<and> t_Status t = ''enabled''}) (vw w) (vw w')) w"
proof (cases "\<exists>t. v_tasks (vw w) k = Some t \<and> t_Status t = ''enabled''")
  case False
  then show ?thesis
    using assms by (auto simp: OnTrigger_def bp_allows_def wps wp_get_task split: option.split)
next
  case True
  then obtain t where t: "v_tasks (vw w) k = Some t" "t_Status t = ''enabled''" by blast
  have k: "t_ID t = k" using task_id [OF assms t(1)] .
  have "{k} \<inter> {k. \<exists>t. v_tasks (vw w) k = Some t \<and> t_Status t = ''enabled''} = {k}" using t by auto
  moreover have "wp (engine_fire T I W url t e) (\<lambda>r w'. ok w' \<and> fired_by {k} (vw w) (vw w')) w"
    unfolding engine_fire_def wp_bind
    apply (rule wp_new_id)
    apply simp
    apply (rule wp_create_instance)
     apply (simp add: assms)
    subgoal premises p for sid w1 n now
    proof -
      let ?ri = "engine_instance t sid (clock w (Suc (readings w)))\<lparr>i_ID := n, i_CreatedAt := now, i_UpdatedAt := now\<rparr>"
      have ri: "i_Status ?ri = ''pending''" "i_TaskID ?ri = k" "i_ScheduleInstanceID ?ri = sid"
        by (simp_all add: engine_instance_def k)
      show ?thesis
        unfolding sum.case
        apply (rule wp_mono [OF engine_launch_wp [where n = n]])
             apply (rule p(3))
            apply (simp add: p(5))
           apply (simp add: ri)
          apply simp
         apply (simp add: p(5) ri(3) engine_instance_def)
        subgoal premises q for r w'
        proof -
          from q obtain u i' where u: "attempted (vw w1) u n ?ri i'"
            "i_Status i' \<in> {''pending'', ''dispatched'', ''failed''}" "retimed t u (vw w')" "ok w'" by blast
          have "fired_by {k} (vw w) u"
            by (rule fired_of_attempted [OF u(1) _ _ ri(1,2) u(2)]) (use p in auto)
          with retimed_fired [OF u(3)] k u(4) show ?thesis using fired_by_trans by blast
        qed
        done
    qed
    done
  ultimately show ?thesis
    using assms t by (simp add: OnTrigger_def bp_allows_def wps wp_get_task)
qed

lemma trigger_all_wp:
  "ok w \<Longrightarrow> wp (trigger_all T I W url ks e) (\<lambda>r w'. ok w' \<and> fired_by (set ks) (vw w) (vw w')) w"
proof (induction ks arbitrary: w e)
  case (Cons k ks)
  show ?case
    unfolding trigger_all.simps wp_if_ok
  proof (rule wp_mono [OF OnTrigger_wp [OF Cons.prems]], elim conjE)
    fix r :: "error + Engine" and w1
    assume 1: "ok w1" "fired_by ({k} \<inter> {k. \<exists>t. v_tasks (vw w) k = Some t \<and> t_Status t = ''enabled''}) (vw w) (vw w1)"
    have f: "fired_by (set (k # ks)) (vw w) (vw w1)" by (rule fired_by_mono [OF 1(2)]) auto
    have "wp (trigger_all T I W url ks e') (\<lambda>r w'. ok w' \<and> fired_by (set (k # ks)) (vw w) (vw w')) w1" for e'
    proof (rule wp_mono [OF Cons.IH [OF 1(1)]], elim conjE)
      fix w' assume "ok w'" "fired_by (set ks) (vw w1) (vw w')"
      moreover from this have "fired_by (set (k # ks)) (vw w1) (vw w')" by (auto elim: fired_by_mono)
      ultimately show "ok w' \<and> fired_by (set (k # ks)) (vw w) (vw w')" using fired_by_trans [OF f] by blast
    qed
    with f 1(1) show "(case r of Inl err \<Rightarrow> \<lambda>w'. ok w' \<and> fired_by (set (k # ks)) (vw w) (vw w')
        | Inr x \<Rightarrow> wp (trigger_all T I W url ks x) (\<lambda>r w'. ok w' \<and> fired_by (set (k # ks)) (vw w) (vw w'))) w1"
      by (cases r) simp_all
  qed
qed simp

lemma Warm_wp:
  assumes "ok w"
  shows "wp (Warm T I e) (\<lambda>r w'. ok w' \<and> vw w' = vw w \<and> env w' = env w) w"
proof -
  let ?w = "w\<lparr>readings := Suc (readings w)\<rparr>"
  have "ok ?w" using assms by simp
  from list_due [OF this, of 500] obtain w1 ts where
    1: "run_state (ListDueTasks T 500) ?w = (Inr ts, w1)" "ok w1" "vw w1 = vw w" "env w1 = env w"
    by (auto simp: moves_def)
  have 2: "wp (ListDueRetryInstances I c 500) (\<lambda>_ w'. ok w' \<and> vw w' = vw w \<and> env w' = env w) w1" for c
    using list_due_retry [OF 1(2), of c 500] 1 by (auto simp: wp_iff)
  show ?thesis
    unfolding Warm_def wp_bind wp_time_now wp_Let Let_def wp_if_ok wp_run [OF 1(1)] sum.case wp_case_sum
    using 1 2 by (auto split: sum.split)
qed

end

section \<open>Properties\<close>

text \<open>
  A published event fires exactly the enabled tasks that listen to it: each of them gets one new
  instance per shard, no other task gets any, no task and no existing instance changes; the new
  instances are dispatched or, where no worker was found, pending, and load is reserved for exactly
  the dispatched ones. Any other request is answered with an error and changes nothing.
\<close>

theorem Publish_fires:
  assumes "stores_ok w"
  shows "case run_state (Publish test_tasks test_instances test_workers meth body) w of (r, w') \<Rightarrow>
    (case body of
       Some req \<Rightarrow>
         if meth = ''POST'' \<and> ev_EventName req \<noteq> [] then
           stores_ok w' \<and> (\<exists>c. r = Published (ev_EventName req) c \<and> 0 \<le> c) \<and>
           v_tasks (test_view w') = v_tasks (test_view w) \<and>
           fired_by {k. \<exists>t. v_tasks (test_view w) k = Some t \<and> matches_event req t} (test_view w) (test_view w') \<and>
           (\<forall>k t. v_tasks (test_view w) k = Some t \<longrightarrow> matches_event req t \<longrightarrow> covers t (test_view w) (test_view w'))
         else w' = w \<and> (r = MethodNotAllowed \<or> (\<exists>msg. r = BadRequest msg))
     | None \<Rightarrow> w' = w \<and> (r = MethodNotAllowed \<or> (\<exists>msg. r = BadRequest msg)))"
proof -
  have "w' = w \<and> (r = MethodNotAllowed \<or> (\<exists>msg. r = BadRequest msg))"
    if "run_state (Publish test_tasks test_instances test_workers meth body) w = (r, w')"
      "case body of None \<Rightarrow> True | Some req \<Rightarrow> \<not> (meth = ''POST'' \<and> ev_EventName req \<noteq> [])" for r w'
    using that by (auto simp: Publish_def split: if_splits option.splits)
  moreover note ts.Publish_wp [OF assms]
  ultimately show ?thesis
    by (cases body) (fastforce simp: wp_def split: prod.split)+
qed

definition sample_event :: stores where
  "sample_event = sample\<lparr>task_store := (task_store sample)\<lparr>ts_tasks :=
     [(1, sample_task\<lparr>t_TriggerType := ''event'', t_EventName := ''order.paid''\<rparr>)]\<rparr>\<rparr>"

theorem Publish_fires_witness:
  "case run_state (Publish test_tasks test_instances test_workers ''POST''
      (Some \<lparr>ev_EventName = ''order.paid'', ev_Payload = [(''id'', ''7'')]\<rparr>)) sample_event of (r, w') \<Rightarrow>
    (\<exists>c. r = Published ''order.paid'' c) \<and>
    covers (sample_task\<lparr>t_TriggerType := ''event'', t_EventName := ''order.paid''\<rparr>) (test_view sample_event) (test_view w')"
proof -
  let ?req = "\<lparr>ev_EventName = ''order.paid'', ev_Payload = [(''id'', ''7'')]\<rparr>"
  let ?t = "sample_task\<lparr>t_TriggerType := ''event'', t_EventName := ''order.paid''\<rparr>"
  have ok: "stores_ok sample_event"
    by (auto simp: sample_event_def stores_ok_def sample_def keyed_def wf_map_def sample_task_def sample_instance_def
        sample_worker_def split: if_splits)
  have t: "v_tasks (test_view sample_event) 1 = Some ?t" by (simp add: sample_event_def test_view_def)
  have m: "matches_event ?req ?t" by (simp add: matches_event_def sample_task_def)
  from Publish_fires [OF ok, of "''POST''" "Some ?req"] t m show ?thesis by (auto simp: split_beta)
qed

text \<open>
  The ticks of the engine fire what is due and nothing else: a heap tick creates instances only of
  the tasks whose items had come due, a wheel tick only of the tasks in the slot it reaches; both
  leave existing instances and all other tasks alone and keep load and dispatched instances in step.
\<close>

theorem engine_ticks_fire:
  assumes "stores_ok w"
  shows "(case run_state (heap_tick test_tasks test_instances test_workers url e) w of (r, w') \<Rightarrow> stores_ok w' \<and>
      fired_by (h_TaskID ` {x \<in> set (e_heap e). h_TriggerTime x \<le> clock w (readings w)}) (test_view w) (test_view w')) \<and>
    (case run_state (wheel_tick test_tasks test_instances test_workers url e) w of (r, w') \<Rightarrow> stores_ok w' \<and>
      fired_by (set (fst (Tick (e_wheel e)))) (test_view w) (test_view w'))"
proof -
  let ?w = "w\<lparr>readings := Suc (readings w)\<rparr>"
  have w: "stores_ok ?w" "test_view ?w = test_view w" using assms by (simp_all add: stores_ok_def test_view_def)
  let ?due = "map h_TaskID (filter (\<lambda>x. h_TriggerTime x \<le> clock w (readings w)) (e_heap e))"
  have "set ?due = h_TaskID ` {x \<in> set (e_heap e). h_TriggerTime x \<le> clock w (readings w)}" by auto
  with ts.trigger_all_wp [OF w(1), of url ?due] ts.trigger_all_wp [OF assms, of url] w(2) show ?thesis
    by (simp add: heap_tick_def wheel_tick_def wp_def PopUntil_filter split_beta Let_def del: set_map set_filter)
qed

theorem engine_ticks_fire_witness:
  "case run_state (heap_tick test_tasks test_instances test_workers [] (AddToHeap NewEngine 1 0)) sample of (r, w') \<Rightarrow>
    stores_ok w' \<and> fired_by {1} (test_view sample) (test_view w')"
proof -
  have "e_heap (AddToHeap NewEngine 1 0) = [\<lparr>h_TaskID = 1, h_TriggerTime = 0\<rparr>]"
    by (simp add: AddToHeap_def NewEngine_def heap_Push_def Push_def heap_up.simps Let_def parent_def)
  then have "h_TaskID ` {x \<in> set (e_heap (AddToHeap NewEngine 1 0)). h_TriggerTime x \<le> clock sample (readings sample)} = {1}"
    by auto
  with engine_ticks_fire [OF sample_ok, where url = "[]" and e = "AddToHeap NewEngine 1 0"] show ?thesis by (simp add: split_beta)
qed

end
