(* ===== verification/Worker.thy ===== *)
theory Worker
  imports Scheduler
begin

text \<open>
  The worker process (\<^verbatim>\<open>internal/worker\<close>): running the requests it is sent, reporting their outcome to the
  scheduler, and buffering reports it could not deliver. Its state is a record of its own. The
  outside answers through fields, numbered by the calls made so far: the scheduler, the commands
  that do the work of a task, the file system. A goroutine per request is one operation here,
  \<open>run\<close>; what it shares with the others is the duplicate map, whose test and set is one atomic step.

  A buffered file is kept as the report it encodes, absent when it does not decode. File names are
  schedule ids with a suffix; the ids the scheduler makes have no path separator.
\<close>

section \<open>State\<close>

text \<open>The error of an execution, with what \<^verbatim>\<open>errors.Is\<close> sees of it.\<close>

datatype exec_error =
    DeadlineExceeded
  | ExecErr string
  | ExecWrap string exec_error string

primrec exec_text :: "exec_error \<Rightarrow> string" where
  "exec_text DeadlineExceeded = ''context deadline exceeded''"
| "exec_text (ExecErr s) = s"
| "exec_text (ExecWrap s e s') = s @ exec_text e @ s'"

primrec is_deadline :: "exec_error \<Rightarrow> bool" where
  "is_deadline DeadlineExceeded = True"
| "is_deadline (ExecErr s) = False"
| "is_deadline (ExecWrap s e s') = is_deadline e"

text \<open>
  What a task does: a process in a directory, with its arguments and environment, or a GET with the
  idempotency key it carries; both under the deadline of the context.
\<close>

datatype command =
    RunCommand string "string list" "string list" duration
  | HttpGet string string duration

datatype report_message =
    AckHTTP string string string
  | AckGRPC string string
  | LogGRPC string string string string int
  | ReportHTTP string TaskStatusReportRequest
  | ReportGRPC PbReportTaskStatusRequest
  | RegisterHTTP string WorkerRegistrationRequest
  | RegisterGRPC PbRegisterWorkerRequest
  | HeartbeatHTTP string WorkerHeartbeatRequest
  | HeartbeatGRPC PbHeartbeatRequest

record StoredReport =
  st_SchedulerURL :: string
  st_Report :: TaskStatusReportRequest
  st_StoredAt :: int

record worker =
  k_clock :: "nat \<Rightarrow> time"
  k_readings :: nat
  k_unicode_print :: "nat \<Rightarrow> bool"
  k_url_error :: "string \<Rightarrow> error option"
  k_http :: "nat \<Rightarrow> error + int \<times> string"
  k_grpc :: "nat \<Rightarrow> error + bool \<times> string"
  k_outbox :: "report_message list"
  k_exec :: "nat \<Rightarrow> string \<times> exec_error option"
  k_get :: "nat \<Rightarrow> exec_error + int \<times> string \<times> string"
  k_commands :: "command list"
  k_tempdir :: "nat \<Rightarrow> string"
  k_path :: string
  k_pid :: int
  k_cgroup :: "(string \<times> string) list"
  k_disk :: "nat \<Rightarrow> error option"
  k_disk_ops :: nat
  k_files :: "(string, StoredReport option) gomap"
  k_registry :: Registry
  k_running :: int
  k_dedup :: "(string, time) gomap"
  k_cancels :: "(string, unit) gomap"
  k_cancelled :: "string list"

type_synonym 'b wk = "(worker, 'b) state"

definition now_wk :: "time wk" where
  "now_wk = State (\<lambda>w. (k_clock w (k_readings w), w\<lparr>k_readings := Suc (k_readings w)\<rparr>))"

text \<open>A file system call: it fails or takes effect.\<close>

definition disk :: "(worker \<Rightarrow> worker) \<Rightarrow> (error + unit) wk" where
  "disk f = do {
     r \<leftarrow> reads (\<lambda>w. k_disk w (k_disk_ops w));
     modify (\<lambda>w. w\<lparr>k_disk_ops := Suc (k_disk_ops w)\<rparr>);
     case r of
       Some err \<Rightarrow> raise err
     | None \<Rightarrow> do { modify f; ret () } }"

section \<open>The report client\<close>

record ReportClient =
  rc_protocol :: string
  rc_control :: bool

text \<open>
  \<^verbatim>\<open>strings.ToLower\<close> as far as a comparison with an ASCII word can see: beside the ASCII letters, two
  other runes have an ASCII letter as lower case.
\<close>

fun ToLower :: "string \<Rightarrow> string" where
  "ToLower [] = []"
| "ToLower (c # s) =
     (case s of
        d # s' \<Rightarrow>
          if c = CHR 0xC4 \<and> d = CHR 0xB0 then CHR ''i'' # ToLower s'
          else if c = CHR 0xE2 \<and> d = CHR 0x84 \<and> s' \<noteq> [] \<and> hd s' = CHR 0xAA then CHR ''k'' # ToLower (tl s')
          else ascii_lower c # ToLower s
      | [] \<Rightarrow> [ascii_lower c])"

text \<open>\<open>dialled\<close> tells whether \<^verbatim>\<open>grpc.Dial\<close> made a connection.\<close>

definition NewReportClient :: "string \<Rightarrow> bool \<Rightarrow> ReportClient" where
  "NewReportClient protocol dialled =
     (let p = ToLower (TrimSpace protocol) in \<lparr>rc_protocol = p, rc_control = (p = ''grpc'' \<and> dialled)\<rparr>)"

definition post_wk :: "report_message \<Rightarrow> (error + int \<times> string) wk" where
  "post_wk m = do {
     n \<leftarrow> reads (\<lambda>w. length (k_outbox w));
     modify (\<lambda>w. w\<lparr>k_outbox := k_outbox w @ [m]\<rparr>);
     reads (\<lambda>w. k_http w n) }"

definition call_wk :: "report_message \<Rightarrow> (error + bool \<times> string) wk" where
  "call_wk m = do {
     n \<leftarrow> reads (\<lambda>w. length (k_outbox w));
     modify (\<lambda>w. w\<lparr>k_outbox := k_outbox w @ [m]\<rparr>);
     reads (\<lambda>w. k_grpc w n) }"

definition Ack :: "ReportClient \<Rightarrow> string \<Rightarrow> string \<Rightarrow> string \<Rightarrow> (error + unit) wk" where
  "Ack c schedulerURL sid workerID =
     (if rc_protocol c = ''grpc'' \<and> rc_control c then do {
        resp \<leftarrow> call_wk (AckGRPC sid workerID);
        case resp of
          Inl err \<Rightarrow> raise err
        | Inr (accepted, _) \<Rightarrow> if \<not> accepted then raise (Errorf ''grpc ack rejected'') else ret () }
      else do {
        let url = trim_slashes schedulerURL @ ''/api/v1/task-instances/ack'';
        bad \<leftarrow> reads (\<lambda>w. k_url_error w url);
        case bad of
          Some err \<Rightarrow> raise err
        | None \<Rightarrow> do {
            resp \<leftarrow> post_wk (AckHTTP url sid workerID);
            case resp of Inl err \<Rightarrow> raise err | Inr _ \<Rightarrow> ret () } })"

definition ReportLog :: "ReportClient \<Rightarrow> string \<Rightarrow> string \<Rightarrow> string \<Rightarrow> string \<Rightarrow> string \<Rightarrow> (error + unit) wk" where
  "ReportLog c schedulerURL sid workerID level message =
     (if rc_protocol c = ''grpc'' \<and> rc_control c then do {
        now \<leftarrow> now_wk;
        resp \<leftarrow> call_wk (LogGRPC sid workerID level message (now div second));
        case resp of Inl err \<Rightarrow> raise err | Inr _ \<Rightarrow> ret () }
      else ret ())"

definition pb_of_status :: "TaskStatusReportRequest \<Rightarrow> PbReportTaskStatusRequest" where
  "pb_of_status req = \<lparr>rs_ScheduleInstanceId = sr_ScheduleInstanceID req, rs_WorkerId = sr_WorkerID req,
     rs_Status = sr_Status req, rs_ErrorCode = sr_ErrorCode req, rs_ErrorMessage = sr_ErrorMessage req,
     rs_StartedAt = sr_StartedAt req, rs_FinishedAt = sr_FinishedAt req\<rparr>"

definition reportGRPC :: "ReportClient \<Rightarrow> TaskStatusReportRequest \<Rightarrow> (error + unit) wk" where
  "reportGRPC c req =
     (if \<not> rc_control c then raise (Errorf ''grpc control client is not initialized'')
      else do {
        resp \<leftarrow> call_wk (ReportGRPC (pb_of_status req));
        case resp of
          Inl err \<Rightarrow> raise err
        | Inr (accepted, _) \<Rightarrow> if \<not> accepted then raise (Errorf ''grpc status report rejected'') else ret () })"

definition reportHTTP :: "string \<Rightarrow> TaskStatusReportRequest \<Rightarrow> (error + unit) wk" where
  "reportHTTP schedulerURL req = do {
     let url = trim_slashes schedulerURL @ ''/api/v1/task-instances/report'';
     bad \<leftarrow> reads (\<lambda>w. k_url_error w url);
     case bad of
       Some err \<Rightarrow> raise (Wrapped ''build status report request'' err)
     | None \<Rightarrow> do {
         resp \<leftarrow> post_wk (ReportHTTP url req);
         case resp of
           Inl err \<Rightarrow> raise (Wrapped ''send status report'' err)
         | Inr (code, status) \<Rightarrow>
             if code \<ge> 300 then raise (Errorf (''scheduler returned status '' @ status)) else ret () } }"

definition Report :: "ReportClient \<Rightarrow> string \<Rightarrow> TaskStatusReportRequest \<Rightarrow> (error + unit) wk" where
  "Report c schedulerURL req = (if rc_protocol c = ''grpc'' then reportGRPC c req else reportHTTP schedulerURL req)"

section \<open>The heartbeat client\<close>

record HeartbeatClient =
  hc_baseURL :: string
  hc_protocol :: string
  hc_control :: bool

definition NewHeartbeatClient :: "string \<Rightarrow> string \<Rightarrow> bool \<Rightarrow> HeartbeatClient" where
  "NewHeartbeatClient baseURL protocol dialled =
     (let p = ToLower (TrimSpace protocol) in
      \<lparr>hc_baseURL = baseURL, hc_protocol = p, hc_control = (p = ''grpc'' \<and> dialled)\<rparr>)"

definition post_hb :: "HeartbeatClient \<Rightarrow> string \<Rightarrow> (string \<Rightarrow> report_message) \<Rightarrow> (error + unit) wk" where
  "post_hb c path payload = do {
     let url = hc_baseURL c @ path;
     bad \<leftarrow> reads (\<lambda>w. k_url_error w url);
     case bad of
       Some err \<Rightarrow> raise (Wrapped ''build request'' err)
     | None \<Rightarrow> do {
         resp \<leftarrow> post_wk (payload url);
         case resp of
           Inl err \<Rightarrow> raise (Wrapped ''send request'' err)
         | Inr (code, status) \<Rightarrow>
             if code \<ge> 300 then raise (Errorf (''unexpected scheduler status: '' @ status)) else ret () } }"

definition pb_of_registration :: "WorkerRegistrationRequest \<Rightarrow> PbRegisterWorkerRequest" where
  "pb_of_registration req = \<lparr>rw_WorkerId = wr_WorkerID req, rw_Hostname = wr_Hostname req, rw_Ip = wr_IP req,
     rw_CallbackUrl = wr_CallbackURL req, rw_GrpcAddr = wr_GRPCAddr req, rw_Protocol = wr_Protocol req,
     rw_MaxConcurrency = wrap32 (wr_MaxConcurrency req), rw_Labels = wr_Labels req\<rparr>"

definition registerGRPC :: "HeartbeatClient \<Rightarrow> WorkerRegistrationRequest \<Rightarrow> (error + unit) wk" where
  "registerGRPC c req =
     (if \<not> hc_control c then raise (Errorf ''grpc control client is not initialized'')
      else do {
        resp \<leftarrow> call_wk (RegisterGRPC (pb_of_registration req));
        case resp of
          Inl err \<Rightarrow> raise err
        | Inr (accepted, message) \<Rightarrow>
            if \<not> accepted then raise (Errorf (''grpc register worker rejected: '' @ message)) else ret () })"

definition pb_of_heartbeat :: "WorkerHeartbeatRequest \<Rightarrow> PbHeartbeatRequest" where
  "pb_of_heartbeat req = \<lparr>hb_WorkerId = hr_WorkerID req, hb_CurrentLoad = wrap32 (hr_CurrentLoad req),
     hb_RunningTasks = wrap32 (hr_RunningTasks req), hb_ReportUnixMilli = hr_ReportUnixMilli req\<rparr>"

definition heartbeatGRPC :: "HeartbeatClient \<Rightarrow> WorkerHeartbeatRequest \<Rightarrow> (error + unit) wk" where
  "heartbeatGRPC c req =
     (if \<not> hc_control c then raise (Errorf ''grpc control client is not initialized'')
      else do {
        resp \<leftarrow> call_wk (HeartbeatGRPC (pb_of_heartbeat req));
        case resp of
          Inl err \<Rightarrow> raise err
        | Inr (accepted, _) \<Rightarrow> if \<not> accepted then raise (Errorf ''grpc heartbeat rejected'') else ret () })"

definition Register :: "HeartbeatClient \<Rightarrow> WorkerRegistrationRequest \<Rightarrow> (error + unit) wk" where
  "Register c req =
     (if hc_protocol c = ''grpc'' then registerGRPC c req
      else post_hb c ''/api/v1/workers/register'' (\<lambda>url. RegisterHTTP url req))"

definition send_heartbeat :: "HeartbeatClient \<Rightarrow> WorkerHeartbeatRequest \<Rightarrow> (error + unit) wk" where
  "send_heartbeat c req =
     (if hc_protocol c = ''grpc'' then heartbeatGRPC c req
      else post_hb c ''/api/v1/workers/heartbeat'' (\<lambda>url. HeartbeatHTTP url req))"

section \<open>The local store\<close>

text \<open>
  A string that went through \<^verbatim>\<open>encoding/json\<close> and back: a byte that is not part of a UTF-8 sequence comes
  back as U+FFFD. An error message is cut at a byte and may end in such a byte.
\<close>

function json_text :: "string \<Rightarrow> string" where
  "json_text s =
     (if s = [] then []
      else let n = utf8_len s in
        if n = 0 then encode_rune 0xFFFD @ json_text (tl s) else take n s @ json_text (drop n s))"
  by pat_completeness auto
termination
  by (relation "measure length") auto

declare json_text.simps [simp del]

definition json_report :: "TaskStatusReportRequest \<Rightarrow> TaskStatusReportRequest" where
  "json_report r = \<lparr>sr_ScheduleInstanceID = json_text (sr_ScheduleInstanceID r), sr_WorkerID = json_text (sr_WorkerID r),
     sr_Status = json_text (sr_Status r), sr_ErrorCode = json_text (sr_ErrorCode r),
     sr_ErrorMessage = json_text (sr_ErrorMessage r), sr_StartedAt = json_text (sr_StartedAt r),
     sr_FinishedAt = json_text (sr_FinishedAt r)\<rparr>"

definition report_file :: "string \<Rightarrow> string" where
  "report_file sid = sid @ ''.json''"

definition Buffer :: "string \<Rightarrow> TaskStatusReportRequest \<Rightarrow> unit wk" where
  "Buffer schedulerURL report = do {
     now \<leftarrow> now_wk;
     let sr = \<lparr>st_SchedulerURL = json_text schedulerURL, st_Report = json_report report, st_StoredAt = now div second\<rparr>;
     _ \<leftarrow> disk (\<lambda>w. w\<lparr>k_files := mput (report_file (sr_ScheduleInstanceID report)) (Some sr) (k_files w)\<rparr>);
     State_Monad.return () }"

definition remove_file :: "string \<Rightarrow> (error + unit) wk" where
  "remove_file name = disk (\<lambda>w. w\<lparr>k_files := mdel name (k_files w)\<rparr>)"

definition Store_Remove :: "string \<Rightarrow> unit wk" where
  "Store_Remove sid = do { _ \<leftarrow> remove_file (report_file sid); State_Monad.return () }"

text \<open>A decoded report is sent, and its file removed when it was taken.\<close>

definition flush_report :: "ReportClient \<Rightarrow> string \<Rightarrow> StoredReport \<Rightarrow> int wk" where
  "flush_report c name sr = do {
     r \<leftarrow> Report c (st_SchedulerURL sr) (st_Report sr);
     case r of
       Inl err \<Rightarrow> State_Monad.return 1
     | Inr _ \<Rightarrow> do { _ \<leftarrow> remove_file name; State_Monad.return 0 } }"

text \<open>One entry of the directory, and how much it adds to the reports that remain.\<close>

definition flush_one :: "ReportClient \<Rightarrow> string \<Rightarrow> int wk" where
  "flush_one c name = do {
     got \<leftarrow> disk (\<lambda>w. w);
     data \<leftarrow> reads (\<lambda>w. mget (k_files w) name);
     case (got, data) of
       (Inr _, Some content) \<Rightarrow>
         (case content of
            None \<Rightarrow> do { _ \<leftarrow> remove_file name; State_Monad.return 0 }
          | Some sr \<Rightarrow> flush_report c name sr)
     | _ \<Rightarrow> State_Monad.return 1 }"

fun flush_loop :: "ReportClient \<Rightarrow> string list \<Rightarrow> int \<Rightarrow> int wk" where
  "flush_loop c [] remaining = State_Monad.return remaining"
| "flush_loop c (name # rest) remaining = do {
     n \<leftarrow> flush_one c name;
     flush_loop c rest (remaining + n) }"

definition Flush :: "ReportClient \<Rightarrow> int wk" where
  "Flush c = do {
     listed \<leftarrow> disk (\<lambda>w. w);
     case listed of
       Inl err \<Rightarrow> State_Monad.return (- 1)
     | Inr _ \<Rightarrow> do {
         names \<leftarrow> reads (\<lambda>w. sort (map fst (k_files w)));
         flush_loop c names 0 } }"

definition PendingCount :: "int wk" where
  "PendingCount = do {
     listed \<leftarrow> disk (\<lambda>w. w);
     case listed of
       Inl err \<Rightarrow> State_Monad.return 0
     | Inr _ \<Rightarrow> reads (\<lambda>w. int (length (k_files w))) }"

section \<open>Executing a task\<close>

definition getEnv :: "(string, string) gomap \<Rightarrow> string \<Rightarrow> string" where
  "getEnv m key = the_default [] (mget m key)"

definition run_command :: "command \<Rightarrow> (string \<times> exec_error option) wk" where
  "run_command cmd = do {
     n \<leftarrow> reads (\<lambda>w. length (k_commands w));
     modify (\<lambda>w. w\<lparr>k_commands := k_commands w @ [cmd]\<rparr>);
     reads (\<lambda>w. k_exec w n) }"

definition http_get :: "string \<Rightarrow> string \<Rightarrow> duration \<Rightarrow> (exec_error + int \<times> string \<times> string) wk" where
  "http_get url key ctx = do {
     n \<leftarrow> reads (\<lambda>w. length (k_commands w));
     modify (\<lambda>w. w\<lparr>k_commands := k_commands w @ [HttpGet url key ctx]\<rparr>);
     reads (\<lambda>w. k_get w n) }"

definition wrap_output :: "string \<Rightarrow> string \<times> exec_error option \<Rightarrow> string \<times> exec_error option" where
  "wrap_output what r = (case r of
      (output, None) \<Rightarrow> (output, None)
    | (output, Some err) \<Rightarrow> (output, Some (ExecWrap (what @ '' execute failed: '') err ('' output='' @ output))))"

definition Execute ::
  "duration \<Rightarrow> string \<Rightarrow> string \<Rightarrow> string \<Rightarrow> (string, string) gomap \<Rightarrow> (string \<times> exec_error option) wk" where
  "Execute ctx taskType payload img extraEnv =
     (let kind = ToLower (TrimSpace taskType) in
      if kind = ''shell'' then do {
        r \<leftarrow> run_command (RunCommand [] [''bash'', ''-lc'', payload]
          (map (\<lambda>key. key @ ''='' @ getEnv extraEnv key)
            [''IDEMPOTENCY_KEY'', ''SHARD_NO'', ''SHARD_TOTAL'', ''SCHEDULE_INSTANCE_ID'']) ctx);
        State_Monad.return (wrap_output ''shell'' r) }
      else if kind = ''http'' then do {
        bad \<leftarrow> reads (\<lambda>w. k_url_error w payload);
        case bad of
          Some err \<Rightarrow> State_Monad.return ([], Some (ExecWrap ''build http request: '' (ExecErr (error_text err)) []))
        | None \<Rightarrow> do {
            r \<leftarrow> http_get payload (getEnv extraEnv ''IDEMPOTENCY_KEY'') ctx;
            case r of
              Inl err \<Rightarrow> State_Monad.return ([], Some (ExecWrap ''http execute failed: '' err []))
            | Inr (code, status, body) \<Rightarrow>
                State_Monad.return (body, if code \<ge> 300 then Some (ExecErr (''http execute status='' @ status)) else None) } }
      else if kind = ''container'' then
        (if img = [] then State_Monad.return ([], Some (ExecErr ''container task requires a non-empty image''))
         else do {
           let args = [''run'', ''--rm''] @ (if payload \<noteq> [] then Fields payload else []) @ [img];
           r \<leftarrow> run_command (RunCommand [] (''docker'' # args) [] ctx);
           State_Monad.return (wrap_output ''container'' r) })
      else State_Monad.return ([], Some (ExecErr (''unsupported task type: '' @ taskType))))"

section \<open>The sandbox\<close>

record SandboxConfig =
  sc_MaxMemoryBytes :: int
  sc_MaxCPUPercent :: int
  sc_Timeout :: duration

record Sandbox =
  sb_workDir :: string
  sb_config :: SandboxConfig

definition NewSandbox :: "string \<Rightarrow> SandboxConfig \<Rightarrow> (error + Sandbox) wk" where
  "NewSandbox baseDir cfg = do {
     workDir \<leftarrow> reads (\<lambda>w. k_tempdir w (k_disk_ops w));
     made \<leftarrow> disk (\<lambda>w. w);
     case made of
       Inl err \<Rightarrow> raise (Wrapped ''create sandbox workdir'' err)
     | Inr _ \<Rightarrow> ret \<lparr>sb_workDir = workDir, sb_config = cfg\<rparr> }"

definition cgroup_path :: string where
  "cgroup_path = ''/sys/fs/cgroup/go-ai-scheduler''"

definition write_cgroup :: "string \<Rightarrow> string \<Rightarrow> unit wk" where
  "write_cgroup file content = do {
     _ \<leftarrow> disk (\<lambda>w. w\<lparr>k_cgroup := k_cgroup w @ [(cgroup_path @ ''/'' @ file, content)]\<rparr>);
     State_Monad.return () }"

definition applyResourceLimits :: "SandboxConfig \<Rightarrow> unit wk" where
  "applyResourceLimits cfg = do {
     made \<leftarrow> disk (\<lambda>w. w);
     case made of
       Inl err \<Rightarrow> State_Monad.return ()
     | Inr _ \<Rightarrow> do {
         pid \<leftarrow> reads (\<lambda>w. itoa (k_pid w));
         (if sc_MaxMemoryBytes cfg > 0 then do {
            write_cgroup ''memory.max'' (itoa (sc_MaxMemoryBytes cfg));
            write_cgroup ''cgroup.procs'' pid }
          else State_Monad.return ());
         (if sc_MaxCPUPercent cfg > 0 \<and> sc_MaxCPUPercent cfg < 100 then
           write_cgroup ''cpu.max'' (itoa (100000 * sc_MaxCPUPercent cfg div 100) @ '' '' @ itoa 100000)
         else State_Monad.return ()) } }"

definition ShellExec ::
  "duration \<Rightarrow> Sandbox \<Rightarrow> string \<Rightarrow> (string, string) gomap \<Rightarrow> (string \<times> exec_error option) wk" where
  "ShellExec ctx s cmd extraEnv = do {
     path \<leftarrow> reads k_path;
     let env = [''PATH='' @ path, ''HOME='' @ sb_workDir s, ''USER=nobody'', ''TMPDIR='' @ sb_workDir s, ''SANDBOX=true''] @
       map (\<lambda>(k, v). k @ ''='' @ v) extraEnv;
     applyResourceLimits (sb_config s);
     run_command (RunCommand (sb_workDir s) [''bash'', ''-lc'', cmd] env ctx) }"

definition Cleanup :: "Sandbox \<Rightarrow> (error + unit) wk" where
  "Cleanup s = (if sb_workDir s = [] then ret () else disk (\<lambda>w. w))"

section \<open>The handler\<close>

record Handler =
  hd_workerID :: string
  hd_reporter :: ReportClient
  hd_sandboxDir :: string
  hd_maxMemBytes :: int
  hd_localStore :: bool

definition NewHandler :: "string \<Rightarrow> ReportClient \<Rightarrow> string \<Rightarrow> int \<Rightarrow> string \<Rightarrow> Handler wk" where
  "NewHandler workerID rep sandboxDir maxMem localStoreDir =
     (if localStoreDir \<noteq> [] then do {
        r \<leftarrow> disk (\<lambda>w. w);
        State_Monad.return \<lparr>hd_workerID = workerID, hd_reporter = rep, hd_sandboxDir = sandboxDir, hd_maxMemBytes = maxMem,
          hd_localStore = (case r of Inl _ \<Rightarrow> False | Inr _ \<Rightarrow> True)\<rparr> }
      else State_Monad.return \<lparr>hd_workerID = workerID, hd_reporter = rep, hd_sandboxDir = sandboxDir, hd_maxMemBytes = maxMem,
        hd_localStore = False\<rparr>)"

text \<open>One round of the goroutine of \<^verbatim>\<open>StartDedupEviction\<close>.\<close>

definition evict_dedup :: "duration \<Rightarrow> unit wk" where
  "evict_dedup ttl = do {
     now \<leftarrow> now_wk;
     let cutoff = now - (if ttl \<le> 0 then 5 * minute else ttl);
     modify (\<lambda>w. w\<lparr>k_dedup := filter (\<lambda>(key, seen). \<not> seen < cutoff) (k_dedup w)\<rparr>) }"

definition isDuplicate :: "string \<Rightarrow> bool wk" where
  "isDuplicate sid = do {
     now \<leftarrow> now_wk;
     seen \<leftarrow> reads (\<lambda>w. mget (k_dedup w) sid);
     case seen of
       Some _ \<Rightarrow> State_Monad.return True
     | None \<Rightarrow> do { modify (\<lambda>w. w\<lparr>k_dedup := mput sid now (k_dedup w)\<rparr>); State_Monad.return False } }"

definition Handler_Cancel :: "string \<Rightarrow> (error + unit) wk" where
  "Handler_Cancel sid = do {
     found \<leftarrow> reads (\<lambda>w. mget (k_cancels w) sid);
     case found of
       Some _ \<Rightarrow> do { modify (\<lambda>w. w\<lparr>k_cancelled := k_cancelled w @ [sid]\<rparr>); ret () }
     | None \<Rightarrow> raise (Errorf (''task not found or already completed: '' @ sid)) }"

definition RunningTasks :: "int wk" where
  "RunningTasks = reads k_running"

definition trimExecutionMessage :: "string \<Rightarrow> string" where
  "trimExecutionMessage v = take 1024 (TrimSpace v)"

definition task_env :: "ExecuteTaskRequest \<Rightarrow> (string, string) gomap" where
  "task_env req = [(''IDEMPOTENCY_KEY'', q_IdempotencyKey req), (''SHARD_NO'', itoa (q_ShardNo req)),
     (''SHARD_TOTAL'', itoa (q_ShardTotal req)), (''SCHEDULE_INSTANCE_ID'', q_ScheduleInstanceID req)]"

definition task_timeout :: "ExecuteTaskRequest \<Rightarrow> duration" where
  "task_timeout req = (let timeout = wrap64 (q_TimeoutSeconds req * second) in if timeout \<le> 0 then 300 * second else timeout)"

definition executeInSandbox :: "Handler \<Rightarrow> duration \<Rightarrow> ExecuteTaskRequest \<Rightarrow> (string \<times> exec_error option) wk" where
  "executeInSandbox h ctx req = do {
     made \<leftarrow> NewSandbox (hd_sandboxDir h) \<lparr>sc_MaxMemoryBytes = hd_maxMemBytes h, sc_MaxCPUPercent = 0,
       sc_Timeout = wrap64 (q_TimeoutSeconds req * second)\<rparr>;
     case made of
       Inl err \<Rightarrow> State_Monad.return ([], Some (ExecErr (error_text err)))
     | Inr sb \<Rightarrow> do {
         r \<leftarrow> ShellExec ctx sb (q_Payload req) (task_env req);
         _ \<leftarrow> Cleanup sb;
         State_Monad.return r } }"

definition zero_report :: "string \<Rightarrow> string \<Rightarrow> string \<Rightarrow> TaskStatusReportRequest" where
  "zero_report sid workerID status = \<lparr>sr_ScheduleInstanceID = sid, sr_WorkerID = workerID, sr_Status = status,
     sr_ErrorCode = [], sr_ErrorMessage = [], sr_StartedAt = [], sr_FinishedAt = []\<rparr>"

text \<open>The report an outcome is turned into.\<close>

definition outcome_report ::
  "Handler \<Rightarrow> ExecuteTaskRequest \<Rightarrow> string \<Rightarrow> exec_error option \<Rightarrow> TaskStatusReportRequest" where
  "outcome_report h req output execErr =
     (let statusReq = zero_report (q_ScheduleInstanceID req) (hd_workerID h) ''success'' in
      case execErr of
        Some err \<Rightarrow>
          (if is_deadline err then statusReq\<lparr>sr_Status := ''timeout'', sr_ErrorCode := ''timeout''\<rparr>
           else statusReq\<lparr>sr_Status := ''failed'', sr_ErrorCode := ''execute_failed''\<rparr>)\<lparr>sr_ErrorMessage := exec_text err\<rparr>
      | None \<Rightarrow> statusReq\<lparr>sr_ErrorMessage := output\<rparr>)"

text \<open>The report of the final status, buffered when it cannot be delivered.\<close>

definition deliver :: "Handler \<Rightarrow> string \<Rightarrow> TaskStatusReportRequest \<Rightarrow> unit wk" where
  "deliver h url statusReq = do {
     r \<leftarrow> Report (hd_reporter h) url statusReq;
     case r of
       Inl err \<Rightarrow> (if hd_localStore h then Buffer url statusReq else State_Monad.return ())
     | Inr _ \<Rightarrow> (if hd_localStore h then Store_Remove (sr_ScheduleInstanceID statusReq) else State_Monad.return ()) }"

text \<open>The choice between the sandbox and the plain execution, and what follows the execution.\<close>

definition run_task :: "Handler \<Rightarrow> ExecuteTaskRequest \<Rightarrow> (string \<times> exec_error option) wk" where
  "run_task h req =
     (if q_TaskType req = ''shell'' \<and> hd_sandboxDir h \<noteq> [] then executeInSandbox h (task_timeout req) req
      else Execute (task_timeout req) (q_TaskType req) (q_Payload req) (q_Image req) (task_env req))"

definition finish_run :: "Handler \<Rightarrow> ExecuteTaskRequest \<Rightarrow> time \<Rightarrow> string \<Rightarrow> exec_error option \<Rightarrow> unit wk" where
  "finish_run h req startedAt output execErr = do {
     let statusReq = outcome_report h req (trimExecutionMessage output) execErr;
     modify (\<lambda>w. w\<lparr>k_registry := IncCounter (k_unicode_print w) ''worker_executions_total''
       [(''status'', sr_Status statusReq)] (k_registry w)\<rparr>);
     finishedAt \<leftarrow> now_wk;
     let statusReq = statusReq\<lparr>sr_StartedAt := FormatRFC3339Nano (\<lambda>_. 0) startedAt,
       sr_FinishedAt := FormatRFC3339Nano (\<lambda>_. 0) finishedAt\<rparr>;
     deliver h (q_SchedulerURL req) statusReq }"

definition run_accepted :: "Handler \<Rightarrow> ExecuteTaskRequest \<Rightarrow> unit wk" where
  "run_accepted h req = do {
     modify (\<lambda>w. w\<lparr>k_running := k_running w + 1\<rparr>);
     _ \<leftarrow> Ack (hd_reporter h) (q_SchedulerURL req) (q_ScheduleInstanceID req) (hd_workerID h);
     _ \<leftarrow> Report (hd_reporter h) (q_SchedulerURL req) (zero_report (q_ScheduleInstanceID req) (hd_workerID h) ''running'');
     modify (\<lambda>w. w\<lparr>k_cancels := mput (q_ScheduleInstanceID req) () (k_cancels w)\<rparr>);
     startedAt \<leftarrow> now_wk;
     r \<leftarrow> run_task h req;
     finish_run h req startedAt (fst r) (snd r);
     modify (\<lambda>w. w\<lparr>k_cancels := mdel (q_ScheduleInstanceID req) (k_cancels w)\<rparr>);
     modify (\<lambda>w. w\<lparr>k_running := k_running w - 1\<rparr>) }"

definition run :: "Handler \<Rightarrow> ExecuteTaskRequest \<Rightarrow> unit wk" where
  "run h req = do {
     dup \<leftarrow> isDuplicate (q_ScheduleInstanceID req);
     if dup then State_Monad.return () else run_accepted h req }"

text \<open>The request of the gRPC service, as the adapter passes it on.\<close>

definition request_of_pb :: "PbExecuteTaskRequest \<Rightarrow> ExecuteTaskRequest" where
  "request_of_pb req = zero_ExecuteTaskRequest\<lparr>q_ScheduleInstanceID := pb_ScheduleInstanceId req,
     q_TaskID := pb_TaskId req, q_TaskType := pb_TaskType req, q_Payload := pb_Payload req,
     q_Image := pb_Image req, q_TimeoutSeconds := pb_TimeoutSeconds req, q_RetryCount := pb_RetryCount req,
     q_SchedulerURL := pb_SchedulerUrl req\<rparr>"

definition grpc_CancelTask :: "string \<Rightarrow> (error + bool) wk" where
  "grpc_CancelTask scheduleID =
     (if scheduleID = [] then raise (Errorf ''schedule_instance_id is required'')
      else do {
        r \<leftarrow> Handler_Cancel scheduleID;
        case r of Inl err \<Rightarrow> ret False | Inr _ \<Rightarrow> ret True })"

section \<open>Facts\<close>

text \<open>A valid string is stored as it is.\<close>

lemma json_text_valid: "valid_utf8 s \<Longrightarrow> json_text s = s"
proof (induction s rule: json_text.induct)
  case (1 s)
  then show ?case
    by (cases "s = [] \<or> utf8_len s = 0") (auto simp: json_text.simps [of s] valid_utf8.simps [of s] Let_def)
qed

lemma wrap32_id: "- (2 ^ 31) \<le> x \<Longrightarrow> x < 2 ^ 31 \<Longrightarrow> wrap32 x = x"
  by (simp add: wrap32_def)

lemma wp_now_wk [simp]: "wp now_wk Q w \<longleftrightarrow> Q (k_clock w (k_readings w)) (w\<lparr>k_readings := Suc (k_readings w)\<rparr>)"
  by (simp add: wp_def now_wk_def)

lemma wp_disk [simp]:
  "wp (disk f) Q w \<longleftrightarrow>
     (case k_disk w (k_disk_ops w) of
        Some err \<Rightarrow> Q (Inl err) (w\<lparr>k_disk_ops := Suc (k_disk_ops w)\<rparr>)
      | None \<Rightarrow> Q (Inr ()) (f (w\<lparr>k_disk_ops := Suc (k_disk_ops w)\<rparr>)))"
  by (simp add: disk_def split: option.split)

lemma wp_net [simp]:
  "wp (post_wk m) Q w \<longleftrightarrow> Q (k_http w (length (k_outbox w))) (w\<lparr>k_outbox := k_outbox w @ [m]\<rparr>)"
  "wp (call_wk m) R w \<longleftrightarrow> R (k_grpc w (length (k_outbox w))) (w\<lparr>k_outbox := k_outbox w @ [m]\<rparr>)"
  "wp (run_command cmd) S w \<longleftrightarrow> S (k_exec w (length (k_commands w))) (w\<lparr>k_commands := k_commands w @ [cmd]\<rparr>)"
  "wp (http_get u key ctx) U w \<longleftrightarrow> U (k_get w (length (k_commands w))) (w\<lparr>k_commands := k_commands w @ [HttpGet u key ctx]\<rparr>)"
  by (simp_all add: post_wk_def call_wk_def run_command_def http_get_def)

text \<open>
  A relation between the states before and after that every write of an operation keeps, the
  duplicate map apart. The operations keep it then, whatever the outside answers.
\<close>

locale worker_frame =
  fixes R :: "worker \<Rightarrow> worker \<Rightarrow> bool"
  assumes R_refl: "R w w"
    and R_trans: "R u v \<Longrightarrow> R v w \<Longrightarrow> R u w"
    and R_clock: "R w (w\<lparr>k_readings := Suc (k_readings w)\<rparr>)"
    and R_send: "R w (w\<lparr>k_outbox := k_outbox w @ [m]\<rparr>)"
    and R_start: "R w (w\<lparr>k_commands := k_commands w @ [c]\<rparr>)"
    and R_write: "R w (w\<lparr>k_disk_ops := n\<rparr>)" "R w (w\<lparr>k_files := z\<rparr>)" "R w (w\<lparr>k_cgroup := e\<rparr>)"
    and R_own: "R w (w\<lparr>k_registry := r\<rparr>)" "R w (w\<lparr>k_running := i\<rparr>)" "R w (w\<lparr>k_cancels := d\<rparr>)"
      "R w (w\<lparr>k_cancelled := b\<rparr>)"
begin

definition keeps :: "'b wk \<Rightarrow> bool" where
  "keeps m \<longleftrightarrow> (\<forall>w. wp m (\<lambda>_. R w) w)"

lemma keeps_bind: "keeps m \<Longrightarrow> (\<And>x. keeps (f x)) \<Longrightarrow> keeps (m \<bind> f)"
  unfolding keeps_def wp_bind by (blast intro: wp_mono R_trans)

lemma keeps_pure:
  "keeps (State_Monad.return x)" "keeps (reads g)" "keeps (raise e)" "keeps (ret y)"
  by (simp_all add: keeps_def R_refl)

lemma keeps_modify: "(\<And>w. R w (f w)) \<Longrightarrow> keeps (modify f)"
  by (simp add: keeps_def)

lemma keeps_outside:
  "keeps now_wk" "keeps (post_wk m)" "keeps (call_wk m)" "keeps (run_command c)" "keeps (http_get u k t)"
  by (simp_all add: keeps_def R_clock R_send R_start)

lemma keeps_disk: "(\<And>w. R w (f w)) \<Longrightarrow> keeps (disk f)"
  unfolding disk_def by (auto intro!: keeps_bind keeps_pure keeps_modify R_write split: option.split)

lemmas kept = keeps_bind keeps_pure keeps_modify keeps_outside keeps_disk R_refl R_write R_own

lemma keeps_Report: "keeps (Report c url sr)"
  by (auto simp: Report_def reportGRPC_def reportHTTP_def Let_def intro!: kept split: option.split sum.split)

lemma keeps_Ack: "keeps (Ack c url sid wid)"
  by (auto simp: Ack_def Let_def intro!: kept split: option.split sum.split)

lemma keeps_Execute: "keeps (Execute ctx k p i e)"
  by (auto simp: Execute_def Let_def intro!: kept split: option.split sum.split)

lemma keeps_executeInSandbox: "keeps (executeInSandbox h ctx req)"
  by (auto simp: executeInSandbox_def NewSandbox_def ShellExec_def Cleanup_def applyResourceLimits_def
      write_cgroup_def Let_def intro!: kept split: option.split sum.split)

lemma keeps_run_task: "keeps (run_task h req)"
  by (simp add: run_task_def keeps_executeInSandbox keeps_Execute)

lemma keeps_deliver: "keeps (deliver h url sr)"
  by (auto simp: deliver_def Buffer_def Store_Remove_def remove_file_def Let_def
      intro!: kept keeps_Report split: sum.split)

lemma keeps_finish_run: "keeps (finish_run h req t out err)"
  by (auto simp: finish_run_def Let_def intro!: kept keeps_deliver)

lemma keeps_run_accepted: "keeps (run_accepted h req)"
  by (auto simp: run_accepted_def intro!: kept keeps_Ack keeps_Report keeps_run_task keeps_finish_run)

lemma keeps_flush_one: "keeps (flush_one c name)"
  by (auto simp: flush_one_def flush_report_def remove_file_def intro!: kept keeps_Report
      split: option.split sum.split prod.split)

lemma keeps_flush_loop: "keeps (flush_loop c names n)"
  by (induction names arbitrary: n) (auto intro!: kept keeps_flush_one)

lemma keeps_Flush: "keeps (Flush c)"
  by (auto simp: Flush_def intro!: kept keeps_flush_loop split: sum.split)

lemma keeps_Cancel: "keeps (Handler_Cancel sid)"
  by (auto simp: Handler_Cancel_def intro!: kept split: option.split)

lemma keepsD: "keeps m \<Longrightarrow> R w (snd (run_state m w))"
  by (simp add: keeps_def wp_def split_beta)

lemma keeps_wp: "keeps m \<Longrightarrow> wp m (\<lambda>_. R w) w"
  by (simp add: keeps_def)

end

text \<open>What no operation but the duplicate test and the eviction touches.\<close>

definition same_seen :: "worker \<Rightarrow> worker \<Rightarrow> bool" where
  "same_seen w w' \<longleftrightarrow> k_dedup w' = k_dedup w \<and> k_clock w' = k_clock w \<and> k_readings w \<le> k_readings w'"

interpretation seen: worker_frame same_seen
  by unfold_locales (auto simp: same_seen_def)

section \<open>Duplicates\<close>

text \<open>What the goroutines of a worker do, in some order.\<close>

datatype wk_op = RunOp ExecuteTaskRequest | FlushOp | CancelOp string | EvictOp

definition perform :: "Handler \<Rightarrow> duration \<Rightarrow> wk_op \<Rightarrow> worker \<Rightarrow> worker" where
  "perform h ttl op w = (case op of
      RunOp req \<Rightarrow> snd (run_state (run h req) w)
    | FlushOp \<Rightarrow> snd (run_state (Flush (hd_reporter h)) w)
    | CancelOp sid \<Rightarrow> snd (run_state (Handler_Cancel sid) w)
    | EvictOp \<Rightarrow> snd (run_state (evict_dedup ttl) w))"

definition remembers :: "string \<Rightarrow> time \<Rightarrow> worker \<Rightarrow> bool" where
  "remembers sid seen w \<longleftrightarrow> mget (k_dedup w) sid = Some seen \<and> wf_map (k_dedup w)"

text \<open>The time read up to some state is not past a bound.\<close>

definition clock_before :: "time \<Rightarrow> worker \<Rightarrow> bool" where
  "clock_before t w \<longleftrightarrow> (\<forall>n < k_readings w. k_clock w n \<le> t)"

lemma remembers_seen: "remembers sid seen w \<Longrightarrow> same_seen w w' \<Longrightarrow> remembers sid seen w'"
  by (simp add: remembers_def same_seen_def)

lemma wf_map_filter: "wf_map m \<Longrightarrow> wf_map (filter P m)"
  by (simp add: wf_map_def distinct_map_filter)

lemma mget_filter: "wf_map m \<Longrightarrow> mget m k = Some v \<Longrightarrow> P (k, v) \<Longrightarrow> mget (filter P m) k = Some v"
  using wf_map_filter [of m P] by (auto simp: wf_map_def)

lemma perform_clock: "k_clock (perform h ttl op w) = k_clock w \<and> k_readings w \<le> k_readings (perform h ttl op w)"
proof (cases op)
  case (RunOp req)
  have "wp (run h req) (\<lambda>_ w'. k_clock w' = k_clock w \<and> k_readings w \<le> k_readings w') w"
  proof (cases "mget (k_dedup w) (q_ScheduleInstanceID req)")
    case None
    then show ?thesis
      by (simp add: run_def isDuplicate_def)
        (rule wp_mono [OF seen.keeps_wp [OF seen.keeps_run_accepted]], simp add: same_seen_def)
  qed (simp add: run_def isDuplicate_def)
  with RunOp show ?thesis by (simp add: perform_def wp_def split_beta)
next
  case EvictOp
  have "wp (evict_dedup ttl) (\<lambda>_ w'. k_clock w' = k_clock w \<and> k_readings w \<le> k_readings w') w"
    by (simp add: evict_dedup_def Let_def)
  with EvictOp show ?thesis by (simp add: perform_def wp_def split_beta)
qed (use seen.keepsD [OF seen.keeps_Flush] seen.keepsD [OF seen.keeps_Cancel] in \<open>simp_all add: perform_def same_seen_def\<close>)

lemma perform_remembers:
  assumes "remembers sid seen w" "0 < ttl" "clock_before (seen + ttl) (perform h ttl op w)"
  shows "remembers sid seen (perform h ttl op w)"
proof (cases op)
  case (RunOp req)
  let ?w = "w\<lparr>k_readings := Suc (k_readings w)\<rparr>"
  have "wp (run h req) (\<lambda>_ w'. remembers sid seen w') w"
  proof (cases "mget (k_dedup w) (q_ScheduleInstanceID req)")
    case None
    with assms(1) have "remembers sid seen (?w\<lparr>k_dedup := mput (q_ScheduleInstanceID req) (k_clock w (k_readings w)) (k_dedup w)\<rparr>)"
      by (auto simp: remembers_def)
    then show ?thesis
      using None by (simp add: run_def isDuplicate_def)
        (rule wp_mono [OF seen.keeps_wp [OF seen.keeps_run_accepted]], rule remembers_seen)
  next
    case (Some t)
    then show ?thesis using assms(1) by (simp add: run_def isDuplicate_def remembers_def)
  qed
  then show ?thesis by (simp add: perform_def RunOp wp_def split_beta)
next
  case EvictOp
  have step: "wp (evict_dedup ttl) (\<lambda>_ w'. k_readings w' = Suc (k_readings w) \<and> k_clock w' = k_clock w) w"
    by (simp add: evict_dedup_def Let_def)
  then have "\<not> seen < k_clock w (k_readings w) - ttl"
    using assms(3) EvictOp by (auto simp: perform_def wp_def split_beta clock_before_def)
  with assms(1,2) have "wp (evict_dedup ttl) (\<lambda>_ w'. remembers sid seen w') w"
    by (simp add: evict_dedup_def Let_def remembers_def wf_map_filter mget_filter)
  with EvictOp show ?thesis by (simp add: perform_def wp_def split_beta)
qed (use assms(1) remembers_seen seen.keepsD [OF seen.keeps_Flush] seen.keepsD [OF seen.keeps_Cancel]
  in \<open>auto simp: perform_def\<close>)

lemma fold_clock:
  "k_clock (fold (perform h ttl) ops w) = k_clock w \<and> k_readings w \<le> k_readings (fold (perform h ttl) ops w)"
proof (induction ops arbitrary: w)
  case (Cons op ops)
  then show ?case using perform_clock [of h ttl op w] by (auto intro: order_trans)
qed simp

lemma fold_remembers:
  assumes "remembers sid seen w" "0 < ttl" "clock_before (seen + ttl) (fold (perform h ttl) ops w)"
  shows "remembers sid seen (fold (perform h ttl) ops w)"
  using assms(1,3)
proof (induction ops arbitrary: w)
  case (Cons op ops)
  let ?w = "perform h ttl op w"
  have "clock_before (seen + ttl) ?w"
    using Cons.prems(2) fold_clock [of h ttl ops ?w] by (auto simp: clock_before_def)
  then have "remembers sid seen ?w" by (rule perform_remembers [OF Cons.prems(1) assms(2)])
  with Cons show ?case by simp
qed simp


text \<open>A worker whose scheduler cannot be reached and whose commands succeed.\<close>

definition lone_worker :: worker where
  "lone_worker = \<lparr>k_clock = (\<lambda>n. int n * second), k_readings = 0, k_unicode_print = (\<lambda>_. False),
     k_url_error = (\<lambda>_. None), k_http = (\<lambda>_. Inl (Errorf ''refused'')), k_grpc = (\<lambda>_. Inl (Errorf ''refused'')),
     k_outbox = [], k_exec = (\<lambda>_. (''done'', None)), k_get = (\<lambda>_. Inr (200, ''200 OK'', [])), k_commands = [],
     k_tempdir = (\<lambda>_. ''/tmp/t''), k_path = ''/bin'', k_pid = 1, k_cgroup = [], k_disk = (\<lambda>_. None), k_disk_ops = 0,
     k_files = [], k_registry = NewRegistry, k_running = 0, k_dedup = [], k_cancels = [], k_cancelled = []\<rparr>"

definition lone_handler :: Handler where
  "lone_handler = \<lparr>hd_workerID = ''w1'', hd_reporter = NewReportClient ''HTTP'' False, hd_sandboxDir = [],
     hd_maxMemBytes = 0, hd_localStore = True\<rparr>"


section \<open>Delivery\<close>

text \<open>The scheduler took the report, as a message of the worker.\<close>

definition taken :: "worker \<Rightarrow> TaskStatusReportRequest \<Rightarrow> bool" where
  "taken w sr \<longleftrightarrow> (\<exists>n < length (k_outbox w).
     (\<exists>url code status. k_outbox w ! n = ReportHTTP url sr \<and> k_http w n = Inr (code, status) \<and> code < 300) \<or>
     (\<exists>message. k_outbox w ! n = ReportGRPC (pb_of_status sr) \<and> k_grpc w n = Inr (True, message)))"

definition extends :: "worker \<Rightarrow> worker \<Rightarrow> bool" where
  "extends w w' \<longleftrightarrow> (\<exists>ms. k_outbox w' = k_outbox w @ ms) \<and> k_http w' = k_http w \<and> k_grpc w' = k_grpc w \<and> k_disk w' = k_disk w"

lemma extends_simps [simp]:
  "extends w w" "extends w (v\<lparr>k_readings := n\<rparr>) = extends w v" "extends w (v\<lparr>k_disk_ops := n\<rparr>) = extends w v"
  "extends w (v\<lparr>k_files := z\<rparr>) = extends w v"
  by (simp_all add: extends_def)

lemma extends_trans: "extends u v \<Longrightarrow> extends v w \<Longrightarrow> extends u w"
  by (auto simp: extends_def)

lemma taken_extends: "taken w sr \<Longrightarrow> extends w w' \<Longrightarrow> taken w' sr"
  unfolding taken_def extends_def by (auto simp: nth_append intro: trans_less_add1) (metis trans_less_add1)+

lemma takenI:
  "k_outbox w = ms @ [ReportHTTP url sr] \<Longrightarrow> k_http w (length ms) = Inr (code, status) \<Longrightarrow> code < 300 \<Longrightarrow> taken w sr"
  "k_outbox w = ms @ [ReportGRPC (pb_of_status sr)] \<Longrightarrow> k_grpc w (length ms) = Inr (True, message) \<Longrightarrow> taken w sr"
  by (auto simp: taken_def intro!: exI [of _ "length ms"])

lemma Report_taken:
  "wp (Report c url sr) (\<lambda>r w'. extends w w' \<and> k_files w' = k_files w \<and> k_clock w' = k_clock w \<and> k_disk_ops w' = k_disk_ops w \<and>
     (\<forall>u. r = Inr u \<longrightarrow> taken w' sr)) w"
proof -
  have http: "k_http w (length (k_outbox w)) = Inr (a, b) \<Longrightarrow> a < 300 \<Longrightarrow>
      taken (w\<lparr>k_outbox := k_outbox w @ [ReportHTTP u sr]\<rparr>) sr" for u a b
    by (rule takenI(1) [where ms = "k_outbox w"]) simp_all
  have grpc: "k_grpc w (length (k_outbox w)) = Inr (True, b) \<Longrightarrow>
      taken (w\<lparr>k_outbox := k_outbox w @ [ReportGRPC (pb_of_status sr)]\<rparr>) sr" for b
    by (rule takenI(2) [where ms = "k_outbox w"]) simp_all
  show ?thesis
    by (auto simp: Report_def reportGRPC_def reportHTTP_def extends_def wps Let_def not_le http grpc
        split: option.split sum.split prod.split)
qed

text \<open>No call of the file system fails.\<close>

definition disk_ok :: "worker \<Rightarrow> bool" where
  "disk_ok w \<longleftrightarrow> (\<forall>n. k_disk w n = None)"

lemma disk_ok_extends: "disk_ok w \<Longrightarrow> extends w w' \<Longrightarrow> disk_ok w'"
  by (simp add: disk_ok_def extends_def)

text \<open>
  A report is safe: the scheduler took it, or it is in the local store under its schedule id.
\<close>

definition safe_report :: "worker \<Rightarrow> string \<Rightarrow> TaskStatusReportRequest \<Rightarrow> bool" where
  "safe_report w url sr \<longleftrightarrow> taken w sr \<or>
     (\<exists>t. mget (k_files w) (report_file (sr_ScheduleInstanceID sr)) =
        Some (Some \<lparr>st_SchedulerURL = json_text url, st_Report = json_report sr, st_StoredAt = t\<rparr>))"

lemma deliver_safe:
  assumes "disk_ok w" "hd_localStore h"
  shows "wp (deliver h url sr) (\<lambda>_ w'. safe_report w' url sr) w"
  unfolding deliver_def wp_bind
proof (rule wp_mono [OF Report_taken], elim conjE)
  fix r :: "error + unit" and w1
  assume 1: "extends w w1" "\<forall>u. r = Inr u \<longrightarrow> taken w1 sr"
  have d: "k_disk w1 n = None" for n using disk_ok_extends [OF assms(1) 1(1)] by (simp add: disk_ok_def)
  have t: "taken w1 sr \<Longrightarrow> taken (w1\<lparr>k_disk_ops := n, k_files := z\<rparr>) sr" for n z
    by (erule taken_extends) (simp add: extends_def)
  show "wp (case r of Inl err \<Rightarrow> if hd_localStore h then Buffer url sr else State_Monad.return ()
      | Inr _ \<Rightarrow> if hd_localStore h then Store_Remove (sr_ScheduleInstanceID sr) else State_Monad.return ())
      (\<lambda>_ w'. safe_report w' url sr) w1"
    using 1(2) assms(2) d t
    by (cases r) (auto simp: Buffer_def Store_Remove_def remove_file_def Let_def safe_report_def)
qed

text \<open>What a flush of some files has done so far.\<close>

definition flushed :: "string set \<Rightarrow> worker \<Rightarrow> worker \<Rightarrow> bool" where
  "flushed S w w' \<longleftrightarrow> extends w w' \<and> (\<forall>name. mget (k_files w') name = mget (k_files w) name \<or>
     name \<in> S \<and> mget (k_files w') name = None \<and>
       (\<forall>sr. mget (k_files w) name = Some (Some sr) \<longrightarrow> taken w' (st_Report sr)))"

lemma flushed_trans:
  assumes "flushed S u v" "flushed S v w"
  shows "flushed S u w"
  unfolding flushed_def
proof (intro conjI allI)
  show "extends u w" using assms extends_trans by (auto simp: flushed_def)
  fix name
  have "taken v sr \<Longrightarrow> taken w sr" for sr using assms(2) taken_extends by (auto simp: flushed_def)
  with assms show "mget (k_files w) name = mget (k_files u) name \<or> name \<in> S \<and> mget (k_files w) name = None \<and>
      (\<forall>sr. mget (k_files u) name = Some (Some sr) \<longrightarrow> taken w (st_Report sr))"
    unfolding flushed_def by metis
qed

lemma flushed_mono: "flushed S u v \<Longrightarrow> S \<subseteq> S' \<Longrightarrow> flushed S' u v"
  unfolding flushed_def by blast

lemma flush_one_flushed:
  assumes "disk_ok w" "mget (k_files w) name \<noteq> None"
  shows "wp (flush_one c name) (\<lambda>n w'. flushed {name} w w' \<and> n = (if mget (k_files w') name = None then 0 else 1)) w"
proof -
  have d: "k_disk w n = None" for n using assms(1) by (simp add: disk_ok_def)
  let ?w = "w\<lparr>k_disk_ops := Suc (k_disk_ops w)\<rparr>"
  from assms(2) obtain content where c: "mget (k_files w) name = Some content" by auto
  show ?thesis
  proof (cases content)
    case None
    with c d show ?thesis
      by (simp add: flush_one_def remove_file_def flushed_def)
  next
    case (Some sr)
    have "wp (flush_report c name sr) (\<lambda>n w'. flushed {name} w w' \<and> n = (if mget (k_files w') name = None then 0 else 1)) ?w"
      unfolding flush_report_def wp_bind
    proof (rule wp_mono [OF Report_taken], elim conjE)
      fix r :: "error + unit" and w1
      assume 1: "extends ?w w1" "k_files w1 = k_files ?w" "\<forall>u. r = Inr u \<longrightarrow> taken w1 (st_Report sr)"
      have e: "extends w w1" using 1(1) by (simp add: extends_def)
      have d1: "k_disk w1 n = None" for n using e d by (simp add: extends_def)
      have t: "taken w1 x \<Longrightarrow> taken (w1\<lparr>k_disk_ops := n, k_files := z\<rparr>) x" for n z x
        by (erule taken_extends) (simp add: extends_def)
      show "wp (case r of Inl err \<Rightarrow> State_Monad.return 1
          | Inr _ \<Rightarrow> do { _ \<leftarrow> remove_file name; State_Monad.return 0 })
          (\<lambda>n w'. flushed {name} w w' \<and> n = (if mget (k_files w') name = None then 0 else 1)) w1"
        using 1(2,3) e d1 t c Some by (cases r) (auto simp: flushed_def remove_file_def)
    qed
    with c d Some show ?thesis by (simp add: flush_one_def)
  qed
qed

lemma flush_loop_flushed:
  assumes "disk_ok w" "distinct names" "\<forall>name \<in> set names. mget (k_files w) name \<noteq> None"
  shows "wp (flush_loop c names m) (\<lambda>n w'. flushed (set names) w w' \<and>
    n = m + int (card {name \<in> set names. mget (k_files w') name \<noteq> None})) w"
  using assms
proof (induction names arbitrary: w m)
  case Nil
  then show ?case by (simp add: flushed_def)
next
  case (Cons name names)
  have here: "mget (k_files w) name \<noteq> None" using Cons.prems(3) by simp
  show ?case
    unfolding flush_loop.simps wp_bind
  proof (rule wp_mono [OF flush_one_flushed [OF Cons.prems(1) here]], elim conjE)
    fix n :: int and w1
    assume 1: "flushed {name} w w1" "n = (if mget (k_files w1) name = None then 0 else 1)"
    have ok1: "disk_ok w1" using 1(1) Cons.prems(1) disk_ok_extends by (auto simp: flushed_def)
    have rest: "\<forall>x \<in> set names. mget (k_files w1) x \<noteq> None" "distinct names"
      using 1(1) Cons.prems(2,3) by (auto simp: flushed_def) metis
    show "wp (flush_loop c names (m + n)) (\<lambda>n w'. flushed (set (name # names)) w w' \<and>
        n = m + int (card {x \<in> set (name # names). mget (k_files w') x \<noteq> None})) w1"
    proof (rule wp_mono [OF Cons.IH [OF ok1 rest(2,1)]], elim conjE)
      fix k :: int and w'
      assume 2: "flushed (set names) w1 w'" "k = m + n + int (card {x \<in> set names. mget (k_files w') x \<noteq> None})"
      have "flushed (set (name # names)) w w'"
        by (rule flushed_trans [OF flushed_mono [OF 1(1)] flushed_mono [OF 2(1)]]) auto
      moreover have "mget (k_files w') name = mget (k_files w1) name"
        using 2(1) Cons.prems(2) by (auto simp: flushed_def)
      then have "{x \<in> set (name # names). mget (k_files w') x \<noteq> None} =
          (if mget (k_files w1) name = None then {} else {name}) \<union> {x \<in> set names. mget (k_files w') x \<noteq> None}"
        by auto
      then have "int (card {x \<in> set (name # names). mget (k_files w') x \<noteq> None}) =
          n + int (card {x \<in> set names. mget (k_files w') x \<noteq> None})"
        using Cons.prems(2) 1(2) by (simp add: card_insert_if)
      ultimately show "flushed (set (name # names)) w w' \<and>
          k = m + int (card {x \<in> set (name # names). mget (k_files w') x \<noteq> None})"
        using 2(2) by simp
    qed
  qed
qed

text \<open>The same for a run: it keeps what was sent, and no call of the file system comes to fail.\<close>

interpretation sent: worker_frame extends
  by unfold_locales (auto simp: extends_def)

definition final_status :: "string \<Rightarrow> bool" where
  "final_status s \<longleftrightarrow> s = ''success'' \<or> s = ''failed'' \<or> s = ''timeout''"

lemma finish_run_safe:
  assumes "disk_ok w" "hd_localStore h"
  shows "wp (finish_run h req t out err) (\<lambda>_ w'. \<exists>sr. safe_report w' (q_SchedulerURL req) sr \<and>
    sr_ScheduleInstanceID sr = q_ScheduleInstanceID req \<and> sr_WorkerID sr = hd_workerID h \<and> final_status (sr_Status sr)) w"
proof -
  let ?o = "outcome_report h req (trimExecutionMessage out) err"
  let ?r = "\<lambda>f. ?o\<lparr>sr_StartedAt := FormatRFC3339Nano (\<lambda>_. 0) t, sr_FinishedAt := FormatRFC3339Nano (\<lambda>_. 0) f\<rparr>"
  have o: "sr_ScheduleInstanceID ?o = q_ScheduleInstanceID req" "sr_WorkerID ?o = hd_workerID h" "final_status (sr_Status ?o)"
    by (auto simp: outcome_report_def zero_report_def final_status_def Let_def split: option.split)
  show ?thesis
    unfolding finish_run_def Let_def wp_bind wp_modify wp_now_wk
    by (rule wp_mono [OF deliver_safe [OF _ assms(2)]]) (use assms(1) o in \<open>auto simp: disk_ok_def\<close>)
qed

lemma run_accepted_safe:
  assumes "disk_ok w" "hd_localStore h"
  shows "wp (run_accepted h req) (\<lambda>_ w'. \<exists>sr. safe_report w' (q_SchedulerURL req) sr \<and>
    sr_ScheduleInstanceID sr = q_ScheduleInstanceID req \<and> sr_WorkerID sr = hd_workerID h \<and> final_status (sr_Status sr)) w"
proof -
  let ?Q = "\<lambda>_ w'. \<exists>sr. safe_report w' (q_SchedulerURL req) sr \<and>
    sr_ScheduleInstanceID sr = q_ScheduleInstanceID req \<and> sr_WorkerID sr = hd_workerID h \<and> final_status (sr_Status sr)"
  have safe: "safe_report (v\<lparr>k_cancels := d, k_running := i\<rparr>) url sr \<longleftrightarrow> safe_report v url sr" for v d i url sr
    by (simp add: safe_report_def taken_def)
  have fin: "disk_ok v \<Longrightarrow> wp (finish_run h req t (fst r) (snd r)) (\<lambda>_ v'. ?Q () (v'\<lparr>k_cancels := mdel (q_ScheduleInstanceID req) (k_cancels v'),
      k_running := k_running v' - 1\<rparr>)) v" for v t r
    using finish_run_safe [OF _ assms(2)] by (simp add: safe)
  have ok: "wp m (\<lambda>_. disk_ok) v" if "sent.keeps m" "disk_ok v" for m :: "'b wk" and v
    by (rule wp_mono [OF sent.keeps_wp [OF that(1)]]) (rule disk_ok_extends [OF that(2)])
  show ?thesis
    unfolding run_accepted_def wp_bind wp_modify wp_now_wk
    apply (rule wp_mono [OF ok [OF sent.keeps_Ack]])
     apply (use assms(1) in \<open>simp add: disk_ok_def\<close>)
    apply (rule wp_mono [OF ok [OF sent.keeps_Report]], assumption)
    apply (rule wp_mono [OF ok [OF sent.keeps_run_task]])
     apply (simp add: disk_ok_def)
    using fin by simp
qed





section \<open>The wire\<close>

text \<open>
  What the gRPC messages carry: a request with counts in the range of 32 bits reaches the worker's
  handler as it was sent, less its shard number, shard total and idempotency key; a status report
  reaches the runtime service less the times of start and finish.
\<close>

theorem grpc_carries:
  assumes "- (2 ^ 31) \<le> q_TimeoutSeconds req" "q_TimeoutSeconds req < 2 ^ 31"
    and "- (2 ^ 31) \<le> q_RetryCount req" "q_RetryCount req < 2 ^ 31"
  shows "request_of_pb (pb_request req) = req\<lparr>q_ShardNo := 0, q_ShardTotal := 0, q_IdempotencyKey := []\<rparr> \<and>
    status_of_pb (pb_of_status sr) = sr\<lparr>sr_StartedAt := [], sr_FinishedAt := []\<rparr>"
  using assms
  by (simp add: request_of_pb_def pb_request_def zero_ExecuteTaskRequest_def wrap32_id status_of_pb_def pb_of_status_def)

theorem grpc_carries_witness:
  "request_of_pb (pb_request (zero_ExecuteTaskRequest\<lparr>q_TimeoutSeconds := 30, q_ShardNo := 2, q_ShardTotal := 4\<rparr>)) =
     zero_ExecuteTaskRequest\<lparr>q_TimeoutSeconds := 30\<rparr> \<and>
   status_of_pb (pb_of_status (zero_report ''s1'' ''w1'' ''success''\<lparr>sr_StartedAt := ''x''\<rparr>)) = zero_report ''s1'' ''w1'' ''success''"
  using grpc_carries [of "zero_ExecuteTaskRequest\<lparr>q_TimeoutSeconds := 30, q_ShardNo := 2, q_ShardTotal := 4\<rparr>"
      "zero_report ''s1'' ''w1'' ''success''\<lparr>sr_StartedAt := ''x''\<rparr>"]
  by (simp add: zero_ExecuteTaskRequest_def zero_report_def)

end
