(* ===== verification/Rows.thy ===== *)
theory Rows
  imports Model
begin

text \<open>
  The rows of the MySQL store (\<^verbatim>\<open>internal/repo/mysql\<close>) and the conversions between them and the domain
  records. A nullable column is an option. What the database does with a row is not modelled here;
  the conversions are what every one of its repositories writes and reads through.
\<close>

section \<open>Rows\<close>

definition timeOrNil :: "time \<Rightarrow> time option" where
  "timeOrNil t = (if IsZero t then None else Some t)"

record taskRow =
  tr_ID :: int
  tr_Name :: string
  tr_Type :: string
  tr_CronExpr :: string
  tr_Payload :: string
  tr_Image :: string
  tr_Status :: string
  tr_TimeoutSeconds :: int
  tr_MaxRetry :: int
  tr_RetryPolicy :: string
  tr_RetryOnErrors :: string
  tr_RouteStrategy :: string
  tr_Labels :: string
  tr_NextTriggerTime :: "time option"
  tr_TenantID :: int
  tr_Version :: int
  tr_CreatedAt :: time
  tr_UpdatedAt :: time

record taskInstanceRow =
  ir_ID :: int
  ir_TaskID :: int
  ir_ScheduleInstanceID :: string
  ir_TriggerTime :: time
  ir_DispatchTime :: "time option"
  ir_StartedAt :: "time option"
  ir_FinishedAt :: "time option"
  ir_WorkerID :: string
  ir_Status :: string
  ir_RetryCount :: int
  ir_ErrorCode :: string
  ir_ErrorMessage :: string
  ir_AnalysisJSON :: string
  ir_TraceID :: string
  ir_NextRetryTime :: "time option"
  ir_CreatedAt :: time
  ir_UpdatedAt :: time

record workerNodeRow =
  nr_ID :: string
  nr_Hostname :: string
  nr_IP :: string
  nr_CallbackURL :: string
  nr_GRPCAddr :: string
  nr_Protocol :: string
  nr_Status :: string
  nr_Labels :: string
  nr_MaxConcurrency :: int
  nr_CurrentLoad :: int
  nr_LastHeartbeatAt :: time

definition taskToRow :: "Task \<Rightarrow> taskRow" where
  "taskToRow task = \<lparr>tr_ID = t_ID task, tr_Name = t_Name task, tr_Type = t_Type task, tr_CronExpr = t_CronExpr task,
     tr_Payload = t_Payload task, tr_Image = t_Image task, tr_Status = t_Status task,
     tr_TimeoutSeconds = t_TimeoutSeconds task, tr_MaxRetry = t_MaxRetry task,
     tr_RetryPolicy = t_RetryPolicy task, tr_RetryOnErrors = t_RetryOnErrors task,
     tr_RouteStrategy = t_RouteStrategy task, tr_Labels = t_Labels task,
     tr_NextTriggerTime = timeOrNil (t_NextTriggerTime task), tr_TenantID = t_TenantID task,
     tr_Version = t_Version task, tr_CreatedAt = t_CreatedAt task, tr_UpdatedAt = t_UpdatedAt task\<rparr>"

definition rowToTask :: "taskRow \<Rightarrow> Task" where
  "rowToTask row = zero_Task\<lparr>t_ID := tr_ID row, t_Name := tr_Name row, t_Type := tr_Type row, t_CronExpr := tr_CronExpr row,
     t_Payload := tr_Payload row, t_Image := tr_Image row, t_Status := tr_Status row,
     t_TimeoutSeconds := tr_TimeoutSeconds row, t_MaxRetry := tr_MaxRetry row,
     t_RetryPolicy := tr_RetryPolicy row, t_RetryOnErrors := tr_RetryOnErrors row,
     t_RouteStrategy := tr_RouteStrategy row, t_Labels := tr_Labels row,
     t_NextTriggerTime := the_default zero_time (tr_NextTriggerTime row), t_TenantID := tr_TenantID row,
     t_Version := tr_Version row, t_CreatedAt := tr_CreatedAt row, t_UpdatedAt := tr_UpdatedAt row\<rparr>"

definition taskInstanceToRow :: "TaskInstance \<Rightarrow> taskInstanceRow" where
  "taskInstanceToRow inst = \<lparr>ir_ID = i_ID inst, ir_TaskID = i_TaskID inst, ir_ScheduleInstanceID = i_ScheduleInstanceID inst,
     ir_TriggerTime = i_TriggerTime inst, ir_DispatchTime = timeOrNil (i_DispatchTime inst),
     ir_StartedAt = timeOrNil (i_StartedAt inst), ir_FinishedAt = timeOrNil (i_FinishedAt inst),
     ir_WorkerID = i_WorkerID inst, ir_Status = i_Status inst, ir_RetryCount = i_RetryCount inst,
     ir_ErrorCode = i_ErrorCode inst, ir_ErrorMessage = i_ErrorMessage inst,
     ir_AnalysisJSON = i_AnalysisJSON inst, ir_TraceID = i_TraceID inst,
     ir_NextRetryTime = timeOrNil (i_NextRetryTime inst), ir_CreatedAt = i_CreatedAt inst,
     ir_UpdatedAt = i_UpdatedAt inst\<rparr>"

definition rowToTaskInstance :: "taskInstanceRow \<Rightarrow> TaskInstance" where
  "rowToTaskInstance row = zero_TaskInstance\<lparr>i_ID := ir_ID row, i_TaskID := ir_TaskID row, i_ScheduleInstanceID := ir_ScheduleInstanceID row,
     i_TriggerTime := ir_TriggerTime row, i_DispatchTime := the_default zero_time (ir_DispatchTime row),
     i_StartedAt := the_default zero_time (ir_StartedAt row),
     i_FinishedAt := the_default zero_time (ir_FinishedAt row), i_WorkerID := ir_WorkerID row,
     i_Status := ir_Status row, i_RetryCount := ir_RetryCount row, i_ErrorCode := ir_ErrorCode row,
     i_ErrorMessage := ir_ErrorMessage row, i_AnalysisJSON := ir_AnalysisJSON row,
     i_TraceID := ir_TraceID row, i_NextRetryTime := the_default zero_time (ir_NextRetryTime row),
     i_CreatedAt := ir_CreatedAt row, i_UpdatedAt := ir_UpdatedAt row\<rparr>"

definition rowToWorker :: "workerNodeRow \<Rightarrow> WorkerNode" where
  "rowToWorker row = zero_WorkerNode\<lparr>w_ID := nr_ID row, w_Hostname := nr_Hostname row, w_IP := nr_IP row,
     w_CallbackURL := nr_CallbackURL row, w_GRPCAddr := nr_GRPCAddr row, w_Protocol := nr_Protocol row,
     w_Status := nr_Status row, w_Labels := nr_Labels row, w_MaxConcurrency := nr_MaxConcurrency row,
     w_CurrentLoad := nr_CurrentLoad row, w_LastHeartbeatAt := nr_LastHeartbeatAt row\<rparr>"

section \<open>Writing and reading back\<close>

text \<open>
  A codec that keeps a part of a record, \<open>part\<close>, and only that part.
\<close>

locale row_codec =
  fixes to_row :: "'a \<Rightarrow> 'r" and of_row :: "'r \<Rightarrow> 'a" and part :: "'a \<Rightarrow> 'a"
  assumes of_to: "of_row (to_row x) = part x"
    and to_part: "to_row (part x) = to_row x"
begin

lemma part_idem: "part (part x) = part x"
  by (metis of_to to_part)

lemma same_row_iff: "to_row x = to_row y \<longleftrightarrow> part x = part y"
  by (metis of_to to_part)

text \<open>However often a record is written and read, it is the part that is read.\<close>

lemma cycles: "((\<lambda>x. of_row (to_row x)) ^^ Suc n) x = part x"
  by (induction n) (simp_all add: of_to part_idem)

end

definition stored_task :: "Task \<Rightarrow> Task" where
  "stored_task t = t\<lparr>t_RetryIntervalSeconds := 0, t_RetryWindowSeconds := 0, t_TotalShards := 0,
     t_IdempotencyKey := [], t_TriggerType := [], t_EventName := []\<rparr>"

definition stored_instance :: "TaskInstance \<Rightarrow> TaskInstance" where
  "stored_instance i = i\<lparr>i_ShardNo := 0, i_ShardTotal := 0\<rparr>"

lemma timeOrNil_default [simp]: "the_default zero_time (timeOrNil t) = t"
  by (simp add: timeOrNil_def)

interpretation task_codec: row_codec taskToRow rowToTask stored_task
  by unfold_locales (simp_all add: taskToRow_def rowToTask_def stored_task_def zero_Task_def)

interpretation instance_codec: row_codec taskInstanceToRow rowToTaskInstance stored_instance
  by unfold_locales (simp_all add: taskInstanceToRow_def rowToTaskInstance_def stored_instance_def zero_TaskInstance_def)

text \<open>
  A task written to its row and read back, any number of times, is the task less its retry interval
  and window, shard count, idempotency key, trigger type and event name; two tasks have the same
  row exactly when they differ in nothing else. For an instance it is the shard number and total
  that are lost. The null of a time column is the zero time.
\<close>

theorem rows_roundtrip:
  "((\<lambda>t. rowToTask (taskToRow t)) ^^ Suc n) t = stored_task t \<and>
   ((\<lambda>i. rowToTaskInstance (taskInstanceToRow i)) ^^ Suc n) i = stored_instance i \<and>
   (taskToRow t = taskToRow t' \<longleftrightarrow> stored_task t = stored_task t') \<and>
   (taskInstanceToRow i = taskInstanceToRow i' \<longleftrightarrow> stored_instance i = stored_instance i')"
  by (intro conjI task_codec.cycles instance_codec.cycles task_codec.same_row_iff instance_codec.same_row_iff)

text \<open>
  So a task made for an event or in shards is, after a restart on the database, neither.
\<close>

lemma stored_task_never_event: "t_TriggerType (rowToTask (taskToRow t)) = [] \<and> t_TotalShards (rowToTask (taskToRow t)) = 0"
  by (simp add: task_codec.of_to stored_task_def)

end
