(* ===== verification/System.thy ===== *)
theory System
  imports Scheduler
begin

text \<open>
  The scheduler as a whole: its entry points as the steps of a transition system on the stores, in any
  order, and what holds in every state it can reach. A handler or a round of a loop is one step; the
  stores serialise their operations, and the answers of the outside are whatever they are.
\<close>

section \<open>Steps\<close>

definition after :: "(stores, 'b) state \<Rightarrow> stores \<Rightarrow> stores" where
  "after m w = snd (run_state m w)"

abbreviation test_service :: "bool \<Rightarrow> stores TaskService" where
  "test_service a \<equiv> \<lparr>svc_repo = test_tasks, svc_auditor = a\<rparr>"

text \<open>What the analysis service may do: anything but write the stores.\<close>

definition observes :: "(string \<Rightarrow> string \<Rightarrow> string \<Rightarrow> int \<Rightarrow> int \<Rightarrow> (stores, error + string) state) \<Rightarrow> bool" where
  "observes analyze \<longleftrightarrow> (\<forall>m c t r n w. stores_ok w \<longrightarrow>
     stores_ok (after (analyze m c t r n) w) \<and> test_view (after (analyze m c t r n) w) = test_view w)"

inductive step :: "stores \<Rightarrow> stores \<Rightarrow> bool" where
  report: "step w (after (ReportStatus test_tasks test_instances test_workers s req) w)"
| cancel: "step w (after (CancelInstance test_instances test_workers sid) w)"
| analysis: "observes analyze \<Longrightarrow> step w (after (analyzeFailedInstance test_tasks test_instances analyze inst req) w)"
| trigger: "reads_only cached \<Longrightarrow> step w (after (trigger_scan test_tasks test_instances test_workers l cached) w)"
| retry: "step w (after (retry_scan test_tasks test_instances test_workers rl) w)"
| register: "step w (after (RegisterWorker test_workers reg) w)"
| heartbeat: "step w (after (Heartbeat test_workers hb) w)"
| evict: "step w (after (EvictStaleWorkers test_workers timeout) w)"
| create: "step w (after (TaskService_CreateTask (test_service a) ctx up) w)"
| update: "step w (after (TaskService_UpdateTask (test_service a) ctx k up) w)"
| delete: "step w (after (TaskService_DeleteTask (test_service a) ctx k) w)"
| pause: "step w (after (PauseTask (test_service a) ctx k) w)"
| resume: "step w (after (ResumeTask (test_service a) ctx k) w)"
| run_now: "step w (after (TriggerTask (test_service a) ctx k) w)"
| publish: "step w (after (Publish test_tasks test_instances test_workers meth body) w)"
| heap: "step w (after (heap_tick test_tasks test_instances test_workers url e) w)"
| wheel: "step w (after (wheel_tick test_tasks test_instances test_workers url e) w)"
| warm: "step w (after (Warm test_tasks test_instances e) w)"
| outside: "task_store w' = task_store w \<Longrightarrow> instance_store w' = instance_store w \<Longrightarrow>
    worker_store w' = worker_store w \<Longrightarrow> step w w'"

inductive_cases stepE: "step w w'"

section \<open>What survives\<close>

definition settled :: "TaskInstance \<Rightarrow> TaskInstance \<Rightarrow> bool" where
  "settled i i' \<longleftrightarrow> (\<exists>js t. i' = i\<lparr>i_AnalysisJSON := js, i_UpdatedAt := t\<rparr>)"

text \<open>Every instance is still there and the same; one in a terminal status got at most an analysis.\<close>

definition persists :: "view \<Rightarrow> view \<Rightarrow> bool" where
  "persists v v' \<longleftrightarrow> (\<forall>n i. v_insts v n = Some i \<longrightarrow>
     (\<exists>i'. v_insts v' n = Some i' \<and> same_identity i i' \<and> (isTerminalStatus (i_Status i) \<longrightarrow> settled i i')))"

lemma settled_refl [simp]: "settled i i"
  unfolding settled_def by (intro exI [of _ "i_AnalysisJSON i"] exI [of _ "i_UpdatedAt i"]) simp

lemma settled_trans: "settled i j \<Longrightarrow> settled j k \<Longrightarrow> settled i k"
  unfolding settled_def by (elim exE) (simp, blast)

lemma settled_status: "settled i j \<Longrightarrow> i_Status j = i_Status i"
  by (auto simp: settled_def)

lemma persists_refl [simp]: "persists v v"
  by (simp add: persists_def)

lemma persists_trans: "persists u v \<Longrightarrow> persists v w \<Longrightarrow> persists u w"
  unfolding persists_def
proof (intro allI impI)
  fix n i
  assume uv: "\<forall>n i. v_insts u n = Some i \<longrightarrow> (\<exists>i'. v_insts v n = Some i' \<and> same_identity i i' \<and>
      (isTerminalStatus (i_Status i) \<longrightarrow> settled i i'))"
    and vw: "\<forall>n i. v_insts v n = Some i \<longrightarrow> (\<exists>i'. v_insts w n = Some i' \<and> same_identity i i' \<and>
      (isTerminalStatus (i_Status i) \<longrightarrow> settled i i'))"
    and i: "v_insts u n = Some i"
  from uv i obtain j where j: "v_insts v n = Some j" "same_identity i j" "isTerminalStatus (i_Status i) \<longrightarrow> settled i j" by blast
  from vw j(1) obtain k where k: "v_insts w n = Some k" "same_identity j k" "isTerminalStatus (i_Status j) \<longrightarrow> settled j k" by blast
  from j k have "isTerminalStatus (i_Status i) \<longrightarrow> settled i k" by (auto simp: settled_status intro: settled_trans)
  with k(1) same_identity_trans [OF j(2) k(2)] show "\<exists>i'. v_insts w n = Some i' \<and> same_identity i i' \<and>
      (isTerminalStatus (i_Status i) \<longrightarrow> settled i i')" by blast
qed

lemma persists_same: "v_insts v' = v_insts v \<Longrightarrow> persists v v'"
  by (simp add: persists_def)

lemma evolves_persists: "evolves v v' \<Longrightarrow> persists v v'"
  unfolding evolves_def persists_def by (metis settled_refl)

lemma fired_persists: "fired_by K v v' \<Longrightarrow> persists v v'"
  unfolding fired_by_def persists_def by (metis settled_refl same_identity_simps(1))

lemma rescanned_persists:
  assumes "rescanned S v v'" "\<forall>n \<in> S. \<exists>i. v_insts v n = Some i \<and> due_retry now i"
  shows "persists v v'"
  unfolding persists_def
proof (intro allI impI)
  fix n i
  assume i: "v_insts v n = Some i"
  show "\<exists>i'. v_insts v' n = Some i' \<and> same_identity i i' \<and> (isTerminalStatus (i_Status i) \<longrightarrow> settled i i')"
  proof (cases "n \<in> S")
    case True
    with assms(2) i have "\<not> isTerminalStatus (i_Status i)" by (auto simp: due_retry_def)
    moreover from True assms(1) i obtain i' where "v_insts v' n = Some i'" "same_identity i i'"
      unfolding rescanned_def by (metis option.inject)
    ultimately show ?thesis by blast
  next
    case False
    with assms(1) i show ?thesis by (simp add: rescanned_def)
  qed
qed

lemma synced_insts: "synced k ds v v' r \<Longrightarrow> v_insts v' = v_insts v"
  by (auto simp: synced_def dest: rewired_sel)

lemma created_insts: "created loc now ctx req v v' r \<Longrightarrow> v_insts v' = v_insts v"
  by (auto simp: created_def split: if_splits dest: synced_insts)

lemma updated_insts: "updated cur req v v' r \<Longrightarrow> v_insts v' = v_insts v"
  by (auto simp: updated_def dest: synced_insts)

lemma stored_insts: "stored_as v v' t t' \<Longrightarrow> v_insts v' = v_insts v"
  by (simp add: stored_as_def)

lemmas insts_same = created_insts updated_insts stored_insts

lemma result_persists:
  assumes "result_stored i req v u" "v_insts v (i_ID i) = Some i" "\<not> isTerminalStatus (i_Status i)"
  shows "persists v u"
  using assms evolves_persists [OF evolves_upd [OF assms(2,3)]] by (auto simp: result_stored_def)

lemma wound_down_insts: "wound_down c inst req v v' \<Longrightarrow> v_insts v' = v_insts v"
  by (auto simp: wound_down_def advances_def unloaded_def split: if_splits)

lemma retried_persists: "retried v v' k inst i' \<Longrightarrow> persists v v'"
  unfolding retried_def by (blast intro: evolves_persists evolves_new)

lemma retry_persists: "retry_outcome now rr inst req v v' r \<Longrightarrow> persists v v'"
  unfolding retry_outcome_def by (auto split: if_split_asm dest: retried_persists)

text \<open>The operations keep the stores well formed and their instances.\<close>

context repositories
begin

definition safe :: "('a, 'b) go \<Rightarrow> bool" where
  "safe m \<longleftrightarrow> (\<forall>w. ok w \<longrightarrow> wp m (\<lambda>_ w'. ok w' \<and> persists (vw w) (vw w')) w)"

lemma stored_at: "ok w \<Longrightarrow> v_inst (vw w) sid = Some i \<Longrightarrow> v_insts (vw w) (i_ID i) = Some i"
  using inst_id by (auto simp: v_inst_def bind_eq_Some_conv)

lemma safe_ReportStatus: "safe (ReportStatus T I W s req)"
  unfolding safe_def
proof (intro allI impI)
  fix w
  assume ok: "ok w"
  show "wp (ReportStatus T I W s req) (\<lambda>_ w'. ok w' \<and> persists (vw w) (vw w')) w"
  proof (cases "sr_ScheduleInstanceID req \<noteq> [] \<and> (\<exists>i. v_inst (vw w) (sr_ScheduleInstanceID req) = Some i \<and> \<not> isTerminalStatus (i_Status i))")
    case True
    then obtain i where i: "sr_ScheduleInstanceID req \<noteq> []" "v_inst (vw w) (sr_ScheduleInstanceID req) = Some i"
      "\<not> isTerminalStatus (i_Status i)" by blast
    have at: "v_insts (vw w) (i_ID i) = Some i"
      using i(2) by (rule stored_at [OF ok])
    show ?thesis
    proof (rule wp_mono [OF ReportStatus_wp [OF ok i]], elim conjE exE)
      fix r w' u
      assume 1: "ok w'" "result_stored i req (vw w) u"
        "if sr_Status req = ''running'' then vw w' = u \<and> r = Inr ()
         else \<exists>v n. wound_down (clock w) i req u v \<and> retry_outcome (clock w n) (rr_ok w) i req v (vw w') r"
      have "persists u (vw w')"
        using 1(3) by (auto split: if_split_asm intro: persists_trans [OF persists_same [OF wound_down_insts] retry_persists])
      with result_persists [OF 1(2) at i(3)] 1(1) show "ok w' \<and> persists (vw w) (vw w')"
        using persists_trans by blast
    qed
  next
    case False
    with ok show ?thesis by (auto simp: ReportStatus_def wp_get_by_schedule wps split: option.split)
  qed
qed

lemma safe_CancelInstance: "safe (CancelInstance I W sid)"
  unfolding safe_def
proof (intro allI impI)
  fix w
  assume ok: "ok w"
  show "wp (CancelInstance I W sid) (\<lambda>_ w'. ok w' \<and> persists (vw w) (vw w')) w"
  proof (cases "\<exists>i. v_inst (vw w) sid = Some i \<and> \<not> isTerminalStatus (i_Status i)")
    case True
    then obtain i where i: "v_inst (vw w) sid = Some i" "\<not> isTerminalStatus (i_Status i)" by blast
    have at: "v_insts (vw w) (i_ID i) = Some i"
      using i(1) by (rule stored_at [OF ok])
    show ?thesis
      by (rule wp_mono [OF CancelInstance_wp [OF ok i]])
        (elim conjE exE, intro conjI, assumption,
         rule evolves_persists [OF evolves_upd [OF at i(2), where i' = "i\<lparr>i_Status := _, i_ErrorCode := _, i_ErrorMessage := _, i_UpdatedAt := _\<rparr>"]],
         simp_all)
  next
    case False
    with ok show ?thesis by (auto simp: CancelInstance_def wp_get_by_schedule wps split: option.split)
  qed
qed

lemma safe_trigger_scan: "reads_only cached \<Longrightarrow> safe (trigger_scan T I W l cached)"
  unfolding safe_def by (auto intro: wp_mono [OF trigger_scan_wp] fired_persists)

lemma safe_retry_scan: "safe (retry_scan T I W l)"
  unfolding safe_def by (auto intro!: wp_mono [OF retry_scan_wp] rescanned_persists)

lemma safe_RegisterWorker: "safe (RegisterWorker W req)"
  unfolding safe_def
proof (intro allI impI)
  fix w
  assume ok: "ok w"
  show "wp (RegisterWorker W req) (\<lambda>_ w'. ok w' \<and> persists (vw w) (vw w')) w"
  proof (cases "TrimSpace (wr_WorkerID req) \<noteq> [] \<and> TrimSpace (wr_Hostname req) \<noteq> []")
    case True
    with RegisterWorker_run [OF ok, of req] show ?thesis by (auto simp: wp_iff intro!: persists_same)
  next
    case False
    with ok show ?thesis by (auto simp: RegisterWorker_def)
  qed
qed

lemma safe_Heartbeat: "safe (Heartbeat W req)"
  unfolding safe_def
proof (intro allI impI)
  fix w
  assume ok: "ok w"
  show "wp (Heartbeat W req) (\<lambda>_ w'. ok w' \<and> persists (vw w) (vw w')) w"
  proof (cases "TrimSpace (hr_WorkerID req) \<noteq> [] \<and> v_workers (vw w) (hr_WorkerID req) \<noteq> None")
    case True
    then obtain x where "TrimSpace (hr_WorkerID req) \<noteq> []" "v_workers (vw w) (hr_WorkerID req) = Some x" by blast
    from Heartbeat_run [OF ok this] show ?thesis by (auto simp: wp_iff intro!: persists_same)
  next
    case False
    with ok show ?thesis by (auto simp: Heartbeat_def wp_get_worker wps)
  qed
qed

lemma safe_EvictStaleWorkers: "safe (EvictStaleWorkers W timeout)"
  unfolding safe_def
proof (intro allI impI)
  fix w
  assume "ok w"
  from EvictStaleWorkers_run [OF this refl, of timeout] show "wp (EvictStaleWorkers W timeout) (\<lambda>_ w'. ok w' \<and> persists (vw w) (vw w')) w"
    by (auto simp: wp_iff intro!: persists_same)
qed

lemma safe_CreateTask: "safe (TaskService_CreateTask \<lparr>svc_repo = T, svc_auditor = a\<rparr> ctx req)"
  unfolding safe_def by (auto intro: wp_mono [OF TaskService_CreateTask_wp] persists_same created_insts)

text \<open>A method that starts from a task the tenant owns is safe if what it does with the task is.\<close>

lemma safe_owned:
  assumes "\<And>w t. ok w \<Longrightarrow> 0 < k \<Longrightarrow> v_tasks (vw w) k = Some t \<Longrightarrow> checkTenant ctx t = Inr () \<Longrightarrow>
    wp (if_ok (owned_task \<lparr>svc_repo = T, svc_auditor = a\<rparr> ctx k) f) (\<lambda>_ w'. ok w' \<and> v_insts (vw w') = v_insts (vw w)) w"
  shows "safe (if_ok (owned_task \<lparr>svc_repo = T, svc_auditor = a\<rparr> ctx k) f)"
  unfolding safe_def
proof (intro allI impI)
  fix w
  assume ok: "ok w"
  show "wp (if_ok (owned_task \<lparr>svc_repo = T, svc_auditor = a\<rparr> ctx k) f) (\<lambda>_ w'. ok w' \<and> persists (vw w) (vw w')) w"
  proof (cases "0 < k \<and> (\<exists>t. v_tasks (vw w) k = Some t \<and> checkTenant ctx t = Inr ())")
    case True
    then obtain t where "0 < k" "v_tasks (vw w) k = Some t" "checkTenant ctx t = Inr ()" by blast
    from assms [OF ok this] show ?thesis by (rule wp_mono) (simp add: persists_same)
  next
    case False
    with ok show ?thesis by (auto simp: wp_if_ok wp_owned_task split: option.split sum.split)
  qed
qed

lemma safe_UpdateTask: "safe (TaskService_UpdateTask \<lparr>svc_repo = T, svc_auditor = a\<rparr> ctx k req)"
  unfolding TaskService_UpdateTask_def
  by (rule safe_owned, fold TaskService_UpdateTask_def, rule wp_mono [OF TaskService_UpdateTask_wp])
    (auto dest: updated_insts)

lemma safe_DeleteTask: "safe (TaskService_DeleteTask \<lparr>svc_repo = T, svc_auditor = a\<rparr> ctx k)"
  unfolding TaskService_DeleteTask_def
  by (rule safe_owned, fold TaskService_DeleteTask_def, rule wp_mono [OF TaskService_DeleteTask_wp]) auto

lemma safe_PauseTask: "safe (PauseTask \<lparr>svc_repo = T, svc_auditor = a\<rparr> ctx k)"
  unfolding PauseTask_def
  by (rule safe_owned, fold PauseTask_def, rule wp_mono [OF PauseTask_wp]) (auto dest: stored_insts)

lemma safe_ResumeTask: "safe (ResumeTask \<lparr>svc_repo = T, svc_auditor = a\<rparr> ctx k)"
  unfolding ResumeTask_def
  by (rule safe_owned, fold ResumeTask_def, rule wp_mono [OF ResumeTask_wp])
    (auto dest: stored_insts split: sum.split_asm)

lemma safe_TriggerTask: "safe (TriggerTask \<lparr>svc_repo = T, svc_auditor = a\<rparr> ctx k)"
proof -
  have "wp (TriggerTask \<lparr>svc_repo = T, svc_auditor = a\<rparr> ctx k) (\<lambda>_ w'. ok w' \<and> v_insts (vw w') = v_insts (vw w)) w"
    if "ok w" "0 < k" "v_tasks (vw w) k = Some t" "checkTenant ctx t = Inr ()" for w t
  proof (cases "t_Status t = ''enabled''")
    case True
    from TriggerTask_wp [OF that True] show ?thesis by (rule wp_mono) (auto dest: stored_insts)
  next
    case False
    then show ?thesis using that(1) by (simp add: TriggerTask_def wp_owned [OF that])
  qed
  then show ?thesis unfolding TriggerTask_def by (rule safe_owned)
qed

lemma safe_Publish: "safe (Publish T I W meth body)"
  unfolding safe_def
proof (intro allI impI)
  fix w
  assume ok: "ok w"
  show "wp (Publish T I W meth body) (\<lambda>_ w'. ok w' \<and> persists (vw w) (vw w')) w"
  proof (cases "meth = ''POST'' \<and> (\<exists>req. body = Some req \<and> ev_EventName req \<noteq> [])")
    case True
    then obtain req where req: "meth = ''POST''" "body = Some req" "ev_EventName req \<noteq> []" by blast
    show ?thesis unfolding req(1,2) by (rule wp_mono [OF Publish_wp [OF ok req(3)]]) (auto dest: fired_persists)
  next
    case False
    with ok show ?thesis by (cases body) (auto simp: Publish_def)
  qed
qed

lemma safe_trigger_all: "safe (trigger_all T I W url ks e)"
  unfolding safe_def by (auto intro: wp_mono [OF trigger_all_wp] fired_persists)

lemma safe_ticks: "safe (heap_tick T I W url e)" "safe (wheel_tick T I W url e)"
proof -
  have all: "ok w \<Longrightarrow> vw w = v \<Longrightarrow> wp (trigger_all T I W url ks e') (\<lambda>_ w'. ok w' \<and> persists v (vw w')) w" for w v ks e'
    using safe_trigger_all unfolding safe_def by blast
  show "safe (heap_tick T I W url e)" unfolding safe_def heap_tick_def
    by (auto simp: split_beta Let_def intro!: all)
  show "safe (wheel_tick T I W url e)" unfolding safe_def wheel_tick_def
    by (auto simp: split_beta Let_def intro!: all)
qed

lemma safe_Warm: "safe (Warm T I e)"
  unfolding safe_def by (auto intro: wp_mono [OF Warm_wp])

lemma safe_analysis:
  assumes "\<And>m c t r n w. ok w \<Longrightarrow> wp (analyze m c t r n) (\<lambda>_ w'. ok w' \<and> vw w' = vw w) w"
  shows "safe (analyzeFailedInstance T I analyze inst req)"
proof -
  have upd: "wp (UpdateInstanceAnalysis I sid js) (\<lambda>_ w'. ok w' \<and> persists (vw w) (vw w')) w" if "ok w" for w sid js
  proof (cases "v_inst (vw w) sid")
    case None
    with that show ?thesis using update_analysis_missing [OF that None] by (simp add: wp_run)
  next
    case (Some i)
    then obtain n where n: "v_sched (vw w) sid = Some n" "v_insts (vw w) n = Some i" by (auto simp: v_inst_def bind_eq_Some_conv)
    have "settled i (i\<lparr>i_AnalysisJSON := js, i_UpdatedAt := now\<rparr>)" for now unfolding settled_def by blast
    moreover have "same_identity i (i\<lparr>i_AnalysisJSON := js, i_UpdatedAt := now\<rparr>)" for now by (simp add: same_identity_def)
    ultimately show ?thesis
      using update_analysis [OF that n, of js] n(2) by (auto simp: wp_iff moves_def persists_def)
  qed
  show ?thesis
    unfolding safe_def
  proof (intro allI impI)
    fix w
    assume ok: "ok w"
    have upd': "wp (UpdateInstanceAnalysis I sid js) (\<lambda>_ w'. ok w' \<and> persists (vw w) (vw w')) w1"
      if "ok w1" "vw w1 = vw w" for w1 sid js
      using upd [OF that(1)] that(2) by simp
    have an: "wp (analyze m c t r n) (\<lambda>x. wp (case x of Inl err \<Rightarrow> State_Monad.return () | Inr js \<Rightarrow> do {
             _ \<leftarrow> UpdateInstanceAnalysis I sid js; State_Monad.return () }) (\<lambda>_ w'. ok w' \<and> persists (vw w) (vw w'))) w" for m c t r n sid
      by (rule wp_mono [OF assms [OF ok]]) (auto simp: upd' split: sum.split)
    show "wp (analyzeFailedInstance T I analyze inst req) (\<lambda>_ w'. ok w' \<and> persists (vw w) (vw w')) w"
      using ok an by (simp add: analyzeFailedInstance_def wp_get_task Let_def split: option.split)
  qed
qed

lemmas safe_ops = safe_ReportStatus safe_CancelInstance safe_trigger_scan safe_retry_scan safe_RegisterWorker
  safe_Heartbeat safe_EvictStaleWorkers safe_CreateTask safe_UpdateTask safe_DeleteTask safe_PauseTask
  safe_ResumeTask safe_TriggerTask safe_Publish safe_ticks safe_Warm

end

section \<open>Properties\<close>

lemma safe_after:
  "ts.safe m \<Longrightarrow> stores_ok w \<Longrightarrow> stores_ok (after m w) \<and> persists (test_view w) (test_view (after m w))"
  by (simp add: ts.safe_def after_def wp_def split_beta)

lemma step_safe:
  assumes "step w w'" "stores_ok w"
  shows "stores_ok w' \<and> persists (test_view w) (test_view w')"
  using assms
proof cases
  case (analysis analyze inst req)
  have "ts.safe (analyzeFailedInstance test_tasks test_instances analyze inst req)"
    using analysis(2) by (intro ts.safe_analysis) (simp add: observes_def after_def wp_def split_beta)
  with analysis(1) assms(2) show ?thesis by (simp add: safe_after)
next
  case outside
  then have "stores_ok w' = stores_ok w" "test_view w' = test_view w" by (simp_all add: stores_ok_def test_view_def)
  with assms(2) show ?thesis by simp
qed (simp_all add: safe_after ts.safe_ops)



text \<open>
  C9. The in-memory stores implement the contract the services are proved against: seen through the maps
  from ids to records, each repository method does what the abstract one does, on every branch, and
  keeps the stores well formed.
\<close>

theorem teststore_refines: "repositories test_view stores_ok test_workers test_tasks test_instances"
  by (rule ts.repositories_axioms)

end
