(* ===== verification/Json.thy ===== *)
theory Json
  imports Labels
begin

text \<open>
  The part of \<^verbatim>\<open>encoding/json\<close> that request bodies and tokens go through: the values of JSON, the
  reader with its limits (nesting of at most 10000, numbers kept as literals, the rest of a stream left
  alone by \<^verbatim>\<open>Decoder.Decode\<close> and refused by \<^verbatim>\<open>Unmarshal\<close>), the writer, and the assignment of members to
  the fields of a struct. Every mistake of syntax or type makes the caller see an error and nothing
  else, so a reader answers None for all of them. Every call of the reader consumes text or steps
  from a list to its first part, so a fuel of twice the length is enough: \<open>parse_fuel\<close> shows that more
  changes nothing.
\<close>

section \<open>Values and literals\<close>

datatype json =
    JNull
  | JBool bool
  | JNumber string
  | JString string
  | JArray "json list"
  | JObject "(string \<times> json) list"

definition int_lit :: "string \<Rightarrow> (string \<times> string) option" where
  "int_lit s =
     (case s of
        [] \<Rightarrow> None
      | c # r \<Rightarrow>
         if c = CHR ''0'' then Some ([c], r)
         else if is_digit c then Some (takeWhile is_digit s, dropWhile is_digit s)
         else None)"

definition digits1 :: "string \<Rightarrow> string \<Rightarrow> (string \<times> string) option" where
  "digits1 p s = (if takeWhile is_digit s = [] then None else Some (p @ takeWhile is_digit s, dropWhile is_digit s))"

definition frac_lit :: "string \<Rightarrow> (string \<times> string) option" where
  "frac_lit s = (case s of [] \<Rightarrow> Some ([], []) | c # r \<Rightarrow> if c = CHR ''.'' then digits1 [c] r else Some ([], s))"

definition exp_lit :: "string \<Rightarrow> (string \<times> string) option" where
  "exp_lit s =
     (case s of
        [] \<Rightarrow> Some ([], [])
      | c # r \<Rightarrow>
         if c = CHR ''e'' \<or> c = CHR ''E'' then
           (case r of
              [] \<Rightarrow> None
            | d # r1 \<Rightarrow> if d = CHR ''+'' \<or> d = CHR ''-'' then digits1 [c, d] r1 else digits1 [c] r)
         else Some ([], s))"

definition sign_lit :: "string \<Rightarrow> string \<times> string" where
  "sign_lit s = (case s of [] \<Rightarrow> ([], []) | c # r \<Rightarrow> if c = CHR ''-'' then ([c], r) else ([], s))"

definition number_lit :: "string \<Rightarrow> (string \<times> string) option" where
  "number_lit s =
     (case sign_lit s of (m, s1) \<Rightarrow> (case int_lit s1 of
        None \<Rightarrow> None
      | Some (a, s2) \<Rightarrow> (case frac_lit s2 of
        None \<Rightarrow> None
      | Some (b, s3) \<Rightarrow> (case exp_lit s3 of
        None \<Rightarrow> None
      | Some (c, s4) \<Rightarrow> Some (m @ a @ b @ c, s4)))))"

section \<open>The reader\<close>

text \<open>
  A value from its first byte, with the nesting still allowed; the elements of an array and the members of
  an object from the first byte of the first one.
\<close>

fun parse_value :: "nat \<Rightarrow> nat \<Rightarrow> string \<Rightarrow> (json \<times> string) option"
  and parse_elems :: "nat \<Rightarrow> nat \<Rightarrow> string \<Rightarrow> (json list \<times> string) option"
  and parse_members :: "nat \<Rightarrow> nat \<Rightarrow> string \<Rightarrow> ((string \<times> json) list \<times> string) option" where
  "parse_value 0 d s = None"
| "parse_value (Suc f) d s =
     (case s of
        [] \<Rightarrow> None
      | c # r \<Rightarrow>
         if byte c = 0x22 then map_option (apfst JString) (string_lit r)
         else if c = CHR ''['' then
           (if d = 0 then None else
            (case skip_ws r of
               [] \<Rightarrow> None
             | x # r1 \<Rightarrow> if x = CHR '']'' then Some (JArray [], r1)
                         else map_option (apfst JArray) (parse_elems f (d - 1) (x # r1))))
         else if c = CHR ''{'' then
           (if d = 0 then None else
            (case skip_ws r of
               [] \<Rightarrow> None
             | x # r1 \<Rightarrow> if x = CHR ''}'' then Some (JObject [], r1)
                         else map_option (apfst JObject) (parse_members f (d - 1) (x # r1))))
         else if is_prefix ''null'' s then Some (JNull, drop 4 s)
         else if is_prefix ''true'' s then Some (JBool True, drop 4 s)
         else if is_prefix ''false'' s then Some (JBool False, drop 5 s)
         else map_option (apfst JNumber) (number_lit s))"
| "parse_elems 0 d s = None"
| "parse_elems (Suc f) d s =
     (case parse_value f d s of
        None \<Rightarrow> None
      | Some (v, s1) \<Rightarrow>
         (case skip_ws s1 of
            [] \<Rightarrow> None
          | c # r \<Rightarrow>
             if c = CHR '','' then map_option (apfst ((#) v)) (parse_elems f d (skip_ws r))
             else if c = CHR '']'' then Some ([v], r)
             else None))"
| "parse_members 0 d s = None"
| "parse_members (Suc f) d s =
     (case s of
        [] \<Rightarrow> None
      | q # t \<Rightarrow>
         if byte q \<noteq> 0x22 then None else
         (case string_lit t of
            None \<Rightarrow> None
          | Some (k, s1) \<Rightarrow>
         (case skip_ws s1 of
            [] \<Rightarrow> None
          | e # s2 \<Rightarrow>
             if e \<noteq> CHR '':'' then None else
         (case parse_value f d (skip_ws s2) of
            None \<Rightarrow> None
          | Some (v, s3) \<Rightarrow>
         (case skip_ws s3 of
            [] \<Rightarrow> None
          | c # r \<Rightarrow>
             if c = CHR '','' then map_option (apfst ((#) (k, v))) (parse_members f d (skip_ws r))
             else if c = CHR ''}'' then Some ([(k, v)], r)
             else None)))))"

declare parse_value.simps(2) [simp del] parse_elems.simps(2) [simp del] parse_members.simps(2) [simp del]

definition max_nesting :: nat where
  "max_nesting = 10000"

text \<open>The first value of a text and what follows it.\<close>

definition first_value :: "string \<Rightarrow> (json \<times> string) option" where
  "first_value s = parse_value (2 * length s + 1) max_nesting (skip_ws s)"

definition parse_json :: "string \<Rightarrow> json option" where
  "parse_json s = (case first_value s of Some (v, r) \<Rightarrow> if skip_ws r = [] then Some v else None | None \<Rightarrow> None)"

section \<open>Structs\<close>

text \<open>
  A struct is read by a list of its fields, each with what a value does to the struct. A member belongs to the
  field with its name, else to one whose name differs only in case; members of no field are skipped.
\<close>

type_synonym 'r fields = "(string \<times> (json \<Rightarrow> 'r \<Rightarrow> 'r option)) list"

text \<open>Folding to one case also takes the Kelvin sign to k and the long s to s.\<close>

fun fold_name :: "string \<Rightarrow> string" where
  "fold_name [] = []"
| "fold_name (a # s) =
     (case s of
        b # c # r \<Rightarrow> if byte a = 0xE2 \<and> byte b = 0x84 \<and> byte c = 0xAA then CHR ''k'' # fold_name r
                     else if byte a = 0xC5 \<and> byte b = 0xBF then CHR ''s'' # fold_name (c # r)
                     else ascii_lower a # fold_name s
      | [b] \<Rightarrow> if byte a = 0xC5 \<and> byte b = 0xBF then [CHR ''s''] else ascii_lower a # fold_name s
      | [] \<Rightarrow> [ascii_lower a])"

definition field_of :: "'r fields \<Rightarrow> string \<Rightarrow> (json \<Rightarrow> 'r \<Rightarrow> 'r option) option" where
  "field_of fs k =
     (case map_of fs k of
        Some u \<Rightarrow> Some u
      | None \<Rightarrow> map_option snd (find (\<lambda>f. fold_name (fst f) = fold_name k) fs))"

fun set_members :: "'r fields \<Rightarrow> (string \<times> json) list \<Rightarrow> 'r \<Rightarrow> 'r option" where
  "set_members fs [] x = Some x"
| "set_members fs ((k, v) # kvs) x =
     (case field_of fs k of
        None \<Rightarrow> set_members fs kvs x
      | Some u \<Rightarrow> (case u v x of None \<Rightarrow> None | Some x' \<Rightarrow> set_members fs kvs x'))"

definition set_struct :: "'r fields \<Rightarrow> json \<Rightarrow> 'r \<Rightarrow> 'r option" where
  "set_struct fs j x = (case j of JNull \<Rightarrow> Some x | JObject kvs \<Rightarrow> set_members fs kvs x | _ \<Rightarrow> None)"

text \<open>\<^verbatim>\<open>json.Unmarshal\<close> and \<^verbatim>\<open>json.NewDecoder(body).Decode\<close> into a struct.\<close>

definition Unmarshal :: "'r fields \<Rightarrow> string \<Rightarrow> 'r \<Rightarrow> 'r option" where
  "Unmarshal fs s x = (case parse_json s of None \<Rightarrow> None | Some v \<Rightarrow> set_struct fs v x)"

definition Decode :: "'r fields \<Rightarrow> string \<Rightarrow> 'r \<Rightarrow> 'r option" where
  "Decode fs s x = (case first_value s of None \<Rightarrow> None | Some (v, _) \<Rightarrow> set_struct fs v x)"

text \<open>Fields by their types; null leaves a field of a basic type as it is.\<close>

definition string_field :: "(string \<Rightarrow> 'r \<Rightarrow> 'r) \<Rightarrow> json \<Rightarrow> 'r \<Rightarrow> 'r option" where
  "string_field upd j x = (case j of JNull \<Rightarrow> Some x | JString s \<Rightarrow> Some (upd s x) | _ \<Rightarrow> None)"

definition int_field :: "(int \<Rightarrow> 'r \<Rightarrow> 'r) \<Rightarrow> json \<Rightarrow> 'r \<Rightarrow> 'r option" where
  "int_field upd j x =
     (case j of
        JNull \<Rightarrow> Some x
      | JNumber l \<Rightarrow> map_option (\<lambda>n. upd n x) (Atoi l)
      | _ \<Rightarrow> None)"

text \<open>A \<^verbatim>\<open>map[string]string\<close> is added to; null makes it nil, a null member stores the empty string.\<close>

fun string_members :: "(string \<times> json) list \<Rightarrow> (string, string) gomap \<Rightarrow> (string, string) gomap option" where
  "string_members [] m = Some m"
| "string_members ((k, v) # kvs) m =
     (case v of
        JNull \<Rightarrow> string_members kvs (mput k [] m)
      | JString s \<Rightarrow> string_members kvs (mput k s m)
      | _ \<Rightarrow> None)"

definition map_field ::
  "('r \<Rightarrow> (string, string) gomap) \<Rightarrow> ((string, string) gomap \<Rightarrow> 'r \<Rightarrow> 'r) \<Rightarrow> json \<Rightarrow> 'r \<Rightarrow> 'r option" where
  "map_field get upd j x =
     (case j of
        JNull \<Rightarrow> Some (upd [] x)
      | JObject kvs \<Rightarrow> map_option (\<lambda>m. upd m x) (string_members kvs (get x))
      | _ \<Rightarrow> None)"

text \<open>
  An \<^verbatim>\<open>[]int64\<close> is overwritten in place: a null element keeps what the slice's memory held there, which is
  zero unless the same key came before.
\<close>

fun int_elems :: "json list \<Rightarrow> int list \<Rightarrow> int list option" where
  "int_elems [] old = Some []"
| "int_elems (v # vs) old =
     (case v of
        JNull \<Rightarrow> map_option ((#) (case old of [] \<Rightarrow> 0 | y # _ \<Rightarrow> y)) (int_elems vs (tl old))
      | JNumber l \<Rightarrow> (case Atoi l of None \<Rightarrow> None | Some n \<Rightarrow> map_option ((#) n) (int_elems vs (tl old)))
      | _ \<Rightarrow> None)"

section \<open>The writer\<close>

text \<open>Values are written without spaces; the members of a struct in the order of its fields.\<close>

fun print_json :: "json \<Rightarrow> string" where
  "print_json JNull = ''null''"
| "print_json (JBool b) = (if b then ''true'' else ''false'')"
| "print_json (JNumber l) = l"
| "print_json (JString s) = json_quote s"
| "print_json (JArray vs) = CHR ''['' # Join (CHR '','') (map print_json vs) @ '']''"
| "print_json (JObject kvs) =
     CHR ''{'' # Join (CHR '','') (map (\<lambda>(k, v). json_quote k @ CHR '':'' # print_json v) kvs) @ ''}''"

text \<open>The values a writer produces: UTF-8 text, literals of numbers, a bounded nesting.\<close>

fun wf_json :: "nat \<Rightarrow> json \<Rightarrow> bool" where
  "wf_json d JNull = True"
| "wf_json d (JBool b) = True"
| "wf_json d (JNumber l) = (number_lit l = Some (l, []))"
| "wf_json d (JString s) = valid_utf8 s"
| "wf_json d (JArray vs) = (0 < d \<and> (\<forall>v \<in> set vs. wf_json (d - 1) v))"
| "wf_json d (JObject kvs) = (0 < d \<and> (\<forall>kv \<in> set kvs. valid_utf8 (fst kv) \<and> wf_json (d - 1) (snd kv)))"


section \<open>Facts about the reader\<close>

definition ends :: "string \<Rightarrow> bool" where
  "ends r \<longleftrightarrow> r = [] \<or> hd r = CHR '','' \<or> hd r = CHR '']'' \<or> hd r = CHR ''}''"

lemma ends_simps [simp]: "ends []" "ends (CHR '','' # r)" "ends (CHR '']'' # r)" "ends (CHR ''}'' # r)"
  by (simp_all add: ends_def)

lemma ends_cases: "ends r \<Longrightarrow> r = [] \<or> (\<exists>c t. r = c # t \<and> \<not> is_digit c \<and> c \<noteq> CHR ''0''
    \<and> c \<noteq> CHR ''.'' \<and> c \<noteq> CHR ''e'' \<and> c \<noteq> CHR ''E'' \<and> c \<noteq> CHR ''+'' \<and> c \<noteq> CHR ''-'')"
  by (cases r) (auto simp: ends_def is_digit_def)

lemma digits_ends:
  assumes "ends r"
  shows "takeWhile is_digit (s @ r) = takeWhile is_digit s"
    and "dropWhile is_digit (s @ r) = dropWhile is_digit s @ r"
  using ends_cases [OF assms] by (induction s) auto

lemma int_lit_ends: "int_lit s = Some (a, t) \<Longrightarrow> ends r \<Longrightarrow> int_lit (s @ r) = Some (a, t @ r)"
  using digits_ends [of r] by (cases s) (auto simp: int_lit_def split: if_splits)

lemma digits1_ends: "digits1 p s = Some (a, t) \<Longrightarrow> ends r \<Longrightarrow> digits1 p (s @ r) = Some (a, t @ r)"
  by (auto simp: digits1_def digits_ends split: if_splits)

lemma frac_lit_ends: "frac_lit s = Some (a, t) \<Longrightarrow> ends r \<Longrightarrow> frac_lit (s @ r) = Some (a, t @ r)"
  using ends_cases [of r] by (cases s) (auto simp: frac_lit_def digits1_ends split: if_splits list.splits)

lemma exp_lit_ends: "exp_lit s = Some (a, t) \<Longrightarrow> ends r \<Longrightarrow> exp_lit (s @ r) = Some (a, t @ r)"
  using ends_cases [of r] digits1_ends [of "[hd s]" "tl s" a t r] digits1_ends [of "[hd s, hd (tl s)]" "tl (tl s)" a t r]
  by (cases s; cases "tl s") (auto simp: exp_lit_def split: if_splits)

lemma sign_lit_ends: "sign_lit s = (a, t) \<Longrightarrow> ends r \<Longrightarrow> sign_lit (s @ r) = (a, t @ r)"
  using ends_cases [of r] by (cases s) (auto simp: sign_lit_def split: if_splits list.splits)

lemma number_lit_ends: "number_lit s = Some (a, t) \<Longrightarrow> ends r \<Longrightarrow> number_lit (s @ r) = Some (a, t @ r)"
proof -
  assume a: "number_lit s = Some (a, t)" and r: "ends r"
  obtain m s1 where m: "sign_lit s = (m, s1)" by fastforce
  with a obtain x y z s2 s3 where "int_lit s1 = Some (x, s2)" "frac_lit s2 = Some (y, s3)"
      "exp_lit s3 = Some (z, t)" "a = m @ x @ y @ z"
    by (auto simp: number_lit_def split: option.splits)
  with m r show ?thesis
    by (simp add: number_lit_def sign_lit_ends int_lit_ends frac_lit_ends exp_lit_ends)
qed

lemma int_lit_length: "int_lit s = Some (a, t) \<Longrightarrow> length t < length s"
  by (cases s) (auto simp: int_lit_def length_dropWhile_le less_Suc_eq_le split: if_splits)

lemma digits1_length: "digits1 p s = Some (a, t) \<Longrightarrow> length t \<le> length s"
  by (auto simp: digits1_def length_dropWhile_le split: if_splits)

lemma frac_lit_length: "frac_lit s = Some (a, t) \<Longrightarrow> length t \<le> length s"
  by (auto simp: frac_lit_def dest: digits1_length split: if_splits list.splits)

lemma exp_lit_length: "exp_lit s = Some (a, t) \<Longrightarrow> length t \<le> length s"
  by (auto simp: exp_lit_def dest!: digits1_length split: if_splits list.splits)

lemma number_lit_length: "number_lit s = Some (a, t) \<Longrightarrow> length t < length s"
  by (auto simp: number_lit_def sign_lit_def split: prod.splits option.splits list.splits if_splits
      dest!: int_lit_length frac_lit_length exp_lit_length)

lemma number_lit_hd: "number_lit s = Some (a, t) \<Longrightarrow> s \<noteq> [] \<and> (hd s = CHR ''-'' \<or> is_digit (hd s))"
  by (cases s) (auto simp: number_lit_def sign_lit_def int_lit_def is_digit_def split: prod.splits option.splits list.splits if_splits)


lemmas reader_simps = parse_value.simps(2) parse_elems.simps(2) parse_members.simps(2)

lemma is_prefix_length: "is_prefix p s \<Longrightarrow> length p \<le> length s"
  by (induction p s rule: is_prefix.induct) auto

lemma skip_ws_Cons: "skip_ws s = c # r \<Longrightarrow> length r < length s"
  using skip_ws_length [of s] by simp

lemma parse_length_gen:
  "(\<forall>v s'. parse_value f d s = Some (v, s') \<longrightarrow> length s' < length s) \<and>
   (\<forall>vs s'. parse_elems f d s = Some (vs, s') \<longrightarrow> length s' < length s) \<and>
   (\<forall>kvs s'. parse_members f d s = Some (kvs, s') \<longrightarrow> length s' < length s)"
proof (induction f arbitrary: d s)
  case (Suc f)
  have v: "length s' < length s" if "parse_value f d s = Some (v, s')" for d s v s' using Suc that by blast
  have e: "length s' < length s" if "parse_elems f d s = Some (v, s')" for d s v s' using Suc that by blast
  have m: "length s' < length s" if "parse_members f d s = Some (v, s')" for d s v s' using Suc that by blast
  have v': "length s' < length s" if "parse_value f d (skip_ws s) = Some (v, s')" for d s v s'
    using v [OF that] skip_ws_length [of s] by simp
  have e': "length s' < length s" if "parse_elems f d (skip_ws s) = Some (v, s')" for d s v s'
    using e [OF that] skip_ws_length [of s] by simp
  have m': "length s' < length s" if "parse_members f d (skip_ws s) = Some (v, s')" for d s v s'
    using m [OF that] skip_ws_length [of s] by simp
  have "length s' < length s" if p: "parse_value (Suc f) d s = Some (w, s')" for w s'
  proof (cases s)
    case (Cons c r)
    have "length s' < length s" if "skip_ws r = x # r1" "length s' < length (x # r1)" for x r1
      using that Cons skip_ws_length [of r] by simp
    then show ?thesis
      using p unfolding Cons
      by (auto simp: reader_simps dest: string_lit_length number_lit_length is_prefix_length e m
          split: if_splits list.splits simp del: is_prefix.simps)
  qed (use p in \<open>simp add: reader_simps\<close>)
  moreover have "length s' < length s" if p: "parse_elems (Suc f) d s = Some (ws, s')" for ws s'
    using p by (force simp: reader_simps dest!: v e' skip_ws_Cons split: option.splits list.splits if_splits)
  moreover have "length s' < length s" if p: "parse_members (Suc f) d s = Some (ws, s')" for ws s'
    using p by (force simp: reader_simps dest!: string_lit_length v' m' skip_ws_Cons
        split: option.splits list.splits if_splits)
  ultimately show ?case by blast
qed simp

lemmas parse_length = parse_length_gen [THEN conjunct1, rule_format]
  parse_length_gen [THEN conjunct2, THEN conjunct1, rule_format]
  parse_length_gen [THEN conjunct2, THEN conjunct2, rule_format]


lemma parse_fuel_step:
  "(2 * length s < f \<longrightarrow> parse_value (Suc f) d s = parse_value f d s) \<and>
   (2 * length s + 1 < f \<longrightarrow> parse_elems (Suc f) d s = parse_elems f d s \<and>
      parse_members (Suc f) d s = parse_members f d s)"
proof (induction f arbitrary: d s)
  case (Suc f)
  have v: "parse_value (Suc f) d s = parse_value f d s" if "2 * length s < f" for d s using Suc that by blast
  have e: "parse_elems (Suc f) d s = parse_elems f d s" "parse_members (Suc f) d s = parse_members f d s"
    if "2 * length s + 1 < f" for d s using Suc that by blast+
  have "parse_value (Suc (Suc f)) d s = parse_value (Suc f) d s" if l: "2 * length s < Suc f"
  proof (cases s)
    case (Cons c r)
    have "parse_elems (Suc f) (d - 1) (x # r1) = parse_elems f (d - 1) (x # r1)"
      "parse_members (Suc f) (d - 1) (x # r1) = parse_members f (d - 1) (x # r1)" if "skip_ws r = x # r1" for x r1
      using that l Cons skip_ws_length [of r] by (intro e; simp)+
    then show ?thesis
      unfolding Cons reader_simps(1) by (cases "skip_ws r") (simp_all del: dropWhile_eq_Nil_conv cong: if_cong)
  qed (simp add: reader_simps)
  moreover have "parse_elems (Suc (Suc f)) d s = parse_elems (Suc f) d s" if l: "2 * length s + 1 < Suc f"
  proof -
    have "parse_elems (Suc f) d (skip_ws r) = parse_elems f d (skip_ws r)"
      if "parse_value f d s = Some (x, s1)" "skip_ws s1 = c # r" for x s1 c r
      using parse_length(1) [OF that(1)] skip_ws_Cons [OF that(2)] skip_ws_length [of r] l by (intro e) simp
    with l show ?thesis
      by (subst (1 2) reader_simps(2)) (auto simp: v simp del: dropWhile_eq_Nil_conv split: option.split list.split)
  qed
  moreover have "parse_members (Suc (Suc f)) d s = parse_members (Suc f) d s" if l: "2 * length s + 1 < Suc f"
  proof (cases s)
    case (Cons q t)
    have a: "parse_value (Suc f) d (skip_ws s2) = parse_value f d (skip_ws s2)" 
      if "string_lit t = Some (k, s1)" "skip_ws s1 = x # s2" for k s1 x s2
      using string_lit_length [OF that(1)] skip_ws_Cons [OF that(2)] skip_ws_length [of s2] l Cons by (intro v) simp
    have b: "parse_members (Suc f) d (skip_ws r) = parse_members f d (skip_ws r)"
      if "string_lit t = Some (k, s1)" "skip_ws s1 = x # s2" "parse_value f d (skip_ws s2) = Some (y, s3)"
        "skip_ws s3 = c # r" for k s1 x s2 y s3 c r
      using string_lit_length [OF that(1)] skip_ws_Cons [OF that(2)] skip_ws_length [of s2]
        parse_length(1) [OF that(3)] skip_ws_Cons [OF that(4)] skip_ws_length [of r] l Cons by (intro e) simp
    from a b show ?thesis unfolding Cons
      by (subst (1 2) reader_simps(3)) (auto simp del: dropWhile_eq_Nil_conv string_lit.simps split: option.split list.split)
  qed (simp add: reader_simps)
  ultimately show ?case by blast
qed simp

lemma parse_fuel: "2 * length s < f \<Longrightarrow> f \<le> g \<Longrightarrow> parse_value g d s = parse_value f d s"
proof (induction "g - f" arbitrary: g)
  case (Suc n)
  then obtain g' where g: "g = Suc g'" by (cases g) auto
  with Suc have "parse_value g' d s = parse_value f d s" by (intro Suc) auto
  moreover have "parse_value g d s = parse_value g' d s" using parse_fuel_step g Suc by fastforce
  ultimately show ?case by simp
qed simp

section \<open>Reading what was written\<close>

lemma print_hd:
  "wf_json d v \<Longrightarrow> \<exists>c r. print_json v = c # r \<and> \<not> json_space c \<and> c \<noteq> CHR '']'' \<and> c \<noteq> CHR ''}''"
  by (cases v) (auto simp: json_quote_def json_space_def is_digit_def neq_Nil_conv dest!: number_lit_hd)

lemma parse_number:
  assumes "number_lit l = Some (l, [])" and "ends r"
  shows "parse_value (Suc f) d (l @ r) = Some (JNumber l, r)"
proof -
  obtain c t where l: "l = c # t" "c = CHR ''-'' \<or> is_digit c"
    using number_lit_hd [OF assms(1)] by (cases l) auto
  then have "byte c \<noteq> 0x22 \<and> c \<notin> {CHR ''['', CHR ''{'', CHR ''n'', CHR ''t'', CHR ''f''}"
    by (auto simp: byte_def is_digit_def)
  moreover have "number_lit (c # t @ r) = Some (l, r)" using number_lit_ends [OF assms] l by simp
  ultimately show ?thesis by (auto simp: reader_simps l)
qed

abbreviation member_text :: "string \<times> json \<Rightarrow> string" where
  "member_text \<equiv> \<lambda>(k, v). json_quote k @ CHR '':'' # print_json v"

definition reads_back :: "json \<Rightarrow> bool" where
  "reads_back v \<longleftrightarrow> (\<forall>d f r. wf_json d v \<longrightarrow> ends r \<longrightarrow> 2 * length (print_json v @ r) < f \<longrightarrow>
     parse_value f d (print_json v @ r) = Some (v, r))"

lemma reads_backD:
  "reads_back v \<Longrightarrow> wf_json d v \<Longrightarrow> ends r \<Longrightarrow> 2 * length (print_json v @ r) < f \<Longrightarrow>
     parse_value f d (print_json v @ r) = Some (v, r)"
  by (simp add: reads_back_def)

lemma reads_backI:
  assumes "\<And>d f r. wf_json d v \<Longrightarrow> ends r \<Longrightarrow> 2 * length (print_json v @ r) \<le> f \<Longrightarrow>
    parse_value (Suc f) d (print_json v @ r) = Some (v, r)"
  shows "reads_back v"
  unfolding reads_back_def
proof (intro allI impI)
  fix d f r
  assume "wf_json d v" "ends r" "2 * length (print_json v @ r) < f"
  then show "parse_value f d (print_json v @ r) = Some (v, r)" using assms by (cases f) simp_all
qed

lemma parse_elems_text:
  "vs \<noteq> [] \<Longrightarrow> \<forall>v \<in> set vs. wf_json d v \<and> reads_back v \<Longrightarrow>
     2 * length (Join (CHR '','') (map print_json vs) @ CHR '']'' # r) + 1 < f \<Longrightarrow>
     parse_elems f d (Join (CHR '','') (map print_json vs) @ CHR '']'' # r) = Some (vs, r)"
proof (induction vs arbitrary: f)
  case (Cons v vs)
  obtain g where f: "f = Suc g" using Cons.prems(3) by (cases f) auto
  show ?case
  proof (cases vs)
    case Nil
    have "parse_value g d (print_json v @ CHR '']'' # r) = Some (v, CHR '']'' # r)"
      using Cons.prems f Nil by (intro reads_backD) auto
    then show ?thesis by (simp add: f Nil reader_simps json_space_def)
  next
    case (Cons v' vs')
    let ?t = "Join (CHR '','') (map print_json vs) @ CHR '']'' # r"
    have "parse_value g d (print_json v @ CHR '','' # ?t) = Some (v, CHR '','' # ?t)"
      using Cons.prems f Cons by (intro reads_backD) auto
    moreover have "skip_ws ?t = ?t"
      using print_hd [of d v'] Cons.prems(2) Cons by (cases vs') auto
    moreover have "parse_elems g d ?t = Some (vs, r)" using Cons.prems f Cons by (intro Cons.IH) auto
    ultimately show ?thesis by (simp add: f Cons reader_simps)
  qed
qed simp


lemma parse_members_text:
  "kvs \<noteq> [] \<Longrightarrow> \<forall>(k, v) \<in> set kvs. valid_utf8 k \<and> wf_json d v \<and> reads_back v \<Longrightarrow>
     2 * length (Join (CHR '','') (map member_text kvs) @ CHR ''}'' # r) + 1 < f \<Longrightarrow>
     parse_members f d (Join (CHR '','') (map member_text kvs) @ CHR ''}'' # r) = Some (kvs, r)"
proof (induction kvs arbitrary: f)
  case (Cons kv kvs)
  obtain k v where kv: "kv = (k, v)" by (cases kv)
  obtain g where f: "f = Suc g" using Cons.prems(3) by (cases f) auto
  have k: "string_lit (quote_body k @ CHR 0x22 # t) = Some (k, t)" for t
    using Cons.prems(2) kv by (intro string_lit_quote_body) auto
  have p: "skip_ws (print_json v @ t) = print_json v @ t" for t
    using print_hd [of d v] Cons.prems(2) kv by auto
  have b: "byte (CHR 0x22) = 0x22" by (simp add: byte_def)
  show ?case
  proof (cases kvs)
    case Nil
    have "parse_value g d (print_json v @ CHR ''}'' # r) = Some (v, CHR ''}'' # r)"
      using Cons.prems f Nil kv by (intro reads_backD) auto
    then show ?thesis by (simp add: f Nil kv reader_simps json_quote_def k p b del: string_lit.simps)
  next
    case (Cons kv' kvs')
    let ?t = "Join (CHR '','') (map member_text kvs) @ CHR ''}'' # r"
    have "parse_value g d (print_json v @ CHR '','' # ?t) = Some (v, CHR '','' # ?t)"
      using Cons.prems f Cons kv by (intro reads_backD) auto
    moreover have "skip_ws ?t = ?t" by (cases kvs'; cases kv') (simp_all add: Cons json_quote_def)
    moreover have "parse_members g d ?t = Some (kvs, r)" using Cons.prems f Cons kv by (intro Cons.IH) auto
    ultimately show ?thesis by (simp add: f Cons kv reader_simps json_quote_def k p b del: string_lit.simps)
  qed
qed simp

lemma skip_ws_Join:
  "\<forall>x \<in> set xs. \<exists>c r. x = c # r \<and> \<not> json_space c \<and> c \<noteq> b \<Longrightarrow> xs \<noteq> [] \<Longrightarrow>
     \<exists>c r. Join s xs = c # r \<and> \<not> json_space c \<and> c \<noteq> b"
  by (induction s xs rule: Join.induct) auto

lemma print_reads_back: "reads_back v"
proof (induction v)
  case (JArray vs)
  show ?case
  proof (rule reads_backI)
    fix d f r
    let ?t = "Join (CHR '','') (map print_json vs)"
    assume w: "wf_json d (JArray vs)" and l: "2 * length (print_json (JArray vs) @ r) \<le> f"
    show "parse_value (Suc f) d (print_json (JArray vs) @ r) = Some (JArray vs, r)"
    proof (cases vs)
      case Nil
      with w show ?thesis by (simp add: reader_simps byte_def json_space_def)
    next
      case (Cons v vs')
      have "\<exists>c r. x = c # r \<and> \<not> json_space c \<and> c \<noteq> CHR '']''" if "x \<in> set (map print_json vs)" for x
        using that w print_hd [of "d - 1"] by (metis (no_types, lifting) image_iff list.set_map wf_json.simps(5))
      with skip_ws_Join [of "map print_json vs" "CHR '']''" "CHR '',''"] Cons
      obtain c t where "?t = c # t" "\<not> json_space c" "c \<noteq> CHR '']''" by blast
      moreover have "parse_elems f (d - 1) (?t @ CHR '']'' # r) = Some (vs, r)"
        using w l Cons JArray by (intro parse_elems_text) auto
      ultimately show ?thesis using w by (simp add: reader_simps byte_def)
    qed
  qed
next
  case (JObject kvs)
  then have b: "reads_back (snd kv)" if "kv \<in> set kvs" for kv
    using that by (cases kv) (auto simp: snds.simps)
  show ?case
  proof (rule reads_backI)
    fix d f r
    let ?t = "Join (CHR '','') (map member_text kvs)"
    assume w: "wf_json d (JObject kvs)" and l: "2 * length (print_json (JObject kvs) @ r) \<le> f"
    show "parse_value (Suc f) d (print_json (JObject kvs) @ r) = Some (JObject kvs, r)"
    proof (cases kvs)
      case Nil
      with w show ?thesis by (simp add: reader_simps byte_def json_space_def)
    next
      case (Cons kv kvs')
      then obtain t where "?t = CHR 0x22 # t" by (cases kv; cases kvs') (auto simp: json_quote_def)
      moreover have "parse_members f (d - 1) (?t @ CHR ''}'' # r) = Some (kvs, r)"
        using w l Cons b by (intro parse_members_text) force+
      ultimately show ?thesis using w by (simp add: reader_simps byte_def)
    qed
  qed
next
  case (JNumber l)
  show ?case by (rule reads_backI) (simp add: parse_number)
next
  case (JString s)
  show ?case
    by (rule reads_backI)
      (simp add: reader_simps json_quote_def byte_def string_lit_quote_body del: string_lit.simps)
qed (auto intro!: reads_backI simp: reader_simps byte_def)

lemma first_value_print: "wf_json max_nesting v \<Longrightarrow> first_value (print_json v) = Some (v, [])"
proof -
  assume w: "wf_json max_nesting v"
  obtain c r where "print_json v = c # r" "\<not> json_space c" using print_hd [OF w] by blast
  then have "skip_ws (print_json v) = print_json v" by simp
  moreover have "parse_value (2 * length (print_json v) + 1) max_nesting (print_json v @ []) = Some (v, [])"
    using w by (intro reads_backD print_reads_back) simp_all
  ultimately show ?thesis by (simp add: first_value_def)
qed

lemma print_parse: "wf_json max_nesting v \<Longrightarrow> parse_json (print_json v) = Some v"
  by (simp add: parse_json_def first_value_print)

section \<open>Structs on the wire\<close>

text \<open>
  What it takes for a struct to survive a journey as JSON: its writer produces a well-formed value, and reading
  that value's members into a zero struct gives the struct back.
\<close>

locale struct_codec =
  fixes valid :: "'r \<Rightarrow> bool" and to_json :: "'r \<Rightarrow> json" and fs :: "'r fields" and zero :: 'r
  assumes writes: "valid x \<Longrightarrow> wf_json max_nesting (to_json x)"
    and assigns: "valid x \<Longrightarrow> set_struct fs (to_json x) zero = Some x"
begin

lemma Decode_written: "valid x \<Longrightarrow> Decode fs (print_json (to_json x)) zero = Some x"
  by (simp add: Decode_def first_value_print writes assigns)

lemma Unmarshal_written: "valid x \<Longrightarrow> Unmarshal fs (print_json (to_json x)) zero = Some x"
  by (simp add: Unmarshal_def print_parse writes assigns)

lemma written_inject: "valid x \<Longrightarrow> valid y \<Longrightarrow> print_json (to_json x) = print_json (to_json y) \<Longrightarrow> x = y"
  by (metis Decode_written option.inject)

end

section \<open>Properties\<close>

text \<open>
  Round trip of JSON: reading the text that the writer made of a value gives back the value, whatever its
  shape, as long as its strings are UTF-8, its numbers are JSON literals and its nesting is within the
  reader's limit; any larger fuel of the reader gives the same.
\<close>

theorem parse_json_print:
  assumes "wf_json max_nesting v"
  shows "parse_json (print_json v) = Some v \<and>
    (\<forall>f. parse_value (2 * length (print_json v) + 1 + f) max_nesting (print_json v) = Some (v, []))"
  using print_parse [OF assms] reads_backD [OF print_reads_back assms, of "[]"] by simp

theorem parse_json_print_witness:
  "parse_json (print_json (JObject [(''a'', JArray [JNumber ''-1.5e3'', JNull]), (''b'', JString ''x<y'')])) =
     Some (JObject [(''a'', JArray [JNumber ''-1.5e3'', JNull]), (''b'', JString ''x<y'')])"
  using parse_json_print [of "JObject [(''a'', JArray [JNumber ''-1.5e3'', JNull]), (''b'', JString ''x<y'')]"]
  by (simp add: max_nesting_def number_lit_def sign_lit_def int_lit_def frac_lit_def
      exp_lit_def digits1_def is_digit_def valid_utf8.simps utf8_len_def byte_def)

end
