(* ===== verification/Auth.thy ===== *)
theory Auth
  imports Json
begin

text \<open>
  Bearer tokens, \<^verbatim>\<open>internal/api/middleware/jwt.go\<close>: the URL alphabet of \<^verbatim>\<open>encoding/base64\<close> without padding,
  the claims of a token as JSON, signing and checking. HMAC-SHA256 is a parameter \<open>mac\<close> from a key and a
  message to a digest; nothing is assumed of it.
\<close>

section \<open>base64.RawURLEncoding\<close>

definition char64 :: "nat \<Rightarrow> char" where
  "char64 n =
     (if n < 26 then char_of (65 + n) else if n < 52 then char_of (71 + n)
      else if n < 62 then char_of (n - 4) else if n = 62 then CHR ''-'' else CHR ''_'')"

definition val64 :: "char \<Rightarrow> nat option" where
  "val64 c =
     (if between 65 90 c then Some (byte c - 65)
      else if between 97 122 c then Some (byte c - 71)
      else if between 48 57 c then Some (byte c + 4)
      else if c = CHR ''-'' then Some 62
      else if c = CHR ''_'' then Some 63
      else None)"

fun enc64 :: "string \<Rightarrow> nat list" where
  "enc64 [] = []"
| "enc64 [x] = [byte x div 4, byte x mod 4 * 16]"
| "enc64 [x, y] = [byte x div 4, byte x mod 4 * 16 + byte y div 16, byte y mod 16 * 4]"
| "enc64 (x # y # z # s) =
     byte x div 4 # (byte x mod 4 * 16 + byte y div 16) # (byte y mod 16 * 4 + byte z div 64) #
     byte z mod 64 # enc64 s"

text \<open>Bits left over at the end are dropped without a check; a single character at the end is an error.\<close>

fun dec64 :: "nat list \<Rightarrow> string option" where
  "dec64 [] = Some []"
| "dec64 [a] = None"
| "dec64 [a, b] = Some [char_of (a * 4 + b div 16)]"
| "dec64 [a, b, c] = Some [char_of (a * 4 + b div 16), char_of (b mod 16 * 16 + c div 4)]"
| "dec64 (a # b # c # d # s) =
     map_option (\<lambda>t. char_of (a * 4 + b div 16) # char_of (b mod 16 * 16 + c div 4) #
       char_of (c mod 4 * 64 + d) # t) (dec64 s)"

definition EncodeToString :: "string \<Rightarrow> string" where
  "EncodeToString s = map char64 (enc64 s)"

text \<open>Line breaks are skipped wherever they are.\<close>

definition DecodeString :: "string \<Rightarrow> string option" where
  "DecodeString s =
     (let vs = map val64 (filter (\<lambda>c. c \<noteq> CHR 0x0A \<and> c \<noteq> CHR 0x0D) s)
      in if None \<in> set vs then None else dec64 (map the vs))"

lemma byte_less: "byte c < 256"
  by (simp add: byte_def)

lemma char_of_byte [simp]: "char_of (byte c) = c"
  by (simp add: byte_def)

lemma enc64_range: "\<forall>n \<in> set (enc64 s). n < 64"
proof (induction s rule: enc64.induct)
  case (2 x)
  then show ?case using byte_less [of x] by auto
next
  case (3 x y)
  then show ?case using byte_less [of x] byte_less [of y] by auto
next
  case (4 x y z s)
  then show ?case using byte_less [of x] byte_less [of y] byte_less [of z] by auto
qed simp

lemma val64_char64: "n < 64 \<Longrightarrow> val64 (char64 n) = Some n"
  by (auto simp: val64_def char64_def between_def byte_def)

lemma char64_plain: "n < 64 \<Longrightarrow> char64 n \<notin> {CHR 0x0A, CHR 0x0D, CHR ''.''}"
  by (auto simp: char64_def dest!: arg_cong [where f = "of_char :: char \<Rightarrow> nat"])

lemma dec64_enc64: "dec64 (enc64 s) = Some s"
proof (induction s rule: enc64.induct)
  case (2 x)
  have "byte x div 4 * 4 + byte x mod 4 = byte x" by simp
  then show ?case by simp
next
  case (3 x y)
  have "byte x div 4 * 4 + (byte x mod 4 * 16 + byte y div 16) div 16 = byte x"
    using byte_less [of y] by simp
  moreover have "(byte x mod 4 * 16 + byte y div 16) mod 16 * 16 + byte y mod 16 * 4 div 4 = byte y"
    using byte_less [of y] by simp
  ultimately show ?case by simp
next
  case (4 x y z s)
  have "byte x div 4 * 4 + (byte x mod 4 * 16 + byte y div 16) div 16 = byte x"
    using byte_less [of y] by simp
  moreover have "(byte x mod 4 * 16 + byte y div 16) mod 16 * 16 + (byte y mod 16 * 4 + byte z div 64) div 4 = byte y"
    using byte_less [of y] byte_less [of z] by simp
  moreover have "(byte y mod 16 * 4 + byte z div 64) mod 4 * 64 + byte z mod 64 = byte z"
    using byte_less [of z] by simp
  ultimately show ?case using 4 by simp
qed simp

lemma DecodeString_EncodeToString: "DecodeString (EncodeToString s) = Some s"
proof -
  have f: "filter (\<lambda>c. c \<noteq> CHR 0x0A \<and> c \<noteq> CHR 0x0D) (EncodeToString s) = EncodeToString s"
    using enc64_range [of s] char64_plain by (auto simp: EncodeToString_def filter_id_conv)
  have v: "map val64 (EncodeToString s) = map Some (enc64 s)"
    using enc64_range [of s] by (auto simp: EncodeToString_def val64_char64)
  have "map (the \<circ> Some) (enc64 s) = enc64 s" by (simp add: comp_def)
  then show ?thesis unfolding DecodeString_def Let_def f v by (auto simp: dec64_enc64)
qed

lemma EncodeToString_no_dot: "CHR ''.'' \<notin> set (EncodeToString s)"
proof
  assume "CHR ''.'' \<in> set (EncodeToString s)"
  then obtain n where "n \<in> set (enc64 s)" "char64 n = CHR ''.''" by (auto simp: EncodeToString_def)
  with enc64_range [of s] char64_plain [of n] show False by simp
qed

section \<open>Claims\<close>

record Claims =
  cl_Sub :: string
  cl_Role :: string
  cl_TenantID :: int
  cl_Iat :: int
  cl_Exp :: int

definition zero_Claims :: Claims where
  "zero_Claims = \<lparr>cl_Sub = [], cl_Role = [], cl_TenantID = 0, cl_Iat = 0, cl_Exp = 0\<rparr>"

definition claims_fields :: "Claims fields" where
  "claims_fields =
     [(''sub'', string_field (\<lambda>v c. c\<lparr>cl_Sub := v\<rparr>)),
      (''role'', string_field (\<lambda>v c. c\<lparr>cl_Role := v\<rparr>)),
      (''tenant_id'', int_field (\<lambda>v c. c\<lparr>cl_TenantID := v\<rparr>)),
      (''iat'', int_field (\<lambda>v c. c\<lparr>cl_Iat := v\<rparr>)),
      (''exp'', int_field (\<lambda>v c. c\<lparr>cl_Exp := v\<rparr>))]"

definition claims_json :: "Claims \<Rightarrow> json" where
  "claims_json c = JObject
     [(''sub'', JString (cl_Sub c)), (''role'', JString (cl_Role c)), (''tenant_id'', JNumber (itoa (cl_TenantID c))),
      (''iat'', JNumber (itoa (cl_Iat c))), (''exp'', JNumber (itoa (cl_Exp c)))]"

definition wf_claims :: "Claims \<Rightarrow> bool" where
  "wf_claims c \<longleftrightarrow> valid_utf8 (cl_Sub c) \<and> valid_utf8 (cl_Role c) \<and>
     in_int64 (cl_TenantID c) \<and> in_int64 (cl_Iat c) \<and> in_int64 (cl_Exp c)"

section \<open>Tokens\<close>

text \<open>
  The signing key of the process: the configured one, else 32 random bytes, drawn once and kept. The result
  is the key and the variable afterwards.
\<close>

definition init_secret :: "string \<Rightarrow> string option" where
  "init_secret JWT_SECRET = (if JWT_SECRET \<noteq> [] then Some JWT_SECRET else None)"

definition secret :: "string \<Rightarrow> string option \<Rightarrow> string \<times> string option" where
  "secret random jwtSecret =
     (case jwtSecret of Some k \<Rightarrow> (k, jwtSecret) | None \<Rightarrow> (random, Some random))"

definition token_header :: string where
  "token_header = [CHR ''{'', CHR 0x22] @ ''alg'' @ [CHR 0x22, CHR '':'', CHR 0x22] @ ''HS256'' @
     [CHR 0x22, CHR '','', CHR 0x22] @ ''typ'' @ [CHR 0x22, CHR '':'', CHR 0x22] @ ''JWT'' @ [CHR 0x22, CHR ''}'']"

definition SignToken :: "(string \<Rightarrow> string \<Rightarrow> string) \<Rightarrow> string \<Rightarrow> Claims \<Rightarrow> string" where
  "SignToken mac key claims =
     (let header = EncodeToString token_header;
          payload = EncodeToString (print_json (claims_json claims));
          unsigned = header @ ''.'' @ payload;
          sig = EncodeToString (mac key unsigned)
      in unsigned @ ''.'' @ sig)"

text \<open>The reasons for which a token is refused; their texts are those of \<^verbatim>\<open>JWTError\<close>.\<close>

datatype jwt_error = BadFormat | BadSignature | BadEncoding | BadClaims | Expired

primrec jwt_error_text :: "jwt_error \<Rightarrow> string" where
  "jwt_error_text BadFormat = ''jwt: invalid token format''"
| "jwt_error_text BadSignature = ''jwt: invalid signature''"
| "jwt_error_text BadEncoding = ''jwt: invalid payload encoding''"
| "jwt_error_text BadClaims = ''jwt: invalid claims''"
| "jwt_error_text Expired = ''jwt: token expired''"

definition ParseToken :: "(string \<Rightarrow> string \<Rightarrow> string) \<Rightarrow> string \<Rightarrow> time \<Rightarrow> string \<Rightarrow> jwt_error + Claims" where
  "ParseToken mac key now token =
     (case Split (CHR ''.'') token of
        [p0, p1, p2] \<Rightarrow>
          let unsigned = p0 @ ''.'' @ p1;
              expectedSig = EncodeToString (mac key unsigned)
          in if p2 \<noteq> expectedSig then Inl BadSignature
             else (case DecodeString p1 of
                     None \<Rightarrow> Inl BadEncoding
                   | Some payload \<Rightarrow> (case Unmarshal claims_fields payload zero_Claims of
                       None \<Rightarrow> Inl BadClaims
                     | Some claims \<Rightarrow> if now div second > cl_Exp claims then Inl Expired else Inr claims))
      | _ \<Rightarrow> Inl BadFormat)"

section \<open>Facts\<close>

lemma hd_dec_nat_zero: "hd (dec_nat n) = CHR ''0'' \<Longrightarrow> n = 0"
proof (induction n rule: dec_nat.induct)
  case (1 n)
  show ?case
  proof (cases "n < 10")
    case True
    then have "digit_char n = CHR ''0''" using 1 by (simp add: dec_nat.simps [of n])
    then have "(of_char (digit_char n) :: nat) = 48" by simp
    with True show ?thesis by simp
  next
    case False
    then have "hd (dec_nat (n div 10)) = CHR ''0''"
      using 1 dec_nat_digits [of "n div 10"] by (simp add: dec_nat.simps [of n])
    with 1 False have "n div 10 = 0" by blast
    with False show ?thesis by simp
  qed
qed

lemma int_lit_dec_nat: "int_lit (dec_nat n) = Some (dec_nat n, [])"
proof -
  obtain c r where d: "dec_nat n = c # r" "is_digit c" "list_all is_digit (c # r)"
    using dec_nat_digits [of n] by (cases "dec_nat n") auto
  have "takeWhile is_digit (c # r) = c # r" "dropWhile is_digit (c # r) = []"
    using d(3) by (auto simp: list_all_iff takeWhile_eq_all_conv)
  moreover have "r = []" if "c = CHR ''0''"
    using hd_dec_nat_zero [of n] d that by (simp add: dec_nat.simps [of 0])
  ultimately show ?thesis using d by (auto simp: int_lit_def)
qed

lemma itoa_number: "number_lit (itoa n) = Some (itoa n, [])"
  using hd_dec_nat [of "nat n"] dec_nat_digits [of "nat n"] int_lit_dec_nat [of "nat n"]
  by (cases "dec_nat (nat n)")
    (auto simp: number_lit_def itoa_def sign_lit_def int_lit_dec_nat frac_lit_def exp_lit_def)

lemma utf8_ascii: "list_all (\<lambda>c. byte c < 0x80) s \<Longrightarrow> valid_utf8 s"
  by (induction s) (simp_all add: valid_utf8.simps [of "[]"] valid_utf8.simps [of "_ # _"] utf8_len_def)

interpretation claims: struct_codec wf_claims claims_json claims_fields zero_Claims
proof
  fix c
  assume "wf_claims c"
  then show "wf_json max_nesting (claims_json c)"
    by (simp add: wf_claims_def claims_json_def max_nesting_def itoa_number utf8_ascii byte_def)
  from \<open>wf_claims c\<close> show "set_struct claims_fields (claims_json c) zero_Claims = Some c"
    by (simp add: set_struct_def claims_json_def claims_fields_def field_of_def string_field_def int_field_def
        Atoi_itoa zero_Claims_def wf_claims_def)
qed

lemma Split_pair: "Split c s = [x] \<Longrightarrow> s = x \<and> c \<notin> set x"
  by (induction s arbitrary: x) (auto split: if_splits list.splits)

lemma Split_Cons:
  "Split c s = x # y # ys \<Longrightarrow> \<exists>t. s = x @ c # t \<and> c \<notin> set x \<and> Split c t = y # ys"
proof (induction s arbitrary: x)
  case (Cons a s)
  show ?case
  proof (cases "a = c")
    case False
    then obtain x' where "Split c s = x' # y # ys" "x = a # x'"
      using Cons.prems by (auto split: list.splits)
    with Cons.IH [of x'] False show ?thesis by auto
  qed (use Cons.prems in auto)
qed simp

lemma Split_three:
  "Split c s = [x, y, z] \<longleftrightarrow> s = x @ c # y @ c # z \<and> c \<notin> set x \<and> c \<notin> set y \<and> c \<notin> set z"
proof
  assume "Split c s = [x, y, z]"
  then obtain t where "s = x @ c # t" "c \<notin> set x" "Split c t = [y, z]" using Split_Cons by blast
  moreover then obtain u where "t = y @ c # u" "c \<notin> set y" "Split c u = [z]" using Split_Cons by blast
  ultimately show "s = x @ c # y @ c # z \<and> c \<notin> set x \<and> c \<notin> set y \<and> c \<notin> set z"
    using Split_pair [of c u z] by blast
qed (simp add: Split_append_sep Split_no_sep)

text \<open>What an accepted token is.\<close>

definition genuine :: "(string \<Rightarrow> string \<Rightarrow> string) \<Rightarrow> string \<Rightarrow> time \<Rightarrow> string \<Rightarrow> Claims \<Rightarrow> bool" where
  "genuine mac key now token claims \<longleftrightarrow>
     (\<exists>header payload body. token = header @ ''.'' @ payload @ ''.'' @ EncodeToString (mac key (header @ ''.'' @ payload)) \<and>
        CHR ''.'' \<notin> set header \<and> CHR ''.'' \<notin> set payload \<and> DecodeString payload = Some body \<and>
        Unmarshal claims_fields body zero_Claims = Some claims \<and> now div second \<le> cl_Exp claims)"

lemma ParseToken_Inr:
  "ParseToken mac key now token = Inr claims \<longleftrightarrow> genuine mac key now token claims"
proof -
  have "ParseToken mac key now token = Inr claims \<longleftrightarrow>
    (\<exists>p0 p1 p2 body. Split (CHR ''.'') token = [p0, p1, p2] \<and> p2 = EncodeToString (mac key (p0 @ ''.'' @ p1)) \<and>
       DecodeString p1 = Some body \<and> Unmarshal claims_fields body zero_Claims = Some claims \<and>
       now div second \<le> cl_Exp claims)"
    by (auto simp: ParseToken_def Let_def not_less split: list.splits option.splits)
  then show ?thesis
    by (auto simp: genuine_def Split_three EncodeToString_no_dot)
qed

lemma SignToken_genuine:
  "wf_claims claims \<Longrightarrow> now div second \<le> cl_Exp claims \<Longrightarrow>
     genuine mac key now (SignToken mac key claims) claims"
  unfolding genuine_def SignToken_def Let_def
  by (intro exI [of _ "EncodeToString token_header"] exI [of _ "EncodeToString (print_json (claims_json claims))"]
      exI [of _ "print_json (claims_json claims)"])
    (simp add: EncodeToString_no_dot DecodeString_EncodeToString claims.Unmarshal_written)

lemma ParseToken_signed:
  assumes "wf_claims claims"
  shows "ParseToken mac key now (SignToken mac key claims) =
    (if now div second \<le> cl_Exp claims then Inr claims else Inl Expired)"
proof -
  have s: "Split (CHR ''.'') (SignToken mac key claims) = [EncodeToString token_header,
      EncodeToString (print_json (claims_json claims)), EncodeToString (mac key (EncodeToString token_header @ ''.'' @
        EncodeToString (print_json (claims_json claims))))]"
    by (subst Split_three) (simp add: SignToken_def Let_def EncodeToString_no_dot)
  show ?thesis
    unfolding ParseToken_def s
    by (simp add: DecodeString_EncodeToString claims.Unmarshal_written [OF assms] Let_def not_less)
qed

section \<open>Properties\<close>

text \<open>
  Round trip of tokens: a token signed for some claims is accepted by the same process up to and including the
  second in which it expires, with exactly these claims, and refused as expired afterwards.
\<close>

theorem ParseToken_SignToken:
  assumes "wf_claims claims"
  shows "ParseToken mac key now (SignToken mac key claims) =
    (if now div second \<le> cl_Exp claims then Inr claims else Inl Expired)"
  using assms by (rule ParseToken_signed)

definition sample_claims :: Claims where
  "sample_claims = \<lparr>cl_Sub = ''admin'', cl_Role = ''admin'', cl_TenantID = 7, cl_Iat = 100, cl_Exp = 3700\<rparr>"

theorem ParseToken_SignToken_witness:
  "ParseToken (\<lambda>k m. k @ m) ''key'' (3700 * second) (SignToken (\<lambda>k m. k @ m) ''key'' sample_claims) = Inr sample_claims"
  using ParseToken_SignToken [of sample_claims "\<lambda>k m. k @ m" "''key''" "3700 * second"]
  by (simp add: sample_claims_def wf_claims_def utf8_ascii byte_def in_int64_def)

text \<open>
  C11. Authenticity: a token is accepted exactly when it is a header and a payload without dots followed by the digest of
  both under the process's key, the payload holds claims, and they have not expired. In particular a token whose
  first two parts were changed is only accepted if the digest of the changed text is the old one.
\<close>

theorem ParseToken_authentic:
  assumes "CHR ''.'' \<notin> set header" "CHR ''.'' \<notin> set payload"
  shows "(ParseToken mac key now token = Inr claims \<longleftrightarrow> genuine mac key now token claims) \<and>
    (mac key (header @ ''.'' @ payload) \<noteq> mac key original \<longrightarrow>
       ParseToken mac key now (header @ ''.'' @ payload @ ''.'' @ EncodeToString (mac key original)) = Inl BadSignature)"
proof -
  let ?t = "header @ ''.'' @ payload @ ''.'' @ EncodeToString (mac key original)"
  have "Split (CHR ''.'') ?t = [header, payload, EncodeToString (mac key original)]"
    using assms by (subst Split_three) (simp add: EncodeToString_no_dot)
  then have "mac key (header @ ''.'' @ payload) \<noteq> mac key original \<longrightarrow> ParseToken mac key now ?t = Inl BadSignature"
    using DecodeString_EncodeToString by (auto simp: ParseToken_def Let_def) (metis option.inject)
  with ParseToken_Inr show ?thesis by blast
qed

theorem ParseToken_authentic_witness:
  "ParseToken (\<lambda>k m. k @ m) ''key'' 0 (''aGk.aGk.'' @ EncodeToString (''key'' @ ''ab'')) = Inl BadSignature"
  using ParseToken_authentic [of "''aGk''" "''aGk''" "\<lambda>k m. k @ m" "''key''" 0 "[]" zero_Claims "''ab''"]
  by simp

end
