(* ===== verification/Handlers.thy ===== *)
theory Handlers
  imports System Auth
begin

text \<open>
  \<^verbatim>\<open>internal/api/handler\<close> and \<^verbatim>\<open>internal/api/middleware\<close>: the HTTP surface of the API and scheduler processes, from a
  request as the router hands it over to the answer. A response is its status and the value its body is the
  JSON of; headers are left out. gin decides which registration a request matches, so a registered
  route is an argument; the tunnel for WebSockets and the static files are not modelled. A time in a body that is
  written with escapes in its string is read here and refused by Go.
\<close>

section \<open>Requests and responses\<close>

record http_request =
  rq_Method :: string
  rq_Path :: string
  rq_id :: string
  rq_Query :: "(string, string) gomap"
  rq_Authorization :: string
  rq_TenantHeader :: string
  rq_Body :: string
  rq_Ctx :: ctx
  rq_Claims :: "Claims option"

datatype payload =
    NoBody
  | Pairs "(string \<times> string) list"
  | Text string
  | TaskBody Task
  | TaskList "Task list"
  | DagBody "DAGNode list"
  | InstanceBody TaskInstance
  | InstanceList InstanceListResult
  | WorkerBody WorkerNode
  | WorkerList "WorkerNode list"
  | LoadList "WorkerLoadSnapshot list"
  | LoginBody string string int
  | PublishBody publish_response

record response =
  rs_Status :: int
  rs_Body :: payload

type_synonym 'a handler = "http_request \<Rightarrow> ('a, response) go"

definition writeJSON :: "int \<Rightarrow> payload \<Rightarrow> ('a, response) go" where
  "writeJSON status v = State_Monad.return \<lparr>rs_Status = status, rs_Body = v\<rparr>"

abbreviation write_error :: "int \<Rightarrow> string \<Rightarrow> ('a, response) go" where
  "write_error status msg \<equiv> writeJSON status (Pairs [(''error'', msg)])"

definition methodNotAllowed :: "string \<Rightarrow> ('a, response) go" where
  "methodNotAllowed meth = writeJSON 405 (Pairs [(''error'', ''method not allowed''), (''method'', meth)])"

definition Health :: "'a handler" where
  "Health r = writeJSON 200 (Pairs [(''status'', ''ok'')])"

text \<open>\<^verbatim>\<open>errors.Is\<close>, \<^verbatim>\<open>strings.Contains\<close>, \<^verbatim>\<open>strings.TrimPrefix\<close> and \<^verbatim>\<open>url.Values.Get\<close>\<close>

fun errors_Is :: "error \<Rightarrow> error \<Rightarrow> bool" where
  "errors_Is (Wrapped s e) target \<longleftrightarrow> Wrapped s e = target \<or> errors_Is e target"
| "errors_Is e target \<longleftrightarrow> e = target"

fun Contains :: "string \<Rightarrow> string \<Rightarrow> bool" where
  "Contains [] p = (p = [])"
| "Contains (c # s) p \<longleftrightarrow> is_prefix p (c # s) \<or> Contains s p"

definition TrimPrefix :: "string \<Rightarrow> string \<Rightarrow> string" where
  "TrimPrefix s p = (if is_prefix p s then drop (length p) s else s)"

definition Query_Get :: "(string, string) gomap \<Rightarrow> string \<Rightarrow> string" where
  "Query_Get q k = the_default [] (mget q k)"

section \<open>Bodies\<close>

text \<open>\<^verbatim>\<open>time.Time.UnmarshalJSON\<close>: RFC 3339 without the leniency of \<^verbatim>\<open>time.Parse\<close> about the zone's hour.\<close>

definition json_time :: "string \<Rightarrow> time option" where
  "json_time s =
     (case ParseRFC3339Nano s of
        None \<Rightarrow> None
      | Some t \<Rightarrow>
         if last s \<noteq> CHR ''Z'' \<and> 24 \<le> digits_val (take 2 (drop (length s - 5) s)) then None else Some t)"

definition time_field :: "(time \<Rightarrow> 'r \<Rightarrow> 'r) \<Rightarrow> json \<Rightarrow> 'r \<Rightarrow> 'r option" where
  "time_field upd j x =
     (case j of JNull \<Rightarrow> Some x | JString s \<Rightarrow> map_option (\<lambda>t. upd t x) (json_time s) | _ \<Rightarrow> None)"

text \<open>The request while it is read, with the memory behind its slice of task ids.\<close>

type_synonym upsert_state = "TaskUpsertRequest \<times> int list"

definition ids_field :: "json \<Rightarrow> upsert_state \<Rightarrow> upsert_state option" where
  "ids_field j = (\<lambda>(x, mem).
     case j of
       JNull \<Rightarrow> Some (x\<lparr>u_DependsOn := []\<rparr>, [])
     | JArray vs \<Rightarrow>
         if vs = [] then Some (x\<lparr>u_DependsOn := []\<rparr>, [])
         else map_option (\<lambda>ns. (x\<lparr>u_DependsOn := ns\<rparr>, ns @ drop (length ns) mem)) (int_elems vs mem)
     | _ \<Rightarrow> None)"

definition upsert_fields :: "upsert_state fields" where
  "upsert_fields =
     [(''name'', string_field (\<lambda>v. apfst (\<lambda>x. x\<lparr>u_Name := v\<rparr>))),
      (''type'', string_field (\<lambda>v. apfst (\<lambda>x. x\<lparr>u_Type := v\<rparr>))),
      (''cron_expr'', string_field (\<lambda>v. apfst (\<lambda>x. x\<lparr>u_CronExpr := v\<rparr>))),
      (''payload'', string_field (\<lambda>v. apfst (\<lambda>x. x\<lparr>u_Payload := v\<rparr>))),
      (''image'', string_field (\<lambda>v. apfst (\<lambda>x. x\<lparr>u_Image := v\<rparr>))),
      (''status'', string_field (\<lambda>v. apfst (\<lambda>x. x\<lparr>u_Status := v\<rparr>))),
      (''timeout_seconds'', int_field (\<lambda>v. apfst (\<lambda>x. x\<lparr>u_TimeoutSeconds := v\<rparr>))),
      (''max_retry'', int_field (\<lambda>v. apfst (\<lambda>x. x\<lparr>u_MaxRetry := v\<rparr>))),
      (''retry_policy'', string_field (\<lambda>v. apfst (\<lambda>x. x\<lparr>u_RetryPolicy := v\<rparr>))),
      (''retry_on_errors'', string_field (\<lambda>v. apfst (\<lambda>x. x\<lparr>u_RetryOnErrors := v\<rparr>))),
      (''route_strategy'', string_field (\<lambda>v. apfst (\<lambda>x. x\<lparr>u_RouteStrategy := v\<rparr>))),
      (''labels'', map_field (u_Labels \<circ> fst) (\<lambda>v. apfst (\<lambda>x. x\<lparr>u_Labels := v\<rparr>))),
      (''next_trigger_time'', time_field (\<lambda>v. apfst (\<lambda>x. x\<lparr>u_NextTriggerTime := v\<rparr>))),
      (''tenant_id'', int_field (\<lambda>v. apfst (\<lambda>x. x\<lparr>u_TenantID := v\<rparr>))),
      (''depends_on'', ids_field)]"

definition zero_TaskUpsertRequest :: TaskUpsertRequest where
  "zero_TaskUpsertRequest = \<lparr>u_Name = [], u_Type = [], u_CronExpr = [], u_Payload = [], u_Image = [], u_Status = [],
     u_TimeoutSeconds = 0, u_MaxRetry = 0, u_RetryPolicy = [], u_RetryOnErrors = [], u_RouteStrategy = [],
     u_Labels = [], u_NextTriggerTime = zero_time, u_TenantID = 0, u_DependsOn = []\<rparr>"

definition decode_upsert :: "string \<Rightarrow> TaskUpsertRequest option" where
  "decode_upsert body = map_option fst (Decode upsert_fields body (zero_TaskUpsertRequest, []))"

definition status_fields :: "TaskStatusReportRequest fields" where
  "status_fields =
     [(''schedule_instance_id'', string_field (\<lambda>v x. x\<lparr>sr_ScheduleInstanceID := v\<rparr>)),
      (''worker_id'', string_field (\<lambda>v x. x\<lparr>sr_WorkerID := v\<rparr>)),
      (''status'', string_field (\<lambda>v x. x\<lparr>sr_Status := v\<rparr>)),
      (''error_code'', string_field (\<lambda>v x. x\<lparr>sr_ErrorCode := v\<rparr>)),
      (''error_message'', string_field (\<lambda>v x. x\<lparr>sr_ErrorMessage := v\<rparr>)),
      (''started_at'', string_field (\<lambda>v x. x\<lparr>sr_StartedAt := v\<rparr>)),
      (''finished_at'', string_field (\<lambda>v x. x\<lparr>sr_FinishedAt := v\<rparr>))]"

definition decode_status :: "string \<Rightarrow> TaskStatusReportRequest option" where
  "decode_status body = Decode status_fields body \<lparr>sr_ScheduleInstanceID = [], sr_WorkerID = [], sr_Status = [],
     sr_ErrorCode = [], sr_ErrorMessage = [], sr_StartedAt = [], sr_FinishedAt = []\<rparr>"

definition registration_fields :: "WorkerRegistrationRequest fields" where
  "registration_fields =
     [(''worker_id'', string_field (\<lambda>v x. x\<lparr>wr_WorkerID := v\<rparr>)),
      (''hostname'', string_field (\<lambda>v x. x\<lparr>wr_Hostname := v\<rparr>)),
      (''ip'', string_field (\<lambda>v x. x\<lparr>wr_IP := v\<rparr>)),
      (''callback_url'', string_field (\<lambda>v x. x\<lparr>wr_CallbackURL := v\<rparr>)),
      (''grpc_addr'', string_field (\<lambda>v x. x\<lparr>wr_GRPCAddr := v\<rparr>)),
      (''protocol'', string_field (\<lambda>v x. x\<lparr>wr_Protocol := v\<rparr>)),
      (''max_concurrency'', int_field (\<lambda>v x. x\<lparr>wr_MaxConcurrency := v\<rparr>)),
      (''labels'', map_field wr_Labels (\<lambda>v x. x\<lparr>wr_Labels := v\<rparr>))]"

definition decode_registration :: "string \<Rightarrow> WorkerRegistrationRequest option" where
  "decode_registration body = Decode registration_fields body \<lparr>wr_WorkerID = [], wr_Hostname = [], wr_IP = [],
     wr_CallbackURL = [], wr_GRPCAddr = [], wr_Protocol = [], wr_MaxConcurrency = 0, wr_Labels = []\<rparr>"

definition heartbeat_fields :: "WorkerHeartbeatRequest fields" where
  "heartbeat_fields =
     [(''worker_id'', string_field (\<lambda>v x. x\<lparr>hr_WorkerID := v\<rparr>)),
      (''current_load'', int_field (\<lambda>v x. x\<lparr>hr_CurrentLoad := v\<rparr>)),
      (''running_tasks'', int_field (\<lambda>v x. x\<lparr>hr_RunningTasks := v\<rparr>)),
      (''report_unix_milli'', int_field (\<lambda>v x. x\<lparr>hr_ReportUnixMilli := v\<rparr>))]"

definition decode_heartbeat :: "string \<Rightarrow> WorkerHeartbeatRequest option" where
  "decode_heartbeat body = Decode heartbeat_fields body
     \<lparr>hr_WorkerID = [], hr_CurrentLoad = 0, hr_RunningTasks = 0, hr_ReportUnixMilli = 0\<rparr>"

definition decode_cancel :: "string \<Rightarrow> string option" where
  "decode_cancel body = Decode [(''schedule_instance_id'', string_field (\<lambda>v _. v))] body []"

record loginRequest =
  lr_Username :: string
  lr_Password :: string

definition decode_login :: "string \<Rightarrow> loginRequest option" where
  "decode_login body = Decode
     [(''username'', string_field (\<lambda>v x. x\<lparr>lr_Username := v\<rparr>)),
      (''password'', string_field (\<lambda>v x. x\<lparr>lr_Password := v\<rparr>))] body \<lparr>lr_Username = [], lr_Password = []\<rparr>"

section \<open>Tasks\<close>

definition task_error_status :: "error \<Rightarrow> int" where
  "task_error_status err =
     (if errors_Is err ErrTaskNameRequired \<or> errors_Is err ErrTaskTypeRequired \<or> errors_Is err ErrTaskIDRequired
          \<or> errors_Is err ErrInvalidCronExpr then 400
      else if errors_Is err ErrTaskNotEnabled then 409
      else if errors_Is err ErrTaskNotOwned then 403
      else if Contains (error_text err) ''not found'' then 404
      else 500)"

definition writeTaskServiceError :: "error \<Rightarrow> ('a, response) go" where
  "writeTaskServiceError err = write_error (task_error_status err) (error_text err)"

text \<open>What handlers do with the outcome of a service: an error by the given writer, else the value.\<close>

definition answer ::
  "(error \<Rightarrow> ('a, response) go) \<Rightarrow> ('a, error + 'b) go \<Rightarrow> int \<Rightarrow> ('b \<Rightarrow> payload) \<Rightarrow> ('a, response) go" where
  "answer bad m status show = do {
     x \<leftarrow> m;
     case x of Inl err \<Rightarrow> bad err | Inr v \<Rightarrow> writeJSON status (show v) }"

definition write_internal :: "error \<Rightarrow> ('a, response) go" where
  "write_internal err = write_error 500 (error_text err)"

definition parseTaskID :: "string \<Rightarrow> int option" where
  "parseTaskID path = Atoi (TrimPrefix path ''/api/v1/tasks/'')"

definition TaskHandler_Create :: "'a world_scheme TaskService \<Rightarrow> 'a handler" where
  "TaskHandler_Create s r =
     (if rq_Method r \<noteq> ''POST'' then methodNotAllowed (rq_Method r)
      else case decode_upsert (rq_Body r) of
        None \<Rightarrow> write_error 400 ''invalid json body''
      | Some req \<Rightarrow> answer writeTaskServiceError (TaskService_CreateTask s (rq_Ctx r) req) 201 TaskBody)"

text \<open>\<^verbatim>\<open>Pause\<close>, \<^verbatim>\<open>Resume\<close> and \<^verbatim>\<open>Trigger\<close> differ in the method of the service.\<close>

definition post_task :: "(ctx \<Rightarrow> int \<Rightarrow> ('a, error + Task) go) \<Rightarrow> 'a handler" where
  "post_task operation r =
     (if rq_Method r \<noteq> ''POST'' then methodNotAllowed (rq_Method r)
      else case parseTaskID (rq_id r) of
        None \<Rightarrow> write_error 400 ''invalid task id''
      | Some k \<Rightarrow> answer writeTaskServiceError (operation (rq_Ctx r) k) 200 TaskBody)"

definition TaskHandler_Pause :: "'a world_scheme TaskService \<Rightarrow> 'a handler" where
  "TaskHandler_Pause s = post_task (PauseTask s)"

definition TaskHandler_Resume :: "'a world_scheme TaskService \<Rightarrow> 'a handler" where
  "TaskHandler_Resume s = post_task (ResumeTask s)"

definition TaskHandler_Trigger :: "'a world_scheme TaskService \<Rightarrow> 'a handler" where
  "TaskHandler_Trigger s = post_task (TriggerTask s)"

definition TaskHandler_List :: "'a world_scheme TaskService \<Rightarrow> 'a handler" where
  "TaskHandler_List s r =
     (if rq_Method r = ''POST'' then TaskHandler_Create s r
      else if rq_Method r \<noteq> ''GET'' then methodNotAllowed (rq_Method r)
      else answer write_internal (TaskService_ListTasks s (rq_Ctx r)) 200 TaskList)"

definition GetOrUpdate :: "'a world_scheme TaskService \<Rightarrow> 'a handler" where
  "GetOrUpdate s r =
     (case parseTaskID (rq_Path r) of
        None \<Rightarrow> write_error 400 ''invalid task id''
      | Some k \<Rightarrow>
         if rq_Method r = ''GET'' then answer writeTaskServiceError (TaskService_GetTask s (rq_Ctx r) k) 200 TaskBody
         else if rq_Method r = ''PUT'' then
           (case decode_upsert (rq_Body r) of
              None \<Rightarrow> write_error 400 ''invalid json body''
            | Some req \<Rightarrow> answer writeTaskServiceError (TaskService_UpdateTask s (rq_Ctx r) k req) 200 TaskBody)
         else if rq_Method r = ''DELETE'' then
           answer writeTaskServiceError (TaskService_DeleteTask s (rq_Ctx r) k) 204 (\<lambda>_. NoBody)
         else methodNotAllowed (rq_Method r))"

definition DAG :: "'a world_scheme TaskService \<Rightarrow> 'a handler" where
  "DAG s r = answer write_internal (GetDAG s (rq_Ctx r)) 200 DagBody"

section \<open>Instances\<close>

definition parseTaskInstanceID :: "string \<Rightarrow> int option" where
  "parseTaskInstanceID path = Atoi (TrimPrefix path ''/api/v1/task-instances/'')"

definition writeTaskInstanceServiceError :: "error \<Rightarrow> ('a, response) go" where
  "writeTaskInstanceServiceError err =
     write_error (if errors_Is err ErrTaskInstanceIDRequired then 400
       else if Contains (error_text err) ''not found'' then 404 else 500) (error_text err)"

definition list_params :: "(string, string) gomap \<Rightarrow> ListInstancesParams" where
  "list_params q =
     \<lparr>p_Status = Query_Get q ''status'',
      p_TaskID = (case Atoi (Query_Get q ''task_id'') of Some v \<Rightarrow> if v > 0 then v else 0 | None \<Rightarrow> 0),
      p_Limit = (case Atoi (Query_Get q ''limit'') of Some v \<Rightarrow> if v > 0 then v else 50 | None \<Rightarrow> 50),
      p_Offset = (case Atoi (Query_Get q ''offset'') of Some v \<Rightarrow> if v \<ge> 0 then v else 0 | None \<Rightarrow> 0)\<rparr>"

definition TaskInstanceHandler_List :: "'a world_scheme TaskInstanceRepository \<Rightarrow> 'a handler" where
  "TaskInstanceHandler_List I r =
     (if rq_Method r \<noteq> ''GET'' then methodNotAllowed (rq_Method r)
      else answer write_internal (ListInstancesWithParams I (list_params (rq_Query r))) 200 InstanceList)"

definition TaskInstanceHandler_Get :: "'a world_scheme TaskInstanceRepository \<Rightarrow> 'a handler" where
  "TaskInstanceHandler_Get I r =
     (if rq_Method r \<noteq> ''GET'' then methodNotAllowed (rq_Method r)
      else case parseTaskInstanceID (rq_Path r) of
        None \<Rightarrow> write_error 400 ''invalid task instance id''
      | Some n \<Rightarrow> answer writeTaskInstanceServiceError (TaskInstanceService_GetInstance I n) 200 InstanceBody)"

definition writeTaskRuntimeServiceError :: "error \<Rightarrow> ('a, response) go" where
  "writeTaskRuntimeServiceError err =
     write_error (if errors_Is err ErrScheduleInstanceIDRequired then 400
       else if Contains (error_text err) ''not found'' then 404 else 500) (error_text err)"

definition TaskRuntimeHandler_Report ::
  "'a world_scheme TaskRepository \<Rightarrow> 'a world_scheme TaskInstanceRepository \<Rightarrow> 'a world_scheme WorkerRepository \<Rightarrow>
   TaskRuntimeService \<Rightarrow> 'a handler" where
  "TaskRuntimeHandler_Report T I W s r =
     (if rq_Method r \<noteq> ''POST'' then methodNotAllowed (rq_Method r)
      else case decode_status (rq_Body r) of
        None \<Rightarrow> write_error 400 ''invalid json body''
      | Some req \<Rightarrow> answer writeTaskRuntimeServiceError (ReportStatus T I W s req) 200 (\<lambda>_. Pairs [(''status'', ''ok'')]))"

definition TaskRuntimeHandler_Ack :: "'a handler" where
  "TaskRuntimeHandler_Ack r = writeJSON 200 (Pairs [(''status'', ''ok'')])"

definition TaskRuntimeHandler_Cancel ::
  "'a world_scheme TaskInstanceRepository \<Rightarrow> 'a world_scheme WorkerRepository \<Rightarrow> 'a handler" where
  "TaskRuntimeHandler_Cancel I W r =
     (if rq_Method r \<noteq> ''POST'' then methodNotAllowed (rq_Method r)
      else case decode_cancel (rq_Body r) of
        None \<Rightarrow> write_error 400 ''invalid json body''
      | Some sid \<Rightarrow> answer writeTaskRuntimeServiceError (CancelInstance I W sid) 200 (\<lambda>_. Pairs [(''status'', ''cancelled'')]))"

section \<open>Workers\<close>

definition writeServiceError :: "error \<Rightarrow> ('a, response) go" where
  "writeServiceError err =
     write_error (if errors_Is err ErrWorkerIDRequired \<or> errors_Is err ErrWorkerHostRequired then 400
       else if Contains (error_text err) ''not found'' then 404 else 500) (error_text err)"

definition WorkerHandler_Register :: "'a world_scheme WorkerRepository \<Rightarrow> 'a handler" where
  "WorkerHandler_Register W r =
     (if rq_Method r \<noteq> ''POST'' then methodNotAllowed (rq_Method r)
      else case decode_registration (rq_Body r) of
        None \<Rightarrow> write_error 400 ''invalid json body''
      | Some req \<Rightarrow> answer writeServiceError (RegisterWorker W req) 201 WorkerBody)"

definition WorkerHandler_Heartbeat :: "'a world_scheme WorkerRepository \<Rightarrow> 'a handler" where
  "WorkerHandler_Heartbeat W r =
     (if rq_Method r \<noteq> ''POST'' then methodNotAllowed (rq_Method r)
      else case decode_heartbeat (rq_Body r) of
        None \<Rightarrow> write_error 400 ''invalid json body''
      | Some req \<Rightarrow> answer writeServiceError (Heartbeat W req) 200 WorkerBody)"

definition WorkerHandler_List :: "'a world_scheme WorkerRepository \<Rightarrow> 'a handler" where
  "WorkerHandler_List W r =
     (if rq_Method r \<noteq> ''GET'' then methodNotAllowed (rq_Method r)
      else answer write_internal (WorkerService_ListWorkers W) 200 WorkerList)"

definition WorkerHandler_Get :: "'a world_scheme WorkerRepository \<Rightarrow> 'a handler" where
  "WorkerHandler_Get W r =
     (if rq_Method r \<noteq> ''GET'' then methodNotAllowed (rq_Method r)
      else let workerID = TrimPrefix (rq_Path r) ''/api/v1/workers/'' in
        if TrimSpace workerID = [] then write_error 400 ''worker id is required''
        else answer writeServiceError (WorkerService_GetWorker W workerID) 200 WorkerBody)"

text \<open>The snapshots come from an implementation of \<^verbatim>\<open>repo.WorkerLoadRepository\<close>, the argument \<open>ListSnapshots\<close>.\<close>

definition hour :: duration where
  "hour = 60 * minute"

definition bounded_param :: "(string, string) gomap \<Rightarrow> string \<Rightarrow> int \<Rightarrow> int \<Rightarrow> int" where
  "bounded_param q name most dflt =
     (case Atoi (Query_Get q name) of Some v \<Rightarrow> if v > 0 \<and> v \<le> most then v else dflt | None \<Rightarrow> dflt)"

definition WorkerLoadHandler_List ::
  "(string \<Rightarrow> time \<Rightarrow> time \<Rightarrow> int \<Rightarrow> ('a, error + WorkerLoadSnapshot list) go) \<Rightarrow> 'a handler" where
  "WorkerLoadHandler_List ListSnapshots r = do {
     let workerID = Query_Get (rq_Query r) ''worker_id'';
     let hours = bounded_param (rq_Query r) ''hours'' 168 24;
     let limit = bounded_param (rq_Query r) ''limit'' 2000 500;
     now \<leftarrow> time_now;
     to \<leftarrow> time_now;
     answer write_internal (ListSnapshots workerID (now - hours * hour) to limit) 200 LoadList }"

section \<open>Authentication\<close>

text \<open>What the process checks tokens with: the function behind HMAC-SHA256 and the key \<^verbatim>\<open>secret()\<close> returns.\<close>

record tokens =
  tk_mac :: "string \<Rightarrow> string \<Rightarrow> string"
  tk_key :: string

definition roleWeight :: "(string, int) gomap" where
  "roleWeight = [(''admin'', 3), (''operator'', 2), (''viewer'', 1)]"

definition weight :: "string \<Rightarrow> int" where
  "weight role = the_default 0 (mget roleWeight role)"

definition authenticateUser :: "string \<Rightarrow> string \<Rightarrow> string" where
  "authenticateUser username password =
     (if username = ''admin'' then (if password = ''admin123'' then ''admin'' else [])
      else if username = ''operator'' then (if password = ''operator123'' then ''operator'' else [])
      else if username = ''viewer'' then (if password = ''viewer123'' then ''viewer'' else [])
      else [])"

definition Login :: "tokens \<Rightarrow> 'a handler" where
  "Login tk r =
     (if rq_Method r \<noteq> ''POST'' then writeJSON 405 NoBody
      else case decode_login (rq_Body r) of
        None \<Rightarrow> write_error 400 ''invalid request body''
      | Some req \<Rightarrow>
          let role = authenticateUser (lr_Username req) (lr_Password req) in
          if role = [] then write_error 401 ''invalid credentials''
          else do {
            t \<leftarrow> time_now;
            let now = t div second;
            let claims = zero_Claims\<lparr>cl_Sub := lr_Username req, cl_Role := role, cl_Iat := now, cl_Exp := wrap64 (now + 3600)\<rparr>;
            writeJSON 200 (LoginBody (SignToken (tk_mac tk) (tk_key tk) claims) role 3600) })"

definition GetClaims :: "http_request \<Rightarrow> Claims option" where
  "GetClaims r = rq_Claims r"

definition WithClaims :: "http_request \<Rightarrow> Claims \<Rightarrow> http_request" where
  "WithClaims r claims = r\<lparr>rq_Claims := Some claims\<rparr>"

definition writeAuthError :: "string \<Rightarrow> ('a, response) go" where
  "writeAuthError msg = write_error 401 msg"

definition parse_now :: "tokens \<Rightarrow> string \<Rightarrow> ('a, jwt_error + Claims) go" where
  "parse_now tk token = do { now \<leftarrow> time_now; State_Monad.return (ParseToken (tk_mac tk) (tk_key tk) now token) }"

definition Authenticate :: "tokens \<Rightarrow> 'a handler \<Rightarrow> 'a handler" where
  "Authenticate tk next_handler r =
     (let auth = rq_Authorization r in
      if auth = [] \<or> \<not> is_prefix ''Bearer '' auth then writeAuthError ''missing or malformed authorization header''
      else do {
        parsed \<leftarrow> parse_now tk (TrimPrefix auth ''Bearer '');
        case parsed of
          Inl err \<Rightarrow> writeAuthError (jwt_error_text err)
        | Inr claims \<Rightarrow> next_handler (WithClaims r claims) })"

definition AuthenticateOptional :: "tokens \<Rightarrow> 'a handler \<Rightarrow> 'a handler" where
  "AuthenticateOptional tk next_handler r =
     (let auth = rq_Authorization r in
      if auth \<noteq> [] \<and> is_prefix ''Bearer '' auth then do {
        parsed \<leftarrow> parse_now tk (TrimPrefix auth ''Bearer '');
        next_handler (case parsed of Inr claims \<Rightarrow> WithClaims r claims | Inl _ \<Rightarrow> r) }
      else next_handler r)"

definition RequireRole :: "string list \<Rightarrow> 'a handler \<Rightarrow> 'a handler" where
  "RequireRole roles next_handler r =
     (let minWeight = fold (\<lambda>role m. if weight role > m then weight role else m) roles 0 in
      case GetClaims r of
        None \<Rightarrow> writeAuthError ''authentication required''
      | Some claims \<Rightarrow>
          if weight (cl_Role claims) < minWeight then write_error 403 ''insufficient permissions''
          else next_handler r)"

definition hasBearerPrefix :: "string \<Rightarrow> bool" where
  "hasBearerPrefix s \<longleftrightarrow> 7 \<le> length s \<and> take 7 s = ''Bearer ''"

text \<open>The token of a request: from the header, else from the query.\<close>

definition bearer_token :: "http_request \<Rightarrow> string" where
  "bearer_token r =
     (if rq_Authorization r \<noteq> [] \<and> hasBearerPrefix (rq_Authorization r) then drop 7 (rq_Authorization r)
      else Query_Get (rq_Query r) ''token'')"

text \<open>The role check and the tenant, once the claims are known.\<close>

definition authorize :: "string \<Rightarrow> 'a handler \<Rightarrow> http_request \<Rightarrow> Claims \<Rightarrow> ('a, response) go" where
  "authorize minimumRole next_handler r claims =
     (if weight (cl_Role claims) < weight minimumRole then write_error 403 ''insufficient permissions''
      else next_handler (if cl_TenantID claims > 0 then r\<lparr>rq_Ctx := WithTenant (rq_Ctx r) (cl_TenantID claims)\<rparr> else r))"

definition requireAuth :: "tokens \<Rightarrow> string \<Rightarrow> 'a handler \<Rightarrow> 'a handler" where
  "requireAuth tk minimumRole next_handler r =
     (case GetClaims r of
        Some claims \<Rightarrow> authorize minimumRole next_handler r claims
      | None \<Rightarrow>
          if bearer_token r = [] then write_error 401 ''authentication required''
          else do {
            parsed \<leftarrow> parse_now tk (bearer_token r);
            case parsed of
              Inl _ \<Rightarrow> write_error 401 ''invalid or expired token''
            | Inr claims \<Rightarrow> authorize minimumRole next_handler r claims })"

section \<open>Proxies\<close>

definition http_forward :: "string \<Rightarrow> string \<Rightarrow> string \<Rightarrow> ('a, error + int \<times> string) go" where
  "http_forward meth url body = do {
     n \<leftarrow> reads (\<lambda>w. length (sent w));
     send (HttpForward meth url body);
     reads (\<lambda>w. http_reply w n) }"

definition forward :: "string \<Rightarrow> string \<Rightarrow> string \<Rightarrow> 'a handler" where
  "forward meth target unreachable r = do {
     bad \<leftarrow> reads (\<lambda>w. url_error w target);
     case bad of
       Some err \<Rightarrow> write_error 502 ''proxy error''
     | None \<Rightarrow> do {
         resp \<leftarrow> http_forward meth target (rq_Body r);
         case resp of
           Inl err \<Rightarrow> write_error 502 unreachable
         | Inr (code, body) \<Rightarrow> writeJSON code (Text body) } }"

definition proxyAIHandler :: "string \<Rightarrow> string \<Rightarrow> string \<Rightarrow> 'a handler" where
  "proxyAIHandler AI_SERVICE_URL meth path =
     (let aiServiceURL = (if AI_SERVICE_URL = [] then ''http://127.0.0.1:8083'' else AI_SERVICE_URL)
      in forward meth (trim_slashes aiServiceURL @ ''/api/v1/'' @ path) ''ai service unreachable'')"

definition proxySchedulerHandler :: "string \<Rightarrow> string \<Rightarrow> 'a handler" where
  "proxySchedulerHandler SCHEDULER_URL path =
     (let baseURL = (if SCHEDULER_URL = [] then ''http://127.0.0.1:8081'' else SCHEDULER_URL)
      in forward ''POST'' (trim_slashes baseURL @ ''/api/v1/'' @ path) ''scheduler unreachable'')"

section \<open>Routers\<close>

text \<open>The registrations of \<^verbatim>\<open>NewAPIRouter\<close>.\<close>

datatype api_route =
    login_route | healthz_route | metrics_route
  | list_workers | get_worker | list_tasks | dag_route | get_task_route | create_task_route
  | update_task_route | delete_task_route | pause_route | resume_route | trigger_route
  | list_instances | get_instance_route
  | ai_status | ai_log_analysis | ai_advisor | ai_advisor_auto | ai_predict | ai_trend | ai_create | ai_chat
  | ai_conversations | ai_conversation | events_receive

primrec api_method :: "api_route \<Rightarrow> string" where
  "api_method login_route = ''POST''" | "api_method healthz_route = ''GET''" | "api_method metrics_route = ''GET''"
| "api_method list_workers = ''GET''" | "api_method get_worker = ''GET''" | "api_method list_tasks = ''GET''"
| "api_method dag_route = ''GET''" | "api_method get_task_route = ''GET''" | "api_method create_task_route = ''POST''"
| "api_method update_task_route = ''PUT''" | "api_method delete_task_route = ''DELETE''"
| "api_method pause_route = ''POST''" | "api_method resume_route = ''POST''" | "api_method trigger_route = ''POST''"
| "api_method list_instances = ''GET''" | "api_method get_instance_route = ''GET''"
| "api_method ai_status = ''GET''" | "api_method ai_log_analysis = ''POST''" | "api_method ai_advisor = ''POST''"
| "api_method ai_advisor_auto = ''POST''" | "api_method ai_predict = ''POST''" | "api_method ai_trend = ''POST''"
| "api_method ai_create = ''POST''" | "api_method ai_chat = ''POST''" | "api_method ai_conversations = ''GET''"
| "api_method ai_conversation = ''GET''" | "api_method events_receive = ''POST''"

text \<open>The minimum role of a route; the public ones have none.\<close>

definition api_role :: "api_route \<Rightarrow> string option" where
  "api_role e =
     (if e \<in> {login_route, healthz_route, metrics_route} then None
      else if e = delete_task_route then Some ''admin''
      else if e \<in> {create_task_route, update_task_route, pause_route, resume_route, trigger_route, ai_create, events_receive}
        then Some ''operator''
      else Some ''viewer'')"

record 'w api =
  ap_tokens :: tokens
  ap_service :: "'w TaskService"
  ap_instances :: "'w TaskInstanceRepository"
  ap_workers :: "'w WorkerRepository"
  ap_AI_SERVICE_URL :: string
  ap_SCHEDULER_URL :: string

definition metrics_handler :: "'a handler" where
  "metrics_handler r = do { text \<leftarrow> reads (Render \<circ> registry); writeJSON 200 (Text text) }"

primrec api_handler :: "'a world_scheme api \<Rightarrow> api_route \<Rightarrow> 'a handler" where
  "api_handler a login_route = Login (ap_tokens a)"
| "api_handler a healthz_route = Health"
| "api_handler a metrics_route = metrics_handler"
| "api_handler a list_workers = WorkerHandler_List (ap_workers a)"
| "api_handler a get_worker = WorkerHandler_Get (ap_workers a)"
| "api_handler a list_tasks = TaskHandler_List (ap_service a)"
| "api_handler a dag_route = DAG (ap_service a)"
| "api_handler a get_task_route = GetOrUpdate (ap_service a)"
| "api_handler a create_task_route = TaskHandler_List (ap_service a)"
| "api_handler a update_task_route = GetOrUpdate (ap_service a)"
| "api_handler a delete_task_route = GetOrUpdate (ap_service a)"
| "api_handler a pause_route = TaskHandler_Pause (ap_service a)"
| "api_handler a resume_route = TaskHandler_Resume (ap_service a)"
| "api_handler a trigger_route = TaskHandler_Trigger (ap_service a)"
| "api_handler a list_instances = TaskInstanceHandler_List (ap_instances a)"
| "api_handler a get_instance_route = TaskInstanceHandler_Get (ap_instances a)"
| "api_handler a ai_status = proxyAIHandler (ap_AI_SERVICE_URL a) ''GET'' ''status''"
| "api_handler a ai_log_analysis = proxyAIHandler (ap_AI_SERVICE_URL a) ''POST'' ''log-analysis/analyze''"
| "api_handler a ai_advisor = proxyAIHandler (ap_AI_SERVICE_URL a) ''POST'' ''advisor/generate''"
| "api_handler a ai_advisor_auto = proxyAIHandler (ap_AI_SERVICE_URL a) ''POST'' ''advisor/auto''"
| "api_handler a ai_predict = proxyAIHandler (ap_AI_SERVICE_URL a) ''POST'' ''task/predict-duration''"
| "api_handler a ai_trend = proxyAIHandler (ap_AI_SERVICE_URL a) ''POST'' ''trend/analyze''"
| "api_handler a ai_create = proxyAIHandler (ap_AI_SERVICE_URL a) ''POST'' ''task/create''"
| "api_handler a ai_chat = proxyAIHandler (ap_AI_SERVICE_URL a) ''POST'' ''chat''"
| "api_handler a ai_conversations = proxyAIHandler (ap_AI_SERVICE_URL a) ''GET'' ''conversations''"
| "api_handler a ai_conversation = (\<lambda>r. proxyAIHandler (ap_AI_SERVICE_URL a) ''GET''
     (''conversations/'' @ TrimPrefix (rq_Path r) ''/api/v1/ai/conversations/'') r)"
| "api_handler a events_receive = proxySchedulerHandler (ap_SCHEDULER_URL a) ''events/publish''"

definition Instrument :: "string \<Rightarrow> 'a handler \<Rightarrow> 'a handler" where
  "Instrument service next_handler r = do {
     resp \<leftarrow> next_handler r;
     inc_counter ''http_requests_total'' [(''service'', service), (''method'', rq_Method r), (''path'', rq_Path r),
       (''status'', itoa (rs_Status resp))];
     State_Monad.return resp }"

text \<open>A request that matched a registration, through the middlewares around the engine.\<close>

definition serve_api :: "'a world_scheme api \<Rightarrow> api_route \<Rightarrow> 'a handler" where
  "serve_api a e = Instrument ''api'' (\<lambda>r.
     let r = r\<lparr>rq_Ctx := Middleware (rq_TenantHeader r) (rq_Ctx r)\<rparr> in
     case api_role e of
       None \<Rightarrow> api_handler a e r
     | Some role \<Rightarrow> requireAuth (ap_tokens a) role (api_handler a e) r)"

text \<open>\<^verbatim>\<open>NewSchedulerRouter\<close>; the decoded body of an event is an argument, see \<^verbatim>\<open>Scheduler.thy\<close>.\<close>

datatype scheduler_route =
    sr_healthz | sr_metrics | sr_register | sr_heartbeat | sr_report | sr_publish "publishEventRequest option"
  | sr_receive "publishEventRequest option" | sr_cancel | sr_ack | sr_worker_loads

record 'w scheduler_api =
  sa_tasks :: "'w TaskRepository"
  sa_instances :: "'w TaskInstanceRepository"
  sa_workers :: "'w WorkerRepository"
  sa_runtime :: TaskRuntimeService
  sa_snapshots :: "string \<Rightarrow> time \<Rightarrow> time \<Rightarrow> int \<Rightarrow> ('w, error + WorkerLoadSnapshot list) state"

primrec publish_status :: "publish_response \<Rightarrow> int" where
  "publish_status MethodNotAllowed = 405"
| "publish_status (BadRequest msg) = 400"
| "publish_status InternalServerError = 500"
| "publish_status (Published name n) = 200"

definition publish_handler ::
  "'a world_scheme scheduler_api \<Rightarrow> publishEventRequest option \<Rightarrow> 'a handler" where
  "publish_handler a body r = do {
     resp \<leftarrow> Publish (sa_tasks a) (sa_instances a) (sa_workers a) (rq_Method r) body;
     writeJSON (publish_status resp) (PublishBody resp) }"

primrec scheduler_handler :: "'a world_scheme scheduler_api \<Rightarrow> scheduler_route \<Rightarrow> 'a handler" where
  "scheduler_handler a sr_healthz = Health"
| "scheduler_handler a sr_metrics = metrics_handler"
| "scheduler_handler a sr_register = WorkerHandler_Register (sa_workers a)"
| "scheduler_handler a sr_heartbeat = WorkerHandler_Heartbeat (sa_workers a)"
| "scheduler_handler a sr_report = TaskRuntimeHandler_Report (sa_tasks a) (sa_instances a) (sa_workers a) (sa_runtime a)"
| "scheduler_handler a (sr_publish body) = publish_handler a body"
| "scheduler_handler a (sr_receive body) = publish_handler a body"
| "scheduler_handler a sr_cancel = TaskRuntimeHandler_Cancel (sa_instances a) (sa_workers a)"
| "scheduler_handler a sr_ack = TaskRuntimeHandler_Ack"
| "scheduler_handler a sr_worker_loads = WorkerLoadHandler_List (sa_snapshots a)"

definition serve_scheduler :: "'a world_scheme scheduler_api \<Rightarrow> scheduler_route \<Rightarrow> 'a handler" where
  "serve_scheduler a e = Instrument ''scheduler'' (scheduler_handler a e)"

section \<open>Requests that only read\<close>

abbreviation api_on ::
  "'w TaskRepository \<Rightarrow> 'w TaskInstanceRepository \<Rightarrow> 'w WorkerRepository \<Rightarrow> tokens \<Rightarrow> bool \<Rightarrow> string \<Rightarrow> string \<Rightarrow> 'w api" where
  "api_on T I W tk au ai sch \<equiv> \<lparr>ap_tokens = tk, ap_service = \<lparr>svc_repo = T, svc_auditor = au\<rparr>, ap_instances = I,
     ap_workers = W, ap_AI_SERVICE_URL = ai, ap_SCHEDULER_URL = sch\<rparr>"

lemma weight_cases:
  "weight ''admin'' = 3" "weight ''operator'' = 2" "weight ''viewer'' = 1"
  "2 \<le> weight role \<longleftrightarrow> role \<in> {''operator'', ''admin''}" "3 \<le> weight role \<longleftrightarrow> role = ''admin''"
  by (auto simp: weight_def roleWeight_def the_default_def)

lemma bearer_token_ctx [simp]: "bearer_token (r\<lparr>rq_Ctx := c\<rparr>) = bearer_token r"
  by (simp add: bearer_token_def)

context repositories
begin

definition quiet :: "('a, 'b) go \<Rightarrow> bool" where
  "quiet m \<longleftrightarrow> (\<forall>w. ok w \<longrightarrow> wp m (\<lambda>_ w'. ok w' \<and> vw w' = vw w) w)"

lemma quiet_return: "quiet (State_Monad.return x)"
  by (simp add: quiet_def)

lemma quiet_bind: "quiet m \<Longrightarrow> (\<And>x. quiet (f x)) \<Longrightarrow> quiet (State_Monad.bind m f)"
  unfolding quiet_def
proof (intro allI impI)
  fix w
  assume m: "\<forall>w. ok w \<longrightarrow> wp m (\<lambda>_ w'. ok w' \<and> vw w' = vw w) w"
    and f: "\<And>x. \<forall>w. ok w \<longrightarrow> wp (f x) (\<lambda>_ w'. ok w' \<and> vw w' = vw w) w" and ok: "ok w"
  show "wp (State_Monad.bind m f) (\<lambda>_ w'. ok w' \<and> vw w' = vw w) w"
    unfolding wp_bind by (rule wp_mono [OF m [rule_format, OF ok]]) (metis f)
qed

lemma quiet_if_ok: "quiet m \<Longrightarrow> (\<And>x. quiet (f x)) \<Longrightarrow> quiet (if_ok m f)"
  unfolding if_ok_def by (rule quiet_bind) (auto intro: quiet_return split: sum.split)

lemma quiet_effects:
  "quiet time_now" "quiet (reads g)" "quiet (send m)" "quiet (inc_counter n l)"
  by (simp_all add: quiet_def)

lemma quiet_reads_of_stores:
  "quiet (GetWorker W s)" "quiet (ListWorkers W)" "quiet (GetTask T k)" "quiet (ListTasks T)"
  "quiet (ListTasksByTenant T tid)" "quiet (ListUpstreamDeps T k)" "quiet (GetInstance I n)"
  "quiet (ListInstances I)" "quiet (ListInstancesByTaskID I k)" "quiet (ListInstancesByStatus I st n)"
proof -
  have r: "quiet m" if "\<And>w. ok w \<Longrightarrow> \<exists>x. run_state m w = (x, w)" for m :: "('a, 'c) go"
    using that unfolding quiet_def wp_iff by blast
  have e: "quiet m" if "\<And>w. ok w \<Longrightarrow> \<exists>x. run_state m w = (Inr x, w) \<and> P x w" for m :: "('a, error + 'c) go" and P
    using that by (intro r) blast
  show "quiet (GetWorker W s)" "quiet (GetTask T k)" "quiet (GetInstance I n)" "quiet (ListUpstreamDeps T k)"
    using get_worker get_task get_instance list_upstream by (auto intro!: r)
  show "quiet (ListWorkers W)" by (rule e) (rule list_workers)
  show "quiet (ListTasks T)" by (rule e) (rule list_tasks)
  show "quiet (ListTasksByTenant T tid)" by (rule e) (rule list_tasks_by_tenant)
  show "quiet (ListInstances I)" by (rule e) (rule list_instances)
  show "quiet (ListInstancesByTaskID I k)" by (rule e) (rule list_by_task)
  show "quiet (ListInstancesByStatus I st n)" using list_by_status by (blast intro!: r)
qed

lemmas quiet_intros = quiet_return quiet_bind quiet_if_ok quiet_effects quiet_reads_of_stores

lemma quiet_writes: "quiet (writeJSON n v)" "quiet (methodNotAllowed m)" "quiet (writeTaskServiceError e)"
  "quiet (write_internal e)" "quiet (writeTaskInstanceServiceError e)" "quiet (writeServiceError e)"
  by (simp_all add: writeJSON_def methodNotAllowed_def writeTaskServiceError_def write_internal_def
      writeTaskInstanceServiceError_def writeServiceError_def quiet_return)

lemma quiet_answer: "(\<And>e. quiet (bad e)) \<Longrightarrow> quiet m \<Longrightarrow> quiet (answer bad m n f)"
  unfolding answer_def by (auto intro!: quiet_bind quiet_writes split: sum.split)

lemma quiet_dag_nodes: "quiet (dag_nodes T ts)"
  by (induction ts) (auto intro!: quiet_intros)

lemma quiet_services:
  "quiet (owned_task \<lparr>svc_repo = T, svc_auditor = a\<rparr> ctx k)"
  "quiet (TaskService_ListTasks \<lparr>svc_repo = T, svc_auditor = a\<rparr> ctx)"
  "quiet (GetDAG \<lparr>svc_repo = T, svc_auditor = a\<rparr> ctx)"
  "quiet (ListInstancesWithParams I p)"
  by (auto simp: owned_task_def TaskService_ListTasks_def GetDAG_def ListInstancesWithParams_def Let_def
      intro!: quiet_intros quiet_dag_nodes split: sum.split)

lemma quiet_forward: "quiet (forward m target u r)"
  unfolding forward_def http_forward_def
  by (auto intro!: quiet_intros quiet_writes split: option.split sum.split prod.split)

lemma quiet_proxies: "quiet (proxyAIHandler url m p r)" "quiet (proxySchedulerHandler url p r)"
  by (simp_all add: proxyAIHandler_def proxySchedulerHandler_def Let_def quiet_forward)

lemma quiet_Login: "quiet (Login tk r)"
  unfolding Login_def by (auto simp: Let_def intro!: quiet_intros quiet_writes split: option.split)

lemma quiet_parse_now: "quiet (parse_now tk t)"
  unfolding parse_now_def by (intro quiet_intros)

lemma quiet_requireAuth: "(\<And>c. quiet (h (r\<lparr>rq_Ctx := c\<rparr>))) \<Longrightarrow> quiet (h r) \<Longrightarrow> quiet (requireAuth tk role h r)"
  unfolding requireAuth_def authorize_def
  by (auto intro!: quiet_bind quiet_parse_now quiet_writes split: option.split sum.split)

text \<open>A route of the API reads unless its role is above the viewer's.\<close>

lemma quiet_api_handler:
  "rq_Method r = api_method e \<Longrightarrow> api_role e \<in> {None, Some ''viewer''} \<Longrightarrow>
     quiet (api_handler (api_on T I W tk au ai sch) e r)"
  by (cases e)
    (auto simp: api_role_def Health_def metrics_handler_def WorkerHandler_List_def WorkerHandler_Get_def
      TaskHandler_List_def DAG_def GetOrUpdate_def TaskInstanceHandler_List_def TaskInstanceHandler_Get_def
      WorkerService_ListWorkers_def WorkerService_GetWorker_def TaskService_GetTask_def
      TaskInstanceService_GetInstance_def Let_def
      intro!: quiet_Login quiet_proxies quiet_answer quiet_intros quiet_writes quiet_services split: option.split)

lemma quiet_Instrument: "(\<And>r. quiet (h r)) \<Longrightarrow> quiet (Instrument s h r)"
  unfolding Instrument_def by (intro quiet_intros)

text \<open>Where the token does not carry the role of the route, nothing is stored.\<close>

lemma serve_api_denied:
  assumes "ok w" "rq_Method r = api_method e" "rq_Claims r = None"
    and deny: "\<And>n claims role. ParseToken (tk_mac tk) (tk_key tk) (clock w n) (bearer_token r) = Inr claims \<Longrightarrow>
      api_role e = Some role \<Longrightarrow> role \<noteq> ''viewer'' \<Longrightarrow> weight (cl_Role claims) < weight role"
  shows "wp (serve_api (api_on T I W tk au ai sch) e r) (\<lambda>_ w'. ok w' \<and> vw w' = vw w) w"
proof (cases "api_role e \<in> {None, Some ''viewer''}")
  case True
  have "quiet (serve_api (api_on T I W tk au ai sch) e r)"
    using True assms(2) unfolding serve_api_def Instrument_def
    by (cases "api_role e")
      (auto simp: Let_def intro!: quiet_bind quiet_effects quiet_return quiet_requireAuth quiet_api_handler)
  with assms(1) show ?thesis by (simp add: quiet_def)
next
  case False
  then obtain role where role: "api_role e = Some role" "role \<noteq> ''viewer''" by (cases "api_role e") auto
  show ?thesis
  proof (cases "ParseToken (tk_mac tk) (tk_key tk) (clock w (readings w)) (bearer_token r)")
    case (Inl err)
    with assms role show ?thesis
      by (simp add: serve_api_def Instrument_def Let_def requireAuth_def GetClaims_def parse_now_def writeJSON_def wps)
  next
    case (Inr claims)
    with assms role deny [OF Inr role] show ?thesis
      by (simp add: serve_api_def Instrument_def Let_def requireAuth_def GetClaims_def parse_now_def writeJSON_def
          authorize_def wps)
  qed
qed

end

section \<open>Properties\<close>


definition sample_tokens :: tokens where
  "sample_tokens = \<lparr>tk_mac = (\<lambda>k m. k @ m), tk_key = ''key''\<rparr>"

definition role_claims :: "string \<Rightarrow> Claims" where
  "role_claims role = \<lparr>cl_Sub = ''ann'', cl_Role = role, cl_TenantID = 7, cl_Iat = 100, cl_Exp = 3700\<rparr>"

definition pause_request :: "string \<Rightarrow> http_request" where
  "pause_request role = \<lparr>rq_Method = ''POST'', rq_Path = ''/api/v1/tasks/1/pause'', rq_id = ''1'', rq_Query = [],
     rq_Authorization = ''Bearer '' @ SignToken (tk_mac sample_tokens) (tk_key sample_tokens) (role_claims role),
     rq_TenantHeader = [], rq_Body = [], rq_Ctx = None, rq_Claims = None\<rparr>"

lemma pause_token: "bearer_token (pause_request role) = SignToken (tk_mac sample_tokens) (tk_key sample_tokens) (role_claims role)"
  by (simp add: bearer_token_def pause_request_def hasBearerPrefix_def)

lemma pause_request_sel:
  "rq_Method (pause_request role) = ''POST''" "rq_id (pause_request role) = ''1''" "rq_TenantHeader (pause_request role) = []"
  "rq_Claims (pause_request role) = None" "rq_Ctx (pause_request role) = None"
  "cl_Role (role_claims role) = role" "cl_TenantID (role_claims role) = 7"
  by (simp_all add: pause_request_def role_claims_def)

lemma SignToken_ne: "SignToken mac key claims \<noteq> []"
  by (simp add: SignToken_def Let_def)

lemma role_claims_wf: "valid_utf8 role \<Longrightarrow> wf_claims (role_claims role)"
  by (simp add: role_claims_def wf_claims_def utf8_ascii byte_def in_int64_def)

lemma pause_request_run:
  "map_option t_Status (v_tasks (test_view (after (serve_api (api_on test_tasks test_instances test_workers sample_tokens
     False [] []) pause_route (pause_request ''operator'')) sample)) 1) = Some ''disabled''"
proof -
  have v: "wf_claims (role_claims ''operator'')" by (intro role_claims_wf) (simp add: utf8_ascii byte_def)
  have p: "ParseToken (tk_mac sample_tokens) (tk_key sample_tokens) 100000000000
      (SignToken (tk_mac sample_tokens) (tk_key sample_tokens) (role_claims ''operator'')) = Inr (role_claims ''operator'')"
    by (subst ParseToken_signed [OF v]) (simp add: role_claims_def)
  have i: "parseTaskID ''1'' = Some 1"
    by (simp add: parseTaskID_def TrimPrefix_def Atoi_def Let_def is_digit_def digits_val_def digit_val_def in_int64_def)
  have "wp (PauseTask \<lparr>svc_repo = test_tasks, svc_auditor = False\<rparr> (Some 7) 1)
      (\<lambda>_ w'. map_option t_Status (v_tasks (test_view w') 1) = Some ''disabled'') (sample\<lparr>readings := 1\<rparr>)"
    by (rule wp_mono [OF ts.PauseTask_wp [of "sample\<lparr>readings := 1\<rparr>" 1 sample_task]])
      (auto simp: checkTenant_def FromContext_def sample_task_def stored_as_def)
  then show ?thesis
    by (simp add: after_def serve_api_def Instrument_def requireAuth_def GetClaims_def parse_now_def pause_token
        p authorize_def weight_cases TaskHandler_Pause_def post_task_def i answer_def wp_def Let_def SignToken_ne
        pause_request_sel Middleware_def WithTenant_def api_role_def writeJSON_def writeTaskServiceError_def split_beta
        split: sum.split)
qed


text \<open>
  Login and its token: only the three accounts with their passwords get a token; a request that carries it within
  the hour is let through to exactly the routes its role reaches, without a tenant of its own (so that the header
  chooses it), and answered 403 elsewhere; after the hour it is answered 401.
\<close>

theorem Login_token:
  assumes "run_state (Login tk r) w = (\<lparr>rs_Status = status, rs_Body = LoginBody token role ttl\<rparr>, w1)"
    and "0 \<le> clock w (readings w)" "clock w (readings w) div second + 3600 < 2 ^ 63"
    and "bearer_token r' = token" "rq_Claims r' = None"
  shows "\<exists>req. decode_login (rq_Body r) = Some req \<and> authenticateUser (lr_Username req) (lr_Password req) = role \<and>
    role \<in> {''admin'', ''operator'', ''viewer''} \<and> status = 200 \<and> ttl = 3600 \<and>
    run_state (requireAuth tk minimumRole next_handler r') w' =
      (if clock w' (readings w') div second > clock w (readings w) div second + 3600
       then (\<lparr>rs_Status = 401, rs_Body = Pairs [(''error'', ''invalid or expired token'')]\<rparr>, w'\<lparr>readings := Suc (readings w')\<rparr>)
       else if weight role < weight minimumRole
       then (\<lparr>rs_Status = 403, rs_Body = Pairs [(''error'', ''insufficient permissions'')]\<rparr>, w'\<lparr>readings := Suc (readings w')\<rparr>)
       else run_state (next_handler r') (w'\<lparr>readings := Suc (readings w')\<rparr>))"
proof -
  let ?now = "clock w (readings w) div second"
  from assms(1) obtain req where req: "decode_login (rq_Body r) = Some req"
      "authenticateUser (lr_Username req) (lr_Password req) = role" "role \<noteq> []" "status = 200" "ttl = 3600"
    by (auto simp: Login_def writeJSON_def Let_def split: if_splits option.splits)
  let ?c = "zero_Claims\<lparr>cl_Sub := lr_Username req, cl_Role := role, cl_Iat := ?now, cl_Exp := wrap64 (?now + 3600)\<rparr>"
  have token: "token = SignToken (tk_mac tk) (tk_key tk) ?c"
    using assms(1) req by (auto simp: Login_def writeJSON_def Let_def split: if_splits)
  have e: "wrap64 (?now + 3600) = ?now + 3600" "in_int64 (?now + 3600)" "in_int64 ?now"
    using assms(2,3) by (simp_all add: wrap64_def in_int64_def)
  have u: "lr_Username req = role" "role \<in> {''admin'', ''operator'', ''viewer''}"
    using req(2,3) by (auto simp: authenticateUser_def split: if_splits)
  have wf: "wf_claims ?c"
    using u e by (auto simp: wf_claims_def zero_Claims_def utf8_ascii byte_def in_int64_def)
  have ne: "token \<noteq> []" by (simp add: token SignToken_ne)
  have "ParseToken (tk_mac tk) (tk_key tk) t token = (if t div second \<le> ?now + 3600 then Inr ?c else Inl Expired)" for t
    using ParseToken_signed [OF wf] e by (simp add: token)
  then have "run_state (requireAuth tk minimumRole next_handler r') w' =
      (if clock w' (readings w') div second > ?now + 3600
       then (\<lparr>rs_Status = 401, rs_Body = Pairs [(''error'', ''invalid or expired token'')]\<rparr>, w'\<lparr>readings := Suc (readings w')\<rparr>)
       else if weight role < weight minimumRole
       then (\<lparr>rs_Status = 403, rs_Body = Pairs [(''error'', ''insufficient permissions'')]\<rparr>, w'\<lparr>readings := Suc (readings w')\<rparr>)
       else run_state (next_handler r') (w'\<lparr>readings := Suc (readings w')\<rparr>))"
    using assms(4,5) ne
    by (simp add: requireAuth_def GetClaims_def parse_now_def authorize_def writeJSON_def zero_Claims_def)
  with req u show ?thesis by blast
qed

definition login_request :: http_request where
  "login_request = \<lparr>rq_Method = ''POST'', rq_Path = ''/api/auth/login'', rq_id = [], rq_Query = [], rq_Authorization = [],
     rq_TenantHeader = [], rq_Body = print_json (JObject [(''username'', JString ''viewer''), (''password'', JString ''viewer123'')]),
     rq_Ctx = None, rq_Claims = None\<rparr>"

lemma login_request_decoded:
  "decode_login (rq_Body login_request) = Some \<lparr>lr_Username = ''viewer'', lr_Password = ''viewer123''\<rparr>"
proof -
  have "wf_json max_nesting (JObject [(''username'', JString ''viewer''), (''password'', JString ''viewer123'')])"
    by (simp add: max_nesting_def utf8_ascii byte_def)
  from first_value_print [OF this] show ?thesis
    by (simp add: login_request_def decode_login_def Decode_def set_struct_def field_of_def
        string_field_def del: print_json.simps)
qed

theorem Login_token_witness:
  "\<exists>token. fst (run_state (Login sample_tokens login_request) sample) =
       \<lparr>rs_Status = 200, rs_Body = LoginBody token ''viewer'' 3600\<rparr> \<and>
     fst (run_state (requireAuth sample_tokens ''operator'' Health
       (login_request\<lparr>rq_Authorization := ''Bearer '' @ token\<rparr>)) sample) =
       \<lparr>rs_Status = 403, rs_Body = Pairs [(''error'', ''insufficient permissions'')]\<rparr>"
proof -
  let ?c = "zero_Claims\<lparr>cl_Sub := ''viewer'', cl_Role := ''viewer'', cl_Iat := 100, cl_Exp := 3700\<rparr>"
  let ?t = "SignToken (tk_mac sample_tokens) (tk_key sample_tokens) ?c"
  let ?r = "login_request\<lparr>rq_Authorization := ''Bearer '' @ ?t\<rparr>"
  have run: "run_state (Login sample_tokens login_request) sample =
      (\<lparr>rs_Status = 200, rs_Body = LoginBody ?t ''viewer'' 3600\<rparr>, sample\<lparr>readings := 1\<rparr>)"
    by (simp add: Login_def login_request_decoded authenticateUser_def writeJSON_def wrap64_def Let_def)
      (simp add: login_request_def)
  have b: "bearer_token ?r = ?t" "rq_Claims ?r = None"
    by (simp_all add: bearer_token_def hasBearerPrefix_def login_request_def)
  have "fst (run_state (requireAuth sample_tokens ''operator'' Health ?r) sample) =
      \<lparr>rs_Status = 403, rs_Body = Pairs [(''error'', ''insufficient permissions'')]\<rparr>"
    using Login_token [OF run _ _ b, of "''operator''" Health sample] by (auto simp: weight_cases)
  with run show ?thesis by (intro exI [of _ ?t] conjI) (simp only: fst_conv)+
qed

text \<open>The tenant a request acts for: its token's, else the one its header names.\<close>

definition acting_tenant :: "http_request \<Rightarrow> Claims \<Rightarrow> int" where
  "acting_tenant r claims =
     (if cl_TenantID claims > 0 then cl_TenantID claims else FromContext (Middleware (rq_TenantHeader r) (rq_Ctx r)))"

lemma serve_api_authorized:
  assumes "ParseToken (tk_mac tk) (tk_key tk) (clock w (readings w)) (bearer_token r) = Inr claims" "bearer_token r \<noteq> []"
    "rq_Claims r = None" "api_role e = Some role" "weight role \<le> weight (cl_Role claims)" "ap_tokens a = tk"
  shows "\<exists>ctx. FromContext ctx = acting_tenant r claims \<and>
    run_state (serve_api a e r) w =
      run_state (Instrument ''api'' (\<lambda>_. api_handler a e (r\<lparr>rq_Ctx := ctx\<rparr>)) r) (w\<lparr>readings := Suc (readings w)\<rparr>)"
  using assms
  by (intro exI [of _ "if cl_TenantID claims > 0 then Some (cl_TenantID claims) else Middleware (rq_TenantHeader r) (rq_Ctx r)"])
    (auto simp: serve_api_def Instrument_def requireAuth_def GetClaims_def parse_now_def authorize_def Let_def
      WithTenant_def FromContext_def acting_tenant_def the_default_def)

lemma checkTenant_cases:
  "checkTenant ctx t = (if FromContext ctx \<noteq> 0 \<and> t_TenantID t \<noteq> 0 \<and> t_TenantID t \<noteq> FromContext ctx
     then Inl ErrTaskNotOwned else Inr ())"
  by (simp add: checkTenant_def Let_def)

lemma delete_outcome:
  assumes "stores_ok w"
  shows "wp (TaskService_DeleteTask \<lparr>svc_repo = test_tasks, svc_auditor = au\<rparr> ctx k) (\<lambda>x w'. stores_ok w' \<and>
    (if k \<le> 0 then x = Inl ErrTaskIDRequired \<and> test_view w' = test_view w
     else case v_tasks (test_view w) k of
       None \<Rightarrow> x = Inl ErrTaskNotFound \<and> test_view w' = test_view w
     | Some t \<Rightarrow> if FromContext ctx \<noteq> 0 \<and> t_TenantID t \<noteq> 0 \<and> t_TenantID t \<noteq> FromContext ctx
         then x = Inl ErrTaskNotOwned \<and> test_view w' = test_view w
         else x = Inr () \<and> test_view w' = (test_view w)\<lparr>v_tasks := (v_tasks (test_view w))(k := None)\<rparr>)) w"
proof (cases "0 < k \<and> (\<exists>t. v_tasks (test_view w) k = Some t \<and> checkTenant ctx t = Inr ())")
  case True
  then obtain t where t: "0 < k" "v_tasks (test_view w) k = Some t" "checkTenant ctx t = Inr ()" by blast
  show ?thesis
    by (rule wp_mono [OF ts.TaskService_DeleteTask_wp [OF assms t]]) (use t in \<open>auto simp: checkTenant_cases split: if_splits\<close>)
next
  case False
  with assms show ?thesis
    by (auto simp: TaskService_DeleteTask_def ts.wp_owned_task checkTenant_cases split: option.split)
qed

lemma error_statuses:
  "task_error_status ErrTaskIDRequired = 400" "task_error_status ErrTaskNotFound = 404"
  "task_error_status ErrTaskNotOwned = 403"
  by (simp_all add: task_error_status_def)

text \<open>
  C29. Deleting a task over HTTP: an admin's request is answered 400 for an id that is not positive, 404 for a
  task that does not exist, 403 for one of another tenant, and otherwise 204, after which exactly this task is gone;
  every other answer leaves all stores as they were.
\<close>

theorem delete_over_http:
  assumes "stores_ok w" "ParseToken (tk_mac tk) (tk_key tk) (clock w (readings w)) (bearer_token r) = Inr claims"
    and "bearer_token r \<noteq> []" "rq_Claims r = None" "cl_Role claims = ''admin''" "rq_Method r = ''DELETE''"
    and "rq_Path r = ''/api/v1/tasks/'' @ itoa k" "in_int64 k"
  shows "case run_state (serve_api (api_on test_tasks test_instances test_workers tk au ai sch) delete_task_route r) w of
      (resp, w') \<Rightarrow> stores_ok w' \<and>
    (if k \<le> 0 then response.rs_Status resp = 400 \<and> test_view w' = test_view w
     else case v_tasks (test_view w) k of
       None \<Rightarrow> response.rs_Status resp = 404 \<and> test_view w' = test_view w
     | Some t \<Rightarrow>
        if acting_tenant r claims \<noteq> 0 \<and> t_TenantID t \<noteq> 0 \<and> t_TenantID t \<noteq> acting_tenant r claims
        then response.rs_Status resp = 403 \<and> test_view w' = test_view w
        else response.rs_Status resp = 204 \<and>
          test_view w' = (test_view w)\<lparr>v_tasks := (v_tasks (test_view w))(k := None)\<rparr>)"
proof -
  let ?a = "api_on test_tasks test_instances test_workers tk au ai sch"
  have weights: "weight ''admin'' \<le> weight (cl_Role claims)" using assms(5) by simp
  obtain ctx where ctx: "FromContext ctx = acting_tenant r claims"
    and run: "run_state (serve_api ?a delete_task_route r) w =
      run_state (Instrument ''api'' (\<lambda>_. api_handler ?a delete_task_route (r\<lparr>rq_Ctx := ctx\<rparr>)) r)
        (w\<lparr>readings := Suc (readings w)\<rparr>)"
    using serve_api_authorized [OF assms(2-4) _ weights, of delete_task_route ?a] by (auto simp: api_role_def)
  have k: "parseTaskID (rq_Path r) = Some k"
    using assms(7,8) by (simp add: parseTaskID_def TrimPrefix_def Atoi_itoa)
  let ?w = "w\<lparr>readings := Suc (readings w)\<rparr>"
  have "stores_ok ?w" "test_view ?w = test_view w" using assms(1) by simp_all
  with delete_outcome [of ?w au ctx k] have "wp (Instrument ''api'' (\<lambda>_. api_handler ?a delete_task_route (r\<lparr>rq_Ctx := ctx\<rparr>)) r)
      (\<lambda>resp w'. stores_ok w' \<and>
        (if k \<le> 0 then response.rs_Status resp = 400 \<and> test_view w' = test_view w
         else case v_tasks (test_view w) k of
           None \<Rightarrow> response.rs_Status resp = 404 \<and> test_view w' = test_view w
         | Some t \<Rightarrow>
            if acting_tenant r claims \<noteq> 0 \<and> t_TenantID t \<noteq> 0 \<and> t_TenantID t \<noteq> acting_tenant r claims
            then response.rs_Status resp = 403 \<and> test_view w' = test_view w
            else response.rs_Status resp = 204 \<and>
              test_view w' = (test_view w)\<lparr>v_tasks := (v_tasks (test_view w))(k := None)\<rparr>)) ?w"
    unfolding Instrument_def api_handler.simps GetOrUpdate_def answer_def
    by (simp add: k assms(6) ctx)
      (erule wp_mono, auto simp: ctx writeTaskServiceError_def writeJSON_def error_statuses
        split: option.split_asm if_split_asm sum.split)
  then show ?thesis unfolding run wp_def .
qed

theorem delete_over_http_witness:
  "let r = (pause_request ''admin'')\<lparr>rq_Method := ''DELETE'', rq_Path := ''/api/v1/tasks/'' @ itoa 1\<rparr> in
   response.rs_Status (fst (run_state (serve_api (api_on test_tasks test_instances test_workers sample_tokens False [] [])
     delete_task_route r) sample)) = 204"
proof -
  let ?r = "(pause_request ''admin'')\<lparr>rq_Method := ''DELETE'', rq_Path := ''/api/v1/tasks/'' @ itoa 1\<rparr>"
  have b: "bearer_token ?r = bearer_token (pause_request ''admin'')" by (simp add: bearer_token_def)
  have "wf_claims (role_claims ''admin'')" by (intro role_claims_wf) (simp add: utf8_ascii byte_def)
  then have p: "ParseToken (tk_mac sample_tokens) (tk_key sample_tokens) (clock sample (readings sample)) (bearer_token ?r) =
      Inr (role_claims ''admin'')"
    unfolding b pause_token by (subst ParseToken_signed) (simp_all add: role_claims_def)
  have n: "bearer_token ?r \<noteq> []" unfolding b pause_token by (rule SignToken_ne)
  have s: "rq_Claims ?r = None" "cl_Role (role_claims ''admin'') = ''admin''"
    "rq_Method ?r = ''DELETE''" "rq_Path ?r = ''/api/v1/tasks/'' @ itoa 1" "in_int64 1"
    by (simp_all add: pause_request_sel in_int64_def)
  from delete_over_http [OF sample_ok p n s, of False "[]" "[]"] show ?thesis
    by (simp add: Let_def split_beta acting_tenant_def role_claims_def sample_task_def)
qed

end
