(* ===== verification/Wire.thy ===== *)
theory Wire
  imports Worker Handlers
begin

text \<open>
  The HTTP messages between scheduler and workers: the JSON each side writes and the struct the other side reads,
  with the two handlers of the worker's HTTP server (\<^verbatim>\<open>internal/worker/handler.go\<close>). A task accepted over HTTP is
  executed by a goroutine of its own, so the handler answers with the request it hands to \<^verbatim>\<open>run\<close>.
\<close>

section \<open>Requests to workers\<close>

definition execute_json :: "ExecuteTaskRequest \<Rightarrow> json" where
  "execute_json q = JObject
     [(''schedule_instance_id'', JString (q_ScheduleInstanceID q)), (''task_id'', JNumber (itoa (q_TaskID q))),
      (''task_type'', JString (q_TaskType q)), (''payload'', JString (q_Payload q)), (''image'', JString (q_Image q)),
      (''timeout_seconds'', JNumber (itoa (q_TimeoutSeconds q))), (''retry_count'', JNumber (itoa (q_RetryCount q))),
      (''shard_no'', JNumber (itoa (q_ShardNo q))), (''shard_total'', JNumber (itoa (q_ShardTotal q))),
      (''idempotency_key'', JString (q_IdempotencyKey q)), (''scheduler_url'', JString (q_SchedulerURL q))]"

definition execute_fields :: "ExecuteTaskRequest fields" where
  "execute_fields =
     [(''schedule_instance_id'', string_field (\<lambda>v x. x\<lparr>q_ScheduleInstanceID := v\<rparr>)),
      (''task_id'', int_field (\<lambda>v x. x\<lparr>q_TaskID := v\<rparr>)),
      (''task_type'', string_field (\<lambda>v x. x\<lparr>q_TaskType := v\<rparr>)),
      (''payload'', string_field (\<lambda>v x. x\<lparr>q_Payload := v\<rparr>)),
      (''image'', string_field (\<lambda>v x. x\<lparr>q_Image := v\<rparr>)),
      (''timeout_seconds'', int_field (\<lambda>v x. x\<lparr>q_TimeoutSeconds := v\<rparr>)),
      (''retry_count'', int_field (\<lambda>v x. x\<lparr>q_RetryCount := v\<rparr>)),
      (''shard_no'', int_field (\<lambda>v x. x\<lparr>q_ShardNo := v\<rparr>)),
      (''shard_total'', int_field (\<lambda>v x. x\<lparr>q_ShardTotal := v\<rparr>)),
      (''idempotency_key'', string_field (\<lambda>v x. x\<lparr>q_IdempotencyKey := v\<rparr>)),
      (''scheduler_url'', string_field (\<lambda>v x. x\<lparr>q_SchedulerURL := v\<rparr>))]"

definition wf_execute :: "ExecuteTaskRequest \<Rightarrow> bool" where
  "wf_execute q \<longleftrightarrow> valid_utf8 (q_ScheduleInstanceID q) \<and> in_int64 (q_TaskID q) \<and> valid_utf8 (q_TaskType q) \<and>
     valid_utf8 (q_Payload q) \<and> valid_utf8 (q_Image q) \<and> in_int64 (q_TimeoutSeconds q) \<and> in_int64 (q_RetryCount q) \<and>
     in_int64 (q_ShardNo q) \<and> in_int64 (q_ShardTotal q) \<and> valid_utf8 (q_IdempotencyKey q) \<and> valid_utf8 (q_SchedulerURL q)"

lemma marshal_request_json: "marshal_request q = print_json (execute_json q)"
  by (simp add: marshal_request_def execute_json_def json_field_def)

interpretation execute: struct_codec wf_execute execute_json execute_fields zero_ExecuteTaskRequest
proof
  fix q
  assume "wf_execute q"
  then show "wf_json max_nesting (execute_json q)"
    by (simp add: wf_execute_def execute_json_def max_nesting_def itoa_number utf8_ascii byte_def)
  from \<open>wf_execute q\<close> show "set_struct execute_fields (execute_json q) zero_ExecuteTaskRequest = Some q"
    by (simp add: set_struct_def execute_json_def execute_fields_def field_of_def string_field_def int_field_def
        Atoi_itoa zero_ExecuteTaskRequest_def wf_execute_def)
qed

text \<open>The status and body the worker answers, and the request it runs.\<close>

definition Execute_HTTP :: "string \<Rightarrow> string \<Rightarrow> response \<times> ExecuteTaskRequest option" where
  "Execute_HTTP meth body =
     (if meth \<noteq> ''POST'' then (\<lparr>rs_Status = 405, rs_Body = NoBody\<rparr>, None)
      else case Decode execute_fields body zero_ExecuteTaskRequest of
        None \<Rightarrow> (\<lparr>rs_Status = 400, rs_Body = Pairs [(''error'', ''invalid json body'')]\<rparr>, None)
      | Some req \<Rightarrow> (\<lparr>rs_Status = 202, rs_Body = Pairs [(''status'', ''accepted'')]\<rparr>, Some req))"

text \<open>A cancellation of a task that does not run is answered with an error text and status 200.\<close>

definition CancelHTTP :: "string \<Rightarrow> string \<Rightarrow> response wk" where
  "CancelHTTP meth body =
     (if meth \<noteq> ''POST'' then State_Monad.return \<lparr>rs_Status = 405, rs_Body = NoBody\<rparr>
      else case decode_cancel body of
        None \<Rightarrow> State_Monad.return \<lparr>rs_Status = 400, rs_Body = Pairs [(''error'', ''invalid body'')]\<rparr>
      | Some sid \<Rightarrow> do {
          r \<leftarrow> Handler_Cancel sid;
          State_Monad.return \<lparr>rs_Status = 200, rs_Body = (case r of
            Inl err \<Rightarrow> Pairs [(''error'', error_text err)] | Inr _ \<Rightarrow> Pairs [(''status'', ''cancelled'')])\<rparr> })"

section \<open>Reports, registrations and heartbeats\<close>

text \<open>The times of a report are left out when empty.\<close>

definition status_json :: "TaskStatusReportRequest \<Rightarrow> json" where
  "status_json sr = JObject
     ([(''schedule_instance_id'', JString (sr_ScheduleInstanceID sr)), (''worker_id'', JString (sr_WorkerID sr)),
       (''status'', JString (sr_Status sr)), (''error_code'', JString (sr_ErrorCode sr)),
       (''error_message'', JString (sr_ErrorMessage sr))] @
      (if sr_StartedAt sr = [] then [] else [(''started_at'', JString (sr_StartedAt sr))]) @
      (if sr_FinishedAt sr = [] then [] else [(''finished_at'', JString (sr_FinishedAt sr))]))"

definition zero_status :: TaskStatusReportRequest where
  "zero_status = \<lparr>sr_ScheduleInstanceID = [], sr_WorkerID = [], sr_Status = [], sr_ErrorCode = [], sr_ErrorMessage = [],
     sr_StartedAt = [], sr_FinishedAt = []\<rparr>"

definition wf_status :: "TaskStatusReportRequest \<Rightarrow> bool" where
  "wf_status sr \<longleftrightarrow> list_all valid_utf8 [sr_ScheduleInstanceID sr, sr_WorkerID sr, sr_Status sr, sr_ErrorCode sr,
     sr_ErrorMessage sr, sr_StartedAt sr, sr_FinishedAt sr]"

interpretation status: struct_codec wf_status status_json status_fields zero_status
proof
  fix sr
  assume "wf_status sr"
  then show "wf_json max_nesting (status_json sr)"
    by (simp add: wf_status_def status_json_def max_nesting_def utf8_ascii byte_def)
  from \<open>wf_status sr\<close> show "set_struct status_fields (status_json sr) zero_status = Some sr"
    by (simp add: set_struct_def status_json_def status_fields_def field_of_def string_field_def zero_status_def)
qed

definition heartbeat_json :: "WorkerHeartbeatRequest \<Rightarrow> json" where
  "heartbeat_json h = JObject
     [(''worker_id'', JString (hr_WorkerID h)), (''current_load'', JNumber (itoa (hr_CurrentLoad h))),
      (''running_tasks'', JNumber (itoa (hr_RunningTasks h))), (''report_unix_milli'', JNumber (itoa (hr_ReportUnixMilli h)))]"

definition zero_heartbeat :: WorkerHeartbeatRequest where
  "zero_heartbeat = \<lparr>hr_WorkerID = [], hr_CurrentLoad = 0, hr_RunningTasks = 0, hr_ReportUnixMilli = 0\<rparr>"

definition wf_heartbeat :: "WorkerHeartbeatRequest \<Rightarrow> bool" where
  "wf_heartbeat h \<longleftrightarrow> valid_utf8 (hr_WorkerID h) \<and> in_int64 (hr_CurrentLoad h) \<and> in_int64 (hr_RunningTasks h) \<and>
     in_int64 (hr_ReportUnixMilli h)"

interpretation heartbeats: struct_codec wf_heartbeat heartbeat_json heartbeat_fields zero_heartbeat
proof
  fix h
  assume "wf_heartbeat h"
  then show "wf_json max_nesting (heartbeat_json h)"
    by (simp add: wf_heartbeat_def heartbeat_json_def max_nesting_def itoa_number utf8_ascii byte_def)
  from \<open>wf_heartbeat h\<close> show "set_struct heartbeat_fields (heartbeat_json h) zero_heartbeat = Some h"
    by (simp add: set_struct_def heartbeat_json_def heartbeat_fields_def field_of_def string_field_def int_field_def
        Atoi_itoa zero_heartbeat_def wf_heartbeat_def)
qed

text \<open>The labels are written in the order of their keys; a nil map is null.\<close>

definition labels_json :: "(string, string) gomap \<Rightarrow> json" where
  "labels_json m = (if m = [] then JNull else JObject (map (\<lambda>(k, v). (k, JString v)) (sort_by fst m)))"

definition registration_json :: "WorkerRegistrationRequest \<Rightarrow> json" where
  "registration_json q = JObject
     [(''worker_id'', JString (wr_WorkerID q)), (''hostname'', JString (wr_Hostname q)), (''ip'', JString (wr_IP q)),
      (''callback_url'', JString (wr_CallbackURL q)), (''grpc_addr'', JString (wr_GRPCAddr q)),
      (''protocol'', JString (wr_Protocol q)), (''max_concurrency'', JNumber (itoa (wr_MaxConcurrency q))),
      (''labels'', labels_json (wr_Labels q))]"

definition zero_registration :: WorkerRegistrationRequest where
  "zero_registration = \<lparr>wr_WorkerID = [], wr_Hostname = [], wr_IP = [], wr_CallbackURL = [], wr_GRPCAddr = [],
     wr_Protocol = [], wr_MaxConcurrency = 0, wr_Labels = []\<rparr>"

text \<open>A map has no order: its representative is the one sorted by key.\<close>

definition wf_registration :: "WorkerRegistrationRequest \<Rightarrow> bool" where
  "wf_registration q \<longleftrightarrow> list_all valid_utf8 [wr_WorkerID q, wr_Hostname q, wr_IP q, wr_CallbackURL q, wr_GRPCAddr q,
     wr_Protocol q] \<and> in_int64 (wr_MaxConcurrency q) \<and> utf8_labels (wr_Labels q) \<and> wf_map (wr_Labels q) \<and>
     sort_by fst (wr_Labels q) = wr_Labels q"

lemma string_members_strings:
  "distinct (map fst (m @ kvs)) \<Longrightarrow> string_members (map (\<lambda>(k, v). (k, JString v)) kvs) m = Some (m @ kvs)"
  by (induction kvs arbitrary: m) (auto simp: mput_fresh)

interpretation registrations: struct_codec wf_registration registration_json registration_fields zero_registration
proof
  fix q
  assume q: "wf_registration q"
  then show "wf_json max_nesting (registration_json q)"
    by (auto simp: wf_registration_def registration_json_def labels_json_def max_nesting_def itoa_number utf8_ascii
        byte_def utf8_labels_def list_all_iff)
  have "string_members (map (\<lambda>(k, v). (k, JString v)) (wr_Labels q)) [] = Some (wr_Labels q)"
    using string_members_strings [of "[]" "wr_Labels q"] q by (simp add: wf_registration_def wf_map_def)
  with q show "set_struct registration_fields (registration_json q) zero_registration = Some q"
    by (simp add: set_struct_def registration_json_def registration_fields_def field_of_def string_field_def
        int_field_def map_field_def labels_json_def Atoi_itoa zero_registration_def wf_registration_def)
qed

section \<open>Properties\<close>



end
