(* ===== verification/Tools.thy ===== *)
theory Tools
  imports Handlers GoFloat
begin

text \<open>
  \<^verbatim>\<open>internal/ai/tools\<close>: the functions the chat agent can call. A tool gets its arguments as JSON text and answers a
  value, kept as the nested map the source builds. Most tools ignore the error of \<^verbatim>\<open>json.Unmarshal\<close> and go on with
  what was filled in. \<^verbatim>\<open>strings.ToLower\<close> rests on Unicode's tables and is a field of the bundle, like the reader of
  load snapshots. Of a tool's definition its name, its parameters with their types and the required ones are kept, not
  the descriptions for the language model.
\<close>

section \<open>Values\<close>

datatype goval =
    VString string
  | VInt int
  | VBool bool
  | VInts "int list"
  | VList "goval list"
  | VMap "(string \<times> goval) list"

text \<open>\<^verbatim>\<open>fmt.Sprintf("%v", v)\<close>: maps in the order of their keys.\<close>

fun sprint_v :: "goval \<Rightarrow> string" where
  "sprint_v (VString s) = s"
| "sprint_v (VInt n) = itoa n"
| "sprint_v (VBool b) = (if b then ''true'' else ''false'')"
| "sprint_v (VInts ns) = CHR ''['' # Join (CHR '' '') (map itoa ns) @ '']''"
| "sprint_v (VList vs) = CHR ''['' # Join (CHR '' '') (map sprint_v vs) @ '']''"
| "sprint_v (VMap kvs) =
     ''map['' @ Join (CHR '' '') (map (\<lambda>(k, t). k @ CHR '':'' # t) (sort_by fst (map (\<lambda>(k, v). (k, sprint_v v)) kvs))) @ '']''"

text \<open>Text outside ASCII by its code points.\<close>

definition runes :: "nat list \<Rightarrow> string" where
  "runes rs = concat (map encode_rune rs)"

definition FormatRFC3339 :: "location \<Rightarrow> time \<Rightarrow> string" where
  "FormatRFC3339 loc t =
     (if Year loc t < 0 then ''-'' else []) @ pad 4 \<bar>Year loc t\<bar> @ ''-'' @ pad 2 (Month loc t)
     @ ''-'' @ pad 2 (Day loc t) @ ''T'' @ pad 2 (Hour loc t) @ '':'' @ pad 2 (Minute loc t)
     @ '':'' @ pad 2 (Second loc t) @ zone_suffix (loc (t div second))"

text \<open>\<^verbatim>\<open>%.1f\<close>, and \<^verbatim>\<open>float64(a) / float64(b) * 100\<close>\<close>

definition fixed1 :: "rat \<Rightarrow> string" where
  "fixed1 q = (let n = round_even (\<bar>q\<bar> * 10) in (if q < 0 then ''-'' else []) @ itoa (n div 10) @ ''.'' @ itoa (n mod 10))"

definition percent :: "int \<Rightarrow> int \<Rightarrow> rat" where
  "percent a b = fl64 (fl64 (fl64 (of_int a) / fl64 (of_int b)) * 100)"

definition truncateStr :: "string \<Rightarrow> nat \<Rightarrow> string" where
  "truncateStr s maxLen = (if length s \<le> maxLen then s else take maxLen s @ ''...'')"

section \<open>Arguments\<close>

text \<open>What \<^verbatim>\<open>json.Unmarshal\<close> leaves behind when its error is ignored: nothing after a mistake of syntax, all
  fields but those of another type otherwise.\<close>

fun fill_members :: "'r fields \<Rightarrow> (string \<times> json) list \<Rightarrow> 'r \<Rightarrow> 'r" where
  "fill_members fs [] x = x"
| "fill_members fs ((k, v) # kvs) x =
     fill_members fs kvs (case field_of fs k of None \<Rightarrow> x | Some u \<Rightarrow> the_default x (u v x))"

definition Unmarshal_ignored :: "'r fields \<Rightarrow> string \<Rightarrow> 'r \<Rightarrow> 'r" where
  "Unmarshal_ignored fs s x =
     (case parse_json s of Some v \<Rightarrow> (case v of JObject kvs \<Rightarrow> fill_members fs kvs x | _ \<Rightarrow> x) | None \<Rightarrow> x)"

text \<open>The parameters of all tools; each tool reads its own.\<close>

record tool_args =
  a_Name :: string
  a_Type :: string
  a_CronExpr :: string
  a_Payload :: string
  a_Image :: string
  a_Status :: string
  a_Action :: string
  a_WorkerID :: string
  a_RetryPolicy :: string
  a_TimeoutSeconds :: int
  a_MaxRetry :: int
  a_Limit :: int
  a_Hours :: int
  a_TaskID :: int
  a_InstanceID :: int

definition zero_args :: tool_args where
  "zero_args = \<lparr>a_Name = [], a_Type = [], a_CronExpr = [], a_Payload = [], a_Image = [], a_Status = [], a_Action = [],
     a_WorkerID = [], a_RetryPolicy = [], a_TimeoutSeconds = 0, a_MaxRetry = 0, a_Limit = 0, a_Hours = 0, a_TaskID = 0,
     a_InstanceID = 0\<rparr>"

definition arg_fields :: "tool_args fields" where
  "arg_fields =
     [(''name'', string_field (\<lambda>v x. x\<lparr>a_Name := v\<rparr>)), (''type'', string_field (\<lambda>v x. x\<lparr>a_Type := v\<rparr>)),
      (''cron_expr'', string_field (\<lambda>v x. x\<lparr>a_CronExpr := v\<rparr>)), (''payload'', string_field (\<lambda>v x. x\<lparr>a_Payload := v\<rparr>)),
      (''image'', string_field (\<lambda>v x. x\<lparr>a_Image := v\<rparr>)), (''status'', string_field (\<lambda>v x. x\<lparr>a_Status := v\<rparr>)),
      (''action'', string_field (\<lambda>v x. x\<lparr>a_Action := v\<rparr>)), (''worker_id'', string_field (\<lambda>v x. x\<lparr>a_WorkerID := v\<rparr>)),
      (''retry_policy'', string_field (\<lambda>v x. x\<lparr>a_RetryPolicy := v\<rparr>)),
      (''timeout_seconds'', int_field (\<lambda>v x. x\<lparr>a_TimeoutSeconds := v\<rparr>)),
      (''max_retry'', int_field (\<lambda>v x. x\<lparr>a_MaxRetry := v\<rparr>)), (''limit'', int_field (\<lambda>v x. x\<lparr>a_Limit := v\<rparr>)),
      (''hours'', int_field (\<lambda>v x. x\<lparr>a_Hours := v\<rparr>)), (''task_id'', int_field (\<lambda>v x. x\<lparr>a_TaskID := v\<rparr>)),
      (''instance_id'', int_field (\<lambda>v x. x\<lparr>a_InstanceID := v\<rparr>))]"

definition params :: "string list \<Rightarrow> tool_args fields" where
  "params names = filter (\<lambda>f. fst f \<in> set names) arg_fields"

section \<open>The bundle\<close>

record 'w Bundle =
  bd_Task :: "'w TaskRepository"
  bd_TaskInstance :: "'w TaskInstanceRepository"
  bd_Worker :: "'w WorkerRepository"
  bd_ListSnapshots :: "string \<Rightarrow> time \<Rightarrow> time \<Rightarrow> int \<Rightarrow> ('w, error + WorkerLoadSnapshot list) state"
  bd_ToLower :: "string \<Rightarrow> string"

text \<open>The instances of the last day: \<^verbatim>\<open>ListInstancesByTimeRange(ctx, time.Now().Add(-24*time.Hour), time.Now(), 0, 0)\<close>.\<close>

definition last_day :: "'a world_scheme Bundle \<Rightarrow> ('a, error + TaskInstance list) go" where
  "last_day b = do {
     since \<leftarrow> time_now;
     till \<leftarrow> time_now;
     ListInstancesByTimeRange (bd_TaskInstance b) (since - 24 * hour) till 0 0 }"

text \<open>A list that is nil when its error is ignored.\<close>

definition or_empty :: "error + 'b list \<Rightarrow> 'b list" where
  "or_empty r = (case r of Inl _ \<Rightarrow> [] | Inr xs \<Rightarrow> xs)"

section \<open>Tools that read\<close>

definition task_row :: "location \<Rightarrow> Task \<Rightarrow> goval" where
  "task_row loc task = VMap
     [(''id'', VInt (t_ID task)), (''name'', VString (t_Name task)), (''type'', VString (t_Type task)),
      (''cron_expr'', VString (t_CronExpr task)), (''status'', VString (t_Status task)),
      (''next_trigger_time'', VString (FormatRFC3339 loc (t_NextTriggerTime task))),
      (''max_retry'', VInt (t_MaxRetry task)), (''timeout_seconds'', VInt (t_TimeoutSeconds task))]"

text \<open>A loop that collects what passes and stops at a limit: the prefix of what passes.\<close>

fun collect :: "('b \<Rightarrow> bool) \<Rightarrow> ('b \<Rightarrow> goval) \<Rightarrow> int \<Rightarrow> 'b list \<Rightarrow> goval list \<Rightarrow> goval list" where
  "collect keep row limit [] filtered = filtered"
| "collect keep row limit (x # xs) filtered =
     (if \<not> keep x then collect keep row limit xs filtered
      else let filtered = filtered @ [row x] in
        if int (length filtered) \<ge> limit then filtered else collect keep row limit xs filtered)"

definition query_tasks :: "'a world_scheme Bundle \<Rightarrow> string \<Rightarrow> ('a, error + goval) go" where
  "query_tasks b args = do {
     let p = Unmarshal_ignored (params [''name'', ''status'', ''limit'']) args zero_args;
     let limit = (if a_Limit p \<le> 0 then 20 else a_Limit p);
     listed \<leftarrow> ListTasks (bd_Task b);
     loc \<leftarrow> reads zone;
     case listed of
       Inl err \<Rightarrow> raise (Wrapped ''list tasks'' err)
     | Inr tasks \<Rightarrow>
         let filtered = collect (\<lambda>task.
               \<not> (a_Name p \<noteq> [] \<and> \<not> Contains (bd_ToLower b (t_Name task)) (bd_ToLower b (a_Name p))) \<and>
               \<not> (a_Status p \<noteq> [] \<and> t_Status task \<noteq> a_Status p)) (task_row loc) limit tasks []
         in ret (VMap [(''count'', VInt (int (length filtered))), (''tasks'', VList filtered)]) }"

definition instance_row :: "location \<Rightarrow> TaskInstance \<Rightarrow> goval" where
  "instance_row loc inst = VMap
     [(''id'', VInt (i_ID inst)), (''task_id'', VInt (i_TaskID inst)),
      (''schedule_instance_id'', VString (i_ScheduleInstanceID inst)), (''status'', VString (i_Status inst)),
      (''worker_id'', VString (i_WorkerID inst)), (''trigger_time'', VString (FormatRFC3339 loc (i_TriggerTime inst))),
      (''retry_count'', VInt (i_RetryCount inst)), (''error_code'', VString (i_ErrorCode inst)),
      (''error_message'', VString (truncateStr (i_ErrorMessage inst) 500))]"

text \<open>\<^verbatim>\<open>time.Duration(hours) * time.Hour\<close> wraps around.\<close>

definition hours_ago :: "time \<Rightarrow> int \<Rightarrow> time" where
  "hours_ago now hours = now + wrap64 (- wrap64 (hours * hour))"

definition query_instances :: "'a world_scheme Bundle \<Rightarrow> string \<Rightarrow> ('a, error + goval) go" where
  "query_instances b args = do {
     let p = Unmarshal_ignored (params [''status'', ''task_id'', ''hours'', ''limit'']) args zero_args;
     let hours = (if a_Hours p \<le> 0 then 24 else a_Hours p);
     let limit = (if a_Limit p \<le> 0 then 20 else a_Limit p);
     listed \<leftarrow> last_day b;
     case listed of
       Inl err \<Rightarrow> raise (Wrapped ''list instances'' err)
     | Inr insts \<Rightarrow> do {
         now \<leftarrow> time_now;
         loc \<leftarrow> reads zone;
         let cutoff = hours_ago now hours;
         let filtered = collect (\<lambda>inst. \<not> (a_Status p \<noteq> [] \<and> i_Status inst \<noteq> a_Status p) \<and>
               \<not> (a_TaskID p > 0 \<and> i_TaskID inst \<noteq> a_TaskID p) \<and> \<not> i_TriggerTime inst < cutoff)
               (instance_row loc) limit insts [];
         ret (VMap [(''count'', VInt (int (length filtered))), (''instances'', VList filtered)]) } }"

definition worker_row :: "location \<Rightarrow> WorkerNode \<Rightarrow> goval" where
  "worker_row loc w = VMap
     [(''id'', VString (w_ID w)), (''hostname'', VString (w_Hostname w)), (''status'', VString (w_Status w)),
      (''current_load'', VInt (w_CurrentLoad w)), (''max_concurrency'', VInt (w_MaxConcurrency w)),
      (''utilization_pct'', VString (fixed1 (if w_MaxConcurrency w > 0
         then percent (w_CurrentLoad w) (w_MaxConcurrency w) else 0))),
      (''last_heartbeat_at'', VString (FormatRFC3339 loc (w_LastHeartbeatAt w)))]"

definition online_workers :: "WorkerNode list \<Rightarrow> int" where
  "online_workers ws = int (length (filter (\<lambda>w. w_Status w = ''online'') ws))"

definition query_workers :: "'a world_scheme Bundle \<Rightarrow> string \<Rightarrow> ('a, error + goval) go" where
  "query_workers b args = do {
     listed \<leftarrow> ListWorkers (bd_Worker b);
     loc \<leftarrow> reads zone;
     case listed of
       Inl err \<Rightarrow> raise (Wrapped ''list workers'' err)
     | Inr ws \<Rightarrow> ret (VMap [(''total'', VInt (int (length ws))), (''online'', VInt (online_workers ws)),
         (''workers'', VList (map (worker_row loc) ws))]) }"

definition recent_row :: "location \<Rightarrow> TaskInstance \<Rightarrow> goval" where
  "recent_row loc inst = VMap
     [(''id'', VInt (i_ID inst)), (''status'', VString (i_Status inst)),
      (''trigger_time'', VString (FormatRFC3339 loc (i_TriggerTime inst))), (''retry_count'', VInt (i_RetryCount inst)),
      (''error_code'', VString (i_ErrorCode inst))]"

definition get_task_detail :: "'a world_scheme Bundle \<Rightarrow> string \<Rightarrow> ('a, error + goval) go" where
  "get_task_detail b args = do {
     let p = Unmarshal_ignored (params [''task_id'']) args zero_args;
     if a_TaskID p \<le> 0 then raise (Errorf ''task_id is required'')
     else do {
       found \<leftarrow> GetTask (bd_Task b) (a_TaskID p);
       case found of
         Inl err \<Rightarrow> raise (Wrapped ''get task'' err)
       | Inr task \<Rightarrow> do {
           ups \<leftarrow> ListUpstreamDeps (bd_Task b) (a_TaskID p);
           downs \<leftarrow> ListDownstreamTasks (bd_Task b) (a_TaskID p);
           insts \<leftarrow> last_day b;
           loc \<leftarrow> reads zone;
           ret (VMap
             [(''id'', VInt (t_ID task)), (''name'', VString (t_Name task)), (''type'', VString (t_Type task)),
              (''cron_expr'', VString (t_CronExpr task)), (''payload'', VString (truncateStr (t_Payload task) 500)),
              (''status'', VString (t_Status task)), (''timeout_seconds'', VInt (t_TimeoutSeconds task)),
              (''max_retry'', VInt (t_MaxRetry task)), (''retry_policy'', VString (t_RetryPolicy task)),
              (''route_strategy'', VString (t_RouteStrategy task)),
              (''next_trigger_time'', VString (FormatRFC3339 loc (t_NextTriggerTime task))),
              (''upstream_deps'', VInts (or_empty ups)), (''downstream_deps'', VInts (or_empty downs)),
              (''recent_instances'', VList (map (recent_row loc)
                 (take 10 (filter (\<lambda>inst. i_TaskID inst = a_TaskID p) (or_empty insts)))))]) } } }"

definition count_status :: "string list \<Rightarrow> TaskInstance list \<Rightarrow> int" where
  "count_status sts insts = int (length (filter (\<lambda>inst. i_Status inst \<in> set sts) insts))"

definition get_system_health :: "'a world_scheme Bundle \<Rightarrow> string \<Rightarrow> ('a, error + goval) go" where
  "get_system_health b args = do {
     listed \<leftarrow> ListTasks (bd_Task b);
     listed_workers \<leftarrow> ListWorkers (bd_Worker b);
     listed_insts \<leftarrow> last_day b;
     let tasks = or_empty listed;
     let ws = or_empty listed_workers;
     let insts = or_empty listed_insts;
     let enabledTasks = int (length (filter (\<lambda>t. t_Status t = ''enabled'') tasks));
     let totalLoad = foldl (\<lambda>n w. wrap64 (n + w_CurrentLoad w)) 0 ws;
     let totalCapacity = foldl (\<lambda>n w. wrap64 (n + w_MaxConcurrency w)) 0 ws;
     let recentTotal = int (length insts);
     let recentFailed = count_status [''failed'', ''timeout''] insts;
     ret (VMap
       [(''tasks'', VMap [(''total'', VInt (int (length tasks))), (''enabled'', VInt enabledTasks),
           (''disabled'', VInt (int (length tasks) - enabledTasks))]),
        (''workers'', VMap [(''total'', VInt (int (length ws))), (''online'', VInt (online_workers ws)),
           (''avg_load_pct'', VString (fixed1 (if totalCapacity > 0 then percent totalLoad totalCapacity else 0)))]),
        (''instances_24h'', VMap [(''total'', VInt recentTotal), (''success'', VInt (count_status [''success''] insts)),
           (''failed'', VInt recentFailed), (''running'', VInt (count_status [''running''] insts)),
           (''failure_rate'', VString (fixed1 (if recentTotal > 0 then percent recentFailed recentTotal else 0) @ ''%''))])]) }"

definition analyze_failure :: "'a world_scheme Bundle \<Rightarrow> string \<Rightarrow> ('a, error + goval) go" where
  "analyze_failure b args = do {
     let p = Unmarshal_ignored (params [''instance_id'']) args zero_args;
     if a_InstanceID p \<le> 0 then raise (Errorf ''instance_id is required'')
     else do {
       found \<leftarrow> GetInstance (bd_TaskInstance b) (a_InstanceID p);
       case found of
         Inl err \<Rightarrow> raise (Wrapped ''get instance'' err)
       | Inr inst \<Rightarrow> do {
           found_task \<leftarrow> GetTask (bd_Task b) (i_TaskID inst);
           loc \<leftarrow> reads zone;
           case found_task of
             Inl err \<Rightarrow> raise (Wrapped ''get task'' err)
           | Inr task \<Rightarrow> ret (VMap
               [(''instance_id'', VInt (i_ID inst)), (''task_id'', VInt (i_TaskID inst)), (''task_type'', VString (t_Type task)),
                (''status'', VString (i_Status inst)), (''error_code'', VString (i_ErrorCode inst)),
                (''error_message'', VString (i_ErrorMessage inst)), (''retry_count'', VInt (i_RetryCount inst)),
                (''trigger_time'', VString (FormatRFC3339 loc (i_TriggerTime inst))),
                (''worker_id'', VString (i_WorkerID inst))]) } } }"

definition snapshot_row :: "location \<Rightarrow> WorkerLoadSnapshot \<Rightarrow> goval" where
  "snapshot_row loc s = VMap
     [(''worker_id'', VString (l_WorkerID s)), (''current_load'', VInt (l_CurrentLoad s)),
      (''max_concurrency'', VInt (l_MaxConcurrency s)), (''status'', VString (l_Status s)),
      (''recorded_at'', VString (FormatRFC3339 loc (l_RecordedAt s)))]"

definition get_worker_load_history :: "'a world_scheme Bundle \<Rightarrow> string \<Rightarrow> ('a, error + goval) go" where
  "get_worker_load_history b args = do {
     let p = Unmarshal_ignored (params [''worker_id'', ''hours'']) args zero_args;
     let hours = (if a_Hours p \<le> 0 then 24 else a_Hours p);
     now \<leftarrow> time_now;
     till \<leftarrow> time_now;
     listed \<leftarrow> bd_ListSnapshots b (a_WorkerID p) (hours_ago now hours) till 200;
     loc \<leftarrow> reads zone;
     case listed of
       Inl err \<Rightarrow> raise (Wrapped ''list snapshots'' err)
     | Inr snapshots \<Rightarrow> ret (VMap [(''snapshots'', VList (map (snapshot_row loc) snapshots)),
         (''count'', VInt (int (length snapshots)))]) }"

section \<open>Tools that write\<close>

definition create_defaults :: "tool_args \<Rightarrow> tool_args" where
  "create_defaults p =
     (let p = (if a_TimeoutSeconds p \<le> 0 then p\<lparr>a_TimeoutSeconds := 300\<rparr> else p);
          p = (if a_MaxRetry p \<le> 0 then p\<lparr>a_MaxRetry := 3\<rparr> else p);
          p = (if a_RetryPolicy p = [] then p\<lparr>a_RetryPolicy := ''fixed_interval''\<rparr> else p)
      in p)"

definition created_task :: "tool_args \<Rightarrow> time \<Rightarrow> Task" where
  "created_task p nextTrigger = zero_Task\<lparr>t_Name := a_Name p, t_Type := a_Type p, t_CronExpr := a_CronExpr p,
     t_Payload := a_Payload p, t_Image := a_Image p, t_Status := ''enabled'', t_TimeoutSeconds := a_TimeoutSeconds p,
     t_MaxRetry := a_MaxRetry p, t_RetryPolicy := a_RetryPolicy p, t_RouteStrategy := ''round_robin'',
     t_NextTriggerTime := nextTrigger\<rparr>"

definition create_task_params :: "string list" where
  "create_task_params = [''name'', ''type'', ''cron_expr'', ''payload'', ''image'', ''timeout_seconds'', ''max_retry'',
     ''retry_policy'']"

text \<open>The expression is evaluated twice, at two readings of the clock; the second one's error is ignored.
  Of the text of a JSON error only its beginning is kept.\<close>

definition create_task :: "'a world_scheme Bundle \<Rightarrow> string \<Rightarrow> ('a, error + goval) go" where
  "create_task b args =
     (case Unmarshal (params create_task_params) args zero_args of
        None \<Rightarrow> raise (Errorf ''invalid args'')
      | Some p \<Rightarrow>
         if a_Name p = [] \<or> a_Type p = [] \<or> a_CronExpr p = [] \<or> a_Payload p = []
         then raise (Errorf ''name, type, cron_expr, and payload are required'')
         else do {
           let p = create_defaults p;
           loc \<leftarrow> reads zone;
           now \<leftarrow> time_now;
           case NextAfter loc now (a_CronExpr p) of
             Inl _ \<Rightarrow> raise (Errorf (''invalid cron expression: '' @ a_CronExpr p))
           | Inr _ \<Rightarrow> do {
               later \<leftarrow> time_now;
               let nextTrigger = (case NextAfter loc later (a_CronExpr p) of Inr t \<Rightarrow> t | Inl _ \<Rightarrow> zero_time);
               stored \<leftarrow> CreateTask (bd_Task b) (created_task p nextTrigger);
               case stored of
                 Inl err \<Rightarrow> raise (Wrapped ''create task'' err)
               | Inr task \<Rightarrow> ret (VMap [(''created'', VBool True), (''task_id'', VInt (t_ID task)), (''name'', VString (t_Name task)),
                   (''message'', VString (runes [0x4EFB, 0x52A1] @ '' '' @ t_Name task @ '' (ID: '' @ itoa (t_ID task) @ '') '' @
                      runes [0x521B, 0x5EFA, 0x6210, 0x529F, 0xFF0C, 0x4E0B, 0x6B21, 0x89E6, 0x53D1, 0x65F6, 0x95F4] @ '' '' @ FormatRFC3339 loc nextTrigger))]) } })"

definition trigger_task :: "'a world_scheme Bundle \<Rightarrow> string \<Rightarrow> ('a, error + goval) go" where
  "trigger_task b args = do {
     let p = Unmarshal_ignored (params [''task_id'']) args zero_args;
     if a_TaskID p \<le> 0 then raise (Errorf ''task_id is required'')
     else do {
       found \<leftarrow> GetTask (bd_Task b) (a_TaskID p);
       case found of
         Inl err \<Rightarrow> raise (Wrapped ''get task'' err)
       | Inr task \<Rightarrow> do {
           now \<leftarrow> time_now;
           stored \<leftarrow> UpdateTask (bd_Task b) (task\<lparr>t_NextTriggerTime := now\<rparr>);
           case stored of
             Inl err \<Rightarrow> raise (Wrapped ''update task'' err)
           | Inr task \<Rightarrow> ret (VMap [(''triggered'', VBool True), (''task_id'', VInt (t_ID task)), (''name'', VString (t_Name task)),
               (''message'', VString (runes [0x4EFB, 0x52A1] @ '' '' @ t_Name task @ '' '' @ runes [0x5DF2, 0x89E6, 0x53D1, 0xFF0C, 0x5C06, 0x5728, 0x4E0B, 0x4E00, 0x4E2A, 0x8C03, 0x5EA6, 0x5468, 0x671F, 0x6267, 0x884C]))]) } } }"

definition store_status :: "'a world_scheme Bundle \<Rightarrow> Task \<Rightarrow> string \<Rightarrow> ('a, error + goval) go" where
  "store_status b task done = do {
     stored \<leftarrow> UpdateTask (bd_Task b) task;
     case stored of
       Inl err \<Rightarrow> raise (Wrapped ''update task'' err)
     | Inr task \<Rightarrow> ret (VMap [(''task_id'', VInt (t_ID task)), (''name'', VString (t_Name task)), (''status'', VString (t_Status task)),
         (''message'', VString (runes [0x4EFB, 0x52A1] @ '' '' @ t_Name task @ '' '' @ runes [0x5DF2] @ done))]) }"

definition pause_task :: "'a world_scheme Bundle \<Rightarrow> string \<Rightarrow> ('a, error + goval) go" where
  "pause_task b args = do {
     let p = Unmarshal_ignored (params [''task_id'', ''action'']) args zero_args;
     if a_TaskID p \<le> 0 then raise (Errorf ''task_id is required'')
     else do {
       found \<leftarrow> GetTask (bd_Task b) (a_TaskID p);
       case found of
         Inl err \<Rightarrow> raise (Wrapped ''get task'' err)
       | Inr task \<Rightarrow>
           if a_Action p = ''pause'' then
             (if t_Status task = ''disabled'' then ret (VMap [(''message'', VString (runes [0x4EFB, 0x52A1, 0x5DF2, 0x7ECF, 0x662F, 0x6682, 0x505C, 0x72B6, 0x6001]))])
              else store_status b (task\<lparr>t_Status := ''disabled''\<rparr>) (runes [0x6682, 0x505C]))
           else if a_Action p = ''resume'' then
             (if t_Status task = ''enabled'' then ret (VMap [(''message'', VString (runes [0x4EFB, 0x52A1, 0x5DF2, 0x7ECF, 0x662F, 0x8FD0, 0x884C, 0x72B6, 0x6001]))])
              else store_status b (task\<lparr>t_Status := ''enabled''\<rparr>) (runes [0x6062, 0x590D]))
           else do {
             is_print \<leftarrow> reads unicode_print;
             raise (Errorf (''action must be pause or resume, got '' @ go_quote is_print (a_Action p))) } } }"

definition retried_instance :: "TaskInstance \<Rightarrow> Task \<Rightarrow> time \<Rightarrow> TaskInstance" where
  "retried_instance inst task now = zero_TaskInstance\<lparr>i_TaskID := t_ID task,
     i_ScheduleInstanceID := i_ScheduleInstanceID inst @ ''-retry-'' @ itoa (wrap64 (i_RetryCount inst + 1)),
     i_TriggerTime := now, i_Status := ''pending'', i_RetryCount := wrap64 (i_RetryCount inst + 1),
     i_ShardNo := i_ShardNo inst, i_ShardTotal := i_ShardTotal inst\<rparr>"

definition retry_failed_instance :: "'a world_scheme Bundle \<Rightarrow> string \<Rightarrow> ('a, error + goval) go" where
  "retry_failed_instance b args = do {
     let p = Unmarshal_ignored (params [''instance_id'']) args zero_args;
     if a_InstanceID p \<le> 0 then raise (Errorf ''instance_id is required'')
     else do {
       found \<leftarrow> GetInstance (bd_TaskInstance b) (a_InstanceID p);
       case found of
         Inl err \<Rightarrow> raise (Wrapped ''get instance'' err)
       | Inr inst \<Rightarrow>
           if i_Status inst \<noteq> ''failed'' \<and> i_Status inst \<noteq> ''timeout''
           then ret (VMap [(''message'', VString (runes [0x5B9E, 0x4F8B, 0x72B6, 0x6001, 0x4E3A] @ '' '' @ i_Status inst @ runes [0xFF0C, 0x65E0, 0x9700, 0x91CD, 0x8BD5]))])
           else do {
             found_task \<leftarrow> GetTask (bd_Task b) (i_TaskID inst);
             case found_task of
               Inl err \<Rightarrow> raise (Wrapped ''get task'' err)
             | Inr task \<Rightarrow> do {
                 now \<leftarrow> time_now;
                 stored \<leftarrow> CreateInstance (bd_TaskInstance b) (retried_instance inst task now);
                 case stored of
                   Inl err \<Rightarrow> raise (Wrapped ''create retry instance'' err)
                 | Inr new \<Rightarrow> ret (VMap [(''instance_id'', VInt (i_ID new)), (''task_name'', VString (t_Name task)),
                     (''message'', VString (runes [0x5DF2, 0x4E3A, 0x4EFB, 0x52A1] @ '' '' @ t_Name task @ '' '' @ runes [0x521B, 0x5EFA, 0x91CD, 0x8BD5, 0x5B9E, 0x4F8B]))]) } } } }"

definition delete_task :: "'a world_scheme Bundle \<Rightarrow> string \<Rightarrow> ('a, error + goval) go" where
  "delete_task b args = do {
     let p = Unmarshal_ignored (params [''task_id'']) args zero_args;
     if a_TaskID p \<le> 0 then raise (Errorf ''task_id is required'')
     else do {
       found \<leftarrow> GetTask (bd_Task b) (a_TaskID p);
       case found of
         Inl err \<Rightarrow> raise (Wrapped ''get task'' err)
       | Inr task \<Rightarrow> do {
           gone \<leftarrow> DeleteTask (bd_Task b) (a_TaskID p);
           case gone of
             Inl err \<Rightarrow> raise (Wrapped ''delete task'' err)
           | Inr _ \<Rightarrow> ret (VMap [(''task_name'', VString (t_Name task)),
               (''message'', VString (runes [0x4EFB, 0x52A1] @ '' '' @ t_Name task @ '' '' @ runes [0x5DF2, 0x5220, 0x9664]))]) } } }"

section \<open>The registry\<close>

datatype tool =
    query_tasks_tool | query_instances_tool | query_workers_tool | get_task_detail_tool | get_system_health_tool
  | analyze_failure_tool | create_task_tool | trigger_task_tool | pause_task_tool | retry_failed_instance_tool
  | delete_task_tool | get_worker_load_history_tool

record schema =
  sc_Name :: string
  sc_Properties :: "(string \<times> string) list"
  sc_Required :: "string list"

abbreviation schema_of :: "string \<Rightarrow> (string \<times> string) list \<Rightarrow> string list \<Rightarrow> schema" where
  "schema_of n ps rs \<equiv> \<lparr>sc_Name = n, sc_Properties = ps, sc_Required = rs\<rparr>"

definition query_tasks_schema :: schema where
  "query_tasks_schema = schema_of ''query_tasks''
     [(''name'', ''string''), (''status'', ''string''), (''limit'', ''integer'')] []"

definition query_instances_schema :: schema where
  "query_instances_schema = schema_of ''query_instances''
     [(''status'', ''string''), (''task_id'', ''integer''), (''hours'', ''integer''), (''limit'', ''integer'')] []"

definition query_workers_schema :: schema where
  "query_workers_schema = schema_of ''query_workers'' [] []"

definition get_task_detail_schema :: schema where
  "get_task_detail_schema = schema_of ''get_task_detail'' [(''task_id'', ''integer'')] [''task_id'']"

definition get_system_health_schema :: schema where
  "get_system_health_schema = schema_of ''get_system_health'' [] []"

definition analyze_failure_schema :: schema where
  "analyze_failure_schema = schema_of ''analyze_failure'' [(''instance_id'', ''integer'')] [''instance_id'']"

definition create_task_schema :: schema where
  "create_task_schema = schema_of ''create_task''
     [(''name'', ''string''), (''type'', ''string''), (''cron_expr'', ''string''), (''payload'', ''string''), (''image'', ''string''),
      (''timeout_seconds'', ''integer''), (''max_retry'', ''integer''), (''retry_policy'', ''string'')]
     [''name'', ''type'', ''cron_expr'', ''payload'']"

definition trigger_task_schema :: schema where
  "trigger_task_schema = schema_of ''trigger_task'' [(''task_id'', ''integer'')] [''task_id'']"

definition pause_task_schema :: schema where
  "pause_task_schema = schema_of ''pause_task'' [(''task_id'', ''integer''), (''action'', ''string'')] [''task_id'', ''action'']"

definition retry_failed_instance_schema :: schema where
  "retry_failed_instance_schema = schema_of ''retry_failed_instance'' [(''instance_id'', ''integer'')] [''instance_id'']"

definition delete_task_schema :: schema where
  "delete_task_schema = schema_of ''delete_task'' [(''task_id'', ''integer'')] [''task_id'']"

definition get_worker_load_history_schema :: schema where
  "get_worker_load_history_schema = schema_of ''get_worker_load_history''
     [(''worker_id'', ''string''), (''hours'', ''integer'')] []"

primrec Definition :: "tool \<Rightarrow> schema" where
  "Definition query_tasks_tool = query_tasks_schema"
| "Definition query_instances_tool = query_instances_schema"
| "Definition query_workers_tool = query_workers_schema"
| "Definition get_task_detail_tool = get_task_detail_schema"
| "Definition get_system_health_tool = get_system_health_schema"
| "Definition analyze_failure_tool = analyze_failure_schema"
| "Definition create_task_tool = create_task_schema"
| "Definition trigger_task_tool = trigger_task_schema"
| "Definition pause_task_tool = pause_task_schema"
| "Definition retry_failed_instance_tool = retry_failed_instance_schema"
| "Definition delete_task_tool = delete_task_schema"
| "Definition get_worker_load_history_tool = get_worker_load_history_schema"

lemmas schemas [simp] =
  query_tasks_schema_def query_instances_schema_def query_workers_schema_def get_task_detail_schema_def
  get_system_health_schema_def analyze_failure_schema_def create_task_schema_def trigger_task_schema_def
  pause_task_schema_def retry_failed_instance_schema_def delete_task_schema_def
  get_worker_load_history_schema_def

primrec Tool_Execute :: "'a world_scheme Bundle \<Rightarrow> tool \<Rightarrow> string \<Rightarrow> ('a, error + goval) go" where
  "Tool_Execute b query_tasks_tool = query_tasks b"
| "Tool_Execute b query_instances_tool = query_instances b"
| "Tool_Execute b query_workers_tool = query_workers b"
| "Tool_Execute b get_task_detail_tool = get_task_detail b"
| "Tool_Execute b get_system_health_tool = get_system_health b"
| "Tool_Execute b analyze_failure_tool = analyze_failure b"
| "Tool_Execute b create_task_tool = create_task b"
| "Tool_Execute b trigger_task_tool = trigger_task b"
| "Tool_Execute b pause_task_tool = pause_task b"
| "Tool_Execute b retry_failed_instance_tool = retry_failed_instance b"
| "Tool_Execute b delete_task_tool = delete_task b"
| "Tool_Execute b get_worker_load_history_tool = get_worker_load_history b"

type_synonym tool_registry = "(string, tool) gomap"

definition NewToolRegistry :: "tool list \<Rightarrow> tool_registry" where
  "NewToolRegistry ts = fold (\<lambda>t m. mput (sc_Name (Definition t)) t m) ts []"

definition AllTools :: "tool list" where
  "AllTools = [query_tasks_tool, query_instances_tool, query_workers_tool, get_task_detail_tool, get_system_health_tool,
     analyze_failure_tool, create_task_tool, trigger_task_tool, pause_task_tool, retry_failed_instance_tool,
     delete_task_tool, get_worker_load_history_tool]"

definition Definitions :: "tool_registry \<Rightarrow> schema list" where
  "Definitions r = map (Definition \<circ> snd) r"

definition Registry_Execute ::
  "'a world_scheme Bundle \<Rightarrow> tool_registry \<Rightarrow> string \<Rightarrow> string \<Rightarrow> ('a, error + goval) go" where
  "Registry_Execute b r name argsJSON =
     (case mget r name of
        None \<Rightarrow> raise (Errorf (''unknown tool: '' @ name))
      | Some t \<Rightarrow> Tool_Execute b t argsJSON)"

section \<open>What tools do to the stores\<close>

definition writes :: "tool \<Rightarrow> bool" where
  "writes t \<longleftrightarrow> t \<in> {create_task_tool, trigger_task_tool, pause_task_tool, retry_failed_instance_tool, delete_task_tool}"

text \<open>
  The effect of a tool on what is stored: nothing, or one task created, changed or deleted, or one instance
  created.
\<close>

definition retimed :: "Task \<Rightarrow> Task \<Rightarrow> bool" where
  "retimed t t' \<longleftrightarrow> (\<exists>n u. t' = t\<lparr>t_NextTriggerTime := n, t_CreatedAt := t_CreatedAt t, t_UpdatedAt := u,
     t_Version := t_Version t + 1\<rparr>)"

definition switched :: "Task \<Rightarrow> Task \<Rightarrow> bool" where
  "switched t t' \<longleftrightarrow> (\<exists>s u. s \<in> {''enabled'', ''disabled''} \<and> s \<noteq> t_Status t \<and>
     t' = t\<lparr>t_Status := s, t_CreatedAt := t_CreatedAt t, t_UpdatedAt := u, t_Version := t_Version t + 1\<rparr>)"

definition task_changed :: "(Task \<Rightarrow> Task \<Rightarrow> bool) \<Rightarrow> view \<Rightarrow> view \<Rightarrow> bool" where
  "task_changed R v v' \<longleftrightarrow> (\<exists>k t t'. v_tasks v k = Some t \<and> R t t' \<and> v' = v\<lparr>v_tasks := (v_tasks v)(k \<mapsto> t')\<rparr>)"

definition task_created :: "view \<Rightarrow> view \<Rightarrow> bool" where
  "task_created v v' \<longleftrightarrow> (\<exists>k t. 0 < k \<and> v_tasks v k = None \<and> t_ID t = k \<and> t_Status t = ''enabled'' \<and>
     t_TenantID t = 0 \<and> 0 < t_MaxRetry t \<and> 0 < t_TimeoutSeconds t \<and> v' = v\<lparr>v_tasks := (v_tasks v)(k \<mapsto> t)\<rparr>)"

lemma task_createdI:
  assumes "0 < t_ID t" "v_tasks v (t_ID t) = None" "t_Status t = ''enabled''" "t_TenantID t = 0" "0 < t_MaxRetry t"
    "0 < t_TimeoutSeconds t" "v' = v\<lparr>v_tasks := (v_tasks v)(t_ID t \<mapsto> t)\<rparr>"
  shows "task_created v v'"
  unfolding task_created_def using assms by blast

lemma created_task_sel:
  "t_Status (created_task (create_defaults p) n) = ''enabled''" "t_TenantID (created_task (create_defaults p) n) = 0"
  "0 < t_MaxRetry (created_task (create_defaults p) n)" "0 < t_TimeoutSeconds (created_task (create_defaults p) n)"
  by (simp_all add: created_task_def zero_Task_def create_defaults_def Let_def)

definition task_deleted :: "view \<Rightarrow> view \<Rightarrow> bool" where
  "task_deleted v v' \<longleftrightarrow> (\<exists>k. v_tasks v k \<noteq> None \<and> v' = v\<lparr>v_tasks := (v_tasks v)(k := None)\<rparr>)"

definition instance_retried :: "view \<Rightarrow> view \<Rightarrow> bool" where
  "instance_retried v v' \<longleftrightarrow> (\<exists>n i m j. v_insts v n = Some i \<and> i_Status i \<in> {''failed'', ''timeout''} \<and> v_insts v m = None \<and>
     i_ID j = m \<and> i_TaskID j = i_TaskID i \<and> i_Status j = ''pending'' \<and> i_RetryCount j = wrap64 (i_RetryCount i + 1) \<and>
     v' = v\<lparr>v_insts := (v_insts v)(m \<mapsto> j), v_sched := (v_sched v)(i_ScheduleInstanceID j \<mapsto> m)\<rparr>)"

lemma instance_retriedI:
  assumes "v_insts v n = Some i" "i_Status i \<in> {''failed'', ''timeout''}" "v_insts v (i_ID j) = None"
    "i_TaskID j = i_TaskID i" "i_Status j = ''pending''" "i_RetryCount j = wrap64 (i_RetryCount i + 1)"
    "v' = v\<lparr>v_insts := (v_insts v)(i_ID j \<mapsto> j), v_sched := (v_sched v)(i_ScheduleInstanceID j \<mapsto> i_ID j)\<rparr>"
  shows "instance_retried v v'"
  unfolding instance_retried_def using assms by blast

definition tool_effect :: "tool \<Rightarrow> view \<Rightarrow> view \<Rightarrow> bool" where
  "tool_effect t v v' \<longleftrightarrow> v' = v \<or>
     (case t of
        create_task_tool \<Rightarrow> task_created v v'
      | trigger_task_tool \<Rightarrow> task_changed retimed v v'
      | pause_task_tool \<Rightarrow> task_changed switched v v'
      | delete_task_tool \<Rightarrow> task_deleted v v'
      | retry_failed_instance_tool \<Rightarrow> instance_retried v v'
      | _ \<Rightarrow> False)"

lemma tool_effect_refl [simp]: "tool_effect t v v"
  by (simp add: tool_effect_def)

lemma tool_effect_persists: "tool_effect t v v' \<Longrightarrow> persists v v'"
  by (cases t) (auto simp: tool_effect_def task_created_def task_changed_def task_deleted_def instance_retried_def
      persists_def split: if_splits)

lemma registered:
  "mget (NewToolRegistry AllTools) name = find (\<lambda>t. sc_Name (Definition t) = name) AllTools"
  by (simp add: NewToolRegistry_def AllTools_def eq_commute)

definition asked :: "string \<Rightarrow> tool option" where
  "asked name = find (\<lambda>t. sc_Name (Definition t) = name) AllTools"

context repositories
begin

abbreviation tools_on :: "(string \<Rightarrow> time \<Rightarrow> time \<Rightarrow> int \<Rightarrow> ('a, error + WorkerLoadSnapshot list) go) \<Rightarrow>
    (string \<Rightarrow> string) \<Rightarrow> 'a world_scheme Bundle" where
  "tools_on snaps lower \<equiv> \<lparr>bd_Task = T, bd_TaskInstance = I, bd_Worker = W, bd_ListSnapshots = snaps, bd_ToLower = lower\<rparr>"

lemma quiet_time_range: "quiet (ListInstancesByTimeRange I since till n m)" "quiet (ListDownstreamTasks T k)"
  using list_by_time list_downstream unfolding quiet_def wp_iff by blast+

lemma quiet_last_day: "quiet (last_day (tools_on snaps lower))"
  by (simp add: last_day_def quiet_intros quiet_time_range)

lemma quiet_queries:
  assumes "\<And>s f t n. quiet (snaps s f t n)"
  shows "\<not> writes t \<Longrightarrow> quiet (Tool_Execute (tools_on snaps lower) t args)"
  by (cases t)
    (auto simp: writes_def query_tasks_def query_instances_def query_workers_def get_task_detail_def get_system_health_def
      analyze_failure_def get_worker_load_history_def Let_def
      intro!: quiet_intros quiet_time_range quiet_last_day assms split: sum.split)

lemma create_task_effect:
  assumes "ok w"
  shows "wp (create_task (tools_on snaps lower) args) (\<lambda>_ w'. ok w' \<and> tool_effect create_task_tool (vw w) (vw w')) w"
proof -
  have c: "wp (CreateTask T (created_task (create_defaults p) t))
      (\<lambda>_ w'. ok w' \<and> tool_effect create_task_tool (vw w) (vw w')) (w\<lparr>readings := n\<rparr>)" for p t n
  proof (rule wp_create_task)
    fix w' k now
    let ?t = "(created_task (create_defaults p) t)\<lparr>t_ID := k, t_CreatedAt := now, t_UpdatedAt := now, t_Version := 1\<rparr>"
    assume "0 < k" "v_tasks (vw (w\<lparr>readings := n\<rparr>)) k = None" "ok w'"
      "vw w' = (vw (w\<lparr>readings := n\<rparr>))\<lparr>v_tasks := (v_tasks (vw (w\<lparr>readings := n\<rparr>)))(k \<mapsto> ?t)\<rparr>"
    then have "task_created (vw w) (vw w')" by (intro task_createdI [where t = ?t]) (simp_all add: created_task_sel)
    with \<open>ok w'\<close> show "ok w' \<and> tool_effect create_task_tool (vw w) (vw w')" by (simp add: tool_effect_def)
  qed (simp add: assms)
  note u = wp_mono [OF c]
  show ?thesis
    using assms by (auto simp: create_task_def Let_def wps intro!: u split: option.split sum.split)
qed

lemma store_task_effect:
  assumes "ok w" "v_tasks (vw w) k = Some t" "t_ID t' = k" "\<And>u. R t (t'\<lparr>t_CreatedAt := t_CreatedAt t, t_UpdatedAt := u, t_Version := t_Version t + 1\<rparr>)"
  shows "wp (UpdateTask T t') (\<lambda>_ w'. ok w' \<and> task_changed R (vw w) (vw w')) w"
  by (rule wp_update_task [OF assms(1)]) (use assms in \<open>auto simp: task_changed_def\<close>)

lemma trigger_task_effect:
  assumes "ok w"
  shows "wp (trigger_task (tools_on snaps lower) args) (\<lambda>_ w'. ok w' \<and> tool_effect trigger_task_tool (vw w) (vw w')) w"
proof -
  have "wp (UpdateTask T (t\<lparr>t_NextTriggerTime := now\<rparr>)) (\<lambda>_ w'. ok w' \<and> tool_effect trigger_task_tool (vw w) (vw w')) (w\<lparr>readings := n\<rparr>)"
    if "v_tasks (vw w) k = Some t" for k t now n
    by (rule wp_mono [OF store_task_effect [where R = retimed, of "w\<lparr>readings := n\<rparr>" k t]])
      (use assms that task_id [OF assms that] in \<open>auto simp: retimed_def tool_effect_def\<close>)
  note u = wp_mono [OF this]
  show ?thesis
    using assms by (auto simp: trigger_task_def Let_def wps wp_get_task intro!: u split: option.split sum.split)
qed

lemma pause_task_effect:
  assumes "ok w"
  shows "wp (pause_task (tools_on snaps lower) args) (\<lambda>_ w'. ok w' \<and> tool_effect pause_task_tool (vw w) (vw w')) w"
proof -
  have "wp (UpdateTask T (t\<lparr>t_Status := s\<rparr>)) (\<lambda>_ w'. ok w' \<and> tool_effect pause_task_tool (vw w) (vw w')) w"
    if "v_tasks (vw w) k = Some t" "s \<in> {''enabled'', ''disabled''}" "s \<noteq> t_Status t" for k t s
    by (rule wp_mono [OF store_task_effect [where R = switched, of w k t]])
      (use assms that task_id [OF assms that(1)] in \<open>auto simp: switched_def tool_effect_def\<close>)
  note u = wp_mono [OF this]
  show ?thesis
    using assms
    by (auto simp: pause_task_def store_status_def Let_def wps wp_get_task intro!: u split: option.split sum.split)
qed

lemma delete_task_effect:
  assumes "ok w"
  shows "wp (delete_task (tools_on snaps lower) args) (\<lambda>_ w'. ok w' \<and> tool_effect delete_task_tool (vw w) (vw w')) w"
proof -
  have "wp (DeleteTask T k) (\<lambda>_ w'. ok w' \<and> tool_effect delete_task_tool (vw w) (vw w')) w" for k
    by (rule wp_delete_task) (auto simp: assms tool_effect_def task_deleted_def)
  note u = wp_mono [OF this]
  show ?thesis
    using assms by (auto simp: delete_task_def Let_def wps wp_get_task intro!: u split: option.split sum.split)
qed

lemma wp_get_instance:
  "ok w \<Longrightarrow> wp (GetInstance I n) Q w \<longleftrightarrow>
     Q (case v_insts (vw w) n of None \<Rightarrow> Inl ErrTaskInstanceNotFound | Some i \<Rightarrow> Inr i) w"
  by (simp add: wp_run [OF get_instance])

lemma retry_failed_instance_effect:
  assumes "ok w"
  shows "wp (retry_failed_instance (tools_on snaps lower) args)
    (\<lambda>_ w'. ok w' \<and> tool_effect retry_failed_instance_tool (vw w) (vw w')) w"
proof -
  have "wp (CreateInstance I (retried_instance i t now)) (\<lambda>_ w'. ok w' \<and> tool_effect retry_failed_instance_tool (vw w) (vw w'))
      (w\<lparr>readings := n\<rparr>)"
    if "v_insts (vw w) k = Some i" "i_Status i \<in> {''failed'', ''timeout''}" "v_tasks (vw w) (i_TaskID i) = Some t" for k i t now n
  proof (rule wp_create_instance)
    fix w' m c
    let ?j = "(retried_instance i t now)\<lparr>i_ID := m, i_CreatedAt := c, i_UpdatedAt := c\<rparr>"
    assume "v_insts (vw (w\<lparr>readings := n\<rparr>)) m = None" "ok w'"
      "vw w' = (vw (w\<lparr>readings := n\<rparr>))\<lparr>v_insts := (v_insts (vw (w\<lparr>readings := n\<rparr>)))(m \<mapsto> ?j),
         v_sched := (v_sched (vw (w\<lparr>readings := n\<rparr>)))(i_ScheduleInstanceID (retried_instance i t now) \<mapsto> m)\<rparr>"
    then have "instance_retried (vw w) (vw w')"
      using that task_id [OF assms that(3)]
      by (intro instance_retriedI [where i = i and j = ?j]) (simp_all add: retried_instance_def)
    with \<open>ok w'\<close> show "ok w' \<and> tool_effect retry_failed_instance_tool (vw w) (vw w')" by (simp add: tool_effect_def)
  qed (simp add: assms)
  note u = wp_mono [OF this]
  show ?thesis
    using assms
    by (auto simp: retry_failed_instance_def Let_def wps wp_get_task wp_get_instance intro!: u split: option.split sum.split)
qed

lemma Tool_Execute_effect:
  assumes "\<And>s f t n. quiet (snaps s f t n)" "ok w"
  shows "wp (Tool_Execute (tools_on snaps lower) t args) (\<lambda>_ w'. ok w' \<and> tool_effect t (vw w) (vw w')) w"
proof (cases "writes t")
  case True
  then show ?thesis
    using assms(2) by (auto simp: writes_def create_task_effect trigger_task_effect pause_task_effect delete_task_effect
        retry_failed_instance_effect)
next
  case False
  then have "quiet (Tool_Execute (tools_on snaps lower) t args)" by (rule quiet_queries [rotated]) (rule assms(1))
  with assms(2) have "wp (Tool_Execute (tools_on snaps lower) t args) (\<lambda>_ w'. ok w' \<and> vw w' = vw w) w"
    unfolding quiet_def by blast
  then show ?thesis by (rule wp_mono) simp
qed

lemma Registry_Execute_effect:
  assumes "\<And>s f t n. quiet (snaps s f t n)" "ok w"
  shows "wp (Registry_Execute (tools_on snaps lower) (NewToolRegistry AllTools) name args) (\<lambda>r w'. ok w' \<and>
    (case asked name of
       None \<Rightarrow> r = Inl (Errorf (''unknown tool: '' @ name)) \<and> w' = w
     | Some t \<Rightarrow> tool_effect t (vw w) (vw w'))) w"
  using Tool_Execute_effect [where snaps = snaps, OF assms] assms(2)
  by (cases "asked name") (simp_all add: Registry_Execute_def registered asked_def)

end

section \<open>Correctness\<close>

text \<open>The loop with a limit keeps a prefix of what passes.\<close>

lemma collect_take:
  "int (length acc) < limit \<Longrightarrow>
     collect keep row limit xs acc = acc @ map row (take (nat limit - length acc) (filter keep xs))"
proof (induction xs arbitrary: acc)
  case (Cons x xs)
  show ?case
  proof (cases "keep x \<and> int (length acc) + 1 < limit")
    case True
    then have "nat limit - length acc = Suc (nat limit - Suc (length acc))" using Cons.prems by linarith
    with True Cons.IH [of "acc @ [row x]"] show ?thesis by (simp add: Let_def)
  next
    case False
    have "nat limit - length acc = 1" if "limit \<le> int (length acc) + 1" using Cons.prems that by linarith
    with False Cons show ?thesis by (auto simp: Let_def)
  qed
qed simp

lemma collect_first: "0 < limit \<Longrightarrow> collect keep row limit xs [] = map row (take (nat limit) (filter keep xs))"
  using collect_take [of "[]" limit keep row xs] by simp

definition task_matches :: "(string \<Rightarrow> string) \<Rightarrow> tool_args \<Rightarrow> Task \<Rightarrow> bool" where
  "task_matches lower p t \<longleftrightarrow>
     (a_Name p = [] \<or> Contains (lower (t_Name t)) (lower (a_Name p))) \<and> (a_Status p = [] \<or> t_Status t = a_Status p)"

text \<open>
  C34. \<^verbatim>\<open>query_tasks\<close> answers the first tasks of the listing, in its order, that have the status asked for and whose
  name contains the name asked for, up to the limit asked for (20 when it is absent or not positive), with their number;
  when listing fails it answers that error.
\<close>

theorem query_tasks_first:
  "run_state (query_tasks b args) w =
     (case run_state (ListTasks (bd_Task b)) w of
        (Inl err, w') \<Rightarrow> (Inl (Wrapped ''list tasks'' err), w')
      | (Inr ts, w') \<Rightarrow>
         let p = Unmarshal_ignored (params [''name'', ''status'', ''limit'']) args zero_args;
             found = take (if a_Limit p \<le> 0 then 20 else nat (a_Limit p)) (filter (task_matches (bd_ToLower b) p) ts)
         in (Inr (VMap [(''count'', VInt (int (length found))), (''tasks'', VList (map (task_row (zone w')) found))]), w'))"
proof -
  have k: "(\<lambda>t. \<not> (a_Name p \<noteq> [] \<and> \<not> Contains (lower (t_Name t)) (lower (a_Name p))) \<and>
      \<not> (a_Status p \<noteq> [] \<and> t_Status t \<noteq> a_Status p)) = task_matches lower p" for lower p
    by (auto simp: task_matches_def)
  show ?thesis
    unfolding query_tasks_def k
    by (auto simp: Let_def collect_first split: prod.split sum.split if_split)
qed

lemma AllTools_complete: "t \<in> set AllTools"
  by (cases t) (simp_all add: AllTools_def)

text \<open>
  Whatever function name and arguments a language model asks for, the registry of all tools changes nothing but
  what that tool is for: an unknown name is an error that touches nothing; a query leaves the stores as they are; the
  other tools create one enabled task, retime, switch or delete one existing task, or create one pending instance for
  a failed one. No instance is lost and none that has ended changes.
\<close>

theorem tools_confined:
  assumes "stores_ok w"
    and "\<forall>u s f t n. stores_ok u \<longrightarrow> (case run_state (snaps s f t n) u of (_, u') \<Rightarrow> stores_ok u' \<and> test_view u' = test_view u)"
  shows "case run_state (Registry_Execute \<lparr>bd_Task = test_tasks, bd_TaskInstance = test_instances, bd_Worker = test_workers,
        bd_ListSnapshots = snaps, bd_ToLower = lower\<rparr> (NewToolRegistry AllTools) name args) w of
      (r, w') \<Rightarrow> stores_ok w' \<and> persists (test_view w) (test_view w') \<and>
        (case find (\<lambda>t. sc_Name (Definition t) = name) AllTools of
           None \<Rightarrow> r = Inl (Errorf (''unknown tool: '' @ name)) \<and> w' = w
         | Some t \<Rightarrow> tool_effect t (test_view w) (test_view w'))"
proof -
  have "ts.quiet (snaps s f t n)" for s f t n
    unfolding ts.quiet_def wp_def using assms(2) by (auto split: prod.split)
  from ts.Registry_Execute_effect [where snaps = snaps, OF this assms(1), of lower name args] show ?thesis
    unfolding wp_def asked_def by (auto split: option.splits prod.splits dest: tool_effect_persists)
qed

theorem tools_confined_witness:
  "case run_state (Registry_Execute \<lparr>bd_Task = test_tasks, bd_TaskInstance = test_instances, bd_Worker = test_workers,
        bd_ListSnapshots = (\<lambda>_ _ _ _. State_Monad.return (Inr [])), bd_ToLower = id\<rparr>
        (NewToolRegistry AllTools) ''delete_task'' (print_json (JObject [(''task_id'', JNumber ''1'')]))) sample of
     (r, w') \<Rightarrow> stores_ok w' \<and> (test_view w' = test_view sample \<or> task_deleted (test_view sample) (test_view w'))"
proof -
  have f: "find (\<lambda>t. sc_Name (Definition t) = ''delete_task'') AllTools = Some delete_task_tool" by (simp add: AllTools_def)
  show ?thesis
    using tools_confined [OF sample_ok, where snaps = "\<lambda>_ _ _ _. State_Monad.return (Inr [])" and lower = id
        and name = "''delete_task''" and args = "print_json (JObject [(''task_id'', JNumber ''1'')])"]
    by (auto simp: f tool_effect_def split: prod.splits)
qed

end
