(* ===== verification/Prompts.thy ===== *)
theory Prompts
  imports Tools
begin

text \<open>
  \<^verbatim>\<open>internal/ai/prompts/prompts.go\<close>: the system prompts of the analyses, line by line and by
    their code points.
\<close>

definition LogAnalysis_prompt :: string where
  "LogAnalysis_prompt = Join (CHR 0x0A)
     [runes [0x4F60, 0x662F, 0x4E00, 0x540D, 0x503C, 0x73ED, 0x20, 0x53, 0x52, 0x45, 0xFF0C, 0x8D1F, 0x8D23, 0x5206,
       0x6790, 0x4EFB, 0x52A1, 0x6267, 0x884C, 0x5931, 0x8D25, 0x7684, 0x539F, 0x56E0, 0x3002, 0x8BF7, 0x4EC5, 0x8FD4,
       0x56DE, 0x5408, 0x6CD5, 0x7684, 0x20, 0x4A, 0x53, 0x4F, 0x4E, 0xFF1A],
      runes [0x7B, 0x22, 0x73, 0x75, 0x6D, 0x6D, 0x61, 0x72, 0x79, 0x22, 0x3A, 0x20, 0x22, 0x3C, 0x4E00, 0x53E5,
        0x8BDD, 0x6458, 0x8981, 0x3E, 0x22, 0x2C, 0x20, 0x22, 0x73, 0x65, 0x76, 0x65, 0x72, 0x69, 0x74, 0x79, 0x22,
        0x3A, 0x20, 0x22, 0x6C, 0x6F, 0x77, 0x7C, 0x6D, 0x65, 0x64, 0x69, 0x75, 0x6D, 0x7C, 0x68, 0x69, 0x67, 0x68,
        0x22, 0x2C, 0x20, 0x22, 0x63, 0x61, 0x74, 0x65, 0x67, 0x6F, 0x72, 0x69, 0x65, 0x73, 0x22, 0x3A, 0x20, 0x5B,
        0x22, 0x3C, 0x5206, 0x7C7B, 0x3E, 0x22, 0x5D, 0x2C, 0x20, 0x22, 0x72, 0x6F, 0x6F, 0x74, 0x5F, 0x63, 0x61,
        0x75, 0x73, 0x65, 0x22, 0x3A, 0x20, 0x22, 0x3C, 0x6839, 0x56E0, 0x5206, 0x6790, 0x3E, 0x22, 0x2C, 0x20, 0x22,
        0x66, 0x69, 0x78, 0x22, 0x3A, 0x20, 0x22, 0x3C, 0x53EF, 0x64CD, 0x4F5C, 0x7684, 0x4FEE, 0x590D, 0x5EFA,
        0x8BAE, 0x3E, 0x22, 0x2C, 0x20, 0x22, 0x63, 0x6F, 0x6E, 0x66, 0x69, 0x64, 0x65, 0x6E, 0x63, 0x65, 0x22, 0x3A,
        0x20, 0x3C, 0x30, 0x2E, 0x30, 0x2D, 0x31, 0x2E, 0x30, 0x3E, 0x7D],
      [],
      runes [0x6CE8, 0x610F, 0xFF1A, 0x6240, 0x6709, 0x5B57, 0x6BB5, 0x503C, 0x5FC5, 0x987B, 0x4F7F, 0x7528, 0x4E2D,
        0x6587, 0x3002]]"

definition Advisor_prompt :: string where
  "Advisor_prompt = Join (CHR 0x0A)
     [runes [0x4F60, 0x662F, 0x4E00, 0x540D, 0x8C03, 0x5EA6, 0x7CFB, 0x7EDF, 0x987E, 0x95EE, 0x3002, 0x6839, 0x636E,
       0x4E0B, 0x65B9, 0x63D0, 0x4F9B, 0x7684, 0x8C03, 0x5EA6, 0x7CFB, 0x7EDF, 0x6307, 0x6807, 0xFF0C, 0x7ED9, 0x51FA,
       0x53EF, 0x64CD, 0x4F5C, 0x7684, 0x5EFA, 0x8BAE, 0x3002, 0x8BF7, 0x4EC5, 0x8FD4, 0x56DE, 0x5408, 0x6CD5, 0x7684,
       0x20, 0x4A, 0x53, 0x4F, 0x4E, 0x20, 0x6570, 0x7EC4, 0xFF1A],
      runes [0x5B, 0x7B, 0x22, 0x74, 0x79, 0x70, 0x65, 0x22, 0x3A, 0x20, 0x22, 0x3C, 0x74, 0x68, 0x72, 0x6F, 0x74,
        0x74, 0x6C, 0x65, 0x7C, 0x6D, 0x69, 0x67, 0x72, 0x61, 0x74, 0x65, 0x7C, 0x73, 0x63, 0x61, 0x6C, 0x65, 0x7C,
        0x63, 0x6F, 0x6E, 0x66, 0x69, 0x67, 0x3E, 0x22, 0x2C, 0x20, 0x22, 0x74, 0x69, 0x74, 0x6C, 0x65, 0x22, 0x3A,
        0x20, 0x22, 0x3C, 0x5EFA, 0x8BAE, 0x6807, 0x9898, 0x3E, 0x22, 0x2C, 0x20, 0x22, 0x64, 0x65, 0x73, 0x63, 0x72,
        0x69, 0x70, 0x74, 0x69, 0x6F, 0x6E, 0x22, 0x3A, 0x20, 0x22, 0x3C, 0x8BE6, 0x7EC6, 0x63CF, 0x8FF0, 0x3E, 0x22,
        0x2C, 0x20, 0x22, 0x63, 0x6F, 0x6E, 0x66, 0x69, 0x64, 0x65, 0x6E, 0x63, 0x65, 0x22, 0x3A, 0x20, 0x3C, 0x30,
        0x2E, 0x30, 0x2D, 0x31, 0x2E, 0x30, 0x3E, 0x2C, 0x20, 0x22, 0x61, 0x75, 0x74, 0x6F, 0x5F, 0x61, 0x70, 0x70,
        0x6C, 0x79, 0x22, 0x3A, 0x20, 0x66, 0x61, 0x6C, 0x73, 0x65, 0x7D, 0x5D],
      [],
      runes [0x6CE8, 0x610F, 0xFF1A, 0x6240, 0x6709, 0x5B57, 0x6BB5, 0x503C, 0xFF08, 0x74, 0x69, 0x74, 0x6C, 0x65,
        0x3001, 0x64, 0x65, 0x73, 0x63, 0x72, 0x69, 0x70, 0x74, 0x69, 0x6F, 0x6E, 0xFF09, 0x5FC5, 0x987B, 0x4F7F,
        0x7528, 0x4E2D, 0x6587, 0x3002]]"

definition TaskParser_prompt :: string where
  "TaskParser_prompt = Join (CHR 0x0A)
     [runes [0x4F60, 0x662F, 0x4E00, 0x4E2A, 0x4EFB, 0x52A1, 0x8C03, 0x5EA6, 0x52A9, 0x624B, 0x3002, 0x5C06, 0x7528,
       0x6237, 0x7684, 0x81EA, 0x7136, 0x8BED, 0x8A00, 0x63CF, 0x8FF0, 0x8F6C, 0x6362, 0x4E3A, 0x4EFB, 0x52A1, 0x914D,
       0x7F6E, 0x3002, 0x8BF7, 0x4EC5, 0x8FD4, 0x56DE, 0x5408, 0x6CD5, 0x7684, 0x20, 0x4A, 0x53, 0x4F, 0x4E, 0xFF0C,
       0x683C, 0x5F0F, 0x5982, 0x4E0B, 0xFF1A],
      runes [0x7B],
      runes [0x20, 0x20, 0x22, 0x6E, 0x61, 0x6D, 0x65, 0x22, 0x3A, 0x20, 0x22, 0x3C, 0x7B80, 0x77ED, 0x7684, 0x82F1,
        0x6587, 0x4EFB, 0x52A1, 0x540D, 0xFF0C, 0x6B, 0x65, 0x62, 0x61, 0x62, 0x2D, 0x63, 0x61, 0x73, 0x65, 0x3E,
        0x22, 0x2C],
      runes [0x20, 0x20, 0x22, 0x74, 0x79, 0x70, 0x65, 0x22, 0x3A, 0x20, 0x22, 0x63, 0x6F, 0x6E, 0x74, 0x61, 0x69,
        0x6E, 0x65, 0x72, 0x7C, 0x73, 0x68, 0x65, 0x6C, 0x6C, 0x7C, 0x68, 0x74, 0x74, 0x70, 0x22, 0x2C],
      runes [0x20, 0x20, 0x22, 0x69, 0x6D, 0x61, 0x67, 0x65, 0x22, 0x3A, 0x20, 0x22, 0x3C, 0x44, 0x6F, 0x63, 0x6B,
        0x65, 0x72, 0x20, 0x955C, 0x50CF, 0xFF0C, 0x4EC5, 0x5BB9, 0x5668, 0x7C7B, 0x578B, 0x586B, 0x5199, 0x3E, 0x22,
        0x2C],
      runes [0x20, 0x20, 0x22, 0x63, 0x72, 0x6F, 0x6E, 0x5F, 0x65, 0x78, 0x70, 0x72, 0x22, 0x3A, 0x20, 0x22, 0x3C,
        0x35, 0x5B57, 0x6BB5, 0x63, 0x72, 0x6F, 0x6E, 0x8868, 0x8FBE, 0x5F0F, 0xFF0C, 0x975E, 0x5468, 0x671F, 0x4EFB,
        0x52A1, 0x7559, 0x7A7A, 0x3E, 0x22, 0x2C],
      runes [0x20, 0x20, 0x22, 0x70, 0x61, 0x79, 0x6C, 0x6F, 0x61, 0x64, 0x22, 0x3A, 0x20, 0x22, 0x3C, 0x547D, 0x4EE4,
        0x6216, 0x55, 0x52, 0x4C, 0x3E, 0x22, 0x2C],
      runes [0x20, 0x20, 0x22, 0x6D, 0x61, 0x78, 0x5F, 0x72, 0x65, 0x74, 0x72, 0x79, 0x22, 0x3A, 0x20, 0x3C, 0x6574,
        0x6570, 0xFF0C, 0x9ED8, 0x8BA4, 0x33, 0x3E, 0x2C],
      runes [0x20, 0x20, 0x22, 0x72, 0x65, 0x74, 0x72, 0x79, 0x5F, 0x70, 0x6F, 0x6C, 0x69, 0x63, 0x79, 0x22, 0x3A,
        0x20, 0x22, 0x66, 0x69, 0x78, 0x65, 0x64, 0x5F, 0x69, 0x6E, 0x74, 0x65, 0x72, 0x76, 0x61, 0x6C, 0x7C, 0x65,
        0x78, 0x70, 0x6F, 0x6E, 0x65, 0x6E, 0x74, 0x69, 0x61, 0x6C, 0x5F, 0x62, 0x61, 0x63, 0x6B, 0x6F, 0x66, 0x66,
        0x22],
      runes [0x7D],
      [],
      runes [0x89C4, 0x5219, 0xFF1A],
      runes [0x2D, 0x20, 0x5982, 0x679C, 0x63D0, 0x5230, 0x5BB9, 0x5668, 0x955C, 0x50CF, 0xFF08, 0x542B, 0x659C,
        0x6760, 0x6216, 0x5E38, 0x89C1, 0x4ED3, 0x5E93, 0x540D, 0xFF09, 0xFF0C, 0x4F7F, 0x7528, 0x20, 0x74, 0x79,
        0x70, 0x65, 0x20, 0x22, 0x63, 0x6F, 0x6E, 0x74, 0x61, 0x69, 0x6E, 0x65, 0x72, 0x22],
      runes [0x2D, 0x20, 0x5982, 0x679C, 0x63D0, 0x5230, 0x20, 0x48, 0x54, 0x54, 0x50, 0x2F, 0x55, 0x52, 0x4C, 0xFF0C,
        0x4F7F, 0x7528, 0x20, 0x74, 0x79, 0x70, 0x65, 0x20, 0x22, 0x68, 0x74, 0x74, 0x70, 0x22],
      runes [0x2D, 0x20, 0x5426, 0x5219, 0x9ED8, 0x8BA4, 0x4F7F, 0x7528, 0x20, 0x74, 0x79, 0x70, 0x65, 0x20, 0x22,
        0x73, 0x68, 0x65, 0x6C, 0x6C, 0x22],
      runes [0x2D, 0x20, 0x63, 0x72, 0x6F, 0x6E, 0x20, 0x8F6C, 0x6362, 0xFF1A, 0x22, 0x6BCF, 0x5929, 0x65E9, 0x4E0A,
        0x39, 0x70B9, 0x22, 0x20, 0x3D, 0x20, 0x22, 0x30, 0x20, 0x39, 0x20, 0x2A, 0x20, 0x2A, 0x20, 0x2A, 0x22,
        0xFF0C, 0x22, 0x6BCF, 0x5C0F, 0x65F6, 0x22, 0x20, 0x3D, 0x20, 0x22, 0x30, 0x20, 0x2A, 0x20, 0x2A, 0x20, 0x2A,
        0x20, 0x2A, 0x22, 0xFF0C, 0x22, 0x6BCF, 0x5206, 0x949F, 0x22, 0x20, 0x3D, 0x20, 0x22, 0x2A, 0x20, 0x2A, 0x20,
        0x2A, 0x20, 0x2A, 0x20, 0x2A, 0x22, 0xFF0C, 0x22, 0x5DE5, 0x4F5C, 0x65E5, 0x22, 0x20, 0x4F7F, 0x7528, 0x5468,
        0x51E0, 0x5B57, 0x6BB5],
      runes [0x2D, 0x20, 0x6CA1, 0x6709, 0x63D0, 0x5230, 0x8C03, 0x5EA6, 0x65F6, 0x95F4, 0x5219, 0x20, 0x63, 0x72,
        0x6F, 0x6E, 0x5F, 0x65, 0x78, 0x70, 0x72, 0x20, 0x7559, 0x7A7A, 0x20, 0x22, 0x22],
      runes [0x2D, 0x20, 0x6309, 0x7528, 0x6237, 0x63CF, 0x8FF0, 0x8BBE, 0x7F6E, 0x20, 0x6D, 0x61, 0x78, 0x5F, 0x72,
        0x65, 0x74, 0x72, 0x79]]"

definition PredictDuration_prompt :: string where
  "PredictDuration_prompt = Join (CHR 0x0A)
     [runes [0x4F60, 0x662F, 0x4E00, 0x540D, 0x4EFB, 0x52A1, 0x6267, 0x884C, 0x65F6, 0x957F, 0x9884, 0x6D4B, 0x4E13,
       0x5BB6, 0x3002, 0x6839, 0x636E, 0x5386, 0x53F2, 0x6267, 0x884C, 0x6570, 0x636E, 0x548C, 0x4EFB, 0x52A1, 0x914D,
       0x7F6E, 0xFF0C, 0x9884, 0x6D4B, 0x4E0B, 0x4E00, 0x6B21, 0x6267, 0x884C, 0x7684, 0x5927, 0x81F4, 0x65F6, 0x957F,
       0x3002, 0x8BF7, 0x4EC5, 0x8FD4, 0x56DE, 0x5408, 0x6CD5, 0x7684, 0x20, 0x4A, 0x53, 0x4F, 0x4E, 0xFF1A],
      runes [0x7B, 0x22, 0x70, 0x72, 0x65, 0x64, 0x69, 0x63, 0x74, 0x65, 0x64, 0x5F, 0x64, 0x75, 0x72, 0x61, 0x74,
        0x69, 0x6F, 0x6E, 0x5F, 0x73, 0x65, 0x63, 0x6F, 0x6E, 0x64, 0x73, 0x22, 0x3A, 0x20, 0x3C, 0x6D6E, 0x70B9,
        0x6570, 0x3E, 0x2C, 0x20, 0x22, 0x63, 0x6F, 0x6E, 0x66, 0x69, 0x64, 0x65, 0x6E, 0x63, 0x65, 0x22, 0x3A, 0x20,
        0x3C, 0x30, 0x2E, 0x30, 0x2D, 0x31, 0x2E, 0x30, 0x3E, 0x2C, 0x20, 0x22, 0x74, 0x72, 0x65, 0x6E, 0x64, 0x22,
        0x3A, 0x20, 0x22, 0x3C, 0x73, 0x74, 0x61, 0x62, 0x6C, 0x65, 0x7C, 0x69, 0x6E, 0x63, 0x72, 0x65, 0x61, 0x73,
        0x69, 0x6E, 0x67, 0x7C, 0x64, 0x65, 0x63, 0x72, 0x65, 0x61, 0x73, 0x69, 0x6E, 0x67, 0x7C, 0x76, 0x6F, 0x6C,
        0x61, 0x74, 0x69, 0x6C, 0x65, 0x3E, 0x22, 0x2C, 0x20, 0x22, 0x65, 0x78, 0x70, 0x6C, 0x61, 0x6E, 0x61, 0x74,
        0x69, 0x6F, 0x6E, 0x22, 0x3A, 0x20, 0x22, 0x3C, 0x4E00, 0x53E5, 0x8BDD, 0x89E3, 0x91CA, 0xFF0C, 0x4F7F,
        0x7528, 0x4E2D, 0x6587, 0x3E, 0x22, 0x7D],
      [],
      runes [0x6CE8, 0x610F, 0xFF1A, 0x65, 0x78, 0x70, 0x6C, 0x61, 0x6E, 0x61, 0x74, 0x69, 0x6F, 0x6E, 0x20, 0x5B57,
        0x6BB5, 0x5FC5, 0x987B, 0x4F7F, 0x7528, 0x4E2D, 0x6587, 0x3002]]"

definition TrendAnalysis_prompt :: string where
  "TrendAnalysis_prompt = Join (CHR 0x0A)
     [runes [0x4F60, 0x662F, 0x4E00, 0x540D, 0x7CFB, 0x7EDF, 0x53EF, 0x9760, 0x6027, 0x5206, 0x6790, 0x5E08, 0xFF0C,
       0x6B63, 0x5728, 0x5BA1, 0x67E5, 0x8C03, 0x5EA6, 0x7CFB, 0x7EDF, 0x6307, 0x6807, 0x3002, 0x5206, 0x6790, 0x5F53,
       0x524D, 0x7CFB, 0x7EDF, 0x72B6, 0x6001, 0x5E76, 0x8BC6, 0x522B, 0x8D8B, 0x52BF, 0x3002, 0x8BF7, 0x4EC5, 0x8FD4,
       0x56DE, 0x5408, 0x6CD5, 0x7684, 0x20, 0x4A, 0x53, 0x4F, 0x4E, 0xFF1A],
      runes [0x7B, 0x22, 0x6F, 0x76, 0x65, 0x72, 0x61, 0x6C, 0x6C, 0x5F, 0x61, 0x73, 0x73, 0x65, 0x73, 0x73, 0x6D,
        0x65, 0x6E, 0x74, 0x22, 0x3A, 0x20, 0x22, 0x3C, 0x4E00, 0x6BB5, 0x7EFC, 0x5408, 0x8BC4, 0x4F30, 0xFF0C,
        0x4F7F, 0x7528, 0x4E2D, 0x6587, 0x3E, 0x22, 0x2C, 0x20, 0x22, 0x74, 0x72, 0x65, 0x6E, 0x64, 0x73, 0x22, 0x3A,
        0x20, 0x5B, 0x7B, 0x22, 0x6D, 0x65, 0x74, 0x72, 0x69, 0x63, 0x22, 0x3A, 0x20, 0x22, 0x3C, 0x6307, 0x6807,
        0x540D, 0x3E, 0x22, 0x2C, 0x20, 0x22, 0x64, 0x69, 0x72, 0x65, 0x63, 0x74, 0x69, 0x6F, 0x6E, 0x22, 0x3A, 0x20,
        0x22, 0x69, 0x6E, 0x63, 0x72, 0x65, 0x61, 0x73, 0x69, 0x6E, 0x67, 0x7C, 0x64, 0x65, 0x63, 0x72, 0x65, 0x61,
        0x73, 0x69, 0x6E, 0x67, 0x7C, 0x73, 0x74, 0x61, 0x62, 0x6C, 0x65, 0x22, 0x2C, 0x20, 0x22, 0x64, 0x65, 0x74,
        0x61, 0x69, 0x6C, 0x22, 0x3A, 0x20, 0x22, 0x3C, 0x8BE6, 0x60C5, 0xFF0C, 0x4F7F, 0x7528, 0x4E2D, 0x6587, 0x3E,
        0x22, 0x7D, 0x5D, 0x2C, 0x20, 0x22, 0x72, 0x65, 0x63, 0x6F, 0x6D, 0x6D, 0x65, 0x6E, 0x64, 0x61, 0x74, 0x69,
        0x6F, 0x6E, 0x73, 0x22, 0x3A, 0x20, 0x5B, 0x7B, 0x22, 0x74, 0x79, 0x70, 0x65, 0x22, 0x3A, 0x20, 0x22, 0x73,
        0x63, 0x61, 0x6C, 0x65, 0x7C, 0x74, 0x68, 0x72, 0x6F, 0x74, 0x74, 0x6C, 0x65, 0x7C, 0x6D, 0x69, 0x67, 0x72,
        0x61, 0x74, 0x65, 0x7C, 0x63, 0x6F, 0x6E, 0x66, 0x69, 0x67, 0x7C, 0x69, 0x6E, 0x76, 0x65, 0x73, 0x74, 0x69,
        0x67, 0x61, 0x74, 0x65, 0x22, 0x2C, 0x20, 0x22, 0x74, 0x69, 0x74, 0x6C, 0x65, 0x22, 0x3A, 0x20, 0x22, 0x3C,
        0x7B80, 0x77ED, 0x6807, 0x9898, 0xFF0C, 0x4F7F, 0x7528, 0x4E2D, 0x6587, 0x3E, 0x22, 0x2C, 0x20, 0x22, 0x64,
        0x65, 0x73, 0x63, 0x72, 0x69, 0x70, 0x74, 0x69, 0x6F, 0x6E, 0x22, 0x3A, 0x20, 0x22, 0x3C, 0x8BE6, 0x60C5,
        0xFF0C, 0x4F7F, 0x7528, 0x4E2D, 0x6587, 0x3E, 0x22, 0x2C, 0x20, 0x22, 0x75, 0x72, 0x67, 0x65, 0x6E, 0x63,
        0x79, 0x22, 0x3A, 0x20, 0x22, 0x6C, 0x6F, 0x77, 0x7C, 0x6D, 0x65, 0x64, 0x69, 0x75, 0x6D, 0x7C, 0x68, 0x69,
        0x67, 0x68, 0x22, 0x7D, 0x5D, 0x7D],
      [],
      runes [0x6CE8, 0x610F, 0xFF1A, 0x6240, 0x6709, 0x6587, 0x672C, 0x5B57, 0x6BB5, 0x5FC5, 0x987B, 0x4F7F, 0x7528,
        0x4E2D, 0x6587, 0x3002]]"

end
