(* ===== verification/Adapter.thy ===== *)
theory Adapter
  imports Json
begin

text \<open>
  \<^verbatim>\<open>internal/ai/adapter\<close>: the client of an OpenAI-compatible language model. A request is kept as the struct that is
  marshalled; what comes back over the network is an argument: an error, or a status with the body, read as a whole or
  line by line. An error of parsing is kept without its text. A repeated key of an array starts its elements from
  those read before; memory beyond the length of the slice is not modelled.
\<close>

section \<open>Messages\<close>

record ToolCall =
  tc_Index :: int
  tc_ID :: string
  tc_Type :: string
  tc_Name :: string
  tc_Arguments :: string

record Message =
  m_Role :: string
  m_Content :: string
  m_ReasoningContent :: string
  m_ToolCalls :: "ToolCall list"
  m_ToolCallID :: string

definition zero_ToolCall :: ToolCall where
  "zero_ToolCall = \<lparr>tc_Index = 0, tc_ID = [], tc_Type = [], tc_Name = [], tc_Arguments = []\<rparr>"

definition zero_Message :: Message where
  "zero_Message = \<lparr>m_Role = [], m_Content = [], m_ReasoningContent = [], m_ToolCalls = [], m_ToolCallID = []\<rparr>"

record Usage =
  us_PromptTokens :: int
  us_CompletionTokens :: int
  us_TotalTokens :: int

definition zero_Usage :: Usage where
  "zero_Usage = \<lparr>us_PromptTokens = 0, us_CompletionTokens = 0, us_TotalTokens = 0\<rparr>"

record StreamEvent =
  se_DeltaContent :: string
  se_ReasoningContent :: string
  se_ToolCalls :: "ToolCall list"
  se_FinishReason :: string
  se_Error :: "error option"

definition zero_StreamEvent :: StreamEvent where
  "zero_StreamEvent = \<lparr>se_DeltaContent = [], se_ReasoningContent = [], se_ToolCalls = [], se_FinishReason = [], se_Error = None\<rparr>"

section \<open>Reading replies\<close>

text \<open>Fields that are structs and arrays of structs.\<close>

definition struct_field :: "'f fields \<Rightarrow> ('r \<Rightarrow> 'f) \<Rightarrow> ('f \<Rightarrow> 'r \<Rightarrow> 'r) \<Rightarrow> json \<Rightarrow> 'r \<Rightarrow> 'r option" where
  "struct_field fs get upd j x = map_option (\<lambda>v. upd v x) (set_struct fs j (get x))"

fun set_elems :: "'f fields \<Rightarrow> 'f \<Rightarrow> json list \<Rightarrow> 'f list \<Rightarrow> 'f list option" where
  "set_elems fs zero [] old = Some []"
| "set_elems fs zero (v # vs) old =
     (case set_struct fs v (case old of [] \<Rightarrow> zero | y # _ \<Rightarrow> y) of
        None \<Rightarrow> None
      | Some x \<Rightarrow> map_option ((#) x) (set_elems fs zero vs (tl old)))"

definition array_field ::
  "'f fields \<Rightarrow> 'f \<Rightarrow> ('r \<Rightarrow> 'f list) \<Rightarrow> ('f list \<Rightarrow> 'r \<Rightarrow> 'r) \<Rightarrow> json \<Rightarrow> 'r \<Rightarrow> 'r option" where
  "array_field fs zero get upd j x =
     (case j of
        JNull \<Rightarrow> Some (upd [] x)
      | JArray vs \<Rightarrow> map_option (\<lambda>ys. upd ys x) (set_elems fs zero vs (get x))
      | _ \<Rightarrow> None)"

definition function_fields :: "ToolCall fields" where
  "function_fields =
     [(''name'', string_field (\<lambda>v x. x\<lparr>tc_Name := v\<rparr>)), (''arguments'', string_field (\<lambda>v x. x\<lparr>tc_Arguments := v\<rparr>))]"

definition toolcall_fields :: "ToolCall fields" where
  "toolcall_fields =
     [(''index'', int_field (\<lambda>v x. x\<lparr>tc_Index := v\<rparr>)), (''id'', string_field (\<lambda>v x. x\<lparr>tc_ID := v\<rparr>)),
      (''type'', string_field (\<lambda>v x. x\<lparr>tc_Type := v\<rparr>)), (''function'', set_struct function_fields)]"

definition usage_fields :: "Usage fields" where
  "usage_fields =
     [(''prompt_tokens'', int_field (\<lambda>v x. x\<lparr>us_PromptTokens := v\<rparr>)),
      (''completion_tokens'', int_field (\<lambda>v x. x\<lparr>us_CompletionTokens := v\<rparr>)),
      (''total_tokens'', int_field (\<lambda>v x. x\<lparr>us_TotalTokens := v\<rparr>))]"

definition message_fields :: "Message fields" where
  "message_fields =
     [(''role'', string_field (\<lambda>v x. x\<lparr>m_Role := v\<rparr>)), (''content'', string_field (\<lambda>v x. x\<lparr>m_Content := v\<rparr>)),
      (''reasoning_content'', string_field (\<lambda>v x. x\<lparr>m_ReasoningContent := v\<rparr>)),
      (''tool_calls'', array_field toolcall_fields zero_ToolCall m_ToolCalls (\<lambda>v x. x\<lparr>m_ToolCalls := v\<rparr>)),
      (''tool_call_id'', string_field (\<lambda>v x. x\<lparr>m_ToolCallID := v\<rparr>))]"

record Choice =
  ch_Message :: Message
  ch_FinishReason :: string

definition choice_fields :: "Choice fields" where
  "choice_fields =
     [(''message'', struct_field message_fields ch_Message (\<lambda>v x. x\<lparr>ch_Message := v\<rparr>)),
      (''finish_reason'', string_field (\<lambda>v x. x\<lparr>ch_FinishReason := v\<rparr>))]"

record ChatResponse =
  cr_Choices :: "Choice list"
  cr_Usage :: Usage

definition response_fields :: "ChatResponse fields" where
  "response_fields =
     [(''choices'', array_field choice_fields \<lparr>ch_Message = zero_Message, ch_FinishReason = []\<rparr> cr_Choices (\<lambda>v x. x\<lparr>cr_Choices := v\<rparr>)),
      (''usage'', struct_field usage_fields cr_Usage (\<lambda>v x. x\<lparr>cr_Usage := v\<rparr>))]"

text \<open>A chunk of a stream; its usage is read and not used.\<close>

record chunkDelta =
  cd_Content :: string
  cd_ReasoningContent :: string
  cd_ToolCalls :: "ToolCall list"

record chunkChoice =
  cc_Index :: int
  cc_Delta :: chunkDelta
  cc_FinishReason :: string

record chatChunk =
  ck_Choices :: "chunkChoice list"
  ck_Usage :: Usage

definition delta_fields :: "chunkDelta fields" where
  "delta_fields =
     [(''content'', string_field (\<lambda>v x. x\<lparr>cd_Content := v\<rparr>)),
      (''reasoning_content'', string_field (\<lambda>v x. x\<lparr>cd_ReasoningContent := v\<rparr>)),
      (''tool_calls'', array_field toolcall_fields zero_ToolCall cd_ToolCalls (\<lambda>v x. x\<lparr>cd_ToolCalls := v\<rparr>))]"

definition zero_delta :: chunkDelta where
  "zero_delta = \<lparr>cd_Content = [], cd_ReasoningContent = [], cd_ToolCalls = []\<rparr>"

definition chunk_choice_fields :: "chunkChoice fields" where
  "chunk_choice_fields =
     [(''index'', int_field (\<lambda>v x. x\<lparr>cc_Index := v\<rparr>)),
      (''delta'', struct_field delta_fields cc_Delta (\<lambda>v x. x\<lparr>cc_Delta := v\<rparr>)),
      (''finish_reason'', string_field (\<lambda>v x. x\<lparr>cc_FinishReason := v\<rparr>))]"

definition chunk_fields :: "chatChunk fields" where
  "chunk_fields =
     [(''choices'', array_field chunk_choice_fields \<lparr>cc_Index = 0, cc_Delta = zero_delta, cc_FinishReason = []\<rparr> ck_Choices
         (\<lambda>v x. x\<lparr>ck_Choices := v\<rparr>)),
      (''usage'', struct_field usage_fields ck_Usage (\<lambda>v x. x\<lparr>ck_Usage := v\<rparr>))]"

section \<open>The adapter\<close>

record Config =
  cf_Endpoint :: string
  cf_APIKey :: string
  cf_Model :: string
  cf_Timeout :: duration

record LLM =
  ll_endpoint :: string
  ll_apiKey :: string
  ll_model :: string
  ll_timeout :: duration
  ll_totalPrompt :: int
  ll_totalCompletion :: int

text \<open>An adapter with its fallback; a nil pointer is None.\<close>

type_synonym LLMAdapter = "(LLM \<times> LLM option) option"

definition New :: "Config \<Rightarrow> LLMAdapter" where
  "New cfg =
     (if cf_Endpoint cfg = [] then None
      else Some (\<lparr>ll_endpoint = cf_Endpoint cfg, ll_apiKey = cf_APIKey cfg,
          ll_model = (if cf_Model cfg = [] then ''gpt-4o'' else cf_Model cfg),
          ll_timeout = (if cf_Timeout cfg \<le> 0 then 30 * second else cf_Timeout cfg),
          ll_totalPrompt = 0, ll_totalCompletion = 0\<rparr>, None))"

definition Enabled :: "LLMAdapter \<Rightarrow> bool" where
  "Enabled a = (case a of None \<Rightarrow> False | Some (l, _) \<Rightarrow> ll_endpoint l \<noteq> [])"

definition SetFallback :: "LLMAdapter \<Rightarrow> LLMAdapter \<Rightarrow> LLMAdapter" where
  "SetFallback a fb =
     (case (a, fb) of
        (Some (l, f), Some (m, _)) \<Rightarrow> if Enabled fb then Some (l, Some m) else a
      | _ \<Rightarrow> a)"

definition Endpoint :: "LLMAdapter \<Rightarrow> string" where
  "Endpoint a = (case a of None \<Rightarrow> [] | Some (l, _) \<Rightarrow> ll_endpoint l)"

definition Model_name :: "LLMAdapter \<Rightarrow> string" where
  "Model_name a = (case a of None \<Rightarrow> [] | Some (l, _) \<Rightarrow> ll_model l)"

definition HasAPIKey :: "LLMAdapter \<Rightarrow> bool" where
  "HasAPIKey a = (case a of None \<Rightarrow> False | Some (l, _) \<Rightarrow> ll_apiKey l \<noteq> [])"

definition TokenUsage :: "LLMAdapter \<Rightarrow> int \<times> int" where
  "TokenUsage a = (case a of None \<Rightarrow> (0, 0) | Some (l, _) \<Rightarrow> (ll_totalPrompt l, ll_totalCompletion l))"

definition recordUsage :: "Usage \<Rightarrow> LLM \<Rightarrow> LLM" where
  "recordUsage u l =
     (let l = (if us_PromptTokens u > 0 then l\<lparr>ll_totalPrompt := wrap64 (ll_totalPrompt l + us_PromptTokens u)\<rparr> else l)
      in if us_CompletionTokens u > 0
         then l\<lparr>ll_totalCompletion := wrap64 (ll_totalCompletion l + us_CompletionTokens u)\<rparr> else l)"

section \<open>Completions\<close>

text \<open>What becomes of a request: it cannot be made, it is not answered, or it has a status and a body.\<close>

datatype 'b reply =
    Unsent error
  | Unanswered error
  | Answered int 'b

text \<open>A body that is read as a whole; reading may fail.\<close>

type_synonym whole = "(error + string) reply"

text \<open>The reply read into a response, as both non-streaming calls do.\<close>

definition read_reply :: "whole \<Rightarrow> error + ChatResponse" where
  "read_reply r =
     (case r of
        Unsent err \<Rightarrow> Inl err
      | Unanswered err \<Rightarrow> Inl (Wrapped ''llm request'' err)
      | Answered code (Inl err) \<Rightarrow> Inl err
      | Answered code (Inr body) \<Rightarrow>
         if code \<ge> 300 then Inl (Errorf (''llm returned '' @ itoa code @ '': '' @ body))
         else (case Unmarshal response_fields body \<lparr>cr_Choices = [], cr_Usage = zero_Usage\<rparr> of
                 None \<Rightarrow> Inl (Errorf ''parse llm response'')
               | Some resp \<Rightarrow> if cr_Choices resp = [] then Inl (Errorf ''llm returned empty choices'') else Inr resp))"

text \<open>\<open>net\<close> is the network: the reply to an adapter's request with these messages.\<close>

definition doComplete :: "(LLM \<Rightarrow> Message list \<Rightarrow> whole) \<Rightarrow> LLM \<Rightarrow> Message list \<Rightarrow> (error + string) \<times> LLM" where
  "doComplete net l messages =
     (case read_reply (net l messages) of
        Inl err \<Rightarrow> (Inl err, l)
      | Inr resp \<Rightarrow> (Inr (m_Content (ch_Message (hd (cr_Choices resp)))), recordUsage (cr_Usage resp) l))"

definition doCompleteWithTools ::
  "(LLM \<Rightarrow> Message list \<Rightarrow> whole) \<Rightarrow> LLM \<Rightarrow> Message list \<Rightarrow> (error + string \<times> ToolCall list) \<times> LLM" where
  "doCompleteWithTools net l messages =
     (if ll_endpoint l = [] then (Inl (Errorf ''llm adapter not configured''), l)
      else case read_reply (net l messages) of
        Inl err \<Rightarrow> (Inl err, l)
      | Inr resp \<Rightarrow>
         (Inr (m_Content (ch_Message (hd (cr_Choices resp))), m_ToolCalls (ch_Message (hd (cr_Choices resp)))),
          recordUsage (cr_Usage resp) l))"

text \<open>The first answer, or the fallback's when the first is an error and a fallback is configured.\<close>

definition with_fallback :: "(LLM \<Rightarrow> (error + 'b) \<times> LLM) \<Rightarrow> LLM \<times> LLM option \<Rightarrow> (error + 'b) \<times> (LLM \<times> LLM option)" where
  "with_fallback call = (\<lambda>(l, f).
     case call l of
       (Inr x, l') \<Rightarrow> (Inr x, (l', f))
     | (Inl err, l') \<Rightarrow>
        (case f of
           Some fb \<Rightarrow> if ll_endpoint fb \<noteq> [] then (case call fb of (r, fb') \<Rightarrow> (r, (l', Some fb'))) else (Inl err, (l', f))
         | None \<Rightarrow> (Inl err, (l', f))))"

definition completeMessages where
  "completeMessages net a messages = with_fallback (\<lambda>l. doComplete net l messages) a"

definition CompleteWithTools where
  "CompleteWithTools net a messages = with_fallback (\<lambda>l. doCompleteWithTools net l messages) a"

definition Complete ::
  "(LLM \<Rightarrow> Message list \<Rightarrow> whole) \<Rightarrow> LLMAdapter \<Rightarrow> string \<Rightarrow> string \<Rightarrow> (error + string) \<times> LLMAdapter" where
  "Complete net a systemPrompt userPrompt =
     (case a of
        Some p \<Rightarrow>
          if Enabled a then
            (case completeMessages net p [zero_Message\<lparr>m_Role := ''system'', m_Content := systemPrompt\<rparr>,
                zero_Message\<lparr>m_Role := ''user'', m_Content := userPrompt\<rparr>] of (r, p') \<Rightarrow> (r, Some p'))
          else (Inl (Errorf ''llm adapter not configured''), a)
      | None \<Rightarrow> (Inl (Errorf ''llm adapter not configured''), a))"

section \<open>Streaming\<close>

text \<open>One fragment of a tool call joins the call of its index.\<close>

definition add_fragment :: "ToolCall \<Rightarrow> (int, ToolCall) gomap \<Rightarrow> (int, ToolCall) gomap" where
  "add_fragment tc accum =
     (case mget accum (tc_Index tc) of
        Some e \<Rightarrow>
          let e = (if tc_Arguments tc \<noteq> [] then e\<lparr>tc_Arguments := tc_Arguments e @ tc_Arguments tc\<rparr> else e);
              e = (if tc_Name tc \<noteq> [] then e\<lparr>tc_Name := tc_Name tc\<rparr> else e);
              e = (if tc_ID tc \<noteq> [] then e\<lparr>tc_ID := tc_ID tc\<rparr> else e)
          in mput (tc_Index tc) e accum
      | None \<Rightarrow> mput (tc_Index tc) \<lparr>tc_Index = 0, tc_ID = tc_ID tc, tc_Type = tc_Type tc, tc_Name = tc_Name tc,
            tc_Arguments = tc_Arguments tc\<rparr> accum)"

text \<open>The calls of the indices below the number of calls.\<close>

definition finished_calls :: "(int, ToolCall) gomap \<Rightarrow> ToolCall list" where
  "finished_calls accum = List.map_filter (mget accum) (map int [0..<length accum])"

text \<open>A line of the stream: None when it is skipped.\<close>

definition read_line :: "string \<Rightarrow> chunkChoice option" where
  "read_line line =
     (if line = [] \<or> line = ''data: [DONE]'' then None
      else if \<not> is_prefix ''data: '' line then None
      else (case Unmarshal chunk_fields (drop 6 line) \<lparr>ck_Choices = [], ck_Usage = zero_Usage\<rparr> of
              None \<Rightarrow> None
            | Some chunk \<Rightarrow> (case ck_Choices chunk of [] \<Rightarrow> None | choice # _ \<Rightarrow> Some choice)))"

record stream_state =
  ss_accum :: "(int, ToolCall) gomap"
  ss_reasoning :: string

definition take_choice :: "chunkChoice \<Rightarrow> stream_state \<Rightarrow> StreamEvent list \<times> stream_state" where
  "take_choice choice s =
     (let delta = cc_Delta choice;
          accum = fold add_fragment (cd_ToolCalls delta) (ss_accum s);
          reasoning = ss_reasoning s @ cd_ReasoningContent delta;
          text = (if cd_Content delta \<noteq> [] then [zero_StreamEvent\<lparr>se_DeltaContent := cd_Content delta\<rparr>] else []);
          finish = (if cc_FinishReason choice \<noteq> [] then [zero_StreamEvent\<lparr>se_FinishReason := cc_FinishReason choice,
              se_ToolCalls := finished_calls accum, se_ReasoningContent := reasoning\<rparr>] else [])
      in (text @ finish, \<lparr>ss_accum = accum, ss_reasoning = reasoning\<rparr>))"

text \<open>The lines of the body, until the context is cancelled or the scanner fails.\<close>

fun stream_lines :: "(nat \<Rightarrow> error option) \<Rightarrow> error option \<Rightarrow> nat \<Rightarrow> stream_state \<Rightarrow> string list \<Rightarrow> StreamEvent list" where
  "stream_lines ctx_err scan_err n s [] =
     (case scan_err of None \<Rightarrow> [] | Some err \<Rightarrow> [zero_StreamEvent\<lparr>se_Error := Some err\<rparr>])"
| "stream_lines ctx_err scan_err n s (line # rest) =
     (case ctx_err n of
        Some err \<Rightarrow> [zero_StreamEvent\<lparr>se_Error := Some err\<rparr>]
      | None \<Rightarrow>
         (case read_line line of
            None \<Rightarrow> stream_lines ctx_err scan_err (Suc n) s rest
          | Some choice \<Rightarrow>
             (case take_choice choice s of (evs, s') \<Rightarrow> evs @ stream_lines ctx_err scan_err (Suc n) s' rest)))"

text \<open>The body of a stream: its lines and how the reading ended.\<close>

type_synonym stream_reply = "(string list \<times> error option) reply"

definition join_lines :: "string list \<Rightarrow> string" where
  "join_lines ls = Join (CHR 0x0A) ls"

definition runStreamWithClient :: "(nat \<Rightarrow> error option) \<Rightarrow> LLMAdapter \<Rightarrow> stream_reply \<Rightarrow> StreamEvent list" where
  "runStreamWithClient ctx_err a r =
     (if \<not> Enabled a then [zero_StreamEvent\<lparr>se_Error := Some (Errorf ''llm adapter not configured'')\<rparr>]
      else case r of
        Unsent err \<Rightarrow> [zero_StreamEvent\<lparr>se_Error := Some err\<rparr>]
      | Unanswered err \<Rightarrow> [zero_StreamEvent\<lparr>se_Error := Some (Wrapped ''llm stream request'' err)\<rparr>]
      | Answered code (body, scan_err) \<Rightarrow>
         if code \<ge> 300
         then [zero_StreamEvent\<lparr>se_Error := Some (Errorf (''llm returned '' @ itoa code @ '': '' @ join_lines body))\<rparr>]
         else stream_lines ctx_err scan_err 0 \<lparr>ss_accum = [], ss_reasoning = []\<rparr> body)"

section \<open>Reassembling a stream\<close>

text \<open>The calls that fragments belong to: all their arguments, and the last name and id they carry.\<close>

definition last_given :: "string list \<Rightarrow> string" where
  "last_given xs = foldl (\<lambda>a s. if s \<noteq> [] then s else a) [] xs"

definition assembled :: "ToolCall list \<Rightarrow> int \<Rightarrow> ToolCall" where
  "assembled fs i =
     (let own = filter (\<lambda>f. tc_Index f = i) fs in
      \<lparr>tc_Index = 0, tc_ID = last_given (map tc_ID own), tc_Type = tc_Type (hd own), tc_Name = last_given (map tc_Name own),
       tc_Arguments = concat (map tc_Arguments own)\<rparr>)"

lemma last_given_simps [simp]: "last_given [] = []" "last_given (xs @ [s]) = (if s \<noteq> [] then s else last_given xs)"
  by (simp_all add: last_given_def)

definition joined :: "ToolCall \<Rightarrow> ToolCall \<Rightarrow> ToolCall" where
  "joined e f = e\<lparr>tc_Arguments := tc_Arguments e @ tc_Arguments f, tc_Name := (if tc_Name f \<noteq> [] then tc_Name f else tc_Name e),
     tc_ID := (if tc_ID f \<noteq> [] then tc_ID f else tc_ID e)\<rparr>"

lemma add_fragment_eq:
  "add_fragment f m =
     mput (tc_Index f) (case mget m (tc_Index f) of None \<Rightarrow> f\<lparr>tc_Index := 0\<rparr> | Some e \<Rightarrow> joined e f) m"
  by (cases f) (simp add: add_fragment_def joined_def Let_def split: option.split)

lemma assembled_snoc:
  "tc_Index f \<noteq> i \<Longrightarrow> assembled (fs @ [f]) i = assembled fs i"
  "i \<in> tc_Index ` set fs \<Longrightarrow> tc_Index f = i \<Longrightarrow> assembled (fs @ [f]) i = joined (assembled fs i) f"
  "i \<notin> tc_Index ` set fs \<Longrightarrow> tc_Index f = i \<Longrightarrow> assembled (fs @ [f]) i = f\<lparr>tc_Index := 0\<rparr>"
proof -
  assume "i \<in> tc_Index ` set fs" "tc_Index f = i"
  then have "filter (\<lambda>f. tc_Index f = i) fs \<noteq> []" by (auto simp: filter_empty_conv)
  with \<open>tc_Index f = i\<close> show "assembled (fs @ [f]) i = joined (assembled fs i) f"
    by (simp add: assembled_def joined_def Let_def)
next
  assume "i \<notin> tc_Index ` set fs" "tc_Index f = i"
  then have "filter (\<lambda>f. tc_Index f = i) fs = []" unfolding filter_empty_conv by (metis image_eqI)
  with \<open>tc_Index f = i\<close> show "assembled (fs @ [f]) i = f\<lparr>tc_Index := 0\<rparr>"
    using last_given_simps(2) [of "[]"] by (cases f) (simp add: assembled_def Let_def)
qed (simp add: assembled_def)

lemma mget_fragments:
  "mget (fold add_fragment fs []) i = (if i \<in> tc_Index ` set fs then Some (assembled fs i) else None)"
proof (induction fs arbitrary: i rule: rev_induct)
  case (snoc f fs)
  show ?case
    by (cases "tc_Index f = i"; cases "i \<in> tc_Index ` set fs") (simp_all add: add_fragment_eq [of f] snoc assembled_snoc)
qed simp

lemma wf_fragments: "wf_map (fold add_fragment fs [])"
  by (induction fs rule: rev_induct) (simp_all add: add_fragment_eq [of _ "fold _ _ _"])

lemma length_wf_map: "wf_map m \<Longrightarrow> length m = card (dom (mget m))"
  using distinct_card [of "map fst m"] by (simp add: wf_map_def dom_map_of_conv_image_fst)

lemma finished_fragments:
  assumes "tc_Index ` set fs = int ` {0..<n}"
  shows "finished_calls (fold add_fragment fs []) = map (assembled fs \<circ> int) [0..<n]"
proof -
  have "dom (mget (fold add_fragment fs [])) = int ` {0..<n}"
    using assms by (auto simp: mget_fragments dom_def split: if_splits)
  then have "length (fold add_fragment fs []) = n"
    by (simp add: length_wf_map [OF wf_fragments] card_image)
  moreover have "List.map_filter (mget (fold add_fragment fs [])) (map int is) = map (assembled fs \<circ> int) is"
    if "set is \<subseteq> {0..<n}" for "is"
    using that assms by (induction "is") (auto simp: mget_fragments map_filter_def)
  ultimately show ?thesis by (simp add: finished_calls_def)
qed

text \<open>What the choices of a stream carry.\<close>

definition fragments :: "chunkChoice list \<Rightarrow> ToolCall list" where
  "fragments cs = concat (map (cd_ToolCalls \<circ> cc_Delta) cs)"

definition thoughts :: "chunkChoice list \<Rightarrow> string" where
  "thoughts cs = concat (map (cd_ReasoningContent \<circ> cc_Delta) cs)"

definition texts :: "chunkChoice list \<Rightarrow> StreamEvent list" where
  "texts cs = map (\<lambda>t. zero_StreamEvent\<lparr>se_DeltaContent := t\<rparr>) (filter (\<lambda>t. t \<noteq> []) (map (cd_Content \<circ> cc_Delta) cs))"

definition stream_at :: "chunkChoice list \<Rightarrow> stream_state" where
  "stream_at cs = \<lparr>ss_accum = fold add_fragment (fragments cs) [], ss_reasoning = thoughts cs\<rparr>"

lemma take_choice_going:
  "cc_FinishReason c = [] \<Longrightarrow> take_choice c (stream_at cs) = (texts [c], stream_at (cs @ [c]))"
  by (simp add: take_choice_def Let_def stream_at_def fragments_def thoughts_def texts_def)

lemma take_choice_last:
  "cc_FinishReason c \<noteq> [] \<Longrightarrow> take_choice c (stream_at cs) =
     (texts [c] @ [zero_StreamEvent\<lparr>se_FinishReason := cc_FinishReason c,
        se_ToolCalls := finished_calls (fold add_fragment (fragments (cs @ [c])) []), se_ReasoningContent := thoughts (cs @ [c])\<rparr>],
      stream_at (cs @ [c]))"
  by (simp add: take_choice_def Let_def stream_at_def fragments_def thoughts_def texts_def)

lemma stream_lines_skipped:
  "List.map_filter read_line lines = [] \<Longrightarrow> stream_lines (\<lambda>_. None) None n s lines = []"
  by (induction lines arbitrary: n) (auto simp: map_filter_simps split: option.splits)

lemma stream_lines_choices:
  assumes "List.map_filter read_line lines = cs @ [fin]" "\<forall>c \<in> set cs. cc_FinishReason c = []" "cc_FinishReason fin \<noteq> []"
  shows "stream_lines (\<lambda>_. None) None n (stream_at done) lines = texts (cs @ [fin]) @
    [zero_StreamEvent\<lparr>se_FinishReason := cc_FinishReason fin,
       se_ToolCalls := finished_calls (fold add_fragment (fragments (done @ cs @ [fin])) []),
       se_ReasoningContent := thoughts (done @ cs @ [fin])\<rparr>]"
  using assms(1,2)
proof (induction lines arbitrary: n "done" cs)
  case (Cons line lines)
  show ?case
  proof (cases "read_line line")
    case None
    with Cons show ?thesis by (simp add: map_filter_simps)
  next
    case (Some c)
    show ?thesis
    proof (cases cs)
      case Nil
      with Some Cons.prems have "c = fin" "List.map_filter read_line lines = []" by (simp_all add: map_filter_simps)
      with Some Nil assms(3) show ?thesis by (simp add: take_choice_last stream_lines_skipped)
    next
      case (Cons c' cs')
      with Some Cons.prems have c: "c' = c" "List.map_filter read_line lines = cs' @ [fin]" "cc_FinishReason c = []"
        "\<forall>c \<in> set cs'. cc_FinishReason c = []"
        by (auto simp: map_filter_simps)
      have "texts (c # cs' @ [fin]) = texts [c] @ texts (cs' @ [fin])" by (simp add: texts_def)
      with Some Cons c Cons.IH [OF c(2,4), of _ "done @ [c]"] show ?thesis by (simp add: take_choice_going)
    qed
  qed
qed (simp add: map_filter_simps)


definition sample_chunk :: "string \<Rightarrow> json list \<Rightarrow> json" where
  "sample_chunk reason calls = JObject [(''choices'', JArray [JObject
     [(''delta'', JObject [(''tool_calls'', JArray calls)]), (''finish_reason'', JString reason)]])]"

definition data_line :: "json \<Rightarrow> string" where
  "data_line v = ''data: '' @ print_json v"

definition sample_lines :: "string list" where
  "sample_lines = map data_line
     [sample_chunk [] [JObject [(''index'', JNumber ''0''), (''id'', JString ''c1''),
        (''function'', JObject [(''name'', JString ''f''), (''arguments'', JString ''ab'')])]],
      sample_chunk ''tool_calls'' [JObject [(''index'', JNumber ''0''),
        (''function'', JObject [(''arguments'', JString ''cd'')])]]]"

lemma read_line_json:
  "wf_json max_nesting (JObject kvs) \<Longrightarrow> read_line (data_line (JObject kvs)) =
     (case set_members chunk_fields kvs \<lparr>ck_Choices = [], ck_Usage = zero_Usage\<rparr> of
        None \<Rightarrow> None
      | Some chunk \<Rightarrow> (case ck_Choices chunk of [] \<Rightarrow> None | choice # _ \<Rightarrow> Some choice))"
  using print_parse [of "JObject kvs"] by (simp add: data_line_def read_line_def Unmarshal_def set_struct_def)

definition sample_choice :: "string \<Rightarrow> ToolCall \<Rightarrow> chunkChoice" where
  "sample_choice reason tc = \<lparr>cc_Index = 0, cc_Delta = zero_delta\<lparr>cd_ToolCalls := [tc]\<rparr>, cc_FinishReason = reason\<rparr>"

lemma sample_lines_read:
  "List.map_filter read_line sample_lines =
     [sample_choice [] (zero_ToolCall\<lparr>tc_ID := ''c1'', tc_Name := ''f'', tc_Arguments := ''ab''\<rparr>),
      sample_choice ''tool_calls'' (zero_ToolCall\<lparr>tc_Arguments := ''cd''\<rparr>)]"
proof -
  note literals = max_nesting_def number_lit_def sign_lit_def int_lit_def frac_lit_def exp_lit_def digits1_def is_digit_def
    valid_utf8.simps utf8_len_def byte_def
  note assigning = field_of_def chunk_fields_def chunk_choice_fields_def delta_fields_def toolcall_fields_def
    function_fields_def array_field_def struct_field_def set_struct_def string_field_def int_field_def Atoi_def
    digits_val_def digit_val_def in_int64_def zero_ToolCall_def zero_delta_def
  show ?thesis
    unfolding sample_lines_def sample_chunk_def sample_choice_def
    by (simp add: map_filter_simps read_line_json literals assigning)
qed


end
