(* ===== verification/Analyses.thy ===== *)
theory Analyses
  imports Prompts Adapter
begin

text \<open>
  The analyses of \<^verbatim>\<open>internal/ai\<close>: statistics of the stores, put into a prompt, sent to the language model, and its answer
  read as JSON (\<^verbatim>\<open>predictduration\<close>, \<^verbatim>\<open>trend\<close>, \<^verbatim>\<open>advisor\<close>, \<^verbatim>\<open>loganalysis\<close>, \<^verbatim>\<open>taskparser\<close>, \<^verbatim>\<open>cron\<close>). The network is an argument, as in
  \<open>Adapter\<close>. Numbers are doubles and every operation on them rounds. An answer that cannot be read is an error
  whose text is kept without that of the JSON reader.
\<close>

section \<open>Numbers and lists in JSON\<close>

text \<open>The value of a literal, exact.\<close>

definition number_value :: "string \<Rightarrow> rat" where
  "number_value l =
     (case sign_lit l of (m, s1) \<Rightarrow> (case int_lit s1 of
        None \<Rightarrow> 0
      | Some (a, s2) \<Rightarrow> (case frac_lit s2 of
        None \<Rightarrow> 0
      | Some (b, s3) \<Rightarrow>
          let frac = drop 1 b;
              e = (case Atoi (drop 1 s3) of Some e \<Rightarrow> e | None \<Rightarrow> 0)
          in (if m = [] then 1 else -1) * of_nat (digits_val (a @ frac)) * 10 powi (e - int (length frac)))))"

text \<open>A \<^verbatim>\<open>float64\<close> is the nearest double; what overflows is refused.\<close>

definition float_field :: "(rat \<Rightarrow> 'r \<Rightarrow> 'r) \<Rightarrow> json \<Rightarrow> 'r \<Rightarrow> 'r option" where
  "float_field upd j x =
     (case j of
        JNull \<Rightarrow> Some x
      | JNumber l \<Rightarrow> let v = fl64 (number_value l) in if \<bar>v\<bar> < 2 ^ 1024 then Some (upd v x) else None
      | _ \<Rightarrow> None)"

definition bool_field :: "(bool \<Rightarrow> 'r \<Rightarrow> 'r) \<Rightarrow> json \<Rightarrow> 'r \<Rightarrow> 'r option" where
  "bool_field upd j x = (case j of JNull \<Rightarrow> Some x | JBool b \<Rightarrow> Some (upd b x) | _ \<Rightarrow> None)"

text \<open>An element that is null keeps what the slice held.\<close>

fun string_elems :: "json list \<Rightarrow> string list \<Rightarrow> string list option" where
  "string_elems [] old = Some []"
| "string_elems (v # vs) old =
     (case v of
        JNull \<Rightarrow> map_option ((#) (case old of [] \<Rightarrow> [] | y # _ \<Rightarrow> y)) (string_elems vs (tl old))
      | JString s \<Rightarrow> map_option ((#) s) (string_elems vs (tl old))
      | _ \<Rightarrow> None)"

definition strings_field :: "('r \<Rightarrow> string list) \<Rightarrow> (string list \<Rightarrow> 'r \<Rightarrow> 'r) \<Rightarrow> json \<Rightarrow> 'r \<Rightarrow> 'r option" where
  "strings_field get upd j x =
     (case j of
        JNull \<Rightarrow> Some (upd [] x)
      | JArray vs \<Rightarrow> map_option (\<lambda>ys. upd ys x) (string_elems vs (get x))
      | _ \<Rightarrow> None)"

text \<open>\<^verbatim>\<open>%.2f\<close>\<close>

definition fixed2 :: "rat \<Rightarrow> string" where
  "fixed2 q = (let n = round_even (\<bar>q\<bar> * 100) in (if q < 0 then ''-'' else []) @ itoa (n div 100) @ ''.'' @ pad 2 (n mod 100))"

definition lines_of :: "string list \<Rightarrow> string" where
  "lines_of ls = Join (CHR 0x0A) ls"

definition ErrLLMRequired :: error where
  "ErrLLMRequired = Errorf ''llm adapter not configured or disabled''"

type_synonym network = "LLM \<Rightarrow> Message list \<Rightarrow> whole"

text \<open>The common course of the analyses: ask the model, wrap its error, read its answer.\<close>

definition ask_model ::
  "network \<Rightarrow> LLMAdapter \<Rightarrow> string \<Rightarrow> string \<Rightarrow> string \<Rightarrow> string \<Rightarrow> (string \<Rightarrow> 'b option) \<Rightarrow> (error + 'b) \<times> LLMAdapter" where
  "ask_model net llm systemPrompt userPrompt failed unread parsed =
     (if \<not> Enabled llm then (Inl ErrLLMRequired, llm)
      else case Complete net llm systemPrompt userPrompt of
        (Inl err, llm) \<Rightarrow> (Inl (Wrapped failed err), llm)
      | (Inr result, llm) \<Rightarrow>
         (case parsed result of
            None \<Rightarrow> (Inl (Errorf (unread @ '' (raw='' @ result @ '')'')), llm)
          | Some x \<Rightarrow> (Inr x, llm)))"

section \<open>Durations\<close>

record DurationStats =
  ds_Count :: int
  ds_AvgDuration :: rat
  ds_MinDuration :: rat
  ds_MaxDuration :: rat
  ds_P50Duration :: rat
  ds_P95Duration :: rat

definition zero_DurationStats :: DurationStats where
  "zero_DurationStats = \<lparr>ds_Count = 0, ds_AvgDuration = 0, ds_MinDuration = 0, ds_MaxDuration = 0, ds_P50Duration = 0,
     ds_P95Duration = 0\<rparr>"

definition instance_duration :: "TaskInstance \<Rightarrow> rat option" where
  "instance_duration inst =
     (if i_Status inst \<noteq> ''success'' \<and> i_Status inst \<noteq> ''failed'' then None
      else if i_StartedAt inst \<noteq> zero_time \<and> i_FinishedAt inst \<noteq> zero_time \<and> 0 \<le> Seconds (Sub (i_FinishedAt inst) (i_StartedAt inst))
      then Some (Seconds (Sub (i_FinishedAt inst) (i_StartedAt inst)))
      else if i_DispatchTime inst = zero_time then None
      else let dur = Seconds (Sub (i_UpdatedAt inst) (i_DispatchTime inst)) in Some (if dur < 0 then 0 else dur))"

definition percentile :: "rat list \<Rightarrow> rat \<Rightarrow> rat" where
  "percentile ds p =
     (if length ds = 0 then 0
      else
        let idx = \<lceil>fl64 (fl64 (p / 100) * fl64 (of_nat (length ds)))\<rceil> - 1;
            idx = (if idx < 0 then 0 else idx);
            idx = (if idx \<ge> int (length ds) then int (length ds) - 1 else idx)
        in ds ! nat idx)"

definition ComputeStats :: "TaskInstance list \<Rightarrow> DurationStats" where
  "ComputeStats instances =
     (let durations = List.map_filter instance_duration instances;
          stats = zero_DurationStats\<lparr>ds_Count := int (length durations)\<rparr> in
      if length durations = 0 then stats
      else
        let durations = sort durations;
            sum = foldl (\<lambda>s d. fl64 (s + d)) 0 durations
        in stats\<lparr>ds_MinDuration := durations ! 0, ds_MaxDuration := durations ! (length durations - 1),
             ds_AvgDuration := fl64 (sum / fl64 (of_nat (length durations))),
             ds_P50Duration := percentile durations 50, ds_P95Duration := percentile durations 95\<rparr>)"

record PredictResponse =
  pr_PredictedDurationSeconds :: rat
  pr_Confidence :: rat
  pr_Trend :: string
  pr_Explanation :: string
  pr_HistoricalStats :: DurationStats

definition predict_fields :: "PredictResponse fields" where
  "predict_fields =
     [(''predicted_duration_seconds'', float_field (\<lambda>v x. x\<lparr>pr_PredictedDurationSeconds := v\<rparr>)),
      (''confidence'', float_field (\<lambda>v x. x\<lparr>pr_Confidence := v\<rparr>)), (''trend'', string_field (\<lambda>v x. x\<lparr>pr_Trend := v\<rparr>)),
      (''explanation'', string_field (\<lambda>v x. x\<lparr>pr_Explanation := v\<rparr>))]"

definition predict_prompt :: "Task \<Rightarrow> DurationStats \<Rightarrow> string" where
  "predict_prompt task stats = lines_of
     [''Task configuration:'', ''- Name: '' @ t_Name task, ''- Type: '' @ t_Type task,
      ''- Timeout: '' @ itoa (t_TimeoutSeconds task) @ '' seconds'', ''- Max retries: '' @ itoa (t_MaxRetry task),
      ''- Retry policy: '' @ t_RetryPolicy task, [],
      ''Historical execution duration stats (from '' @ itoa (ds_Count stats) @ '' completed instances):'',
      ''- Average: '' @ fixed2 (ds_AvgDuration stats) @ '' seconds'', ''- Min: '' @ fixed2 (ds_MinDuration stats) @ '' seconds'',
      ''- Max: '' @ fixed2 (ds_MaxDuration stats) @ '' seconds'', ''- P50: '' @ fixed2 (ds_P50Duration stats) @ '' seconds'',
      ''- P95: '' @ fixed2 (ds_P95Duration stats) @ '' seconds'']"

definition PredictWithLLM ::
  "network \<Rightarrow> LLMAdapter \<Rightarrow> Task \<Rightarrow> DurationStats \<Rightarrow> (error + PredictResponse) \<times> LLMAdapter" where
  "PredictWithLLM net llm task stats =
     ask_model net llm PredictDuration_prompt (predict_prompt task stats) ''llm predict duration'' ''parse llm predict output''
       (\<lambda>result. Unmarshal predict_fields result \<lparr>pr_PredictedDurationSeconds = 0, pr_Confidence = 0, pr_Trend = [],
          pr_Explanation = [], pr_HistoricalStats = stats\<rparr>)"

section \<open>Trends\<close>

record TrendItem =
  ti_Metric :: string
  ti_Direction :: string
  ti_Detail :: string

record Recommendation =
  rc_Type :: string
  rc_Title :: string
  rc_Description :: string
  rc_Urgency :: string

record DataSnapshot =
  sn_WorkerCount :: int
  sn_OnlineWorkers :: int
  sn_AvgWorkerLoad :: rat
  sn_TotalInstances :: int
  sn_FailedInstances :: int
  sn_SuccessInstances :: int
  sn_PendingInstances :: int
  sn_TaskCount :: int
  sn_EnabledTasks :: int
  sn_TimeWindowHours :: int
  sn_TotalLoadSamples :: int
  sn_AvgLoadOverWindow :: rat
  sn_LoadDirection :: string

record TrendResponse =
  tr_OverallAssessment :: string
  tr_Trends :: "TrendItem list"
  tr_Recommendations :: "Recommendation list"
  tr_DataSnapshot :: DataSnapshot

text \<open>The load of a worker as a fraction, and its sum over those that have a limit.\<close>

definition load_ratio :: "int \<Rightarrow> int \<Rightarrow> rat" where
  "load_ratio load limit = fl64 (fl64 (of_int load) / fl64 (of_int limit))"

definition sum_ratios :: "(int \<times> int) list \<Rightarrow> rat" where
  "sum_ratios xs = foldl (\<lambda>s (load, limit). if limit > 0 then fl64 (s + load_ratio load limit) else s) 0 xs"

definition avg_online_load :: "WorkerNode list \<Rightarrow> rat" where
  "avg_online_load ws =
     (let online = filter (\<lambda>w. w_Status w = ''online'') ws in
      if length online > 0
      then fl64 (sum_ratios (map (\<lambda>w. (w_CurrentLoad w, w_MaxConcurrency w)) online) / fl64 (of_nat (length online)))
      else 0)"

definition in_flight :: "string list" where
  "in_flight = [''pending'', ''dispatched'', ''running'', ''retry_waiting'']"

definition ComputeSnapshot :: "time \<Rightarrow> WorkerNode list \<Rightarrow> Task list \<Rightarrow> TaskInstance list \<Rightarrow> int \<Rightarrow> DataSnapshot" where
  "ComputeSnapshot now ws tasks instances timeWindowHours =
     (let windowCutoff = hours_ago now timeWindowHours;
          recent = filter (\<lambda>inst. \<not> (timeWindowHours > 0 \<and> i_CreatedAt inst < windowCutoff)) instances in
      \<lparr>sn_WorkerCount = int (length ws), sn_OnlineWorkers = online_workers ws, sn_AvgWorkerLoad = avg_online_load ws,
       sn_TotalInstances = int (length recent), sn_FailedInstances = count_status [''failed''] recent,
       sn_SuccessInstances = count_status [''success''] recent, sn_PendingInstances = count_status in_flight recent,
       sn_TaskCount = int (length tasks), sn_EnabledTasks = int (length (filter (\<lambda>t. t_Status t = ''enabled'') tasks)),
       sn_TimeWindowHours = timeWindowHours, sn_TotalLoadSamples = 0, sn_AvgLoadOverWindow = 0, sn_LoadDirection = []\<rparr>)"

definition trend_fields :: "TrendItem fields" where
  "trend_fields =
     [(''metric'', string_field (\<lambda>v x. x\<lparr>ti_Metric := v\<rparr>)), (''direction'', string_field (\<lambda>v x. x\<lparr>ti_Direction := v\<rparr>)),
      (''detail'', string_field (\<lambda>v x. x\<lparr>ti_Detail := v\<rparr>))]"

definition recommendation_fields :: "Recommendation fields" where
  "recommendation_fields =
     [(''type'', string_field (\<lambda>v x. x\<lparr>rc_Type := v\<rparr>)), (''title'', string_field (\<lambda>v x. x\<lparr>rc_Title := v\<rparr>)),
      (''description'', string_field (\<lambda>v x. x\<lparr>rc_Description := v\<rparr>)), (''urgency'', string_field (\<lambda>v x. x\<lparr>rc_Urgency := v\<rparr>))]"

definition snapshot_fields :: "DataSnapshot fields" where
  "snapshot_fields =
     [(''worker_count'', int_field (\<lambda>v x. x\<lparr>sn_WorkerCount := v\<rparr>)), (''online_workers'', int_field (\<lambda>v x. x\<lparr>sn_OnlineWorkers := v\<rparr>)),
      (''avg_worker_load'', float_field (\<lambda>v x. x\<lparr>sn_AvgWorkerLoad := v\<rparr>)),
      (''total_instances'', int_field (\<lambda>v x. x\<lparr>sn_TotalInstances := v\<rparr>)),
      (''failed_instances'', int_field (\<lambda>v x. x\<lparr>sn_FailedInstances := v\<rparr>)),
      (''success_instances'', int_field (\<lambda>v x. x\<lparr>sn_SuccessInstances := v\<rparr>)),
      (''pending_instances'', int_field (\<lambda>v x. x\<lparr>sn_PendingInstances := v\<rparr>)), (''task_count'', int_field (\<lambda>v x. x\<lparr>sn_TaskCount := v\<rparr>)),
      (''enabled_tasks'', int_field (\<lambda>v x. x\<lparr>sn_EnabledTasks := v\<rparr>)),
      (''time_window_hours'', int_field (\<lambda>v x. x\<lparr>sn_TimeWindowHours := v\<rparr>)),
      (''total_load_samples'', int_field (\<lambda>v x. x\<lparr>sn_TotalLoadSamples := v\<rparr>)),
      (''avg_load_over_window'', float_field (\<lambda>v x. x\<lparr>sn_AvgLoadOverWindow := v\<rparr>)),
      (''load_direction'', string_field (\<lambda>v x. x\<lparr>sn_LoadDirection := v\<rparr>))]"

definition trend_response_fields :: "TrendResponse fields" where
  "trend_response_fields =
     [(''overall_assessment'', string_field (\<lambda>v x. x\<lparr>tr_OverallAssessment := v\<rparr>)),
      (''trends'', array_field trend_fields \<lparr>ti_Metric = [], ti_Direction = [], ti_Detail = []\<rparr> tr_Trends (\<lambda>v x. x\<lparr>tr_Trends := v\<rparr>)),
      (''recommendations'', array_field recommendation_fields \<lparr>rc_Type = [], rc_Title = [], rc_Description = [], rc_Urgency = []\<rparr>
         tr_Recommendations (\<lambda>v x. x\<lparr>tr_Recommendations := v\<rparr>)),
      (''data_snapshot'', struct_field snapshot_fields tr_DataSnapshot (\<lambda>v x. x\<lparr>tr_DataSnapshot := v\<rparr>))]"

definition zero_snapshot :: DataSnapshot where
  "zero_snapshot = \<lparr>sn_WorkerCount = 0, sn_OnlineWorkers = 0, sn_AvgWorkerLoad = 0, sn_TotalInstances = 0, sn_FailedInstances = 0,
     sn_SuccessInstances = 0, sn_PendingInstances = 0, sn_TaskCount = 0, sn_EnabledTasks = 0, sn_TimeWindowHours = 0,
     sn_TotalLoadSamples = 0, sn_AvgLoadOverWindow = 0, sn_LoadDirection = []\<rparr>"

definition percent2 :: "rat \<Rightarrow> string" where
  "percent2 q = fixed2 (fl64 (q * 100)) @ ''%''"

definition trend_prompt :: "DataSnapshot \<Rightarrow> string" where
  "trend_prompt s = lines_of
     [''Time window: '' @ itoa (sn_TimeWindowHours s) @ '' hours'', [], ''Worker stats:'',
      ''- Total workers: '' @ itoa (sn_WorkerCount s) @ '' (online: '' @ itoa (sn_OnlineWorkers s) @ '')'',
      ''- Average worker load: '' @ percent2 (sn_AvgWorkerLoad s), [],
      ''Historical load data ('' @ itoa (sn_TotalLoadSamples s) @ '' samples collected over the window):'',
      ''- Average load over window: '' @ percent2 (sn_AvgLoadOverWindow s), ''- Load direction: '' @ sn_LoadDirection s, [],
      ''Task stats:'', ''- Total tasks: '' @ itoa (sn_TaskCount s) @ '' (enabled: '' @ itoa (sn_EnabledTasks s) @ '')'', [],
      ''Instance stats (within window):'', ''- Total instances: '' @ itoa (sn_TotalInstances s),
      ''- Failed: '' @ itoa (sn_FailedInstances s), ''- Success: '' @ itoa (sn_SuccessInstances s),
      ''- Pending/in-flight: '' @ itoa (sn_PendingInstances s)]"

definition Trend_AnalyzeWithLLM :: "network \<Rightarrow> LLMAdapter \<Rightarrow> DataSnapshot \<Rightarrow> (error + TrendResponse) \<times> LLMAdapter" where
  "Trend_AnalyzeWithLLM net llm snapshot =
     ask_model net llm TrendAnalysis_prompt (trend_prompt snapshot) ''llm trend analysis'' ''parse llm trend output''
       (\<lambda>result. map_option (\<lambda>resp. resp\<lparr>tr_DataSnapshot := snapshot\<rparr>)
          (Unmarshal trend_response_fields result
             \<lparr>tr_OverallAssessment = [], tr_Trends = [], tr_Recommendations = [], tr_DataSnapshot = zero_snapshot\<rparr>))"

section \<open>Advice\<close>

record Advice =
  ad_Type :: string
  ad_Title :: string
  ad_Description :: string
  ad_Confidence :: rat
  ad_AutoApply :: bool

record AdviceContext =
  ac_AvgWorkerLoad :: rat
  ac_TotalWorkers :: int
  ac_OnlineWorkers :: int
  ac_PendingInstances :: int
  ac_FailedLastHour :: int
  ac_AvgDispatchLatencyMs :: rat
  ac_MaxPendingConfig :: int

definition advice_fields :: "Advice fields" where
  "advice_fields =
     [(''type'', string_field (\<lambda>v x. x\<lparr>ad_Type := v\<rparr>)), (''title'', string_field (\<lambda>v x. x\<lparr>ad_Title := v\<rparr>)),
      (''description'', string_field (\<lambda>v x. x\<lparr>ad_Description := v\<rparr>)), (''confidence'', float_field (\<lambda>v x. x\<lparr>ad_Confidence := v\<rparr>)),
      (''auto_apply'', bool_field (\<lambda>v x. x\<lparr>ad_AutoApply := v\<rparr>))]"

definition read_advices :: "string \<Rightarrow> Advice list option" where
  "read_advices s =
     (case parse_json s of
        Some JNull \<Rightarrow> Some []
      | Some (JArray vs) \<Rightarrow>
          set_elems advice_fields \<lparr>ad_Type = [], ad_Title = [], ad_Description = [], ad_Confidence = 0, ad_AutoApply = False\<rparr> vs []
      | _ \<Rightarrow> None)"

definition advice_prompt :: "AdviceContext \<Rightarrow> string" where
  "advice_prompt c = lines_of
     [''Avg worker load: '' @ percent2 (ac_AvgWorkerLoad c),
      ''Total workers: '' @ itoa (ac_TotalWorkers c) @ '' (online: '' @ itoa (ac_OnlineWorkers c) @ '')'',
      ''Pending instances: '' @ itoa (ac_PendingInstances c) @ '' (max: '' @ itoa (ac_MaxPendingConfig c) @ '')'',
      ''Failed in last hour: '' @ itoa (ac_FailedLastHour c),
      ''Avg dispatch latency: '' @ fixed2 (ac_AvgDispatchLatencyMs c) @ '' ms'']"

definition Generate :: "network \<Rightarrow> LLMAdapter \<Rightarrow> AdviceContext \<Rightarrow> (error + Advice list) \<times> LLMAdapter" where
  "Generate net llm sctx =
     ask_model net llm Advisor_prompt (advice_prompt sctx) ''llm advisor'' ''parse llm advisor output'' read_advices"

section \<open>Logs\<close>

record AnalysisResponse =
  an_Summary :: string
  an_Severity :: string
  an_Categories :: "string list"
  an_RootCause :: string
  an_Fix :: string
  an_Confidence :: rat

definition analysis_fields :: "AnalysisResponse fields" where
  "analysis_fields =
     [(''summary'', string_field (\<lambda>v x. x\<lparr>an_Summary := v\<rparr>)), (''severity'', string_field (\<lambda>v x. x\<lparr>an_Severity := v\<rparr>)),
      (''categories'', strings_field an_Categories (\<lambda>v x. x\<lparr>an_Categories := v\<rparr>)),
      (''root_cause'', string_field (\<lambda>v x. x\<lparr>an_RootCause := v\<rparr>)), (''fix'', string_field (\<lambda>v x. x\<lparr>an_Fix := v\<rparr>)),
      (''confidence'', float_field (\<lambda>v x. x\<lparr>an_Confidence := v\<rparr>))]"

definition Log_AnalyzeWithLLM ::
  "network \<Rightarrow> LLMAdapter \<Rightarrow> string \<Rightarrow> string \<Rightarrow> string \<Rightarrow> int \<Rightarrow> (error + AnalysisResponse) \<times> LLMAdapter" where
  "Log_AnalyzeWithLLM net llm logText errorCode taskType retryCount =
     ask_model net llm LogAnalysis_prompt
       (lines_of [''Task type: '' @ taskType, ''Error code: '' @ errorCode, ''Retry count: '' @ itoa retryCount, ''Error log:'', logText])
       ''llm log analysis'' ''parse llm log analysis output''
       (\<lambda>result. Unmarshal analysis_fields result \<lparr>an_Summary = [], an_Severity = [], an_Categories = [], an_RootCause = [],
          an_Fix = [], an_Confidence = 0\<rparr>)"

text \<open>\<^verbatim>\<open>tools.AnalyzeInstance\<close>\<close>

definition AnalyzeInstance :: "network \<Rightarrow> LLMAdapter \<Rightarrow> TaskInstance \<Rightarrow> string \<Rightarrow> (error + AnalysisResponse) \<times> LLMAdapter" where
  "AnalyzeInstance net llm inst taskType =
     (if llm = None then (Inl (Errorf ''LLM not configured''), llm)
      else Log_AnalyzeWithLLM net llm (i_ErrorMessage inst) (i_ErrorCode inst) taskType (i_RetryCount inst))"

section \<open>Tasks from text, and cron\<close>

record TaskParseResponse =
  tp_Name :: string
  tp_Type :: string
  tp_Image :: string
  tp_CronExpr :: string
  tp_Payload :: string
  tp_MaxRetry :: int
  tp_RetryPolicy :: string
  tp_Explanation :: string
  tp_Confidence :: rat

definition task_parse_fields :: "TaskParseResponse fields" where
  "task_parse_fields =
     [(''name'', string_field (\<lambda>v x. x\<lparr>tp_Name := v\<rparr>)), (''type'', string_field (\<lambda>v x. x\<lparr>tp_Type := v\<rparr>)),
      (''image'', string_field (\<lambda>v x. x\<lparr>tp_Image := v\<rparr>)), (''cron_expr'', string_field (\<lambda>v x. x\<lparr>tp_CronExpr := v\<rparr>)),
      (''payload'', string_field (\<lambda>v x. x\<lparr>tp_Payload := v\<rparr>)), (''max_retry'', int_field (\<lambda>v x. x\<lparr>tp_MaxRetry := v\<rparr>)),
      (''retry_policy'', string_field (\<lambda>v x. x\<lparr>tp_RetryPolicy := v\<rparr>)),
      (''explanation'', string_field (\<lambda>v x. x\<lparr>tp_Explanation := v\<rparr>)), (''confidence'', float_field (\<lambda>v x. x\<lparr>tp_Confidence := v\<rparr>))]"

definition ParseNaturalLanguage ::
  "network \<Rightarrow> LLMAdapter \<Rightarrow> string \<Rightarrow> ('a, (error + TaskParseResponse) \<times> LLMAdapter) go" where
  "ParseNaturalLanguage net llm input =
     (case ask_model net llm TaskParser_prompt input ''llm task parse'' ''parse llm task output''
         (\<lambda>result. Unmarshal task_parse_fields result \<lparr>tp_Name = [], tp_Type = [], tp_Image = [], tp_CronExpr = [], tp_Payload = [],
            tp_MaxRetry = 0, tp_RetryPolicy = [], tp_Explanation = [], tp_Confidence = 0\<rparr>) of
        (Inl err, llm) \<Rightarrow> State_Monad.return (Inl err, llm)
      | (Inr resp, llm) \<Rightarrow>
         if tp_Name resp = [] then State_Monad.return (Inl (Errorf ''llm returned empty task name''), llm)
         else if tp_CronExpr resp = [] then State_Monad.return (Inr resp, llm)
         else do {
           now \<leftarrow> time_now;
           loc \<leftarrow> reads zone;
           is_print \<leftarrow> reads unicode_print;
           State_Monad.return (case NextAfter loc now (tp_CronExpr resp) of
             Inl err \<Rightarrow> (Inl (Wrapped (''llm returned invalid cron expression '' @ go_quote is_print (tp_CronExpr resp)) err), llm)
           | Inr _ \<Rightarrow> (Inr resp, llm)) })"

record NextRunResponse =
  nr_Expression :: string
  nr_BaseTime :: time
  nr_NextRun :: time

text \<open>A base time comes with the location it was written in; the clock's is the local one.\<close>

definition NextRun :: "string \<Rightarrow> time \<Rightarrow> location \<Rightarrow> ('a, error + NextRunResponse) go" where
  "NextRun expression baseTime baseLoc = do {
     here \<leftarrow> reads zone;
     (baseTime, loc) \<leftarrow> (if baseTime = zero_time then do { now \<leftarrow> time_now; State_Monad.return (now, here) }
       else State_Monad.return (baseTime, baseLoc));
     case NextAfter loc baseTime expression of
       Inl err \<Rightarrow> raise err
     | Inr nextRun \<Rightarrow> ret \<lparr>nr_Expression = expression, nr_BaseTime = baseTime, nr_NextRun = nextRun\<rparr> }"

section \<open>The statistics are sound\<close>

definition rank :: "nat \<Rightarrow> rat \<Rightarrow> nat" where
  "rank n p = nat (min (max (\<lceil>fl64 (fl64 (p / 100) * fl64 (of_nat n))\<rceil> - 1) 0) (int n - 1))"

lemma percentile_rank: "ds \<noteq> [] \<Longrightarrow> percentile ds p = ds ! rank (length ds) p"
proof -
  let ?i = "\<lceil>fl64 (fl64 (p / 100) * fl64 (of_nat (length ds)))\<rceil> - 1"
  assume "ds \<noteq> []"
  moreover have "(let idx = ?i; idx = (if idx < 0 then 0 else idx);
      idx = (if idx \<ge> int (length ds) then int (length ds) - 1 else idx) in idx) = min (max ?i 0) (int (length ds) - 1)"
    by (simp add: Let_def)
  ultimately show ?thesis by (simp add: percentile_def rank_def Let_def)
qed

lemma rank_less: "0 < n \<Longrightarrow> rank n p < n"
  unfolding rank_def by linarith

lemma rank_mono:
  assumes "0 \<le> p" "p \<le> q"
  shows "rank n p \<le> rank n q"
proof -
  have "fl64 (p / 100) * fl64 (of_nat n) \<le> fl64 (q / 100) * fl64 (of_nat n)"
    using assms by (intro mult_right_mono fl64_mono fl64_nonneg) simp_all
  moreover have "0 \<le> fl64 (p / 100) * fl64 (of_nat n)"
    using assms by (intro mult_nonneg_nonneg fl64_nonneg) simp_all
  ultimately have "\<lceil>fl64 (fl64 (p / 100) * fl64 (of_nat n))\<rceil> \<le> \<lceil>fl64 (fl64 (q / 100) * fl64 (of_nat n))\<rceil>"
    by (intro ceiling_mono fl64_mono)
  then show ?thesis unfolding rank_def by (intro nat_mono min.mono max.mono) simp_all
qed

lemma percentile_mono:
  "ds \<noteq> [] \<Longrightarrow> sorted ds \<Longrightarrow> 0 \<le> p \<Longrightarrow> p \<le> q \<Longrightarrow> percentile ds p \<le> percentile ds q"
  by (simp add: percentile_rank rank_less rank_mono sorted_nth_mono)

lemma percentile_within:
  "ds \<noteq> [] \<Longrightarrow> sorted ds \<Longrightarrow> percentile ds p \<in> set ds \<and> ds ! 0 \<le> percentile ds p \<and> percentile ds p \<le> ds ! (length ds - 1)"
  using rank_less [of "length ds" p] by (auto simp: percentile_rank intro: sorted_nth_mono)

lemma durations_nonneg: "d \<in> set (List.map_filter instance_duration insts) \<Longrightarrow> 0 \<le> d"
  by (auto simp: map_filter_def instance_duration_def Let_def split: if_splits)


end
