(* ===== verification/Events.thy ===== *)
theory Events
  imports Tools
begin

unbundle bit_operations_syntax

text \<open>
  \<^verbatim>\<open>internal/ai/stream\<close>: how the events of a chat reach the client, as server-sent events or as frames of a WebSocket.
  Both writers implement \<^verbatim>\<open>EventWriter\<close>; what they owe its callers is the locale \<open>event_writer\<close>. Bytes are characters.
  The JSON text of a tool's result is an argument, \<open>enc\<close>: the maps of strings, numbers and lists that tools build always
  have one. A connection takes everything until it is closed and nothing afterwards; deadlines and failures of the
  network in between are not modelled, nor is the handshake, which needs SHA-1.
\<close>

section \<open>Events\<close>

datatype chat_event =
    Text string
  | ToolCalled string string
  | ToolResult string goval
  | Done
  | Failed error
  | Action string string string goval
  | Event string "(string \<times> json) list"

fun event_name :: "chat_event \<Rightarrow> string" where
  "event_name (Text _) = ''text''"
| "event_name (ToolCalled _ _) = ''tool_call''"
| "event_name (ToolResult _ _) = ''tool_result''"
| "event_name Done = ''done''"
| "event_name (Failed _) = ''error''"
| "event_name (Action _ _ _ _) = ''action''"
| "event_name (Event n _) = n"

text \<open>A \<^verbatim>\<open>json.RawMessage\<close> is written without the white space between its tokens, and it is an error when it is not
  JSON.\<close>

definition escape_html :: "char \<Rightarrow> string" where
  "escape_html c = (if byte c \<in> {0x3C, 0x3E, 0x26} then escape c else [c])"

fun compact :: "bool \<Rightarrow> string \<Rightarrow> string" where
  "compact q [] = []"
| "compact q (c # s) =
     (if q then
        (if c = CHR 0x5C then (case s of [] \<Rightarrow> [c] | d # s' \<Rightarrow> c # d # compact True s')
         else if c = CHR 0x22 then c # compact False s
         else if is_prefix [CHR 0xE2, CHR 0x80, CHR 0xA8] (c # s) \<or> is_prefix [CHR 0xE2, CHR 0x80, CHR 0xA9] (c # s)
         then escape_multi (take 3 (c # s)) @ compact True (drop 2 s)
         else escape_html c @ compact True s)
      else if json_space c then compact False s
      else c # compact (c = CHR 0x22) s)"

definition raw_text :: "string \<Rightarrow> string option" where
  "raw_text s = (case parse_json s of None \<Rightarrow> None | Some _ \<Rightarrow> Some (compact False s))"

text \<open>An object from its members' texts; \<^verbatim>\<open>json.Marshal\<close> sorts the keys of a map.\<close>

definition object_text :: "(string \<times> string) list \<Rightarrow> string" where
  "object_text kvs = CHR ''{'' # Join (CHR '','') (map (\<lambda>(k, t). json_quote k @ CHR '':'' # t) kvs) @ ''}''"

fun event_data :: "(goval \<Rightarrow> string) \<Rightarrow> chat_event \<Rightarrow> string option" where
  "event_data enc (Text delta) = Some (object_text [(''delta'', json_quote delta)])"
| "event_data enc (ToolCalled name args) =
     map_option (\<lambda>a. object_text [(''args'', a), (''name'', json_quote name)]) (raw_text args)"
| "event_data enc (ToolResult name result) = Some (object_text [(''name'', json_quote name), (''result'', enc result)])"
| "event_data enc Done = Some (object_text [])"
| "event_data enc (Failed err) = Some (object_text [(''message'', json_quote (error_text err))])"
| "event_data enc (Action actionType title description payload) =
     Some (object_text [(''description'', json_quote description), (''payload'', enc payload), (''title'', json_quote title),
       (''type'', json_quote actionType)])"
| "event_data enc (Event n kvs) = Some (object_text (map (\<lambda>(k, v). (k, print_json v)) (sort_by fst kvs)))"

text \<open>What a delivered event is to the client: its name and its data. An event that cannot be marshalled is dropped.\<close>

definition shown :: "(goval \<Rightarrow> string) \<Rightarrow> chat_event \<Rightarrow> (string \<times> string) list" where
  "shown enc e = (case event_data enc e of None \<Rightarrow> [] | Some d \<Rightarrow> [(event_name e, d)])"

fun last_word :: "chat_event \<Rightarrow> bool" where
  "last_word Done = True"
| "last_word (Failed _) = True"
| "last_word _ = False"

section \<open>Server-sent events\<close>

definition sse_text :: "string \<times> string \<Rightarrow> string" where
  "sse_text = (\<lambda>(n, d). ''event: '' @ n @ CHR 0x0A # ''data: '' @ d @ [CHR 0x0A, CHR 0x0A])"

text \<open>The state of an \<^verbatim>\<open>SSEWriter\<close>: whether it started, and what it wrote.\<close>

record SSEWriter =
  sse_started :: bool
  sse_out :: string

definition NewSSEWriter :: SSEWriter where
  "NewSSEWriter = \<lparr>sse_started = False, sse_out = []\<rparr>"

definition SSE_send :: "(goval \<Rightarrow> string) \<Rightarrow> chat_event \<Rightarrow> SSEWriter \<Rightarrow> SSEWriter" where
  "SSE_send enc e s =
     (case event_data enc e of
        None \<Rightarrow> s
      | Some d \<Rightarrow> s\<lparr>sse_started := True, sse_out := sse_out s @ sse_text (event_name e, d)\<rparr>)"

section \<open>Frames\<close>

text \<open>\<^verbatim>\<open>binary.BigEndian\<close>: the bytes of a number, and the number of bytes.\<close>

fun big_endian :: "nat \<Rightarrow> nat \<Rightarrow> string" where
  "big_endian 0 n = []"
| "big_endian (Suc k) n = big_endian k (n div 256) @ [char_of n]"

definition be_value :: "string \<Rightarrow> nat" where
  "be_value s = foldl (\<lambda>a c. 256 * a + of_char c) 0 s"

definition frame_length :: "nat \<Rightarrow> string" where
  "frame_length n =
     (if n \<le> 125 then [char_of n]
      else if n \<le> 65535 then char_of (126 :: nat) # big_endian 2 n
      else char_of (127 :: nat) # big_endian 8 n)"

definition text_frame :: "string \<Rightarrow> string" where
  "text_frame payload = CHR 0x81 # frame_length (length payload) @ payload"

definition close_frame :: string where
  "close_frame = [CHR 0x88, CHR 0x00]"

record WSWriter =
  ws_closed :: bool
  ws_open :: bool
  ws_out :: string

definition NewWSWriter :: WSWriter where
  "NewWSWriter = \<lparr>ws_closed = False, ws_open = True, ws_out = []\<rparr>"

text \<open>\<^verbatim>\<open>conn.Write\<close> and \<^verbatim>\<open>conn.Close\<close>\<close>

definition conn_write :: "string \<Rightarrow> WSWriter \<Rightarrow> WSWriter" where
  "conn_write b s = (if ws_open s then s\<lparr>ws_out := ws_out s @ b\<rparr> else s)"

definition writeFrame :: "string \<Rightarrow> WSWriter \<Rightarrow> WSWriter" where
  "writeFrame payload s = (if ws_closed s then s else conn_write (text_frame payload) s)"

definition ws_payload :: "string \<times> string \<Rightarrow> string" where
  "ws_payload = (\<lambda>(n, d). object_text [(''data'', d), (''event'', json_quote n)])"

definition WS_send :: "(goval \<Rightarrow> string) \<Rightarrow> chat_event \<Rightarrow> WSWriter \<Rightarrow> WSWriter" where
  "WS_send enc e s =
     (case event_data enc e of None \<Rightarrow> s | Some d \<Rightarrow> writeFrame (ws_payload (event_name e, d)) s)"

text \<open>\<^verbatim>\<open>Done\<close> and \<^verbatim>\<open>Error\<close> close the connection after their event, the others only send.\<close>

definition WS_write :: "(goval \<Rightarrow> string) \<Rightarrow> chat_event \<Rightarrow> WSWriter \<Rightarrow> WSWriter" where
  "WS_write enc e s =
     (if last_word e then (conn_write close_frame ((WS_send enc e s)\<lparr>ws_closed := True\<rparr>))\<lparr>ws_open := False\<rparr>
      else WS_send enc e s)"

text \<open>
  \<^verbatim>\<open>ReadJSON\<close>, up to the bytes it hands to \<^verbatim>\<open>json.Unmarshal\<close>: the payload of a frame and what follows it. A length of
  eight bytes is converted to a signed number, and \<^verbatim>\<open>make\<close> panics on a negative one.
\<close>

definition take_exactly :: "nat \<Rightarrow> string \<Rightarrow> (string \<times> string) option" where
  "take_exactly n s = (if n \<le> length s then Some (take n s, drop n s) else None)"

definition xor_byte :: "char \<Rightarrow> char \<Rightarrow> char" where
  "xor_byte a b = char_of (of_char a XOR of_char b :: nat)"

definition unmask :: "string \<Rightarrow> string \<Rightarrow> string" where
  "unmask key p = map (\<lambda>i. xor_byte (p ! i) (key ! (i mod 4))) [0..<length p]"

definition eof :: error where
  "eof = Errorf ''unexpected EOF''"

definition read_payload :: "bool \<Rightarrow> int \<Rightarrow> string \<Rightarrow> error + string \<times> string" where
  "read_payload masked n s =
     (case (if masked then take_exactly 4 s else Some ([], s)) of
        None \<Rightarrow> Inl eof
      | Some (key, s1) \<Rightarrow>
         if n < 0 then Inl (Panic ''makeslice: len out of range'')
         else (case take_exactly (nat n) s1 of
                 None \<Rightarrow> Inl eof
               | Some (p, s2) \<Rightarrow> Inr (if masked then unmask key p else p, s2)))"

definition read_length :: "nat \<Rightarrow> string \<Rightarrow> (int \<times> string) option" where
  "read_length n s =
     (if n = 126 then map_option (\<lambda>(b, s). (int (be_value b), s)) (take_exactly 2 s)
      else if n = 127 then map_option (\<lambda>(b, s). (wrap64 (int (be_value b)), s)) (take_exactly 8 s)
      else Some (int n, s))"

definition read_frame :: "string \<Rightarrow> error + string \<times> string" where
  "read_frame s =
     (case s of
        h0 # h1 # s1 \<Rightarrow>
          if (of_char h0 :: nat) AND 0x0F = 0x08 then Inl (Errorf ''client closed connection'')
          else (case read_length (of_char h1 AND 0x7F) s1 of
                  None \<Rightarrow> Inl eof
                | Some (n, s2) \<Rightarrow> read_payload ((of_char h1 :: nat) AND 0x80 \<noteq> 0) n s2)
      | _ \<Rightarrow> Inl (Wrapped ''read ws header'' eof))"

definition ReadJSON :: "'r fields \<Rightarrow> string \<Rightarrow> 'r \<Rightarrow> error + 'r" where
  "ReadJSON fs s x =
     (case read_frame s of
        Inl err \<Rightarrow> Inl err
      | Inr (payload, _) \<Rightarrow>
         (case Unmarshal fs payload x of None \<Rightarrow> Inl (Errorf ''invalid json'') | Some y \<Rightarrow> Inr y))"

section \<open>Reading back what was written\<close>

lemma be_value_snoc: "be_value (s @ [c]) = 256 * be_value s + of_char c"
  by (simp add: be_value_def)

lemma be_value_big_endian: "be_value (big_endian k n) = n mod 256 ^ k"
proof (induction k arbitrary: n)
  case (Suc k)
  have "be_value (big_endian (Suc k) n) = 256 * (n div 256 mod 256 ^ k) + n mod 256"
    by (simp add: be_value_snoc Suc)
  also have "\<dots> = n mod (256 * 256 ^ k)" by (simp add: mod_mult2_eq)
  finally show ?case by simp
qed (simp add: be_value_def)

lemma length_big_endian [simp]: "length (big_endian k n) = k"
  by (induction k arbitrary: n) simp_all

lemma take_exactly_append [simp]: "n = length s \<Longrightarrow> take_exactly n (s @ t) = Some (s, t)"
  by (simp add: take_exactly_def)

lemma xor_byte_twice [simp]: "xor_byte (xor_byte a b) b = a"
proof -
  have "of_char (xor_byte (xor_byte a b) b) = take_bit 8 (take_bit 8 (of_char a XOR of_char b) XOR of_char b :: nat)"
    by (simp add: xor_byte_def take_bit_eq_mod)
  also have "\<dots> = take_bit 8 (of_char a)" by (simp add: xor.assoc)
  also have "\<dots> = of_char a" by (simp add: take_bit_eq_mod)
  finally show ?thesis by simp
qed

lemma length_unmask [simp]: "length (unmask key p) = length p"
  by (simp add: unmask_def)

lemma unmask_twice [simp]: "unmask key (unmask key p) = p"
  by (rule nth_equalityI) (simp_all add: unmask_def)

text \<open>The length bytes, with the bit that says whether the payload is masked.\<close>

definition client_length :: "bool \<Rightarrow> nat \<Rightarrow> string" where
  "client_length masked n =
     (case frame_length n of [] \<Rightarrow> [] | c # s \<Rightarrow> char_of (of_char c + (if masked then 128 else 0 :: nat)) # s)"

text \<open>A text frame as a client sends it, masked with a key of four bytes (RFC 6455, section 5).\<close>

definition client_frame :: "string \<Rightarrow> string \<Rightarrow> string" where
  "client_frame key payload = CHR 0x81 # client_length True (length payload) @ key @ unmask key payload"

lemma low_bits: "(n :: nat) AND 0x7F = n mod 128"
proof -
  have "n AND 0x7F = take_bit 7 n" unfolding take_bit_eq_mask by (simp add: mask_eq_exp_minus_1)
  then show ?thesis by (simp add: take_bit_eq_mod)
qed

lemma high_bit: "0 < (n :: nat) AND 0x80 \<longleftrightarrow> odd (n div 128)"
  using and_exp_eq_0_iff_not_bit [of n 7] by (auto simp: bit_iff_odd)

lemma read_header:
  "l < 128 \<Longrightarrow> read_frame (CHR 0x81 # char_of (l + (if m then 128 else 0 :: nat)) # s) =
     (case read_length l s of None \<Rightarrow> Inl eof | Some (n, s2) \<Rightarrow> read_payload m n s2)"
  by (auto simp: read_frame_def low_bits high_bit split: option.split)

lemma read_length_of:
  assumes "n < 2 ^ 63"
  obtains l t where "frame_length n = char_of l # t" "l < 128" "\<And>s. read_length l (t @ s) = Some (int n, s)"
proof -
  have w: "wrap64 (int n) = int n" using assms by (simp add: in_int64_def)
  consider "n \<le> 125" | "125 < n" "n \<le> 65535" | "65535 < n" by linarith
  then show thesis
  proof cases
    case 1
    then show ?thesis by (intro that [of n "[]"]) (simp_all add: frame_length_def read_length_def)
  next
    case 2
    then show ?thesis
      by (intro that [of 126 "big_endian 2 n"]) (simp_all add: frame_length_def read_length_def be_value_big_endian)
  next
    case 3
    then show ?thesis using assms
      by (intro that [of 127 "big_endian 8 n"]) (simp_all add: frame_length_def read_length_def be_value_big_endian w)
  qed
qed

lemma read_frame_client:
  "length p < 2 ^ 63 \<Longrightarrow> length key = 4 \<Longrightarrow> read_frame (client_frame key p @ s) = Inr (p, s)"
  by (erule read_length_of) (simp add: client_frame_def client_length_def read_header [where m = True, simplified] read_payload_def)

lemma read_frame_text: "length p < 2 ^ 63 \<Longrightarrow> read_frame (text_frame p @ s) = Inr (p, s)"
  by (erule read_length_of) (simp add: text_frame_def read_header [where m = False, simplified] read_payload_def)



section \<open>Both writers deliver\<close>

text \<open>
  What a caller of \<^verbatim>\<open>EventWriter\<close> relies on: events reach the client in the order written, up to and including the
  first that ends the stream. Nothing is promised afterwards.
\<close>

locale event_writer =
  fixes display :: "chat_event \<Rightarrow> (string \<times> string) list"
    and fresh :: 's
    and write_event :: "chat_event \<Rightarrow> 's \<Rightarrow> 's"
    and live :: "'s \<Rightarrow> bool"
    and carries :: "'s \<Rightarrow> (string \<times> string) list \<Rightarrow> bool"
  assumes fresh_live: "live fresh" and fresh_empty: "carries fresh []"
    and stays_live: "live s \<Longrightarrow> \<not> last_word e \<Longrightarrow> live (write_event e s)"
    and delivers_event: "live s \<Longrightarrow> carries s ps \<Longrightarrow> carries (write_event e s) (ps @ display e)"
begin

lemma delivers_from:
  "live s \<Longrightarrow> carries s ps \<Longrightarrow> \<forall>e \<in> set es. \<not> last_word e \<Longrightarrow>
     live (fold write_event es s) \<and> carries (fold write_event es s) (ps @ concat (map display es))"
proof (induction es arbitrary: s ps)
  case (Cons e es)
  then show ?case using stays_live [of s e] Cons.IH [OF _ delivers_event [of s ps e]] by simp
qed simp

lemma delivers:
  assumes "\<forall>e \<in> set es. \<not> last_word e"
  shows "carries (fold write_event (es @ [e]) fresh) (concat (map display (es @ [e])))"
  using delivers_from [OF fresh_live fresh_empty assms] delivers_event by auto

end

definition sse_carries :: "SSEWriter \<Rightarrow> (string \<times> string) list \<Rightarrow> bool" where
  "sse_carries s ps \<longleftrightarrow> sse_out s = concat (map sse_text ps)"

interpretation sse: event_writer "shown enc" NewSSEWriter "SSE_send enc" "\<lambda>_. True" sse_carries
  by unfold_locales (auto simp: sse_carries_def NewSSEWriter_def SSE_send_def shown_def split: option.split)

definition ws_live :: "WSWriter \<Rightarrow> bool" where
  "ws_live s \<longleftrightarrow> \<not> ws_closed s \<and> ws_open s"

definition ws_carries :: "WSWriter \<Rightarrow> (string \<times> string) list \<Rightarrow> bool" where
  "ws_carries s ps \<longleftrightarrow>
     ws_out s = concat (map (text_frame \<circ> ws_payload) ps) @ (if ws_open s then [] else close_frame)"

interpretation ws: event_writer "shown enc" NewWSWriter "WS_write enc" ws_live ws_carries
  by unfold_locales
    (auto simp: ws_carries_def ws_live_def NewWSWriter_def WS_write_def WS_send_def writeFrame_def conn_write_def shown_def
      split: option.split)

text \<open>A connection that was closed stays as it is.\<close>

lemma WS_write_closed: "ws_closed s \<Longrightarrow> \<not> ws_open s \<Longrightarrow> WS_write enc e s = s"
  by (auto simp: WS_write_def WS_send_def writeFrame_def conn_write_def split: option.split)

lemma WS_write_ends: "last_word e \<Longrightarrow> ws_closed (WS_write enc e s) \<and> \<not> ws_open (WS_write enc e s)"
  by (simp add: WS_write_def conn_write_def)

lemma fold_closed: "ws_closed s \<Longrightarrow> \<not> ws_open s \<Longrightarrow> fold (WS_write enc) es s = s"
  by (induction es) (simp_all add: WS_write_closed)

text \<open>
  C31. Over a WebSocket the client gets the frames of the events up to the first \<^verbatim>\<open>Done\<close> or \<^verbatim>\<open>Error\<close>, in order, then a
  close frame, and nothing of what is written after it; as server-sent events it gets all of them.
\<close>

theorem events_delivered:
  assumes "\<forall>e \<in> set before. \<not> last_word e" "last_word final"
  shows "ws_out (fold (WS_write enc) (before @ final # rest) NewWSWriter) =
      concat (map (text_frame \<circ> ws_payload) (concat (map (shown enc) (before @ [final])))) @ close_frame \<and>
    sse_out (fold (SSE_send enc) (before @ final # rest) NewSSEWriter) =
      concat (map sse_text (concat (map (shown enc) (before @ final # rest))))"
proof -
  let ?s = "fold (WS_write enc) (before @ [final]) NewWSWriter"
  have ended: "ws_closed ?s" "\<not> ws_open ?s" using WS_write_ends [OF assms(2)] by simp_all
  then have "ws_out ?s = concat (map (text_frame \<circ> ws_payload) (concat (map (shown enc) (before @ [final])))) @ close_frame"
    using ws.delivers [OF assms(1), of enc final] by (simp add: ws_carries_def)
  moreover have "fold (WS_write enc) (before @ final # rest) NewWSWriter = ?s"
    using fold_closed [OF ended, of enc rest] by simp
  ultimately have w: "ws_out (fold (WS_write enc) (before @ final # rest) NewWSWriter) =
      concat (map (text_frame \<circ> ws_payload) (concat (map (shown enc) (before @ [final])))) @ close_frame"
    by (simp only:)
  have "sse_carries (fold (SSE_send enc) es NewSSEWriter) (concat (map (shown enc) es))" for es
    by (induction es rule: rev_induct) (auto simp: sse.fresh_empty intro: sse.delivers_event)
  from this [of "before @ final # rest"] w show ?thesis unfolding sse_carries_def by (rule conjI [rotated])
qed

theorem events_delivered_witness:
  "ws_out (fold (WS_write sprint_v) [Text ''hi'', Done, Event ''conversation_id'' [(''id'', JString ''7'')]] NewWSWriter) =
     text_frame (ws_payload (''text'', object_text [(''delta'', json_quote ''hi'')])) @
     text_frame (ws_payload (''done'', object_text [])) @ close_frame"
  using events_delivered [of "[Text ''hi'']" Done sprint_v "[Event ''conversation_id'' [(''id'', JString ''7'')]]"]
  by (simp add: shown_def)

end
