(* ===== verification/Agent.thy ===== *)
theory Agent
  imports Events Adapter
begin

text \<open>
  \<^verbatim>\<open>internal/ai/agent/engine.go\<close>: the loop between the language model and the tools. The model is an argument: the
  stream of events with which it answers the \<open>n\<close>-th request, a list of messages. So is the context: the error it reports
  before the \<open>n\<close>-th request, if any. What the loop writes to the client is the list of the calls of the event
  writer; the requests it sends are kept beside it.
\<close>

section \<open>Definitions\<close>

definition maxToolIterations :: nat where
  "maxToolIterations = 10"

record RunResult =
  rr_Content :: string
  rr_ToolCalls :: "string list"

text \<open>What one answer of the model amounts to, with the texts it sent to the client.\<close>

record turn =
  tn_content :: string
  tn_calls :: "ToolCall list"
  tn_reasoning :: string
  tn_events :: "chat_event list"

definition zero_turn :: turn where
  "zero_turn = \<lparr>tn_content = [], tn_calls = [], tn_reasoning = [], tn_events = []\<rparr>"

definition take_event :: "StreamEvent \<Rightarrow> turn \<Rightarrow> turn" where
  "take_event ev t =
     (let t = (if se_DeltaContent ev \<noteq> [] then t\<lparr>tn_content := tn_content t @ se_DeltaContent ev,
            tn_events := tn_events t @ [Text (se_DeltaContent ev)]\<rparr> else t);
          t = (if se_ReasoningContent ev \<noteq> [] then t\<lparr>tn_reasoning := se_ReasoningContent ev\<rparr> else t)
      in if se_ToolCalls ev \<noteq> [] then t\<lparr>tn_calls := se_ToolCalls ev\<rparr> else t)"

fun read_stream :: "StreamEvent list \<Rightarrow> turn \<Rightarrow> error option \<times> turn" where
  "read_stream [] t = (None, t)"
| "read_stream (ev # evs) t =
     (case se_Error ev of Some err \<Rightarrow> (Some err, t) | None \<Rightarrow> read_stream evs (take_event ev t))"

record conversation =
  cv_messages :: "Message list"
  cv_events :: "chat_event list"
  cv_made :: "string list"
  cv_requests :: "Message list list"

definition tool_message :: "ToolCall \<Rightarrow> string \<Rightarrow> Message" where
  "tool_message tc content = zero_Message\<lparr>m_Role := ''tool'', m_ToolCallID := tc_ID tc, m_Content := content\<rparr>"

definition assistant_message :: "turn \<Rightarrow> Message" where
  "assistant_message t = zero_Message\<lparr>m_Role := ''assistant'', m_Content := tn_content t,
     m_ReasoningContent := tn_reasoning t, m_ToolCalls := tn_calls t\<rparr>"

definition call_tool ::
  "'a world_scheme Bundle \<Rightarrow> tool_registry \<Rightarrow> ToolCall \<Rightarrow> conversation \<Rightarrow> ('a, conversation) go" where
  "call_tool b reg tc c = do {
     result \<leftarrow> Registry_Execute b reg (tc_Name tc) (tc_Arguments tc);
     let c = c\<lparr>cv_events := cv_events c @ [ToolCalled (tc_Name tc) (tc_Arguments tc)]\<rparr>;
     State_Monad.return
       (case result of
          Inl err \<Rightarrow>
            let errMsg = ''tool execution failed: '' @ error_text err in
            c\<lparr>cv_events := cv_events c @ [ToolResult (tc_Name tc) (VMap [(''error'', VString errMsg)])],
              cv_messages := cv_messages c @ [tool_message tc errMsg]\<rparr>
        | Inr v \<Rightarrow>
            c\<lparr>cv_events := cv_events c @ [ToolResult (tc_Name tc) v],
              cv_messages := cv_messages c @ [tool_message tc (sprint_v v)], cv_made := cv_made c @ [tc_Name tc]\<rparr>) }"

primrec call_tools ::
  "'a world_scheme Bundle \<Rightarrow> tool_registry \<Rightarrow> ToolCall list \<Rightarrow> conversation \<Rightarrow> ('a, conversation) go" where
  "call_tools b reg [] c = State_Monad.return c"
| "call_tools b reg (tc # tcs) c = do { c \<leftarrow> call_tool b reg tc c; call_tools b reg tcs c }"

text \<open>The loop with the iterations left.\<close>

primrec agent_loop ::
  "(nat \<Rightarrow> error option) \<Rightarrow> (nat \<Rightarrow> Message list \<Rightarrow> StreamEvent list) \<Rightarrow> 'a world_scheme Bundle \<Rightarrow> tool_registry \<Rightarrow> nat \<Rightarrow>
     conversation \<Rightarrow> ('a, (error + RunResult) \<times> conversation) go" where
  "agent_loop ctx_err model b reg 0 c =
     (let err = Errorf ''max tool iterations exceeded'' in
      State_Monad.return (Inl err, c\<lparr>cv_events := cv_events c @ [Failed err]\<rparr>))"
| "agent_loop ctx_err model b reg (Suc left) c =
     (let iteration = maxToolIterations - Suc left in
      case ctx_err iteration of
        Some err \<Rightarrow> State_Monad.return (Inl err, c)
      | None \<Rightarrow>
         (case read_stream (model iteration (cv_messages c)) zero_turn of
            (failure, t) \<Rightarrow>
              let c = c\<lparr>cv_requests := cv_requests c @ [cv_messages c], cv_events := cv_events c @ tn_events t\<rparr> in
              case failure of
                Some err \<Rightarrow> State_Monad.return (Inl err, c\<lparr>cv_events := cv_events c @ [Failed err]\<rparr>)
              | None \<Rightarrow>
                  if tn_calls t \<noteq> [] then do {
                    c \<leftarrow> call_tools b reg (tn_calls t) (c\<lparr>cv_messages := cv_messages c @ [assistant_message t]\<rparr>);
                    agent_loop ctx_err model b reg left c }
                  else State_Monad.return
                    (Inr \<lparr>rr_Content = tn_content t, rr_ToolCalls = cv_made c\<rparr>, c\<lparr>cv_events := cv_events c @ [Done]\<rparr>)))"

definition first_messages :: "string \<Rightarrow> Message list \<Rightarrow> string \<Rightarrow> Message list" where
  "first_messages systemPrompt history userMessage =
     zero_Message\<lparr>m_Role := ''system'', m_Content := systemPrompt\<rparr> # history @
     [zero_Message\<lparr>m_Role := ''user'', m_Content := userMessage\<rparr>]"

definition Run ::
  "(nat \<Rightarrow> error option) \<Rightarrow> LLMAdapter \<Rightarrow> (nat \<Rightarrow> Message list \<Rightarrow> StreamEvent list) \<Rightarrow> 'a world_scheme Bundle \<Rightarrow> tool_registry \<Rightarrow>
     string \<Rightarrow> Message list \<Rightarrow> string \<Rightarrow> ('a, (error + RunResult) \<times> conversation) go" where
  "Run ctx_err llm model b reg systemPrompt history userMessage =
     (if \<not> Enabled llm
      then let err = Errorf ''LLM not configured'' in
        State_Monad.return (Inl err, \<lparr>cv_messages = [], cv_events = [Failed err], cv_made = [], cv_requests = []\<rparr>)
      else agent_loop ctx_err model b reg maxToolIterations
        \<lparr>cv_messages = first_messages systemPrompt history userMessage, cv_events = [], cv_made = [], cv_requests = []\<rparr>)"

definition SystemPrompt :: string where
  "SystemPrompt = Join (CHR 0x0A)
     [runes [0x4F60, 0x662F, 0x4E00, 0x4E2A, 0x4EFB, 0x52A1, 0x8C03, 0x5EA6, 0x7CFB, 0x7EDF, 0x7684, 0x20, 0x41, 0x49, 0x20, 0x8FD0, 0x7EF4, 0x52A9, 0x624B, 0x3002, 0x4F60, 0x53EF, 0x4EE5, 0xFF1A],
      runes [0x31, 0x2E, 0x20, 0x67E5, 0x8BE2, 0x4EFB, 0x52A1, 0x3001, 0x5B9E, 0x4F8B, 0x3001, 0x77, 0x6F, 0x72, 0x6B, 0x65, 0x72, 0x20, 0x7684, 0x72B6, 0x6001],
      runes [0x32, 0x2E, 0x20, 0x5206, 0x6790, 0x5931, 0x8D25, 0x539F, 0x56E0, 0x5E76, 0x7ED9, 0x51FA, 0x4FEE, 0x590D, 0x5EFA, 0x8BAE],
      runes [0x33, 0x2E, 0x20, 0x521B, 0x5EFA, 0x3001, 0x6682, 0x505C, 0x3001, 0x6062, 0x590D, 0x3001, 0x89E6, 0x53D1, 0x4EFB, 0x52A1],
      runes [0x34, 0x2E, 0x20, 0x63D0, 0x4F9B, 0x7CFB, 0x7EDF, 0x5065, 0x5EB7, 0x6982, 0x89C8],
      [],
      runes [0x4F60, 0x7684, 0x56DE, 0x590D, 0x98CE, 0x683C, 0xFF1A],
      runes [0x2D, 0x20, 0x4F7F, 0x7528, 0x4E2D, 0x6587, 0xFF0C, 0x7B80, 0x6D01, 0x660E, 0x4E86],
      runes [0x2D, 0x20, 0x5F53, 0x67E5, 0x8BE2, 0x7ED3, 0x679C, 0x5F88, 0x591A, 0x65F6, 0xFF0C, 0x53EA, 0x5C55, 0x793A, 0x5173, 0x952E, 0x6570, 0x636E, 0x5E76, 0x603B, 0x7ED3],
      runes [0x2D, 0x20, 0x5982, 0x679C, 0x53D1, 0x73B0, 0x95EE, 0x9898, 0xFF0C, 0x7ED9, 0x51FA, 0x5177, 0x4F53, 0x7684, 0x884C, 0x52A8, 0x5EFA, 0x8BAE],
      runes [0x2D, 0x20, 0x4E0D, 0x8981, 0x7F16, 0x9020, 0x4F60, 0x6CA1, 0x6709, 0x67E5, 0x8BE2, 0x5230, 0x7684, 0x6570, 0x636E],
      [],
      runes [0x5F53, 0x7528, 0x6237, 0x8981, 0x521B, 0x5EFA, 0x4E00, 0x4E2A, 0x4EFB, 0x52A1, 0x4F46, 0x4FE1, 0x606F, 0x4E0D, 0x5168, 0x65F6, 0xFF0C, 0x4E3B, 0x52A8, 0x8BE2, 0x95EE, 0x7F3A, 0x5931, 0x7684, 0x4FE1, 0x606F, 0xFF08, 0x540D, 0x79F0, 0x3001, 0x7C7B, 0x578B, 0x3001, 0x63, 0x72, 0x6F, 0x6E, 0x8868, 0x8FBE, 0x5F0F, 0x3001, 0x6267, 0x884C, 0x5185, 0x5BB9, 0xFF09, 0x3002],
      runes [0x5F53, 0x7528, 0x6237, 0x8BE2, 0x95EE, 0x7CFB, 0x7EDF, 0x72B6, 0x6001, 0x65F6, 0xFF0C, 0x5148, 0x8C03, 0x7528, 0x20, 0x67, 0x65, 0x74, 0x5F, 0x73, 0x79, 0x73, 0x74, 0x65, 0x6D, 0x5F, 0x68, 0x65, 0x61, 0x6C, 0x74, 0x68, 0x20, 0x83B7, 0x53D6, 0x6982, 0x89C8, 0x6570, 0x636E, 0x3002],
      runes [0x5F53, 0x7528, 0x6237, 0x8BE2, 0x95EE, 0x5177, 0x4F53, 0x4EFB, 0x52A1, 0x65F6, 0xFF0C, 0x5148, 0x8C03, 0x7528, 0x20, 0x71, 0x75, 0x65, 0x72, 0x79, 0x5F, 0x74, 0x61, 0x73, 0x6B, 0x73, 0x20, 0x67E5, 0x627E, 0xFF0C, 0x518D, 0x7528, 0x20, 0x67, 0x65, 0x74, 0x5F, 0x74, 0x61, 0x73, 0x6B, 0x5F, 0x64, 0x65, 0x74, 0x61, 0x69, 0x6C, 0x20, 0x67E5, 0x770B, 0x8BE6, 0x60C5, 0x3002]]"

record StoredMessage =
  sm_Role :: string
  sm_Content :: string

definition BuildChatMessages :: "StoredMessage list \<Rightarrow> Message list" where
  "BuildChatMessages history = map (\<lambda>h. zero_Message\<lparr>m_Role := sm_Role h, m_Content := sm_Content h\<rparr>) history"

section \<open>The loop\<close>

text \<open>The state after an answer was read, and after the calls it asks for were noted.\<close>

definition answered_with :: "turn \<Rightarrow> conversation \<Rightarrow> conversation" where
  "answered_with t c = c\<lparr>cv_requests := cv_requests c @ [cv_messages c], cv_events := cv_events c @ tn_events t\<rparr>"

definition calling :: "turn \<Rightarrow> conversation \<Rightarrow> conversation" where
  "calling t c = (answered_with t c)\<lparr>cv_messages := cv_messages c @ [assistant_message t]\<rparr>"

definition saying :: "chat_event \<Rightarrow> conversation \<Rightarrow> conversation" where
  "saying e c = c\<lparr>cv_events := cv_events c @ [e]\<rparr>"

lemma conversation_sel [simp]:
  "cv_messages (answered_with t c) = cv_messages c" "cv_made (answered_with t c) = cv_made c"
  "cv_requests (answered_with t c) = cv_requests c @ [cv_messages c]"
  "cv_events (answered_with t c) = cv_events c @ tn_events t"
  "cv_messages (calling t c) = cv_messages c @ [assistant_message t]" "cv_made (calling t c) = cv_made c"
  "cv_requests (calling t c) = cv_requests c @ [cv_messages c]" "cv_events (calling t c) = cv_events c @ tn_events t"
  "cv_messages (saying e c) = cv_messages c" "cv_made (saying e c) = cv_made c"
  "cv_requests (saying e c) = cv_requests c" "cv_events (saying e c) = cv_events c @ [e]"
  by (simp_all add: answered_with_def calling_def saying_def)

text \<open>One rule for the loop: an invariant that the calls of a turn keep, and what it gives at each of the four exits.\<close>

lemma agent_loop_wp:
  assumes "J left c w"
    and call: "\<And>k c w t. J (Suc k) c w \<Longrightarrow> ctx_err (maxToolIterations - Suc k) = None \<Longrightarrow>
      read_stream (model (maxToolIterations - Suc k) (cv_messages c)) zero_turn = (None, t) \<Longrightarrow> tn_calls t \<noteq> [] \<Longrightarrow>
      wp (call_tools b reg (tn_calls t) (calling t c)) (J k) w"
    and answer: "\<And>k c w t. J (Suc k) c w \<Longrightarrow> ctx_err (maxToolIterations - Suc k) = None \<Longrightarrow>
      read_stream (model (maxToolIterations - Suc k) (cv_messages c)) zero_turn = (None, t) \<Longrightarrow> tn_calls t = [] \<Longrightarrow>
      Q (Inr \<lparr>rr_Content = tn_content t, rr_ToolCalls = cv_made c\<rparr>, saying Done (answered_with t c)) w"
    and broken: "\<And>k c w t err. J (Suc k) c w \<Longrightarrow>
      read_stream (model (maxToolIterations - Suc k) (cv_messages c)) zero_turn = (Some err, t) \<Longrightarrow>
      Q (Inl err, saying (Failed err) (answered_with t c)) w"
    and cancelled: "\<And>k c w err. J (Suc k) c w \<Longrightarrow> ctx_err (maxToolIterations - Suc k) = Some err \<Longrightarrow> Q (Inl err, c) w"
    and exhausted: "\<And>c w. J 0 c w \<Longrightarrow>
      Q (Inl (Errorf ''max tool iterations exceeded''), saying (Failed (Errorf ''max tool iterations exceeded'')) c) w"
  shows "wp (agent_loop ctx_err model b reg left c) Q w"
  using assms(1)
proof (induction left arbitrary: c w)
  case 0
  then show ?case using exhausted by (simp add: saying_def Let_def)
next
  case (Suc k)
  let ?n = "maxToolIterations - Suc k"
  obtain failure t where r: "read_stream (model ?n (cv_messages c)) zero_turn = (failure, t)" by fastforce
  show ?case
  proof (cases "ctx_err ?n")
    case None
    show ?thesis
    proof (cases failure)
      case (Some err)
      with r None broken [OF Suc.prems] show ?thesis by (simp add: saying_def answered_with_def Let_def)
    next
      case no_err: None
      show ?thesis
      proof (cases "tn_calls t = []")
        case True
        with r None no_err answer [OF Suc.prems] show ?thesis by (simp add: saying_def answered_with_def Let_def)
      next
        case False
        from r no_err have "read_stream (model ?n (cv_messages c)) zero_turn = (None, t)" by simp
        from wp_mono [OF call [OF Suc.prems None this False] Suc.IH] r None no_err False
        show ?thesis by (simp add: calling_def answered_with_def Let_def)
      qed
    qed
  qed (simp add: cancelled [OF Suc.prems] Let_def)
qed

definition started :: "string \<Rightarrow> Message list \<Rightarrow> string \<Rightarrow> conversation" where
  "started systemPrompt history userMessage =
     \<lparr>cv_messages = first_messages systemPrompt history userMessage, cv_events = [], cv_made = [], cv_requests = []\<rparr>"

lemma started_sel [simp]:
  "cv_messages (started p h u) = first_messages p h u" "cv_events (started p h u) = []" "cv_requests (started p h u) = []"
  by (simp_all add: started_def)

lemma Run_wp:
  assumes "wp (agent_loop ctx_err model b reg maxToolIterations (started systemPrompt history userMessage)) Q w"
    and "\<not> Enabled llm \<Longrightarrow> Q (Inl (Errorf ''LLM not configured''),
      \<lparr>cv_messages = [], cv_events = [Failed (Errorf ''LLM not configured'')], cv_made = [], cv_requests = []\<rparr>) w"
  shows "wp (Run ctx_err llm model b reg systemPrompt history userMessage) Q w"
  using assms by (simp add: Run_def started_def Let_def)

lemma wp_outcome: "wp m (\<lambda>(r, c) w'. P r c w') w \<longleftrightarrow> (case run_state m w of ((r, c), w') \<Rightarrow> P r c w')"
  by (simp add: wp_def split_beta)

lemma read_stream_content:
  "read_stream evs t = (None, t') \<Longrightarrow> tn_content t' = tn_content t @ concat (map se_DeltaContent evs)"
proof (induction evs arbitrary: t)
  case (Cons ev evs)
  then show ?case by (auto simp: take_event_def Let_def split: option.splits)
qed simp

fun is_text :: "chat_event \<Rightarrow> bool" where
  "is_text (Text _) = True"
| "is_text _ = False"

lemma take_event_texts: "list_all is_text (tn_events t) \<Longrightarrow> list_all is_text (tn_events (take_event ev t))"
  by (simp add: take_event_def Let_def)

lemma read_stream_texts: "list_all is_text (tn_events t) \<Longrightarrow> list_all is_text (tn_events (snd (read_stream evs t)))"
  by (induction evs arbitrary: t) (simp_all add: take_event_texts split: option.split)

lemma read_stream_fine:
  "\<forall>ev \<in> set evs. se_Error ev = None \<Longrightarrow> fst (read_stream evs t) = None"
  by (induction evs arbitrary: t) simp_all

lemma read_stream_no_calls:
  "\<forall>ev \<in> set evs. se_ToolCalls ev = [] \<Longrightarrow> tn_calls (snd (read_stream evs t)) = tn_calls t"
  by (induction evs arbitrary: t) (auto simp: take_event_def Let_def split: option.splits)

text \<open>What the calls of a turn add: for each a tool message, in order, and for the client the call with its result.\<close>

fun called :: "chat_event \<Rightarrow> string list" where
  "called (ToolCalled n _) = [n]"
| "called _ = []"

definition calls_of :: "chat_event list \<Rightarrow> string list" where
  "calls_of es = concat (map called es)"

lemma calls_of_simps [simp]:
  "calls_of [] = []" "calls_of (e # es) = called e @ calls_of es" "calls_of (es @ es') = calls_of es @ calls_of es'"
  by (simp_all add: calls_of_def)

definition tool_answer :: "ToolCall \<Rightarrow> Message \<Rightarrow> bool" where
  "tool_answer tc m \<longleftrightarrow> m_Role m = ''tool'' \<and> m_ToolCallID m = tc_ID tc \<and> m_ToolCalls m = []"

definition called_all :: "ToolCall list \<Rightarrow> conversation \<Rightarrow> conversation \<Rightarrow> bool" where
  "called_all tcs c c' \<longleftrightarrow> cv_requests c' = cv_requests c \<and>
     (\<exists>ms es. cv_messages c' = cv_messages c @ ms \<and> list_all2 tool_answer tcs ms \<and>
        cv_events c' = cv_events c @ es \<and> calls_of es = map tc_Name tcs \<and> list_all (\<lambda>e. \<not> last_word e) es)"

lemma call_tool_adds: "wp (call_tool b reg tc c) (\<lambda>c' w'. called_all [tc] c c') w"
  by (simp add: call_tool_def wp_def split_beta Let_def called_all_def tool_answer_def tool_message_def zero_Message_def
      split: sum.split)

lemma called_all_Cons:
  assumes "called_all [tc] c c1" "called_all tcs c1 c2"
  shows "called_all (tc # tcs) c c2"
proof -
  from assms(1) obtain m es where 1: "cv_requests c1 = cv_requests c" "cv_messages c1 = cv_messages c @ [m]"
    "tool_answer tc m" "cv_events c1 = cv_events c @ es" "calls_of es = [tc_Name tc]" "list_all (\<lambda>e. \<not> last_word e) es"
    by (auto simp: called_all_def list_all2_Cons1)
  from assms(2) obtain ms es' where "cv_requests c2 = cv_requests c1" "cv_messages c2 = cv_messages c1 @ ms"
    "list_all2 tool_answer tcs ms" "cv_events c2 = cv_events c1 @ es'" "calls_of es' = map tc_Name tcs"
    "list_all (\<lambda>e. \<not> last_word e) es'"
    unfolding called_all_def by blast
  with 1 show ?thesis
    unfolding called_all_def by (intro conjI exI [of _ "m # ms"] exI [of _ "es @ es'"]) simp_all
qed

lemma call_tools_adds: "wp (call_tools b reg tcs c) (\<lambda>c' w'. called_all tcs c c') w"
proof (induction tcs arbitrary: c w)
  case Nil
  then show ?case by (simp add: called_all_def)
next
  case (Cons tc tcs)
  show ?case
    by (simp, rule wp_mono [OF call_tool_adds], rule wp_mono [OF Cons.IH]) (rule called_all_Cons)
qed

section \<open>Bounds, protocol, answers\<close>

text \<open>
  A conversation the model's API accepts: every message with tool calls is followed at once by one tool message for
  each call, in order and with its id, and there are no other tool messages.
\<close>

function all_answered :: "Message list \<Rightarrow> bool" where
  "all_answered [] = True"
| "all_answered (m # ms) =
     (let k = length (m_ToolCalls m) in
      m_Role m \<noteq> ''tool'' \<and> k \<le> length ms \<and> list_all2 tool_answer (m_ToolCalls m) (take k ms) \<and> all_answered (drop k ms))"
  by pat_completeness auto
termination
  by (relation "measure length") auto

lemma all_answered_append: "all_answered ms \<Longrightarrow> all_answered ms' \<Longrightarrow> all_answered (ms @ ms')"
proof (induction ms rule: all_answered.induct)
  case (2 m ms)
  then show ?case by (simp add: Let_def)
qed simp

lemma plain_answered: "\<forall>m \<in> set ms. m_Role m \<noteq> ''tool'' \<and> m_ToolCalls m = [] \<Longrightarrow> all_answered ms"
  by (induction ms) (simp_all add: Let_def)

lemma turn_answered:
  assumes "list_all2 tool_answer (tn_calls t) ms"
  shows "all_answered (assistant_message t # ms)"
  using assms list_all2_lengthD [OF assms] by (simp add: assistant_message_def zero_Message_def Let_def)

text \<open>What holds of the conversation before each iteration.\<close>

definition in_progress :: "nat \<Rightarrow> conversation \<Rightarrow> bool" where
  "in_progress left c \<longleftrightarrow> length (cv_requests c) + left = maxToolIterations \<and>
     list_all (\<lambda>e. \<not> last_word e) (cv_events c)"

lemma texts_go_on: "list_all is_text es \<Longrightarrow> list_all (\<lambda>e. \<not> last_word e) es"
proof (induction es)
  case (Cons e es)
  then show ?case by (cases e) simp_all
qed simp

lemma turn_goes_on: "read_stream evs zero_turn = (f, t) \<Longrightarrow> list_all (\<lambda>e. \<not> last_word e) (tn_events t)"
  using read_stream_texts [of zero_turn evs] by (intro texts_go_on) (simp add: zero_turn_def)

lemma in_progress_called:
  assumes "in_progress (Suc k) c" "read_stream evs zero_turn = (None, t)" "called_all tcs (calling t c) c'"
  shows "in_progress k c'"
  using assms turn_goes_on [OF assms(2)] by (auto simp: in_progress_def called_all_def)


text \<open>
  C18. Every request to the model starts with the system prompt, the history and the user's message, and is a conversation in which
  each tool call is answered in place: by one tool message with its id, in the order of the calls, before the next
  message.
\<close>

theorem Run_protocol:
  assumes "\<forall>m \<in> set history. m_Role m \<noteq> ''tool'' \<and> m_ToolCalls m = []"
  shows "case run_state (Run ctx_err llm model b reg systemPrompt history userMessage) w of ((r, c), w') \<Rightarrow>
     \<forall>ms \<in> set (cv_requests c). all_answered ms \<and> (\<exists>ms'. ms = first_messages systemPrompt history userMessage @ ms')"
proof -
  let ?F = "first_messages systemPrompt history userMessage"
  let ?P = "\<lambda>ms. all_answered ms \<and> (\<exists>ms'. ms = ?F @ ms')"
  let ?J = "\<lambda>c :: conversation. ?P (cv_messages c) \<and> (\<forall>ms \<in> set (cv_requests c). ?P ms)"
  have "wp (agent_loop ctx_err model b reg left c) (\<lambda>(r, c) _. \<forall>ms \<in> set (cv_requests c). ?P ms) w" if "?J c" for left c
  proof (rule agent_loop_wp [where J = "\<lambda>_ c _. ?J c", OF that])
    fix k c and w :: "'a world_scheme" and t
    assume J: "?J c"
    show "wp (call_tools b reg (tn_calls t) (calling t c)) (\<lambda>c _. ?J c) w"
    proof (rule wp_mono [OF call_tools_adds])
      fix c'
      assume "called_all (tn_calls t) (calling t c) c'"
      then obtain ms where c': "cv_requests c' = cv_requests c @ [cv_messages c]"
        "cv_messages c' = cv_messages c @ assistant_message t # ms" "list_all2 tool_answer (tn_calls t) ms"
        by (auto simp: called_all_def)
      with J all_answered_append [of "cv_messages c", OF _ turn_answered [OF c'(3)]] show "?J c'" by auto
    qed
  qed auto
  moreover have "all_answered ?F"
    using assms by (intro plain_answered) (auto simp: first_messages_def zero_Message_def)
  ultimately have "wp (Run ctx_err llm model b reg systemPrompt history userMessage)
      (\<lambda>(r, c) _. \<forall>ms \<in> set (cv_requests c). ?P ms) w"
    by (intro Run_wp) simp_all
  then show ?thesis unfolding wp_outcome .
qed

text \<open>
  C17. When the context stays alive and the model answers one of its first ten requests without asking for tools, with no
  broken stream up to there, the run returns: its content is the text of the answer to the last request.
\<close>

theorem Run_answers:
  assumes "Enabled llm" "\<forall>n. ctx_err n = None" "k < maxToolIterations"
    and "\<forall>n \<le> k. \<forall>ms. \<forall>ev \<in> set (model n ms). se_Error ev = None"
    and "\<forall>ms. \<forall>ev \<in> set (model k ms). se_ToolCalls ev = []"
  shows "case run_state (Run ctx_err llm model b reg systemPrompt history userMessage) w of ((r, c), w') \<Rightarrow>
     \<exists>res n. r = Inr res \<and> n \<le> k \<and> length (cv_requests c) = Suc n \<and>
       rr_Content res = concat (map se_DeltaContent (model n (last (cv_requests c))))"
proof -
  let ?Q = "\<lambda>(r, c) _ :: 'a world_scheme. \<exists>res n. r = Inr res \<and> n \<le> k \<and> length (cv_requests c) = Suc n \<and>
       rr_Content res = concat (map se_DeltaContent (model n (last (cv_requests c))))"
  let ?J = "\<lambda>left c. in_progress left c \<and> maxToolIterations - left \<le> k"
  have calls: "maxToolIterations - Suc j \<noteq> k"
    if "read_stream (model (maxToolIterations - Suc j) ms) zero_turn = (None, t)" "tn_calls t \<noteq> []" for j ms t
    using that read_stream_no_calls [of "model k ms" zero_turn] assms(5) by (auto simp: zero_turn_def)
  have "wp (agent_loop ctx_err model b reg left c) ?Q w" if "?J left c" for left c
  proof (rule agent_loop_wp [where J = "\<lambda>left c _. ?J left c", OF that])
    fix j c and w :: "'a world_scheme" and t
    assume J: "?J (Suc j) c" and
      t: "read_stream (model (maxToolIterations - Suc j) (cv_messages c)) zero_turn = (None, t)" "tn_calls t \<noteq> []"
    with calls [OF t] have "maxToolIterations - j \<le> k" by (auto simp: in_progress_def)
    with J t(1) show "wp (call_tools b reg (tn_calls t) (calling t c)) (\<lambda>c _. ?J j c) w"
      by (intro wp_mono [OF call_tools_adds]) (blast intro: in_progress_called)
  next
    fix j c and w :: "'a world_scheme" and t
    assume J: "?J (Suc j) c" and t: "read_stream (model (maxToolIterations - Suc j) (cv_messages c)) zero_turn = (None, t)"
    then have n: "length (cv_requests c) = maxToolIterations - Suc j" by (auto simp: in_progress_def)
    with J read_stream_content [OF t]
    show "?Q (Inr \<lparr>rr_Content = tn_content t, rr_ToolCalls = cv_made c\<rparr>, saying Done (answered_with t c)) w"
      by (auto simp: zero_turn_def n)
  next
    fix j c and w :: "'a world_scheme" and t err
    assume "?J (Suc j) c" "read_stream (model (maxToolIterations - Suc j) (cv_messages c)) zero_turn = (Some err, t)"
    with read_stream_fine [of "model (maxToolIterations - Suc j) (cv_messages c)" zero_turn] assms(4)
    show "?Q (Inl err, saying (Failed err) (answered_with t c)) w" by auto
  qed (use assms(2,3) in \<open>auto simp: in_progress_def\<close>)
  from this [of maxToolIterations] assms(1) have "wp (Run ctx_err llm model b reg systemPrompt history userMessage) ?Q w"
    by (intro Run_wp) (simp_all add: in_progress_def)
  then show ?thesis unfolding wp_outcome .
qed

section \<open>What a chat does to the stores\<close>

text \<open>The effects of tools called one after another; an unknown name has none.\<close>

fun tools_ran :: "string list \<Rightarrow> view \<Rightarrow> view \<Rightarrow> bool" where
  "tools_ran [] v v' \<longleftrightarrow> v' = v"
| "tools_ran (n # ns) v v' \<longleftrightarrow>
     (\<exists>u. (case asked n of None \<Rightarrow> u = v | Some t \<Rightarrow> tool_effect t v u) \<and> tools_ran ns u v')"

lemma tools_ran_append: "tools_ran ns v u \<Longrightarrow> tools_ran ns' u v' \<Longrightarrow> tools_ran (ns @ ns') v v'"
  by (induction ns arbitrary: v) auto

lemma tools_ran_persists: "tools_ran ns v v' \<Longrightarrow> persists v v'"
proof (induction ns arbitrary: v)
  case (Cons n ns)
  then show ?case by (auto split: option.splits dest!: tool_effect_persists dest: persists_trans)
qed simp

lemma reading_effect: "tool_effect t v v' \<Longrightarrow> \<not> writes t \<Longrightarrow> v' = v"
  by (cases t) (auto simp: tool_effect_def writes_def)

lemma tools_ran_reading:
  "tools_ran ns v v' \<Longrightarrow> \<forall>n \<in> set ns. \<forall>t. asked n = Some t \<longrightarrow> \<not> writes t \<Longrightarrow> v' = v"
proof (induction ns arbitrary: v)
  case (Cons n ns)
  then show ?case by (auto split: option.splits dest!: reading_effect)
qed simp

lemma wp_conj: "wp m P w \<Longrightarrow> wp m Q w \<Longrightarrow> wp m (\<lambda>x w'. P x w' \<and> Q x w') w"
  by (simp add: wp_def split_beta)

lemma texts_call_nothing: "list_all is_text es \<Longrightarrow> calls_of es = []"
proof (induction es)
  case (Cons e es)
  then show ?case by (cases e) simp_all
qed simp

lemma turn_calls_nothing: "read_stream evs zero_turn = (f, t) \<Longrightarrow> calls_of (tn_events t) = []"
  using read_stream_texts [of zero_turn evs] by (intro texts_call_nothing) (simp add: zero_turn_def)

context repositories
begin

lemma call_tools_effect:
  assumes "\<And>s f t n. quiet (snaps s f t n)" "ok w"
  shows "wp (call_tools (tools_on snaps lower) (NewToolRegistry AllTools) tcs c)
    (\<lambda>c' w'. ok w' \<and> tools_ran (map tc_Name tcs) (vw w) (vw w')) w"
  using assms(2)
proof (induction tcs arbitrary: c w)
  case (Cons tc tcs)
  have "wp (call_tool (tools_on snaps lower) (NewToolRegistry AllTools) tc c)
      (\<lambda>_ w'. ok w' \<and> (case asked (tc_Name tc) of None \<Rightarrow> vw w' = vw w | Some t \<Rightarrow> tool_effect t (vw w) (vw w'))) w"
    unfolding call_tool_def
    by (simp, rule wp_mono [OF Registry_Execute_effect [where snaps = snaps, OF assms(1) Cons.prems]])
      (auto simp: Let_def split: option.splits)
  then show ?case
    by (simp, elim wp_mono) (auto intro: wp_mono [OF Cons.IH])
qed simp

lemma agent_loop_effect:
  assumes "\<And>s f t n. quiet (snaps s f t n)" "ok w" "cv_events c = []"
  shows "wp (agent_loop ctx_err model (tools_on snaps lower) (NewToolRegistry AllTools) left c)
    (\<lambda>(r, c) w'. ok w' \<and> tools_ran (calls_of (cv_events c)) (vw w) (vw w')) w"
proof (rule agent_loop_wp [where J = "\<lambda>_ c w'. ok w' \<and> tools_ran (calls_of (cv_events c)) (vw w) (vw w')"])
  fix k w1 t and c :: conversation
  assume J: "ok w1 \<and> tools_ran (calls_of (cv_events c)) (vw w) (vw w1)"
    and t: "read_stream (model (maxToolIterations - Suc k) (cv_messages c)) zero_turn = (None, t)"
  let ?b = "tools_on snaps lower" and ?reg = "NewToolRegistry AllTools"
  have "wp (call_tools ?b ?reg (tn_calls t) (calling t c))
      (\<lambda>c' w'. called_all (tn_calls t) (calling t c) c' \<and> ok w' \<and> tools_ran (map tc_Name (tn_calls t)) (vw w1) (vw w')) w1"
    by (rule wp_conj [OF call_tools_adds call_tools_effect]) (use assms J in auto)
  then show "wp (call_tools ?b ?reg (tn_calls t) (calling t c))
      (\<lambda>c w'. ok w' \<and> tools_ran (calls_of (cv_events c)) (vw w) (vw w')) w1"
    by (rule wp_mono) (use J turn_calls_nothing [OF t] in \<open>auto simp: called_all_def intro: tools_ran_append\<close>)
qed (use assms in \<open>auto dest: turn_calls_nothing\<close>)

end

text \<open>
  C4. A chat changes the stores only by the tool calls it shows to the client, in that order and each by no more than the
  effect of its tool: no instance is lost, none that has ended changes, and a chat that only calls tools that read
  leaves the stores as they were, whatever the language model says.
\<close>

theorem Run_effects:
  assumes "stores_ok w"
    and "\<forall>u s f t n. stores_ok u \<longrightarrow> (case run_state (snaps s f t n) u of (_, u') \<Rightarrow> stores_ok u' \<and> test_view u' = test_view u)"
  shows "case run_state (Run ctx_err llm model \<lparr>bd_Task = test_tasks, bd_TaskInstance = test_instances,
        bd_Worker = test_workers, bd_ListSnapshots = snaps, bd_ToLower = lower\<rparr> (NewToolRegistry AllTools)
        systemPrompt history userMessage) w of ((r, c), w') \<Rightarrow>
      stores_ok w' \<and> tools_ran (calls_of (cv_events c)) (test_view w) (test_view w') \<and>
      persists (test_view w) (test_view w') \<and>
      ((\<forall>n \<in> set (calls_of (cv_events c)). \<forall>t. asked n = Some t \<longrightarrow> \<not> writes t) \<longrightarrow> test_view w' = test_view w)"
proof -
  have q: "ts.quiet (snaps s f t n)" for s f t n
    unfolding ts.quiet_def wp_def using assms(2) by (auto split: prod.split)
  have "wp (Run ctx_err llm model (ts.tools_on snaps lower) (NewToolRegistry AllTools) systemPrompt history userMessage)
      (\<lambda>(r, c) w'. stores_ok w' \<and> tools_ran (calls_of (cv_events c)) (test_view w) (test_view w')) w"
    by (rule Run_wp, rule ts.agent_loop_effect) (use q assms(1) in auto)
  then show ?thesis
    unfolding wp_outcome using tools_ran_persists tools_ran_reading by (auto split: prod.splits)
qed

section \<open>Witnesses\<close>

text \<open>A model that first asks for the system's health and then answers.\<close>

definition sample_model :: "nat \<Rightarrow> Message list \<Rightarrow> StreamEvent list" where
  "sample_model n ms =
     (if n = 0
      then [zero_StreamEvent\<lparr>se_ToolCalls := [zero_ToolCall\<lparr>tc_ID := ''call_1'', tc_Name := ''get_system_health'',
              tc_Arguments := ''{}''\<rparr>], se_FinishReason := ''tool_calls''\<rparr>]
      else [zero_StreamEvent\<lparr>se_DeltaContent := ''all ''\<rparr>, zero_StreamEvent\<lparr>se_DeltaContent := ''good''\<rparr>])"

definition sample_llm :: LLMAdapter where
  "sample_llm = New \<lparr>cf_Endpoint = ''http://llm'', cf_APIKey = [], cf_Model = [], cf_Timeout = 0\<rparr>"

definition sample_bundle :: "stores Bundle" where
  "sample_bundle = \<lparr>bd_Task = test_tasks, bd_TaskInstance = test_instances, bd_Worker = test_workers,
     bd_ListSnapshots = (\<lambda>_ _ _ _. State_Monad.return (Inr [])), bd_ToLower = id\<rparr>"

theorem Run_protocol_witness:
  "case run_state (Run (\<lambda>_. None) sample_llm sample_model sample_bundle (NewToolRegistry AllTools) SystemPrompt
       [zero_Message\<lparr>m_Role := ''user'', m_Content := ''hello''\<rparr>] ''how are you?'') sample of ((r, c), w') \<Rightarrow>
     \<forall>ms \<in> set (cv_requests c). all_answered ms"
  using Run_protocol [where history = "[zero_Message\<lparr>m_Role := ''user'', m_Content := ''hello''\<rparr>]" and ctx_err = "\<lambda>_. None"
      and llm = sample_llm and model = sample_model and b = sample_bundle and reg = "NewToolRegistry AllTools"
      and systemPrompt = SystemPrompt and userMessage = "''how are you?''" and w = sample]
  by (auto simp: zero_Message_def split: prod.splits)

theorem Run_answers_witness:
  "case run_state (Run (\<lambda>_. None) sample_llm sample_model sample_bundle (NewToolRegistry AllTools) SystemPrompt []
       ''how are you?'') sample of ((r, c), w') \<Rightarrow>
     \<exists>res. r = Inr res \<and> rr_Content res \<in> {[], ''all good''} \<and> length (cv_requests c) \<le> 2"
proof -
  have e: "Enabled sample_llm" by (simp add: sample_llm_def New_def Enabled_def)
  have k: "1 < maxToolIterations" by (simp add: maxToolIterations_def)
  have m: "\<forall>n \<le> 1. \<forall>ms. \<forall>ev \<in> set (sample_model n ms). se_Error ev = None"
    "\<forall>ms. \<forall>ev \<in> set (sample_model 1 ms). se_ToolCalls ev = []"
    by (auto simp: sample_model_def zero_StreamEvent_def)
  have d: "concat (map se_DeltaContent (sample_model n ms)) \<in> {[], ''all good''}" for n ms
    by (simp add: sample_model_def zero_StreamEvent_def)
  show ?thesis
    using Run_answers [OF e _ k m, where ctx_err = "\<lambda>_. None" and b = sample_bundle and reg = "NewToolRegistry AllTools"
        and systemPrompt = SystemPrompt and history = "[]" and userMessage = "''how are you?''" and w = sample] d
    by (auto split: prod.splits)
qed

theorem Run_effects_witness:
  "case run_state (Run (\<lambda>_. None) sample_llm sample_model sample_bundle (NewToolRegistry AllTools) SystemPrompt []
       ''how are you?'') sample of ((r, c), w') \<Rightarrow>
     stores_ok w' \<and> tools_ran (calls_of (cv_events c)) (test_view sample) (test_view w')"
  using Run_effects [OF sample_ok, where snaps = "\<lambda>_ _ _ _. State_Monad.return (Inr [])" and lower = id
      and ctx_err = "\<lambda>_. None" and llm = sample_llm and model = sample_model and systemPrompt = SystemPrompt
      and history = "[]" and userMessage = "''how are you?''"]
  by (auto simp: sample_bundle_def split: prod.splits)

end
