(* ===== verification/Chat.thy ===== *)
theory Chat
  imports Agent
begin

text \<open>
  \<^verbatim>\<open>internal/ai/memory\<close> and \<^verbatim>\<open>internal/ai/chat_handler.go\<close>: conversations with the agent and where they are kept. The two
  tables are lists; the database answers a statement with an error, its own (\<open>db_fail\<close>, by the number of the statement) or
  a refusal that the schema asks for: a conversation id that exists, and a text that is not JSON in the column
  \<^verbatim>\<open>tool_calls_json\<close>. Random identifiers are read from \<open>db_rand\<close>.
\<close>

section \<open>The store\<close>

record Conversation =
  c_ID :: string
  c_Title :: string
  c_UserID :: string
  c_MessageCount :: int
  c_CreatedAt :: time
  c_UpdatedAt :: time

record ChatMessage =
  h_ID :: int
  h_ConversationID :: string
  h_Role :: string
  h_Content :: string
  h_ToolCallsJSON :: string
  h_CreatedAt :: time

record Store =
  ai_conversation :: "Conversation list"
  ai_message :: "ChatMessage list"
  db_next :: int
  db_fail :: "nat \<Rightarrow> error option"
  db_now :: "nat \<Rightarrow> time"
  db_calls :: nat
  db_rand :: "nat \<Rightarrow> string"
  db_drawn :: nat

definition Exec :: "(Store \<Rightarrow> error option) \<Rightarrow> (time \<Rightarrow> Store \<Rightarrow> Store) \<Rightarrow> Store \<Rightarrow> (error + unit) \<times> Store" where
  "Exec refused change s =
     (let s' = s\<lparr>db_calls := Suc (db_calls s)\<rparr> in
      case db_fail s (db_calls s) of
        Some err \<Rightarrow> (Inl err, s')
      | None \<Rightarrow> (case refused s of Some err \<Rightarrow> (Inl err, s') | None \<Rightarrow> (Inr (), change (db_now s (db_calls s)) s')))"

definition Query :: "(Store \<Rightarrow> 'b) \<Rightarrow> Store \<Rightarrow> (error + 'b) \<times> Store" where
  "Query f s =
     (let s' = s\<lparr>db_calls := Suc (db_calls s)\<rparr> in
      case db_fail s (db_calls s) of Some err \<Rightarrow> (Inl err, s') | None \<Rightarrow> (Inr (f s), s'))"

definition hex_text :: "string \<Rightarrow> string" where
  "hex_text b = concat (map (\<lambda>c. [hex_digit (byte c div 16), hex_digit (byte c mod 16)]) b)"

definition newID :: "Store \<Rightarrow> string \<times> Store" where
  "newID s = (hex_text (db_rand s (db_drawn s)), s\<lparr>db_drawn := Suc (db_drawn s)\<rparr>)"

definition wrap_error :: "string \<Rightarrow> (error + 'b) \<times> Store \<Rightarrow> (error + 'b) \<times> Store" where
  "wrap_error msg = (\<lambda>(r, s). (case r of Inl err \<Rightarrow> Inl (Wrapped msg err) | Inr x \<Rightarrow> Inr x, s))"

definition CreateConversation :: "string \<Rightarrow> Store \<Rightarrow> ('a, (error + Conversation) \<times> Store) go" where
  "CreateConversation title s =
     (case newID s of (nid, s) \<Rightarrow>
        let title = (if title = [] then runes [0x65B0, 0x5BF9, 0x8BDD] else title) in
        case Exec (\<lambda>s. if nid \<in> c_ID ` set (ai_conversation s) then Some (Errorf ''Duplicate entry'') else None)
            (\<lambda>now s. s\<lparr>ai_conversation := ai_conversation s @ [\<lparr>c_ID = nid, c_Title = title, c_UserID = [], c_MessageCount = 0,
                c_CreatedAt = now, c_UpdatedAt = now\<rparr>]\<rparr>) s of
          (Inl err, s) \<Rightarrow> State_Monad.return (Inl (Wrapped ''create conversation'' err), s)
        | (Inr _, s) \<Rightarrow> do {
            now \<leftarrow> time_now;
            State_Monad.return (Inr \<lparr>c_ID = nid, c_Title = title, c_UserID = [], c_MessageCount = 0, c_CreatedAt = now,
              c_UpdatedAt = zero_time\<rparr>, s) })"

definition AddMessage :: "string \<Rightarrow> string \<Rightarrow> string \<Rightarrow> string \<Rightarrow> Store \<Rightarrow> (error + unit) \<times> Store" where
  "AddMessage convID role content toolCallsJSON s =
     (let toolCallsJSON = (if toolCallsJSON = [] then ''null'' else toolCallsJSON) in
      case Exec (\<lambda>_. if parse_json toolCallsJSON = None then Some (Errorf ''Invalid JSON text'') else None)
          (\<lambda>now s. s\<lparr>ai_message := ai_message s @ [\<lparr>h_ID = db_next s, h_ConversationID = convID, h_Role = role, h_Content = content,
              h_ToolCallsJSON = toolCallsJSON, h_CreatedAt = now\<rparr>], db_next := db_next s + 1\<rparr>) s of
        (Inl err, s) \<Rightarrow> (Inl (Wrapped ''add message'' err), s)
      | (Inr _, s) \<Rightarrow>
         (case Exec (\<lambda>_. None) (\<lambda>now s. s\<lparr>ai_conversation := map (\<lambda>c. if c_ID c = convID
                then c\<lparr>c_MessageCount := c_MessageCount c + 1, c_UpdatedAt := now\<rparr> else c) (ai_conversation s)\<rparr>) s of
            (_, s) \<Rightarrow> (Inr (), s)))"

definition messages_of :: "string \<Rightarrow> Store \<Rightarrow> ChatMessage list" where
  "messages_of convID s = sort_by h_ID (filter (\<lambda>m. h_ConversationID m = convID) (ai_message s))"

definition GetHistory :: "string \<Rightarrow> int \<Rightarrow> Store \<Rightarrow> (error + ChatMessage list) \<times> Store" where
  "GetHistory convID limit s =
     (let limit = (if limit \<le> 0 then 50 else limit) in
      wrap_error ''get history'' (Query (\<lambda>s. take (nat limit) (messages_of convID s)) s))"

definition ListConversations :: "int \<Rightarrow> Store \<Rightarrow> (error + Conversation list) \<times> Store" where
  "ListConversations limit s =
     (let limit = (if limit \<le> 0 then 20 else limit) in
      wrap_error ''list conversations''
        (Query (\<lambda>s. take (nat limit) (sort_by (\<lambda>c. - c_UpdatedAt c) (ai_conversation s))) s))"

definition drop_messages :: "(string \<Rightarrow> bool) \<Rightarrow> Store \<Rightarrow> Store" where
  "drop_messages P s = s\<lparr>ai_message := filter (\<lambda>m. \<not> P (h_ConversationID m)) (ai_message s)\<rparr>"

definition drop_conversations :: "(Conversation \<Rightarrow> bool) \<Rightarrow> Store \<Rightarrow> Store" where
  "drop_conversations P s = s\<lparr>ai_conversation := filter (\<lambda>c. \<not> P c) (ai_conversation s)\<rparr>"

definition DeleteConversation :: "string \<Rightarrow> Store \<Rightarrow> (error + unit) \<times> Store" where
  "DeleteConversation convID s =
     (case Exec (\<lambda>_. None) (\<lambda>_. drop_messages (\<lambda>c. c = convID)) s of
        (Inl err, s) \<Rightarrow> (Inl err, s)
      | (Inr _, s) \<Rightarrow> Exec (\<lambda>_. None) (\<lambda>_. drop_conversations (\<lambda>c. c_ID c = convID)) s)"

text \<open>An update that changes a row sets its \<^verbatim>\<open>updated_at\<close>, as the schema asks.\<close>

definition UpdateTitle :: "string \<Rightarrow> string \<Rightarrow> Store \<Rightarrow> (error + unit) \<times> Store" where
  "UpdateTitle convID title =
     Exec (\<lambda>_. None) (\<lambda>now s. s\<lparr>ai_conversation := map (\<lambda>c. if c_ID c = convID \<and> c_Title c \<noteq> title
        then c\<lparr>c_Title := title, c_UpdatedAt := now\<rparr> else c) (ai_conversation s)\<rparr>)"

definition DeleteOldConversations :: "time \<Rightarrow> Store \<Rightarrow> (error + int) \<times> Store" where
  "DeleteOldConversations before s =
     (let old = (\<lambda>c. c_UpdatedAt c < before);
          stale = (\<lambda>k. \<exists>c \<in> set (ai_conversation s). c_ID c = k \<and> old c) in
      case Exec (\<lambda>_. None) (\<lambda>_. drop_messages stale) s of
        (Inl err, s1) \<Rightarrow> (Inl (Wrapped ''delete old messages'' err), s1)
      | (Inr _, s1) \<Rightarrow>
         (case Exec (\<lambda>_. None) (\<lambda>_. drop_conversations old) s1 of
            (Inl err, s2) \<Rightarrow> (Inl (Wrapped ''delete old conversations'' err), s2)
          | (Inr _, s2) \<Rightarrow> (Inr (int (length (ai_message s)) - int (length (ai_message s1))), s2)))"

section \<open>The handlers\<close>

text \<open>\<^verbatim>\<open>strings.ReplaceAll\<close> of one byte\<close>

definition ReplaceAll :: "string \<Rightarrow> char \<Rightarrow> string \<Rightarrow> string" where
  "ReplaceAll s c new = concat (map (\<lambda>d. if d = c then new else [d]) s)"

definition firstLine :: "string \<Rightarrow> nat \<Rightarrow> string" where
  "firstLine s maxLen =
     (let s = TrimSpace (ReplaceAll (ReplaceAll s (CHR 0x0A) '' '') (CHR 0x0D) [])
      in if length s > maxLen then take maxLen s @ ''...'' else s)"

record chatRequest =
  ct_Message :: string
  ct_ConversationID :: string

definition chat_fields :: "chatRequest fields" where
  "chat_fields =
     [(''message'', string_field (\<lambda>v x. x\<lparr>ct_Message := v\<rparr>)),
      (''conversation_id'', string_field (\<lambda>v x. x\<lparr>ct_ConversationID := v\<rparr>))]"

text \<open>What a chat needs beside the request: the context, the model, the tools.\<close>

record 'w chat_deps =
  cd_ctx :: "nat \<Rightarrow> error option"
  cd_llm :: LLMAdapter
  cd_model :: "nat \<Rightarrow> Message list \<Rightarrow> StreamEvent list"
  cd_bundle :: "'w Bundle"
  cd_registry :: tool_registry

definition load_history :: "string \<Rightarrow> Store option \<Rightarrow> Message list \<times> Store option" where
  "load_history convID store =
     (case store of
        Some s \<Rightarrow>
          if convID \<noteq> [] then
            (case GetHistory convID 50 s of (r, s') \<Rightarrow>
               (map (\<lambda>m. zero_Message\<lparr>m_Role := h_Role m, m_Content := h_Content m\<rparr>) (or_empty r), Some s'))
          else ([], store)
      | None \<Rightarrow> ([], store))"

definition open_conversation :: "chatRequest \<Rightarrow> Store option \<Rightarrow> ('a, string \<times> Store option) go" where
  "open_conversation req store =
     (case store of
        Some s \<Rightarrow>
          if ct_ConversationID req = [] then do {
            made \<leftarrow> CreateConversation (firstLine (ct_Message req) 50) s;
            State_Monad.return (case made of (Inl _, s') \<Rightarrow> ([], Some s') | (Inr conv, s') \<Rightarrow> (c_ID conv, Some s')) }
          else State_Monad.return (ct_ConversationID req, store)
      | None \<Rightarrow> State_Monad.return (ct_ConversationID req, store))"

text \<open>\<^verbatim>\<open>fmt.Sprintf("%q", names)\<close> separates the elements of a slice by spaces.\<close>

definition tool_calls_text :: "(nat \<Rightarrow> bool) \<Rightarrow> string list \<Rightarrow> string" where
  "tool_calls_text is_print names =
     (if names = [] then ''null'' else CHR ''['' # Join (CHR '' '') (map (go_quote is_print) names) @ '']'')"

definition remember :: "string \<Rightarrow> string \<Rightarrow> string \<Rightarrow> string \<Rightarrow> Store option \<Rightarrow> Store option" where
  "remember convID role content toolCallsJSON store =
     (if convID \<noteq> [] then map_option (\<lambda>s. snd (AddMessage convID role content toolCallsJSON s)) store else store)"

text \<open>From the request to the last event: what both handlers do with a message.\<close>

definition hold_chat ::
  "'a world_scheme chat_deps \<Rightarrow> chatRequest \<Rightarrow> Store option \<Rightarrow> ('a, error option \<times> chat_event list \<times> Store option) go" where
  "hold_chat d req store = do {
     let (history, store) = load_history (ct_ConversationID req) store;
     (convID, store) \<leftarrow> open_conversation req store;
     let store = remember convID ''user'' (ct_Message req) [] store;
     (r, c) \<leftarrow> Run (cd_ctx d) (cd_llm d) (cd_model d) (cd_bundle d) (cd_registry d) SystemPrompt history (ct_Message req);
     is_print \<leftarrow> reads unicode_print;
     State_Monad.return
       (case r of
          Inl err \<Rightarrow> (Some err, cv_events c, store)
        | Inr result \<Rightarrow>
            (None,
             cv_events c @ (if convID \<noteq> [] then [Event ''conversation_id'' [(''id'', JString convID)]] else []),
             if rr_Content result \<noteq> []
             then remember convID ''assistant'' (rr_Content result) (tool_calls_text is_print (rr_ToolCalls result)) store
             else store)) }"

record chat_http = http_request +
  rq_Upgrade :: string
  rq_WebSocketKey :: string
  rq_Hijack :: "error option"
  rq_Flush :: bool

datatype chat_reply =
    Plain response
  | OverSSE "chat_event list"
  | OverWS "chat_event list"

text \<open>\<^verbatim>\<open>NewWSWriter\<close>: \<open>rq_Hijack\<close> is the error of taking over the connection, if any.\<close>

definition ws_upgrade :: "chat_http \<Rightarrow> error option" where
  "ws_upgrade r = (if rq_WebSocketKey r = [] then Some (Errorf ''missing Sec-WebSocket-Key header'') else rq_Hijack r)"

definition json_reply :: "int \<Rightarrow> payload \<Rightarrow> chat_reply" where
  "json_reply status v = Plain \<lparr>rs_Status = status, rs_Body = v\<rparr>"

definition handleChat ::
  "'a world_scheme chat_deps \<Rightarrow> chat_http \<Rightarrow> Store option \<Rightarrow> ('a, chat_reply \<times> Store option) go" where
  "handleChat d r store =
     (if rq_Method r \<noteq> ''POST''
      then State_Monad.return (json_reply 405 (Pairs [(''error'', ''method not allowed''), (''method'', rq_Method r)]), store)
      else case Decode chat_fields (rq_Body r) \<lparr>ct_Message = [], ct_ConversationID = []\<rparr> of
        None \<Rightarrow> State_Monad.return (json_reply 400 (Pairs [(''error'', ''invalid json body'')]), store)
      | Some req \<Rightarrow>
         if TrimSpace (ct_Message req) = []
         then State_Monad.return (json_reply 400 (Pairs [(''error'', ''message is required'')]), store)
         else
           let ws = bd_ToLower (cd_bundle d) (rq_Upgrade r) = ''websocket'';
               ready = (if ws then ws_upgrade r else if rq_Flush r then None else Some (Errorf ''streaming not supported'')) in
           case ready of
             Some err \<Rightarrow> State_Monad.return
               (if ws then json_reply 400 (Pairs [(''error'', ''websocket upgrade failed: '' @ error_text err)])
                else json_reply 500 (Pairs [(''error'', ''streaming not supported'')]), store)
           | None \<Rightarrow> do {
               (failure, evs, store) \<leftarrow> hold_chat d req store;
               let evs = (case failure of None \<Rightarrow> evs | Some err \<Rightarrow> evs @ [Failed err]);
               State_Monad.return (if ws then OverWS evs else OverSSE evs, store) })"

text \<open>The WebSocket variant reads its request from the first frame, \<open>input\<close> being what the client sends.\<close>

definition handleChatWS ::
  "'a world_scheme chat_deps \<Rightarrow> chat_http \<Rightarrow> string \<Rightarrow> Store option \<Rightarrow> ('a, chat_reply \<times> Store option) go" where
  "handleChatWS d r input store =
     (case ws_upgrade r of
        Some err \<Rightarrow> State_Monad.return (json_reply 400 (Pairs [(''error'', ''websocket upgrade failed: '' @ error_text err)]), store)
      | None \<Rightarrow>
         (case ReadJSON chat_fields input \<lparr>ct_Message = [], ct_ConversationID = []\<rparr> of
            Inl err \<Rightarrow> State_Monad.return (OverWS [Failed (Wrapped ''invalid message'' err)], store)
          | Inr req \<Rightarrow>
             if TrimSpace (ct_Message req) = []
             then State_Monad.return (OverWS [Failed (Errorf ''message is required'')], store)
             else do {
               (failure, evs, store) \<leftarrow> hold_chat d req store;
               State_Monad.return (OverWS evs, store) }))"

text \<open>The lists that the other two handlers answer with.\<close>

definition listConversations :: "Store option \<Rightarrow> (error + Conversation list) \<times> Store option" where
  "listConversations store =
     (case store of
        None \<Rightarrow> (Inr [], None)
      | Some s \<Rightarrow> (case ListConversations 20 s of (r, s') \<Rightarrow> (r, Some s')))"

definition getConversationMessages :: "string \<Rightarrow> Store option \<Rightarrow> (int \<times> string + ChatMessage list) \<times> Store option" where
  "getConversationMessages convID store =
     (case store of
        None \<Rightarrow> (Inr [], None)
      | Some s \<Rightarrow>
         if convID = [] then (Inl (400, ''conversation id is required''), store)
         else (case GetHistory convID 200 s of
                 (Inl err, s') \<Rightarrow> (Inl (500, error_text err), Some s')
               | (Inr ms, s') \<Rightarrow> (Inr ms, Some s')))"

section \<open>What is remembered\<close>

definition store_ok :: "Store \<Rightarrow> bool" where
  "store_ok s \<longleftrightarrow> sorted (map h_ID (ai_message s)) \<and> (\<forall>m \<in> set (ai_message s). h_ID m < db_next s)"

lemma messages_of_ok: "store_ok s \<Longrightarrow> messages_of k s = filter (\<lambda>m. h_ConversationID m = k) (ai_message s)"
  unfolding messages_of_def store_ok_def by (intro sort_key_id_if_sorted) (simp add: sorted_filter)

text \<open>The writes of an available database.\<close>

lemma Exec_ok: "db_fail s (db_calls s) = None \<Longrightarrow> refused s = None \<Longrightarrow>
    Exec refused change s = (Inr (), change (db_now s (db_calls s)) (s\<lparr>db_calls := Suc (db_calls s)\<rparr>))"
  by (simp add: Exec_def)

definition said :: "ChatMessage \<Rightarrow> string \<times> string" where
  "said m = (h_Role m, h_Content m)"

definition history_of :: "string \<Rightarrow> Store \<Rightarrow> (string \<times> string) list" where
  "history_of k s = map said (messages_of k s)"

text \<open>A message with a valid list of tool calls is appended, one with an invalid list is lost.\<close>

lemma AddMessage_effect:
  assumes "store_ok s" "\<forall>n. db_fail s n = None" "calls \<noteq> []"
  shows "store_ok (snd (AddMessage k role content calls s)) \<and> (\<forall>n. db_fail (snd (AddMessage k role content calls s)) n = None) \<and>
    (\<forall>j. history_of j (snd (AddMessage k role content calls s)) =
       history_of j s @ (if j = k \<and> parse_json calls \<noteq> None then [(role, content)] else []))"
proof (cases "parse_json calls")
  case None
  with assms show ?thesis by (simp add: AddMessage_def Exec_def store_ok_def history_of_def messages_of_def)
next
  case (Some v)
  have 1: "store_ok (snd (AddMessage k role content calls s))" "\<forall>n. db_fail (snd (AddMessage k role content calls s)) n = None"
    "\<exists>m. said m = (role, content) \<and> h_ConversationID m = k \<and>
       ai_message (snd (AddMessage k role content calls s)) = ai_message s @ [m]"
    using Some assms by (force simp: AddMessage_def Exec_def store_ok_def said_def sorted_append Let_def)+
  with Some show ?thesis by (auto simp: history_of_def messages_of_ok assms(1))
qed

lemma remember_effect:
  assumes "store_ok s" "\<forall>n. db_fail s n = None" "k \<noteq> []"
  shows "\<exists>s'. remember k role content calls (Some s) = Some s' \<and> store_ok s' \<and> (\<forall>n. db_fail s' n = None) \<and>
    (\<forall>j. history_of j s' = history_of j s @ (if j = k \<and> (calls = [] \<or> parse_json calls \<noteq> None) then [(role, content)] else []))"
proof -
  have n: "parse_json ''null'' \<noteq> None" using print_parse [of JNull] by simp
  define given where "given = (if calls = [] then ''null'' else calls)"
  have ok: "parse_json given \<noteq> None \<longleftrightarrow> calls = [] \<or> parse_json calls \<noteq> None" using n by (simp add: given_def)
  have "remember k role content calls (Some s) = Some (snd (AddMessage k role content given s))"
    using assms(3) by (simp add: remember_def AddMessage_def given_def)
  moreover have "given \<noteq> []" by (simp add: given_def)
  ultimately show ?thesis
    using AddMessage_effect [OF assms(1,2) \<open>given \<noteq> []\<close>, of k role content] unfolding ok by blast
qed

text \<open>Names of small letters and underscores are written alike by \<^verbatim>\<open>%q\<close> and by JSON.\<close>

definition simple_char :: "char \<Rightarrow> bool" where
  "simple_char c \<longleftrightarrow> 0x5F \<le> byte c \<and> byte c \<le> 0x7A"

lemma simple_quotes:
  assumes "list_all simple_char n"
  shows "go_quote p n = json_quote n" "valid_utf8 n"
proof -
  have "go_quote_body p n = n \<and> quote_body n = n \<and> valid_utf8 n" using assms
  proof (induction n)
    case (Cons c n)
    then have c: "utf8_len (c # n) = 1" "escape c = [c]" "rune_of [c] = byte c" "byte c < 0x80"
      by (auto simp: simple_char_def utf8_len_def escape_def html_safe_def)
    with Cons show ?case by (auto simp: escaped_rune_def simple_char_def valid_utf8.simps [of "c # n"])
  qed (simp add: valid_utf8.simps)
  then show "go_quote p n = json_quote n" "valid_utf8 n" by (simp_all add: go_quote_def json_quote_def)
qed

lemma tool_names_simple: "list_all simple_char (sc_Name (Definition t))"
  by (cases t) (simp_all add: simple_char_def byte_def)

lemma parse_quoted: "valid_utf8 n \<Longrightarrow> parse_value (Suc f) d (json_quote n @ r) = Some (JString n, r)"
  by (simp add: parse_value.simps(2) json_quote_def byte_def string_lit_quote_body del: string_lit.simps)

lemma two_names_refused:
  assumes "valid_utf8 a"
  shows "parse_json (CHR ''['' # json_quote a @ CHR '' '' # json_quote b @ r) = None"
proof -
  have "parse_elems f d (json_quote a @ CHR '' '' # json_quote b @ r) = None" for f d
  proof (cases f)
    case (Suc g)
    with assms show ?thesis
      by (cases g) (simp_all add: parse_elems.simps(2) parse_quoted json_quote_def [of b] json_space_def)
  qed simp
  then have "parse_value f max_nesting (CHR ''['' # json_quote a @ CHR '' '' # json_quote b @ r) = None" for f
    by (cases f) (simp_all add: parse_value.simps(2) byte_def json_quote_def [of a] json_space_def)
  then show ?thesis by (simp add: parse_json_def first_value_def json_space_def)
qed

lemma tool_calls_valid:
  assumes "\<forall>n \<in> set names. list_all simple_char n"
  shows "parse_json (tool_calls_text p names) \<noteq> None \<longleftrightarrow> length names \<le> 1"
proof (cases names)
  case Nil
  then show ?thesis using print_parse [of JNull] by (simp add: tool_calls_text_def)
next
  case (Cons a rest)
  show ?thesis
  proof (cases rest)
    case Nil
    with Cons assms print_parse [of "JArray [JString a]"] simple_quotes [of a] show ?thesis
      by (simp add: tool_calls_text_def max_nesting_def)
  next
    case (Cons b rest')
    with \<open>names = a # rest\<close> assms simple_quotes [of a] simple_quotes [of b] show ?thesis
      by (cases rest') (simp_all add: tool_calls_text_def two_names_refused)
  qed
qed

text \<open>Only tools of the registry are noted as called.\<close>

definition known_made :: "conversation \<Rightarrow> bool" where
  "known_made c \<longleftrightarrow> (\<forall>n \<in> set (cv_made c). list_all simple_char n)"

lemma call_tool_made:
  assumes "known_made c"
  shows "wp (call_tool b (NewToolRegistry AllTools) tc c) (\<lambda>c' _. known_made c') w"
proof -
  have "list_all simple_char n" if "find (\<lambda>t. sc_Name (Definition t) = n) AllTools = Some t" for n t
    using that tool_names_simple [of t] by (auto simp: find_Some_iff)
  then show ?thesis
    using assms
    by (simp add: call_tool_def Registry_Execute_def registered known_made_def Let_def wp_def split: option.split prod.split sum.split)
qed

lemma call_tools_made: "known_made c \<Longrightarrow> wp (call_tools b (NewToolRegistry AllTools) tcs c) (\<lambda>c' _. known_made c') w"
proof (induction tcs arbitrary: c w)
  case (Cons tc tcs)
  then show ?case by (simp, intro wp_mono [OF call_tool_made])
qed simp

lemma Run_made:
  "wp (Run ctx_err llm model b (NewToolRegistry AllTools) p h u)
     (\<lambda>(r, c) _. \<forall>res. r = Inr res \<longrightarrow> (\<forall>n \<in> set (rr_ToolCalls res). list_all simple_char n)) w"
proof (rule Run_wp, rule agent_loop_wp [where J = "\<lambda>_ c _. known_made c"])
  fix c t w
  assume "known_made c"
  then have "known_made (calling t c)" by (simp add: known_made_def)
  then show "wp (call_tools b (NewToolRegistry AllTools) (tn_calls t) (calling t c)) (\<lambda>c _. known_made c) w"
    by (rule call_tools_made)
qed (simp_all add: known_made_def started_def)

text \<open>
  C30. A message in an existing conversation is answered with the first fifty messages of that conversation as history,
  and is then stored as its next message; so is the answer, unless it is empty or more than one tool was called: the list
  of two tool names is not JSON, the database refuses it and the answer is lost. Other conversations stay as they are.
\<close>

theorem chat_remembered:
  assumes "store_ok s" "\<forall>n. db_fail s n = None" "ct_ConversationID req = k" "k \<noteq> []"
    and "cd_registry d = NewToolRegistry AllTools"
  shows "case run_state (hold_chat d req (Some s)) w of ((failure, evs, store), w') \<Rightarrow>
     \<exists>s'. store = Some s' \<and> store_ok s' \<and> (\<forall>j. j \<noteq> k \<longrightarrow> history_of j s' = history_of j s) \<and>
     (case run_state (Run (cd_ctx d) (cd_llm d) (cd_model d) (cd_bundle d) (NewToolRegistry AllTools) SystemPrompt
          (map (\<lambda>(r, t). zero_Message\<lparr>m_Role := r, m_Content := t\<rparr>) (take 50 (history_of k s))) (ct_Message req)) w of
        ((Inl err, c), _) \<Rightarrow> failure = Some err \<and> history_of k s' = history_of k s @ [(''user'', ct_Message req)]
      | ((Inr res, c), _) \<Rightarrow> failure = None \<and> history_of k s' = history_of k s @ (''user'', ct_Message req) #
          (if rr_Content res \<noteq> [] \<and> length (rr_ToolCalls res) \<le> 1 then [(''assistant'', rr_Content res)] else []))"
proof -
  define s0 where "s0 = s\<lparr>db_calls := Suc (db_calls s)\<rparr>"
  let ?h = "map (\<lambda>(r, t). zero_Message\<lparr>m_Role := r, m_Content := t\<rparr>) (take 50 (history_of k s))"
  have s0: "store_ok s0" "\<forall>n. db_fail s0 n = None" "\<And>j. history_of j s0 = history_of j s"
    using assms(1,2) by (simp_all add: s0_def store_ok_def history_of_def messages_of_def)
  have load: "load_history (ct_ConversationID req) (Some s) = (?h, Some s0)"
    using assms(2-4) by (simp add: load_history_def GetHistory_def Query_def wrap_error_def or_empty_def s0_def history_of_def
        said_def take_map split_beta comp_def)
  from remember_effect [OF s0(1,2) assms(4), of "''user''" "ct_Message req" "[]"]
  obtain s1 where s1: "remember k ''user'' (ct_Message req) [] (Some s0) = Some s1" "store_ok s1" "\<forall>n. db_fail s1 n = None"
    "\<forall>j. history_of j s1 = history_of j s @ (if j = k then [(''user'', ct_Message req)] else [])"
    unfolding s0(3) by auto
  obtain r c w1 where run: "run_state (Run (cd_ctx d) (cd_llm d) (cd_model d) (cd_bundle d) (NewToolRegistry AllTools)
      SystemPrompt ?h (ct_Message req)) w = ((r, c), w1)" by (metis prod.exhaust)
  have conv: "run_state (hold_chat d req (Some s)) w =
      (case r of
         Inl err \<Rightarrow> ((Some err, cv_events c, Some s1), w1)
       | Inr res \<Rightarrow> ((None, cv_events c @ [Event ''conversation_id'' [(''id'', JString k)]],
           if rr_Content res \<noteq> [] then remember k ''assistant'' (rr_Content res)
             (tool_calls_text (unicode_print w1) (rr_ToolCalls res)) (Some s1) else Some s1), w1))"
    using assms(3,4) load run s1(1) by (simp add: hold_chat_def open_conversation_def assms(5) Let_def split: sum.split)
  show ?thesis
  proof (cases r)
    case (Inl err)
    with conv run s1 show ?thesis by simp
  next
    case (Inr res)
    have "\<forall>n \<in> set (rr_ToolCalls res). list_all simple_char n"
      using Run_made [of "cd_ctx d" "cd_llm d" "cd_model d" "cd_bundle d" SystemPrompt ?h "ct_Message req" w] run Inr
      by (simp add: wp_def)
    note valid = tool_calls_valid [OF this]
    have ne: "tool_calls_text (unicode_print w1) (rr_ToolCalls res) \<noteq> []" by (simp add: tool_calls_text_def)
    from remember_effect [OF s1(2,3) assms(4), of "''assistant''" "rr_Content res"
        "tool_calls_text (unicode_print w1) (rr_ToolCalls res)"]
    show ?thesis using conv run Inr s1 ne valid by (cases "rr_Content res = []") auto
  qed
qed

definition sample_store :: Store where
  "sample_store = \<lparr>ai_conversation = [], ai_message = [], db_next = 1, db_fail = (\<lambda>_. None), db_now = (\<lambda>_. 0), db_calls = 0,
     db_rand = (\<lambda>_. replicate 16 CHR ''x''), db_drawn = 0\<rparr>"

definition sample_deps :: "stores chat_deps" where
  "sample_deps = \<lparr>cd_ctx = (\<lambda>_. None), cd_llm = sample_llm, cd_model = sample_model, cd_bundle = sample_bundle,
     cd_registry = NewToolRegistry AllTools\<rparr>"

theorem chat_remembered_witness:
  "case run_state (hold_chat sample_deps \<lparr>ct_Message = ''hello'', ct_ConversationID = ''c1''\<rparr> (Some sample_store)) sample of
     ((failure, evs, store), w') \<Rightarrow> \<exists>s'. store = Some s' \<and> history_of ''c2'' s' = []"
proof -
  have "store_ok sample_store" "\<forall>n. db_fail sample_store n = None" "history_of ''c2'' sample_store = []"
    "cd_registry sample_deps = NewToolRegistry AllTools"
    by (simp_all add: sample_store_def sample_deps_def store_ok_def history_of_def messages_of_def)
  note chat = chat_remembered [of sample_store "\<lparr>ct_Message = ''hello'', ct_ConversationID = ''c1''\<rparr>" "''c1''" sample_deps sample,
      OF this(1,2) _ _ this(4)] this(3)
  obtain f e st w' where "run_state (hold_chat sample_deps \<lparr>ct_Message = ''hello'', ct_ConversationID = ''c1''\<rparr>
      (Some sample_store)) sample = ((f, e, st), w')" by (metis prod.exhaust)
  with chat show ?thesis by auto
qed

end
