(* ===== verification/AIHandlers.thy ===== *)
theory AIHandlers
  imports Analyses Chat
begin

text \<open>
  \<^verbatim>\<open>internal/ai/handler.go\<close>: the endpoints of the AI service around the analyses. A response is its status and its value. What
  Redis holds for the two cached lists is an argument, none when it holds nothing that can be read; storing a list
  there changes nothing the process itself reads and is left out. The JSON text of the structs an analysis record keeps is
  an argument too, since it prints doubles.
\<close>

section \<open>Requests and values\<close>

record logAnalysisRequest =
  lq_Log :: string
  lq_ErrorCode :: string
  lq_TaskType :: string
  lq_RetryCount :: int
  lq_InstanceID :: int

definition log_request_fields :: "logAnalysisRequest fields" where
  "log_request_fields =
     [(''log'', string_field (\<lambda>v x. x\<lparr>lq_Log := v\<rparr>)), (''error_code'', string_field (\<lambda>v x. x\<lparr>lq_ErrorCode := v\<rparr>)),
      (''task_type'', string_field (\<lambda>v x. x\<lparr>lq_TaskType := v\<rparr>)), (''retry_count'', int_field (\<lambda>v x. x\<lparr>lq_RetryCount := v\<rparr>)),
      (''instance_id'', int_field (\<lambda>v x. x\<lparr>lq_InstanceID := v\<rparr>))]"

definition advisor_fields :: "AdviceContext fields" where
  "advisor_fields =
     [(''avg_worker_load'', float_field (\<lambda>v x. x\<lparr>ac_AvgWorkerLoad := v\<rparr>)), (''total_workers'', int_field (\<lambda>v x. x\<lparr>ac_TotalWorkers := v\<rparr>)),
      (''online_workers'', int_field (\<lambda>v x. x\<lparr>ac_OnlineWorkers := v\<rparr>)),
      (''pending_instances'', int_field (\<lambda>v x. x\<lparr>ac_PendingInstances := v\<rparr>)),
      (''failed_last_hour'', int_field (\<lambda>v x. x\<lparr>ac_FailedLastHour := v\<rparr>)),
      (''avg_dispatch_latency_ms'', float_field (\<lambda>v x. x\<lparr>ac_AvgDispatchLatencyMs := v\<rparr>)),
      (''max_pending_config'', int_field (\<lambda>v x. x\<lparr>ac_MaxPendingConfig := v\<rparr>))]"

datatype ai_value =
    LogInput logAnalysisRequest | LogOutput AnalysisResponse
  | AdviceInput AdviceContext | AdviceOutput "Advice list"
  | PredictInput int | PredictOutput PredictResponse | NoPrediction DurationStats
  | TrendInput int | TrendOutput TrendResponse
  | ParseInput string | ParseOutput TaskParseResponse
  | NextRunOutput NextRunResponse | AdvicesFor "Advice list" AdviceContext
  | ServiceStatus bool string string bool int int string
  | Messages "(string \<times> string) list"

type_synonym ai_reply = "int \<times> ai_value"

abbreviation ai_error :: "int \<Rightarrow> string \<Rightarrow> ai_reply" where
  "ai_error status msg \<equiv> (status, Messages [(''error'', msg)])"

definition ai_not_allowed :: "string \<Rightarrow> ai_reply" where
  "ai_not_allowed meth = (405, Messages [(''error'', ''method not allowed''), (''method'', meth)])"

record 'w ai_deps =
  ai_net :: network
  ai_repos :: "'w Bundle option"
  ai_CreateRecord :: "(AIAnalysisRecord \<Rightarrow> ('w, error + AIAnalysisRecord) state) option"
  ai_WorkerLoad :: bool
  ai_cached_tasks :: "Task list option"
  ai_cached_workers :: "WorkerNode list option"
  ai_marshal :: "ai_value \<Rightarrow> string"

type_synonym 'a ai_handler = "http_request \<Rightarrow> ('a, ai_reply \<times> LLMAdapter) go"

section \<open>Parts\<close>

definition cacheListTasks :: "'a world_scheme ai_deps \<Rightarrow> 'a world_scheme Bundle \<Rightarrow> ('a, error + Task list) go" where
  "cacheListTasks d b = (case ai_cached_tasks d of Some ts \<Rightarrow> ret ts | None \<Rightarrow> ListTasks (bd_Task b))"

definition cacheListWorkers :: "'a world_scheme ai_deps \<Rightarrow> 'a world_scheme Bundle \<Rightarrow> ('a, error + WorkerNode list) go" where
  "cacheListWorkers d b = (case ai_cached_workers d of Some ws \<Rightarrow> ret ws | None \<Rightarrow> ListWorkers (bd_Worker b))"

definition persistAIRecord :: "'a world_scheme ai_deps \<Rightarrow> string \<Rightarrow> ai_value \<Rightarrow> ai_value \<Rightarrow> rat \<Rightarrow> ('a, unit) go" where
  "persistAIRecord d kind input output conf =
     (case ai_CreateRecord d of
        None \<Rightarrow> State_Monad.return ()
      | Some create \<Rightarrow> do {
          _ \<leftarrow> create \<lparr>a_ID = 0, a_InstanceID = 0, a_AnalysisType = kind, a_InputJSON = ai_marshal d input,
            a_OutputJSON = ai_marshal d output, a_Confidence = conf, a_CreatedAt = zero_time\<rparr>;
          State_Monad.return () })"

text \<open>How every analysis ends: it is counted, and its result stored and returned.\<close>

definition conclude ::
  "'a world_scheme ai_deps \<Rightarrow> string \<Rightarrow> int \<Rightarrow> string \<Rightarrow> ai_value \<Rightarrow> ('b \<Rightarrow> ai_value) \<Rightarrow> ('b \<Rightarrow> rat) \<Rightarrow> ('b \<Rightarrow> ai_value) \<Rightarrow>
     (error + 'b) \<times> LLMAdapter \<Rightarrow> ('a, ai_reply \<times> LLMAdapter) go" where
  "conclude d endpoint failed kind input output conf body = (\<lambda>(r, llm).
     case r of
       Inl err \<Rightarrow> do {
         inc_counter ''ai_requests_total'' [(''endpoint'', endpoint), (''result'', ''error'')];
         State_Monad.return (ai_error failed (error_text err), llm) }
     | Inr x \<Rightarrow> do {
         inc_counter ''ai_requests_total'' [(''endpoint'', endpoint), (''result'', ''ok'')];
         persistAIRecord d kind input (output x) (conf x);
         State_Monad.return ((200, body x), llm) })"

section \<open>Handlers\<close>

definition ai_status_handler :: "LLMAdapter \<Rightarrow> 'a ai_handler" where
  "ai_status_handler llm r = do {
     now \<leftarrow> time_now;
     let llmEnabled = Enabled llm;
     let usage = TokenUsage llm;
     State_Monad.return ((200, ServiceStatus llmEnabled (if llmEnabled then Model_name llm else []) (if llmEnabled then Endpoint llm else [])
       (HasAPIKey llm) (fst usage) (snd usage) (FormatRFC3339 (\<lambda>_. 0) now)), llm) }"

text \<open>A decoded \<^verbatim>\<open>cronNextRequest\<close>, its base time with the location it was written in.\<close>

record cronNextRequest =
  cn_Expression :: string
  cn_BaseTime :: time
  cn_Location :: location

definition cronNext :: "LLMAdapter \<Rightarrow> cronNextRequest option \<Rightarrow> 'a ai_handler" where
  "cronNext llm body r =
     (if rq_Method r \<noteq> ''POST'' then State_Monad.return (ai_not_allowed (rq_Method r), llm)
      else case body of
        None \<Rightarrow> State_Monad.return (ai_error 400 ''invalid json body'', llm)
      | Some req \<Rightarrow> do {
          response \<leftarrow> NextRun (cn_Expression req) (cn_BaseTime req) (cn_Location req);
          case response of
            Inl err \<Rightarrow> do {
              inc_counter ''ai_requests_total'' [(''endpoint'', ''cron_next''), (''result'', ''error'')];
              State_Monad.return (ai_error 400 (error_text err), llm) }
          | Inr x \<Rightarrow> do {
              inc_counter ''ai_requests_total'' [(''endpoint'', ''cron_next''), (''result'', ''ok'')];
              State_Monad.return ((200, NextRunOutput x), llm) } })"

text \<open>What an instance adds to a request for the analysis of its log.\<close>

definition enrich :: "TaskInstance \<Rightarrow> Task option \<Rightarrow> logAnalysisRequest \<Rightarrow> logAnalysisRequest" where
  "enrich inst task req =
     (let req = (case task of
            Some t \<Rightarrow> req\<lparr>lq_Log := lines_of
              [''[Task: '' @ t_Name t @ '' | Type: '' @ t_Type t @ '' | Timeout: '' @ itoa (t_TimeoutSeconds t) @ ''s | MaxRetry: '' @
                 itoa (t_MaxRetry t) @ '' | RetryPolicy: '' @ t_RetryPolicy t @ '']'',
               ''[Instance ID: '' @ itoa (i_ID inst) @ '' | RetryCount: '' @ itoa (i_RetryCount inst) @ '' | ErrorCode: '' @
                 i_ErrorCode inst @ '' | Status: '' @ i_Status inst @ '']'',
               lq_Log req]\<rparr>
          | None \<Rightarrow> req);
          req = (if lq_ErrorCode req = [] then req\<lparr>lq_ErrorCode := i_ErrorCode inst\<rparr> else req);
          req = (case task of Some t \<Rightarrow> if lq_TaskType req = [] then req\<lparr>lq_TaskType := t_Type t\<rparr> else req | None \<Rightarrow> req)
      in req\<lparr>lq_RetryCount := i_RetryCount inst\<rparr>)"

definition analyzeLog :: "'a world_scheme ai_deps \<Rightarrow> LLMAdapter \<Rightarrow> 'a ai_handler" where
  "analyzeLog d llm r =
     (if rq_Method r \<noteq> ''POST'' then State_Monad.return (ai_not_allowed (rq_Method r), llm)
      else case Decode log_request_fields (rq_Body r)
          \<lparr>lq_Log = [], lq_ErrorCode = [], lq_TaskType = [], lq_RetryCount = 0, lq_InstanceID = 0\<rparr> of
        None \<Rightarrow> State_Monad.return (ai_error 400 ''invalid json body'', llm)
      | Some req \<Rightarrow> do {
          req \<leftarrow> (case ai_repos d of
            Some b \<Rightarrow>
              if lq_InstanceID req > 0 then do {
                found \<leftarrow> GetInstance (bd_TaskInstance b) (lq_InstanceID req);
                case found of
                  Inl _ \<Rightarrow> State_Monad.return req
                | Inr inst \<Rightarrow> do {
                    task \<leftarrow> GetTask (bd_Task b) (i_TaskID inst);
                    State_Monad.return (enrich inst (case task of Inl _ \<Rightarrow> None | Inr t \<Rightarrow> Some t) req) } }
              else State_Monad.return req
          | None \<Rightarrow> State_Monad.return req);
          conclude d ''log_analysis'' 400 ''log_analysis'' (LogInput req) LogOutput an_Confidence LogOutput
            (Log_AnalyzeWithLLM (ai_net d) llm (lq_Log req) (lq_ErrorCode req) (lq_TaskType req) (lq_RetryCount req)) })"

definition max_confidence :: "Advice list \<Rightarrow> rat" where
  "max_confidence as = foldl (\<lambda>m a. if ad_Confidence a > m then ad_Confidence a else m) 0 as"

definition generateAdvice :: "'a world_scheme ai_deps \<Rightarrow> LLMAdapter \<Rightarrow> 'a ai_handler" where
  "generateAdvice d llm r =
     (case Decode advisor_fields (rq_Body r) \<lparr>ac_AvgWorkerLoad = 0, ac_TotalWorkers = 0, ac_OnlineWorkers = 0,
          ac_PendingInstances = 0, ac_FailedLastHour = 0, ac_AvgDispatchLatencyMs = 0, ac_MaxPendingConfig = 0\<rparr> of
        None \<Rightarrow> State_Monad.return (ai_error 400 ''invalid json body'', llm)
      | Some req \<Rightarrow>
          conclude d ''advisor'' 500 ''schedule_advice'' (AdviceInput req) AdviceOutput max_confidence AdviceOutput
            (Generate (ai_net d) llm req))"

text \<open>The figures of \<^verbatim>\<open>autoAdvice\<close>; \<open>cutoff\<close> is an hour before the third reading of the clock.\<close>

definition latencies :: "TaskInstance list \<Rightarrow> int list" where
  "latencies insts = filter (\<lambda>lat. lat > 0) (map (\<lambda>i. go_div (Sub (i_UpdatedAt i) (i_DispatchTime i)) 1000000)
     (filter (\<lambda>i. i_Status i = ''success'' \<and> i_DispatchTime i \<noteq> zero_time) insts))"

definition advice_context :: "time \<Rightarrow> WorkerNode list \<Rightarrow> Task list \<Rightarrow> TaskInstance list \<Rightarrow> AdviceContext" where
  "advice_context cutoff ws tasks insts =
     \<lparr>ac_AvgWorkerLoad = avg_online_load ws, ac_TotalWorkers = int (length ws), ac_OnlineWorkers = online_workers ws,
      ac_PendingInstances = count_status [''pending'', ''dispatched''] insts,
      ac_FailedLastHour = count_status [''failed''] (filter (\<lambda>i. cutoff < i_CreatedAt i) insts),
      ac_AvgDispatchLatencyMs =
        (let ls = latencies insts in
         if length ls > 0 then fl64 (foldl (\<lambda>s l. fl64 (s + fl64 (of_int l))) 0 ls / fl64 (of_nat (length ls))) else 0),
      ac_MaxPendingConfig = foldl (\<lambda>m t. if t_TimeoutSeconds t > m then t_TimeoutSeconds t else m) 0 tasks\<rparr>"

text \<open>The three lists an analysis starts from, or the error that is answered.\<close>

definition gather ::
  "'a world_scheme ai_deps \<Rightarrow> 'a world_scheme Bundle \<Rightarrow> (time \<Rightarrow> time) \<Rightarrow>
     ('a, error + time \<times> WorkerNode list \<times> Task list \<times> TaskInstance list) go" where
  "gather d b since = do {
     ws \<leftarrow> cacheListWorkers d b;
     case ws of
       Inl err \<Rightarrow> raise (Errorf (''list workers: '' @ error_text err))
     | Inr ws \<Rightarrow> do {
         tasks \<leftarrow> cacheListTasks d b;
         case tasks of
           Inl err \<Rightarrow> raise (Errorf (''list tasks: '' @ error_text err))
         | Inr tasks \<Rightarrow> do {
             now \<leftarrow> time_now;
             till \<leftarrow> time_now;
             insts \<leftarrow> ListInstancesByTimeRange (bd_TaskInstance b) (since now) till 0 0;
             case insts of
               Inl err \<Rightarrow> raise (Errorf (''list instances: '' @ error_text err))
             | Inr insts \<Rightarrow> ret (since now, ws, tasks, insts) } } }"

definition autoAdvice :: "'a world_scheme ai_deps \<Rightarrow> LLMAdapter \<Rightarrow> 'a ai_handler" where
  "autoAdvice d llm r =
     (case ai_repos d of
        None \<Rightarrow> State_Monad.return (ai_error 500 ''repositories not available'', llm)
      | Some b \<Rightarrow> do {
          gathered \<leftarrow> gather d b (\<lambda>now. now - hour);
          case gathered of
            Inl err \<Rightarrow> State_Monad.return (ai_error 500 (error_text err), llm)
          | Inr (_, ws, tasks, insts) \<Rightarrow> do {
              now \<leftarrow> time_now;
              let ctx = advice_context (now - hour) ws tasks insts;
              conclude d ''auto_advisor'' 500 ''auto_advice'' (AdviceInput ctx) AdviceOutput max_confidence (\<lambda>as. AdvicesFor as ctx)
                (Generate (ai_net d) llm ctx) } })"

definition predictDuration :: "'a world_scheme ai_deps \<Rightarrow> LLMAdapter \<Rightarrow> 'a ai_handler" where
  "predictDuration d llm r =
     (case Decode [(''task_id'', int_field (\<lambda>v _. v))] (rq_Body r) 0 of
        None \<Rightarrow> State_Monad.return (ai_error 400 ''invalid json body'', llm)
      | Some taskID \<Rightarrow>
         if taskID \<le> 0 then State_Monad.return (ai_error 400 ''task_id is required'', llm)
         else case ai_repos d of
           None \<Rightarrow> State_Monad.return (ai_error 500 ''repositories not available'', llm)
         | Some b \<Rightarrow> do {
             found \<leftarrow> GetTask (bd_Task b) taskID;
             case found of
               Inl err \<Rightarrow> State_Monad.return (ai_error 404 (''task not found: '' @ error_text err), llm)
             | Inr task \<Rightarrow> do {
                 listed \<leftarrow> ListInstancesByTaskID (bd_TaskInstance b) taskID;
                 case listed of
                   Inl err \<Rightarrow> do {
                     inc_counter ''ai_requests_total'' [(''endpoint'', ''predict_duration''), (''result'', ''error'')];
                     State_Monad.return (ai_error 500 (error_text err), llm) }
                 | Inr insts \<Rightarrow>
                     let stats = ComputeStats insts in
                     if ds_Count stats = 0 then State_Monad.return ((200, NoPrediction stats), llm)
                     else conclude d ''predict_duration'' 400 ''predict_duration'' (PredictInput taskID) PredictOutput pr_Confidence
                       PredictOutput (PredictWithLLM (ai_net d) llm task stats) } })"

text \<open>The samples of the load table, newest first, added to a snapshot.\<close>

definition with_history :: "WorkerLoadSnapshot list \<Rightarrow> DataSnapshot \<Rightarrow> DataSnapshot" where
  "with_history samples s =
     (if length samples > 0 then
        let ratio = (\<lambda>x. if l_MaxConcurrency x > 0 then load_ratio (l_CurrentLoad x) (l_MaxConcurrency x) else 0);
            diff = fl64 (ratio (samples ! 0) - ratio (samples ! (length samples - 1)))
        in s\<lparr>sn_TotalLoadSamples := int (length samples),
             sn_AvgLoadOverWindow := fl64 (sum_ratios (map (\<lambda>x. (l_CurrentLoad x, l_MaxConcurrency x)) samples) /
               fl64 (of_nat (length samples))),
             sn_LoadDirection := (if diff > fl64 (5 / 100) then ''increasing'' else if diff < - fl64 (5 / 100) then ''decreasing''
               else ''stable'')\<rparr>
      else s)"

definition analyzeTrend :: "'a world_scheme ai_deps \<Rightarrow> LLMAdapter \<Rightarrow> 'a ai_handler" where
  "analyzeTrend d llm r =
     (case Decode [(''time_window_hours'', int_field (\<lambda>v _. v))] (rq_Body r) 0 of
        None \<Rightarrow> State_Monad.return (ai_error 400 ''invalid json body'', llm)
      | Some given \<Rightarrow>
         let window = (if given \<le> 0 then 24 else given) in
         case ai_repos d of
           None \<Rightarrow> State_Monad.return (ai_error 500 ''repositories not available'', llm)
         | Some b \<Rightarrow> do {
             gathered \<leftarrow> gather d b (\<lambda>now. hours_ago now window);
             case gathered of
               Inl err \<Rightarrow> State_Monad.return (ai_error 500 (error_text err), llm)
             | Inr (windowFrom, ws, tasks, insts) \<Rightarrow> do {
                 now \<leftarrow> time_now;
                 let snapshot = ComputeSnapshot now ws tasks insts window;
                 snapshot \<leftarrow> (if ai_WorkerLoad d then do {
                     till \<leftarrow> time_now;
                     samples \<leftarrow> bd_ListSnapshots b [] windowFrom till 0;
                     State_Monad.return (case samples of Inl _ \<Rightarrow> snapshot | Inr xs \<Rightarrow> with_history xs snapshot) }
                   else State_Monad.return snapshot);
                 conclude d ''trend_analysis'' 400 ''trend_analysis'' (TrendInput window) TrendOutput (\<lambda>_. 0) TrendOutput
                   (Trend_AnalyzeWithLLM (ai_net d) llm snapshot) } })"

definition parseTaskNatural :: "'a world_scheme ai_deps \<Rightarrow> LLMAdapter \<Rightarrow> 'a ai_handler" where
  "parseTaskNatural d llm r =
     (if rq_Method r \<noteq> ''POST'' then State_Monad.return (ai_not_allowed (rq_Method r), llm)
      else case Decode [(''input'', string_field (\<lambda>v _. v))] (rq_Body r) [] of
        None \<Rightarrow> State_Monad.return (ai_error 400 ''invalid json body'', llm)
      | Some input \<Rightarrow>
         if input = [] then State_Monad.return (ai_error 400 ''input is required'', llm)
         else do {
           parsed \<leftarrow> ParseNaturalLanguage (ai_net d) llm input;
           conclude d ''task_parse'' 400 ''task_parse'' (ParseInput input) ParseOutput tp_Confidence ParseOutput parsed })"

section \<open>The router\<close>

datatype ai_route =
    ai_healthz | ai_service_status | ai_cron "cronNextRequest option" | ai_log | ai_advise | ai_auto | ai_parse | ai_duration
  | ai_trends

definition llm_guarded :: "ai_route \<Rightarrow> bool" where
  "llm_guarded e \<longleftrightarrow> e \<in> {ai_log, ai_advise, ai_auto, ai_parse, ai_duration, ai_trends}"

primrec ai_route_handler :: "'a world_scheme ai_deps \<Rightarrow> LLMAdapter \<Rightarrow> ai_route \<Rightarrow> 'a ai_handler" where
  "ai_route_handler d llm ai_healthz = (\<lambda>_. State_Monad.return ((200, Messages [(''status'', ''ok'')]), llm))"
| "ai_route_handler d llm ai_service_status = ai_status_handler llm"
| "ai_route_handler d llm (ai_cron body) = cronNext llm body"
| "ai_route_handler d llm ai_log = analyzeLog d llm"
| "ai_route_handler d llm ai_advise = generateAdvice d llm"
| "ai_route_handler d llm ai_auto = autoAdvice d llm"
| "ai_route_handler d llm ai_parse = parseTaskNatural d llm"
| "ai_route_handler d llm ai_duration = predictDuration d llm"
| "ai_route_handler d llm ai_trends = analyzeTrend d llm"

text \<open>The bucket of the guard, made when the router is.\<close>

definition llm_limiter :: "time \<Rightarrow> int \<Rightarrow> TokenBucket option" where
  "llm_limiter now rateLimitRPM =
     (if rateLimitRPM > 0 then Some (NewTokenBucket now (go_div rateLimitRPM 60) rateLimitRPM) else None)"

definition llmGuard ::
  "TokenBucket option \<Rightarrow> LLMAdapter \<Rightarrow> ('a, ai_reply \<times> LLMAdapter) go \<Rightarrow> ('a, (ai_reply \<times> LLMAdapter) \<times> TokenBucket option) go" where
  "llmGuard rl llm handler =
     (case rl of
        None \<Rightarrow> do { x \<leftarrow> handler; State_Monad.return (x, None) }
      | Some tb \<Rightarrow> do {
          now \<leftarrow> time_now;
          let (allowed, tb) = Allow now tb;
          if \<not> allowed then State_Monad.return ((ai_error 429 ''rate limit exceeded, try again later'', llm), Some tb)
          else do { x \<leftarrow> handler; State_Monad.return (x, Some tb) } })"

text \<open>A request that matched a registration, with the counting around the router.\<close>

definition serve_ai ::
  "'a world_scheme ai_deps \<Rightarrow> TokenBucket option \<Rightarrow> LLMAdapter \<Rightarrow> ai_route \<Rightarrow> http_request \<Rightarrow>
     ('a, (ai_reply \<times> LLMAdapter) \<times> TokenBucket option) go" where
  "serve_ai d rl llm e r = do {
     ((reply, llm), rl) \<leftarrow> (if llm_guarded e then llmGuard rl llm (ai_route_handler d llm e r)
       else do { x \<leftarrow> ai_route_handler d llm e r; State_Monad.return (x, rl) });
     inc_counter ''http_requests_total'' [(''service'', ''ai-service''), (''method'', rq_Method r), (''path'', rq_Path r),
       (''status'', itoa (fst reply))];
     State_Monad.return ((reply, llm), rl) }"

section \<open>Correctness\<close>

text \<open>
  A limit of fewer than 60 requests per minute does not limit: dividing it by 60 gives a rate of 0, for which the
  bucket takes its default of 1000 tokens per second.
\<close>

theorem low_limit_ignored:
  assumes "0 < rateLimitRPM" "rateLimitRPM < 60"
  shows "map_option tb_rate (llm_limiter now rateLimitRPM) = Some (float64 1000)"
  using assms by (simp add: llm_limiter_def NewTokenBucket_def Let_def)

theorem low_limit_ignored_witness: "map_option tb_rate (llm_limiter 0 30) = Some (float64 1000)"
  by (rule low_limit_ignored) simp_all

context repositories
begin

lemma quiet_case_prod: "(\<And>a b. quiet (f a b)) \<Longrightarrow> quiet (case x of (a, b) \<Rightarrow> f a b)"
  by (cases x) simp

lemma quiet_conclude:
  assumes "\<forall>create. ai_CreateRecord d = Some create \<longrightarrow> (\<forall>rec. quiet (create rec))"
  shows "quiet (conclude d endpoint failed kind input output conf body rl)"
  by (auto simp: conclude_def persistAIRecord_def split: prod.split sum.split option.split intro!: quiet_intros assms [rule_format])

lemma quiet_gather: "quiet (gather d (tools_on snaps lower) since)"
  by (auto simp: gather_def cacheListWorkers_def cacheListTasks_def
      split: sum.split option.split intro!: quiet_intros quiet_time_range)

lemma quiet_ai_route:
  assumes "\<And>s f t n. quiet (snaps s f t n)" "ai_repos d = Some (tools_on snaps lower)"
    and "\<forall>create. ai_CreateRecord d = Some create \<longrightarrow> (\<forall>rec. quiet (create rec))"
  shows "quiet (ai_route_handler d llm e r)"
  by (cases e)
    (auto simp: ai_status_handler_def cronNext_def NextRun_def analyzeLog_def generateAdvice_def autoAdvice_def parseTaskNatural_def
      ParseNaturalLanguage_def predictDuration_def analyzeTrend_def Let_def assms(2)
      split: option.split sum.split prod.split
      intro!: quiet_intros quiet_gather quiet_conclude assms(1,3))

lemma quiet_serve_ai:
  assumes "\<And>s f t n. quiet (snaps s f t n)" "ai_repos d = Some (tools_on snaps lower)"
    and "\<forall>create. ai_CreateRecord d = Some create \<longrightarrow> (\<forall>rec. quiet (create rec))"
  shows "quiet (serve_ai d rl llm e r)"
  unfolding serve_ai_def llmGuard_def
  by (auto split: option.split prod.split intro!: quiet_intros quiet_ai_route [where snaps = snaps, OF assms])

end

lemma CreateRecord_quiet: "ts.quiet (as_CreateRecord rec)"
  unfolding ts.quiet_def
  by (simp add: as_CreateRecord_def test_view_def stores_ok_def Let_def)



end
