(* ===== verification/Redis.thy ===== *)
theory Redis
  imports GoFloat World
begin

text \<open>
  \<^verbatim>\<open>internal/pkg/xredis/redis.go\<close>: what the scheduler keeps in Redis. The server is an argument, \<open>exec\<close>, from a command and the state
  of the server to the reply and the next state; of what the server does the locale \<open>redis_server\<close> states what the
  commands used here are documented to do, over the values the keys hold at the moment, while the server can be
  reached. Scores travel as decimal numbers that read back as the same double, so they are kept as numbers.
\<close>

section \<open>Commands\<close>

datatype redis_cmd =
    Del string
  | SAdd string "string list"
  | SMembers string
  | ZAdd string "(string \<times> rat) list"
  | ZRangeByScore string string string
  | HSet string "(string \<times> string) list"
  | HIncrBy string string int
  | HGet string string
  | HGetAll string
  | Expire string duration
  | SetNX string string duration
  | Eval string "string list" "string list"

datatype redis_reply = Missing | Number int | Flag bool | Bulk string | Arr "string list" | Pairs "(string \<times> string) list"

type_synonym 'r redis_exec = "redis_cmd \<Rightarrow> 'r \<Rightarrow> (error + redis_reply) \<times> 'r"

text \<open>A pipeline runs all its commands; its error is the first of theirs.\<close>

fun pipe_Exec :: "'r redis_exec \<Rightarrow> redis_cmd list \<Rightarrow> 'r \<Rightarrow> error option \<times> 'r" where
  "pipe_Exec exec [] r = (None, r)"
| "pipe_Exec exec (c # cs) r =
     (case exec c r of (a, r1) \<Rightarrow> (case pipe_Exec exec cs r1 of (e, r2) \<Rightarrow>
        ((case a of Inl err \<Rightarrow> Some err | Inr _ \<Rightarrow> e), r2)))"

text \<open>The results of go-redis; a missing value is the error \<^verbatim>\<open>redis.Nil\<close>.\<close>

definition unexpected :: error where
  "unexpected = Errorf ''redis: unexpected reply''"

definition string_result :: "error + redis_reply \<Rightarrow> error + string" where
  "string_result a = (case a of Inl err \<Rightarrow> Inl err | Inr (Bulk s) \<Rightarrow> Inr s | Inr Missing \<Rightarrow> Inl (Errorf ''redis: nil'') | _ \<Rightarrow> Inl unexpected)"

definition int_result :: "error + redis_reply \<Rightarrow> error + int" where
  "int_result a = (case a of Inl err \<Rightarrow> Inl err | Inr (Number n) \<Rightarrow> Inr n | _ \<Rightarrow> Inl unexpected)"

definition slice_result :: "error + redis_reply \<Rightarrow> error + string list" where
  "slice_result a = (case a of Inl err \<Rightarrow> Inl err | Inr (Arr xs) \<Rightarrow> Inr xs | _ \<Rightarrow> Inl unexpected)"

definition map_result :: "error + redis_reply \<Rightarrow> error + (string, string) gomap" where
  "map_result a = (case a of Inl err \<Rightarrow> Inl err | Inr (Pairs xs) \<Rightarrow> Inr xs | _ \<Rightarrow> Inl unexpected)"

definition bool_result :: "error + redis_reply \<Rightarrow> error + bool" where
  "bool_result a = (case a of Inl err \<Rightarrow> Inl err | Inr (Flag b) \<Rightarrow> Inr b | _ \<Rightarrow> Inl unexpected)"

text \<open>\<^verbatim>\<open>fmt.Sscanf(s, "%d", &v)\<close>: blanks, a sign, as many digits as there are.\<close>

definition Sscanf_d :: "string \<Rightarrow> int option" where
  "Sscanf_d s =
     (let s = dropWhile (\<lambda>c. ascii_space c \<and> c \<noteq> CHR 0x0A) s;
          sign = takeWhile (\<lambda>c. c = CHR ''-'' \<or> c = CHR ''+'') (take 1 s)
      in Atoi (sign @ takeWhile is_digit (drop (length sign) s)))"

section \<open>Due tasks\<close>

definition taskDueSetKey :: string where
  "taskDueSetKey = ''scheduler:due:tasks''"

definition taskDueZSetKey :: string where
  "taskDueZSetKey = ''scheduler:due:zset''"

definition due_commands :: "int list \<Rightarrow> (int, rat) gomap \<Rightarrow> redis_cmd list" where
  "due_commands taskIDs scores =
     [Del taskDueSetKey, Del taskDueZSetKey] @
     (if taskIDs = [] then [] else
        SAdd taskDueSetKey (map itoa taskIDs) #
        (if scores = [] then [] else [ZAdd taskDueZSetKey (map (\<lambda>(k, score). (itoa k, score)) scores)])) @
     [Expire taskDueSetKey (5 * minute), Expire taskDueZSetKey (5 * minute)]"

definition WarmDueTasks :: "'r redis_exec \<Rightarrow> int list \<Rightarrow> (int, rat) gomap \<Rightarrow> 'r \<Rightarrow> error option \<times> 'r" where
  "WarmDueTasks exec taskIDs scores r = pipe_Exec exec (due_commands taskIDs scores) r"

definition GetDueTaskIDs :: "'r redis_exec \<Rightarrow> rat \<Rightarrow> 'r \<Rightarrow> (error + int list) \<times> 'r" where
  "GetDueTaskIDs exec cutoff r =
     (case exec (ZRangeByScore taskDueZSetKey ''0'' (itoa (round_even cutoff))) r of (a, r') \<Rightarrow>
        ((case slice_result a of Inl err \<Rightarrow> Inl err | Inr ids \<Rightarrow> Inr (List.map_filter Sscanf_d ids)), r'))"

section \<open>Workers\<close>

definition workerOnlineSetKey :: string where
  "workerOnlineSetKey = ''scheduler:workers:online''"

definition workerInfoPrefix :: string where
  "workerInfoPrefix = ''scheduler:worker:''"

definition worker_commands :: "string list \<Rightarrow> (string, (string, string) gomap) gomap \<Rightarrow> redis_cmd list" where
  "worker_commands workerIDs workerData =
     [Del workerOnlineSetKey] @ map (\<lambda>wid. SAdd workerOnlineSetKey [wid]) workerIDs @
     (if workerIDs = [] then [] else [Expire workerOnlineSetKey (2 * minute)]) @
     concat (map (\<lambda>(wid, data). [HSet (workerInfoPrefix @ wid) data, Expire (workerInfoPrefix @ wid) (2 * minute)]) workerData)"

definition WarmWorkerCache :: "'r redis_exec \<Rightarrow> string list \<Rightarrow> (string, (string, string) gomap) gomap \<Rightarrow> 'r \<Rightarrow> error option \<times> 'r" where
  "WarmWorkerCache exec workerIDs workerData r = pipe_Exec exec (worker_commands workerIDs workerData) r"

definition GetCachedOnlineWorkers :: "'r redis_exec \<Rightarrow> 'r \<Rightarrow> (error + string list) \<times> 'r" where
  "GetCachedOnlineWorkers exec r = (case exec (SMembers workerOnlineSetKey) r of (a, r') \<Rightarrow> (slice_result a, r'))"

definition GetCachedWorkerInfo :: "'r redis_exec \<Rightarrow> string \<Rightarrow> 'r \<Rightarrow> (error + (string, string) gomap) \<times> 'r" where
  "GetCachedWorkerInfo exec workerID r = (case exec (HGetAll (workerInfoPrefix @ workerID)) r of (a, r') \<Rightarrow> (map_result a, r'))"

definition GetCachedWorkerField :: "'r redis_exec \<Rightarrow> string \<Rightarrow> string \<Rightarrow> 'r \<Rightarrow> (error + string) \<times> 'r" where
  "GetCachedWorkerField exec workerID fld r = (case exec (HGet (workerInfoPrefix @ workerID) fld) r of (a, r') \<Rightarrow> (string_result a, r'))"

section \<open>Loads\<close>

definition workerLoadKey :: string where
  "workerLoadKey = ''scheduler:worker:load''"

definition IncrWorkerLoad :: "'r redis_exec \<Rightarrow> string \<Rightarrow> 'r \<Rightarrow> (error + int) \<times> 'r" where
  "IncrWorkerLoad exec workerID r =
     (case exec (HIncrBy workerLoadKey workerID 1) r of (a, r1) \<Rightarrow> (case int_result a of
        Inl err \<Rightarrow> (Inl err, r1)
      | Inr val \<Rightarrow> (Inr val, snd (exec (Expire workerLoadKey (2 * minute)) r1))))"

definition DecrWorkerLoad :: "'r redis_exec \<Rightarrow> string \<Rightarrow> 'r \<Rightarrow> (error + int) \<times> 'r" where
  "DecrWorkerLoad exec workerID r =
     (case exec (HIncrBy workerLoadKey workerID (- 1)) r of (a, r1) \<Rightarrow> (case int_result a of
        Inl err \<Rightarrow> (Inl err, r1)
      | Inr val \<Rightarrow> if val < 0 then (Inr 0, snd (exec (HSet workerLoadKey [(workerID, ''0'')]) r1)) else (Inr val, r1)))"

definition GetWorkerLoads :: "'r redis_exec \<Rightarrow> 'r \<Rightarrow> (error + (string, int) gomap) \<times> 'r" where
  "GetWorkerLoads exec r =
     (case exec (HGetAll workerLoadKey) r of (a, r') \<Rightarrow>
        ((case map_result a of
            Inl err \<Rightarrow> Inl err
          | Inr raw \<Rightarrow> Inr (List.map_filter (\<lambda>(k, v). map_option (Pair k) (Sscanf_d v)) raw)), r'))"

section \<open>The singleton lock\<close>

definition lock_key :: string where
  "lock_key = ''scheduler:singleton:lock''"

definition TryAcquireSchedulerLock :: "'r redis_exec \<Rightarrow> string \<Rightarrow> duration \<Rightarrow> 'r \<Rightarrow> (error + bool) \<times> 'r" where
  "TryAcquireSchedulerLock exec schedulerID ttl r =
     (case exec (SetNX lock_key schedulerID ttl) r of (a, r') \<Rightarrow> (bool_result a, r'))"

text \<open>The script compares the holder and sets the time to live; here it is named by what it does.\<close>

definition renew_script :: string where
  "renew_script = ''if GET KEYS[1] == ARGV[1] then return EXPIRE KEYS[1] ARGV[2] end return 0''"

definition RenewSchedulerLock :: "'r redis_exec \<Rightarrow> string \<Rightarrow> duration \<Rightarrow> 'r \<Rightarrow> error option \<times> 'r" where
  "RenewSchedulerLock exec schedulerID ttl r =
     (case exec (Eval renew_script [lock_key] [schedulerID, itoa (go_div ttl second)]) r of
        (Inl err, r') \<Rightarrow> (Some err, r') | (Inr _, r') \<Rightarrow> (None, r'))"

section \<open>The server\<close>

datatype redis_value = RStr string | RSet "string list" | RHash "(string, string) gomap" | RZSet "(string, rat) gomap"

definition set_at :: "redis_value option \<Rightarrow> string list option" where
  "set_at v = (case v of None \<Rightarrow> Some [] | Some (RSet S) \<Rightarrow> Some S | _ \<Rightarrow> None)"

definition hash_at :: "redis_value option \<Rightarrow> (string, string) gomap option" where
  "hash_at v = (case v of None \<Rightarrow> Some [] | Some (RHash h) \<Rightarrow> Some h | _ \<Rightarrow> None)"

definition zset_at :: "redis_value option \<Rightarrow> (string, rat) gomap option" where
  "zset_at v = (case v of None \<Rightarrow> Some [] | Some (RZSet z) \<Rightarrow> Some z | _ \<Rightarrow> None)"

lemma at_simps [simp]:
  "set_at None = Some []" "set_at (Some (RSet S)) = Some S" "hash_at None = Some []" "hash_at (Some (RHash h)) = Some h"
  "zset_at None = Some []" "zset_at (Some (RZSet z)) = Some z"
  by (simp_all add: set_at_def hash_at_def zset_at_def)

locale redis_server =
  fixes exec :: "'r redis_exec" and key :: "'r \<Rightarrow> string \<Rightarrow> redis_value option" and up :: "'r \<Rightarrow> bool"
  assumes del: "up r \<Longrightarrow> \<exists>n r'. exec (Del k) r = (Inr (Number n), r') \<and> up r' \<and> key r' = (key r)(k := None)"
    and sadd: "up r \<Longrightarrow> set_at (key r k) = Some S \<Longrightarrow> ms \<noteq> [] \<Longrightarrow> \<exists>n r' S'. exec (SAdd k ms) r = (Inr (Number n), r') \<and> up r' \<and>
      key r' = (key r)(k \<mapsto> RSet S') \<and> set S' = set S \<union> set ms"
    and smembers: "up r \<Longrightarrow> set_at (key r k) = Some S \<Longrightarrow> \<exists>ms r'. exec (SMembers k) r = (Inr (Arr ms), r') \<and> up r' \<and> key r' = key r \<and>
      distinct ms \<and> set ms = set S"
    and zadd: "up r \<Longrightarrow> zset_at (key r k) = Some z \<Longrightarrow> zs \<noteq> [] \<Longrightarrow> \<exists>n r' z'. exec (ZAdd k zs) r = (Inr (Number n), r') \<and> up r' \<and>
      key r' = (key r)(k \<mapsto> RZSet z') \<and> mget z' = mget z ++ map_of (rev zs)"
    and zrange: "up r \<Longrightarrow> zset_at (key r k) = Some z \<Longrightarrow> in_int64 lo \<Longrightarrow> in_int64 hi \<Longrightarrow> \<exists>ms r'. exec (ZRangeByScore k (itoa lo) (itoa hi)) r = (Inr (Arr ms), r') \<and> up r' \<and>
      key r' = key r \<and> distinct ms \<and> set ms = {m. \<exists>s. mget z m = Some s \<and> of_int lo \<le> s \<and> s \<le> of_int hi} \<and>
      sorted (map (\<lambda>m. the (mget z m)) ms)"
    and hset: "up r \<Longrightarrow> hash_at (key r k) = Some h \<Longrightarrow> fs \<noteq> [] \<Longrightarrow> \<exists>n r' h'. exec (HSet k fs) r = (Inr (Number n), r') \<and> up r' \<and>
      key r' = (key r)(k \<mapsto> RHash h') \<and> mget h' = mget h ++ map_of (rev fs)"
    and hincrby: "up r \<Longrightarrow> hash_at (key r k) = Some h \<Longrightarrow> Atoi (the_default ''0'' (mget h f)) = Some v \<Longrightarrow> in_int64 (v + n) \<Longrightarrow>
      \<exists>r' h'. exec (HIncrBy k f n) r = (Inr (Number (v + n)), r') \<and> up r' \<and>
      key r' = (key r)(k \<mapsto> RHash h') \<and> mget h' = (mget h)(f \<mapsto> itoa (v + n))"
    and hget: "up r \<Longrightarrow> hash_at (key r k) = Some h \<Longrightarrow> \<exists>r'. exec (HGet k f) r =
      (Inr (case mget h f of None \<Rightarrow> Missing | Some s \<Rightarrow> Bulk s), r') \<and> up r' \<and> key r' = key r"
    and hgetall: "up r \<Longrightarrow> hash_at (key r k) = Some h \<Longrightarrow> \<exists>fs r'. exec (HGetAll k) r = (Inr (Pairs fs), r') \<and> up r' \<and> key r' = key r \<and>
      wf_map fs \<and> mget fs = mget h"
    and expire: "up r \<Longrightarrow> 0 < d \<Longrightarrow> \<exists>n r'. exec (Expire k d) r = (Inr (Number n), r') \<and> up r' \<and> key r' = key r"
    and setnx: "up r \<Longrightarrow> 0 < d \<Longrightarrow> \<exists>r'. exec (SetNX k s d) r = (Inr (Flag (key r k = None)), r') \<and> up r' \<and>
      key r' = (if key r k = None then (key r)(k \<mapsto> RStr s) else key r)"
    and renew: "up r \<Longrightarrow> key r k = None \<or> key r k = Some (RStr s') \<Longrightarrow> 0 < d \<Longrightarrow>
      \<exists>n r'. exec (Eval renew_script [k] [s, itoa d]) r = (Inr (Number n), r') \<and> up r' \<and> key r' = key r"

text \<open>What the operations do on a server that can be reached.\<close>

lemma Sscanf_itoa: "in_int64 n \<Longrightarrow> Sscanf_d (itoa n) = Some n"
proof -
  assume n: "in_int64 n"
  have d: "takeWhile is_digit (dec_nat m) = dec_nat m" for m using dec_nat_digits [of m] by (simp add: list_all_iff)
  obtain c s where c: "dec_nat (nat n) = c # s" "is_digit c"
    using dec_nat_digits [of "nat n"] by (cases "dec_nat (nat n)") auto
  have "\<not> ascii_space c" using plain_digit [OF c(2)] by (simp add: plain_def)
  then have "Sscanf_d (itoa n) = Atoi (itoa n)"
    using c not_sign_digit [OF c(2)] d [of "nat n"] d [of "nat (- n)"]
    by (simp add: Sscanf_d_def itoa_def Let_def ascii_space_def takeWhile_eq_all_conv [THEN iffD2])
  then show ?thesis by (simp add: Atoi_itoa n)
qed

context redis_server
begin

lemma warm_due:
  assumes "up r" "scores = [] \<longleftrightarrow> taskIDs = []"
  shows "\<exists>r' z. WarmDueTasks exec taskIDs scores r = (None, r') \<and> up r' \<and> zset_at (key r' taskDueZSetKey) = Some z \<and>
    mget z = map_of (rev (map (\<lambda>(k, s). (itoa k, s)) scores)) \<and>
    (\<forall>k. k \<notin> {taskDueSetKey, taskDueZSetKey} \<longrightarrow> key r' k = key r k)"
proof -
  have ne: "taskDueSetKey \<noteq> taskDueZSetKey" by (simp add: taskDueSetKey_def taskDueZSetKey_def)
  have pos: "0 < 5 * minute" by simp
  obtain n r1 where 1: "exec (Del taskDueSetKey) r = (Inr (Number n), r1)" "up r1" "key r1 = (key r)(taskDueSetKey := None)"
    using del [OF assms(1)] by blast
  obtain n2 r2 where 2: "exec (Del taskDueZSetKey) r1 = (Inr (Number n2), r2)" "up r2" "key r2 = (key r1)(taskDueZSetKey := None)"
    using del [OF 1(2)] by blast
  have tail: "\<exists>r'. pipe_Exec exec [Expire taskDueSetKey (5 * minute), Expire taskDueZSetKey (5 * minute)] q = (None, r') \<and> up r' \<and> key r' = key q"
    if q: "up q" for q
  proof -
    obtain n r4 where 4: "exec (Expire taskDueSetKey (5 * minute)) q = (Inr (Number n), r4)" "up r4" "key r4 = key q"
      using expire [OF q pos] by blast
    obtain n' r5 where 5: "exec (Expire taskDueZSetKey (5 * minute)) r4 = (Inr (Number n'), r5)" "up r5" "key r5 = key r4"
      using expire [OF 4(2) pos] by blast
    show ?thesis using 4 5 by simp
  qed
  show ?thesis
  proof (cases "taskIDs = []")
    case True
    obtain r' where r': "pipe_Exec exec [Expire taskDueSetKey (5 * minute), Expire taskDueZSetKey (5 * minute)] r2 = (None, r')" "up r'" "key r' = key r2"
      using tail [OF 2(2)] by blast
    have "WarmDueTasks exec taskIDs scores r = (None, r')"
      using r'(1) unfolding WarmDueTasks_def due_commands_def by (simp add: True 1(1) 2(1) del: pipe_Exec.simps(2)) (simp add: 1(1) 2(1))
    with True assms(2) r' show ?thesis by (simp add: 1(3) 2(3))
  next
    case False
    have ids: "map itoa taskIDs \<noteq> []" "map (\<lambda>(k, score). (itoa k, score)) scores \<noteq> []" using False assms(2) by simp_all
    have "set_at (key r2 taskDueSetKey) = Some []" using ne by (simp add: 2(3) 1(3))
    from sadd [OF 2(2) this ids(1)] obtain n3 r3 S where 3: "exec (SAdd taskDueSetKey (map itoa taskIDs)) r2 = (Inr (Number n3), r3)" "up r3"
        "key r3 = (key r2)(taskDueSetKey \<mapsto> RSet S)" by (elim exE conjE)
    have "zset_at (key r3 taskDueZSetKey) = Some []" using ne by (simp add: 3(3) 2(3))
    from zadd [OF 3(2) this ids(2)] obtain n4 r4 z where
      4: "exec (ZAdd taskDueZSetKey (map (\<lambda>(k, score). (itoa k, score)) scores)) r3 = (Inr (Number n4), r4)" "up r4"
        "key r4 = (key r3)(taskDueZSetKey \<mapsto> RZSet z)" "mget z = mget [] ++ map_of (rev (map (\<lambda>(k, score). (itoa k, score)) scores))"
      by (elim exE conjE)
    obtain r' where r': "pipe_Exec exec [Expire taskDueSetKey (5 * minute), Expire taskDueZSetKey (5 * minute)] r4 = (None, r')" "up r'" "key r' = key r4"
      using tail [OF 4(2)] by blast
    have "WarmDueTasks exec taskIDs scores r = (None, r')"
      using r'(1) False assms(2) unfolding WarmDueTasks_def due_commands_def by (simp add: 1(1) 2(1) 3(1) 4(1))
    with r' show ?thesis by (simp add: 1(3) 2(3) 3(3) 4(3,4))
  qed
qed

end

section \<open>A server in memory\<close>

text \<open>Keys that do not expire and commands that fail only on a value of another type.\<close>

type_synonym memory = "string \<Rightarrow> redis_value option"

definition wrong_type :: "error + redis_reply" where
  "wrong_type = Inl (Errorf ''WRONGTYPE'')"

definition in_range :: "string \<Rightarrow> string \<Rightarrow> rat \<Rightarrow> bool" where
  "in_range lo hi s \<longleftrightarrow> of_int (the_default 0 (Atoi lo)) \<le> s \<and> s \<le> of_int (the_default 0 (Atoi hi))"

fun mem_exec :: "memory redis_exec" where
  "mem_exec (Del k) r = (Inr (Number (if r k = None then 0 else 1)), r(k := None))"
| "mem_exec (SAdd k ms) r = (case set_at (r k) of None \<Rightarrow> (wrong_type, r)
     | Some S \<Rightarrow> (Inr (Number (int (length (remdups (S @ ms))) - int (length (remdups S)))), r(k \<mapsto> RSet (remdups (S @ ms)))))"
| "mem_exec (SMembers k) r = (case set_at (r k) of None \<Rightarrow> (wrong_type, r) | Some S \<Rightarrow> (Inr (Arr (remdups S)), r))"
| "mem_exec (ZAdd k ms) r = (case zset_at (r k) of None \<Rightarrow> (wrong_type, r)
     | Some z \<Rightarrow> (Inr (Number (int (length ms))), r(k \<mapsto> RZSet (rev ms @ z))))"
| "mem_exec (ZRangeByScore k lo hi) r = (case zset_at (r k) of None \<Rightarrow> (wrong_type, r)
     | Some z \<Rightarrow> (Inr (Arr (sort_key (\<lambda>m. the (mget z m)) (filter (\<lambda>m. in_range lo hi (the (mget z m))) (remdups (map fst z))))), r))"
| "mem_exec (HSet k fs) r = (case hash_at (r k) of None \<Rightarrow> (wrong_type, r)
     | Some h \<Rightarrow> (Inr (Number (int (length fs))), r(k \<mapsto> RHash (rev fs @ h))))"
| "mem_exec (HIncrBy k f n) r = (case hash_at (r k) of None \<Rightarrow> (wrong_type, r)
     | Some h \<Rightarrow> (case Atoi (the_default ''0'' (mget h f)) of
         None \<Rightarrow> (Inl (Errorf ''ERR hash value is not an integer''), r)
       | Some v \<Rightarrow> if in_int64 (v + n) then (Inr (Number (v + n)), r(k \<mapsto> RHash ((f, itoa (v + n)) # h)))
           else (Inl (Errorf ''ERR increment or decrement would overflow''), r)))"
| "mem_exec (HGet k f) r = (case hash_at (r k) of None \<Rightarrow> (wrong_type, r)
     | Some h \<Rightarrow> (Inr (case mget h f of None \<Rightarrow> Missing | Some s \<Rightarrow> Bulk s), r))"
| "mem_exec (HGetAll k) r = (case hash_at (r k) of None \<Rightarrow> (wrong_type, r)
     | Some h \<Rightarrow> (Inr (Pairs (map (\<lambda>f. (f, the (mget h f))) (remdups (map fst h)))), r))"
| "mem_exec (Expire k d) r = (Inr (Number (if r k = None then 0 else 1)), r)"
| "mem_exec (SetNX k s d) r = (if r k = None then (Inr (Flag True), r(k \<mapsto> RStr s)) else (Inr (Flag False), r))"
| "mem_exec (Eval script ks args) r = (Inr (Number (if ks \<noteq> [] \<and> args \<noteq> [] \<and> r (hd ks) = Some (RStr (hd args)) then 1 else 0)), r)"

lemma sorted_map_sort_key: "sorted (map f (sort_key f xs))"
  by simp

interpretation mem: redis_server mem_exec "\<lambda>r. r" "\<lambda>_. True"
proof (unfold_locales, goal_cases)
  case (5 r k z lo hi)
  then show ?case
    by (auto simp: in_range_def Atoi_itoa dest: map_of_SomeD intro: rev_image_eqI)
      (metis weak_map_of_SomeI option.sel)
next
  case (9 r k h)
  have "mget (map (\<lambda>f. (f, the (mget h f))) (remdups (map fst h))) f = mget h f" for f
    by (cases "mget h f") (auto simp: map_of_map_restrict restrict_map_def dest: map_of_SomeD weak_map_of_SomeI intro: rev_image_eqI)
  with 9 show ?case by (auto simp: wf_map_def comp_def fun_eq_iff)
qed auto

end
