(* ===== verification/Cache.thy ===== *)
theory Cache
  imports Trigger Redis
begin

text \<open>
  \<^verbatim>\<open>internal/scheduler/cache/manager.go\<close>: the cache the trigger loop asks for due tasks, and the cached state of workers. The
  manager has a server or none; its operations take the state of the server beside the world and return it.
\<close>

section \<open>Definitions\<close>

definition Unix :: "time \<Rightarrow> int" where
  "Unix t = t div second"

definition Cache_Enabled :: "'r option \<Rightarrow> bool" where
  "Cache_Enabled redis = (redis \<noteq> None)"

definition cache_disabled :: error where
  "cache_disabled = Errorf ''cache disabled''"

fun due_scores :: "time \<Rightarrow> Task list \<Rightarrow> (int, rat) gomap \<Rightarrow> (int, rat) gomap" where
  "due_scores now [] scores = scores"
| "due_scores now (t # ts) scores =
     (let scores = mput (t_ID t) (float64 (Unix (t_NextTriggerTime t))) scores
      in due_scores now ts
        (if now < t_NextTriggerTime t \<and> t_NextTriggerTime t < now + 60 * second
         then mput (t_ID t) (float64 (Unix (t_NextTriggerTime t))) scores else scores))"

definition warmDueTasks :: "'r redis_exec \<Rightarrow> 'a world_scheme TaskRepository \<Rightarrow> 'r \<Rightarrow> ('a, 'r) go" where
  "warmDueTasks exec T redis = do {
     res \<leftarrow> ListDueTasks T 500;
     case res of
       Inl err \<Rightarrow> State_Monad.return redis
     | Inr tasks \<Rightarrow> do {
         now \<leftarrow> time_now;
         State_Monad.return (snd (WarmDueTasks exec (map t_ID tasks) (due_scores now tasks []) redis)) } }"

definition worker_info :: "WorkerNode \<Rightarrow> (string, string) gomap" where
  "worker_info w =
     [(''hostname'', w_Hostname w), (''ip'', w_IP w), (''status'', w_Status w), (''max_concurrency'', itoa (w_MaxConcurrency w)),
      (''current_load'', itoa (w_CurrentLoad w)), (''labels'', w_Labels w), (''protocol'', w_Protocol w),
      (''callback_url'', w_CallbackURL w), (''grpc_addr'', w_GRPCAddr w), (''heartbeat'', itoa (Unix (w_LastHeartbeatAt w)))]"

definition warmWorkerCache :: "'r redis_exec \<Rightarrow> 'a world_scheme WorkerRepository \<Rightarrow> 'r \<Rightarrow> ('a, 'r) go" where
  "warmWorkerCache exec W redis = do {
     res \<leftarrow> ListAvailableWorkers W;
     case res of
       Inl err \<Rightarrow> State_Monad.return redis
     | Inr workers \<Rightarrow> State_Monad.return (snd (WarmWorkerCache exec (map w_ID workers)
         (foldl (\<lambda>data w. mput (w_ID w) (worker_info w) data) [] workers) redis)) }"

definition warm :: "'r redis_exec \<Rightarrow> 'a world_scheme TaskRepository \<Rightarrow> 'a world_scheme WorkerRepository \<Rightarrow> 'r \<Rightarrow> ('a, 'r) go" where
  "warm exec T W redis = do { redis \<leftarrow> warmDueTasks exec T redis; warmWorkerCache exec W redis }"

definition GetCachedDueTaskIDs :: "'r redis_exec \<Rightarrow> 'r option \<Rightarrow> time \<Rightarrow> (error + int list) \<times> 'r option" where
  "GetCachedDueTaskIDs exec redis cutoff =
     (case redis of
        None \<Rightarrow> (Inl cache_disabled, None)
      | Some r \<Rightarrow> apsnd Some (GetDueTaskIDs exec (float64 (Unix cutoff)) r))"

definition Cache_IncrWorkerLoad :: "'r redis_exec \<Rightarrow> 'r option \<Rightarrow> string \<Rightarrow> (error + int) \<times> 'r option" where
  "Cache_IncrWorkerLoad exec redis workerID =
     (case redis of None \<Rightarrow> (Inl cache_disabled, None) | Some r \<Rightarrow> apsnd Some (IncrWorkerLoad exec workerID r))"

definition Cache_DecrWorkerLoad :: "'r redis_exec \<Rightarrow> 'r option \<Rightarrow> string \<Rightarrow> (error + int) \<times> 'r option" where
  "Cache_DecrWorkerLoad exec redis workerID =
     (case redis of None \<Rightarrow> (Inl cache_disabled, None) | Some r \<Rightarrow> apsnd Some (DecrWorkerLoad exec workerID r))"

definition GetCachedWorkerLoad :: "'r redis_exec \<Rightarrow> 'r option \<Rightarrow> string \<Rightarrow> (error + int) \<times> 'r option" where
  "GetCachedWorkerLoad exec redis workerID =
     (case redis of
        None \<Rightarrow> (Inl cache_disabled, None)
      | Some r \<Rightarrow> (case GetCachedWorkerField exec workerID ''current_load'' r of
          (Inl err, r') \<Rightarrow> (Inl err, Some r')
        | (Inr val, r') \<Rightarrow> ((case Atoi val of None \<Rightarrow> Inl (Errorf ''strconv.ParseInt: invalid syntax'') | Some n \<Rightarrow> Inr n), Some r')))"

text \<open>The lookup of the trigger loop, on the server as it is.\<close>

definition due_lookup :: "'r redis_exec \<Rightarrow> 'r option \<Rightarrow> (time \<Rightarrow> ('a, error + int list) go) option" where
  "due_lookup exec redis =
     (if Cache_Enabled redis then Some (\<lambda>cutoff. State_Monad.return (fst (GetCachedDueTaskIDs exec redis cutoff))) else None)"

lemma due_lookup_reads_only: "reads_only (due_lookup exec redis)"
  by (simp add: reads_only_def due_lookup_def)

section \<open>Due tasks\<close>

text \<open>The scores of a list of tasks: their seconds, exact as doubles.\<close>

definition exact_time :: "time \<Rightarrow> bool" where
  "exact_time t \<longleftrightarrow> 0 \<le> Unix t \<and> Unix t \<le> 2 ^ 53"

lemma float64_Unix: "exact_time t \<Longrightarrow> float64 (Unix t) = of_int (Unix t)"
  by (simp add: exact_time_def fl64_of_int)

lemma due_scores_other: "k \<notin> t_ID ` set ts \<Longrightarrow> mget (due_scores now ts scores) k = mget scores k"
  by (induction now ts scores rule: due_scores.induct) (auto simp: Let_def)

lemma due_scores_task:
  "distinct (map t_ID ts) \<Longrightarrow> t \<in> set ts \<Longrightarrow> mget (due_scores now ts scores) (t_ID t) = Some (float64 (Unix (t_NextTriggerTime t)))"
  by (induction now ts scores rule: due_scores.induct) (auto simp: Let_def due_scores_other)

lemma wf_due_scores: "wf_map scores \<Longrightarrow> wf_map (due_scores now ts scores)"
  by (induction now ts scores rule: due_scores.induct) (auto simp: Let_def)

lemma due_scores_dom: "fst ` set (due_scores now ts scores) = fst ` set scores \<union> t_ID ` set ts"
  by (induction now ts scores rule: due_scores.induct) (auto simp: Let_def dom_update)

lemma due_scores_Nil_iff: "due_scores now ts [] = [] \<longleftrightarrow> ts = []"
  using due_scores_dom [of now ts "[]"] by (cases ts) auto

text \<open>Members are decimal ids; reading them back gives the ids.\<close>

lemma member_scores:
  assumes "wf_map scores" "\<forall>k \<in> fst ` set scores. in_int64 k"
  shows "map_of (rev (map (\<lambda>(k, s). (itoa k, s)) scores)) m = Some s \<longleftrightarrow> (\<exists>k. m = itoa k \<and> mget scores k = Some s)"
proof -
  have inj: "inj_on itoa (fst ` set scores)" using assms(2) by (meson inj_onI itoa_inject)
  have fsts: "map fst (rev (map (\<lambda>(k, s). (itoa k, s)) scores)) = rev (map itoa (map fst scores))"
    by (induction scores) auto
  have "distinct (map fst (rev (map (\<lambda>(k, s). (itoa k, s)) scores)))"
    unfolding fsts using assms(1) inj by (simp add: wf_map_def distinct_map del: map_map)
  then have "map_of (rev (map (\<lambda>(k, s). (itoa k, s)) scores)) m = Some s \<longleftrightarrow> (m, s) \<in> set (rev (map (\<lambda>(k, s). (itoa k, s)) scores))"
    by (rule map_of_eq_Some_iff)
  then show ?thesis using assms(1) by (auto simp: wf_map_mem_iff)
qed

lemma map_filter_inverse: "\<forall>k \<in> set ids. f (g k) = Some k \<Longrightarrow> List.map_filter f (map g ids) = ids"
  by (induction ids) (simp_all add: List.map_filter_simps)

context redis_server
begin

lemma due_cached:
  assumes "up r" "distinct (map t_ID ts)" "\<forall>t \<in> set ts. in_int64 (t_ID t) \<and> exact_time (t_NextTriggerTime t)"
    and "exact_time cutoff"
  shows "\<exists>r1 ids r2. WarmDueTasks exec (map t_ID ts) (due_scores now ts []) r = (None, r1) \<and>
    GetCachedDueTaskIDs exec (Some r1) cutoff = (Inr ids, Some r2) \<and> distinct ids \<and>
    set ids = t_ID ` {t \<in> set ts. Unix (t_NextTriggerTime t) \<le> Unix cutoff}"
proof -
  let ?sc = "due_scores now ts []"
  obtain r1 z where w: "WarmDueTasks exec (map t_ID ts) ?sc r = (None, r1)" "up r1" "zset_at (key r1 taskDueZSetKey) = Some z"
      "mget z = map_of (rev (map (\<lambda>(k, s). (itoa k, s)) ?sc))"
    using warm_due [OF assms(1), of ?sc "map t_ID ts"] by (auto simp: due_scores_Nil_iff)
  have dom: "k \<in> t_ID ` set ts" if "mget ?sc k = Some s" for k s
    using that due_scores_other [of k ts now "[]"] by auto
  have z: "mget z m = Some s \<longleftrightarrow> (\<exists>t \<in> set ts. m = itoa (t_ID t) \<and> s = of_int (Unix (t_NextTriggerTime t)))" for m s
  proof -
    have "mget z m = Some s \<longleftrightarrow> (\<exists>k. m = itoa k \<and> mget ?sc k = Some s)"
      unfolding w(4) using assms(3) dom wf_map_mem_iff [OF wf_due_scores [OF wf_map_Nil]]
      by (intro member_scores wf_due_scores) fastforce+
    also have "\<dots> \<longleftrightarrow> (\<exists>t \<in> set ts. m = itoa (t_ID t) \<and> s = of_int (Unix (t_NextTriggerTime t)))"
      using dom due_scores_task [OF assms(2)] assms(3) by (fastforce simp: float64_Unix)
    finally show ?thesis .
  qed
  have hi: "in_int64 (Unix cutoff)" "round_even (float64 (Unix cutoff)) = Unix cutoff"
    using assms(4) by (auto simp: float64_Unix) (auto simp: exact_time_def in_int64_def round_even_def)
  obtain ms r2 where q: "exec (ZRangeByScore taskDueZSetKey (itoa 0) (itoa (Unix cutoff))) r1 = (Inr (Arr ms), r2)" "distinct ms"
      "set ms = {m. \<exists>s. mget z m = Some s \<and> of_int 0 \<le> s \<and> s \<le> of_int (Unix cutoff)}"
    using zrange [OF w(2,3) _ hi(1), of 0] by (auto simp: in_int64_def)
  let ?A = "t_ID ` {t \<in> set ts. Unix (t_NextTriggerTime t) \<le> Unix cutoff}"
  have ms: "set ms = itoa ` ?A"
    unfolding q(3) z using assms(3) by (auto simp: exact_time_def)
  have read: "Sscanf_d (itoa k) = Some k" if "k \<in> ?A" for k
    using that assms(3) by (auto simp: Sscanf_itoa)
  define ids where "ids = map (\<lambda>m. the (Sscanf_d m)) ms"
  have ids: "set ids = ?A" "ms = map itoa ids"
    using read unfolding ids_def by (force simp: ms image_image, auto simp: ms intro!: map_idI [symmetric])
  have "List.map_filter Sscanf_d ms = ids"
    unfolding ids(2) using read by (intro map_filter_inverse) (simp only: ids(1), blast)
  moreover have "itoa 0 = ''0''" by code_simp
  ultimately have "GetCachedDueTaskIDs exec (Some r1) cutoff = (Inr ids, Some r2)"
    using q(1) by (simp add: GetCachedDueTaskIDs_def GetDueTaskIDs_def hi(2) slice_result_def)
  moreover have "distinct ids" using q(2) by (simp add: ids(2) distinct_map)
  ultimately show ?thesis using w(1) ids(1) by blast
qed

end

text \<open>
  C26. After a warm-up over the stores, on a server that keeps the promises of its commands, a lookup with a cutoff not before
  the warm-up gives each enabled task that was due then, once, up to the five hundred that were due longest;
  whatever the cache held before is gone. The warm-up itself only reads the stores.
\<close>

theorem cache_holds_due:
  assumes "redis_server exec key up" "up r" "stores_ok w" "exact_time cutoff" "clock w (readings w) \<le> cutoff"
    and "\<forall>t \<in> ran (v_tasks (test_view w)). in_int64 (t_ID t) \<and> (IsZero (t_NextTriggerTime t) \<or> exact_time (t_NextTriggerTime t))"
  shows "case run_state (warmDueTasks exec test_tasks r) w of (r1, w1) \<Rightarrow> test_view w1 = test_view w \<and>
    (\<exists>all ids r2. enumerates all (v_tasks (test_view w)) (\<lambda>t. t_Status t = ''enabled'' \<and> \<not> IsZero (t_NextTriggerTime t) \<and>
        t_NextTriggerTime t \<le> clock w (readings w)) \<and> sorted (map t_NextTriggerTime all) \<and>
      GetCachedDueTaskIDs exec (Some r1) cutoff = (Inr ids, Some r2) \<and> distinct ids \<and> set ids = t_ID ` set (take 500 all))"
proof -
  let ?due = "\<lambda>t. t_Status t = ''enabled'' \<and> \<not> IsZero (t_NextTriggerTime t) \<and> t_NextTriggerTime t \<le> clock w (readings w)"
  obtain w1 ts all where run: "run_state (ListDueTasks test_tasks 500) w = (Inr ts, w1)" "moves test_view stores_ok w w1 (test_view w)"
      "ts = limit_list 500 all" "enumerates all (v_tasks (test_view w)) ?due" "sorted (map t_NextTriggerTime all)"
    using ts.list_due [OF assms(3), of 500] by blast
  have ts: "ts = take 500 all" using run(3) by (simp add: limit_list_def)
  have in_all: "t \<in> ran (v_tasks (test_view w))" "?due t" if "t \<in> set ts" for t
    using that run(4) by (auto simp: ts enumerates_def dest: in_set_takeD)
  have "inj_on t_ID (set ts)"
  proof (rule inj_onI)
    fix x y
    assume "x \<in> set ts" "y \<in> set ts" and eq: "t_ID x = t_ID y"
    then obtain j k where "v_tasks (test_view w) j = Some x" "v_tasks (test_view w) k = Some y"
      using in_all(1) by (force simp: ran_def)
    with eq ts.task_id [OF assms(3)] show "x = y" by fastforce
  qed
  moreover have "distinct ts" using run(4) by (simp add: ts enumerates_def)
  ultimately have d: "distinct (map t_ID ts)" by (simp add: distinct_map)
  have e: "\<forall>t \<in> set ts. in_int64 (t_ID t) \<and> exact_time (t_NextTriggerTime t)" using in_all assms(6) by blast
  obtain now w2 where now: "run_state time_now w1 = (now, w2)" "test_view w2 = test_view w1"
    using ts.vw_more [of "w1\<lparr>readings := Suc (readings w1)\<rparr>" w1] by simp
  from redis_server.due_cached [OF assms(1,2) d e assms(4), of now] obtain r1 ids r2 where
    c: "WarmDueTasks exec (map t_ID ts) (due_scores now ts []) r = (None, r1)"
      "GetCachedDueTaskIDs exec (Some r1) cutoff = (Inr ids, Some r2)" "distinct ids"
      "set ids = t_ID ` {t \<in> set ts. Unix (t_NextTriggerTime t) \<le> Unix cutoff}"
    by blast
  have "Unix (t_NextTriggerTime t) \<le> Unix cutoff" if "t \<in> set ts" for t
    using in_all(2) [OF that] assms(5) by (simp add: Unix_def zdiv_mono1)
  then have "set ids = t_ID ` set (take 500 all)" using c(4) ts by force
  moreover have "run_state (warmDueTasks exec test_tasks r) w = (r1, w2)"
    using now(1) by (simp add: warmDueTasks_def run(1) c(1))
  moreover have "test_view w2 = test_view w" using run(2) now(2) by (simp add: moves_def)
  ultimately show ?thesis using run(4,5) c(2,3) by auto
qed

definition due_sample :: stores where
  "due_sample = sample\<lparr>task_store := \<lparr>ts_nextID = 2, ts_tasks = [(1, sample_task\<lparr>t_NextTriggerTime := 90 * second\<rparr>)], ts_dependencies = []\<rparr>\<rparr>"

lemma due_sample_facts:
  "stores_ok due_sample" "v_tasks (test_view due_sample) = [1 \<mapsto> sample_task\<lparr>t_NextTriggerTime := 90 * second\<rparr>]"
  "clock due_sample (readings due_sample) = 100 * second"
  using sample_ok by (auto simp: stores_ok_def due_sample_def keyed_def wf_map_def sample_task_def test_view_def fun_eq_iff split: if_splits)

theorem cache_holds_due_witness:
  "case run_state (warmDueTasks mem_exec test_tasks (\<lambda>_. None)) due_sample of (r1, w1) \<Rightarrow>
     \<exists>r2. GetCachedDueTaskIDs mem_exec (Some r1) (100 * second) = (Inr [1], Some r2)"
proof -
  let ?due = "\<lambda>t. t_Status t = ''enabled'' \<and> \<not> IsZero (t_NextTriggerTime t) \<and> t_NextTriggerTime t \<le> clock due_sample (readings due_sample)"
  let ?t = "sample_task\<lparr>t_NextTriggerTime := 90 * second\<rparr>"
  have ids: "\<forall>t \<in> ran (v_tasks (test_view due_sample)). in_int64 (t_ID t) \<and> (IsZero (t_NextTriggerTime t) \<or> exact_time (t_NextTriggerTime t))"
    by (simp add: due_sample_facts sample_task_def in_int64_def exact_time_def Unix_def)
  have now: "exact_time (100 * second)" "clock due_sample (readings due_sample) \<le> 100 * second"
    by (simp_all add: exact_time_def Unix_def due_sample_facts(3))
  have p: "case run_state (warmDueTasks mem_exec test_tasks (\<lambda>_. None)) due_sample of (r1, w1) \<Rightarrow> test_view w1 = test_view due_sample \<and>
    (\<exists>all ids r2. enumerates all (v_tasks (test_view due_sample)) ?due \<and> sorted (map t_NextTriggerTime all) \<and>
      GetCachedDueTaskIDs mem_exec (Some r1) (100 * second) = (Inr ids, Some r2) \<and> distinct ids \<and> set ids = t_ID ` set (take 500 all))"
    by (rule cache_holds_due [where key = "\<lambda>r. r" and up = "\<lambda>_. True", OF mem.redis_server_axioms TrueI due_sample_facts(1) now ids])
  have due: "?due ?t" by (simp add: sample_task_def due_sample_facts(3) zero_time_def)
  have "ids = [1]" if "enumerates all (v_tasks (test_view due_sample)) ?due" "distinct ids" "set ids = t_ID ` set (take 500 all)"
    for all and ids :: "int list"
  proof -
    have "set all = {x \<in> {?t}. ?due x}" "distinct all" using that(1) by (simp_all add: enumerates_def due_sample_facts(2))
    with due have "set all = {?t}" "distinct all" by blast+
    then have "all = [?t]" by (cases all; cases "tl all") auto
    then have "set ids = {1}" using that(3) by (simp add: sample_task_def)
    with that(2) show ?thesis by (cases ids; cases "tl ids") auto
  qed
  with p show ?thesis unfolding case_prod_beta by blast
qed

section \<open>Loads\<close>

text \<open>
  The counters of loads and the cached loads are different keys: what a worker's counter says is not what the cached load is
  read from, unless the worker is called load. A decrement of a counter at zero leaves it at zero.
\<close>

context redis_server
begin

lemma load_counters:
  assumes "up r" "hash_at (key r workerLoadKey) = Some h" "Atoi (the_default ''0'' (mget h wid)) = Some v" "in_int64 (v + 1)" "in_int64 (v - 1)"
  shows "\<exists>r1 h1. IncrWorkerLoad exec wid r = (Inr (v + 1), r1) \<and> up r1 \<and>
      key r1 = (key r)(workerLoadKey \<mapsto> RHash h1) \<and> mget h1 = (mget h)(wid \<mapsto> itoa (v + 1))"
    and "\<exists>r2 h2. DecrWorkerLoad exec wid r = (Inr (max 0 (v - 1)), r2) \<and> up r2 \<and>
      key r2 = (key r)(workerLoadKey \<mapsto> RHash h2) \<and> mget h2 = (mget h)(wid \<mapsto> itoa (max 0 (v - 1)))"
proof -
  obtain r1 h1 where 1: "exec (HIncrBy workerLoadKey wid 1) r = (Inr (Number (v + 1)), r1)" "up r1"
      "key r1 = (key r)(workerLoadKey \<mapsto> RHash h1)" "mget h1 = (mget h)(wid \<mapsto> itoa (v + 1))"
    using hincrby [OF assms(1-4)] by blast
  have two: "0 < 2 * minute" by simp
  obtain n r1' where "exec (Expire workerLoadKey (2 * minute)) r1 = (Inr (Number n), r1')" "up r1'" "key r1' = key r1"
    using expire [OF 1(2) two] by blast
  with 1 show "\<exists>r1 h1. IncrWorkerLoad exec wid r = (Inr (v + 1), r1) \<and> up r1 \<and>
      key r1 = (key r)(workerLoadKey \<mapsto> RHash h1) \<and> mget h1 = (mget h)(wid \<mapsto> itoa (v + 1))"
    by (auto simp: IncrWorkerLoad_def int_result_def)
  have dec: "in_int64 (v + - 1)" using assms(5) by simp
  obtain r2 h2 where 2: "exec (HIncrBy workerLoadKey wid (- 1)) r = (Inr (Number (v + - 1)), r2)" "up r2"
      "key r2 = (key r)(workerLoadKey \<mapsto> RHash h2)" "mget h2 = (mget h)(wid \<mapsto> itoa (v + - 1))"
    using hincrby [OF assms(1-3) dec] by blast
  have "hash_at (key r2 workerLoadKey) = Some h2" by (simp add: 2(3))
  from hset [OF 2(2) this, of "[(wid, ''0'')]"] obtain n r3 h3 where
    3: "exec (HSet workerLoadKey [(wid, ''0'')]) r2 = (Inr (Number n), r3)" "up r3"
      "key r3 = (key r2)(workerLoadKey \<mapsto> RHash h3)" "mget h3 = mget h2 ++ map_of (rev [(wid, ''0'')])"
    by auto
  have zero: "itoa 0 = ''0''" by code_simp
  show "\<exists>r2 h2. DecrWorkerLoad exec wid r = (Inr (max 0 (v - 1)), r2) \<and> up r2 \<and>
      key r2 = (key r)(workerLoadKey \<mapsto> RHash h2) \<and> mget h2 = (mget h)(wid \<mapsto> itoa (max 0 (v - 1)))"
  proof (cases "v - 1 < 0")
    case True
    moreover have "mget h3 = (mget h)(wid \<mapsto> itoa 0)" by (auto simp: 3(4) 2(4) zero fun_eq_iff)
    ultimately show ?thesis using 2(1,3) 3(1-3) by (auto simp: DecrWorkerLoad_def int_result_def max_def)
  next
    case False
    then show ?thesis using 2 by (auto simp: DecrWorkerLoad_def int_result_def max_def)
  qed
qed

lemma cached_load_other_key:
  assumes "up r" "up r'" "key r' = (key r)(workerLoadKey := v)" "x \<noteq> ''load''" "hash_at (key r (workerInfoPrefix @ x)) = Some h"
  shows "fst (GetCachedWorkerLoad exec (Some r') x) = fst (GetCachedWorkerLoad exec (Some r) x)"
proof -
  have "workerInfoPrefix @ x \<noteq> workerLoadKey" using assms(4) by (simp add: workerInfoPrefix_def workerLoadKey_def)
  then have "hash_at (key r' (workerInfoPrefix @ x)) = Some h" using assms(3,5) by simp
  from hget [OF assms(2) this, of "''current_load''"] hget [OF assms(1,5), of "''current_load''"] show ?thesis
    by (auto simp: GetCachedWorkerLoad_def GetCachedWorkerField_def string_result_def split: option.split)
qed

text \<open>The lock of Redis: who has it keeps it from others; renewing is for the holder only and takes it from no one.\<close>

lemma lock_exclusive:
  assumes "up r" "key r lock_key = None" "second \<le> ttl" "second \<le> ttl'"
  shows "\<exists>r1 r2 r3. TryAcquireSchedulerLock exec a ttl r = (Inr True, r1) \<and> TryAcquireSchedulerLock exec b ttl' r1 = (Inr False, r2) \<and>
    RenewSchedulerLock exec c ttl r2 = (None, r3) \<and> key r3 lock_key = Some (RStr a)"
proof -
  have pos: "0 < ttl" "0 < ttl'" "0 < go_div ttl second" using assms(3,4) by (simp_all add: pos_imp_zdiv_pos_iff)
  obtain r1 where 1: "exec (SetNX lock_key a ttl) r = (Inr (Flag True), r1)" "up r1" "key r1 = (key r)(lock_key \<mapsto> RStr a)"
    using setnx [OF assms(1) pos(1), of lock_key a] assms(2) by auto
  obtain r2 where 2: "exec (SetNX lock_key b ttl') r1 = (Inr (Flag False), r2)" "up r2" "key r2 = key r1"
    using setnx [OF 1(2) pos(2), of lock_key b] by (auto simp: 1(3))
  obtain n r3 where 3: "exec (Eval renew_script [lock_key] [c, itoa (go_div ttl second)]) r2 = (Inr (Number n), r3)" "key r3 = key r2"
    using renew [OF 2(2) _ pos(3), of lock_key a c] by (auto simp: 1(3) 2(3))
  from 1 2 3 show ?thesis
    by (auto simp: TryAcquireSchedulerLock_def RenewSchedulerLock_def bool_result_def)
qed

end

text \<open>
  The decrement is not atomic: between taking one off and writing the zero another process may count a task, which is
  lost.
\<close>

lemma lost_increment:
  "let r1 = snd (mem_exec (HIncrBy workerLoadKey ''w'' (- 1)) (\<lambda>_. None));
       r2 = snd (IncrWorkerLoad mem_exec ''w'' r1);
       r3 = snd (mem_exec (HSet workerLoadKey [(''w'', ''0'')]) r2);
       r4 = snd (IncrWorkerLoad mem_exec ''w'' r3)
   in fst (IncrWorkerLoad mem_exec ''w'' r1) = Inr 0 \<and> fst (GetWorkerLoads mem_exec r4) = Inr [(''w'', 1)]"
  by code_simp

lemma worker_called_load: "workerInfoPrefix @ ''load'' = workerLoadKey"
  by (simp add: workerInfoPrefix_def workerLoadKey_def)

end
