(* ===== verification/Gorm.thy ===== *)
theory Gorm
  imports World
begin

text \<open>
  What the MySQL repositories call of gorm on one table, as a record of operations, and the locale of what gorm and MySQL
  document of them. A condition is a predicate on rows, of the database's clock where it says \<^verbatim>\<open>NOW()\<close>; an order is a relation, and
  rows that it does not tell apart come in any order. \<open>fit\<close> is what the columns keep of a row (a \<^verbatim>\<open>DATETIME\<close> has no
  fractions of a second), \<open>stamp\<close> and \<open>touch\<close> are gorm's times of creation and of update, \<open>legal\<close> the constraints of the schema.
\<close>

section \<open>Queries\<close>

record 'r query =
  qy_where :: "time \<Rightarrow> 'r \<Rightarrow> bool"
  qy_order :: "'r \<Rightarrow> 'r \<Rightarrow> bool"
  qy_limit :: int
  qy_offset :: int

definition page :: "int \<Rightarrow> int \<Rightarrow> 'r list \<Rightarrow> 'r list" where
  "page limit offset xs =
     (let ys = (if offset > 0 then drop (nat offset) xs else xs) in if limit > 0 then take (nat limit) ys else ys)"

record ('w, 'r) table =
  tb_Create :: "'r \<Rightarrow> ('w, error + 'r) state"
  tb_Upsert :: "'r \<Rightarrow> ('w, error + unit) state"
  tb_First :: "('r \<Rightarrow> bool) \<Rightarrow> ('w, error + 'r) state"
  tb_Find :: "'r query \<Rightarrow> ('w, error + 'r list) state"
  tb_Count :: "('r \<Rightarrow> bool) \<Rightarrow> ('w, error + int) state"
  tb_Updates :: "('r \<Rightarrow> bool) \<Rightarrow> ('r \<Rightarrow> 'r) \<Rightarrow> ('w, error + int) state"
  tb_Delete :: "('r \<Rightarrow> bool) \<Rightarrow> ('w, error + int) state"

definition ErrRecordNotFound :: error where
  "ErrRecordNotFound = Errorf ''record not found''"

text \<open>\<^verbatim>\<open>if err := ...; err != nil { return fmt.Errorf("what: %w", err) }\<close>\<close>

definition wrapping :: "string \<Rightarrow> ('w, error + 'a) state \<Rightarrow> ('w, error + 'a) state" where
  "wrapping what m = do { r \<leftarrow> m; State_Monad.return (case r of Inl err \<Rightarrow> Inl (Wrapped what err) | Inr x \<Rightarrow> Inr x) }"

lemma run_wrapping [simp]:
  "run_state (wrapping what m) w = (case run_state m w of (Inl err, w') \<Rightarrow> (Inl (Wrapped what err), w') | (Inr x, w') \<Rightarrow> (Inr x, w'))"
  by (auto simp: wrapping_def split: prod.splits sum.splits)

definition total_order :: "('r \<Rightarrow> 'r \<Rightarrow> bool) \<Rightarrow> bool" where
  "total_order le \<longleftrightarrow> (\<forall>x y. le x y \<or> le y x) \<and> (\<forall>x y z. le x y \<longrightarrow> le y z \<longrightarrow> le x z)"

section \<open>The contract\<close>

locale gorm_table =
  fixes G :: "('w, 'r) table" and rows :: "'w \<Rightarrow> 'r list" and up :: "'w \<Rightarrow> bool"
    and key_of :: "'r \<Rightarrow> 'k::linorder" and with_key :: "'k \<Rightarrow> 'r \<Rightarrow> 'r"
    and stamp :: "time \<Rightarrow> 'r \<Rightarrow> 'r" and touch :: "time \<Rightarrow> 'r \<Rightarrow> 'r" and fit :: "'r \<Rightarrow> 'r" and legal :: "'r list \<Rightarrow> bool"
  assumes create: "up w \<Longrightarrow> \<exists>k now w' res. run_state (tb_Create G r) w = (res, w') \<and> up w' \<and> k \<notin> key_of ` set (rows w) \<and>
      (if legal (rows w @ [fit (with_key k (stamp now r))])
       then res = Inr (with_key k (stamp now r)) \<and> rows w' = rows w @ [fit (with_key k (stamp now r))]
       else (\<exists>e. res = Inl e) \<and> rows w' = rows w)"
    and upsert: "up w \<Longrightarrow> \<exists>w' res. run_state (tb_Upsert G r) w = (res, w') \<and> up w' \<and>
      (let rs = (if key_of r \<in> key_of ` set (rows w) then map (\<lambda>x. if key_of x = key_of r then fit r else x) (rows w) else rows w @ [fit r])
       in if legal rs then res = Inr () \<and> rows w' = rs else (\<exists>e. res = Inl e) \<and> rows w' = rows w)"
    and find_first: "up w \<Longrightarrow> \<exists>w' res. run_state (tb_First G P) w = (res, w') \<and> up w' \<and> rows w' = rows w \<and>
      (if \<exists>r \<in> set (rows w). P r then \<exists>r \<in> set (rows w). P r \<and> (\<forall>r' \<in> set (rows w). P r' \<longrightarrow> key_of r \<le> key_of r') \<and> res = Inr r
       else res = Inl ErrRecordNotFound)"
    and find_all: "up w \<Longrightarrow> total_order (qy_order q) \<Longrightarrow> \<exists>w' now rs. run_state (tb_Find G q) w = (Inr (page (qy_limit q) (qy_offset q) rs), w') \<and>
      up w' \<and> rows w' = rows w \<and> mset rs = filter_mset (qy_where q now) (mset (rows w)) \<and> sorted_wrt (qy_order q) rs"
    and count_rows: "up w \<Longrightarrow> \<exists>w'. run_state (tb_Count G P) w = (Inr (int (length (filter P (rows w)))), w') \<and> up w' \<and> rows w' = rows w"
    and update_rows: "up w \<Longrightarrow> \<exists>now w' res. run_state (tb_Updates G P f) w = (res, w') \<and> up w' \<and>
      (let rs = map (\<lambda>r. if P r then fit (touch now (f r)) else r) (rows w)
       in if legal rs then res = Inr (int (length (filter P (rows w)))) \<and> rows w' = rs else (\<exists>e. res = Inl e) \<and> rows w' = rows w)"
    and delete_rows: "up w \<Longrightarrow> \<exists>w'. run_state (tb_Delete G P) w = (Inr (int (length (filter P (rows w)))), w') \<and> up w' \<and>
      rows w' = filter (\<lambda>r. \<not> P r) (rows w)"
    and keys: "key_of (fit r) = key_of r" "key_of (with_key k r) = k" "key_of (stamp now r) = key_of r" "key_of (touch now r) = key_of r"
begin

text \<open>The row of a key, on a table where keys are unique.\<close>

definition row_of :: "'w \<Rightarrow> 'k \<Rightarrow> 'r option" where
  "row_of w k = map_of (map (\<lambda>r. (key_of r, r)) (rows w)) k"

definition unique_keys :: "'w \<Rightarrow> bool" where
  "unique_keys w \<longleftrightarrow> distinct (map key_of (rows w))"

lemma row_of_iff: "unique_keys w \<Longrightarrow> row_of w k = Some r \<longleftrightarrow> r \<in> set (rows w) \<and> key_of r = k"
  unfolding row_of_def unique_keys_def by (subst map_of_eq_Some_iff) (auto simp: comp_def)

lemma row_of_None: "row_of w k = None \<longleftrightarrow> k \<notin> key_of ` set (rows w)"
  by (simp add: row_of_def map_of_eq_None_iff image_image)

lemma first_by_key:
  assumes "up w" "unique_keys w"
  shows "\<exists>w'. run_state (tb_First G (\<lambda>r. key_of r = k)) w =
      (case row_of w k of None \<Rightarrow> Inl ErrRecordNotFound | Some r \<Rightarrow> Inr r, w') \<and> up w' \<and> rows w' = rows w"
proof -
  obtain w' res where f: "run_state (tb_First G (\<lambda>r. key_of r = k)) w = (res, w')" "up w'" "rows w' = rows w"
      "if \<exists>r \<in> set (rows w). key_of r = k then \<exists>r \<in> set (rows w). key_of r = k \<and> (\<forall>r' \<in> set (rows w). key_of r' = k \<longrightarrow> key_of r \<le> key_of r') \<and> res = Inr r
       else res = Inl ErrRecordNotFound"
    using find_first [OF assms(1), of "\<lambda>r. key_of r = k"] by blast
  show ?thesis
  proof (cases "row_of w k")
    case None
    then have "\<not> (\<exists>r \<in> set (rows w). key_of r = k)" by (auto simp: row_of_None)
    with f None show ?thesis by simp
  next
    case (Some r)
    then have "r \<in> set (rows w) \<and> key_of r = k" by (simp add: row_of_iff [OF assms(2)])
    with f(4) obtain r' where "r' \<in> set (rows w)" "key_of r' = k" "res = Inr r'" by (metis (full_types))
    moreover then have "row_of w k = Some r'" by (simp add: row_of_iff [OF assms(2)])
    ultimately show ?thesis using f by simp
  qed
qed

lemma created_row:
  assumes "unique_keys w" "k \<notin> key_of ` set (rows w)" "rows w' = rows w @ [r]" "key_of r = k"
  shows "row_of w' = (row_of w)(k \<mapsto> r)" "unique_keys w'"
proof -
  show u: "unique_keys w'" using assms by (simp add: unique_keys_def)
  show "row_of w' = (row_of w)(k \<mapsto> r)"
  proof
    fix j
    have "row_of w' j = Some x \<longleftrightarrow> ((row_of w)(k \<mapsto> r)) j = Some x" for x
      using assms by (auto simp: row_of_iff [OF u] row_of_iff [OF assms(1)]) (metis image_eqI)
    then show "row_of w' j = ((row_of w)(k \<mapsto> r)) j" by (metis not_Some_eq)
  qed
qed

text \<open>An update of the row of a key changes that row, and nothing when there is none.\<close>

lemma updated_row:
  assumes "unique_keys w" "\<And>r. key_of (f r) = key_of r" "rows w' = map (\<lambda>r. if key_of r = k then f r else r) (rows w)"
  shows "row_of w' = (row_of w)(k := map_option f (row_of w k))" "unique_keys w'"
proof -
  have m: "map key_of (rows w') = map key_of (rows w)" using assms(2,3) by simp
  then show u: "unique_keys w'" using assms(1) unfolding unique_keys_def by presburger
  show "row_of w' = (row_of w)(k := map_option f (row_of w k))"
  proof
    fix j
    have "row_of w' j = Some r \<longleftrightarrow> ((row_of w)(k := map_option f (row_of w k))) j = Some r" for r
      using assms(2,3) by (auto simp: row_of_iff [OF u] row_of_iff [OF assms(1)] split: if_splits)
    then show "row_of w' j = ((row_of w)(k := map_option f (row_of w k))) j" by (metis not_Some_eq)
  qed
qed

lemma deleted_row:
  assumes "unique_keys w" "rows w' = filter (\<lambda>r. \<not> key_of r = k) (rows w)"
  shows "row_of w' = (row_of w)(k := None)" "unique_keys w'"
proof -
  show u: "unique_keys w'" using assms by (simp add: unique_keys_def distinct_map_filter)
  show "row_of w' = (row_of w)(k := None)"
  proof
    fix j
    have "row_of w' j = Some r \<longleftrightarrow> ((row_of w)(k := None)) j = Some r" for r
      using assms by (auto simp: row_of_iff [OF u] row_of_iff [OF assms(1)])
    then show "row_of w' j = ((row_of w)(k := None)) j" by (metis not_Some_eq)
  qed
qed

lemma update_by_key:
  assumes "up w" "unique_keys w" "\<And>r. key_of (f r) = key_of r" "\<forall>rs. map key_of rs = map key_of (rows w) \<longrightarrow> legal rs"
  shows "\<exists>w' now n. run_state (tb_Updates G (\<lambda>r. key_of r = k) f) w = (Inr n, w') \<and> up w' \<and> unique_keys w' \<and>
    row_of w' = (row_of w)(k := map_option (\<lambda>r. fit (touch now (f r))) (row_of w k))"
proof -
  obtain now w' res where u: "run_state (tb_Updates G (\<lambda>r. key_of r = k) f) w = (res, w')" "up w'"
      "let rs = map (\<lambda>r. if key_of r = k then fit (touch now (f r)) else r) (rows w)
       in if legal rs then res = Inr (int (length (filter (\<lambda>r. key_of r = k) (rows w)))) \<and> rows w' = rs else (\<exists>e. res = Inl e) \<and> rows w' = rows w"
    using update_rows [OF assms(1), of "\<lambda>r. key_of r = k" f] by blast
  let ?rs = "map (\<lambda>r. if key_of r = k then fit (touch now (f r)) else r) (rows w)"
  have "map key_of ?rs = map key_of (rows w)" by (simp add: keys assms(3))
  with assms(4) u(3) have r: "res = Inr (int (length (filter (\<lambda>r. key_of r = k) (rows w))))" "rows w' = ?rs" by auto
  have kf: "key_of (fit (touch now (f r))) = key_of r" for r by (simp add: keys assms(3))
  from updated_row [OF assms(2), of "\<lambda>r. fit (touch now (f r))" w' k, OF kf r(2)] u r(1) show ?thesis by blast
qed

end

section \<open>A table in memory\<close>

record 'r memory_table =
  mt_rows :: "'r list"
  mt_now :: time

fun insert_wrt :: "('r \<Rightarrow> 'r \<Rightarrow> bool) \<Rightarrow> 'r \<Rightarrow> 'r list \<Rightarrow> 'r list" where
  "insert_wrt le x [] = [x]"
| "insert_wrt le x (y # ys) = (if le x y then x # y # ys else y # insert_wrt le x ys)"

definition sort_wrt :: "('r \<Rightarrow> 'r \<Rightarrow> bool) \<Rightarrow> 'r list \<Rightarrow> 'r list" where
  "sort_wrt le xs = foldr (insert_wrt le) xs []"

lemma mset_insert_wrt: "mset (insert_wrt le x ys) = add_mset x (mset ys)"
  by (induction ys) auto

lemma set_insert_wrt: "set (insert_wrt le x ys) = insert x (set ys)"
  by (induction ys) auto

lemma sorted_insert_wrt:
  "total_order le \<Longrightarrow> sorted_wrt le ys \<Longrightarrow> sorted_wrt le (insert_wrt le x ys)"
  by (induction ys) (auto simp: set_insert_wrt total_order_def)

lemma mset_sort_wrt: "mset (sort_wrt le xs) = mset xs"
  by (induction xs) (simp_all add: sort_wrt_def mset_insert_wrt)

lemma sorted_sort_wrt: "total_order le \<Longrightarrow> sorted_wrt le (sort_wrt le xs)"
  by (induction xs) (simp_all add: sort_wrt_def sorted_insert_wrt)

definition store_rows :: "('r list \<Rightarrow> bool) \<Rightarrow> 'r list \<Rightarrow> 'a \<Rightarrow> ('r memory_table, error + 'a) state" where
  "store_rows legal rs x =
     (if legal rs then do { modify (\<lambda>w. w\<lparr>mt_rows := rs\<rparr>); ret x } else raise (Errorf ''duplicate entry''))"

definition mem_table :: "('r \<Rightarrow> 'k::linorder) \<Rightarrow> ('r list \<Rightarrow> 'k) \<Rightarrow> ('k \<Rightarrow> 'r \<Rightarrow> 'r) \<Rightarrow> (time \<Rightarrow> 'r \<Rightarrow> 'r) \<Rightarrow> (time \<Rightarrow> 'r \<Rightarrow> 'r) \<Rightarrow> ('r \<Rightarrow> 'r) \<Rightarrow>
    ('r list \<Rightarrow> bool) \<Rightarrow> ('r memory_table, 'r) table" where
  "mem_table key_of fresh with_key stamp touch fit legal = \<lparr>
     tb_Create = (\<lambda>r. do {
       w \<leftarrow> reads (\<lambda>w. w);
       store_rows legal (mt_rows w @ [fit (with_key (fresh (mt_rows w)) (stamp (mt_now w) r))]) (with_key (fresh (mt_rows w)) (stamp (mt_now w) r)) }),
     tb_Upsert = (\<lambda>r. do {
       w \<leftarrow> reads (\<lambda>w. w);
       store_rows legal (if key_of r \<in> key_of ` set (mt_rows w)
         then map (\<lambda>x. if key_of x = key_of r then fit r else x) (mt_rows w) else mt_rows w @ [fit r]) () }),
     tb_First = (\<lambda>P. do {
       rs \<leftarrow> reads (\<lambda>w. sort_key key_of (filter P (mt_rows w)));
       case rs of [] \<Rightarrow> raise ErrRecordNotFound | r # _ \<Rightarrow> ret r }),
     tb_Find = (\<lambda>q. reads (\<lambda>w. Inr (page (qy_limit q) (qy_offset q) (sort_wrt (qy_order q) (filter (qy_where q (mt_now w)) (mt_rows w)))))),
     tb_Count = (\<lambda>P. reads (\<lambda>w. Inr (int (length (filter P (mt_rows w)))))),
     tb_Updates = (\<lambda>P f. do {
       w \<leftarrow> reads (\<lambda>w. w);
       store_rows legal (map (\<lambda>r. if P r then fit (touch (mt_now w) (f r)) else r) (mt_rows w)) (int (length (filter P (mt_rows w)))) }),
     tb_Delete = (\<lambda>P. do {
       n \<leftarrow> reads (\<lambda>w. int (length (filter P (mt_rows w))));
       modify (\<lambda>w. w\<lparr>mt_rows := filter (\<lambda>r. \<not> P r) (mt_rows w)\<rparr>);
       ret n })\<rparr>"

lemma mem_table_laws:
  fixes key_of :: "'r \<Rightarrow> 'k::linorder"
  assumes "\<And>rs. fresh rs \<notin> key_of ` set rs"
    and "\<And>r. key_of (fit r) = key_of r" "\<And>k r. key_of (with_key k r) = k" "\<And>now r. key_of (stamp now r) = key_of r" "\<And>now r. key_of (touch now r) = key_of r"
  shows "gorm_table (mem_table key_of fresh with_key stamp touch fit legal) mt_rows (\<lambda>_. True) key_of with_key stamp touch fit legal"
proof (unfold_locales, goal_cases)
  case (1 w r)
  show ?case
    by (rule exI [where x = "fresh (mt_rows w)"], rule exI [where x = "mt_now w"]) (simp add: mem_table_def store_rows_def assms)
next
  case (3 w P)
  let ?rs = "sort_key key_of (filter P (mt_rows w))"
  show ?case
  proof (cases ?rs)
    case Nil
    then have "filter P (mt_rows w) = []" by (metis set_empty set_sort)
    then have "\<not> (\<exists>r \<in> set (mt_rows w). P r)" by (simp add: filter_empty_conv)
    with Nil show ?thesis by (simp add: mem_table_def)
  next
    case (Cons r rs)
    have "set (r # rs) = {x \<in> set (mt_rows w). P x}" unfolding Cons [symmetric] by simp
    moreover have "sorted (map key_of (r # rs))" unfolding Cons [symmetric] by simp
    ultimately have "r \<in> set (mt_rows w)" "P r" "\<forall>r' \<in> set (mt_rows w). P r' \<longrightarrow> key_of r \<le> key_of r'" by auto
    with Cons show ?thesis by (auto simp: mem_table_def)
  qed
next
  case (4 w q)
  then show ?case
    by (intro exI [where x = w] exI [where x = "mt_now w"] exI [where x = "sort_wrt (qy_order q) (filter (qy_where q (mt_now w)) (mt_rows w))"])
      (simp add: mem_table_def mset_sort_wrt sorted_sort_wrt mset_filter)
qed (simp_all add: mem_table_def store_rows_def Let_def assms, blast?)

end
