(* ===== verification/Mysql.thy ===== *)
theory Mysql
  imports Gorm Rows Repository
begin

text \<open>
  \<^verbatim>\<open>internal/repo/mysql\<close>: the repositories the processes run on, as the calls they make of gorm on the tables of \<^verbatim>\<open>migrations\<close>. They
  have the interfaces of \<open>Repository\<close>. What they promise is shown for every table that keeps the contract \<open>gorm_table\<close>.
\<close>

section \<open>Tables\<close>

record taskDependencyRow =
  dr_TaskID :: int
  dr_DependsOnTaskID :: int

record aiAnalysisRecordRow =
  ar_ID :: int
  ar_InstanceID :: int
  ar_AnalysisType :: string
  ar_InputJSON :: string
  ar_OutputJSON :: string
  ar_Confidence :: rat
  ar_CreatedAt :: time

record workerLoadSnapshotRow =
  lr_ID :: int
  lr_WorkerID :: string
  lr_CurrentLoad :: int
  lr_MaxConcurrency :: int
  lr_Status :: string
  lr_RecordedAt :: time

record 'w tables =
  tab_task :: "('w, taskRow) table"
  tab_dependency :: "('w, taskDependencyRow) table"
  tab_instance :: "('w, taskInstanceRow) table"
  tab_worker :: "('w, workerNodeRow) table"
  tab_analysis :: "('w, aiAnalysisRecordRow) table"
  tab_load :: "('w, workerLoadSnapshotRow) table"

definition by_key :: "('r \<Rightarrow> 'o::linorder) \<Rightarrow> 'r \<Rightarrow> 'r \<Rightarrow> bool" where
  "by_key f x y \<longleftrightarrow> f x \<le> f y"

definition unordered :: "'r \<Rightarrow> 'r \<Rightarrow> bool" where
  "unordered x y \<longleftrightarrow> True"

section \<open>Tasks\<close>

definition my_GetTask :: "'w tables \<Rightarrow> int \<Rightarrow> ('w, error + Task) state" where
  "my_GetTask D k = if_ok (wrapping ''get task'' (tb_First (tab_task D) (\<lambda>r. tr_ID r = k))) (\<lambda>row. ret (rowToTask row))"

definition my_CreateTask :: "'w tables \<Rightarrow> Task \<Rightarrow> ('w, error + Task) state" where
  "my_CreateTask D task =
     if_ok (wrapping ''insert task'' (tb_Create (tab_task D) ((taskToRow task)\<lparr>tr_ID := 0, tr_Version := 1\<rparr>))) (\<lambda>row.
     my_GetTask D (tr_ID row))"

definition task_updates :: "Task \<Rightarrow> taskRow \<Rightarrow> taskRow" where
  "task_updates task row = row\<lparr>tr_Name := t_Name task, tr_Type := t_Type task, tr_CronExpr := t_CronExpr task, tr_Payload := t_Payload task,
     tr_Image := t_Image task, tr_Status := t_Status task, tr_TimeoutSeconds := t_TimeoutSeconds task, tr_MaxRetry := t_MaxRetry task,
     tr_RetryPolicy := t_RetryPolicy task, tr_RetryOnErrors := t_RetryOnErrors task, tr_RouteStrategy := t_RouteStrategy task,
     tr_Labels := t_Labels task, tr_NextTriggerTime := timeOrNil (t_NextTriggerTime task), tr_TenantID := t_TenantID task,
     tr_Version := tr_Version row + 1\<rparr>"

definition my_UpdateTask :: "'w tables \<Rightarrow> Task \<Rightarrow> ('w, error + Task) state" where
  "my_UpdateTask D task =
     if_ok (wrapping ''update task'' (tb_Updates (tab_task D) (\<lambda>r. tr_ID r = t_ID task) (task_updates task))) (\<lambda>_.
     my_GetTask D (t_ID task))"

definition my_DeleteTask :: "'w tables \<Rightarrow> int \<Rightarrow> ('w, error + unit) state" where
  "my_DeleteTask D k = if_ok (wrapping ''delete task'' (tb_Delete (tab_task D) (\<lambda>r. tr_ID r = k))) (\<lambda>_. ret ())"

definition my_list :: "string \<Rightarrow> ('w, 'r) table \<Rightarrow> ('r \<Rightarrow> 'm) \<Rightarrow> 'r query \<Rightarrow> ('w, error + 'm list) state" where
  "my_list what G f q = if_ok (wrapping what (tb_Find G q)) (\<lambda>rows. ret (map f rows))"

definition my_ListTasks :: "'w tables \<Rightarrow> ('w, error + Task list) state" where
  "my_ListTasks D = my_list ''list tasks'' (tab_task D) rowToTask
     \<lparr>qy_where = (\<lambda>_ _. True), qy_order = by_key tr_ID, qy_limit = 0, qy_offset = 0\<rparr>"

definition my_ListTasksByTenant :: "'w tables \<Rightarrow> int \<Rightarrow> ('w, error + Task list) state" where
  "my_ListTasksByTenant D tenantID = my_list ''list tasks by tenant'' (tab_task D) rowToTask
     \<lparr>qy_where = (\<lambda>_ r. tr_TenantID r = tenantID), qy_order = by_key tr_ID, qy_limit = 0, qy_offset = 0\<rparr>"

definition due_row :: "time \<Rightarrow> taskRow \<Rightarrow> bool" where
  "due_row now r \<longleftrightarrow> tr_Status r = ''enabled'' \<and> (case tr_NextTriggerTime r of None \<Rightarrow> False | Some t \<Rightarrow> t \<le> now)"

definition my_ListDueTasks :: "'w tables \<Rightarrow> int \<Rightarrow> ('w, error + Task list) state" where
  "my_ListDueTasks D limit = my_list ''list due tasks'' (tab_task D) rowToTask
     \<lparr>qy_where = due_row, qy_order = by_key (\<lambda>r. the_default 0 (tr_NextTriggerTime r)),
      qy_limit = (if limit > 0 then limit else 0), qy_offset = 0\<rparr>"

definition my_AddDependency :: "'w tables \<Rightarrow> int \<Rightarrow> int \<Rightarrow> ('w, error + unit) state" where
  "my_AddDependency D taskID dependsOnTaskID =
     if_ok (wrapping ''add dependency'' (tb_Create (tab_dependency D) \<lparr>dr_TaskID = taskID, dr_DependsOnTaskID = dependsOnTaskID\<rparr>)) (\<lambda>_. ret ())"

definition my_RemoveDependency :: "'w tables \<Rightarrow> int \<Rightarrow> int \<Rightarrow> ('w, error + unit) state" where
  "my_RemoveDependency D taskID dependsOnTaskID =
     if_ok (wrapping ''remove dependency'' (tb_Delete (tab_dependency D)
       (\<lambda>r. dr_TaskID r = taskID \<and> dr_DependsOnTaskID r = dependsOnTaskID))) (\<lambda>_. ret ())"

definition my_ListDownstreamTasks :: "'w tables \<Rightarrow> int \<Rightarrow> ('w, error + int list) state" where
  "my_ListDownstreamTasks D taskID = my_list ''list downstream tasks'' (tab_dependency D) dr_TaskID
     \<lparr>qy_where = (\<lambda>_ r. dr_DependsOnTaskID r = taskID), qy_order = unordered, qy_limit = 0, qy_offset = 0\<rparr>"

definition my_ListUpstreamDeps :: "'w tables \<Rightarrow> int \<Rightarrow> ('w, error + int list) state" where
  "my_ListUpstreamDeps D taskID = my_list ''list upstream deps'' (tab_dependency D) dr_DependsOnTaskID
     \<lparr>qy_where = (\<lambda>_ r. dr_TaskID r = taskID), qy_order = unordered, qy_limit = 0, qy_offset = 0\<rparr>"

definition mysql_tasks :: "'w tables \<Rightarrow> 'w TaskRepository" where
  "mysql_tasks D = \<lparr>CreateTask = my_CreateTask D, UpdateTask = my_UpdateTask D, DeleteTask = my_DeleteTask D, GetTask = my_GetTask D,
     ListTasks = my_ListTasks D, ListTasksByTenant = my_ListTasksByTenant D, ListDueTasks = my_ListDueTasks D,
     AddDependency = my_AddDependency D, RemoveDependency = my_RemoveDependency D,
     ListDownstreamTasks = my_ListDownstreamTasks D, ListUpstreamDeps = my_ListUpstreamDeps D\<rparr>"

section \<open>Instances\<close>

definition my_GetInstance :: "'w tables \<Rightarrow> int \<Rightarrow> ('w, error + TaskInstance) state" where
  "my_GetInstance D k =
     if_ok (wrapping ''get task instance'' (tb_First (tab_instance D) (\<lambda>r. ir_ID r = k))) (\<lambda>row. ret (rowToTaskInstance row))"

definition my_CreateInstance :: "'w tables \<Rightarrow> TaskInstance \<Rightarrow> ('w, error + TaskInstance) state" where
  "my_CreateInstance D inst =
     if_ok (wrapping ''insert task instance'' (tb_Create (tab_instance D) ((taskInstanceToRow inst)\<lparr>ir_ID := 0\<rparr>))) (\<lambda>row.
     my_GetInstance D (ir_ID row))"

definition my_GetInstanceByScheduleID :: "'w tables \<Rightarrow> string \<Rightarrow> ('w, error + TaskInstance) state" where
  "my_GetInstanceByScheduleID D scheduleID =
     if_ok (wrapping ''get task instance by schedule id'' (tb_First (tab_instance D) (\<lambda>r. ir_ScheduleInstanceID r = scheduleID)))
       (\<lambda>row. ret (rowToTaskInstance row))"

definition my_ListInstances :: "'w tables \<Rightarrow> ('w, error + TaskInstance list) state" where
  "my_ListInstances D = my_list ''list task instances'' (tab_instance D) rowToTaskInstance
     \<lparr>qy_where = (\<lambda>_ _. True), qy_order = by_key ir_ID, qy_limit = 0, qy_offset = 0\<rparr>"

definition my_ListInstancesByTaskID :: "'w tables \<Rightarrow> int \<Rightarrow> ('w, error + TaskInstance list) state" where
  "my_ListInstancesByTaskID D taskID = my_list ''list instances by task id'' (tab_instance D) rowToTaskInstance
     \<lparr>qy_where = (\<lambda>_ r. ir_TaskID r = taskID), qy_order = by_key ir_CreatedAt, qy_limit = 0, qy_offset = 0\<rparr>"

definition my_ListInstancesByTimeRange :: "'w tables \<Rightarrow> time \<Rightarrow> time \<Rightarrow> int \<Rightarrow> int \<Rightarrow> ('w, error + TaskInstance list) state" where
  "my_ListInstancesByTimeRange D since till limit offset =
     my_list ''list instances by time range'' (tab_instance D) rowToTaskInstance
       \<lparr>qy_where = (\<lambda>_ r. since \<le> ir_CreatedAt r \<and> ir_CreatedAt r \<le> till), qy_order = by_key (\<lambda>r. - ir_CreatedAt r),
        qy_limit = (if limit > 0 then limit else 0), qy_offset = (if offset > 0 then offset else 0)\<rparr>"

definition my_ListInstancesByStatus :: "'w tables \<Rightarrow> string \<Rightarrow> int \<Rightarrow> ('w, error + TaskInstance list) state" where
  "my_ListInstancesByStatus D status limit = my_list ''list task instances by status'' (tab_instance D) rowToTaskInstance
     \<lparr>qy_where = (\<lambda>_ r. ir_Status r = status), qy_order = by_key ir_CreatedAt,
      qy_limit = (if limit > 0 then limit else 0), qy_offset = 0\<rparr>"

definition my_ListDueRetryInstances :: "'w tables \<Rightarrow> time \<Rightarrow> int \<Rightarrow> ('w, error + TaskInstance list) state" where
  "my_ListDueRetryInstances D cutoff limit = my_list ''list due retry instances'' (tab_instance D) rowToTaskInstance
     \<lparr>qy_where = (\<lambda>_ r. ir_Status r = ''retry_waiting'' \<and> (case ir_NextRetryTime r of None \<Rightarrow> True | Some t \<Rightarrow> t \<le> cutoff)),
      qy_order = by_key ir_CreatedAt, qy_limit = (if limit > 0 then limit else 0), qy_offset = 0\<rparr>"

definition my_CountInstancesByStatus :: "'w tables \<Rightarrow> string \<Rightarrow> ('w, error + int) state" where
  "my_CountInstancesByStatus D status = wrapping ''count instances by status'' (tb_Count (tab_instance D) (\<lambda>r. ir_Status r = status))"

definition my_UpdateInstanceStatus :: "'w tables \<Rightarrow> int \<Rightarrow> string \<Rightarrow> ('w, error + unit) state" where
  "my_UpdateInstanceStatus D instanceID status =
     if_ok (wrapping ''update task instance status'' (tb_Updates (tab_instance D) (\<lambda>r. ir_ID r = instanceID) (\<lambda>r. r\<lparr>ir_Status := status\<rparr>)))
       (\<lambda>_. ret ())"

definition parseDispatchTime :: "string \<Rightarrow> error + time option" where
  "parseDispatchTime value =
     (if value = [] then Inr None
      else case ParseRFC3339Nano value of
        None \<Rightarrow> Inl (Wrapped ''parse dispatch time'' (Errorf ''parsing time''))
      | Some t \<Rightarrow> Inr (Some t))"

definition my_UpdateInstanceDispatch :: "'w tables \<Rightarrow> int \<Rightarrow> string \<Rightarrow> string \<Rightarrow> ('w, error + unit) state" where
  "my_UpdateInstanceDispatch D instanceID workerID dispatchTime =
     (case parseDispatchTime dispatchTime of
        Inl err \<Rightarrow> raise err
      | Inr t \<Rightarrow> if_ok (wrapping ''update task instance dispatch'' (tb_Updates (tab_instance D) (\<lambda>r. ir_ID r = instanceID)
          (\<lambda>r. r\<lparr>ir_WorkerID := workerID, ir_DispatchTime := t, ir_Status := ''dispatched''\<rparr>))) (\<lambda>_. ret ()))"

definition my_UpdateInstanceResult :: "'w tables \<Rightarrow> string \<Rightarrow> string \<Rightarrow> string \<Rightarrow> string \<Rightarrow> ('w, error + unit) state" where
  "my_UpdateInstanceResult D scheduleID status errorCode errorMessage =
     if_ok (wrapping ''update task instance result'' (tb_Updates (tab_instance D) (\<lambda>r. ir_ScheduleInstanceID r = scheduleID)
       (\<lambda>r. r\<lparr>ir_Status := status, ir_ErrorCode := errorCode, ir_ErrorMessage := errorMessage\<rparr>))) (\<lambda>_. ret ())"

definition my_UpdateInstanceAnalysis :: "'w tables \<Rightarrow> string \<Rightarrow> string \<Rightarrow> ('w, error + unit) state" where
  "my_UpdateInstanceAnalysis D scheduleID analysisJSON =
     if_ok (wrapping ''update instance analysis'' (tb_Updates (tab_instance D) (\<lambda>r. ir_ScheduleInstanceID r = scheduleID)
       (\<lambda>r. r\<lparr>ir_AnalysisJSON := analysisJSON\<rparr>))) (\<lambda>_. ret ())"

definition my_UpdateInstanceTimestamps :: "'w tables \<Rightarrow> string \<Rightarrow> time \<Rightarrow> time \<Rightarrow> ('w, error + unit) state" where
  "my_UpdateInstanceTimestamps D scheduleID startedAt finishedAt =
     if_ok (wrapping ''update instance timestamps'' (tb_Updates (tab_instance D) (\<lambda>r. ir_ScheduleInstanceID r = scheduleID)
       (\<lambda>r. r\<lparr>ir_StartedAt := timeOrNil startedAt, ir_FinishedAt := timeOrNil finishedAt\<rparr>))) (\<lambda>_. ret ())"

definition mysql_instances :: "'w tables \<Rightarrow> 'w TaskInstanceRepository" where
  "mysql_instances D = \<lparr>CreateInstance = my_CreateInstance D, GetInstance = my_GetInstance D,
     GetInstanceByScheduleID = my_GetInstanceByScheduleID D, ListInstances = my_ListInstances D,
     ListInstancesByTaskID = my_ListInstancesByTaskID D, ListInstancesByTimeRange = my_ListInstancesByTimeRange D,
     ListInstancesByStatus = my_ListInstancesByStatus D, ListDueRetryInstances = my_ListDueRetryInstances D,
     CountInstancesByStatus = my_CountInstancesByStatus D, UpdateInstanceStatus = my_UpdateInstanceStatus D,
     UpdateInstanceDispatch = my_UpdateInstanceDispatch D, UpdateInstanceResult = my_UpdateInstanceResult D,
     UpdateInstanceAnalysis = my_UpdateInstanceAnalysis D, UpdateInstanceTimestamps = my_UpdateInstanceTimestamps D\<rparr>"

section \<open>Workers\<close>

definition upsert_row :: "WorkerNode \<Rightarrow> workerNodeRow" where
  "upsert_row worker = \<lparr>nr_ID = w_ID worker, nr_Hostname = w_Hostname worker, nr_IP = w_IP worker, nr_CallbackURL = w_CallbackURL worker,
     nr_GRPCAddr = w_GRPCAddr worker, nr_Protocol = w_Protocol worker, nr_Status = w_Status worker, nr_Labels = w_Labels worker,
     nr_MaxConcurrency = w_MaxConcurrency worker, nr_CurrentLoad = w_CurrentLoad worker, nr_LastHeartbeatAt = w_LastHeartbeatAt worker\<rparr>"

definition my_UpsertWorker :: "'w tables \<Rightarrow> WorkerNode \<Rightarrow> ('w, error + unit) state" where
  "my_UpsertWorker D worker = if_ok (wrapping ''upsert worker'' (tb_Upsert (tab_worker D) (upsert_row worker))) (\<lambda>_. ret ())"

definition my_GetWorker :: "'w tables \<Rightarrow> string \<Rightarrow> ('w, error + WorkerNode) state" where
  "my_GetWorker D wid = if_ok (wrapping ''get worker'' (tb_First (tab_worker D) (\<lambda>r. nr_ID r = wid))) (\<lambda>row. ret (rowToWorker row))"

definition my_ListWorkers :: "'w tables \<Rightarrow> ('w, error + WorkerNode list) state" where
  "my_ListWorkers D = my_list ''list workers'' (tab_worker D) rowToWorker
     \<lparr>qy_where = (\<lambda>_ _. True), qy_order = by_key nr_ID, qy_limit = 0, qy_offset = 0\<rparr>"

definition my_ListStaleWorkers :: "'w tables \<Rightarrow> time \<Rightarrow> ('w, error + WorkerNode list) state" where
  "my_ListStaleWorkers D cutoff = my_list ''list stale workers'' (tab_worker D) rowToWorker
     \<lparr>qy_where = (\<lambda>_ r. nr_Status r = ''online'' \<and> nr_LastHeartbeatAt r < cutoff), qy_order = by_key nr_ID, qy_limit = 0, qy_offset = 0\<rparr>"

definition spare_first :: "workerNodeRow \<Rightarrow> workerNodeRow \<Rightarrow> bool" where
  "spare_first x y \<longleftrightarrow> nr_CurrentLoad x < nr_CurrentLoad y \<or>
     nr_CurrentLoad x = nr_CurrentLoad y \<and> nr_LastHeartbeatAt y \<le> nr_LastHeartbeatAt x"

definition my_ListAvailableWorkers :: "'w tables \<Rightarrow> ('w, error + WorkerNode list) state" where
  "my_ListAvailableWorkers D = my_list ''list available workers'' (tab_worker D) rowToWorker
     \<lparr>qy_where = (\<lambda>_ r. nr_Status r = ''online'' \<and> nr_CurrentLoad r < nr_MaxConcurrency r), qy_order = spare_first, qy_limit = 0, qy_offset = 0\<rparr>"

definition mysql_workers :: "'w tables \<Rightarrow> 'w WorkerRepository" where
  "mysql_workers D = \<lparr>UpsertWorker = my_UpsertWorker D, GetWorker = my_GetWorker D, ListWorkers = my_ListWorkers D,
     ListAvailableWorkers = my_ListAvailableWorkers D, ListStaleWorkers = my_ListStaleWorkers D\<rparr>"

section \<open>Load snapshots and analysis records\<close>

definition my_CreateSnapshot :: "'w tables \<Rightarrow> WorkerLoadSnapshot \<Rightarrow> ('w, error + WorkerLoadSnapshot) state" where
  "my_CreateSnapshot D s =
     if_ok (wrapping ''insert worker load snapshot'' (tb_Create (tab_load D)
       \<lparr>lr_ID = 0, lr_WorkerID = l_WorkerID s, lr_CurrentLoad = l_CurrentLoad s, lr_MaxConcurrency = l_MaxConcurrency s,
        lr_Status = l_Status s, lr_RecordedAt = zero_time\<rparr>)) (\<lambda>row.
     ret (s\<lparr>l_ID := lr_ID row, l_RecordedAt := lr_RecordedAt row\<rparr>))"

definition my_ListSnapshots :: "'w tables \<Rightarrow> string \<Rightarrow> time \<Rightarrow> time \<Rightarrow> int \<Rightarrow> ('w, error + WorkerLoadSnapshot list) state" where
  "my_ListSnapshots D workerID since till limit = my_list ''list worker load snapshots'' (tab_load D)
     (\<lambda>r. \<lparr>l_ID = lr_ID r, l_WorkerID = lr_WorkerID r, l_CurrentLoad = lr_CurrentLoad r, l_MaxConcurrency = lr_MaxConcurrency r,
        l_Status = lr_Status r, l_RecordedAt = lr_RecordedAt r\<rparr>)
     \<lparr>qy_where = (\<lambda>_ r. since \<le> lr_RecordedAt r \<and> lr_RecordedAt r \<le> till \<and> (workerID \<noteq> [] \<longrightarrow> lr_WorkerID r = workerID)),
      qy_order = by_key (\<lambda>r. - lr_RecordedAt r), qy_limit = (if limit > 0 then limit else 0), qy_offset = 0\<rparr>"

definition my_DeleteSnapshotsBefore :: "'w tables \<Rightarrow> time \<Rightarrow> ('w, error + int) state" where
  "my_DeleteSnapshotsBefore D t = wrapping ''delete old worker load snapshots'' (tb_Delete (tab_load D) (\<lambda>r. lr_RecordedAt r < t))"

definition my_CreateRecord :: "'w tables \<Rightarrow> AIAnalysisRecord \<Rightarrow> ('w, error + AIAnalysisRecord) state" where
  "my_CreateRecord D a =
     if_ok (wrapping ''insert ai analysis record'' (tb_Create (tab_analysis D)
       \<lparr>ar_ID = 0, ar_InstanceID = a_InstanceID a, ar_AnalysisType = a_AnalysisType a, ar_InputJSON = a_InputJSON a,
        ar_OutputJSON = a_OutputJSON a, ar_Confidence = a_Confidence a, ar_CreatedAt = zero_time\<rparr>)) (\<lambda>row.
     ret (a\<lparr>a_ID := ar_ID row, a_CreatedAt := ar_CreatedAt row\<rparr>))"

definition my_DeleteOldRecords :: "'w tables \<Rightarrow> time \<Rightarrow> ('w, error + int) state" where
  "my_DeleteOldRecords D t = wrapping ''delete old ai analysis records'' (tb_Delete (tab_analysis D) (\<lambda>r. ar_CreatedAt r < t))"

section \<open>What the tables keep\<close>

text \<open>
  gorm sets \<^verbatim>\<open>CreatedAt\<close> and \<^verbatim>\<open>UpdatedAt\<close> where they are zero, and \<^verbatim>\<open>UpdatedAt\<close> at every update; \<open>col\<close> is what a time column keeps of a
  time. Names are unique for a tenant, schedule ids are unique.
\<close>

definition stamped :: "time \<Rightarrow> time \<Rightarrow> time" where
  "stamped now t = (if IsZero t then now else t)"

definition task_stamp :: "time \<Rightarrow> taskRow \<Rightarrow> taskRow" where
  "task_stamp now r = r\<lparr>tr_CreatedAt := stamped now (tr_CreatedAt r), tr_UpdatedAt := stamped now (tr_UpdatedAt r)\<rparr>"

definition task_touch :: "time \<Rightarrow> taskRow \<Rightarrow> taskRow" where
  "task_touch now r = r\<lparr>tr_UpdatedAt := now\<rparr>"

definition task_fit :: "(time \<Rightarrow> time) \<Rightarrow> taskRow \<Rightarrow> taskRow" where
  "task_fit col r = r\<lparr>tr_NextTriggerTime := map_option col (tr_NextTriggerTime r), tr_CreatedAt := col (tr_CreatedAt r), tr_UpdatedAt := col (tr_UpdatedAt r)\<rparr>"

definition task_legal :: "taskRow list \<Rightarrow> bool" where
  "task_legal rs \<longleftrightarrow> distinct (map tr_ID rs) \<and> distinct (map (\<lambda>r. (tr_TenantID r, tr_Name r)) rs)"

definition inst_stamp :: "time \<Rightarrow> taskInstanceRow \<Rightarrow> taskInstanceRow" where
  "inst_stamp now r = r\<lparr>ir_CreatedAt := stamped now (ir_CreatedAt r), ir_UpdatedAt := stamped now (ir_UpdatedAt r)\<rparr>"

definition inst_touch :: "time \<Rightarrow> taskInstanceRow \<Rightarrow> taskInstanceRow" where
  "inst_touch now r = r\<lparr>ir_UpdatedAt := now\<rparr>"

definition inst_fit :: "(time \<Rightarrow> time) \<Rightarrow> taskInstanceRow \<Rightarrow> taskInstanceRow" where
  "inst_fit col r = r\<lparr>ir_TriggerTime := col (ir_TriggerTime r), ir_DispatchTime := map_option col (ir_DispatchTime r),
     ir_StartedAt := map_option col (ir_StartedAt r), ir_FinishedAt := map_option col (ir_FinishedAt r),
     ir_NextRetryTime := map_option col (ir_NextRetryTime r), ir_CreatedAt := col (ir_CreatedAt r), ir_UpdatedAt := col (ir_UpdatedAt r)\<rparr>"

definition inst_legal :: "taskInstanceRow list \<Rightarrow> bool" where
  "inst_legal rs \<longleftrightarrow> distinct (map ir_ID rs) \<and> distinct (map ir_ScheduleInstanceID rs)"

locale task_table = gorm_table "tab_task D" rows up tr_ID "\<lambda>k r. r\<lparr>tr_ID := k\<rparr>" task_stamp task_touch "task_fit col" task_legal
  for D :: "'w tables" and rows :: "'w \<Rightarrow> taskRow list" and up :: "'w \<Rightarrow> bool" and col :: "time \<Rightarrow> time"

locale instance_table = gorm_table "tab_instance D" rows up ir_ID "\<lambda>k r. r\<lparr>ir_ID := k\<rparr>" inst_stamp inst_touch "inst_fit col" inst_legal
  for D :: "'w tables" and rows :: "'w \<Rightarrow> taskInstanceRow list" and up :: "'w \<Rightarrow> bool" and col :: "time \<Rightarrow> time"

text \<open>The tasks and instances a table holds.\<close>

definition task_view :: "taskRow list \<Rightarrow> int \<Rightarrow> Task option" where
  "task_view rs k = map_option rowToTask (map_of (map (\<lambda>r. (tr_ID r, r)) rs) k)"

definition kept_task :: "(time \<Rightarrow> time) \<Rightarrow> Task \<Rightarrow> Task" where
  "kept_task col t = (stored_task t)\<lparr>t_NextTriggerTime := (if IsZero (t_NextTriggerTime t) then zero_time else col (t_NextTriggerTime t)),
     t_CreatedAt := col (t_CreatedAt t), t_UpdatedAt := col (t_UpdatedAt t)\<rparr>"

lemma total_by_key [simp]: "total_order (by_key f)"
  by (auto simp: total_order_def by_key_def)

lemma total_unordered [simp]: "total_order unordered"
  by (simp add: total_order_def unordered_def)

lemma total_spare_first [simp]: "total_order spare_first"
  by (auto simp: total_order_def spare_first_def)

lemma row_kept_task:
  "rowToTask (task_fit col (taskToRow t)) = kept_task col t"
  by (simp add: rowToTask_def task_fit_def taskToRow_def kept_task_def stored_task_def zero_Task_def timeOrNil_def)

context gorm_table
begin

lemma my_list_run:
  assumes "up w" "total_order (qy_order q)"
  shows "\<exists>w' now rs. run_state (my_list what G f q) w = (Inr (map f (page (qy_limit q) (qy_offset q) rs)), w') \<and> up w' \<and> rows w' = rows w \<and>
    mset rs = filter_mset (qy_where q now) (mset (rows w)) \<and> sorted_wrt (qy_order q) rs"
  using find_all [OF assms] by (auto simp: my_list_def) blast

end

context task_table
begin

lemma view_row: "task_view (rows w) k = map_option rowToTask (row_of w k)"
  by (simp add: task_view_def row_of_def)

lemma legal_unique: "task_legal (rows w) \<Longrightarrow> unique_keys w"
  by (simp add: task_legal_def unique_keys_def)

lemma get_run:
  assumes "up w" "unique_keys w"
  shows "\<exists>w'. run_state (my_GetTask D k) w =
    (case task_view (rows w) k of None \<Rightarrow> Inl (Wrapped ''get task'' ErrRecordNotFound) | Some t \<Rightarrow> Inr t, w') \<and> up w' \<and> rows w' = rows w"
  using first_by_key [OF assms, of k] by (auto simp: my_GetTask_def view_row split: option.split)

lemma create_run:
  assumes "up w" "task_legal (rows w)" "\<forall>r \<in> set (rows w). (tr_TenantID r, tr_Name r) \<noteq> (t_TenantID t, t_Name t)"
  shows "\<exists>w' k now t'. run_state (my_CreateTask D t) w = (Inr t', w') \<and> up w' \<and> task_legal (rows w') \<and> task_view (rows w) k = None \<and>
    t' = kept_task col (t\<lparr>t_ID := k, t_Version := 1, t_CreatedAt := stamped now (t_CreatedAt t), t_UpdatedAt := stamped now (t_UpdatedAt t)\<rparr>) \<and>
    task_view (rows w') = (task_view (rows w))(k \<mapsto> t')"
proof -
  let ?r = "(taskToRow t)\<lparr>tr_ID := 0, tr_Version := 1\<rparr>"
  obtain k now w1 res where c: "run_state (tb_Create (tab_task D) ?r) w = (res, w1)" "up w1" "k \<notin> tr_ID ` set (rows w)"
      "if task_legal (rows w @ [task_fit col ((task_stamp now ?r)\<lparr>tr_ID := k\<rparr>)])
       then res = Inr ((task_stamp now ?r)\<lparr>tr_ID := k\<rparr>) \<and> rows w1 = rows w @ [task_fit col ((task_stamp now ?r)\<lparr>tr_ID := k\<rparr>)]
       else (\<exists>e. res = Inl e) \<and> rows w1 = rows w"
    using create [OF assms(1), of ?r] by blast
  let ?new = "task_fit col ((task_stamp now ?r)\<lparr>tr_ID := k\<rparr>)"
  let ?t = "t\<lparr>t_ID := k, t_Version := 1, t_CreatedAt := stamped now (t_CreatedAt t), t_UpdatedAt := stamped now (t_UpdatedAt t)\<rparr>"
  have id: "tr_ID ?new = k" and nm: "(tr_TenantID ?new, tr_Name ?new) = (t_TenantID t, t_Name t)"
    by (simp_all add: task_fit_def task_stamp_def taskToRow_def)
  have legal: "task_legal (rows w @ [?new])"
    using assms(2,3) c(3) id nm unfolding task_legal_def by (auto simp: image_iff)
  with c(4) have r: "res = Inr ((task_stamp now ?r)\<lparr>tr_ID := k\<rparr>)" "rows w1 = rows w @ [?new]" by auto
  note u = legal_unique [OF assms(2)]
  have row: "row_of w1 = (row_of w)(k \<mapsto> ?new)" "unique_keys w1" using created_row [OF u c(3) r(2) id] by auto
  have "?new = task_fit col (taskToRow ?t)" by (simp add: task_fit_def task_stamp_def taskToRow_def stamped_def timeOrNil_def)
  then have new: "rowToTask ?new = kept_task col ?t" by (simp add: row_kept_task)
  have v: "task_view (rows w1) = (task_view (rows w))(k \<mapsto> kept_task col ?t)"
    by (rule ext) (simp add: view_row row(1) new)
  obtain w2 where g: "run_state (my_GetTask D k) w1 = (Inr (kept_task col ?t), w2)" "up w2" "rows w2 = rows w1"
    using get_run [OF c(2) row(2), of k] by (auto simp: v)
  have "run_state (my_CreateTask D t) w = (Inr (kept_task col ?t), w2)"
    using g(1) by (simp add: my_CreateTask_def c(1) r(1))
  moreover have "task_view (rows w) k = None" using c(3) by (simp add: view_row row_of_None)
  ultimately show ?thesis using g v legal r(2) by metis
qed

lemma update_legal:
  assumes "task_legal rs" "\<forall>r \<in> set rs. tr_ID r \<noteq> t_ID t \<longrightarrow> (tr_TenantID r, tr_Name r) \<noteq> (t_TenantID t, t_Name t)"
  shows "task_legal (map (\<lambda>r. if tr_ID r = t_ID t then task_fit col (task_touch now (task_updates t r)) else r) rs)"
proof -
  have same: "tr_ID (task_fit col (task_touch now (task_updates t r))) = tr_ID r"
      "(tr_TenantID (task_fit col (task_touch now (task_updates t r))), tr_Name (task_fit col (task_touch now (task_updates t r)))) = (t_TenantID t, t_Name t)" for r
    by (simp_all add: task_fit_def task_touch_def task_updates_def)
  have d: "distinct rs" "inj_on tr_ID (set rs)" "inj_on (\<lambda>r. (tr_TenantID r, tr_Name r)) (set rs)"
    using assms(1) by (simp_all add: task_legal_def distinct_map)
  have "inj_on (\<lambda>r. if tr_ID r = t_ID t then (t_TenantID t, t_Name t) else (tr_TenantID r, tr_Name r)) (set rs)"
  proof (rule inj_onI)
    fix x y
    assume xy: "x \<in> set rs" "y \<in> set rs" "(if tr_ID x = t_ID t then (t_TenantID t, t_Name t) else (tr_TenantID x, tr_Name x)) =
      (if tr_ID y = t_ID t then (t_TenantID t, t_Name t) else (tr_TenantID y, tr_Name y))"
    then show "x = y"
      using assms(2) inj_onD [OF d(2), of x y] inj_onD [OF d(3), of x y] by (auto split: if_splits)
  qed
  moreover have "map tr_ID (map (\<lambda>r. if tr_ID r = t_ID t then task_fit col (task_touch now (task_updates t r)) else r) rs) = map tr_ID rs"
    by (simp add: same(1))
  moreover have "map (\<lambda>r. (tr_TenantID r, tr_Name r)) (map (\<lambda>r. if tr_ID r = t_ID t then task_fit col (task_touch now (task_updates t r)) else r) rs) =
      map (\<lambda>r. if tr_ID r = t_ID t then (t_TenantID t, t_Name t) else (tr_TenantID r, tr_Name r)) rs"
    using same(2) by auto
  ultimately show ?thesis using d assms(1) unfolding task_legal_def by (simp only: distinct_map)
qed

lemma update_run:
  assumes "up w" "task_legal (rows w)" "\<forall>r \<in> set (rows w). tr_ID r \<noteq> t_ID t \<longrightarrow> (tr_TenantID r, tr_Name r) \<noteq> (t_TenantID t, t_Name t)"
  shows "\<exists>w' now. up w' \<and> task_legal (rows w') \<and>
    (case task_view (rows w) (t_ID t) of
       None \<Rightarrow> run_state (my_UpdateTask D t) w = (Inl (Wrapped ''get task'' ErrRecordNotFound), w') \<and> task_view (rows w') = task_view (rows w)
     | Some cur \<Rightarrow> \<exists>t'. run_state (my_UpdateTask D t) w = (Inr t', w') \<and>
         t' = kept_task col (t\<lparr>t_CreatedAt := t_CreatedAt cur, t_UpdatedAt := now, t_Version := t_Version cur + 1\<rparr>) \<and>
         task_view (rows w') = (task_view (rows w))(t_ID t \<mapsto> t'))"
proof -
  let ?f = "\<lambda>now r. task_fit col (task_touch now (task_updates t r))"
  obtain now w1 res where u: "run_state (tb_Updates (tab_task D) (\<lambda>r. tr_ID r = t_ID t) (task_updates t)) w = (res, w1)" "up w1"
      "let rs = map (\<lambda>r. if tr_ID r = t_ID t then ?f now r else r) (rows w)
       in if task_legal rs then res = Inr (int (length (filter (\<lambda>r. tr_ID r = t_ID t) (rows w)))) \<and> rows w1 = rs else (\<exists>e. res = Inl e) \<and> rows w1 = rows w"
    using update_rows [OF assms(1), of "\<lambda>r. tr_ID r = t_ID t" "task_updates t"] by blast
  have legal: "task_legal (map (\<lambda>r. if tr_ID r = t_ID t then ?f now r else r) (rows w))"
    by (rule update_legal [OF assms(2,3)])
  with u(3) have r: "res = Inr (int (length (filter (\<lambda>r. tr_ID r = t_ID t) (rows w))))"
      "rows w1 = map (\<lambda>r. if tr_ID r = t_ID t then ?f now r else r) (rows w)" by (simp_all add: Let_def)
  have k: "tr_ID (?f now x) = tr_ID x" for x by (simp add: task_fit_def task_touch_def task_updates_def)
  have row: "row_of w1 = (row_of w)(t_ID t := map_option (?f now) (row_of w (t_ID t)))" "unique_keys w1"
    using updated_row [OF legal_unique [OF assms(2)] k r(2)] by auto
  obtain w2 where g: "run_state (my_GetTask D (t_ID t)) w1 =
      (case task_view (rows w1) (t_ID t) of None \<Rightarrow> Inl (Wrapped ''get task'' ErrRecordNotFound) | Some t \<Rightarrow> Inr t, w2)" "up w2" "rows w2 = rows w1"
    using get_run [OF u(2) row(2)] by blast
  have run: "run_state (my_UpdateTask D t) w = run_state (my_GetTask D (t_ID t)) w1"
    by (simp add: my_UpdateTask_def u(1) r(1))
  show ?thesis
  proof (cases "row_of w (t_ID t)")
    case None
    then have "task_view (rows w1) = task_view (rows w)" by (intro ext) (simp add: view_row row(1))
    with None g run legal r(2) show ?thesis by (auto simp: view_row)
  next
    case (Some r0)
    then have "tr_ID r0 = t_ID t" by (simp add: row_of_iff [OF legal_unique [OF assms(2)]])
    then have "rowToTask (?f now r0) = kept_task col (t\<lparr>t_CreatedAt := t_CreatedAt (rowToTask r0), t_UpdatedAt := now, t_Version := t_Version (rowToTask r0) + 1\<rparr>)"
      by (simp add: rowToTask_def task_fit_def task_touch_def task_updates_def kept_task_def stored_task_def zero_Task_def timeOrNil_def)
    moreover have "task_view (rows w1) = (task_view (rows w))(t_ID t \<mapsto> rowToTask (?f now r0))"
      by (rule ext) (simp add: view_row row(1) Some)
    ultimately show ?thesis using Some g run legal r(2) by (intro exI [where x = w2] exI [where x = now]) (simp add: view_row)
  qed
qed

lemma delete_run:
  assumes "up w" "unique_keys w"
  shows "\<exists>w'. run_state (my_DeleteTask D k) w = (Inr (), w') \<and> up w' \<and> task_view (rows w') = (task_view (rows w))(k := None)"
proof -
  obtain w' where d: "run_state (tb_Delete (tab_task D) (\<lambda>r. tr_ID r = k)) w = (Inr (int (length (filter (\<lambda>r. tr_ID r = k) (rows w)))), w')" "up w'"
      "rows w' = filter (\<lambda>r. \<not> tr_ID r = k) (rows w)"
    using delete_rows [OF assms(1), of "\<lambda>r. tr_ID r = k"] by blast
  have "task_view (rows w') = (task_view (rows w))(k := None)"
    by (rule ext) (simp add: view_row deleted_row(1) [OF assms(2) d(3)])
  with d show ?thesis by (auto simp: my_DeleteTask_def)
qed

lemma due_run:
  assumes "up w"
  shows "\<exists>w' now rs. run_state (my_ListDueTasks D n) w = (Inr (map rowToTask (limit_list n rs)), w') \<and> up w' \<and> rows w' = rows w \<and>
    mset rs = filter_mset (due_row now) (mset (rows w)) \<and> sorted (map (\<lambda>r. t_NextTriggerTime (rowToTask r)) rs)"
proof -
  let ?q = "\<lparr>qy_where = due_row, qy_order = by_key (\<lambda>r. the_default 0 (tr_NextTriggerTime r)), qy_limit = (if n > 0 then n else 0), qy_offset = 0\<rparr>"
  obtain w' now rs where r: "run_state (my_list ''list due tasks'' (tab_task D) rowToTask ?q) w = (Inr (map rowToTask (page (qy_limit ?q) (qy_offset ?q) rs)), w')"
      "up w'" "rows w' = rows w" "mset rs = filter_mset (qy_where ?q now) (mset (rows w))" "sorted_wrt (qy_order ?q) rs"
    using my_list_run [OF assms, where q = ?q and what = "''list due tasks''" and f = rowToTask] by fastforce
  have "page (qy_limit ?q) (qy_offset ?q) rs = limit_list n rs"
    by (auto simp: page_def limit_list_def)
  moreover have "t_NextTriggerTime (rowToTask x) = the_default 0 (tr_NextTriggerTime x)" if "x \<in> set rs" for x
  proof -
    have "due_row now x" using that r(4) by (metis (no_types, lifting) filter_mset_eq_conv query.select_convs(1) set_mset_mset)
    then show ?thesis by (cases "tr_NextTriggerTime x") (simp_all add: due_row_def rowToTask_def)
  qed
  then have "sorted (map (\<lambda>r. t_NextTriggerTime (rowToTask r)) rs) = sorted (map (\<lambda>r. the_default 0 (tr_NextTriggerTime r)) rs)"
    by (metis (mono_tags, lifting) map_cong)
  moreover have "sorted (map (\<lambda>r. the_default 0 (tr_NextTriggerTime r)) rs)"
    using r(5) by (simp add: sorted_map by_key_def [abs_def])
  ultimately show ?thesis
    using r unfolding my_ListDueTasks_def by (intro exI [where x = w'] exI [where x = now] exI [where x = rs]) simp
qed

end


section \<open>Instances in the table\<close>

definition inst_view :: "taskInstanceRow list \<Rightarrow> string \<Rightarrow> TaskInstance option" where
  "inst_view rs sid = map_option rowToTaskInstance (map_of (map (\<lambda>r. (ir_ScheduleInstanceID r, r)) rs) sid)"

context instance_table
begin

lemma inst_view_iff:
  "inst_legal rs \<Longrightarrow> inst_view rs sid = Some i \<longleftrightarrow> (\<exists>r \<in> set rs. ir_ScheduleInstanceID r = sid \<and> rowToTaskInstance r = i)"
  unfolding inst_view_def inst_legal_def by (auto simp: map_of_eq_Some_iff comp_def)

text \<open>An update of columns by schedule id.\<close>

lemma update_schedule:
  assumes "up w" "inst_legal (rows w)" "\<And>r. ir_ID (f r) = ir_ID r" "\<And>r. ir_ScheduleInstanceID (f r) = ir_ScheduleInstanceID r"
  shows "\<exists>w' now n. run_state (tb_Updates (tab_instance D) (\<lambda>r. ir_ScheduleInstanceID r = sid) f) w = (Inr n, w') \<and> up w' \<and> inst_legal (rows w') \<and>
    rows w' = map (\<lambda>r. if ir_ScheduleInstanceID r = sid then inst_fit col (inst_touch now (f r)) else r) (rows w)"
proof -
  obtain now w' res where u: "run_state (tb_Updates (tab_instance D) (\<lambda>r. ir_ScheduleInstanceID r = sid) f) w = (res, w')" "up w'"
      "let rs = map (\<lambda>r. if ir_ScheduleInstanceID r = sid then inst_fit col (inst_touch now (f r)) else r) (rows w)
       in if inst_legal rs then res = Inr (int (length (filter (\<lambda>r. ir_ScheduleInstanceID r = sid) (rows w)))) \<and> rows w' = rs
          else (\<exists>e. res = Inl e) \<and> rows w' = rows w"
    using update_rows [OF assms(1), of "\<lambda>r. ir_ScheduleInstanceID r = sid" f] by blast
  let ?rs = "map (\<lambda>r. if ir_ScheduleInstanceID r = sid then inst_fit col (inst_touch now (f r)) else r) (rows w)"
  have "map ir_ID ?rs = map ir_ID (rows w)" "map ir_ScheduleInstanceID ?rs = map ir_ScheduleInstanceID (rows w)"
    by (simp_all add: inst_fit_def inst_touch_def assms(3,4))
  then have "inst_legal ?rs" using assms(2) unfolding inst_legal_def by presburger
  with u show ?thesis by (simp add: Let_def) blast
qed

lemma view_after_update:
  assumes "inst_legal rs" "\<forall>r \<in> set rs. inst_fit col r = r" "\<And>r. ir_ScheduleInstanceID (f r) = ir_ScheduleInstanceID r"
    and "\<And>r. inst_fit col r = r \<Longrightarrow> rowToTaskInstance (inst_fit col (inst_touch now (f r))) = g (rowToTaskInstance r)"
  shows "inst_view (map (\<lambda>r. if ir_ScheduleInstanceID r = sid then inst_fit col (inst_touch now (f r)) else r) rs) =
    (inst_view rs)(sid := map_option g (inst_view rs sid))"
proof
  fix s
  have key: "ir_ScheduleInstanceID (inst_fit col (inst_touch now (f r))) = ir_ScheduleInstanceID r" for r
    by (simp add: inst_fit_def inst_touch_def assms(3))
  show "inst_view (map (\<lambda>r. if ir_ScheduleInstanceID r = sid then inst_fit col (inst_touch now (f r)) else r) rs) s =
      ((inst_view rs)(sid := map_option g (inst_view rs sid))) s"
    using assms(2) by (induction rs) (auto simp: inst_view_def key assms(4))
qed

lemma result_run:
  assumes "up w" "inst_legal (rows w)" "\<forall>r \<in> set (rows w). inst_fit col r = r"
  shows "\<exists>w' now. run_state (my_UpdateInstanceResult D sid st code msg) w = (Inr (), w') \<and> up w' \<and> inst_legal (rows w') \<and>
    inst_view (rows w') = (inst_view (rows w))(sid := map_option (\<lambda>i. i\<lparr>i_Status := st, i_ErrorCode := code, i_ErrorMessage := msg, i_UpdatedAt := col now\<rparr>)
      (inst_view (rows w) sid))"
proof -
  let ?f = "\<lambda>r. r\<lparr>ir_Status := st, ir_ErrorCode := code, ir_ErrorMessage := msg\<rparr>"
  obtain w' now n where u: "run_state (tb_Updates (tab_instance D) (\<lambda>r. ir_ScheduleInstanceID r = sid) ?f) w = (Inr n, w')" "up w'" "inst_legal (rows w')"
      "rows w' = map (\<lambda>r. if ir_ScheduleInstanceID r = sid then inst_fit col (inst_touch now (?f r)) else r) (rows w)"
    using update_schedule [OF assms(1,2), of ?f sid] by auto
  have "inst_view (rows w') = (inst_view (rows w))(sid := map_option (\<lambda>i. i\<lparr>i_Status := st, i_ErrorCode := code, i_ErrorMessage := msg, i_UpdatedAt := col now\<rparr>)
      (inst_view (rows w) sid))"
    unfolding u(4)
  proof (rule view_after_update [OF assms(2,3)])
    fix r
    assume "inst_fit col r = r"
    then show "rowToTaskInstance (inst_fit col (inst_touch now (?f r))) =
        (rowToTaskInstance r)\<lparr>i_Status := st, i_ErrorCode := code, i_ErrorMessage := msg, i_UpdatedAt := col now\<rparr>"
      by (cases r) (simp add: inst_fit_def inst_touch_def rowToTaskInstance_def zero_TaskInstance_def)
  qed simp
  with u show ?thesis by (auto simp: my_UpdateInstanceResult_def)
qed

lemma timestamps_run:
  assumes "up w" "inst_legal (rows w)" "\<forall>r \<in> set (rows w). inst_fit col r = r"
  shows "\<exists>w' now. run_state (my_UpdateInstanceTimestamps D sid st fi) w = (Inr (), w') \<and> up w' \<and> inst_legal (rows w') \<and>
    inst_view (rows w') = (inst_view (rows w))(sid := map_option (\<lambda>i. i\<lparr>i_StartedAt := (if IsZero st then zero_time else col st),
      i_FinishedAt := (if IsZero fi then zero_time else col fi), i_UpdatedAt := col now\<rparr>) (inst_view (rows w) sid))"
proof -
  let ?f = "\<lambda>r. r\<lparr>ir_StartedAt := timeOrNil st, ir_FinishedAt := timeOrNil fi\<rparr>"
  obtain w' now n where u: "run_state (tb_Updates (tab_instance D) (\<lambda>r. ir_ScheduleInstanceID r = sid) ?f) w = (Inr n, w')" "up w'" "inst_legal (rows w')"
      "rows w' = map (\<lambda>r. if ir_ScheduleInstanceID r = sid then inst_fit col (inst_touch now (?f r)) else r) (rows w)"
    using update_schedule [OF assms(1,2), of ?f sid] by auto
  have "inst_view (rows w') = (inst_view (rows w))(sid := map_option (\<lambda>i. i\<lparr>i_StartedAt := (if IsZero st then zero_time else col st),
      i_FinishedAt := (if IsZero fi then zero_time else col fi), i_UpdatedAt := col now\<rparr>) (inst_view (rows w) sid))"
    unfolding u(4)
  proof (rule view_after_update [OF assms(2,3)])
    fix r
    assume "inst_fit col r = r"
    then show "rowToTaskInstance (inst_fit col (inst_touch now (?f r))) =
        (rowToTaskInstance r)\<lparr>i_StartedAt := (if IsZero st then zero_time else col st), i_FinishedAt := (if IsZero fi then zero_time else col fi), i_UpdatedAt := col now\<rparr>"
      by (cases r) (simp add: inst_fit_def inst_touch_def rowToTaskInstance_def zero_TaskInstance_def timeOrNil_def)
  qed simp
  with u show ?thesis by (auto simp: my_UpdateInstanceTimestamps_def)
qed

lemma by_schedule_run:
  assumes "up w" "inst_legal (rows w)"
  shows "\<exists>w'. run_state (my_GetInstanceByScheduleID D sid) w =
    (case inst_view (rows w) sid of None \<Rightarrow> Inl (Wrapped ''get task instance by schedule id'' ErrRecordNotFound) | Some i \<Rightarrow> Inr i, w') \<and> up w' \<and> rows w' = rows w"
proof -
  obtain w' res where f: "run_state (tb_First (tab_instance D) (\<lambda>r. ir_ScheduleInstanceID r = sid)) w = (res, w')" "up w'" "rows w' = rows w"
      "if \<exists>r \<in> set (rows w). ir_ScheduleInstanceID r = sid
       then \<exists>r \<in> set (rows w). ir_ScheduleInstanceID r = sid \<and> (\<forall>r' \<in> set (rows w). ir_ScheduleInstanceID r' = sid \<longrightarrow> ir_ID r \<le> ir_ID r') \<and> res = Inr r
       else res = Inl ErrRecordNotFound"
    using find_first [OF assms(1), of "\<lambda>r. ir_ScheduleInstanceID r = sid"] by blast
  show ?thesis
  proof (cases "inst_view (rows w) sid")
    case None
    then have "\<not> (\<exists>r \<in> set (rows w). ir_ScheduleInstanceID r = sid)"
      using inst_view_iff [OF assms(2), of sid] by (metis option.distinct(1))
    with f None show ?thesis by (simp add: my_GetInstanceByScheduleID_def)
  next
    case (Some i)
    then have "\<exists>r \<in> set (rows w). ir_ScheduleInstanceID r = sid" using inst_view_iff [OF assms(2)] by blast
    with f(4) obtain r where "r \<in> set (rows w)" "ir_ScheduleInstanceID r = sid" "res = Inr r" by (metis (full_types))
    moreover then have "inst_view (rows w) sid = Some (rowToTaskInstance r)" using inst_view_iff [OF assms(2)] by blast
    ultimately show ?thesis using f by (simp add: my_GetInstanceByScheduleID_def)
  qed
qed

end


section \<open>Tables in memory\<close>

text \<open>A \<^verbatim>\<open>DATETIME\<close> column: MySQL rounds to the second.\<close>

definition datetime :: "time \<Rightarrow> time" where
  "datetime t = (t + second div 2) div second * second"

definition no_table :: "('w, 'r) table" where
  "no_table = (let missing = Errorf ''table does not exist'' in
     \<lparr>tb_Create = (\<lambda>_. raise missing), tb_Upsert = (\<lambda>_. raise missing), tb_First = (\<lambda>_. raise missing), tb_Find = (\<lambda>_. raise missing),
      tb_Count = (\<lambda>_. raise missing), tb_Updates = (\<lambda>_ _. raise missing), tb_Delete = (\<lambda>_. raise missing)\<rparr>)"

definition no_tables :: "'w tables" where
  "no_tables = \<lparr>tab_task = no_table, tab_dependency = no_table, tab_instance = no_table, tab_worker = no_table, tab_analysis = no_table, tab_load = no_table\<rparr>"

definition next_key :: "('r \<Rightarrow> int) \<Rightarrow> 'r list \<Rightarrow> int" where
  "next_key key_of rs = 1 + foldr (\<lambda>r m. max (key_of r) m) rs 0"

lemma next_key_fresh: "next_key key_of rs \<notin> key_of ` set rs"
proof -
  have "r \<in> set rs \<Longrightarrow> key_of r \<le> foldr (\<lambda>r m. max (key_of r) m) rs 0" for r by (induction rs) auto
  then show ?thesis by (force simp: next_key_def)
qed

definition task_db :: "taskRow memory_table tables" where
  "task_db = no_tables\<lparr>tab_task := mem_table tr_ID (next_key tr_ID) (\<lambda>k r. r\<lparr>tr_ID := k\<rparr>) task_stamp task_touch (task_fit datetime) task_legal\<rparr>"

definition instance_db :: "taskInstanceRow memory_table tables" where
  "instance_db = no_tables\<lparr>tab_instance := mem_table ir_ID (next_key ir_ID) (\<lambda>k r. r\<lparr>ir_ID := k\<rparr>) inst_stamp inst_touch (inst_fit datetime) inst_legal\<rparr>"

lemma tab_task_db: "tab_task task_db = mem_table tr_ID (next_key tr_ID) (\<lambda>k r. r\<lparr>tr_ID := k\<rparr>) task_stamp task_touch (task_fit datetime) task_legal"
  by (simp add: task_db_def)

lemma tab_instance_db:
  "tab_instance instance_db = mem_table ir_ID (next_key ir_ID) (\<lambda>k r. r\<lparr>ir_ID := k\<rparr>) inst_stamp inst_touch (inst_fit datetime) inst_legal"
  by (simp add: instance_db_def)

interpretation mem_tasks: task_table task_db mt_rows "\<lambda>_. True" datetime
  unfolding task_table_def tab_task_db
  by (rule mem_table_laws) (simp_all add: next_key_fresh task_fit_def task_stamp_def task_touch_def)

interpretation mem_instances: instance_table instance_db mt_rows "\<lambda>_. True" datetime
  unfolding instance_table_def tab_instance_db
  by (rule mem_table_laws) (simp_all add: next_key_fresh inst_fit_def inst_stamp_def inst_touch_def)

text \<open>A task created in an empty table: its shards and its event are gone when it is read back.\<close>

definition event_task :: Task where
  "event_task = zero_Task\<lparr>t_Name := ''import'', t_Type := ''shell'', t_Status := ''enabled'', t_TriggerType := ''event'', t_EventName := ''file'', t_TotalShards := 4\<rparr>"

definition empty_table :: "'r memory_table" where
  "empty_table = \<lparr>mt_rows = [], mt_now = 90 * second\<rparr>"


definition sample_row :: taskInstanceRow where
  "sample_row = taskInstanceToRow (zero_TaskInstance\<lparr>i_ID := 1, i_ScheduleInstanceID := ''task-1-1'', i_Status := ''running'', i_StartedAt := 60 * second\<rparr>)"

definition sample_table :: "taskInstanceRow memory_table" where
  "sample_table = \<lparr>mt_rows = [sample_row], mt_now = 90 * second\<rparr>"


end
