(* ===== verification/Migrate.thy ===== *)
theory Migrate
  imports World
begin

text \<open>
  \<^verbatim>\<open>internal/pkg/xmysql/migrate.go\<close>: the migrations of the database. The file system is a pair of functions. The database
  answers its \<open>n\<close>-th call by \<open>fails n\<close>, or by itself: \<^verbatim>\<open>filename\<close> is the primary key of \<^verbatim>\<open>schema_migrations\<close>, so a second
  entry of a name is refused. A statement that is answered without an error has run; the statements here define
  tables, which MySQL commits at once, so a rollback takes back only the entry of the name. Of a listing whose
  connection breaks the first \<open>yields n\<close> rows are read, and a commit that is answered by an error may have been
  done (\<open>landed n\<close>).
\<close>

section \<open>The package path/filepath\<close>

text \<open>\<open>stack\<close> holds the parts kept so far, the last one first.\<close>

fun clean_parts :: "bool \<Rightarrow> string list \<Rightarrow> string list \<Rightarrow> string list" where
  "clean_parts rooted stack [] = rev stack"
| "clean_parts rooted stack (p # ps) =
     (if p = [] \<or> p = ''.'' then clean_parts rooted stack ps
      else if p = ''..'' then
        (if stack \<noteq> [] \<and> hd stack \<noteq> ''..'' then clean_parts rooted (tl stack) ps
         else if rooted then clean_parts rooted stack ps
         else clean_parts rooted (p # stack) ps)
      else clean_parts rooted (p # stack) ps)"

definition Clean :: "string \<Rightarrow> string" where
  "Clean path =
     (let rooted = (path \<noteq> [] \<and> hd path = CHR ''/'');
          out = (if rooted then ''/'' else []) @ Join (CHR ''/'') (clean_parts rooted [] (Split (CHR ''/'') path))
      in if out = [] then ''.'' else out)"

definition filepath_Join :: "string \<Rightarrow> string \<Rightarrow> string" where
  "filepath_Join dir name = Clean (if dir = [] then name else dir @ CHR ''/'' # name)"

definition Base :: "string \<Rightarrow> string" where
  "Base path =
     (if path = [] then ''.''
      else let s = trim_slashes path in
        if s = [] then ''/'' else rev (takeWhile (\<lambda>c. c \<noteq> CHR ''/'') (rev s)))"

definition HasSuffix :: "string \<Rightarrow> string \<Rightarrow> bool" where
  "HasSuffix s t = is_prefix (rev t) (rev s)"

section \<open>The database and the files\<close>

record database =
  tracked :: "string list"
  executed :: "string list"
  calls :: nat
  fails :: "nat \<Rightarrow> error option"
  yields :: "nat \<Rightarrow> nat"
  landed :: "nat \<Rightarrow> bool"

record filesystem =
  ReadDir :: "string \<Rightarrow> error + (string \<times> bool) list"
  ReadFile :: "string \<Rightarrow> error + string"

text \<open>One call, with its error wrapped as the caller does.\<close>

definition db_call :: "string \<Rightarrow> (database, error + nat) state" where
  "db_call what = do {
     n \<leftarrow> reads calls;
     modify (\<lambda>db. db\<lparr>calls := Suc n\<rparr>);
     err \<leftarrow> reads (\<lambda>db. fails db n);
     case err of Some err \<Rightarrow> raise (Wrapped what err) | None \<Rightarrow> ret n }"

definition tx_Exec :: "string \<Rightarrow> string \<Rightarrow> (database, error + unit) state" where
  "tx_Exec what statement = if_ok (db_call what) (\<lambda>_. do {
     modify (\<lambda>db. db\<lparr>executed := executed db @ [statement]\<rparr>); ret () })"

definition tx_insert :: "string \<Rightarrow> string \<Rightarrow> (database, error + unit) state" where
  "tx_insert what name = if_ok (db_call what) (\<lambda>_. do {
     known \<leftarrow> reads tracked;
     if name \<in> set known then raise (Wrapped what (Errorf ''duplicate entry'')) else ret () })"

definition tx_Commit :: "string \<Rightarrow> string \<Rightarrow> (database, error + unit) state" where
  "tx_Commit what name = do {
     n \<leftarrow> reads calls;
     r \<leftarrow> db_call what;
     was \<leftarrow> reads (\<lambda>db. landed db n);
     case r of
       Inl err \<Rightarrow> do { modify (\<lambda>db. db\<lparr>tracked := tracked db @ (if was then [name] else [])\<rparr>); raise err }
     | Inr _ \<Rightarrow> do { modify (\<lambda>db. db\<lparr>tracked := tracked db @ [name]\<rparr>); ret () } }"

section \<open>Migrations\<close>

definition splitSQLStatements :: "string \<Rightarrow> string list" where
  "splitSQLStatements content = filter (\<lambda>s. s \<noteq> []) (map TrimSpace (Split (CHR '';'') content))"

fun run_statements :: "string \<Rightarrow> string list \<Rightarrow> (database, error + unit) state" where
  "run_statements what [] = ret ()"
| "run_statements what (s # ss) = if_ok (tx_Exec what s) (\<lambda>_. run_statements what ss)"

text \<open>The rows of the tracking table; an error, of the query or while reading, ends the list.\<close>

definition applied_names :: "(database, string list) state" where
  "applied_names = do {
     r \<leftarrow> db_call [];
     case r of
       Inl _ \<Rightarrow> State_Monad.return []
     | Inr n \<Rightarrow> reads (\<lambda>db. take (yields db n) (tracked db)) }"

definition migration_files :: "string \<Rightarrow> (string \<times> bool) list \<Rightarrow> string list" where
  "migration_files dir entries =
     sort (map (\<lambda>e. filepath_Join dir (fst e)) (filter (\<lambda>e. \<not> (snd e \<or> \<not> HasSuffix (fst e) ''.sql'')) entries))"

definition apply_migration :: "string \<Rightarrow> string \<Rightarrow> string \<Rightarrow> (database, error + unit) state" where
  "apply_migration file name content =
     if_ok (db_call (''begin tx for '' @ name)) (\<lambda>_.
     if_ok (run_statements (''apply migration '' @ file) (splitSQLStatements content)) (\<lambda>_.
     if_ok (tx_insert (''record migration '' @ name) name) (\<lambda>_.
     tx_Commit (''commit migration '' @ name) name)))"

fun migrate_files :: "filesystem \<Rightarrow> string list \<Rightarrow> string list \<Rightarrow> (database, error + unit) state" where
  "migrate_files fs known [] = ret ()"
| "migrate_files fs known (file # files) =
     (let name = Base file in
      if name \<in> set known then migrate_files fs known files
      else case ReadFile fs file of
        Inl err \<Rightarrow> raise (Wrapped (''read migration file '' @ file) err)
      | Inr content \<Rightarrow> if_ok (apply_migration file name content) (\<lambda>_. migrate_files fs known files))"

definition RunMigrations :: "filesystem \<Rightarrow> string \<Rightarrow> (database, error + unit) state" where
  "RunMigrations fs dir =
     if_ok (db_call ''create schema_migrations'') (\<lambda>_. do {
     known \<leftarrow> applied_names;
     case ReadDir fs dir of
       Inl err \<Rightarrow> raise (Wrapped ''read migration dir'' err)
     | Inr entries \<Rightarrow> migrate_files fs known (migration_files dir entries) })"

text \<open>The fourth migration of the repository, \<^verbatim>\<open>migrations/000004_add_task_dependency.sql\<close>.\<close>

definition add_task_dependency :: string where
  "add_task_dependency = Join (CHR 0x0A)
     [''-- +migrate Up'',
      ''CREATE TABLE IF NOT EXISTS task_dependency ('',
      ''    id BIGINT AUTO_INCREMENT PRIMARY KEY,'',
      ''    task_id BIGINT NOT NULL,'',
      ''    depends_on_task_id BIGINT NOT NULL,'',
      ''    created_at TIMESTAMP NOT NULL DEFAULT CURRENT_TIMESTAMP,'',
      ''    UNIQUE KEY uk_task_depends (task_id, depends_on_task_id),'',
      ''    FOREIGN KEY (task_id) REFERENCES task(id) ON DELETE CASCADE,'',
      ''    FOREIGN KEY (depends_on_task_id) REFERENCES task(id) ON DELETE CASCADE'',
      '');'',
      [],
      ''-- +migrate Down'',
      ''DROP TABLE IF EXISTS task_dependency;'',
      []]"

section \<open>Paths\<close>

lemma clean_parts_last:
  assumes "p \<noteq> []" "p \<noteq> ''.''" "p \<noteq> ''..''"
  shows "\<exists>qs. clean_parts rooted stack (ps @ [p]) = qs @ [p] \<and> set qs \<subseteq> set stack \<union> set ps"
  using assms by (induction rooted stack ps rule: clean_parts.induct) (auto dest: list.set_sel(2), (fastforce dest: list.set_sel(2))+)

lemma Split_parts: "p \<in> set (Split c s) \<Longrightarrow> c \<notin> set p"
  by (induction s arbitrary: p) (auto split: if_splits list.splits)

lemma Split_append: "Split c (s @ c # t) = Split c s @ Split c t"
  by (induction s) (auto split: list.splits)

lemma Join_snoc: "Join c (xs @ [x]) = (if xs = [] then x else Join c xs @ c # x)"
  by (induction c xs rule: Join.induct) auto

text \<open>A joined path is the name behind a prefix that depends on the directory alone; its base is the name.\<close>

definition is_name :: "string \<Rightarrow> bool" where
  "is_name n \<longleftrightarrow> n \<noteq> [] \<and> n \<noteq> ''.'' \<and> n \<noteq> ''..'' \<and> CHR ''/'' \<notin> set n"

lemma clean_parts_name:
  "is_name p \<Longrightarrow> clean_parts rooted stack (ps @ [p]) = clean_parts rooted stack ps @ [p]"
  by (induction rooted stack ps rule: clean_parts.induct) (auto simp: is_name_def)

definition joined :: "string \<Rightarrow> string" where
  "joined dir =
     (let rooted = (dir \<noteq> [] \<and> hd dir = CHR ''/'');
          qs = (if dir = [] then [] else clean_parts rooted [] (Split (CHR ''/'') dir))
      in (if rooted then ''/'' else []) @ (if qs = [] then [] else Join (CHR ''/'') qs @ ''/''))"

lemma filepath_Join_name:
  assumes "is_name n"
  shows "filepath_Join dir n = joined dir @ n"
proof (cases "dir = []")
  case True
  with assms have "Split (CHR ''/'') n = [] @ [n]" "hd n \<noteq> CHR ''/''"
    by (simp_all add: is_name_def Split_no_sep) (metis list.set_sel(1))
  with assms True clean_parts_name [OF assms, of False "[]" "[]"] show ?thesis
    by (simp add: filepath_Join_def Clean_def joined_def is_name_def Let_def)
next
  case False
  with assms have "Split (CHR ''/'') (dir @ CHR ''/'' # n) = Split (CHR ''/'') dir @ [n]"
    by (simp add: is_name_def Split_append Split_no_sep)
  with False assms show ?thesis
    by (auto simp: filepath_Join_def Clean_def joined_def clean_parts_name Join_snoc Let_def is_name_def)
qed

lemma last_joined: "joined dir = [] \<or> last (joined dir) = CHR ''/''"
  by (simp add: joined_def Let_def)

lemma Base_name:
  assumes "is_name n"
  shows "Base (joined dir @ n) = n"
proof -
  have n: "n \<noteq> []" "last n \<noteq> CHR ''/''" using assms last_in_set [of n] unfolding is_name_def by (blast, metis)
  then have "trim_slashes (joined dir @ n) = joined dir @ n"
    by (cases n rule: rev_cases) (simp_all add: trim_slashes_def)
  moreover have "takeWhile (\<lambda>c. c \<noteq> CHR ''/'') (rev (joined dir @ n)) = rev n"
    using assms last_joined [of dir] by (cases "joined dir" rule: rev_cases) (auto simp: takeWhile_append is_name_def)
  ultimately show ?thesis using n by (simp add: Base_def Let_def)
qed

lemma sort_prefixed: "sort (map (\<lambda>n. p @ n) ns) = map (\<lambda>n. p @ n) (sort ns)" for p :: string
proof (rule properties_for_sort)
  have mono: "p @ m \<le> p @ n" if "m \<le> n" for m n :: string
    using that by (induction p) (auto simp: list_le_def list_less_def)
  show "sorted (map (\<lambda>n. p @ n) (sort ns))"
    unfolding sorted_map by (rule sorted_wrt_mono_rel [OF mono sorted_sort])
qed simp

section \<open>The effect of a run\<close>

text \<open>The answers of the outside stay what they are.\<close>

definition same_answers :: "database \<Rightarrow> database \<Rightarrow> bool" where
  "same_answers db db' \<longleftrightarrow> fails db' = fails db \<and> yields db' = yields db \<and> landed db' = landed db"

lemma same_answers_refl [simp]: "same_answers db db"
  by (simp add: same_answers_def)

lemma same_answers_upd [simp]:
  "same_answers db (db'\<lparr>calls := n\<rparr>) = same_answers db db'"
  "same_answers db (db'\<lparr>executed := xs\<rparr>) = same_answers db db'"
  "same_answers db (db'\<lparr>tracked := xs\<rparr>) = same_answers db db'"
  "same_answers (db\<lparr>calls := n\<rparr>) db' = same_answers db db'"
  "same_answers (db\<lparr>executed := xs\<rparr>) db' = same_answers db db'"
  "same_answers (db\<lparr>tracked := xs\<rparr>) db' = same_answers db db'"
  by (simp_all add: same_answers_def)

lemma same_answers_trans: "same_answers db db' \<Longrightarrow> same_answers db' db'' \<Longrightarrow> same_answers db db''"
  by (simp add: same_answers_def)

lemma wp_db_call:
  "wp (db_call what) Q db \<longleftrightarrow>
     Q (case fails db (calls db) of Some err \<Rightarrow> Inl (Wrapped what err) | None \<Rightarrow> Inr (calls db)) (db\<lparr>calls := Suc (calls db)\<rparr>)"
  by (simp add: db_call_def split: option.split)

text \<open>No call of the database is answered by an error.\<close>

definition healthy :: "database \<Rightarrow> bool" where
  "healthy db \<longleftrightarrow> (\<forall>n. fails db n = None)"

lemma healthy_upd [simp]:
  "healthy (db\<lparr>calls := n\<rparr>) = healthy db" "healthy (db\<lparr>executed := xs\<rparr>) = healthy db" "healthy (db\<lparr>tracked := xs\<rparr>) = healthy db"
  by (simp_all add: healthy_def)

lemma healthy_same: "same_answers db db' \<Longrightarrow> healthy db' = healthy db"
  by (simp add: same_answers_def healthy_def)

lemma run_statements_wp:
  "wp (run_statements what ss)
     (\<lambda>r db'. same_answers db db' \<and> tracked db' = tracked db \<and> (healthy db \<longrightarrow> r = Inr ()) \<and>
        (\<exists>part rest. ss = part @ rest \<and> executed db' = executed db @ part \<and> (r = Inr () \<longrightarrow> rest = []))) db"
proof (induction ss arbitrary: db)
  case (Cons s ss)
  show ?case
  proof (cases "fails db (calls db)")
    case None
    show ?thesis
      using Cons.IH [of "db\<lparr>calls := Suc (calls db), executed := executed db @ [s]\<rparr>"]
      by (simp add: tx_Exec_def wp_db_call None) (erule wp_mono, auto)
  qed (simp add: tx_Exec_def wp_db_call healthy_def, fastforce)
qed simp

definition applies :: "string list \<Rightarrow> string \<Rightarrow> database \<Rightarrow> error + unit \<Rightarrow> database \<Rightarrow> bool" where
  "applies ss name db r db' \<longleftrightarrow> same_answers db db' \<and> (healthy db \<and> name \<notin> set (tracked db) \<longrightarrow> r = Inr ()) \<and>
     (\<exists>part rest. ss = part @ rest \<and> executed db' = executed db @ part \<and>
        (tracked db' = tracked db \<and> r \<noteq> Inr () \<or> tracked db' = tracked db @ [name] \<and> rest = [] \<and> name \<notin> set (tracked db)))"

lemma record_wp:
  assumes "same_answers db db1" "tracked db1 = tracked db" "executed db1 = executed db @ ss"
  shows "wp (if_ok (tx_insert a name) (\<lambda>_. tx_Commit b name)) (applies ss name db) db1"
  using assms healthy_same [OF assms(1)]
  by (auto simp: tx_insert_def tx_Commit_def wp_db_call applies_def healthy_def same_answers_def split: option.splits)

lemma wp_if_okI:
  assumes "wp m P w" "\<And>err w'. P (Inl err) w' \<Longrightarrow> Q (Inl err) w'" "\<And>x w'. P (Inr x) w' \<Longrightarrow> wp (k x) Q w'"
  shows "wp (if_ok m k) Q w"
  unfolding wp_if_ok by (rule wp_mono [OF assms(1)]) (use assms(2,3) in \<open>auto split: sum.split\<close>)

lemma statements_wp:
  "wp (if_ok (run_statements a ss) (\<lambda>_. if_ok (tx_insert b name) (\<lambda>_. tx_Commit c name))) (applies ss name db) (db\<lparr>calls := n\<rparr>)"
proof (rule wp_if_okI [OF run_statements_wp], goal_cases)
  case (1 err db1)
  then show ?case by (auto simp: applies_def)
next
  case (2 x db1)
  then show ?case by (intro record_wp) auto
qed

lemma apply_migration_wp:
  "wp (apply_migration file name content) (applies (splitSQLStatements content) name db) db"
proof (cases "fails db (calls db)")
  case None
  then show ?thesis
    unfolding apply_migration_def wp_if_ok [of "db_call _"] wp_db_call
    by (simp only: None option.case sum.case statements_wp)
next
  case (Some err)
  then show ?thesis
    unfolding apply_migration_def wp_if_ok [of "db_call _"] wp_db_call
    by (simp add: applies_def healthy_def) blast
qed

text \<open>
  What a run leaves: the names recorded are an initial part of those that were not, with all their statements run in
  order, and of the next file only an initial part of the statements.
\<close>

definition migrated :: "(string \<Rightarrow> string list) \<Rightarrow> (string \<Rightarrow> string) \<Rightarrow> string list \<Rightarrow> database \<Rightarrow> error + unit \<Rightarrow> database \<Rightarrow> bool" where
  "migrated sts nm todo db r db' \<longleftrightarrow> (\<exists>recorded rest part. todo = recorded @ rest \<and>
     tracked db' = tracked db @ map nm recorded \<and>
     executed db' = executed db @ concat (map sts recorded) @ part \<and>
     (case rest of [] \<Rightarrow> part = [] | f # _ \<Rightarrow> \<exists>left. sts f = part @ left) \<and>
     (r = Inr () \<longrightarrow> rest = [] \<and> part = []))"

definition file_statements :: "filesystem \<Rightarrow> string \<Rightarrow> string list" where
  "file_statements fs file = (case ReadFile fs file of Inl _ \<Rightarrow> [] | Inr content \<Rightarrow> splitSQLStatements content)"

definition readable :: "filesystem \<Rightarrow> string list \<Rightarrow> bool" where
  "readable fs files \<longleftrightarrow> (\<forall>file \<in> set files. \<exists>content. ReadFile fs file = Inr content)"

lemma migratedI:
  "migrated sts nm [] db r db"
  "r \<noteq> Inr () \<Longrightarrow> tracked db' = tracked db \<Longrightarrow> executed db' = executed db @ part \<Longrightarrow> sts f = part @ left \<Longrightarrow>
     migrated sts nm (f # todo) db r db'"
  "tracked db1 = tracked db @ [nm f] \<Longrightarrow> executed db1 = executed db @ sts f \<Longrightarrow> migrated sts nm todo db1 r db' \<Longrightarrow>
     migrated sts nm (f # todo) db r db'"
    apply (simp add: migrated_def)
   apply (force simp: migrated_def intro: exI [where x = "[]"])
  unfolding migrated_def
  apply (elim exE)
  subgoal for recorded rest part by (rule exI [where x = "f # recorded"], rule exI [where x = rest], rule exI [where x = part]) simp
  done

lemma migrated_one:
  "tracked db' = tracked db @ [nm f] \<Longrightarrow> executed db' = executed db @ sts f \<Longrightarrow> r \<noteq> Inr () \<Longrightarrow> migrated sts nm (f # todo) db r db'"
  unfolding migrated_def
  by (rule exI [where x = "[f]"], rule exI [where x = todo], rule exI [where x = "[]"]) (simp split: list.split)

text \<open>Nothing stands in the way of a complete run.\<close>

definition clear :: "filesystem \<Rightarrow> string list \<Rightarrow> string list \<Rightarrow> database \<Rightarrow> bool" where
  "clear fs known files db \<longleftrightarrow> healthy db \<and> readable fs files \<and> distinct (map Base files) \<and>
     (\<forall>f \<in> set files. Base f \<in> set (tracked db) \<longrightarrow> Base f \<in> set known)"

lemma migrate_files_wp:
  "wp (migrate_files fs known files)
     (\<lambda>r db'. migrated (file_statements fs) Base (filter (\<lambda>f. Base f \<notin> set known) files) db r db' \<and>
        (clear fs known files db \<longrightarrow> r = Inr ())) db"
proof (induction files arbitrary: db)
  case (Cons f files)
  show ?case
  proof (cases "Base f \<in> set known")
    case True
    have "clear fs known (f # files) db \<Longrightarrow> clear fs known files db" by (simp add: clear_def readable_def)
    with Cons.IH [of db] True show ?thesis by (simp add: Let_def) (erule wp_mono, blast)
  next
    case new: False
    show ?thesis
    proof (cases "ReadFile fs f")
      case (Inl err)
      with new show ?thesis
        by (simp add: Let_def clear_def readable_def) (rule migratedI(2) [where part = "[]"], simp_all)
    next
      case (Inr content)
      have sts: "file_statements fs f = splitSQLStatements content" by (simp add: file_statements_def Inr)
      have "wp (if_ok (apply_migration f (Base f) content) (\<lambda>_. migrate_files fs known files))
          (\<lambda>r db'. migrated (file_statements fs) Base (f # filter (\<lambda>f. Base f \<notin> set known) files) db r db' \<and>
             (clear fs known (f # files) db \<longrightarrow> r = Inr ())) db"
      proof (rule wp_if_okI [OF apply_migration_wp], goal_cases)
        case (1 err db1)
        then show ?case
          using new migratedI(2) [of "Inl err" db1 db _ "file_statements fs" f] migrated_one [of db1 db Base f "file_statements fs" "Inl err"]
          by (fastforce simp: applies_def clear_def sts)
      next
        case (2 u db1)
        then have rec: "same_answers db db1" "tracked db1 = tracked db @ [Base f]" "executed db1 = executed db @ file_statements fs f"
          by (auto simp: applies_def sts)
        have "clear fs known (f # files) db \<Longrightarrow> clear fs known files db1"
          using rec(2) healthy_same [OF rec(1)] by (auto simp: clear_def readable_def) (metis image_eqI)
        then show ?case
          by (intro wp_mono [OF Cons.IH [of db1]]) (simp add: migratedI(3) [where nm = Base and sts = "file_statements fs", OF rec(2) rec(3)])
      qed
      with new Inr show ?thesis by (simp add: Let_def)
    qed
  qed
qed (simp add: migratedI(1))

lemma migrated_map:
  assumes "migrated sts nm (map g xs) db r db'"
  shows "migrated (\<lambda>x. sts (g x)) (\<lambda>x. nm (g x)) xs db r db'"
proof -
  from assms obtain recorded rest part where p: "map g xs = recorded @ rest" "tracked db' = tracked db @ map nm recorded"
      "executed db' = executed db @ concat (map sts recorded) @ part"
      "case rest of [] \<Rightarrow> part = [] | f # _ \<Rightarrow> \<exists>left. sts f = part @ left" "r = Inr () \<longrightarrow> rest = [] \<and> part = []"
    unfolding migrated_def by (elim exE conjE)
  from p(1) obtain us vs where "xs = us @ vs" "recorded = map g us" "rest = map g vs"
    unfolding map_eq_append_conv by (elim exE conjE) simp
  with p have "xs = us @ vs" "tracked db' = tracked db @ map nm (map g us)"
      "executed db' = executed db @ concat (map sts (map g us)) @ part"
      "case map g vs of [] \<Rightarrow> part = [] | f # _ \<Rightarrow> \<exists>left. sts f = part @ left" "r = Inr () \<longrightarrow> map g vs = [] \<and> part = []"
    by simp_all
  then show ?thesis
    unfolding migrated_def
    by (intro exI [where x = us] exI [where x = vs] exI [where x = part]) (cases vs; simp add: comp_def)
qed

text \<open>The names of the migrations of a directory, in their order.\<close>

definition sql_names :: "(string \<times> bool) list \<Rightarrow> string list" where
  "sql_names entries = sort (map fst (filter (\<lambda>e. \<not> snd e \<and> HasSuffix (fst e) ''.sql'') entries))"

definition plain_entries :: "(string \<times> bool) list \<Rightarrow> bool" where
  "plain_entries entries \<longleftrightarrow> (\<forall>e \<in> set entries. CHR ''/'' \<notin> set (fst e))"

lemma sql_is_name: "HasSuffix n ''.sql'' \<Longrightarrow> CHR ''/'' \<notin> set n \<Longrightarrow> is_name n"
  by (auto simp: HasSuffix_def is_name_def)

lemma migration_files_names:
  assumes "plain_entries entries"
  shows "migration_files dir entries = map (filepath_Join dir) (sql_names entries)"
    and "n \<in> set (sql_names entries) \<Longrightarrow> Base (filepath_Join dir n) = n"
proof -
  have name: "is_name n" if "n \<in> set (sql_names entries)" for n
    using that assms sql_is_name by (fastforce simp: sql_names_def plain_entries_def)
  show "n \<in> set (sql_names entries) \<Longrightarrow> Base (filepath_Join dir n) = n"
    by (simp add: name filepath_Join_name Base_name)
  let ?es = "filter (\<lambda>e. \<not> snd e \<and> HasSuffix (fst e) ''.sql'') entries"
  have "map (\<lambda>e. filepath_Join dir (fst e)) ?es = map (\<lambda>n. joined dir @ n) (map fst ?es)"
    using name by (auto simp: sql_names_def filepath_Join_name)
  then have "migration_files dir entries = map (\<lambda>n. joined dir @ n) (sql_names entries)"
    by (simp only: migration_files_def sql_names_def de_Morgan_disj not_not sort_prefixed)
  also have "\<dots> = map (filepath_Join dir) (sql_names entries)"
    using name by (auto simp: filepath_Join_name)
  finally show "migration_files dir entries = map (filepath_Join dir) (sql_names entries)" .
qed

lemma clear_names:
  assumes "plain_entries entries" "distinct (map fst entries)" "readable fs (map (filepath_Join dir) (sql_names entries))" "healthy db"
  shows "clear fs (tracked db) (migration_files dir entries) db"
proof -
  have "distinct (sql_names entries)"
    using assms(2) by (simp add: sql_names_def distinct_map_filter)
  moreover have "map Base (migration_files dir entries) = sql_names entries"
    using migration_files_names [OF assms(1)] by (simp add: map_idI)
  ultimately show ?thesis using assms by (simp add: clear_def migration_files_names(1))
qed

text \<open>
  C16. A run of the migrations over a directory, when it has read the tracking table, records an initial part of the
  migrations that were not recorded, in the order of their names, and has run exactly their statements, in order and once;
  of the migration at which it stopped it has run an initial part. When it returns no error, all migrations are recorded; it returns none
  when the database and the files answer. So a second run does nothing.
\<close>

theorem migrations_in_order:
  assumes "fails db (calls db) = None" "fails db (Suc (calls db)) = None" "length (tracked db) \<le> yields db (Suc (calls db))"
    and "ReadDir fs dir = Inr entries" "plain_entries entries"
  shows "case run_state (RunMigrations fs dir) db of (r, db') \<Rightarrow>
    (\<exists>recorded rest part. filter (\<lambda>n. n \<notin> set (tracked db)) (sql_names entries) = recorded @ rest \<and>
       tracked db' = tracked db @ recorded \<and>
       executed db' = executed db @ concat (map (\<lambda>n. file_statements fs (filepath_Join dir n)) recorded) @ part \<and>
       (case rest of [] \<Rightarrow> part = [] | n # _ \<Rightarrow> \<exists>left. file_statements fs (filepath_Join dir n) = part @ left) \<and>
       (r = Inr () \<longrightarrow> rest = [] \<and> part = [])) \<and>
    (healthy db \<and> distinct (map fst entries) \<and> readable fs (map (filepath_Join dir) (sql_names entries)) \<longrightarrow> r = Inr ())"
proof -
  let ?db = "db\<lparr>calls := Suc (Suc (calls db))\<rparr>" and ?files = "migration_files dir entries"
  note names = migration_files_names [OF assms(5)]
  have todo: "filter (\<lambda>f. Base f \<notin> set (tracked db)) ?files = map (filepath_Join dir) (filter (\<lambda>n. n \<notin> set (tracked db)) (sql_names entries))"
    using names(2) by (auto simp: names(1) filter_map comp_def intro!: arg_cong [where f = "map (filepath_Join dir)"] filter_cong)
  have "wp (RunMigrations fs dir) (\<lambda>r db'.
      migrated (file_statements fs) Base (filter (\<lambda>f. Base f \<notin> set (tracked db)) ?files) db r db' \<and>
      (clear fs (tracked db) ?files db \<longrightarrow> r = Inr ())) db"
    using migrate_files_wp [of fs "tracked db" ?files ?db] assms(1-4)
    by (simp add: RunMigrations_def applied_names_def wp_db_call migrated_def clear_def)
  then obtain r db' where run: "run_state (RunMigrations fs dir) db = (r, db')"
    and m: "migrated (\<lambda>n. file_statements fs (filepath_Join dir n)) (\<lambda>n. Base (filepath_Join dir n))
        (filter (\<lambda>n. n \<notin> set (tracked db)) (sql_names entries)) db r db'"
    and c: "clear fs (tracked db) ?files db \<longrightarrow> r = Inr ()"
    unfolding wp_iff todo using migrated_map by blast
  from m obtain recorded rest part where p: "filter (\<lambda>n. n \<notin> set (tracked db)) (sql_names entries) = recorded @ rest"
      "tracked db' = tracked db @ map (\<lambda>n. Base (filepath_Join dir n)) recorded"
      "executed db' = executed db @ concat (map (\<lambda>n. file_statements fs (filepath_Join dir n)) recorded) @ part"
      "case rest of [] \<Rightarrow> part = [] | n # _ \<Rightarrow> \<exists>left. file_statements fs (filepath_Join dir n) = part @ left"
      "r = Inr () \<longrightarrow> rest = [] \<and> part = []"
    unfolding migrated_def by blast
  have "map (\<lambda>n. Base (filepath_Join dir n)) recorded = recorded"
    by (rule map_idI, rule names(2)) (metis p(1) Un_iff filter_is_subset set_append subsetD)
  with p have "tracked db' = tracked db @ recorded" by simp
  with p c clear_names [OF assms(5)] show ?thesis
    unfolding run prod.case
    by (intro conjI exI [where x = recorded] exI [where x = rest] exI [where x = part]) blast+
qed

text \<open>
  At the fourth migration of the repository: the file has a section to undo the migration, which is run like the rest, so
  the run ends without an error and with the table of dependencies dropped.
\<close>

definition sample_files :: filesystem where
  "sample_files = \<lparr>ReadDir = (\<lambda>_. Inr [(''000004_add_task_dependency.sql'', False), (''000001_init.sql'', False), (''notes'', False)]),
     ReadFile = (\<lambda>f. if f = ''migrations/000004_add_task_dependency.sql'' then Inr add_task_dependency else Inr ''SELECT 1;'')\<rparr>"

definition sample_database :: database where
  "sample_database = \<lparr>tracked = [''000001_init.sql''], executed = [], calls = 0, fails = (\<lambda>_. None), yields = (\<lambda>_. 10), landed = (\<lambda>_. True)\<rparr>"

lemma down_section_is_split:
  "splitSQLStatements add_task_dependency =
     [Join (CHR 0x0A) [''-- +migrate Up'',
       ''CREATE TABLE IF NOT EXISTS task_dependency ('',
       ''    id BIGINT AUTO_INCREMENT PRIMARY KEY,'',
       ''    task_id BIGINT NOT NULL,'',
       ''    depends_on_task_id BIGINT NOT NULL,'',
       ''    created_at TIMESTAMP NOT NULL DEFAULT CURRENT_TIMESTAMP,'',
       ''    UNIQUE KEY uk_task_depends (task_id, depends_on_task_id),'',
       ''    FOREIGN KEY (task_id) REFERENCES task(id) ON DELETE CASCADE,'',
       ''    FOREIGN KEY (depends_on_task_id) REFERENCES task(id) ON DELETE CASCADE'',
       '')''],
      Join (CHR 0x0A) [''-- +migrate Down'', ''DROP TABLE IF EXISTS task_dependency'']]"
  by code_simp

theorem migrations_in_order_witness:
  "case run_state (RunMigrations sample_files ''migrations'') sample_database of (r, db') \<Rightarrow>
     r = Inr () \<and> tracked db' = [''000001_init.sql'', ''000004_add_task_dependency.sql''] \<and>
     last (executed db') = Join (CHR 0x0A) [''-- +migrate Down'', ''DROP TABLE IF EXISTS task_dependency'']"
proof -
  let ?es = "[(''000004_add_task_dependency.sql'', False), (''000001_init.sql'', False), (''notes'', False)]"
  have n: "sql_names ?es = [''000001_init.sql'', ''000004_add_task_dependency.sql'']" by code_simp
  have f: "filepath_Join ''migrations'' ''000004_add_task_dependency.sql'' = ''migrations/000004_add_task_dependency.sql''" by code_simp
  have t: "filter (\<lambda>n. n \<notin> set (tracked sample_database)) (sql_names ?es) = [''000004_add_task_dependency.sql'']"
    by (simp add: n sample_database_def)
  have sts: "file_statements sample_files (filepath_Join ''migrations'' ''000004_add_task_dependency.sql'') = splitSQLStatements add_task_dependency"
    by (simp add: file_statements_def f sample_files_def)
  have ok: "healthy sample_database \<and> distinct (map fst ?es) \<and>
      readable sample_files (map (filepath_Join ''migrations'') (sql_names ?es))"
    by (simp add: healthy_def sample_database_def readable_def sample_files_def)
  have "fails sample_database (calls sample_database) = None" "fails sample_database (Suc (calls sample_database)) = None"
    "length (tracked sample_database) \<le> yields sample_database (Suc (calls sample_database))"
    "ReadDir sample_files ''migrations'' = Inr ?es" "plain_entries ?es"
    by (simp_all add: sample_database_def sample_files_def plain_entries_def)
  note eff = migrations_in_order [OF this]
  obtain r db' where run: "run_state (RunMigrations sample_files ''migrations'') sample_database = (r, db')" by (cases rule: prod.exhaust)
  from eff ok have r: "r = Inr ()" by (simp only: run prod.case)
  with eff have "tracked db' = tracked sample_database @ [''000004_add_task_dependency.sql'']"
      "executed db' = executed sample_database @ splitSQLStatements add_task_dependency"
    by (auto simp only: run prod.case t append_Nil2 list.map concat.simps sts simp_thms)
  then show ?thesis
    unfolding run prod.case r down_section_is_split by (simp add: sample_database_def)
qed

end
