(* ===== verification/Config.thy ===== *)
theory Config
  imports Migrate
begin

text \<open>
  \<^verbatim>\<open>internal/config/config.go\<close>, \<^verbatim>\<open>internal/app/bootstrap.go\<close>, \<^verbatim>\<open>internal/repo/factory.go\<close> and the connection string of
  \<^verbatim>\<open>internal/pkg/xmysql/mysql.go\<close>: the settings of a process and what it starts with. The environment is a function from
  names to values, empty when a variable is not set; whether MySQL and Redis can be reached are answers of the outside.
\<close>

section \<open>Settings\<close>

record AppConfig =
  cfg_ServiceName :: string
  cfg_HTTPAddr :: string
  cfg_GRPCAddr :: string
  cfg_SchedulerURL :: string
  cfg_SchedulerGRPCAddr :: string
  cfg_MySQLDSN :: string
  cfg_RedisAddr :: string
  cfg_AlertWebhookURL :: string
  cfg_MaxPending :: int
  cfg_EtcdAddrs :: "string list"
  cfg_RepoBackend :: string
  cfg_MigrationDir :: string
  cfg_AutoMigrate :: bool
  cfg_InternalProtocol :: string

definition splitEnv :: "string \<Rightarrow> string list" where
  "splitEnv value = filter (\<lambda>s. s \<noteq> []) (map TrimSpace (Split (CHR '','') value))"

definition base_config :: "string \<Rightarrow> AppConfig" where
  "base_config serviceName = \<lparr>cfg_ServiceName = serviceName, cfg_HTTPAddr = '':8080'', cfg_GRPCAddr = '':9090'',
     cfg_SchedulerURL = ''http://127.0.0.1:8080'', cfg_SchedulerGRPCAddr = ''127.0.0.1:9090'',
     cfg_MySQLDSN = ''root:root@tcp(127.0.0.1:3306)/go_ai_scheduler?parseTime=true'', cfg_RedisAddr = ''127.0.0.1:6379'',
     cfg_AlertWebhookURL = [], cfg_MaxPending = 1000, cfg_EtcdAddrs = [''127.0.0.1:2379''], cfg_RepoBackend = ''mysql'',
     cfg_MigrationDir = ''migrations'', cfg_AutoMigrate = False, cfg_InternalProtocol = ''http''\<rparr>"

definition for_service :: "string \<Rightarrow> AppConfig \<Rightarrow> AppConfig" where
  "for_service serviceName cfg =
     (if serviceName = ''worker'' then cfg\<lparr>cfg_HTTPAddr := '':8081'', cfg_GRPCAddr := '':9091''\<rparr>
      else if serviceName = ''api'' then cfg\<lparr>cfg_HTTPAddr := '':8082''\<rparr>
      else if serviceName = ''ai-service'' then cfg\<lparr>cfg_HTTPAddr := '':8083''\<rparr>
      else if serviceName = ''migrate'' then cfg\<lparr>cfg_RepoBackend := ''mysql''\<rparr>
      else cfg)"

text \<open>A variable that is set replaces a setting.\<close>

definition env_or :: "(string \<Rightarrow> string) \<Rightarrow> string \<Rightarrow> string \<Rightarrow> string" where
  "env_or getenv name value = (if getenv name \<noteq> [] then getenv name else value)"

definition Default :: "(string \<Rightarrow> string) \<Rightarrow> string \<Rightarrow> AppConfig" where
  "Default getenv serviceName =
     (let cfg = for_service serviceName (base_config serviceName);
          auto = getenv ''AUTO_MIGRATE''
      in cfg\<lparr>
        cfg_HTTPAddr := env_or getenv ''APP_HTTP_ADDR'' (cfg_HTTPAddr cfg),
        cfg_GRPCAddr := env_or getenv ''APP_GRPC_ADDR'' (cfg_GRPCAddr cfg),
        cfg_SchedulerURL := env_or getenv ''SCHEDULER_URL'' (cfg_SchedulerURL cfg),
        cfg_SchedulerGRPCAddr := env_or getenv ''SCHEDULER_GRPC_ADDR'' (cfg_SchedulerGRPCAddr cfg),
        cfg_MySQLDSN := env_or getenv ''MYSQL_DSN'' (cfg_MySQLDSN cfg),
        cfg_RepoBackend := env_or getenv ''REPO_BACKEND'' (cfg_RepoBackend cfg),
        cfg_MigrationDir := env_or getenv ''MIGRATION_DIR'' (cfg_MigrationDir cfg),
        cfg_AutoMigrate := (if auto = ''1'' \<or> auto = ''true'' \<or> auto = ''TRUE'' then True else cfg_AutoMigrate cfg),
        cfg_InternalProtocol := env_or getenv ''INTERNAL_PROTOCOL'' (cfg_InternalProtocol cfg),
        cfg_EtcdAddrs := (if getenv ''ETCD_ENDPOINTS'' \<noteq> [] then splitEnv (getenv ''ETCD_ENDPOINTS'') else cfg_EtcdAddrs cfg),
        cfg_RedisAddr := env_or getenv ''REDIS_ADDR'' (cfg_RedisAddr cfg),
        cfg_AlertWebhookURL := env_or getenv ''ALERT_WEBHOOK_URL'' (cfg_AlertWebhookURL cfg),
        cfg_MaxPending := (case Atoi (getenv ''MAX_PENDING'') of
            Some n \<Rightarrow> if n > 0 then n else cfg_MaxPending cfg
          | None \<Rightarrow> cfg_MaxPending cfg)\<rparr>)"

section \<open>Resources\<close>

text \<open>
  \<^verbatim>\<open>strings.EqualFold(value, "mysql")\<close>; the letter s has one variant beyond ASCII, the long s.
\<close>

fun short_s :: "string \<Rightarrow> string" where
  "short_s (a # b # s) = (if a = CHR 0xC5 \<and> b = CHR 0xBF then CHR ''s'' # short_s s else a # short_s (b # s))"
| "short_s s = s"

definition IsMySQLBackend :: "string \<Rightarrow> bool" where
  "IsMySQLBackend value = EqualFold (short_s (TrimSpace value)) ''mysql''"

fun Contains :: "string \<Rightarrow> string \<Rightarrow> bool" where
  "Contains [] t = (t = [])"
| "Contains (c # s) t = (is_prefix t (c # s) \<or> Contains s t)"

definition interpolated :: "string \<Rightarrow> string" where
  "interpolated dsn =
     (if \<not> Contains dsn ''interpolateParams=true'' then
        (if Contains dsn ''?'' then dsn @ ''&interpolateParams=true'' else dsn @ ''?interpolateParams=true'')
      else dsn)"

record outside =
  gorm_open :: "string \<Rightarrow> error option"
  sql_db :: "error option"
  ping_mysql :: "error option"
  ping_redis :: "string \<Rightarrow> error option"

definition OpenGorm :: "outside \<Rightarrow> string \<Rightarrow> error option" where
  "OpenGorm out dsn =
     (case gorm_open out (interpolated dsn) of
        Some err \<Rightarrow> Some (Wrapped ''open mysql'' err)
      | None \<Rightarrow> (case sql_db out of
        Some err \<Rightarrow> Some (Wrapped ''get mysql sql db'' err)
      | None \<Rightarrow> map_option (Wrapped ''ping mysql'') (ping_mysql out)))"

definition xredis_Open :: "outside \<Rightarrow> string \<Rightarrow> error option" where
  "xredis_Open out addr = map_option (Wrapped ''redis ping'') (ping_redis out addr)"

text \<open>
  The repositories are those over the connection. A process that cannot start logs a message and exits, here \<open>Inl\<close> with
  that message. The result says whether Redis is there.
\<close>

definition BuildResources :: "outside \<Rightarrow> filesystem \<Rightarrow> AppConfig \<Rightarrow> (database, string + bool) state" where
  "BuildResources out fs cfg =
     (if \<not> IsMySQLBackend (cfg_RepoBackend cfg) then raise ''repository backend not supported''
      else case OpenGorm out (cfg_MySQLDSN cfg) of Some _ \<Rightarrow> raise ''init mysql repositories''
      | None \<Rightarrow> (case sql_db out of Some _ \<Rightarrow> raise ''get mysql sql db''
      | None \<Rightarrow> do {
          r \<leftarrow> (if cfg_AutoMigrate cfg then RunMigrations fs (cfg_MigrationDir cfg) else ret ());
          case r of
            Inl _ \<Rightarrow> raise ''run migrations''
          | Inr _ \<Rightarrow> ret (cfg_RedisAddr cfg \<noteq> [] \<and> xredis_Open out (cfg_RedisAddr cfg) = None) }))"

text \<open>\<^verbatim>\<open>cmd/migrate/main.go\<close>\<close>

definition migrate_main :: "(string \<Rightarrow> string) \<Rightarrow> outside \<Rightarrow> filesystem \<Rightarrow> (database, string + unit) state" where
  "migrate_main getenv out fs =
     (let cfg = Default getenv ''migrate'' in
      if \<not> IsMySQLBackend (cfg_RepoBackend cfg) then raise ''migrate requires REPO_BACKEND=mysql''
      else case OpenGorm out (cfg_MySQLDSN cfg) of Some _ \<Rightarrow> raise ''open mysql''
      | None \<Rightarrow> (case sql_db out of Some _ \<Rightarrow> raise ''open mysql''
      | None \<Rightarrow> do {
          r \<leftarrow> RunMigrations fs (cfg_MigrationDir cfg);
          case r of Inl _ \<Rightarrow> raise ''run migrations'' | Inr _ \<Rightarrow> ret () }))"

section \<open>Lemmas\<close>

lemma splitEnv_parts: "p \<in> set (splitEnv value) \<Longrightarrow> p \<noteq> []"
  by (simp add: splitEnv_def)

lemma etcd_addrs:
  "cfg_EtcdAddrs (Default getenv name) = [] \<longleftrightarrow> getenv ''ETCD_ENDPOINTS'' \<noteq> [] \<and> splitEnv (getenv ''ETCD_ENDPOINTS'') = []"
  by (simp add: Default_def for_service_def base_config_def Let_def)

lemma max_pending_positive: "0 < cfg_MaxPending (Default getenv name)"
  by (simp add: Default_def for_service_def base_config_def Let_def split: option.split)

text \<open>Parameters are written into the statements by the client whatever the connection string.\<close>

lemma is_prefix_append: "is_prefix t (t @ s)"
  by (induction t) simp_all

lemma Contains_prefix: "is_prefix t s \<Longrightarrow> Contains s t"
  by (cases s; cases t) simp_all

lemma Contains_append: "Contains (s @ t @ u) t"
  by (induction s) (simp_all add: Contains_prefix is_prefix_append)

lemma interpolated_always: "Contains (interpolated dsn) ''interpolateParams=true''"
  using Contains_append [of "dsn @ ''&''" "''interpolateParams=true''" "[]"] Contains_append [of "dsn @ ''?''" "''interpolateParams=true''" "[]"]
  by (simp add: interpolated_def)

text \<open>A process that migrates by itself starts only on a database whose migrations have run without an error.\<close>

lemma BuildResources_migrates:
  assumes "run_state (BuildResources out fs cfg) db = (Inr redis, db')" "cfg_AutoMigrate cfg"
  shows "run_state (RunMigrations fs (cfg_MigrationDir cfg)) db = (Inr (), db')"
  using assms by (auto simp: BuildResources_def split: if_splits option.splits prod.splits sum.splits)

end
