(* ===== verification/Leader.thy ===== *)
theory Leader
  imports Config
begin

text \<open>
  \<^verbatim>\<open>internal/scheduler/leader/elector.go\<close>: which scheduler process may run the loops. What MySQL and etcd answer are arguments. One
  process is a function of them; several processes that compete for the lock of MySQL are a step relation, over
  a server of named locks of which the locale \<open>named_lock\<close> states what MySQL documents: a lock has at most one session, a
  session gets it when it is free, and it is free when its session ends.
\<close>

section \<open>Electors\<close>

datatype Elector = localElector | mysqlElector string | etcdElector string

definition newEtcdElector :: "(string list \<Rightarrow> error option) \<Rightarrow> string list \<Rightarrow> Elector" where
  "newEtcdElector etcd_client addrs =
     (case etcd_client addrs of Some _ \<Rightarrow> localElector | None \<Rightarrow> etcdElector ''/go-ai-scheduler/leader'')"

definition NewElector :: "(string list \<Rightarrow> error option) \<Rightarrow> bool \<Rightarrow> string list \<Rightarrow> Elector" where
  "NewElector etcd_client db etcdAddrs =
     (if etcdAddrs \<noteq> [] then newEtcdElector etcd_client etcdAddrs
      else if \<not> db then localElector
      else mysqlElector ''go-ai-scheduler/leader'')"

definition count_election :: "string \<Rightarrow> string \<Rightarrow> ('a, unit) go" where
  "count_election backend result = inc_counter ''leader_election_total'' [(''backend'', backend), (''result'', result)]"

definition local_Acquire :: "('a, error + unit) go" where
  "local_Acquire = do { count_election ''local'' ''acquired''; ret () }"

text \<open>What the servers answer: MySQL and the context by the number of the attempt.\<close>

record election =
  el_conn :: "nat \<Rightarrow> error option"
  el_lock :: "nat \<Rightarrow> error + int"
  el_done :: "nat \<Rightarrow> error option"
  el_session :: "error option"
  el_campaign :: "error option"

text \<open>One attempt: the lock is in_use, held by another, or the process gives up.\<close>

datatype attempt = Won | Contended | GaveUp error

definition lock_attempt :: "error option \<Rightarrow> error + int \<Rightarrow> attempt" where
  "lock_attempt conn answer =
     (case conn of
        Some err \<Rightarrow> GaveUp (Wrapped ''open leader election connection'' err)
      | None \<Rightarrow> (case answer of
          Inl err \<Rightarrow> GaveUp (Wrapped ''acquire mysql leader lock'' err)
        | Inr acquired \<Rightarrow> if acquired = 1 then Won else Contended))"

partial_function (option) mysql_Acquire ::
    "election \<Rightarrow> nat \<Rightarrow> 'a world_scheme \<Rightarrow> ((error + unit) \<times> 'a world_scheme) option" where
  "mysql_Acquire e n w =
     (case lock_attempt (el_conn e n) (el_lock e n) of
        GaveUp err \<Rightarrow> Some (Inl err, w)
      | Won \<Rightarrow> Some (run_state (do { count_election ''mysql'' ''acquired''; ret () }) w)
      | Contended \<Rightarrow>
          (let w' = snd (run_state (count_election ''mysql'' ''contended'') w) in
           case el_done e n of Some err \<Rightarrow> Some (Inl err, w') | None \<Rightarrow> mysql_Acquire e (Suc n) w'))"

definition etcd_Acquire :: "election \<Rightarrow> ('a, error + unit) go" where
  "etcd_Acquire e =
     (case el_session e of
        Some _ \<Rightarrow> local_Acquire
      | None \<Rightarrow> (case el_campaign e of
          Some _ \<Rightarrow> local_Acquire
        | None \<Rightarrow> do { count_election ''etcd'' ''acquired''; ret () }))"

definition Acquire :: "election \<Rightarrow> Elector \<Rightarrow> 'a world_scheme \<Rightarrow> ((error + unit) \<times> 'a world_scheme) option" where
  "Acquire e elector w =
     (case elector of
        localElector \<Rightarrow> Some (run_state local_Acquire w)
      | mysqlElector _ \<Rightarrow> mysql_Acquire e 0 w
      | etcdElector _ \<Rightarrow> Some (run_state (etcd_Acquire e) w))"

section \<open>Processes that compete for the lock\<close>

locale named_lock =
  fixes holder :: "'l \<Rightarrow> 'c option" and get_lock :: "'c \<Rightarrow> 'l \<Rightarrow> int \<times> 'l" and release_lock end_session :: "'c \<Rightarrow> 'l \<Rightarrow> 'l"
  assumes get_free: "holder l \<in> {None, Some c} \<Longrightarrow> fst (get_lock c l) = 1 \<and> holder (snd (get_lock c l)) = Some c"
    and get_held: "holder l \<notin> {None, Some c} \<Longrightarrow> fst (get_lock c l) = 0 \<and> holder (snd (get_lock c l)) = holder l"
    and released: "holder (release_lock c l) = (if holder l = Some c then None else holder l)"
    and session_ends: "holder (end_session c l) = (if holder l = Some c then None else holder l)"

datatype 'c phase = Campaigning | Leading 'c | Stopped

record ('p, 'c, 'l) field =
  phase_of :: "'p \<Rightarrow> 'c phase"
  server :: 'l
  ended :: "'c set"
  in_use :: "'c set"

text \<open>
  An attempt takes a session that is free in the pool, or a new one, and gives it back unless the lock was got. A query that fails may or
  may not have reached MySQL. A process that leads stops when its context is done; the error of the release is ignored.
  MySQL may end a session by itself, after a time without statements or for a broken connection; the
  process that leads on it is not told.
\<close>

inductive elect_step :: "('c \<Rightarrow> 'l \<Rightarrow> int \<times> 'l) \<Rightarrow> ('c \<Rightarrow> 'l \<Rightarrow> 'l) \<Rightarrow> ('c \<Rightarrow> 'l \<Rightarrow> 'l) \<Rightarrow> ('p, 'c, 'l) field \<Rightarrow> ('p, 'c, 'l) field \<Rightarrow> bool"
  for get_lock release_lock end_session where
  take: "phase_of s p = Campaigning \<Longrightarrow> c \<notin> in_use s \<Longrightarrow> c \<notin> ended s \<Longrightarrow> get_lock c (server s) = (n, l) \<Longrightarrow>
    lock_attempt None (Inr n) = Won \<Longrightarrow>
    elect_step get_lock release_lock end_session s (s\<lparr>phase_of := (phase_of s)(p := Leading c), server := l, in_use := insert c (in_use s)\<rparr>)"
| contend: "phase_of s p = Campaigning \<Longrightarrow> c \<notin> in_use s \<Longrightarrow> c \<notin> ended s \<Longrightarrow> get_lock c (server s) = (n, l) \<Longrightarrow>
    lock_attempt None (Inr n) = Contended \<Longrightarrow>
    elect_step get_lock release_lock end_session s (s\<lparr>server := l\<rparr>)"
| give_up: "phase_of s p = Campaigning \<Longrightarrow> c \<notin> in_use s \<Longrightarrow> c \<notin> ended s \<Longrightarrow> get_lock c (server s) = (n, l) \<Longrightarrow>
    lock_attempt conn answer = GaveUp err \<Longrightarrow> l' = (if reached then l else server s) \<Longrightarrow>
    elect_step get_lock release_lock end_session s (s\<lparr>phase_of := (phase_of s)(p := Stopped), server := l'\<rparr>)"
| stop: "phase_of s p = Leading c \<Longrightarrow> l' = (if reached then release_lock c (server s) else server s) \<Longrightarrow>
    elect_step get_lock release_lock end_session s
      (s\<lparr>phase_of := (phase_of s)(p := Stopped), server := l', in_use := in_use s - {c}\<rparr>)"
| cut: "elect_step get_lock release_lock end_session s (s\<lparr>server := end_session c (server s), ended := insert c (ended s)\<rparr>)"

inductive elected :: "('c \<Rightarrow> 'l \<Rightarrow> int \<times> 'l) \<Rightarrow> ('c \<Rightarrow> 'l \<Rightarrow> 'l) \<Rightarrow> ('c \<Rightarrow> 'l \<Rightarrow> 'l) \<Rightarrow> 'l \<Rightarrow> ('p, 'c, 'l) field \<Rightarrow> bool"
  for get_lock release_lock end_session l0 where
  start: "elected get_lock release_lock end_session l0 \<lparr>phase_of = (\<lambda>_. Campaigning), server = l0, ended = {}, in_use = {}\<rparr>"
| step: "elected get_lock release_lock end_session l0 s \<Longrightarrow> elect_step get_lock release_lock end_session s s' \<Longrightarrow>
    elected get_lock release_lock end_session l0 s'"

context named_lock
begin

text \<open>A session that leads is in use by one process, and holds the lock unless it has ended.\<close>

definition holds_lock :: "('p, 'c, 'l) field \<Rightarrow> bool" where
  "holds_lock s \<longleftrightarrow> (\<forall>p c. phase_of s p = Leading c \<longrightarrow> c \<in> in_use s \<and> (c \<notin> ended s \<longrightarrow> holder (server s) = Some c)) \<and>
     (\<forall>p q c. phase_of s p = Leading c \<longrightarrow> phase_of s q = Leading c \<longrightarrow> p = q)"

lemma got: "get_lock c l = (n, l') \<Longrightarrow> lock_attempt None (Inr n) = Won \<Longrightarrow> holder l \<in> {None, Some c} \<and> holder l' = Some c"
  using get_free [of l c] get_held [of l c] by (cases "holder l \<in> {None, Some c}") (auto simp: lock_attempt_def)

lemma get_keeps: "get_lock c l = (n, l') \<Longrightarrow> holder l = Some d \<Longrightarrow> d \<noteq> c \<Longrightarrow> holder l' = Some d"
  using get_held [of l c] by auto

lemma holds_lockI:
  assumes "\<And>p c. phase_of s p = Leading c \<Longrightarrow> c \<in> in_use s"
    and "\<And>p c. phase_of s p = Leading c \<Longrightarrow> c \<notin> ended s \<Longrightarrow> holder (server s) = Some c"
    and "\<And>p q c. phase_of s p = Leading c \<Longrightarrow> phase_of s q = Leading c \<Longrightarrow> p = q"
  shows "holds_lock s"
  using assms unfolding holds_lock_def by blast

lemma holds_lockD:
  assumes "holds_lock s"
  shows "phase_of s p = Leading c \<Longrightarrow> c \<in> in_use s"
    "phase_of s p = Leading c \<Longrightarrow> c \<notin> ended s \<Longrightarrow> holder (server s) = Some c"
    "phase_of s p = Leading c \<Longrightarrow> phase_of s q = Leading c \<Longrightarrow> p = q"
  using assms unfolding holds_lock_def by (blast, blast, blast)

lemma step_holds:
  assumes "elect_step get_lock release_lock end_session s s'" "holds_lock s"
  shows "holds_lock s'"
  using assms(1)
proof cases
  note inv = holds_lockD [OF assms(2)]
  {
    case (take p c n l)
    have old: "d \<in> ended s \<and> d \<noteq> c" if "phase_of s q = Leading d" for q d
      using take(3) inv(1,2) [OF that] got [OF take(5,6)] by (cases "d \<in> ended s") auto
    show ?thesis
      unfolding take(1)
      by (rule holds_lockI) (use got [OF take(5,6)] in \<open>auto split: if_splits dest: old inv(1,3)\<close>)
  next
    case (contend p c n l)
    have "holder l = Some d" if "phase_of s q = Leading d" "d \<notin> ended s" for q d
      using get_keeps [OF contend(5) inv(2) [OF that]] inv(1) [OF that(1)] contend(3) by auto
    then show ?thesis
      unfolding contend(1) by (intro holds_lockI) (auto dest: inv(1,3))
  next
    case (give_up p c n l conn answer err l')
    have "holder l' = Some d" if "phase_of s q = Leading d" "d \<notin> ended s" for q d
      using get_keeps [OF give_up(5) inv(2) [OF that]] inv(1,2) [OF that(1)] that(2) give_up(3,7) by auto
    then show ?thesis
      unfolding give_up(1) by (intro holds_lockI) (auto split: if_splits dest: inv(1,3))
  next
    case (stop p c l')
    have other: "d \<noteq> c" if "phase_of s q = Leading d" "q \<noteq> p" for q d
      using inv(3) [of q c p] stop(2) that by auto
    then have "holder l' = Some d" if "phase_of s q = Leading d" "d \<notin> ended s" "q \<noteq> p" for q d
      using inv(2) [OF that(1,2)] that stop(3) by (auto simp: released)
    then show ?thesis
      unfolding stop(1) by (intro holds_lockI) (auto split: if_splits dest: inv(1,3) other)
  next
    case (cut c)
    show ?thesis
      unfolding cut(1) by (rule holds_lockI) (auto simp: session_ends dest: inv)
  }
qed

lemma elected_holds:
  assumes "elected get_lock release_lock end_session l0 s" "holder l0 = None"
  shows "holds_lock s"
  using assms by (induction rule: elected.induct) (simp add: holds_lock_def, blast intro: step_holds)

lemma one_leader:
  assumes "elected get_lock release_lock end_session l0 s" "holder l0 = None"
    and "phase_of s p = Leading c" "c \<notin> ended s" "phase_of s q = Leading d" "d \<notin> ended s"
  shows "p = q"
  using elected_holds [OF assms(1,2)] assms(3-6) unfolding holds_lock_def by (metis option.inject)

end

section \<open>The outcome of an election\<close>

text \<open>The answer of the attempt that ends the election.\<close>

definition verdict :: "election \<Rightarrow> nat \<Rightarrow> (error + unit) option" where
  "verdict e n =
     (case lock_attempt (el_conn e n) (el_lock e n) of
        GaveUp err \<Rightarrow> Some (Inl err) | Won \<Rightarrow> Some (Inr ()) | Contended \<Rightarrow> map_option Inl (el_done e n))"

lemma mysql_Acquire_returns:
  assumes "\<forall>i < k. verdict e (n + i) = None" "verdict e (n + k) = Some r"
  shows "\<exists>w'. mysql_Acquire e n w = Some (r, w') \<and> w'\<lparr>registry := registry w\<rparr> = w"
  using assms
proof (induction k arbitrary: n w)
  case 0
  then show ?case
    by (subst mysql_Acquire.simps) (auto simp: verdict_def count_election_def split: attempt.splits option.splits)
next
  case (Suc k)
  from Suc.prems(1) have "verdict e n = None" by force
  then have here: "lock_attempt (el_conn e n) (el_lock e n) = Contended" "el_done e n = None"
    by (auto simp: verdict_def split: attempt.splits)
  let ?w = "snd (run_state (count_election ''mysql'' ''contended'') w)"
  have "\<forall>i < k. verdict e (Suc n + i) = None" "verdict e (Suc n + k) = Some r" using Suc.prems by auto
  from Suc.IH [OF this, of ?w] obtain w' where w': "mysql_Acquire e (Suc n) ?w = Some (r, w')" "w'\<lparr>registry := registry ?w\<rparr> = ?w" by blast
  have "w'\<lparr>registry := registry w\<rparr> = w"
    using arg_cong [OF w'(2), of "\<lambda>x. x\<lparr>registry := registry w\<rparr>"] by (simp add: count_election_def)
  with w'(1) show ?case by (subst mysql_Acquire.simps) (simp add: here Let_def)
qed


definition contested :: election where
  "contested = \<lparr>el_conn = (\<lambda>_. None), el_lock = (\<lambda>n. Inr (if n = 2 then 1 else 0)), el_done = (\<lambda>_. None), el_session = None, el_campaign = None\<rparr>"


section \<open>One leader\<close>

text \<open>The lock as a cell that holds its session.\<close>

definition cell_get :: "nat \<Rightarrow> nat option \<Rightarrow> int \<times> nat option" where
  "cell_get c l = (if l = None \<or> l = Some c then (1, Some c) else (0, l))"

definition cell_end :: "nat \<Rightarrow> nat option \<Rightarrow> nat option" where
  "cell_end c l = (if l = Some c then None else l)"

interpretation cell: named_lock "\<lambda>l. l" cell_get cell_end cell_end
  by unfold_locales (auto simp: cell_get_def cell_end_def)

text \<open>
  C15. Over any server that keeps the promises of a named lock, however the attempts of the processes, failed queries, stops and
  broken sessions interleave: at most one process leads on a session that has not ended.
\<close>

theorem mysql_leader_unique:
  assumes "named_lock holder get_lock release_lock end_session" "elected get_lock release_lock end_session l0 s" "holder l0 = None"
    and "phase_of s p = Leading c" "c \<notin> ended s" "phase_of s q = Leading d" "d \<notin> ended s"
  shows "p = q"
  by (rule named_lock.one_leader [OF assms])

text \<open>
  At two schedulers, of which the first leads and the second has lost an attempt. The bound is sharp: when MySQL ends the
  session of the first, which is not told, the second becomes leader beside it.
\<close>

definition first_leads :: "(bool, nat, nat option) field" where
  "first_leads = \<lparr>phase_of = (\<lambda>p. if p then Leading 0 else Campaigning), server = Some 0, ended = {}, in_use = {0}\<rparr>"

lemma first_leads_elected: "elected cell_get cell_end cell_end None first_leads"
proof -
  let ?s0 = "\<lparr>phase_of = (\<lambda>_. Campaigning), server = None, ended = {}, in_use = {}\<rparr> :: (bool, nat, nat option) field"
  have "elect_step cell_get cell_end cell_end ?s0
      (?s0\<lparr>phase_of := (phase_of ?s0)(True := Leading 0), server := Some 0, in_use := insert 0 (in_use ?s0)\<rparr>)"
    by (rule elect_step.take [where n = 1]) (simp_all add: cell_get_def lock_attempt_def)
  moreover have "?s0\<lparr>phase_of := (phase_of ?s0)(True := Leading 0), server := Some 0, in_use := insert 0 (in_use ?s0)\<rparr> = first_leads"
    by (auto simp: first_leads_def fun_eq_iff)
  moreover have "elect_step cell_get cell_end cell_end first_leads (first_leads\<lparr>server := Some 0\<rparr>)"
    by (rule elect_step.contend [where p = False and c = 1 and n = 0]) (simp_all add: first_leads_def cell_get_def lock_attempt_def)
  moreover have "first_leads\<lparr>server := Some 0\<rparr> = first_leads" by (simp add: first_leads_def)
  ultimately show ?thesis using elected.start elected.step by metis
qed

theorem mysql_leader_unique_witness:
  "{q. \<exists>d. phase_of first_leads q = Leading d \<and> d \<notin> ended first_leads} = {True}"
proof -
  have "True = q" if "phase_of first_leads q = Leading d" "d \<notin> ended first_leads" for q d
    using mysql_leader_unique [OF cell.named_lock_axioms first_leads_elected, of True 0 q d] that by (simp add: first_leads_def)
  then show ?thesis by (auto simp: first_leads_def)
qed

definition both_lead :: "(bool, nat, nat option) field" where
  "both_lead = \<lparr>phase_of = (\<lambda>p. if p then Leading 0 else Leading 1), server = Some 1, ended = {0}, in_use = {0, 1}\<rparr>"

lemma two_leaders: "elected cell_get cell_end cell_end None both_lead"
proof -
  define cut_off where "cut_off = first_leads\<lparr>server := cell_end 0 (server first_leads), ended := insert 0 (ended first_leads)\<rparr>"
  have "elect_step cell_get cell_end cell_end first_leads cut_off"
    unfolding cut_off_def by (rule elect_step.cut)
  moreover have "elect_step cell_get cell_end cell_end cut_off
      (cut_off\<lparr>phase_of := (phase_of cut_off)(False := Leading 1), server := Some 1, in_use := insert 1 (in_use cut_off)\<rparr>)"
    by (rule elect_step.take [where n = 1]) (simp_all add: cut_off_def first_leads_def cell_get_def cell_end_def lock_attempt_def)
  moreover have "cut_off\<lparr>phase_of := (phase_of cut_off)(False := Leading 1), server := Some 1, in_use := insert 1 (in_use cut_off)\<rparr> = both_lead"
    by (auto simp: both_lead_def cut_off_def first_leads_def fun_eq_iff)
  ultimately show ?thesis using elected.step [OF elected.step [OF first_leads_elected]] by simp
qed

end
