(* ===== verification/AIClient.thy ===== *)
theory AIClient
  imports AIHandlers
begin

text \<open>
  \<^verbatim>\<open>internal/api/service/ai_client.go\<close>: how the scheduler asks the AI service about a failed instance. The network is an argument, from
  the address and the body of a request to an error or a status and a body; so is the check of an address.
\<close>

section \<open>Definitions\<close>

definition NewAIClient :: "string \<Rightarrow> string" where
  "NewAIClient serviceURL = trim_slashes (if serviceURL = [] then ''http://127.0.0.1:8083'' else serviceURL)"

type_synonym LogAnalysisResult = AnalysisResponse

definition zero_result :: LogAnalysisResult where
  "zero_result = \<lparr>an_Summary = [], an_Severity = [], an_Categories = [], an_RootCause = [], an_Fix = [], an_Confidence = 0\<rparr>"

text \<open>A map is written in the order of its keys.\<close>

definition log_json :: "logAnalysisRequest \<Rightarrow> json" where
  "log_json q = JObject (
     [(''error_code'', JString (lq_ErrorCode q))] @
     (if lq_InstanceID q > 0 then [(''instance_id'', JNumber (itoa (lq_InstanceID q)))] else []) @
     [(''log'', JString (lq_Log q)), (''retry_count'', JNumber (itoa (lq_RetryCount q))), (''task_type'', JString (lq_TaskType q))])"

definition AnalyzeLog ::
  "(string \<Rightarrow> error option) \<Rightarrow> (string \<Rightarrow> string \<Rightarrow> error + int \<times> string) \<Rightarrow> string \<Rightarrow>
     string \<Rightarrow> string \<Rightarrow> string \<Rightarrow> int \<Rightarrow> int \<Rightarrow> error + LogAnalysisResult" where
  "AnalyzeLog bad_url post serviceURL logText errorCode taskType retryCount instanceID =
     (let msg = print_json (log_json \<lparr>lq_Log = logText, lq_ErrorCode = errorCode, lq_TaskType = taskType,
            lq_RetryCount = retryCount, lq_InstanceID = instanceID\<rparr>);
          url = serviceURL @ ''/api/v1/log-analysis/analyze''
      in case bad_url url of
        Some err \<Rightarrow> Inl (Wrapped ''build ai request'' err)
      | None \<Rightarrow> (case post url msg of
          Inl err \<Rightarrow> Inl (Wrapped ''ai service request'' err)
        | Inr (code, reply_text) \<Rightarrow>
            if code \<ge> 300 then Inl (Errorf (''ai service returned '' @ itoa code))
            else case Decode analysis_fields reply_text zero_result of
              None \<Rightarrow> Inl (Wrapped ''parse ai response'' (Errorf ''invalid json''))
            | Some result \<Rightarrow> Inr result))"

section \<open>What arrives\<close>

definition zero_log_request :: logAnalysisRequest where
  "zero_log_request = \<lparr>lq_Log = [], lq_ErrorCode = [], lq_TaskType = [], lq_RetryCount = 0, lq_InstanceID = 0\<rparr>"

definition wf_log_request :: "logAnalysisRequest \<Rightarrow> bool" where
  "wf_log_request q \<longleftrightarrow> valid_utf8 (lq_Log q) \<and> valid_utf8 (lq_ErrorCode q) \<and> valid_utf8 (lq_TaskType q) \<and>
     in_int64 (lq_RetryCount q) \<and> in_int64 (lq_InstanceID q) \<and> 0 \<le> lq_InstanceID q"

interpretation log_requests: struct_codec wf_log_request log_json log_request_fields zero_log_request
proof
  fix q
  assume q: "wf_log_request q"
  then show "wf_json max_nesting (log_json q)"
    by (simp add: wf_log_request_def log_json_def max_nesting_def itoa_number utf8_ascii byte_def)
  from q show "set_struct log_request_fields (log_json q) zero_log_request = Some q"
    by (cases "lq_InstanceID q = 0") (auto simp: set_struct_def log_json_def log_request_fields_def field_of_def string_field_def int_field_def
        Atoi_itoa zero_log_request_def wf_log_request_def)
qed

text \<open>
  The AI service reads the request as it was meant, so that its answer is about these arguments; an answer with a status
  from 300 on, or no answer, is an error of the client.
\<close>

definition log_service ::
  "'a world_scheme ai_deps \<Rightarrow> LLMAdapter \<Rightarrow> http_request \<Rightarrow> string \<Rightarrow> ('a, ai_reply \<times> LLMAdapter) go" where
  "log_service d llm r msg = analyzeLog d llm (r\<lparr>rq_Method := ''POST'', rq_Body := msg\<rparr>)"

lemma request_arrives:
  assumes "wf_log_request q"
  shows "log_service d llm r (print_json (log_json q)) =
    do { req \<leftarrow> (case ai_repos d of
           Some b \<Rightarrow>
             if lq_InstanceID q > 0 then do {
               found \<leftarrow> GetInstance (bd_TaskInstance b) (lq_InstanceID q);
               case found of
                 Inl _ \<Rightarrow> State_Monad.return q
               | Inr inst \<Rightarrow> do {
                   task \<leftarrow> GetTask (bd_Task b) (i_TaskID inst);
                   State_Monad.return (enrich inst (case task of Inl _ \<Rightarrow> None | Inr t \<Rightarrow> Some t) q) } }
             else State_Monad.return q
         | None \<Rightarrow> State_Monad.return q);
      conclude d ''log_analysis'' 400 ''log_analysis'' (LogInput req) LogOutput an_Confidence LogOutput
        (Log_AnalyzeWithLLM (ai_net d) llm (lq_Log req) (lq_ErrorCode req) (lq_TaskType req) (lq_RetryCount req)) }"
  using log_requests.Decode_written [OF assms] by (simp add: log_service_def analyzeLog_def zero_log_request_def)

lemma AnalyzeLog_errors:
  "AnalyzeLog bad_url post url l e t n k = Inr x \<Longrightarrow>
     bad_url (url @ ''/api/v1/log-analysis/analyze'') = None \<and> (\<exists>code msg reply_text. post (url @ ''/api/v1/log-analysis/analyze'') msg = Inr (code, reply_text) \<and>
       code < 300 \<and> Decode analysis_fields reply_text zero_result = Some x)"
  by (fastforce simp: AnalyzeLog_def Let_def split: option.splits sum.splits if_splits)

end
