(* ===== verification/Processes.thy ===== *)
theory Processes
  imports Wire Mysql Leader AIClient
begin

text \<open>
  \<^verbatim>\<open>cmd/worker/main.go\<close> and what \<^verbatim>\<open>cmd/scheduler/main.go\<close> adds to the parts it wires: the start of a worker, its HTTP server and its heartbeats; how
  full a scheduler may get, when it may start its loops, and the snapshots of load it takes; of \<^verbatim>\<open>cmd/ai-service/main.go\<close> the language model the
  environment names and the hourly cleanup. A process that cannot start
  logs a message and exits, here \<open>Inl\<close> with that message. The goroutines that repeat a tick are not modelled.
\<close>

section \<open>The worker\<close>

definition worker_id :: "(string \<Rightarrow> string) \<Rightarrow> string \<Rightarrow> string" where
  "worker_id getenv hostname =
     (if getenv ''WORKER_ID'' = [] then hostname @ cfg_HTTPAddr (Default getenv ''worker'') else getenv ''WORKER_ID'')"

definition register_request :: "(string \<Rightarrow> string) \<Rightarrow> string \<Rightarrow> WorkerRegistrationRequest" where
  "register_request getenv hostname =
     (let cfg = Default getenv ''worker'' in
      \<lparr>wr_WorkerID = worker_id getenv hostname, wr_Hostname = hostname, wr_IP = ''127.0.0.1'',
       wr_CallbackURL = ''http://127.0.0.1'' @ cfg_HTTPAddr cfg, wr_GRPCAddr = ''127.0.0.1'' @ cfg_GRPCAddr cfg,
       wr_Protocol = cfg_InternalProtocol cfg, wr_MaxConcurrency = 100, wr_Labels = [(''env'', ''local''), (''zone'', ''dev'')]\<rparr>)"

definition heartbeat_client :: "(string \<Rightarrow> string) \<Rightarrow> bool \<Rightarrow> HeartbeatClient" where
  "heartbeat_client getenv dialled =
     (let cfg = Default getenv ''worker'' in NewHeartbeatClient (cfg_SchedulerURL cfg) (cfg_InternalProtocol cfg) dialled)"

text \<open>\<open>dialled\<close> tells whether \<^verbatim>\<open>grpc.Dial\<close> made a connection, \<open>listen\<close> what opening the gRPC port gives.\<close>

definition worker_boot ::
    "(string \<Rightarrow> string) \<Rightarrow> error + string \<Rightarrow> string \<Rightarrow> bool \<Rightarrow> error option \<Rightarrow> (string + Handler) wk" where
  "worker_boot getenv hostname tempdir dialled listen =
     (case hostname of Inl _ \<Rightarrow> raise ''read hostname''
      | Inr host \<Rightarrow> do {
          h \<leftarrow> NewHandler (worker_id getenv host) (NewReportClient (cfg_InternalProtocol (Default getenv ''worker'')) dialled)
            tempdir (256 * 1024 * 1024) tempdir;
          case listen of Some _ \<Rightarrow> raise ''listen worker grpc''
          | None \<Rightarrow> do {
              r \<leftarrow> Register (heartbeat_client getenv dialled) (register_request getenv host);
              case r of Inl _ \<Rightarrow> raise ''register worker'' | Inr _ \<Rightarrow> ret h } })"

definition UnixMilli :: "time \<Rightarrow> int" where
  "UnixMilli t = t div millisecond"

definition heartbeat_request :: "string \<Rightarrow> int \<Rightarrow> time \<Rightarrow> WorkerHeartbeatRequest" where
  "heartbeat_request workerID runningTasks now =
     \<lparr>hr_WorkerID = workerID, hr_CurrentLoad = runningTasks, hr_RunningTasks = runningTasks, hr_ReportUnixMilli = UnixMilli now\<rparr>"

text \<open>One round of the loop; an error is only logged.\<close>

definition heartbeat_tick :: "HeartbeatClient \<Rightarrow> string \<Rightarrow> unit wk" where
  "heartbeat_tick client workerID = do {
     runningTasks \<leftarrow> RunningTasks;
     now \<leftarrow> now_wk;
     _ \<leftarrow> send_heartbeat client (heartbeat_request workerID runningTasks now);
     State_Monad.return () }"

text \<open>The HTTP server: the response, and the request the handler runs.\<close>

definition worker_mux :: "string \<Rightarrow> string \<Rightarrow> string \<Rightarrow> (response \<times> ExecuteTaskRequest option) wk" where
  "worker_mux meth path body =
     (if path = ''/healthz'' then State_Monad.return (\<lparr>rs_Status = 200, rs_Body = Pairs [(''status'', ''ok'')]\<rparr>, None)
      else if path = ''/metrics'' then do {
        text \<leftarrow> reads (Render \<circ> k_registry);
        State_Monad.return (\<lparr>rs_Status = 200, rs_Body = payload.Text text\<rparr>, None) }
      else if path = ''/internal/tasks/execute'' then State_Monad.return (Execute_HTTP meth body)
      else if path = ''/internal/tasks/cancel'' then do {
        resp \<leftarrow> CancelHTTP meth body;
        State_Monad.return (resp, None) }
      else State_Monad.return (\<lparr>rs_Status = 404, rs_Body = payload.Text ''404 page not found''\<rparr>, None))"

definition serve_worker :: "string \<Rightarrow> string \<Rightarrow> string \<Rightarrow> (response \<times> ExecuteTaskRequest option) wk" where
  "serve_worker meth path body = do {
     r \<leftarrow> worker_mux meth path body;
     modify (\<lambda>w. w\<lparr>k_registry := IncCounter (k_unicode_print w) ''http_requests_total'' [(''service'', ''worker''), (''method'', meth),
       (''path'', path), (''status'', itoa (rs_Status (fst r)))] (k_registry w)\<rparr>);
     State_Monad.return r }"

section \<open>The scheduler\<close>

definition backpressure_config :: "AppConfig \<Rightarrow> BackpressureConfig" where
  "backpressure_config cfg =
     (if cfg_MaxPending cfg > 0 then DefaultBackpressureConfig\<lparr>bc_MaxPending := cfg_MaxPending cfg\<rparr> else DefaultBackpressureConfig)"

text \<open>
  From the start to the election; the loops and servers start when it gives \<open>Inr\<close>. It is \<open>None\<close> while the process waits for the lock for ever.
\<close>

definition scheduler_boot :: "(string \<Rightarrow> string) \<Rightarrow> outside \<Rightarrow> filesystem \<Rightarrow> (string list \<Rightarrow> error option) \<Rightarrow> election \<Rightarrow>
    database \<Rightarrow> 'a world_scheme \<Rightarrow> ((string + unit) \<times> database \<times> 'a world_scheme) option" where
  "scheduler_boot getenv out fs etcd_client e db w =
     (let cfg = Default getenv ''scheduler'' in
      case run_state (BuildResources out fs cfg) db of
        (Inl msg, db') \<Rightarrow> Some (Inl msg, db', w)
      | (Inr _, db') \<Rightarrow>
          map_option (\<lambda>(r, w'). (case r of Inl _ \<Rightarrow> Inl ''acquire leadership'' | Inr _ \<Rightarrow> Inr (), db', w'))
            (Acquire e (NewElector etcd_client True (cfg_EtcdAddrs cfg)) w))"

definition snapshot_of :: "WorkerNode \<Rightarrow> WorkerLoadSnapshot" where
  "snapshot_of x = \<lparr>l_ID = 0, l_WorkerID = w_ID x, l_CurrentLoad = w_CurrentLoad x, l_MaxConcurrency = w_MaxConcurrency x,
     l_Status = w_Status x, l_RecordedAt = zero_time\<rparr>"

fun record_loads :: "'w tables \<Rightarrow> WorkerNode list \<Rightarrow> ('w, unit) state" where
  "record_loads D [] = State_Monad.return ()"
| "record_loads D (x # xs) = do { _ \<leftarrow> my_CreateSnapshot D (snapshot_of x); record_loads D xs }"

definition retention :: duration where
  "retention = 7 * 24 * hour"

text \<open>One tick, with the time read in it.\<close>

definition snapshot_tick :: "'w WorkerRepository \<Rightarrow> 'w tables \<Rightarrow> time \<Rightarrow> ('w, unit) state" where
  "snapshot_tick W D now = do {
     r \<leftarrow> ListWorkers W;
     case r of
       Inl _ \<Rightarrow> State_Monad.return ()
     | Inr workers \<Rightarrow> do {
         record_loads D workers;
         _ \<leftarrow> my_DeleteSnapshotsBefore D (now - retention);
         State_Monad.return () } }"

text \<open>Etcd stops no scheduler: with the endpoints of the default configuration every one whose database answers starts its loops.\<close>

lemma scheduler_boot_etcd:
  assumes "getenv ''ETCD_ENDPOINTS'' = []" "run_state (BuildResources out fs (Default getenv ''scheduler'')) db = (Inr redis, db')"
  shows "\<exists>w'. scheduler_boot getenv out fs etcd_client e db w = Some (Inr (), db', w') \<and> w'\<lparr>registry := registry w\<rparr> = w"
proof -
  have "cfg_EtcdAddrs (Default getenv ''scheduler'') \<noteq> []" using etcd_addrs [of getenv "''scheduler''"] assms(1) by simp
  then show ?thesis
    using assms(2) by (auto simp: scheduler_boot_def NewElector_def newEtcdElector_def Acquire_def local_Acquire_def etcd_Acquire_def
        count_election_def Let_def split: option.split)
qed

section \<open>The AI service\<close>

definition defaultStr :: "string \<Rightarrow> string \<Rightarrow> string" where
  "defaultStr val d = (if val = [] then d else val)"

definition env_llm :: "(string \<Rightarrow> string) \<Rightarrow> LLMAdapter" where
  "env_llm getenv =
     (let llm = New \<lparr>cf_Endpoint = getenv ''LLM_ENDPOINT'', cf_APIKey = getenv ''LLM_API_KEY'',
            cf_Model = defaultStr (getenv ''LLM_MODEL'') ''gpt-4o'', cf_Timeout = 30 * second\<rparr>
      in if llm \<noteq> None \<and> Enabled llm then
           (let fb = New \<lparr>cf_Endpoint = getenv ''LLM_FALLBACK_ENDPOINT'', cf_APIKey = getenv ''LLM_FALLBACK_API_KEY'',
                  cf_Model = defaultStr (getenv ''LLM_FALLBACK_MODEL'') ''gpt-4o'', cf_Timeout = 30 * second\<rparr>
            in if fb \<noteq> None then SetFallback llm fb else llm)
         else llm)"

text \<open>The hourly cleanup of analyses and conversations, with the two times read; errors are only logged.\<close>

definition hourly_cleanup :: "'w tables \<Rightarrow> time \<Rightarrow> time \<Rightarrow> 'w \<times> Store \<Rightarrow> 'w \<times> Store" where
  "hourly_cleanup D now now' = (\<lambda>(w, s).
     (snd (run_state (my_DeleteOldRecords D (now - 90 * 24 * hour)) w), snd (DeleteOldConversations (now' - 30 * 24 * hour) s)))"

lemma env_llm_parts:
  "Enabled (env_llm getenv) \<longleftrightarrow> getenv ''LLM_ENDPOINT'' \<noteq> []"
  "(\<exists>l m. env_llm getenv = Some (l, Some m) \<and> ll_endpoint m = getenv ''LLM_FALLBACK_ENDPOINT'') \<longleftrightarrow>
     getenv ''LLM_ENDPOINT'' \<noteq> [] \<and> getenv ''LLM_FALLBACK_ENDPOINT'' \<noteq> []"
  by (simp_all add: env_llm_def New_def Enabled_def SetFallback_def Let_def)

text \<open>A conversation that was touched within thirty days keeps its messages; of the others nothing is left.\<close>

lemma cleanup_keeps_recent:
  assumes "\<forall>n. db_fail s n = None" "distinct (map c_ID (ai_conversation s))"
  shows "case hourly_cleanup D now now' (w, s) of (_, s') \<Rightarrow>
    ai_conversation s' = filter (\<lambda>c. now' - 30 * 24 * hour \<le> c_UpdatedAt c) (ai_conversation s) \<and>
    (\<forall>c \<in> set (ai_conversation s). filter (\<lambda>m. h_ConversationID m = c_ID c) (ai_message s') =
       (if now' - 30 * 24 * hour \<le> c_UpdatedAt c then filter (\<lambda>m. h_ConversationID m = c_ID c) (ai_message s) else []))"
proof -
  have one: "d = c" if "c \<in> set (ai_conversation s)" "d \<in> set (ai_conversation s)" "c_ID d = c_ID c" for c d
    using assms(2) that by (metis distinct_map inj_onD)
  show ?thesis
    using assms(1)
    by (auto simp: hourly_cleanup_def DeleteOldConversations_def Exec_def drop_messages_def drop_conversations_def Let_def not_less not_le
        filter_empty_conv intro!: filter_cong dest: one)
qed

section \<open>Snapshots of load\<close>

text \<open>The table of snapshots: gorm fills no time of its own, and \<open>legal\<close> is whether the server takes the rows.\<close>

definition load_fit :: "(time \<Rightarrow> time) \<Rightarrow> workerLoadSnapshotRow \<Rightarrow> workerLoadSnapshotRow" where
  "load_fit col r = r\<lparr>lr_RecordedAt := col (lr_RecordedAt r)\<rparr>"

locale load_table = gorm_table "tab_load D" rows up lr_ID "\<lambda>k r. r\<lparr>lr_ID := k\<rparr>" "\<lambda>_ r. r" "\<lambda>_ r. r" "load_fit col" legal
  for D :: "'w tables" and rows up and col and legal

context load_table
begin

lemma CreateSnapshot_run:
  assumes "up w"
  shows "\<exists>res w' new. run_state (my_CreateSnapshot D (snapshot_of x)) w = (res, w') \<and> up w' \<and> rows w' = rows w @ new \<and>
    (\<forall>r \<in> set new. lr_RecordedAt r = col zero_time)"
proof -
  let ?row = "\<lparr>lr_ID = 0, lr_WorkerID = w_ID x, lr_CurrentLoad = w_CurrentLoad x, lr_MaxConcurrency = w_MaxConcurrency x,
     lr_Status = w_Status x, lr_RecordedAt = zero_time\<rparr>"
  obtain k w' res where c: "run_state (tb_Create (tab_load D) ?row) w = (res, w')" "up w'"
      "if legal (rows w @ [load_fit col (?row\<lparr>lr_ID := k\<rparr>)])
       then res = Inr (?row\<lparr>lr_ID := k\<rparr>) \<and> rows w' = rows w @ [load_fit col (?row\<lparr>lr_ID := k\<rparr>)]
       else (\<exists>e. res = Inl e) \<and> rows w' = rows w"
    using create [OF assms, of ?row] by blast
  then show ?thesis
    by (cases "legal (rows w @ [load_fit col (?row\<lparr>lr_ID := k\<rparr>)])")
      (auto simp: my_CreateSnapshot_def snapshot_of_def load_fit_def)
qed

lemma record_loads_run:
  assumes "up w"
  shows "\<exists>w' new. run_state (record_loads D xs) w = ((), w') \<and> up w' \<and> rows w' = rows w @ new \<and>
    (\<forall>r \<in> set new. lr_RecordedAt r = col zero_time)"
  using assms
proof (induction xs arbitrary: w)
  case (Cons x xs)
  obtain res w1 new where 1: "run_state (my_CreateSnapshot D (snapshot_of x)) w = (res, w1)" "up w1" "rows w1 = rows w @ new"
      "\<forall>r \<in> set new. lr_RecordedAt r = col zero_time"
    using CreateSnapshot_run [OF Cons.prems] by blast
  obtain w2 new' where 2: "run_state (record_loads D xs) w1 = ((), w2)" "up w2" "rows w2 = rows w1 @ new'"
      "\<forall>r \<in> set new'. lr_RecordedAt r = col zero_time"
    using Cons.IH [OF 1(2)] by blast
  show ?case
    by (rule exI [where x = w2], rule exI [where x = "new @ new'"]) (use 1 2 in auto)
qed simp

lemma snapshot_tick_run:
  assumes "run_state (ListWorkers W) w = (Inr ws, w1)" "up w1" "rows w1 = rows w" "col zero_time < now - retention"
  shows "rows (snd (run_state (snapshot_tick W D now) w)) = filter (\<lambda>r. \<not> lr_RecordedAt r < now - retention) (rows w)"
proof -
  obtain w2 new where 2: "run_state (record_loads D ws) w1 = ((), w2)" "up w2" "rows w2 = rows w1 @ new"
      "\<forall>r \<in> set new. lr_RecordedAt r = col zero_time"
    using record_loads_run [OF assms(2)] by blast
  have "filter (\<lambda>r. \<not> lr_RecordedAt r < now - retention) new = []"
    using 2(4) assms(4) by (simp add: filter_empty_conv)
  with 2(3) assms(3) have "filter (\<lambda>r. \<not> lr_RecordedAt r < now - retention) (rows w2) = filter (\<lambda>r. \<not> lr_RecordedAt r < now - retention) (rows w)"
    by simp
  moreover obtain w3 n where "run_state (tb_Delete (tab_load D) (\<lambda>r. lr_RecordedAt r < now - retention)) w2 = (Inr n, w3)"
      "rows w3 = filter (\<lambda>r. \<not> lr_RecordedAt r < now - retention) (rows w2)"
    using delete_rows [OF 2(2), of "\<lambda>r. lr_RecordedAt r < now - retention"] by blast
  ultimately show ?thesis by (simp add: snapshot_tick_def my_DeleteSnapshotsBefore_def assms(1) 2(1))
qed

end

text \<open>
  C39. Over every table that keeps the contract of gorm, whether the server takes a row with the zero time or refuses it: a tick in which the
  workers are listed leaves in the table what was there before and is within the retention, and none of the snapshots it has
  taken. They are written with the zero time, and the tick deletes what is older than seven days.
\<close>

theorem snapshots_vanish:
  assumes "load_table D rows up col legal" "run_state (ListWorkers W) w = (Inr ws, w1)" "up w1" "rows w1 = rows w"
    and "col zero_time < now - retention"
  shows "rows (snd (run_state (snapshot_tick W D now) w)) = filter (\<lambda>r. \<not> lr_RecordedAt r < now - retention) (rows w)"
  by (rule load_table.snapshot_tick_run [OF assms])

definition load_db :: "workerLoadSnapshotRow memory_table tables" where
  "load_db = no_tables\<lparr>tab_load := mem_table lr_ID (next_key lr_ID) (\<lambda>k r. r\<lparr>lr_ID := k\<rparr>) (\<lambda>_ r. r) (\<lambda>_ r. r) (load_fit datetime) (\<lambda>_. True)\<rparr>"

lemma tab_load_db:
  "tab_load load_db = mem_table lr_ID (next_key lr_ID) (\<lambda>k r. r\<lparr>lr_ID := k\<rparr>) (\<lambda>_ r. r) (\<lambda>_ r. r) (load_fit datetime) (\<lambda>_. True)"
  by (simp add: load_db_def)

interpretation mem_loads: load_table load_db mt_rows "\<lambda>_. True" datetime "\<lambda>_. True"
  unfolding load_table_def tab_load_db
  by (rule mem_table_laws) (simp_all add: next_key_fresh load_fit_def)

definition one_worker :: "workerLoadSnapshotRow memory_table WorkerRepository" where
  "one_worker = (mysql_workers load_db)\<lparr>ListWorkers := ret [zero_WorkerNode\<lparr>w_ID := ''w1''\<rparr>]\<rparr>"

theorem snapshots_vanish_witness:
  "mt_rows (snd (run_state (record_loads load_db [zero_WorkerNode\<lparr>w_ID := ''w1''\<rparr>]) empty_table)) \<noteq> [] \<and>
   mt_rows (snd (run_state (snapshot_tick one_worker load_db (60 * second)) empty_table)) = []"
proof
  show "mt_rows (snd (run_state (record_loads load_db [zero_WorkerNode\<lparr>w_ID := ''w1''\<rparr>]) empty_table)) \<noteq> []"
    by (simp add: load_db_def my_CreateSnapshot_def mem_table_def store_rows_def)
  have "run_state (ListWorkers one_worker) empty_table = (Inr [zero_WorkerNode\<lparr>w_ID := ''w1''\<rparr>], empty_table)"
    by (simp add: one_worker_def mysql_workers_def)
  from snapshots_vanish [OF mem_loads.load_table_axioms this, of "60 * second"]
  show "mt_rows (snd (run_state (snapshot_tick one_worker load_db (60 * second)) empty_table)) = []"
    by (simp add: empty_table_def datetime_def zero_time_def retention_def hour_def)
qed

section \<open>A worker joins\<close>

context worker_repository
begin

text \<open>What a registration stores, in full.\<close>

lemma RegisterWorker_stored:
  assumes "ok w" "TrimSpace (wr_WorkerID req) \<noteq> []" "TrimSpace (wr_Hostname req) \<noteq> []" "0 < wr_MaxConcurrency req"
  shows "\<exists>hb w'. let x = \<lparr>w_ID = wr_WorkerID req, w_Hostname = wr_Hostname req, w_IP = wr_IP req, w_CallbackURL = wr_CallbackURL req,
        w_GRPCAddr = wr_GRPCAddr req, w_Protocol = defaultProtocol (wr_Protocol req), w_Status = ''online'',
        w_Labels = EncodeLabels (wr_Labels req), w_MaxConcurrency = wr_MaxConcurrency req, w_CurrentLoad = 0, w_LastHeartbeatAt = hb\<rparr> in
      run_state (RegisterWorker W req) w = (Inr x, w') \<and> ok w' \<and>
      vw w' = (vw w)\<lparr>v_workers := (v_workers (vw w))(wr_WorkerID req \<mapsto> x)\<rparr>"
proof -
  let ?w = "w\<lparr>readings := Suc (readings w)\<rparr>"
  let ?x = "\<lparr>w_ID = wr_WorkerID req, w_Hostname = wr_Hostname req, w_IP = wr_IP req, w_CallbackURL = wr_CallbackURL req,
      w_GRPCAddr = wr_GRPCAddr req, w_Protocol = defaultProtocol (wr_Protocol req), w_Status = ''online'',
      w_Labels = EncodeLabels (wr_Labels req), w_MaxConcurrency = wr_MaxConcurrency req, w_CurrentLoad = 0,
      w_LastHeartbeatAt = clock w (readings w)\<rparr>"
  have "ok ?w" using assms(1) by simp
  from upsert [OF this, of ?x] obtain w' hb where
    u: "run_state (UpsertWorker W ?x) ?w = (Inr (), w')" "ok w'"
       "vw w' = (vw w)\<lparr>v_workers := (v_workers (vw w))(wr_WorkerID req \<mapsto> ?x\<lparr>w_LastHeartbeatAt := hb\<rparr>)\<rparr>"
    by (auto simp: moves_def)
  have "run_state (RegisterWorker W req) w = (Inr (?x\<lparr>w_LastHeartbeatAt := hb\<rparr>), w')"
    using assms u get_worker [OF u(2), of "wr_WorkerID req"] by (simp add: RegisterWorker_def Let_def)
  with u show ?thesis by (intro exI [of _ hb] exI [of _ w']) (simp add: Let_def)
qed

end

text \<open>A process whose settings are texts in UTF-8, with an id and a host name.\<close>

definition wf_boot :: "(string \<Rightarrow> string) \<Rightarrow> string \<Rightarrow> bool" where
  "wf_boot getenv host \<longleftrightarrow>
     (let q = register_request getenv host in
      list_all valid_utf8 [wr_WorkerID q, host, wr_CallbackURL q, wr_GRPCAddr q, wr_Protocol q] \<and>
      TrimSpace (wr_WorkerID q) \<noteq> [] \<and> TrimSpace host \<noteq> [])"

definition posted :: "string \<Rightarrow> string \<Rightarrow> http_request" where
  "posted path body = \<lparr>rq_Method = ''POST'', rq_Path = path, rq_id = [], rq_Query = [], rq_Authorization = [], rq_TenantHeader = [],
     rq_Body = body, rq_Ctx = None, rq_Claims = None\<rparr>"

lemma wf_register_request: "wf_boot getenv host \<Longrightarrow> wf_registration (register_request getenv host)"
  by (simp add: wf_boot_def wf_registration_def register_request_def Let_def utf8_ascii byte_def in_int64_def utf8_labels_def wf_map_def)

lemma boot_posts:
  assumes "hc_protocol (heartbeat_client getenv dialled) \<noteq> ''grpc''" "k_url_error k (hc_baseURL (heartbeat_client getenv dialled) @ ''/api/v1/workers/register'') = None"
  shows "k_outbox (snd (run_state (worker_boot getenv (Inr host) tempdir dialled None) k)) =
    k_outbox k @ [RegisterHTTP (hc_baseURL (heartbeat_client getenv dialled) @ ''/api/v1/workers/register'') (register_request getenv host)]"
  using assms
  by (auto simp: worker_boot_def NewHandler_def disk_def Register_def post_hb_def post_wk_def Let_def split: option.splits sum.splits)

lemma tick_posts:
  assumes "hc_protocol c \<noteq> ''grpc''" "k_url_error k (hc_baseURL c @ ''/api/v1/workers/heartbeat'') = None"
  shows "k_outbox (snd (run_state (heartbeat_tick c wid) k)) =
    k_outbox k @ [HeartbeatHTTP (hc_baseURL c @ ''/api/v1/workers/heartbeat'') (heartbeat_request wid (k_running k) (k_clock k (k_readings k)))]"
  using assms
  by (auto simp: heartbeat_tick_def RunningTasks_def now_wk_def send_heartbeat_def post_hb_def post_wk_def Let_def split: sum.splits)

text \<open>The worker as the scheduler stores it.\<close>

definition joined_node :: "(string \<Rightarrow> string) \<Rightarrow> string \<Rightarrow> int \<Rightarrow> time \<Rightarrow> WorkerNode" where
  "joined_node getenv host load hb =
     (let cfg = Default getenv ''worker'' in
      \<lparr>w_ID = worker_id getenv host, w_Hostname = host, w_IP = ''127.0.0.1'', w_CallbackURL = ''http://127.0.0.1'' @ cfg_HTTPAddr cfg,
       w_GRPCAddr = ''127.0.0.1'' @ cfg_GRPCAddr cfg, w_Protocol = defaultProtocol (cfg_InternalProtocol cfg), w_Status = ''online'',
       w_Labels = EncodeLabels [(''env'', ''local''), (''zone'', ''dev'')], w_MaxConcurrency = 100, w_CurrentLoad = load,
       w_LastHeartbeatAt = hb\<rparr>)"

lemma joined_beat:
  "(joined_node getenv host l hb)\<lparr>w_Status := ''online'', w_CurrentLoad := n, w_LastHeartbeatAt := t\<rparr> = joined_node getenv host n t"
  by (simp add: joined_node_def Let_def)

lemma registration_served:
  assumes "stores_ok w" "sa_workers a = test_workers" "wf_boot getenv host"
  shows "\<exists>resp w' hb. run_state (serve_scheduler a sr_register (posted path (print_json (registration_json (register_request getenv host))))) w =
      (resp, w') \<and> response.rs_Status resp = 201 \<and> stores_ok w' \<and>
    test_view w' = (test_view w)\<lparr>v_workers := (v_workers (test_view w))(worker_id getenv host \<mapsto> joined_node getenv host 0 hb)\<rparr>"
proof -
  let ?q = "register_request getenv host"
  have d: "decode_registration (print_json (registration_json ?q)) = Some ?q"
    by (simp add: decode_registration_def registrations.Decode_written [OF wf_register_request [OF assms(3)], unfolded zero_registration_def])
  have q: "TrimSpace (wr_WorkerID ?q) \<noteq> []" "TrimSpace (wr_Hostname ?q) \<noteq> []" "0 < wr_MaxConcurrency ?q"
    using assms(3) by (simp_all add: wf_boot_def register_request_def Let_def)
  obtain hb w' where r: "run_state (RegisterWorker test_workers ?q) w = (Inr (joined_node getenv host 0 hb), w')" "stores_ok w'"
      "test_view w' = (test_view w)\<lparr>v_workers := (v_workers (test_view w))(worker_id getenv host \<mapsto> joined_node getenv host 0 hb)\<rparr>"
    using ts.RegisterWorker_stored [OF assms(1) q] by (auto simp: register_request_def joined_node_def Let_def)
  then show ?thesis
    by (auto simp: serve_scheduler_def Instrument_def WorkerHandler_Register_def answer_def assms(2) posted_def d writeJSON_def intro!: exI [where x = hb])
qed

lemma heartbeat_served:
  assumes "stores_ok w" "sa_workers a = test_workers" "v_workers (test_view w) wid = Some x" "TrimSpace wid \<noteq> []" "valid_utf8 wid"
    and "in_int64 n" "0 < UnixMilli now" "in_int64 (UnixMilli now)"
  shows "\<exists>resp w'. run_state (serve_scheduler a sr_heartbeat (posted path (print_json (heartbeat_json (heartbeat_request wid n now))))) w =
      (resp, w') \<and> response.rs_Status resp = 200 \<and> stores_ok w' \<and> test_view w' = (test_view w)\<lparr>v_workers := (v_workers (test_view w))
      (wid \<mapsto> x\<lparr>w_Status := ''online'', w_CurrentLoad := n, w_LastHeartbeatAt := UnixMilli now * millisecond\<rparr>)\<rparr>"
proof -
  let ?h = "heartbeat_request wid n now"
  have h: "TrimSpace (hr_WorkerID ?h) \<noteq> []" "hr_WorkerID ?h = wid" "hr_CurrentLoad ?h = n" "hr_RunningTasks ?h = n"
    "hr_ReportUnixMilli ?h = UnixMilli now"
    using assms(4) by (simp_all add: heartbeat_request_def)
  have "wf_heartbeat ?h" using assms(5-8) by (simp add: wf_heartbeat_def h)
  then have d: "decode_heartbeat (print_json (heartbeat_json ?h)) = Some ?h"
    by (simp add: decode_heartbeat_def heartbeats.Decode_written [unfolded zero_heartbeat_def])
  from ts.Heartbeat_run [OF assms(1) h(1), unfolded h, OF assms(3)] assms(7) show ?thesis
    by (auto simp: serve_scheduler_def Instrument_def WorkerHandler_Heartbeat_def answer_def assms(2) posted_def d writeJSON_def)
qed

text \<open>
  C14. A worker joins: the registration a worker process posts when it starts, and the heartbeat it posts then, are read by
  the scheduler, which answers both with success and has the worker stored, online and with the addresses of its configuration, the load that
  is the number of tasks it runs, and the time of the heartbeat to the millisecond; other workers stay as they were. A request
  dispatched to it is accepted by its server and run as it was.
\<close>

theorem worker_joins:
  fixes k :: worker
  assumes "stores_ok w" "sa_workers a = test_workers" "wf_boot getenv host" "wf_execute q"
    and "c = heartbeat_client getenv dialled" "hc_protocol c \<noteq> ''grpc''" "\<forall>path. k_url_error k (hc_baseURL c @ path) = None"
    and "now = k_clock k (k_readings k)" "in_int64 (k_running k)" "0 < UnixMilli now" "in_int64 (UnixMilli now)"
  shows "\<exists>reg h resp w1 resp' w2.
      k_outbox (snd (run_state (worker_boot getenv (Inr host) tempdir dialled None) k)) =
        k_outbox k @ [RegisterHTTP (hc_baseURL c @ ''/api/v1/workers/register'') reg] \<and>
      k_outbox (snd (run_state (heartbeat_tick c (worker_id getenv host)) k)) =
        k_outbox k @ [HeartbeatHTTP (hc_baseURL c @ ''/api/v1/workers/heartbeat'') h] \<and>
      run_state (serve_scheduler a sr_register (posted ''/api/v1/workers/register'' (print_json (registration_json reg)))) w = (resp, w1) \<and>
      run_state (serve_scheduler a sr_heartbeat (posted ''/api/v1/workers/heartbeat'' (print_json (heartbeat_json h)))) w1 = (resp', w2) \<and>
      response.rs_Status resp = 201 \<and> response.rs_Status resp' = 200 \<and> stores_ok w2 \<and>
      test_view w2 = (test_view w)\<lparr>v_workers := (v_workers (test_view w))
        (worker_id getenv host \<mapsto> joined_node getenv host (k_running k) (UnixMilli now * millisecond))\<rparr> \<and>
      fst (run_state (serve_worker ''POST'' ''/internal/tasks/execute'' (marshal_request q)) k) =
        (\<lparr>rs_Status = 202, rs_Body = Pairs [(''status'', ''accepted'')]\<rparr>, Some q)"
proof -
  let ?wid = "worker_id getenv host" and ?url = "hc_baseURL c"
  have wid: "TrimSpace ?wid \<noteq> []" "valid_utf8 ?wid"
    using assms(3) by (simp_all add: wf_boot_def register_request_def Let_def)
  have reg: "k_outbox (snd (run_state (worker_boot getenv (Inr host) tempdir dialled None) k)) =
      k_outbox k @ [RegisterHTTP (?url @ ''/api/v1/workers/register'') (register_request getenv host)]"
    unfolding assms(5) by (rule boot_posts) (use assms(5-7) in simp_all)
  have h: "k_outbox (snd (run_state (heartbeat_tick c ?wid) k)) =
      k_outbox k @ [HeartbeatHTTP (?url @ ''/api/v1/workers/heartbeat'') (heartbeat_request ?wid (k_running k) now)]"
    unfolding assms(8) by (rule tick_posts) (use assms(6,7) in simp_all)
  obtain resp w1 hb where 1: "run_state (serve_scheduler a sr_register (posted ''/api/v1/workers/register''
        (print_json (registration_json (register_request getenv host))))) w = (resp, w1)" "response.rs_Status resp = 201" "stores_ok w1"
      "test_view w1 = (test_view w)\<lparr>v_workers := (v_workers (test_view w))(?wid \<mapsto> joined_node getenv host 0 hb)\<rparr>"
    using registration_served [OF assms(1-3)] by blast
  have upd: "(test_view w1)\<lparr>v_workers := (v_workers (test_view w1))(?wid \<mapsto> x)\<rparr> = (test_view w)\<lparr>v_workers := (v_workers (test_view w))(?wid \<mapsto> x)\<rparr>" for x
    by (simp add: 1(4))
  from 1(4) have "v_workers (test_view w1) ?wid = Some (joined_node getenv host 0 hb)" by simp
  from heartbeat_served [OF 1(3) assms(2) this wid assms(9-11), unfolded joined_beat upd] obtain resp' w2 where 2:
      "run_state (serve_scheduler a sr_heartbeat (posted ''/api/v1/workers/heartbeat''
        (print_json (heartbeat_json (heartbeat_request ?wid (k_running k) now))))) w1 = (resp', w2)" "response.rs_Status resp' = 200" "stores_ok w2"
      "test_view w2 = (test_view w)\<lparr>v_workers := (v_workers (test_view w))
        (?wid \<mapsto> joined_node getenv host (k_running k) (UnixMilli now * millisecond))\<rparr>"
    by blast
  have "fst (run_state (serve_worker ''POST'' ''/internal/tasks/execute'' (marshal_request q)) k) =
      (\<lparr>rs_Status = 202, rs_Body = Pairs [(''status'', ''accepted'')]\<rparr>, Some q)"
    by (simp add: serve_worker_def worker_mux_def Execute_HTTP_def marshal_request_json execute.Decode_written [OF assms(4)])
  with reg h 1(1,2) 2 show ?thesis by blast
qed

text \<open>At a worker with no variables set, that runs two tasks.\<close>

definition test_scheduler :: "stores scheduler_api" where
  "test_scheduler = \<lparr>sa_tasks = test_tasks, sa_instances = test_instances, sa_workers = test_workers, sa_runtime = sample_runtime,
     sa_snapshots = (\<lambda>_ _ _ _. ret [])\<rparr>"

definition busy_worker :: worker where
  "busy_worker = lone_worker\<lparr>k_running := 2, k_clock := (\<lambda>_. 7 * second)\<rparr>"

lemma worker_defaults:
  "cfg_HTTPAddr (Default (\<lambda>_. []) ''worker'') = '':8081''" "cfg_GRPCAddr (Default (\<lambda>_. []) ''worker'') = '':9091''"
  "cfg_InternalProtocol (Default (\<lambda>_. []) ''worker'') = ''http''" "worker_id (\<lambda>_. []) ''node'' = ''node:8081''"
  by (simp_all add: Default_def env_or_def for_service_def base_config_def Let_def worker_id_def)

theorem worker_joins_witness:
  "\<exists>reg h resp w1 resp' w2.
     run_state (serve_scheduler test_scheduler sr_register (posted ''/api/v1/workers/register'' (print_json (registration_json reg)))) sample = (resp, w1) \<and>
     run_state (serve_scheduler test_scheduler sr_heartbeat (posted ''/api/v1/workers/heartbeat'' (print_json (heartbeat_json h)))) w1 = (resp', w2) \<and>
     wr_CallbackURL (register_request (\<lambda>_. []) ''node'') = ''http://127.0.0.1:8081'' \<and>
     v_workers (test_view w2) ''node:8081'' = Some (joined_node (\<lambda>_. []) ''node'' 2 (7 * second))"
proof -
  have ms: "UnixMilli (7 * second) = 7000" by (simp add: UnixMilli_def)
  have boot: "wf_boot (\<lambda>_. []) ''node''"
    unfolding wf_boot_def register_request_def Let_def worker_defaults by (simp add: utf8_ascii byte_def) code_simp
  have proto: "hc_protocol (heartbeat_client (\<lambda>_. []) True) \<noteq> ''grpc''"
    unfolding heartbeat_client_def NewHeartbeatClient_def Let_def worker_defaults by simp code_simp
  have q: "wf_execute zero_ExecuteTaskRequest"
    by (simp add: wf_execute_def zero_ExecuteTaskRequest_def utf8_ascii in_int64_def)
  have k: "\<forall>path. k_url_error busy_worker (hc_baseURL (heartbeat_client (\<lambda>_. []) True) @ path) = None"
    "7 * second = k_clock busy_worker (k_readings busy_worker)" "in_int64 (k_running busy_worker)" "k_running busy_worker = 2"
    by (simp_all add: busy_worker_def lone_worker_def in_int64_def)
  have a: "sa_workers test_scheduler = test_workers" by (simp add: test_scheduler_def)
  have t: "0 < UnixMilli (7 * second)" "in_int64 (UnixMilli (7 * second))" unfolding ms by (simp_all add: in_int64_def)
  have "wr_CallbackURL (register_request (\<lambda>_. []) ''node'') = ''http://127.0.0.1:8081''"
    by (simp add: register_request_def Let_def worker_defaults)
  with worker_joins [OF sample_ok a boot q refl proto k(1-3) t, where tempdir = "''/tmp''"] show ?thesis
    unfolding worker_defaults k(4) ms by (elim exE conjE, intro exI conjI) (assumption | simp)+
qed

end
